(* ===== verification/Prelude.thy ===== *)
theory Prelude
  imports Main "HOL-Library.AList" "HOL-Library.Multiset"
begin

text \<open>
  What every component of the development shares.

  \<^item> Python's exceptions as values: a class and the message that \<open>str(exc)\<close> returns.
  \<^item> The state-and-exception computation \<open>('s, 'a) py\<close>: a method that may mutate the
    object state \<open>'s\<close> and either returns a value or raises. As in Python, whatever was
    mutated before the raise stays mutated.
  \<^item> \<open>dict\<close> as an association list in insertion order (\<open>AList.update\<close> overwrites in place
    and appends a new key, \<open>AList.delete\<close> removes, \<open>map_of\<close> looks up), with the lemmas on
    keys that the registries share.
  \<^item> \<open>list.sort(key=..., reverse=True)\<close>, which keeps the order of equal elements.
\<close>

named_theorems py_simps "unfolding the state-and-exception computations"

section \<open>Exceptions\<close>

datatype exn_class =
    ValueError | KeyError | TypeError | AttributeError | IntegrityError
  | NotImplementedYetError
  | DuplicateHandlerError | UnknownEventError
  | StageNotFoundError | DuplicateStageError | StageDependencyError
  | CheckpointError | PipelineCancelledError
  | EntityNotFoundError
  | InvalidTaskStateError | TaskHandlerNotFoundError
  | InvalidRequestStateError | DuplicateRequestError
  | DuplicatePluginError | MissingDependencyError | CircularDependencyError
  | IncompatibleKernelError | PluginDisabledError
  | DuplicateModuleError | ModuleNotFoundError
  | ArtifactNotFoundError | ArtifactAlreadyExistsError | ArtifactValidationError
  | ArtifactChecksumError | ArtifactStateError
  | InvariantViolationError
  | OcrCacheBackendNotFoundError | QualityCalculatorNotFoundError | OcrPipelineStepNotFoundError
  | ImageOperationError | BenchmarkRunnerNotFoundError | IndexError
  | WorkspaceNotFoundError | WorkspaceAlreadyOpenError | WorkspaceLockError | WorkspaceValidationError
  | RuntimeError | DuplicateArtifactError | ArtifactRepositoryNotFoundError
  | InvalidStorageURIError | StorageNotFoundError | StoragePermissionDeniedError
  | FileExistsError | NotADirectoryError | IsADirectoryError
  | InvalidPathError | IngestionError | JobNotFoundError | InvalidJobStateError
  | OtherException string

datatype exn = Exn (exn_class: exn_class) (exn_str: string)

text \<open>\<open>quoted s\<close> is the part \<open>'{s}'\<close> of a formatted message.\<close>

definition quoted :: "string \<Rightarrow> string" where
  "quoted s = CHR 0x27 # s @ [CHR 0x27]"

text \<open>\<open>InvariantViolationError(invariant)\<close>, which puts a prefix before its message.\<close>

definition invariant_violated :: "string \<Rightarrow> exn" where
  "invariant_violated msg = Exn InvariantViolationError (''Invariant violated: '' @ msg)"

section \<open>Computations that mutate and may raise\<close>

type_synonym ('s, 'a) py = "'s \<Rightarrow> (exn + 'a) \<times> 's"

definition py_return :: "'a \<Rightarrow> ('s, 'a) py" where
  "py_return a = (\<lambda>s. (Inr a, s))"

definition py_raise :: "exn_class \<Rightarrow> string \<Rightarrow> ('s, 'a) py" where
  "py_raise c msg = (\<lambda>s. (Inl (Exn c msg), s))"

definition py_bind :: "('s, 'a) py \<Rightarrow> ('a \<Rightarrow> ('s, 'b) py) \<Rightarrow> ('s, 'b) py" where
  "py_bind m f = (\<lambda>s. case m s of (Inl e, s') \<Rightarrow> (Inl e, s') | (Inr a, s') \<Rightarrow> f a s')"

definition py_read :: "('s \<Rightarrow> 'a) \<Rightarrow> ('s, 'a) py" where
  "py_read f = (\<lambda>s. (Inr (f s), s))"

definition py_modify :: "('s \<Rightarrow> 's) \<Rightarrow> ('s, unit) py" where
  "py_modify f = (\<lambda>s. (Inr (), f s))"

definition py_lift :: "exn + 'a \<Rightarrow> ('s, 'a) py" where
  "py_lift r = (\<lambda>s. (r, s))"

text \<open>\<open>try: m except Exception as exc: h(exc)\<close>.\<close>

definition py_try :: "('s, 'a) py \<Rightarrow> (exn \<Rightarrow> ('s, 'a) py) \<Rightarrow> ('s, 'a) py" where
  "py_try m h = (\<lambda>s. case m s of (Inl e, s') \<Rightarrow> h e s' | (Inr a, s') \<Rightarrow> (Inr a, s'))"

definition py_when :: "bool \<Rightarrow> ('s, unit) py \<Rightarrow> ('s, unit) py" where
  "py_when b m = (if b then m else py_return ())"

text \<open>\<open>except C as exc\<close> for one class, and \<open>finally\<close>, which runs on every way out.\<close>

definition py_except :: "exn_class \<Rightarrow> ('s, 'a) py \<Rightarrow> (exn \<Rightarrow> ('s, 'a) py) \<Rightarrow> ('s, 'a) py" where
  "py_except c m h = py_try m (\<lambda>exc. if exn_class exc = c then h exc else py_lift (Inl exc))"

definition py_finally :: "('s, 'a) py \<Rightarrow> ('s, unit) py \<Rightarrow> ('s, 'a) py" where
  "py_finally m f = (\<lambda>s. case m s of (r, s') \<Rightarrow>
     (case f s' of (Inl e, s'') \<Rightarrow> (Inl e, s'') | (Inr _, s'') \<Rightarrow> (r, s'')))"

text \<open>\<open>try: r = m except Exception as exc: ...\<close>, when both ways go on after the \<open>try\<close>: what \<open>m\<close> did, as a value.\<close>

definition py_result :: "('s, 'a) py \<Rightarrow> ('s, exn + 'a) py" where
  "py_result m = (\<lambda>s. (Inr (fst (m s)), snd (m s)))"

text \<open>A method of a field of the object: the field is read, the method runs on it, and is written back.\<close>

definition py_on :: "('s \<Rightarrow> 't) \<Rightarrow> ('t \<Rightarrow> 's \<Rightarrow> 's) \<Rightarrow> ('t, 'a) py \<Rightarrow> ('s, 'a) py" where
  "py_on get put m = (\<lambda>s. case m (get s) of (r, t) \<Rightarrow> (r, put t s))"

text \<open>A \<open>for\<close> loop over a list; a raise in the body leaves the loop.\<close>

fun py_for :: "'a list \<Rightarrow> ('a \<Rightarrow> ('s, unit) py) \<Rightarrow> ('s, unit) py" where
  "py_for [] f = py_return ()"
| "py_for (x # xs) f = py_bind (f x) (\<lambda>_. py_for xs f)"

lemma py_return_app [simp, py_simps]: "py_return a s = (Inr a, s)"
  by (simp add: py_return_def)

lemma py_raise_app [simp, py_simps]: "py_raise c msg s = (Inl (Exn c msg), s)"
  by (simp add: py_raise_def)

lemma py_read_app [simp, py_simps]: "py_read f s = (Inr (f s), s)"
  by (simp add: py_read_def)

lemma py_modify_app [simp, py_simps]: "py_modify f s = (Inr (), f s)"
  by (simp add: py_modify_def)

lemma py_lift_app [simp, py_simps]: "py_lift r s = (r, s)"
  by (simp add: py_lift_def)

lemma py_result_app [simp, py_simps]: "py_result m s = (Inr (fst (m s)), snd (m s))"
  by (simp add: py_result_def)

lemma py_on_app [simp, py_simps]: "py_on get put m s = (fst (m (get s)), put (snd (m (get s))) s)"
  by (simp add: py_on_def split: prod.splits)

lemma py_bind_Inr [simp]: "m s = (Inr a, s') \<Longrightarrow> py_bind m f s = f a s'"
  by (simp add: py_bind_def)

lemma py_bind_Inl [simp]: "m s = (Inl e, s') \<Longrightarrow> py_bind m f s = (Inl e, s')"
  by (simp add: py_bind_def)

lemma py_bind_split:
  "py_bind m f s = (case fst (m s) of Inl e \<Rightarrow> (Inl e, snd (m s)) | Inr a \<Rightarrow> f a (snd (m s)))"
  by (simp add: py_bind_def split: prod.splits sum.splits)

lemma py_bind_eq_Inr:
  "py_bind m f s = (Inr b, s'') \<longleftrightarrow> (\<exists>a s'. m s = (Inr a, s') \<and> f a s' = (Inr b, s''))"
  by (simp add: py_bind_def split: prod.splits sum.splits)

lemma py_try_Inr [simp]: "m s = (Inr a, s') \<Longrightarrow> py_try m h s = (Inr a, s')"
  by (simp add: py_try_def)

lemma py_try_Inl [simp]: "m s = (Inl e, s') \<Longrightarrow> py_try m h s = h e s'"
  by (simp add: py_try_def)

lemma py_try_split:
  "py_try m h s = (case fst (m s) of Inl e \<Rightarrow> h e (snd (m s)) | Inr a \<Rightarrow> (Inr a, snd (m s)))"
  by (simp add: py_try_def split: prod.splits sum.splits)

lemma py_finally_split:
  "py_finally m f s =
    (case fst (f (snd (m s))) of Inl e \<Rightarrow> (Inl e, snd (f (snd (m s)))) | Inr _ \<Rightarrow> (fst (m s), snd (f (snd (m s)))))"
  by (simp add: py_finally_def split: prod.splits sum.splits)

lemma py_when_True [simp]: "py_when True m = m"
  by (simp add: py_when_def)

lemma py_when_False [simp]: "py_when False m = py_return ()"
  by (simp add: py_when_def)

text \<open>What a loop keeps when every iteration keeps it, whether or not an iteration raises.\<close>

lemma py_for_invariant:
  assumes "I s" and "\<And>x s r s'. x \<in> set xs \<Longrightarrow> I s \<Longrightarrow> f x s = (r, s') \<Longrightarrow> I s'"
    and "py_for xs f s = (r, s')"
  shows "I s'"
  using assms
proof (induction xs arbitrary: s)
  case Nil
  then show ?case by simp
next
  case (Cons x xs)
  obtain q t where q: "f x s = (q, t)" by (cases "f x s")
  then have "I t" using Cons.prems(1,2) by (meson list.set_intros(1))
  then show ?case
    using Cons.IH [of t] Cons.prems q by (cases q) auto
qed

text \<open>A computation that leaves a part \<open>f\<close> of the state as it is, whether it returns or raises.\<close>

definition py_keeps :: "('s \<Rightarrow> 'b) \<Rightarrow> ('s, 'a) py \<Rightarrow> bool" where
  "py_keeps f m = (\<forall>s. f (snd (m s)) = f s)"

named_theorems keeps_intros "what leaves a part of the state as it is"

lemma py_keepsD: "py_keeps f m \<Longrightarrow> m s = (r, s') \<Longrightarrow> f s' = f s"
  unfolding py_keeps_def by (metis snd_conv)

lemma py_keeps_snd: "py_keeps f m \<Longrightarrow> f (snd (m s)) = f s"
  by (simp add: py_keeps_def)

lemma py_keeps_basic [keeps_intros]:
  "py_keeps f (py_return a)" "py_keeps f (py_raise c msg)" "py_keeps f (py_read g)" "py_keeps f (py_lift r)"
  by (simp_all add: py_keeps_def)

lemma py_keeps_bind [keeps_intros]:
  "py_keeps f m \<Longrightarrow> (\<And>a. py_keeps f (k a)) \<Longrightarrow> py_keeps f (py_bind m k)"
  by (simp add: py_keeps_def py_bind_split split: sum.splits)

lemma py_keeps_try [keeps_intros]:
  "py_keeps f m \<Longrightarrow> (\<And>e. py_keeps f (h e)) \<Longrightarrow> py_keeps f (py_try m h)"
  by (simp add: py_keeps_def py_try_split split: sum.splits)

lemma py_keeps_when [keeps_intros]: "py_keeps f m \<Longrightarrow> py_keeps f (py_when b m)"
  by (cases b) (simp_all add: py_keeps_basic)

lemma py_keeps_if [keeps_intros]: "py_keeps f m \<Longrightarrow> py_keeps f m' \<Longrightarrow> py_keeps f (if b then m else m')"
  by simp

text \<open>What every value a computation returns satisfies.\<close>

definition py_ensures :: "('a \<Rightarrow> bool) \<Rightarrow> ('s, 'a) py \<Rightarrow> bool" where
  "py_ensures P m = (\<forall>s a s'. m s = (Inr a, s') \<longrightarrow> P a)"

lemma py_ensuresD: "py_ensures P m \<Longrightarrow> m s = (Inr a, s') \<Longrightarrow> P a"
  unfolding py_ensures_def by blast

lemma py_ensures_return: "P a \<Longrightarrow> py_ensures P (py_return a)"
  by (simp add: py_ensures_def)

lemma py_ensures_any: "py_ensures (\<lambda>_. True) m"
  by (simp add: py_ensures_def)

lemma py_ensures_bind:
  "py_ensures Q m \<Longrightarrow> (\<And>a. Q a \<Longrightarrow> py_ensures P (k a)) \<Longrightarrow> py_ensures P (py_bind m k)"
  unfolding py_ensures_def py_bind_eq_Inr by blast

lemma py_ensures_seq: "(\<And>a. py_ensures P (k a)) \<Longrightarrow> py_ensures P (py_bind m k)"
  by (rule py_ensures_bind [OF py_ensures_any])

lemma py_try_eq_Inr:
  "py_try m h s = (Inr b, s'') \<longleftrightarrow> m s = (Inr b, s'') \<or> (\<exists>e s'. m s = (Inl e, s') \<and> h e s' = (Inr b, s''))"
  by (simp add: py_try_def split: prod.splits sum.splits)

lemma py_ensures_try: "py_ensures P m \<Longrightarrow> (\<And>e. py_ensures P (h e)) \<Longrightarrow> py_ensures P (py_try m h)"
  unfolding py_ensures_def py_try_eq_Inr by blast

section \<open>Strings\<close>

text \<open>\<open>sep.join(xs)\<close>.\<close>

fun str_join :: "string \<Rightarrow> string list \<Rightarrow> string" where
  "str_join sep [] = []"
| "str_join sep [x] = x"
| "str_join sep (x # y # xs) = x @ sep @ str_join sep (y # xs)"

text \<open>
  \<open>repr(s)\<close> for code points below 256: double quotes only if the text has a single and no double
  quote; backslash, the quote and the non-printable characters are escaped.
\<close>

definition hex_char :: "nat \<Rightarrow> char" where
  "hex_char n = char_of (if n < 10 then 48 + n else 87 + n)"

definition repr_char :: "char \<Rightarrow> char \<Rightarrow> string" where
  "repr_char q c =
     (let n = of_char c :: nat in
      if c = q \<or> c = CHR 0x5C then [CHR 0x5C, c]
      else if n = 10 then [CHR 0x5C, CHR ''n''] else if n = 13 then [CHR 0x5C, CHR ''r'']
      else if n = 9 then [CHR 0x5C, CHR ''t'']
      else if n < 32 \<or> 127 \<le> n \<and> n \<le> 160 \<or> n = 173
        then [CHR 0x5C, CHR ''x'', hex_char (n div 16), hex_char (n mod 16)]
      else [c])"

definition repr_str :: "string \<Rightarrow> string" where
  "repr_str s =
     (let q = (if CHR 0x27 \<in> set s \<and> CHR 0x22 \<notin> set s then CHR 0x22 else CHR 0x27)
      in q # concat (map (repr_char q) s) @ [q])"

text \<open>\<open>str(n)\<close>.\<close>

fun nat_str :: "nat \<Rightarrow> string" where
  "nat_str n = (if n < 10 then [char_of (48 + n)] else nat_str (n div 10) @ [char_of (48 + n mod 10)])"

declare nat_str.simps [simp del]

definition int_str :: "int \<Rightarrow> string" where
  "int_str i = (if i < 0 then CHR ''-'' # nat_str (nat (- i)) else nat_str (nat i))"

section \<open>Results without a state\<close>

definition and_then :: "exn + 'a \<Rightarrow> ('a \<Rightarrow> exn + 'b) \<Rightarrow> exn + 'b" where
  "and_then x k = (case x of Inl e \<Rightarrow> Inl e | Inr a \<Rightarrow> k a)"

lemma and_then_simps [simp]: "and_then (Inl e) k = Inl e" "and_then (Inr a) k = k a"
  by (simp_all add: and_then_def)

text \<open>The member of an enumeration that has a given value: \<open>E(v)\<close>.\<close>

definition enum_of :: "string \<Rightarrow> ('e \<Rightarrow> string) \<Rightarrow> 'e list \<Rightarrow> string \<Rightarrow> exn + 'e" where
  "enum_of name val members v =
     (case find (\<lambda>e. val e = v) members of
        Some e \<Rightarrow> Inr e
      | None \<Rightarrow> Inl (Exn ValueError (repr_str v @ '' is not a valid '' @ name)))"

section \<open>Dictionaries\<close>

type_synonym ('k, 'v) dict = "('k \<times> 'v) list"

abbreviation dict_get :: "('k, 'v) dict \<Rightarrow> 'k \<Rightarrow> 'v option" where
  "dict_get d k \<equiv> map_of d k"

abbreviation dict_set :: "'k \<Rightarrow> 'v \<Rightarrow> ('k, 'v) dict \<Rightarrow> ('k, 'v) dict" where
  "dict_set k v d \<equiv> AList.update k v d"

abbreviation dict_pop :: "'k \<Rightarrow> ('k, 'v) dict \<Rightarrow> ('k, 'v) dict" where
  "dict_pop k d \<equiv> AList.delete k d"

abbreviation dict_keys :: "('k, 'v) dict \<Rightarrow> 'k list" where
  "dict_keys d \<equiv> map fst d"

abbreviation dict_values :: "('k, 'v) dict \<Rightarrow> 'v list" where
  "dict_values d \<equiv> map snd d"

definition dict_has :: "('k, 'v) dict \<Rightarrow> 'k \<Rightarrow> bool" where
  "dict_has d k = (dict_get d k \<noteq> None)"

text \<open>\<open>d.update(other)\<close>: the entries of \<open>other\<close> are stored in its order.\<close>

fun dict_update :: "('k, 'v) dict \<Rightarrow> ('k, 'v) dict \<Rightarrow> ('k, 'v) dict" where
  "dict_update d [] = d"
| "dict_update d ((k, v) # kvs) = dict_update (dict_set k v d) kvs"

definition dict_wf :: "('k, 'v) dict \<Rightarrow> bool" where
  "dict_wf d = distinct (dict_keys d)"

lemma dict_has_iff: "dict_has d k \<longleftrightarrow> k \<in> set (dict_keys d)"
  by (force simp: dict_has_def map_of_eq_None_iff)

lemma dict_key_get: "k \<in> set (dict_keys d) \<Longrightarrow> \<exists>v. dict_get d k = Some v"
  by (metis dict_has_def dict_has_iff not_None_eq)

lemma dict_get_key: "dict_get d k = Some v \<Longrightarrow> k \<in> set (dict_keys d)"
  by (metis dict_has_def dict_has_iff option.distinct(1))

lemma dict_wf_empty [simp, intro]: "dict_wf []"
  by (simp add: dict_wf_def)

lemma dict_wf_set [simp, intro]: "dict_wf d \<Longrightarrow> dict_wf (dict_set k v d)"
  by (simp add: dict_wf_def distinct_update)

lemma dict_wf_pop [simp, intro]: "dict_wf d \<Longrightarrow> dict_wf (dict_pop k d)"
  by (simp add: dict_wf_def distinct_delete)

lemma dict_wf_update [simp, intro]: "dict_wf d \<Longrightarrow> dict_wf (dict_update d e)"
  by (induction d e rule: dict_update.induct) auto

lemma dict_get_set [simp]: "dict_get (dict_set k v d) k' = (if k' = k then Some v else dict_get d k')"
  by (simp add: update_conv')

lemma dict_get_pop [simp]: "dict_get (dict_pop k d) k' = (if k' = k then None else dict_get d k')"
  by (simp add: delete_conv')

lemma dict_get_update:
  "dict_get (dict_update d e) k = (case dict_get (rev e) k of Some v \<Rightarrow> Some v | None \<Rightarrow> dict_get d k)"
  by (induction d e rule: dict_update.induct) (auto simp: map_add_def split: option.splits)

lemma dict_set_fresh: "dict_get d k = None \<Longrightarrow> dict_set k v d = d @ [(k, v)]"
  by (induction d) (auto split: if_splits)

lemma dict_keys_set:
  "dict_keys (dict_set k v d) = (if dict_has d k then dict_keys d else dict_keys d @ [k])"
  by (induction d) (auto simp: dict_has_def)

lemma dict_keys_pop: "dict_keys (dict_pop k d) = filter (\<lambda>k'. k' \<noteq> k) (dict_keys d)"
  by (induction d) (auto simp: AList.delete_eq)

lemma set_dict_values_pop: "set (dict_values (dict_pop k d)) \<subseteq> set (dict_values d)"
  by (auto simp: AList.delete_eq)

lemma set_dict_set: "set (dict_set k v d) \<subseteq> insert (k, v) (set d)"
  by (induction d) auto

lemma dict_get_mem: "dict_wf d \<Longrightarrow> (k, v) \<in> set d \<longleftrightarrow> dict_get d k = Some v"
  by (auto simp: dict_wf_def dest: map_of_SomeD)

section \<open>Sorting\<close>

text \<open>
  \<open>xs.sort(key=f, reverse=True)\<close>: descending by \<open>f\<close>, equal keys stay in the order they had.
\<close>

definition sort_desc :: "('a \<Rightarrow> int) \<Rightarrow> 'a list \<Rightarrow> 'a list" where
  "sort_desc f xs = sort_key (\<lambda>x. - f x) xs"

lemma set_sort_desc [simp]: "set (sort_desc f xs) = set xs"
  by (simp add: sort_desc_def)

lemma mset_sort_desc [simp]: "mset (sort_desc f xs) = mset xs"
  by (simp add: sort_desc_def)

lemma length_sort_desc [simp]: "length (sort_desc f xs) = length xs"
  by (simp add: sort_desc_def)

lemma distinct_map_sort_desc [simp]: "distinct (map g (sort_desc f xs)) = distinct (map g xs)"
  by (metis mset_map mset_sort_desc mset_eq_imp_distinct_iff)

definition sorted_desc :: "('a \<Rightarrow> int) \<Rightarrow> 'a list \<Rightarrow> bool" where
  "sorted_desc f xs = sorted_wrt (\<lambda>x y. f y \<le> f x) xs"

lemma sorted_desc_sort_desc [simp, intro]: "sorted_desc f (sort_desc f xs)"
proof -
  have "sorted (map (\<lambda>x. - f x) (sort_key (\<lambda>x. - f x) xs))" by simp
  then show ?thesis by (simp add: sorted_desc_def sort_desc_def sorted_map)
qed

lemma sorted_desc_filter [intro]: "sorted_desc f xs \<Longrightarrow> sorted_desc f (filter P xs)"
  by (simp add: sorted_desc_def sorted_wrt_filter)

lemma sorted_desc_hd: "sorted_desc f xs \<Longrightarrow> x \<in> set xs \<Longrightarrow> f x \<le> f (hd xs)"
  by (cases xs) (auto simp: sorted_desc_def)

lemma sort_desc_sorted: "sorted_desc f xs \<Longrightarrow> sort_desc f xs = xs"
  unfolding sorted_desc_def sort_desc_def
  by (rule sort_key_id_if_sorted) (simp add: sorted_map)

lemma sort_desc_stable: "filter (\<lambda>x. f x = n) (sort_desc f xs) = filter (\<lambda>x. f x = n) xs"
proof -
  have "filter (\<lambda>x. - f x = - n) (sort_key (\<lambda>x. - f x) xs) = filter (\<lambda>x. - f x = - n) xs"
    by (rule sort_key_stable)
  then show ?thesis by (simp add: sort_desc_def)
qed

text \<open>
  Appending to a sorted list and sorting again puts the new element behind every element of
  the same or a larger key and before the rest.
\<close>

lemma sorted_desc_takeWhile_dropWhile:
  assumes "sorted_desc f xs"
  shows "\<forall>y \<in> set (dropWhile (\<lambda>y. f x \<le> f y) xs). f y < f x"
  using assms
proof (induction xs)
  case Nil
  then show ?case by simp
next
  case (Cons z zs)
  then show ?case
    by (cases "f x \<le> f z") (auto simp: sorted_desc_def)
qed

lemma sorted_wrt_insert_between:
  "sorted_wrt R pre \<Longrightarrow> sorted_wrt R post \<Longrightarrow> \<forall>a \<in> set pre. \<forall>b \<in> set post. R a b
    \<Longrightarrow> \<forall>a \<in> set pre. R a x \<Longrightarrow> \<forall>b \<in> set post. R x b \<Longrightarrow> sorted_wrt R (pre @ [x] @ post)"
  by (auto simp: sorted_wrt_append)

lemma sort_desc_snoc:
  assumes "sorted_desc f xs"
  shows "sort_desc f (xs @ [x]) =
    takeWhile (\<lambda>y. f x \<le> f y) xs @ [x] @ dropWhile (\<lambda>y. f x \<le> f y) xs"
    (is "_ = ?pre @ [x] @ ?post")
  unfolding sort_desc_def
proof (rule properties_for_sort_key)
  show "mset (?pre @ [x] @ ?post) = mset (xs @ [x])"
    by (metis mset_append add.assoc add.commute takeWhile_dropWhile_id)
  have less: "\<forall>y \<in> set ?post. f y < f x"
    by (rule sorted_desc_takeWhile_dropWhile [OF assms])
  show "filter (\<lambda>z. - f k = - f z) (?pre @ [x] @ ?post) = filter (\<lambda>z. - f k = - f z) (xs @ [x])"
    if "k \<in> set (?pre @ [x] @ ?post)" for k
  proof (cases "f k = f x")
    case True
    with less have "filter (\<lambda>z. - f k = - f z) ?post = []"
      by (auto simp: filter_empty_conv)
    moreover have "filter (\<lambda>z. - f k = - f z) xs
        = filter (\<lambda>z. - f k = - f z) ?pre @ filter (\<lambda>z. - f k = - f z) ?post"
      by (metis filter_append takeWhile_dropWhile_id)
    ultimately show ?thesis using True by simp
  next
    case False
    have "filter (\<lambda>z. - f k = - f z) xs
        = filter (\<lambda>z. - f k = - f z) ?pre @ filter (\<lambda>z. - f k = - f z) ?post"
      by (metis filter_append takeWhile_dropWhile_id)
    with False show ?thesis by simp
  qed
  have "sorted_desc f (?pre @ ?post)" using assms by simp
  then have "sorted_wrt (\<lambda>a b. f b \<le> f a) ?pre" "sorted_wrt (\<lambda>a b. f b \<le> f a) ?post"
    "\<forall>a \<in> set ?pre. \<forall>b \<in> set ?post. f b \<le> f a"
    unfolding sorted_desc_def sorted_wrt_append by blast+
  moreover have "\<forall>a \<in> set ?pre. f x \<le> f a" by (meson set_takeWhileD)
  moreover have "\<forall>b \<in> set ?post. f b \<le> f x" using less by auto
  ultimately have "sorted_wrt (\<lambda>a b. f b \<le> f a) (?pre @ [x] @ ?post)"
    by (rule sorted_wrt_insert_between)
  then show "sorted (map (\<lambda>z. - f z) (?pre @ [x] @ ?post))"
    unfolding sorted_map neg_le_iff_le .
qed

end
