(* ===== verification/Event_Bus.thy ===== *)
theory Event_Bus
  imports Prelude Complex_Main "HOL-Library.List_Lexorder" "HOL-Library.Char_ord"
begin

text \<open>
  The event bus (\<open>events/\<close>): the subscriptions per event name, kept in descending priority,
  the dispatcher that isolates handler failures and counts them, and the bus itself.

  A handler is what \<open>FunctionHandler\<close> holds: its callable and its filter are functions of the
  event that return a value or raise. \<open>elapsed k\<close> is the duration \<open>time.perf_counter\<close> measures
  for the \<open>k\<close>-th invocation. The dispatcher's logging hook is the one \<open>EventBus\<close> installs,
  which does nothing.
\<close>

section \<open>Events and handlers\<close>

datatype event_priority = EP_LOW | EP_NORMAL | EP_HIGH | EP_CRITICAL

datatype event_type =
    APPLICATION_STARTED | APPLICATION_STOPPED | MODULE_LOADED | MODULE_STARTED
  | MODULE_STOPPED | MODULE_FAILED | CONFIGURATION_LOADED | DOCUMENT_ADDED
  | DOCUMENT_UPDATED | DOCUMENT_REMOVED | PLUGIN_LOADED | PLUGIN_UNLOADED | HEALTH_CHANGED

definition event_types :: "(event_type \<times> string) list" where
  "event_types =
     [(APPLICATION_STARTED, ''application.started''),
      (APPLICATION_STOPPED, ''application.stopped''),
      (MODULE_LOADED, ''module.loaded''),
      (MODULE_STARTED, ''module.started''),
      (MODULE_STOPPED, ''module.stopped''),
      (MODULE_FAILED, ''module.failed''),
      (CONFIGURATION_LOADED, ''configuration.loaded''),
      (DOCUMENT_ADDED, ''document.added''),
      (DOCUMENT_UPDATED, ''document.updated''),
      (DOCUMENT_REMOVED, ''document.removed''),
      (PLUGIN_LOADED, ''plugin.loaded''),
      (PLUGIN_UNLOADED, ''plugin.unloaded''),
      (HEALTH_CHANGED, ''health.changed'')]"

record 'p event =
  ev_name :: string
  ev_source_module :: string
  ev_payload :: 'p
  ev_priority :: event_priority
  ev_id :: string
  ev_correlation_id :: "string option"
  ev_version :: string

text \<open>\<open>EventType(self.name)\<close> looks a member up by its value; \<open>ValueError\<close> becomes \<open>None\<close>.\<close>

definition event_type_of :: "'p event \<Rightarrow> event_type option" where
  "event_type_of ev = map_option fst (find (\<lambda>(t, v). v = ev_name ev) event_types)"

definition is_canonical :: "'p event \<Rightarrow> bool" where
  "is_canonical ev = (event_type_of ev \<noteq> None)"

record ('p, 'o) handler =
  h_name :: string
  h_fn :: "'p event \<Rightarrow> exn + 'o"
  h_priority :: event_priority
  h_enabled :: bool
  h_filter :: "('p event \<Rightarrow> exn + bool) option"

definition accepts :: "('p, 'o) handler \<Rightarrow> 'p event \<Rightarrow> exn + bool" where
  "accepts h ev =
     (if \<not> h_enabled h then Inr False
      else case h_filter h of None \<Rightarrow> Inr True | Some f \<Rightarrow> f ev)"

record 'o event_result =
  res_handler_name :: string
  res_success :: bool
  res_duration_ms :: real
  res_error :: "string option"
  res_output :: "'o option"

section \<open>The dispatcher\<close>

record dispatch_stats =
  ds_total :: nat
  ds_errors :: nat
  ds_durations_ms :: "real list"

definition average_duration_ms :: "dispatch_stats \<Rightarrow> real" where
  "average_duration_ms st =
     (if ds_durations_ms st = [] then 0
      else sum_list (ds_durations_ms st) / real (length (ds_durations_ms st)))"

text \<open>One pass of the loop body for a handler that accepts the event: no exception escapes.\<close>

definition invoke_handler ::
    "(nat \<Rightarrow> real) \<Rightarrow> 'p event \<Rightarrow> ('p, 'o) handler \<Rightarrow> (dispatch_stats, 'o event_result) py" where
  "invoke_handler elapsed ev h =
     py_bind (py_read (\<lambda>st. elapsed (ds_total st))) (\<lambda>duration.
     case h_fn h ev of
       Inl exc \<Rightarrow>
         py_bind (py_modify (\<lambda>st. st\<lparr>ds_total := ds_total st + 1, ds_errors := ds_errors st + 1,
           ds_durations_ms := ds_durations_ms st @ [duration]\<rparr>)) (\<lambda>_.
         py_return \<lparr>res_handler_name = h_name h, res_success = False,
           res_duration_ms = duration, res_error = Some (exn_str exc), res_output = None\<rparr>)
     | Inr output \<Rightarrow>
         py_bind (py_modify (\<lambda>st. st\<lparr>ds_total := ds_total st + 1,
           ds_durations_ms := ds_durations_ms st @ [duration]\<rparr>)) (\<lambda>_.
         py_return \<lparr>res_handler_name = h_name h, res_success = True,
           res_duration_ms = duration, res_error = None, res_output = Some output\<rparr>))"

text \<open>\<open>handler.accepts\<close> is outside the \<open>try\<close>: a filter that raises ends the loop.\<close>

fun dispatch ::
    "(nat \<Rightarrow> real) \<Rightarrow> 'p event \<Rightarrow> ('p, 'o) handler list \<Rightarrow> (dispatch_stats, 'o event_result list) py" where
  "dispatch elapsed ev [] = py_return []"
| "dispatch elapsed ev (h # hs) =
     py_bind (py_lift (accepts h ev)) (\<lambda>accepted.
       if \<not> accepted then dispatch elapsed ev hs
       else py_bind (invoke_handler elapsed ev h) (\<lambda>result.
            py_bind (dispatch elapsed ev hs) (\<lambda>results.
            py_return (result # results))))"

section \<open>Subscriptions\<close>

type_synonym ('p, 'o) subscriptions = "(string, ('p, 'o) handler list) dict"

fun priority_rank :: "event_priority \<Rightarrow> int" where
  "priority_rank EP_LOW = 0"
| "priority_rank EP_NORMAL = 1"
| "priority_rank EP_HIGH = 2"
| "priority_rank EP_CRITICAL = 3"

abbreviation handler_rank :: "('p, 'o) handler \<Rightarrow> int" where
  "handler_rank h \<equiv> priority_rank (h_priority h)"

definition handlers_for :: "string \<Rightarrow> ('p, 'o) subscriptions \<Rightarrow> ('p, 'o) handler list" where
  "handlers_for name subs = (case dict_get subs name of None \<Rightarrow> [] | Some hs \<Rightarrow> hs)"

text \<open>\<open>setdefault\<close> leaves an empty list behind when the duplicate check then raises.\<close>

definition subscriptions_add ::
    "string \<Rightarrow> ('p, 'o) handler \<Rightarrow> (('p, 'o) subscriptions, unit) py" where
  "subscriptions_add name h =
     py_bind (py_modify (\<lambda>subs. if dict_has subs name then subs else dict_set name [] subs)) (\<lambda>_.
     py_bind (py_read (handlers_for name)) (\<lambda>hs.
     if \<exists>g \<in> set hs. h_name g = h_name h
     then py_raise DuplicateHandlerError
       (''Handler '' @ quoted (h_name h) @ '' already subscribed to '' @ quoted name @ ''.'')
     else py_modify (dict_set name (sort_desc handler_rank (hs @ [h])))))"

definition subscriptions_remove ::
    "string \<Rightarrow> string \<Rightarrow> (('p, 'o) subscriptions, unit) py" where
  "subscriptions_remove name handler_name =
     py_modify (\<lambda>subs. dict_set name (filter (\<lambda>h. h_name h \<noteq> handler_name) (handlers_for name subs)) subs)"

definition subscriptions_count :: "('p, 'o) subscriptions \<Rightarrow> nat" where
  "subscriptions_count subs = sum_list (map length (dict_values subs))"

section \<open>The bus\<close>

record bus_statistics =
  bs_published :: nat
  bs_dropped :: nat
  bs_handler_invocations :: nat
  bs_errors :: nat
  bs_dispatcher_avg :: real

record ('p, 'o) event_bus =
  eb_known :: "string set"
  eb_subscriptions :: "('p, 'o) subscriptions"
  eb_dispatcher :: dispatch_stats
  eb_stats :: bus_statistics
  eb_history :: "'p event list"

definition event_bus_init :: "('p, 'o) event_bus" where
  "event_bus_init =
     \<lparr>eb_known = set (map snd event_types), eb_subscriptions = [],
      eb_dispatcher = \<lparr>ds_total = 0, ds_errors = 0, ds_durations_ms = []\<rparr>,
      eb_stats = \<lparr>bs_published = 0, bs_dropped = 0, bs_handler_invocations = 0, bs_errors = 0,
        bs_dispatcher_avg = 0\<rparr>,
      eb_history = []\<rparr>"

definition registry_validate :: "string \<Rightarrow> string set \<Rightarrow> exn + unit" where
  "registry_validate name known =
     (if name \<notin> known
      then Inl (Exn UnknownEventError (''Unknown event type: '' @ quoted name))
      else Inr ())"

definition known_events :: "string set \<Rightarrow> string list" where
  "known_events known = sorted_list_of_set known"

definition on_subscriptions :: "(('p, 'o) subscriptions, 'a) py \<Rightarrow> (('p, 'o) event_bus, 'a) py" where
  "on_subscriptions = py_on eb_subscriptions (\<lambda>t b. b\<lparr>eb_subscriptions := t\<rparr>)"

definition on_dispatcher :: "(dispatch_stats, 'a) py \<Rightarrow> (('p, 'o) event_bus, 'a) py" where
  "on_dispatcher = py_on eb_dispatcher (\<lambda>t b. b\<lparr>eb_dispatcher := t\<rparr>)"

abbreviation update_stats ::
    "(bus_statistics \<Rightarrow> bus_statistics) \<Rightarrow> ('p, 'o) event_bus \<Rightarrow> ('p, 'o) event_bus" where
  "update_stats f b \<equiv> b\<lparr>eb_stats := f (eb_stats b)\<rparr>"

definition bus_statistics :: "(('p, 'o) event_bus, bus_statistics) py" where
  "bus_statistics =
     py_bind (py_modify (\<lambda>b. update_stats
       (\<lambda>st. st\<lparr>bs_dispatcher_avg := average_duration_ms (eb_dispatcher b)\<rparr>) b)) (\<lambda>_.
     py_read eb_stats)"

definition bus_subscribe :: "string \<Rightarrow> ('p, 'o) handler \<Rightarrow> (('p, 'o) event_bus, unit) py" where
  "bus_subscribe name h =
     py_bind (py_modify (\<lambda>b. b\<lparr>eb_known := insert name (eb_known b)\<rparr>)) (\<lambda>_.
     on_subscriptions (subscriptions_add name h))"

definition bus_subscribe_fn ::
    "string \<Rightarrow> ('p event \<Rightarrow> exn + 'o) \<Rightarrow> string \<Rightarrow> string option \<Rightarrow> event_priority
     \<Rightarrow> ('p event \<Rightarrow> exn + bool) option \<Rightarrow> (('p, 'o) event_bus, ('p, 'o) handler) py" where
  "bus_subscribe_fn event_name fn fn_name name priority event_filter =
     (let h = \<lparr>h_name = (case name of None \<Rightarrow> fn_name | Some n \<Rightarrow> if n = [] then fn_name else n),
               h_fn = fn, h_priority = priority, h_enabled = True, h_filter = event_filter\<rparr>
      in py_bind (bus_subscribe event_name h) (\<lambda>_. py_return h))"

definition bus_unsubscribe :: "string \<Rightarrow> string \<Rightarrow> (('p, 'o) event_bus, unit) py" where
  "bus_unsubscribe name handler_name = on_subscriptions (subscriptions_remove name handler_name)"

definition bus_clear :: "(('p, 'o) event_bus, unit) py" where
  "bus_clear = on_subscriptions (py_modify (\<lambda>_. []))"

abbreviation bus_handlers :: "('p, 'o) event_bus \<Rightarrow> string \<Rightarrow> ('p, 'o) handler list" where
  "bus_handlers b name \<equiv> handlers_for name (eb_subscriptions b)"

definition bus_publish ::
    "(nat \<Rightarrow> real) \<Rightarrow> 'p event \<Rightarrow> (('p, 'o) event_bus, 'o event_result list) py" where
  "bus_publish elapsed ev =
     py_bind (py_read (\<lambda>b. bus_handlers b (ev_name ev))) (\<lambda>hs.
     if hs = [] then
       py_bind (py_modify (update_stats (\<lambda>st. st\<lparr>bs_dropped := bs_dropped st + 1\<rparr>))) (\<lambda>_.
       py_return [])
     else
       py_bind (py_modify (update_stats (\<lambda>st. st\<lparr>bs_published := bs_published st + 1\<rparr>))) (\<lambda>_.
       py_bind (py_modify (\<lambda>b. b\<lparr>eb_history := eb_history b @ [ev]\<rparr>)) (\<lambda>_.
       py_bind (on_dispatcher (dispatch elapsed ev hs)) (\<lambda>results.
       py_bind (py_modify (\<lambda>b. update_stats
         (\<lambda>st. st\<lparr>bs_handler_invocations := bs_handler_invocations st + length results,
                  bs_errors := ds_errors (eb_dispatcher b)\<rparr>) b)) (\<lambda>_.
       py_return results)))))"

section \<open>Subscription lists stay ordered and duplicate-free\<close>

named_theorems bus_defs "definitions of the bus operations"

lemmas [bus_defs] = bus_statistics_def bus_subscribe_def bus_unsubscribe_def bus_clear_def
  bus_publish_def on_subscriptions_def on_dispatcher_def subscriptions_add_def
  subscriptions_remove_def

definition handler_list_ok :: "('p, 'o) handler list \<Rightarrow> bool" where
  "handler_list_ok hs = (distinct (map h_name hs) \<and> sorted_desc handler_rank hs)"

definition subscriptions_ok :: "('p, 'o) subscriptions \<Rightarrow> bool" where
  "subscriptions_ok subs = (dict_wf subs \<and> (\<forall>name. handler_list_ok (handlers_for name subs)))"

lemma handler_list_ok_Nil [simp]: "handler_list_ok []"
  by (simp add: handler_list_ok_def sorted_desc_def)

lemma handler_list_ok_filter [simp]: "handler_list_ok hs \<Longrightarrow> handler_list_ok (filter P hs)"
  by (auto simp: handler_list_ok_def distinct_map_filter)

lemma handler_list_ok_single [simp]: "handler_list_ok (sort_desc handler_rank [h])"
  by (simp add: handler_list_ok_def)

lemma handler_list_ok_insert:
  assumes "handler_list_ok hs" and "\<not> (\<exists>g \<in> set hs. h_name g = h_name h)"
  shows "handler_list_ok (sort_desc handler_rank (hs @ [h]))"
  using assms by (auto simp: handler_list_ok_def)

lemma handlers_for_set [simp]:
  "handlers_for name (dict_set n hs subs) = (if name = n then hs else handlers_for name subs)"
  by (simp add: handlers_for_def)

lemma handlers_for_Nil [simp]: "handlers_for name [] = []"
  by (simp add: handlers_for_def)

lemma handlers_for_fresh: "\<not> dict_has subs name \<Longrightarrow> handlers_for name subs = []"
  by (auto simp: handlers_for_def dict_has_def split: option.splits)

lemma subscriptions_ok_Nil [simp]: "subscriptions_ok []"
  by (simp add: subscriptions_ok_def)

lemma subscriptions_ok_set:
  "subscriptions_ok subs \<Longrightarrow> handler_list_ok hs \<Longrightarrow> subscriptions_ok (dict_set n hs subs)"
  by (simp add: subscriptions_ok_def)

lemma subscriptions_add_ok:
  assumes "subscriptions_ok subs"
  shows "subscriptions_ok (snd (subscriptions_add name h subs))"
proof -
  have "handler_list_ok (handlers_for name subs)"
    using assms by (simp add: subscriptions_ok_def)
  then show ?thesis
    using assms
    by (auto simp: subscriptions_add_def py_bind_split handlers_for_fresh
        intro!: subscriptions_ok_set handler_list_ok_insert)
qed

lemma subscriptions_remove_ok:
  "subscriptions_ok subs \<Longrightarrow> subscriptions_ok (snd (subscriptions_remove name n subs))"
  by (simp add: subscriptions_remove_def subscriptions_ok_set subscriptions_ok_def [of subs])

section \<open>What dispatch does\<close>

lemma invoke_handler_returns:
  "\<exists>r. invoke_handler elapsed ev h st = (Inr r, snd (invoke_handler elapsed ev h st)) \<and>
     res_handler_name r = h_name h \<and> res_success r = (\<not> isl (h_fn h ev)) \<and>
     res_error r = (case h_fn h ev of Inl exc \<Rightarrow> Some (exn_str exc) | Inr _ \<Rightarrow> None) \<and>
     res_output r = (case h_fn h ev of Inl _ \<Rightarrow> None | Inr out \<Rightarrow> Some out) \<and>
     res_duration_ms r = elapsed (ds_total st) \<and>
     ds_durations_ms (snd (invoke_handler elapsed ev h st)) = ds_durations_ms st @ [res_duration_ms r]"
  by (auto simp: invoke_handler_def split: sum.splits)

lemma invoke_handler_fst: "\<exists>r. fst (invoke_handler elapsed ev h st) = Inr r"
  by (auto simp: invoke_handler_def split: sum.splits)

lemma invoke_handler_counts:
  "ds_total (snd (invoke_handler elapsed ev h st)) = Suc (ds_total st)"
  "ds_errors (snd (invoke_handler elapsed ev h st)) = ds_errors st + (if isl (h_fn h ev) then 1 else 0)"
  "length (ds_durations_ms (snd (invoke_handler elapsed ev h st))) = Suc (length (ds_durations_ms st))"
  by (auto simp: invoke_handler_def split: sum.splits)

text \<open>The handlers an event reaches: those whose \<open>accepts\<close> returns \<open>True\<close>.\<close>

definition accepting :: "'p event \<Rightarrow> ('p, 'o) handler list \<Rightarrow> ('p, 'o) handler list" where
  "accepting ev hs = filter (\<lambda>h. accepts h ev = Inr True) hs"

text \<open>What a result says of the invocation of a handler.\<close>

definition reports :: "'p event \<Rightarrow> ('p, 'o) handler \<Rightarrow> 'o event_result \<Rightarrow> bool" where
  "reports ev h r =
     (res_handler_name r = h_name h \<and> res_success r = (\<not> isl (h_fn h ev)) \<and>
      res_error r = (case h_fn h ev of Inl exc \<Rightarrow> Some (exn_str exc) | Inr _ \<Rightarrow> None) \<and>
      res_output r = (case h_fn h ev of Inl _ \<Rightarrow> None | Inr out \<Rightarrow> Some out))"

lemma dispatch_filters_return:
  assumes "\<forall>h \<in> set hs. \<not> isl (accepts h ev)"
  shows "\<exists>rs st'. dispatch elapsed ev hs st = (Inr rs, st') \<and> list_all2 (reports ev) (accepting ev hs) rs \<and>
    map res_duration_ms rs = map elapsed [ds_total st..<ds_total st + length rs] \<and>
    ds_total st' = ds_total st + length rs \<and>
    ds_errors st' = ds_errors st + length (filter (\<lambda>h. isl (h_fn h ev)) (accepting ev hs)) \<and>
    ds_durations_ms st' = ds_durations_ms st @ map res_duration_ms rs"
  using assms
proof (induction hs arbitrary: st)
  case Nil
  then show ?case by (simp add: accepting_def)
next
  case (Cons h hs)
  from Cons.prems obtain a where a: "accepts h ev = Inr a"
    by (cases "accepts h ev") auto
  show ?case
  proof (cases a)
    case False
    with a Cons show ?thesis by (simp add: accepting_def)
  next
    case True
    let ?st = "snd (invoke_handler elapsed ev h st)"
    obtain r where r: "invoke_handler elapsed ev h st = (Inr r, ?st)" "reports ev h r" "res_duration_ms r = elapsed (ds_total st)"
      "ds_durations_ms ?st = ds_durations_ms st @ [res_duration_ms r]"
      using invoke_handler_returns [of elapsed ev h st] unfolding reports_def by blast
    have "\<forall>h \<in> set hs. \<not> isl (accepts h ev)" using Cons.prems by simp
    from Cons.IH [OF this, of ?st] obtain rs st' where rest: "dispatch elapsed ev hs ?st = (Inr rs, st')"
      "list_all2 (reports ev) (accepting ev hs) rs"
      "map res_duration_ms rs = map elapsed [Suc (ds_total st)..<Suc (ds_total st) + length rs]"
      "ds_total st' = Suc (ds_total st) + length rs"
      "ds_errors st' = ds_errors ?st + length (filter (\<lambda>h. isl (h_fn h ev)) (accepting ev hs))"
      "ds_durations_ms st' = ds_durations_ms ?st @ map res_duration_ms rs"
      unfolding invoke_handler_counts(1) by blast
    have "dispatch elapsed ev (h # hs) st = (Inr (r # rs), st')" using a True r(1) rest(1) by simp
    then show ?thesis using r rest a True
      by (simp add: accepting_def invoke_handler_counts upt_rec [of "ds_total st"])
  qed
qed

lemma dispatch_filter_raises:
  assumes "\<forall>g \<in> set hs. \<not> isl (accepts g ev)" and "accepts h ev = Inl exc"
  shows "fst (dispatch elapsed ev (hs @ h # hs') st) = Inl exc"
  using assms
proof (induction hs arbitrary: st)
  case Nil
  then show ?case by simp
next
  case (Cons g hs)
  then obtain a where a: "accepts g ev = Inr a"
    by (cases "accepts g ev") auto
  obtain r where "fst (invoke_handler elapsed ev g st) = Inr r"
    using invoke_handler_fst by blast
  with a Cons show ?case by (auto simp: py_bind_split split: sum.splits)
qed

definition dispatch_stats_ok :: "dispatch_stats \<Rightarrow> bool" where
  "dispatch_stats_ok st =
     (ds_errors st \<le> ds_total st \<and> length (ds_durations_ms st) = ds_total st)"

lemma dispatch_stats_invoke:
  assumes "dispatch_stats_ok st"
  shows "dispatch_stats_ok (snd (invoke_handler elapsed ev h st))"
  using assms invoke_handler_counts [of elapsed ev h st]
  by (auto simp: dispatch_stats_ok_def)

lemma dispatch_stats_dispatch:
  assumes "dispatch_stats_ok st"
  shows "dispatch_stats_ok (snd (dispatch elapsed ev hs st)) \<and>
    ds_errors st \<le> ds_errors (snd (dispatch elapsed ev hs st)) \<and>
    (\<forall>rs. fst (dispatch elapsed ev hs st) = Inr rs \<longrightarrow>
       ds_total (snd (dispatch elapsed ev hs st)) = ds_total st + length rs) \<and>
    ds_total st \<le> ds_total (snd (dispatch elapsed ev hs st))"
  using assms
proof (induction hs arbitrary: st)
  case Nil
  then show ?case by simp
next
  case (Cons h hs)
  let ?st = "snd (invoke_handler elapsed ev h st)"
  obtain r where r: "fst (invoke_handler elapsed ev h st) = Inr r"
    using invoke_handler_fst by blast
  have st: "dispatch_stats_ok ?st" "ds_errors st \<le> ds_errors ?st" "ds_total ?st = Suc (ds_total st)"
    using Cons.prems by (auto simp: dispatch_stats_invoke invoke_handler_counts)
  show ?case
  proof (cases "accepts h ev")
    case (Inl e)
    with Cons.prems show ?thesis by simp
  next
    case (Inr a)
    then show ?thesis
      using Cons.IH [OF Cons.prems] Cons.IH [OF st(1)] st(2,3) r
      by (auto simp: py_bind_split split: sum.splits)
  qed
qed

section \<open>Runs of the bus\<close>

inductive bus_step :: "('p, 'o) event_bus \<Rightarrow> ('p, 'o) event_bus \<Rightarrow> bool" where
  subscribe: "bus_step b (snd (bus_subscribe name h b))"
| unsubscribe: "bus_step b (snd (bus_unsubscribe name handler_name b))"
| clear: "bus_step b (snd (bus_clear b))"
| publish: "bus_step b (snd (bus_publish elapsed ev b))"
| statistics: "bus_step b (snd (bus_statistics b))"

inductive bus_reachable :: "('p, 'o) event_bus \<Rightarrow> bool" where
  init: "bus_reachable event_bus_init"
| step: "bus_reachable b \<Longrightarrow> bus_step b b' \<Longrightarrow> bus_reachable b'"

definition bus_counters_ok :: "('p, 'o) event_bus \<Rightarrow> bool" where
  "bus_counters_ok b =
     (dispatch_stats_ok (eb_dispatcher b) \<and>
      bs_published (eb_stats b) = length (eb_history b) \<and>
      bs_handler_invocations (eb_stats b) \<le> ds_total (eb_dispatcher b) \<and>
      bs_errors (eb_stats b) \<le> ds_errors (eb_dispatcher b))"

lemma bus_publish_subscriptions [simp]:
  "eb_subscriptions (snd (bus_publish elapsed ev b)) = eb_subscriptions b"
  by (auto simp: bus_defs py_bind_split split: sum.splits)

lemma bus_publish_counters:
  assumes "bus_counters_ok b"
  shows "bus_counters_ok (snd (bus_publish elapsed ev b))"
proof (cases "bus_handlers b (ev_name ev) = []")
  case True
  with assms show ?thesis by (auto simp: bus_defs py_bind_split bus_counters_ok_def)
next
  case False
  let ?d = "dispatch elapsed ev (bus_handlers b (ev_name ev)) (eb_dispatcher b)"
  have "dispatch_stats_ok (eb_dispatcher b)" using assms by (simp add: bus_counters_ok_def)
  note d = dispatch_stats_dispatch [OF this, of elapsed ev "bus_handlers b (ev_name ev)"]
  show ?thesis
    using assms False d
    by (cases "fst ?d") (auto simp: bus_defs py_bind_split bus_counters_ok_def)
qed

lemma bus_step_counters: "bus_step b b' \<Longrightarrow> bus_counters_ok b \<Longrightarrow> bus_counters_ok b'"
proof (induction rule: bus_step.induct)
  case (publish b elapsed ev)
  then show ?case by (rule bus_publish_counters)
qed (auto simp: bus_defs py_bind_split bus_counters_ok_def split: sum.splits)

lemma bus_step_subscriptions_ok:
  "bus_step b b' \<Longrightarrow> subscriptions_ok (eb_subscriptions b) \<Longrightarrow> subscriptions_ok (eb_subscriptions b')"
proof (induction rule: bus_step.induct)
  case (subscribe b name h)
  then show ?case
    using subscriptions_add_ok [of "eb_subscriptions b" name h]
    by (simp add: bus_subscribe_def on_subscriptions_def py_bind_split)
next
  case (unsubscribe b name handler_name)
  then show ?case
    using subscriptions_remove_ok [of "eb_subscriptions b" name handler_name]
    by (simp add: bus_unsubscribe_def on_subscriptions_def)
qed (auto simp: bus_clear_def on_subscriptions_def bus_statistics_def py_bind_split)

lemma bus_reachable_ok:
  "bus_reachable b \<Longrightarrow> subscriptions_ok (eb_subscriptions b) \<and> bus_counters_ok b"
proof (induction rule: bus_reachable.induct)
  case init
  show ?case
    by (simp add: event_bus_init_def bus_counters_ok_def dispatch_stats_ok_def)
next
  case (step b b')
  then show ?case by (blast intro: bus_step_counters bus_step_subscriptions_ok)
qed

lemma bus_reachable_subscribe:
  "bus_reachable b \<Longrightarrow> bus_reachable (snd (bus_subscribe name h b))"
  by (rule bus_reachable.step [OF _ bus_step.subscribe])

section \<open>Properties\<close>

text \<open>In every state the bus can reach by subscribing, unsubscribing, clearing and publishing,
  the handlers of an event name have distinct names and stand in descending priority.\<close>

theorem bus_handlers_ordered:
  assumes "bus_reachable b"
  shows "distinct (map h_name (bus_handlers b name)) \<and> sorted_desc handler_rank (bus_handlers b name)"
  using bus_reachable_ok [OF assms] by (simp add: subscriptions_ok_def handler_list_ok_def)

text \<open>A new subscription is served after every handler of the same or a higher priority and
  before every handler of a lower one: first come, first served within a priority.\<close>

theorem bus_subscribe_fifo:
  assumes "bus_reachable b" and "\<forall>g \<in> set (bus_handlers b name). h_name g \<noteq> h_name h"
  shows "\<exists>before after. bus_handlers b name = before @ after \<and>
    bus_handlers (snd (bus_subscribe name h b)) name = before @ [h] @ after \<and>
    (\<forall>g \<in> set before. handler_rank h \<le> handler_rank g) \<and>
    (\<forall>g \<in> set after. handler_rank g < handler_rank h) \<and>
    fst (bus_subscribe name h b) = Inr ()"
proof -
  let ?hs = "bus_handlers b name"
  let ?P = "\<lambda>g. handler_rank h \<le> handler_rank g"
  have sorted: "sorted_desc handler_rank ?hs"
    using bus_reachable_ok [OF assms(1)] by (simp add: subscriptions_ok_def handler_list_ok_def)
  have "\<not> (\<exists>g \<in> set ?hs. h_name g = h_name h)" using assms(2) by blast
  then have sub: "fst (bus_subscribe name h b) = Inr ()"
    "bus_handlers (snd (bus_subscribe name h b)) name = sort_desc handler_rank (?hs @ [h])"
    by (auto simp: bus_defs py_bind_split handlers_for_fresh)
  have "\<forall>g \<in> set (takeWhile ?P ?hs). ?P g" by (meson set_takeWhileD)
  with sub sort_desc_snoc [OF sorted, of h] sorted_desc_takeWhile_dropWhile [OF sorted, of h]
  show ?thesis
    by (intro exI [of _ "takeWhile ?P ?hs"] exI [of _ "dropWhile ?P ?hs"]) simp
qed

text \<open>C7: When no filter raises, publishing to an event that has handlers returns one result per
  accepting handler, in order, whatever the handlers raise: its name, its output or the text of its
  exception, and the duration that was measured. Every counter of the bus and of its dispatcher
  advances by exactly what happened (the dropped events not at all), the durations on which the average
  rests are those of the results, and the subscriptions stay as they were.\<close>

theorem bus_publish_isolates:
  assumes "bus_handlers b (ev_name ev) \<noteq> []"
    and "\<forall>h \<in> set (bus_handlers b (ev_name ev)). \<not> isl (accepts h ev)"
  shows "\<exists>rs. let b' = snd (bus_publish elapsed ev b); hs = accepting ev (bus_handlers b (ev_name ev));
      failures = length (filter (\<lambda>h. isl (h_fn h ev)) hs) in
    fst (bus_publish elapsed ev b) = Inr rs \<and> list_all2 (reports ev) hs rs \<and>
    map res_duration_ms rs = map elapsed [ds_total (eb_dispatcher b)..<ds_total (eb_dispatcher b) + length hs] \<and>
    eb_dispatcher b' = \<lparr>ds_total = ds_total (eb_dispatcher b) + length hs, ds_errors = ds_errors (eb_dispatcher b) + failures,
      ds_durations_ms = ds_durations_ms (eb_dispatcher b) @ map res_duration_ms rs\<rparr> \<and>
    eb_stats b' = (eb_stats b)\<lparr>bs_published := bs_published (eb_stats b) + 1,
      bs_handler_invocations := bs_handler_invocations (eb_stats b) + length hs,
      bs_errors := ds_errors (eb_dispatcher b) + failures\<rparr> \<and>
    eb_history b' = eb_history b @ [ev] \<and> eb_subscriptions b' = eb_subscriptions b \<and> eb_known b' = eb_known b"
proof -
  let ?hs = "bus_handlers b (ev_name ev)"
  obtain rs st' where d: "dispatch elapsed ev ?hs (eb_dispatcher b) = (Inr rs, st')" "list_all2 (reports ev) (accepting ev ?hs) rs"
    "map res_duration_ms rs = map elapsed [ds_total (eb_dispatcher b)..<ds_total (eb_dispatcher b) + length rs]"
    "ds_total st' = ds_total (eb_dispatcher b) + length rs"
    "ds_errors st' = ds_errors (eb_dispatcher b) + length (filter (\<lambda>h. isl (h_fn h ev)) (accepting ev ?hs))"
    "ds_durations_ms st' = ds_durations_ms (eb_dispatcher b) @ map res_duration_ms rs"
    using dispatch_filters_return [OF assms(2)] by blast
  have len: "length rs = length (accepting ev ?hs)" using list_all2_lengthD [OF d(2)] by simp
  show ?thesis using d assms(1) len
    by (intro exI [of _ rs]) (simp add: Let_def bus_publish_def on_dispatcher_def py_bind_split)
qed

text \<open>Error isolation does not cover filters: if a handler's filter raises, the exception
  leaves \<open>publish\<close>, although the event already counts as published, and the invocations made
  before it are not counted.\<close>

theorem bus_publish_filter_raises:
  assumes "bus_handlers b (ev_name ev) = hs @ h # hs'"
    and "\<forall>g \<in> set hs. \<not> isl (accepts g ev)" and "accepts h ev = Inl exc"
  shows "fst (bus_publish elapsed ev b) = Inl exc \<and>
    bs_published (eb_stats (snd (bus_publish elapsed ev b))) = Suc (bs_published (eb_stats b)) \<and>
    bs_handler_invocations (eb_stats (snd (bus_publish elapsed ev b)))
      = bs_handler_invocations (eb_stats b)"
  using dispatch_filter_raises [OF assms(2,3), of elapsed hs' "eb_dispatcher b"] assms(1)
  by (simp add: bus_publish_def on_dispatcher_def py_bind_split)

section \<open>Witnesses\<close>

definition sample_handler :: "string \<Rightarrow> event_priority \<Rightarrow> exn + nat \<Rightarrow> (unit, nat) handler" where
  "sample_handler name prio out =
     \<lparr>h_name = name, h_fn = (\<lambda>_. out), h_priority = prio, h_enabled = True, h_filter = None\<rparr>"

definition sample_event :: "unit event" where
  "sample_event = \<lparr>ev_name = ''document.added'', ev_source_module = ''test'', ev_payload = (),
     ev_priority = EP_NORMAL, ev_id = ''1'', ev_correlation_id = None, ev_version = ''1.0''\<rparr>"

definition sample_bus :: "(unit, nat) event_bus" where
  "sample_bus =
     snd (bus_subscribe ''document.added'' (sample_handler ''b'' EP_HIGH (Inl (Exn ValueError ''x'')))
       (snd (bus_subscribe ''document.added'' (sample_handler ''a'' EP_NORMAL (Inr 7)) event_bus_init)))"

lemma sample_bus_reachable: "bus_reachable sample_bus"
  unfolding sample_bus_def by (intro bus_reachable_subscribe bus_reachable.init)

lemma sample_bus_handlers:
  "bus_handlers sample_bus ''document.added'' =
     [sample_handler ''b'' EP_HIGH (Inl (Exn ValueError ''x'')), sample_handler ''a'' EP_NORMAL (Inr 7)]"
  by (simp add: sample_bus_def bus_defs event_bus_init_def py_bind_split sample_handler_def
      dict_has_def handlers_for_def sort_desc_def)

lemma sample_bus_published [simp]: "bs_published (eb_stats sample_bus) = 0"
  by (auto simp: sample_bus_def bus_defs event_bus_init_def py_bind_split)

lemma sample_h_fn [simp]: "h_fn (sample_handler n p out) ev = out"
  by (simp add: sample_handler_def)

lemma sample_accepts [simp]: "accepts (sample_handler n p out) ev = Inr True"
  by (simp add: accepts_def sample_handler_def)

theorem bus_handlers_ordered_witness:
  "distinct (map h_name (bus_handlers sample_bus ''document.added'')) \<and>
   map h_name (bus_handlers sample_bus ''document.added'') = [''b'', ''a'']"
  using bus_handlers_ordered [OF sample_bus_reachable, of "''document.added''"]
  by (simp add: sample_bus_handlers sample_handler_def)

theorem bus_subscribe_fifo_witness:
  "\<exists>before after. bus_handlers sample_bus ''document.added'' = before @ after \<and>
    bus_handlers (snd (bus_subscribe ''document.added'' (sample_handler ''c'' EP_HIGH (Inr 1)) sample_bus))
      ''document.added'' = before @ [sample_handler ''c'' EP_HIGH (Inr 1)] @ after"
proof -
  have "\<forall>g \<in> set (bus_handlers sample_bus ''document.added'').
      h_name g \<noteq> h_name (sample_handler ''c'' EP_HIGH (Inr 1))"
    by (simp add: sample_bus_handlers sample_handler_def)
  from bus_subscribe_fifo [OF sample_bus_reachable this] show ?thesis by blast
qed

theorem bus_publish_isolates_witness:
  "\<exists>rs. fst (bus_publish (\<lambda>_. 1) sample_event sample_bus) = Inr rs \<and> map res_success rs = [False, True] \<and>
    bs_published (eb_stats (snd (bus_publish (\<lambda>_. 1) sample_event sample_bus))) = 1 \<and>
    ds_durations_ms (eb_dispatcher (snd (bus_publish (\<lambda>_. 1) sample_event sample_bus))) = [1, 1]"
proof -
  have name: "ev_name sample_event = ''document.added''" by (simp add: sample_event_def)
  have hs: "bus_handlers sample_bus (ev_name sample_event) \<noteq> []"
    "\<forall>h \<in> set (bus_handlers sample_bus (ev_name sample_event)). \<not> isl (accepts h sample_event)"
    by (simp_all add: name sample_bus_handlers)
  have start: "eb_dispatcher sample_bus = \<lparr>ds_total = 0, ds_errors = 0, ds_durations_ms = []\<rparr>"
    by (auto simp: sample_bus_def bus_defs event_bus_init_def py_bind_split)
  have acc: "accepting sample_event (bus_handlers sample_bus (ev_name sample_event)) =
      [sample_handler ''b'' EP_HIGH (Inl (Exn ValueError ''x'')), sample_handler ''a'' EP_NORMAL (Inr 7)]"
    by (simp add: name sample_bus_handlers accepting_def)
  show ?thesis using bus_publish_isolates [OF hs, of "\<lambda>_. 1"] unfolding acc Let_def start
    by (auto simp: list_all2_Cons1 reports_def sample_bus_published numeral_2_eq_2)
qed

definition faulty_handler :: "(unit, nat) handler" where
  "faulty_handler = (sample_handler ''f'' EP_LOW (Inr 0))\<lparr>h_filter := Some (\<lambda>_. Inl (Exn KeyError ''k''))\<rparr>"

theorem bus_publish_filter_raises_witness:
  "fst (bus_publish (\<lambda>_. 1) sample_event
      (snd (bus_subscribe ''document.added'' faulty_handler event_bus_init))) = Inl (Exn KeyError ''k'')"
proof -
  let ?b = "snd (bus_subscribe ''document.added'' faulty_handler event_bus_init)"
  have "bus_handlers ?b (ev_name sample_event) = [] @ faulty_handler # []"
    by (simp add: bus_defs event_bus_init_def py_bind_split dict_has_def handlers_for_def
        sample_event_def sort_desc_def)
  moreover have "accepts faulty_handler sample_event = Inl (Exn KeyError ''k'')"
    by (simp add: accepts_def faulty_handler_def sample_handler_def)
  ultimately show ?thesis using bus_publish_filter_raises [of sample_event ?b "[]" faulty_handler "[]"] by simp
qed

end
