(* ===== verification/Pipeline_Stage.thy ===== *)
theory Pipeline_Stage
  imports Complex_Main Prelude
begin

text \<open>
  The declarations of the processing pipeline (\<open>pipeline/pipeline_stage.py\<close>, \<open>_retry\<close>,
  \<open>_statistics\<close>, \<open>_context\<close>, \<open>_result\<close>, \<open>_checkpoint\<close>): stage ids and statuses, retry policies,
  metrics, the context shared by the stages of a run, results, checkpoints and the in-memory
  checkpoint store.

  Floating-point durations are real numbers, points in time are integers (microseconds);
  the values stages put into the shared dictionary have any type \<open>'v\<close>.
\<close>

section \<open>Stage ids and statuses\<close>

datatype stage_id =
    DOCUMENT_VALIDATION | METADATA_EXTRACTION | OCR | LANGUAGE_DETECTION
  | DOCUMENT_CLASSIFICATION | PARSER | ENTITY_EXTRACTION | CHUNKING | EMBEDDINGS
  | INDEXING | KNOWLEDGE_GRAPH | TIMELINE | CONTRADICTION_DETECTION
  | SEARCH_REGISTRATION | STAGE_COMPLETED

fun stage_value :: "stage_id \<Rightarrow> string" where
  "stage_value DOCUMENT_VALIDATION = ''document_validation''"
| "stage_value METADATA_EXTRACTION = ''metadata_extraction''"
| "stage_value OCR = ''ocr''"
| "stage_value LANGUAGE_DETECTION = ''language_detection''"
| "stage_value DOCUMENT_CLASSIFICATION = ''document_classification''"
| "stage_value PARSER = ''parser''"
| "stage_value ENTITY_EXTRACTION = ''entity_extraction''"
| "stage_value CHUNKING = ''chunking''"
| "stage_value EMBEDDINGS = ''embeddings''"
| "stage_value INDEXING = ''indexing''"
| "stage_value KNOWLEDGE_GRAPH = ''knowledge_graph''"
| "stage_value TIMELINE = ''timeline''"
| "stage_value CONTRADICTION_DETECTION = ''contradiction_detection''"
| "stage_value SEARCH_REGISTRATION = ''search_registration''"
| "stage_value STAGE_COMPLETED = ''completed''"

definition PIPELINE_STAGE_ORDER :: "stage_id list" where
  "PIPELINE_STAGE_ORDER =
     [DOCUMENT_VALIDATION, METADATA_EXTRACTION, OCR, LANGUAGE_DETECTION,
      DOCUMENT_CLASSIFICATION, PARSER, ENTITY_EXTRACTION, CHUNKING, EMBEDDINGS,
      INDEXING, KNOWLEDGE_GRAPH, TIMELINE, CONTRADICTION_DETECTION,
      SEARCH_REGISTRATION, STAGE_COMPLETED]"

datatype stage_status =
    STATUS_PENDING | STATUS_RUNNING | STATUS_COMPLETED | STATUS_FAILED | STATUS_SKIPPED
  | STATUS_ROLLED_BACK

section \<open>Retry policies\<close>

datatype retry_strategy = NEVER | IMMEDIATE | FIXED_DELAY | EXPONENTIAL_BACKOFF | CUSTOM

record retry_policy =
  rp_strategy :: retry_strategy
  rp_max_attempts :: int
  rp_base_delay_seconds :: real
  rp_max_delay_seconds :: real
  rp_multiplier :: real

definition NO_RETRY :: retry_policy where
  "NO_RETRY = \<lparr>rp_strategy = NEVER, rp_max_attempts = 1, rp_base_delay_seconds = 0,
     rp_max_delay_seconds = 60, rp_multiplier = 2\<rparr>"

definition should_retry :: "retry_policy \<Rightarrow> int \<Rightarrow> bool" where
  "should_retry p attempt =
     (if rp_strategy p = NEVER then False else attempt < rp_max_attempts p)"

definition delay_for :: "retry_policy \<Rightarrow> int \<Rightarrow> real" where
  "delay_for p attempt =
     (if rp_strategy p \<in> {NEVER, IMMEDIATE} then 0
      else if rp_strategy p = FIXED_DELAY then rp_base_delay_seconds p
      else if rp_strategy p = EXPONENTIAL_BACKOFF then
        let delay = rp_base_delay_seconds p * rp_multiplier p ^ nat (max (attempt - 1) 0)
        in min delay (rp_max_delay_seconds p)
      else rp_base_delay_seconds p)"

section \<open>Metrics\<close>

record stage_metrics =
  sm_stage_id :: stage_id
  sm_start_time :: "int option"
  sm_end_time :: "int option"
  sm_cpu_time_seconds :: real
  sm_memory_bytes :: int
  sm_retries :: int
  sm_failures :: int

definition new_stage_metrics :: "stage_id \<Rightarrow> stage_metrics" where
  "new_stage_metrics s = \<lparr>sm_stage_id = s, sm_start_time = None, sm_end_time = None,
     sm_cpu_time_seconds = 0, sm_memory_bytes = 0, sm_retries = 0, sm_failures = 0\<rparr>"

definition elapsed_seconds :: "int option \<Rightarrow> int option \<Rightarrow> real" where
  "elapsed_seconds start end =
     (case (start, end) of (Some s, Some e) \<Rightarrow> real_of_int (e - s) / 1000000 | _ \<Rightarrow> 0)"

record pipeline_statistics =
  ps_start_time :: "int option"
  ps_end_time :: "int option"
  ps_files_processed :: int
  ps_skipped_stages :: "stage_id list"
  ps_stage_metrics :: "(stage_id, stage_metrics) dict"

definition new_statistics :: pipeline_statistics where
  "new_statistics = \<lparr>ps_start_time = None, ps_end_time = None, ps_files_processed = 0,
     ps_skipped_stages = [], ps_stage_metrics = []\<rparr>"

definition statistics_start :: "int \<Rightarrow> pipeline_statistics \<Rightarrow> pipeline_statistics" where
  "statistics_start now ps = ps\<lparr>ps_start_time := Some now\<rparr>"

definition statistics_finish :: "int \<Rightarrow> pipeline_statistics \<Rightarrow> pipeline_statistics" where
  "statistics_finish now ps = ps\<lparr>ps_end_time := Some now\<rparr>"

text \<open>\<open>metrics_for\<close> returns a reference; \<open>update_metrics\<close> writes through it.\<close>

definition metrics_for :: "stage_id \<Rightarrow> pipeline_statistics \<Rightarrow> stage_metrics \<times> pipeline_statistics" where
  "metrics_for s ps =
     (case dict_get (ps_stage_metrics ps) s of
        Some m \<Rightarrow> (m, ps)
      | None \<Rightarrow> let m = new_stage_metrics s
               in (m, ps\<lparr>ps_stage_metrics := dict_set s m (ps_stage_metrics ps)\<rparr>))"

definition update_metrics ::
    "stage_id \<Rightarrow> (stage_metrics \<Rightarrow> stage_metrics) \<Rightarrow> pipeline_statistics \<Rightarrow> pipeline_statistics" where
  "update_metrics s f ps =
     (case metrics_for s ps of (m, ps') \<Rightarrow>
        ps'\<lparr>ps_stage_metrics := dict_set s (f m) (ps_stage_metrics ps')\<rparr>)"

definition mark_skipped :: "stage_id \<Rightarrow> pipeline_statistics \<Rightarrow> pipeline_statistics" where
  "mark_skipped s ps =
     (if s \<in> set (ps_skipped_stages ps) then ps
      else ps\<lparr>ps_skipped_stages := ps_skipped_stages ps @ [s]\<rparr>)"

definition total_retries :: "pipeline_statistics \<Rightarrow> int" where
  "total_retries ps = sum_list (map sm_retries (dict_values (ps_stage_metrics ps)))"

definition total_failures :: "pipeline_statistics \<Rightarrow> int" where
  "total_failures ps = sum_list (map sm_failures (dict_values (ps_stage_metrics ps)))"

definition statistics_duration_seconds :: "pipeline_statistics \<Rightarrow> real" where
  "statistics_duration_seconds ps = elapsed_seconds (ps_start_time ps) (ps_end_time ps)"

definition metrics_duration_seconds :: "stage_metrics \<Rightarrow> real" where
  "metrics_duration_seconds m = elapsed_seconds (sm_start_time m) (sm_end_time m)"

section \<open>The context of a run\<close>

record cancellation_token =
  ct_cancelled :: bool
  ct_reason :: "string option"

definition cancel_token :: "string option \<Rightarrow> cancellation_token \<Rightarrow> cancellation_token" where
  "cancel_token reason t = t\<lparr>ct_cancelled := True, ct_reason := reason\<rparr>"

record 'v pipeline_context =
  cx_pipeline_id :: string
  cx_document_id :: string
  cx_statistics :: pipeline_statistics
  cx_cancellation_token :: cancellation_token
  cx_shared :: "(string, 'v) dict"

definition is_cancelled :: "'v pipeline_context \<Rightarrow> bool" where
  "is_cancelled cx = ct_cancelled (cx_cancellation_token cx)"

section \<open>Results\<close>

record 'v stage_result =
  sr_stage_id :: stage_id
  sr_status :: stage_status
  sr_success :: bool
  sr_warnings :: "string list"
  sr_errors :: "string list"
  sr_metrics :: "(string, real) dict"
  sr_artifacts :: "(string, 'v) dict"
  sr_execution_time_seconds :: real
  sr_output_metadata :: "(string, 'v) dict"
  sr_attempts :: int

definition stage_result_ok :: "stage_id \<Rightarrow> 'v stage_result" where
  "stage_result_ok s = \<lparr>sr_stage_id = s, sr_status = STATUS_COMPLETED, sr_success = True,
     sr_warnings = [], sr_errors = [], sr_metrics = [], sr_artifacts = [],
     sr_execution_time_seconds = 0, sr_output_metadata = [], sr_attempts = 1\<rparr>"

definition stage_result_failed :: "stage_id \<Rightarrow> string \<Rightarrow> 'v stage_result" where
  "stage_result_failed s error = (stage_result_ok s)\<lparr>sr_status := STATUS_FAILED,
     sr_success := False, sr_errors := [error]\<rparr>"

definition stage_result_skipped :: "stage_id \<Rightarrow> string \<Rightarrow> 'v stage_result" where
  "stage_result_skipped s reason = (stage_result_ok s)\<lparr>sr_status := STATUS_SKIPPED,
     sr_warnings := (if reason = [] then [] else [reason])\<rparr>"

record 'v pipeline_result =
  pr_pipeline_id :: string
  pr_document_id :: string
  pr_stage_results :: "'v stage_result list"
  pr_completed :: bool

definition add_result :: "'v stage_result \<Rightarrow> 'v pipeline_result \<Rightarrow> 'v pipeline_result" where
  "add_result r pr = pr\<lparr>pr_stage_results := pr_stage_results pr @ [r]\<rparr>"

definition succeeded :: "'v pipeline_result \<Rightarrow> bool" where
  "succeeded pr = list_all sr_success (pr_stage_results pr)"

definition result_for :: "stage_id \<Rightarrow> 'v pipeline_result \<Rightarrow> 'v stage_result option" where
  "result_for s pr = find (\<lambda>r. sr_stage_id r = s) (pr_stage_results pr)"

section \<open>Checkpoints\<close>

record 'v checkpoint =
  cp_pipeline_id :: string
  cp_document_id :: string
  cp_completed_stages :: "stage_id list"
  cp_last_stage :: "stage_id option"
  cp_shared :: "(string, 'v) dict"

definition with_stage :: "'v checkpoint \<Rightarrow> stage_id \<Rightarrow> (string, 'v) dict \<Rightarrow> 'v checkpoint" where
  "with_stage cp s shared =
     (let completed = (if s \<in> set (cp_completed_stages cp) then cp_completed_stages cp
                       else cp_completed_stages cp @ [s])
      in \<lparr>cp_pipeline_id = cp_pipeline_id cp, cp_document_id = cp_document_id cp,
          cp_completed_stages = completed, cp_last_stage = Some s, cp_shared = shared\<rparr>)"

type_synonym 'v memory_store = "(string, 'v checkpoint) dict"

definition memory_save :: "'v checkpoint \<Rightarrow> 'v memory_store \<Rightarrow> 'v memory_store" where
  "memory_save cp store = dict_set (cp_pipeline_id cp) cp store"

definition memory_restore :: "string \<Rightarrow> 'v memory_store \<Rightarrow> 'v checkpoint option" where
  "memory_restore pipeline_id store = dict_get store pipeline_id"

definition memory_resume :: "string \<Rightarrow> 'v memory_store \<Rightarrow> exn + 'v checkpoint" where
  "memory_resume pipeline_id store =
     (case dict_get store pipeline_id of
        None \<Rightarrow> Inl (Exn CheckpointError (''No checkpoint to resume for '' @ quoted pipeline_id))
      | Some cp \<Rightarrow> Inr cp)"

definition memory_reset :: "string \<Rightarrow> 'v memory_store \<Rightarrow> 'v memory_store" where
  "memory_reset pipeline_id store = dict_pop pipeline_id store"

section \<open>Stages\<close>

text \<open>
  The \<open>PipelineStage\<close> protocol: the declared attributes and the three operations, which are
  code of the stages and may read and change the context and raise.
\<close>

record 'v stage =
  st_id :: stage_id
  st_name :: string
  st_version :: string
  st_enabled :: bool
  st_dependencies :: "stage_id list"
  st_retry_policy :: retry_policy
  st_timeout_seconds :: "real option"
  st_validate :: "('v pipeline_context, bool) py"
  st_execute :: "('v pipeline_context, 'v stage_result) py"
  st_rollback :: "('v pipeline_context, unit) py"

text \<open>\<open>BaseStage\<close>: validation returns \<open>enabled\<close>, execution is not implemented, rollback does nothing.\<close>

definition base_stage :: "stage_id \<Rightarrow> string \<Rightarrow> bool \<Rightarrow> stage_id list \<Rightarrow> 'v stage" where
  "base_stage s name enabled dependencies =
     \<lparr>st_id = s, st_name = name, st_version = ''0.1.0'', st_enabled = enabled,
      st_dependencies = dependencies, st_retry_policy = NO_RETRY, st_timeout_seconds = None,
      st_validate = py_return enabled,
      st_execute = py_raise NotImplementedYetError (''Stage '' @ quoted (stage_value s)
        @ '' is not implemented yet (LexMind 0.1.0).''),
      st_rollback = py_return ()\<rparr>"

section \<open>Lemmas on the declarations\<close>

lemma stage_order_complete: "set PIPELINE_STAGE_ORDER = UNIV" and stage_order_distinct: "distinct PIPELINE_STAGE_ORDER"
proof -
  have "s \<in> set PIPELINE_STAGE_ORDER" for s by (cases s) (simp_all add: PIPELINE_STAGE_ORDER_def)
  then show "set PIPELINE_STAGE_ORDER = UNIV" by auto
  show "distinct PIPELINE_STAGE_ORDER" by (simp add: PIPELINE_STAGE_ORDER_def)
qed

lemma with_stage_simps [simp]:
  "cp_pipeline_id (with_stage cp s shared) = cp_pipeline_id cp"
  "cp_shared (with_stage cp s shared) = shared"
  "set (cp_completed_stages (with_stage cp s shared)) = insert s (set (cp_completed_stages cp))"
  "distinct (cp_completed_stages cp) \<Longrightarrow> distinct (cp_completed_stages (with_stage cp s shared))"
  by (auto simp: with_stage_def)

lemma metrics_for_get:
  "fst (metrics_for s ps) =
    (case dict_get (ps_stage_metrics ps) s of Some m \<Rightarrow> m | None \<Rightarrow> new_stage_metrics s)"
  "dict_get (ps_stage_metrics (snd (metrics_for s ps))) s' =
    (if s' = s then Some (fst (metrics_for s ps)) else dict_get (ps_stage_metrics ps) s')"
  by (auto simp: metrics_for_def Let_def split: option.splits)

lemma update_metrics_same [simp]:
  "fst (metrics_for s (update_metrics s f ps)) = f (fst (metrics_for s ps))"
  by (simp add: update_metrics_def metrics_for_get split: prod.split) (metis fst_conv metrics_for_get(1))

lemma metrics_for_twice [simp]: "fst (metrics_for s (snd (metrics_for s ps))) = fst (metrics_for s ps)"
  by (simp add: metrics_for_get)

lemma update_metrics_other [simp]:
  "s \<noteq> s' \<Longrightarrow> dict_get (ps_stage_metrics (update_metrics s f ps)) s' = dict_get (ps_stage_metrics ps) s'"
  using metrics_for_get(2) [of s ps s'] by (auto simp: update_metrics_def split: prod.split)

lemma update_metrics_fields [simp]:
  "ps_end_time (update_metrics s f ps) = ps_end_time ps"
  "ps_start_time (update_metrics s f ps) = ps_start_time ps"
  "ps_skipped_stages (update_metrics s f ps) = ps_skipped_stages ps"
  by (auto simp: update_metrics_def metrics_for_def Let_def split: option.splits)

end
