(* ===== verification/Dep_Graph.thy ===== *)
theory Dep_Graph
  imports Prelude
begin

text \<open>
  Depth-first traversal of a dependency graph given as a dictionary from nodes to their
  dependency lists: the algorithm of \<open>PipelineRegistry._toposort\<close>, which the plugin manager's
  \<open>_detect_cycle\<close> repeats with colours instead of sets. \<open>visit_all\<close> runs the inner function
  \<open>visit\<close> for each node of a list in turn (the \<open>for\<close> loops over the dependencies and over all
  registered nodes); its state holds the three variables the closure shares.
\<close>

section \<open>The traversal\<close>

record 'k topo_state =
  ts_ordered :: "'k list"
  ts_visiting :: "'k set"
  ts_visited :: "'k set"

definition topo_init :: "'k topo_state" where
  "topo_init = \<lparr>ts_ordered = [], ts_visiting = {}, ts_visited = {}\<rparr>"

definition enter_node :: "'k \<Rightarrow> 'k topo_state \<Rightarrow> 'k topo_state" where
  "enter_node n st = st\<lparr>ts_visiting := insert n (ts_visiting st)\<rparr>"

definition leave_node :: "'k \<Rightarrow> 'k topo_state \<Rightarrow> 'k topo_state" where
  "leave_node n st =
     st\<lparr>ts_visiting := ts_visiting st - {n}, ts_visited := insert n (ts_visited st),
        ts_ordered := ts_ordered st @ [n]\<rparr>"

lemma enter_node_simps [simp]:
  "ts_ordered (enter_node n st) = ts_ordered st"
  "ts_visited (enter_node n st) = ts_visited st"
  "ts_visiting (enter_node n st) = insert n (ts_visiting st)"
  by (simp_all add: enter_node_def)

lemma leave_node_simps [simp]:
  "ts_ordered (leave_node n st) = ts_ordered st @ [n]"
  "ts_visited (leave_node n st) = insert n (ts_visited st)"
  "ts_visiting (leave_node n st) = ts_visiting st - {n}"
  by (simp_all add: leave_node_def)

function visit_all ::
    "('k \<Rightarrow> exn) \<Rightarrow> ('k \<Rightarrow> exn) \<Rightarrow> ('k, 'k list) dict \<Rightarrow> 'k list \<Rightarrow> 'k topo_state \<Rightarrow> exn + 'k topo_state" where
  "visit_all cyc mis g [] st = Inr st"
| "visit_all cyc mis g (n # ns) st =
     (if n \<in> ts_visited st then visit_all cyc mis g ns st
      else if n \<in> ts_visiting st then Inl (cyc n)
      else case dict_get g n of
             None \<Rightarrow> Inl (mis n)
           | Some ds \<Rightarrow>
               (case visit_all cyc mis g ds (enter_node n st) of
                  Inl e \<Rightarrow> Inl e
                | Inr st' \<Rightarrow> visit_all cyc mis g ns (leave_node n st')))"
  by pat_completeness auto

text \<open>
  Termination: the nodes not yet entered become fewer with every entry, and leaving a node
  keeps it among the entered ones, so what remains after the nested call is not more than before.
\<close>

abbreviation entered :: "'k topo_state \<Rightarrow> 'k set" where
  "entered st \<equiv> ts_visiting st \<union> ts_visited st"

lemma visit_all_entered_dom:
  "visit_all_dom (cyc, mis, g, ns, st) \<Longrightarrow> visit_all cyc mis g ns st = Inr st' \<Longrightarrow> entered st \<subseteq> entered st'"
proof (induction arbitrary: st' rule: visit_all.pinduct)
  case (1 cyc mis g st)
  then show ?case by (simp add: visit_all.psimps)
next
  case (2 cyc mis g n ns st)
  show ?case
  proof (cases "n \<in> ts_visited st")
    case True
    with 2 show ?thesis by (simp add: visit_all.psimps)
  next
    case False
    with 2(1,5) obtain ds st1 where
      "n \<notin> ts_visiting st" "dict_get g n = Some ds"
      "visit_all cyc mis g ds (enter_node n st) = Inr st1"
      "visit_all cyc mis g ns (leave_node n st1) = Inr st'"
      by (auto simp: visit_all.psimps split: if_splits option.splits sum.splits)
    with False 2(3,4) have "entered (enter_node n st) \<subseteq> entered st1"
      "entered (leave_node n st1) \<subseteq> entered st'" by auto
    then show ?thesis by auto
  qed
qed

termination visit_all
proof (relation "measures [\<lambda>(cyc, mis, g, ns, st). card (set (dict_keys g) - entered st),
    \<lambda>(cyc, mis, g, ns, st). length ns]", goal_cases)
  case 1
  then show ?case by simp
next
  case (2 cyc mis g n ns st)
  then show ?case by simp
next
  case (3 cyc mis g n ns st ds)
  then have "n \<in> set (dict_keys g)" by (blast intro: dict_get_key)
  with 3 have "set (dict_keys g) - entered (enter_node n st) \<subset> set (dict_keys g) - entered st"
    by auto
  then show ?case by (simp add: psubset_card_mono)
next
  case (4 cyc mis g n ns st ds st')
  have "entered (enter_node n st) \<subseteq> entered st'"
    by (rule visit_all_entered_dom) (use 4 in simp_all)
  then have "set (dict_keys g) - entered (leave_node n st') \<subseteq> set (dict_keys g) - entered st"
    by auto
  then have "card (set (dict_keys g) - entered (leave_node n st')) \<le> card (set (dict_keys g) - entered st)"
    by (intro card_mono) auto
  then show ?case by auto
qed

section \<open>Topological orders\<close>

definition dep_edges :: "('k, 'k list) dict \<Rightarrow> ('k \<times> 'k) set" where
  "dep_edges g = {(n, d). \<exists>ds. dict_get g n = Some ds \<and> d \<in> set ds}"

text \<open>Every node of the list comes after all of its dependencies.\<close>

definition deps_first :: "('k, 'k list) dict \<Rightarrow> 'k list \<Rightarrow> bool" where
  "deps_first g ns = (\<forall>before n after. ns = before @ n # after \<longrightarrow> dep_edges g `` {n} \<subseteq> set before)"

lemma deps_first_Nil [simp]: "deps_first g []"
  by (simp add: deps_first_def)

lemma deps_first_snoc:
  assumes "deps_first g ns" and "dep_edges g `` {n} \<subseteq> set ns"
  shows "deps_first g (ns @ [n])"
  unfolding deps_first_def
proof (intro allI impI)
  fix before m after
  assume eq: "ns @ [n] = before @ m # after"
  show "dep_edges g `` {m} \<subseteq> set before"
  proof (cases after rule: rev_cases)
    case Nil
    with eq assms(2) show ?thesis by simp
  next
    case (snoc after' l)
    with eq have "ns = before @ m # after'" by simp
    with assms(1) show ?thesis unfolding deps_first_def by blast
  qed
qed

text \<open>A list with all dependencies first leaves no room for a cycle through its nodes.\<close>

lemma deps_first_trancl:
  assumes "deps_first g ns" and "(a, b) \<in> (dep_edges g)\<^sup>+" and "ns = before @ a # after"
  shows "b \<in> set before"
  using assms(2,3)
proof (induction arbitrary: before after rule: converse_trancl_induct)
  case (base a)
  with assms(1) show ?case unfolding deps_first_def by blast
next
  case (step a c)
  with assms(1) have "c \<in> set before" unfolding deps_first_def by blast
  then obtain p q where "before = p @ c # q" by (meson split_list)
  with step have "b \<in> set p" by (metis append.assoc append_Cons)
  with \<open>before = p @ c # q\<close> show ?case by simp
qed

lemma deps_first_acyclic:
  assumes "deps_first g ns" and "distinct ns" and "Domain (dep_edges g) \<subseteq> set ns"
  shows "acyclic (dep_edges g)"
  unfolding acyclic_def
proof (intro allI notI)
  fix n assume cyc: "(n, n) \<in> (dep_edges g)\<^sup>+"
  then have "n \<in> Domain (dep_edges g)" by (metis Domain.DomainI tranclD)
  with assms(3) obtain p q where "ns = p @ n # q" by (meson split_list subsetD)
  with deps_first_trancl [OF assms(1) cyc this] assms(2) show False by simp
qed

section \<open>What the traversal computes\<close>

definition topo_inv :: "('k, 'k list) dict \<Rightarrow> 'k topo_state \<Rightarrow> bool" where
  "topo_inv g st =
     (ts_visited st = set (ts_ordered st) \<and> distinct (ts_ordered st) \<and>
      deps_first g (ts_ordered st) \<and> ts_visiting st \<inter> ts_visited st = {} \<and>
      ts_visited st \<subseteq> set (dict_keys g))"

lemma topo_init_simps [simp]: "ts_ordered topo_init = []" "ts_visiting topo_init = {}" "ts_visited topo_init = {}"
  by (simp_all add: topo_init_def)

lemma topo_inv_init [simp]: "topo_inv g topo_init"
  by (simp add: topo_inv_def)

lemma topo_inv_enter: "topo_inv g st \<Longrightarrow> n \<notin> ts_visited st \<Longrightarrow> topo_inv g (enter_node n st)"
  by (auto simp: topo_inv_def)

lemma topo_inv_leave:
  assumes "topo_inv g st" and "n \<in> ts_visiting st" and "dict_get g n = Some ds"
    and "set ds \<subseteq> ts_visited st"
  shows "topo_inv g (leave_node n st)"
proof -
  have "dep_edges g `` {n} = set ds" using assms(3) by (auto simp: dep_edges_def)
  moreover have "n \<in> set (dict_keys g)" using assms(3) by (rule dict_get_key)
  ultimately show ?thesis
    using assms deps_first_snoc [of g "ts_ordered st" n] by (auto simp: topo_inv_def)
qed

lemma visit_all_Inr:
  assumes "visit_all cyc mis g ns st = Inr st'" and "topo_inv g st"
  shows "topo_inv g st' \<and> ts_visiting st' = ts_visiting st \<and>
    set ns \<subseteq> ts_visited st' \<and> ts_visited st \<subseteq> ts_visited st'"
  using assms
proof (induction cyc mis g ns st arbitrary: st' rule: visit_all.induct)
  case (1 cyc mis g st)
  then show ?case by simp
next
  case (2 cyc mis g n ns st)
  show ?case
  proof (cases "n \<in> ts_visited st")
    case True
    with 2(4) have "visit_all cyc mis g ns st = Inr st'" by simp
    from 2(1) [OF True this 2(5)] True show ?thesis by auto
  next
    case False
    with 2(4) obtain ds st1 where step: "n \<notin> ts_visiting st" "dict_get g n = Some ds"
      "visit_all cyc mis g ds (enter_node n st) = Inr st1"
      "visit_all cyc mis g ns (leave_node n st1) = Inr st'"
      by (auto split: if_splits option.splits sum.splits)
    have st1: "topo_inv g st1" "ts_visiting st1 = insert n (ts_visiting st)"
      "set ds \<subseteq> ts_visited st1" "ts_visited st \<subseteq> ts_visited st1"
      using 2(2) [OF False step(1,2,3)] topo_inv_enter [OF 2(5) False] by auto
    have "topo_inv g (leave_node n st1)"
      using st1 step(2) by (intro topo_inv_leave) auto
    with 2(3) [OF False step(1-3,4)] have "topo_inv g st'"
      "ts_visiting st' = ts_visiting st1 - {n}" "set ns \<subseteq> ts_visited st'"
      "insert n (ts_visited st1) \<subseteq> ts_visited st'" by auto
    with st1 step(1) show ?thesis by auto
  qed
qed

lemma visit_all_Inl:
  assumes "visit_all cyc mis g ns st = Inl e"
    and "\<forall>v \<in> ts_visiting st. \<forall>n \<in> set ns. (v, n) \<in> (dep_edges g)\<^sup>+"
    and "set ns \<subseteq> set (dict_keys g)" and "Range (dep_edges g) \<subseteq> set (dict_keys g)"
    and "topo_inv g st"
  shows "\<exists>n. e = cyc n \<and> (n, n) \<in> (dep_edges g)\<^sup>+"
  using assms
proof (induction cyc mis g ns st rule: visit_all.induct)
  case (1 cyc mis g st)
  then show ?case by simp
next
  case (2 cyc mis g n ns st)
  consider "n \<in> ts_visited st" | "n \<notin> ts_visited st" "n \<in> ts_visiting st"
    | "n \<notin> ts_visited st" "n \<notin> ts_visiting st" by blast
  then show ?case
  proof cases
    case 1
    with 2(4) have "visit_all cyc mis g ns st = Inl e" by simp
    from 2(1) [OF 1 this _ _ 2(7,8)] 2(5,6) show ?thesis by simp
  next
    case visiting: 2
    with 2(4,5) show ?thesis by auto
  next
    case new: 3
    from 2(6) have "n \<in> set (dict_keys g)" by simp
    then obtain ds where ds: "dict_get g n = Some ds" by (meson dict_key_get)
    then have edge: "\<forall>d \<in> set ds. (n, d) \<in> dep_edges g" by (auto simp: dep_edges_def)
    have path: "\<forall>v \<in> ts_visiting (enter_node n st). \<forall>d \<in> set ds. (v, d) \<in> (dep_edges g)\<^sup>+"
      using edge 2(5) by (auto intro: trancl_into_trancl)
    have closed: "set ds \<subseteq> set (dict_keys g)" using edge 2(7) by auto
    show ?thesis
    proof (cases "visit_all cyc mis g ds (enter_node n st)")
      case (Inl e')
      with 2(4) new ds have "e' = e" by auto
      with 2(2) [OF new ds] Inl path closed 2(7) topo_inv_enter [OF 2(8) new(1)] show ?thesis by auto
    next
      case (Inr st1)
      note st1 = visit_all_Inr [OF Inr topo_inv_enter [OF 2(8) new(1)]]
      have "topo_inv g (leave_node n st1)" using st1 ds by (intro topo_inv_leave) auto
      moreover have "visit_all cyc mis g ns (leave_node n st1) = Inl e" using 2(4) new ds Inr by auto
      moreover have "\<forall>v \<in> ts_visiting (leave_node n st1). \<forall>m \<in> set ns. (v, m) \<in> (dep_edges g)\<^sup>+"
        using st1 2(5) by auto
      ultimately show ?thesis using 2(3) [OF new ds Inr] 2(6,7) by auto
    qed
  qed
qed

text \<open>The two directions together, for a traversal from all nodes of a closed graph.\<close>

lemma visit_all_complete:
  assumes "Range (dep_edges g) \<subseteq> set (dict_keys g)"
  shows "(\<exists>st. visit_all cyc mis g (dict_keys g) topo_init = Inr st \<and> distinct (ts_ordered st) \<and>
      set (ts_ordered st) = set (dict_keys g) \<and> deps_first g (ts_ordered st) \<and> acyclic (dep_edges g)) \<or>
    (\<exists>n. visit_all cyc mis g (dict_keys g) topo_init = Inl (cyc n) \<and> (n, n) \<in> (dep_edges g)\<^sup>+)"
proof (cases "visit_all cyc mis g (dict_keys g) topo_init")
  case (Inl e)
  from visit_all_Inl [OF this] assms have "\<exists>n. e = cyc n \<and> (n, n) \<in> (dep_edges g)\<^sup>+" by simp
  with Inl show ?thesis by blast
next
  case (Inr st)
  note res = visit_all_Inr [OF this topo_inv_init]
  then have all: "set (ts_ordered st) = set (dict_keys g)" "distinct (ts_ordered st)"
    "deps_first g (ts_ordered st)" by (auto simp: topo_inv_def)
  have "Domain (dep_edges g) \<subseteq> set (dict_keys g)"
    by (auto simp: dep_edges_def dest!: map_of_SomeD intro: rev_image_eqI)
  with all have "acyclic (dep_edges g)" by (metis deps_first_acyclic)
  with all Inr show ?thesis by simp
qed

end
