(* ===== verification/Registry.thy ===== *)
theory Registry
  imports Prelude
begin

text \<open>
  The contract the in-memory registries of the program share (pipeline stages, plugins, kernel
  modules): objects are stored under their own id in a dictionary, a second object with the
  same id is refused, and listing returns them in registration order. The locale states what a
  registry promises; the lemmas proved inside it are what the clients rely on.
\<close>

locale keyed_registry =
  fixes key :: "'v \<Rightarrow> 'k"
    and register :: "'v \<Rightarrow> ('r, unit) py"
    and remove :: "'k \<Rightarrow> 'r \<Rightarrow> 'r"
    and lookup :: "'r \<Rightarrow> 'k \<Rightarrow> 'v option"
    and items :: "'r \<Rightarrow> 'v list"
    and ok :: "'r \<Rightarrow> bool"
  assumes register_new:
      "ok r \<Longrightarrow> lookup r (key v) = None \<Longrightarrow>
        \<exists>r'. register v r = (Inr (), r') \<and> ok r' \<and> items r' = items r @ [v] \<and>
          lookup r' = (lookup r)(key v := Some v)"
    and register_taken:
      "ok r \<Longrightarrow> lookup r (key v) = Some w \<Longrightarrow> isl (fst (register v r)) \<and> snd (register v r) = r"
    and remove_ok: "ok r \<Longrightarrow> ok (remove k r)"
    and remove_items: "ok r \<Longrightarrow> items (remove k r) = filter (\<lambda>v. key v \<noteq> k) (items r)"
    and lookup_items: "ok r \<Longrightarrow> lookup r k = Some v \<longleftrightarrow> v \<in> set (items r) \<and> key v = k"
begin

lemma keys_unique: "ok r \<Longrightarrow> v \<in> set (items r) \<Longrightarrow> w \<in> set (items r) \<Longrightarrow> key v = key w \<Longrightarrow> v = w"
  by (metis lookup_items option.inject)

lemma lookup_None: "ok r \<Longrightarrow> lookup r k = None \<longleftrightarrow> k \<notin> key ` set (items r)"
  by (metis (no_types, lifting) image_iff lookup_items not_None_eq)

lemma lookup_remove: "ok r \<Longrightarrow> lookup (remove k r) k' = (if k' = k then None else lookup r k')"
proof -
  assume ok: "ok r"
  then have "lookup (remove k r) k' = Some v \<longleftrightarrow> (if k' = k then None else lookup r k') = Some v" for v
    by (auto simp: lookup_items remove_ok remove_items)
  then show ?thesis by (metis not_None_eq)
qed

text \<open>Registering a list of objects with fresh, distinct ids stores all of them in order.\<close>

lemma register_all:
  assumes "ok r" and "distinct (map key vs)" and "\<forall>v \<in> set vs. lookup r (key v) = None"
  shows "\<exists>r'. py_for vs register r = (Inr (), r') \<and> ok r' \<and> items r' = items r @ vs"
  using assms
proof (induction vs arbitrary: r)
  case Nil
  then show ?case by simp
next
  case (Cons v vs)
  obtain r1 where r1: "register v r = (Inr (), r1)" "ok r1" "items r1 = items r @ [v]"
    "lookup r1 = (lookup r)(key v := Some v)"
    using register_new [of r v] Cons.prems by auto
  have "\<forall>w \<in> set vs. lookup r1 (key w) = None"
    using Cons.prems r1(4) by (metis fun_upd_other image_eqI list.set_intros(2) list.simps(9) distinct.simps(2) list.set_map)
  with Cons.IH [OF r1(2)] Cons.prems(2) obtain r' where
    "py_for vs register r1 = (Inr (), r')" "ok r'" "items r' = items r1 @ vs" by auto
  with r1 show ?case by simp
qed

text \<open>A duplicate in the list stops the registration there, with everything before it stored.\<close>

lemma register_duplicate:
  assumes "ok r" and "distinct (map key vs)" and "\<forall>v \<in> set vs. lookup r (key v) = None"
    and "key w \<in> key ` set vs"
  shows "isl (fst (py_for (vs @ [w]) register r)) \<and> items (snd (py_for (vs @ [w]) register r)) = items r @ vs"
proof -
  have split: "py_for (xs @ ys) f s = py_bind (py_for xs f) (\<lambda>_. py_for ys f) s" for xs ys f and s :: 'r
    by (induction xs arbitrary: s) (simp_all add: py_bind_split split: sum.splits)
  obtain r' where r': "py_for vs register r = (Inr (), r')" "ok r'" "items r' = items r @ vs"
    using register_all [OF assms(1-3)] by blast
  have "lookup r' (key w) \<noteq> None" using lookup_None [OF r'(2)] r'(3) assms(4) by auto
  then obtain x where "lookup r' (key w) = Some x" by blast
  from register_taken [OF r'(2) this] r' show ?thesis
    by (auto simp: split py_bind_split split: sum.splits)
qed

lemma register_remove:
  assumes "ok r" and "lookup r (key v) = None"
  shows "items (remove (key v) (snd (register v r))) = items r"
proof -
  obtain r' where r': "register v r = (Inr (), r')" "ok r'" "items r' = items r @ [v]"
    using register_new [OF assms] by blast
  have "key v \<notin> key ` set (items r)" using assms lookup_None by blast
  then have "filter (\<lambda>u. key u \<noteq> key v) (items r) = items r"
    by (intro filter_True) (auto simp: image_iff)
  with r' show ?thesis by (simp add: remove_items)
qed

end

text \<open>
  The representation the registries use: a dictionary in which every object is stored under
  its own id.
\<close>

definition registry_wf :: "('v \<Rightarrow> 'k) \<Rightarrow> ('k, 'v) dict \<Rightarrow> bool" where
  "registry_wf key d = (dict_wf d \<and> (\<forall>(k, v) \<in> set d. k = key v))"

lemma registry_wf_empty [simp]: "registry_wf key []"
  by (simp add: registry_wf_def)

lemma registry_wf_set: "registry_wf key d \<Longrightarrow> registry_wf key (dict_set (key v) v d)"
  using set_dict_set [of "key v" v d] by (auto simp: registry_wf_def)

lemma set_delete_subset: "set (dict_pop k d) \<subseteq> set d"
  by (auto simp: AList.delete_eq)

lemma registry_wf_pop: "registry_wf key d \<Longrightarrow> registry_wf key (dict_pop k d)"
  unfolding registry_wf_def using dict_wf_pop [of d k] set_delete_subset [of k d] by blast

lemma registry_wf_get: "registry_wf key d \<Longrightarrow> dict_get d k = Some v \<longleftrightarrow> v \<in> set (dict_values d) \<and> key v = k"
  by (force simp: registry_wf_def dict_get_mem [symmetric])

lemma registry_wf_values_pop:
  "registry_wf key d \<Longrightarrow> dict_values (dict_pop k d) = filter (\<lambda>v. key v \<noteq> k) (dict_values d)"
  by (induction d) (auto simp: registry_wf_def dict_wf_def)

lemma registry_wf_keys: "registry_wf key d \<Longrightarrow> dict_keys d = map key (dict_values d)"
  by (induction d) (auto simp: registry_wf_def dict_wf_def)

end
