(* ===== verification/Pipeline_Registry.thy ===== *)
theory Pipeline_Registry
  imports Pipeline_Stage Dep_Graph Registry
begin

text \<open>
  \<open>pipeline/pipeline_registry.py\<close> and \<open>pipeline/pipeline.py\<close>: the stages registered under their
  ids, the validation of their dependency graph, and the selection of stages a pipeline runs.
  The registry is an instance of \<open>keyed_registry\<close>; its topological sort is \<open>visit_all\<close> on the
  dependency lists of the stages.
\<close>

section \<open>The registry\<close>

type_synonym 'v stages = "(stage_id, 'v stage) dict"

definition stages_register :: "'v stage \<Rightarrow> ('v stages, unit) py" where
  "stages_register s =
     py_bind (py_read (\<lambda>r. dict_has r (st_id s))) (\<lambda>taken.
     if taken
     then py_raise DuplicateStageError (''Stage '' @ quoted (stage_value (st_id s)) @ '' already registered'')
     else py_modify (dict_set (st_id s) s))"

definition stages_unregister :: "stage_id \<Rightarrow> 'v stages \<Rightarrow> 'v stages" where
  "stages_unregister k r = dict_pop k r"

definition stages_get :: "stage_id \<Rightarrow> 'v stages \<Rightarrow> exn + 'v stage" where
  "stages_get k r =
     (case dict_get r k of
        None \<Rightarrow> Inl (Exn StageNotFoundError (''Stage '' @ quoted (stage_value k) @ '' is not registered''))
      | Some s \<Rightarrow> Inr s)"

definition stages_has :: "stage_id \<Rightarrow> 'v stages \<Rightarrow> bool" where
  "stages_has k r = dict_has r k"

definition stages_all :: "'v stages \<Rightarrow> 'v stage list" where
  "stages_all r = dict_values r"

section \<open>Validation\<close>

text \<open>The first missing dependency, in registration order and then in declaration order.\<close>

definition missing_dependencies :: "'v stages \<Rightarrow> (stage_id \<times> stage_id) list" where
  "missing_dependencies r =
     concat (map (\<lambda>s. map (Pair (st_id s)) (filter (\<lambda>d. \<not> dict_has r d) (st_dependencies s)))
       (dict_values r))"

definition check_missing :: "'v stages \<Rightarrow> exn + unit" where
  "check_missing r =
     (case missing_dependencies r of
        [] \<Rightarrow> Inr ()
      | (k, d) # _ \<Rightarrow> Inl (Exn StageDependencyError
          (''Stage '' @ quoted (stage_value k) @ '' depends on unregistered '' @ quoted (stage_value d))))"

definition stage_graph :: "'v stages \<Rightarrow> (stage_id, stage_id list) dict" where
  "stage_graph r = map (\<lambda>(k, s). (k, st_dependencies s)) r"

definition cycle_error :: "stage_id \<Rightarrow> exn" where
  "cycle_error k = Exn StageDependencyError (''Dependency cycle at '' @ quoted (stage_value k))"

text \<open>\<open>self._stages[stage_id]\<close> raises \<open>KeyError\<close> with the representation of the key.\<close>

definition toposort :: "'v stages \<Rightarrow> exn + stage_id list" where
  "toposort r =
     (case visit_all cycle_error (\<lambda>k. Exn KeyError (stage_value k)) (stage_graph r)
        (dict_keys (stage_graph r)) topo_init of
        Inl e \<Rightarrow> Inl e
      | Inr st \<Rightarrow> Inr (ts_ordered st))"

definition validate_dependencies :: "'v stages \<Rightarrow> exn + unit" where
  "validate_dependencies r =
     (case check_missing r of Inl e \<Rightarrow> Inl e
      | Inr _ \<Rightarrow> (case toposort r of Inl e \<Rightarrow> Inl e | Inr _ \<Rightarrow> Inr ()))"

definition topological_order :: "'v stages \<Rightarrow> exn + stage_id list" where
  "topological_order r = (case check_missing r of Inl e \<Rightarrow> Inl e | Inr _ \<Rightarrow> toposort r)"

section \<open>Pipelines\<close>

record 'v pipeline =
  pl_name :: string
  pl_registry :: "'v stages"
  pl_order :: "stage_id list"

definition new_pipeline :: "string \<Rightarrow> 'v stages \<Rightarrow> stage_id list option \<Rightarrow> 'v pipeline" where
  "new_pipeline name r stage_order =
     \<lparr>pl_name = name, pl_registry = r,
      pl_order = (case stage_order of None \<Rightarrow> PIPELINE_STAGE_ORDER | Some ks \<Rightarrow> ks)\<rparr>"

text \<open>Ids of the order that are not registered are skipped.\<close>

definition pipeline_stages :: "'v pipeline \<Rightarrow> 'v stage list" where
  "pipeline_stages p = List.map_filter (dict_get (pl_registry p)) (pl_order p)"

definition pipeline_validate :: "'v pipeline \<Rightarrow> exn + unit" where
  "pipeline_validate p = validate_dependencies (pl_registry p)"

section \<open>The registry keeps its contract\<close>

definition stages_ok :: "'v stages \<Rightarrow> bool" where
  "stages_ok r = registry_wf st_id r"

lemma stages_ok_Nil [simp]: "stages_ok []"
  by (simp add: stages_ok_def)

interpretation stage_registry: keyed_registry st_id stages_register stages_unregister dict_get stages_all stages_ok
proof
  fix r :: "'v stages" and v w :: "'v stage" and k
  assume ok: "stages_ok r"
  show "\<exists>r'. stages_register v r = (Inr (), r') \<and> stages_ok r' \<and> stages_all r' = stages_all r @ [v] \<and>
      dict_get r' = (dict_get r)(st_id v := Some v)" if "dict_get r (st_id v) = None"
    using ok that registry_wf_set [of st_id r v]
    by (auto simp: stages_register_def py_bind_split dict_has_def stages_ok_def stages_all_def dict_set_fresh
        fun_eq_iff map_add_def split: option.splits)
  show "isl (fst (stages_register v r)) \<and> snd (stages_register v r) = r" if "dict_get r (st_id v) = Some w"
    using that by (simp add: stages_register_def py_bind_split dict_has_def)
  show "stages_ok (stages_unregister k r)"
    using ok registry_wf_pop by (auto simp: stages_ok_def stages_unregister_def)
  show "stages_all (stages_unregister k r) = filter (\<lambda>v. st_id v \<noteq> k) (stages_all r)"
    using ok registry_wf_values_pop by (auto simp: stages_ok_def stages_all_def stages_unregister_def)
  show "dict_get r k = Some v \<longleftrightarrow> v \<in> set (stages_all r) \<and> st_id v = k"
    using ok unfolding stages_ok_def stages_all_def by (rule registry_wf_get)
qed

section \<open>Validation decides acyclicity\<close>

lemma stage_registered: "stages_ok r \<Longrightarrow> s \<in> set (stages_all r) \<longleftrightarrow> dict_get r (st_id s) = Some s"
  by (simp add: stage_registry.lookup_items)

lemma stage_key: "stages_ok r \<Longrightarrow> dict_get r k = Some s \<Longrightarrow> st_id s = k"
  by (simp add: stage_registry.lookup_items)

abbreviation stage_edges :: "'v stages \<Rightarrow> (stage_id \<times> stage_id) set" where
  "stage_edges r \<equiv> dep_edges (stage_graph r)"

lemma stage_graph_keys [simp]: "dict_keys (stage_graph r) = dict_keys r"
  by (simp add: stage_graph_def comp_def case_prod_beta)

lemma stage_graph_get: "dict_get (stage_graph r) k = map_option st_dependencies (dict_get r k)"
  by (induction r) (auto simp: stage_graph_def)

lemma stage_edges_iff: "(k, d) \<in> stage_edges r \<longleftrightarrow> (\<exists>s. dict_get r k = Some s \<and> d \<in> set (st_dependencies s))"
  by (auto simp: dep_edges_def stage_graph_get)

lemma missing_dependencies_iff:
  assumes "stages_ok r"
  shows "(k, d) \<in> set (missing_dependencies r) \<longleftrightarrow> (k, d) \<in> stage_edges r \<and> \<not> dict_has r d"
proof -
  have "(k, d) \<in> set (missing_dependencies r) \<longleftrightarrow>
      (\<exists>s \<in> set (stages_all r). st_id s = k \<and> d \<in> set (st_dependencies s) \<and> \<not> dict_has r d)"
    by (auto simp: missing_dependencies_def stages_all_def)
  also have "\<dots> \<longleftrightarrow> (\<exists>s. dict_get r k = Some s \<and> d \<in> set (st_dependencies s)) \<and> \<not> dict_has r d"
    unfolding stage_registry.lookup_items [OF assms] by blast
  finally show ?thesis by (simp add: stage_edges_iff)
qed

lemma check_missing_Inr:
  assumes "stages_ok r"
  shows "check_missing r = Inr () \<longleftrightarrow> Range (stage_edges r) \<subseteq> set (dict_keys r)"
proof -
  have "check_missing r = Inr () \<longleftrightarrow> missing_dependencies r = []"
    by (auto simp: check_missing_def split: list.splits)
  also have "\<dots> \<longleftrightarrow> (\<forall>k d. (k, d) \<notin> set (missing_dependencies r))"
    by (cases "missing_dependencies r") auto
  also have "\<dots> \<longleftrightarrow> Range (stage_edges r) \<subseteq> set (dict_keys r)"
    unfolding missing_dependencies_iff [OF assms] dict_has_iff by blast
  finally show ?thesis .
qed

lemma toposort_complete:
  assumes "Range (stage_edges r) \<subseteq> set (dict_keys r)"
  shows "(\<exists>ks. toposort r = Inr ks \<and> distinct ks \<and> set ks = set (dict_keys r) \<and>
      deps_first (stage_graph r) ks \<and> acyclic (stage_edges r)) \<or>
    (\<exists>k. toposort r = Inl (cycle_error k) \<and> (k, k) \<in> (stage_edges r)\<^sup>+)"
  using visit_all_complete [of "stage_graph r" cycle_error "\<lambda>k. Exn KeyError (stage_value k)"] assms
  by (auto simp: toposort_def)

lemma pipeline_stages_registered:
  assumes "stages_ok (pl_registry p)"
  shows "s \<in> set (pipeline_stages p) \<longleftrightarrow>
     s \<in> set (stages_all (pl_registry p)) \<and> st_id s \<in> set (pl_order p)"
proof -
  have "s \<in> set (pipeline_stages p) \<longleftrightarrow> (\<exists>k \<in> set (pl_order p). dict_get (pl_registry p) k = Some s)"
    by (force simp: pipeline_stages_def List.map_filter_def image_iff)
  then show ?thesis using stage_registry.lookup_items [OF assms] by auto
qed

lemma pipeline_stages_ids:
  "stages_ok (pl_registry p) \<Longrightarrow>
     map st_id (pipeline_stages p) = filter (\<lambda>k. dict_has (pl_registry p) k) (pl_order p)"
  unfolding pipeline_stages_def
proof (induction "pl_order p" arbitrary: p)
  case Nil
  then show ?case by (simp add: List.map_filter_def)
next
  case (Cons k ks)
  have IH: "map st_id (List.map_filter (dict_get (pl_registry p)) ks) = filter (dict_has (pl_registry p)) ks"
    using Cons(1) [of "p\<lparr>pl_order := ks\<rparr>"] Cons.prems by simp
  show ?case
  proof (cases "dict_get (pl_registry p) k")
    case None
    with IH show ?thesis by (simp add: Cons(2) [symmetric] map_filter_simps dict_has_def)
  next
    case (Some s)
    with IH stage_key [OF Cons.prems Some] show ?thesis
      by (simp add: Cons(2) [symmetric] map_filter_simps dict_has_def)
  qed
qed

section \<open>Properties\<close>

text \<open>Validation of a registry succeeds exactly if every dependency is registered and the
  dependency graph has no cycle.\<close>

theorem validate_dependencies_iff:
  assumes "stages_ok r"
  shows "validate_dependencies r = Inr () \<longleftrightarrow>
    (\<forall>s \<in> set (stages_all r). set (st_dependencies s) \<subseteq> set (dict_keys r)) \<and> acyclic (stage_edges r)"
proof -
  have closed: "Range (stage_edges r) \<subseteq> set (dict_keys r) \<longleftrightarrow>
      (\<forall>s \<in> set (stages_all r). set (st_dependencies s) \<subseteq> set (dict_keys r))"
  proof
    assume closed: "Range (stage_edges r) \<subseteq> set (dict_keys r)"
    show "\<forall>s \<in> set (stages_all r). set (st_dependencies s) \<subseteq> set (dict_keys r)"
    proof (intro ballI subsetI)
      fix s d assume "s \<in> set (stages_all r)" "d \<in> set (st_dependencies s)"
      then have "(st_id s, d) \<in> stage_edges r" using stage_registered [OF assms] by (auto simp: stage_edges_iff)
      with closed show "d \<in> set (dict_keys r)" by blast
    qed
  next
    assume all: "\<forall>s \<in> set (stages_all r). set (st_dependencies s) \<subseteq> set (dict_keys r)"
    show "Range (stage_edges r) \<subseteq> set (dict_keys r)"
    proof
      fix d assume "d \<in> Range (stage_edges r)"
      then obtain k s where "dict_get r k = Some s" "d \<in> set (st_dependencies s)"
        unfolding Range_iff stage_edges_iff by blast
      with all stage_registry.lookup_items [OF assms] show "d \<in> set (dict_keys r)" by blast
    qed
  qed
  show ?thesis
  proof (cases "Range (stage_edges r) \<subseteq> set (dict_keys r)")
    case True
    from toposort_complete [OF True] have "(\<exists>ks. toposort r = Inr ks) \<longleftrightarrow> acyclic (stage_edges r)"
      unfolding acyclic_def by fastforce
    with check_missing_Inr [OF assms] True closed show ?thesis
      by (auto simp: validate_dependencies_def split: sum.splits)
  next
    case False
    with check_missing_Inr [OF assms] closed show ?thesis
      by (auto simp: validate_dependencies_def split: sum.splits)
  qed
qed

text \<open>C6: The order \<open>topological_order\<close> returns contains every registered stage once, every stage
  after all of its dependencies; when it raises although all dependencies are registered, the
  stage it names is on a dependency cycle.\<close>

theorem topological_order_correct:
  assumes "stages_ok r" and "check_missing r = Inr ()"
  shows "case topological_order r of
      Inr ks \<Rightarrow> distinct ks \<and> set ks = set (dict_keys r) \<and> deps_first (stage_graph r) ks
    | Inl e \<Rightarrow> \<exists>k. e = cycle_error k \<and> (k, k) \<in> (stage_edges r)\<^sup>+"
proof -
  have "Range (stage_edges r) \<subseteq> set (dict_keys r)" using assms check_missing_Inr by blast
  from toposort_complete [OF this] show ?thesis by (auto simp: topological_order_def assms(2))
qed

text \<open>Registering stages with distinct ids into an empty registry stores all of them in the
  order of registration; a further stage whose id is taken raises and leaves the registry as it is.\<close>

theorem stages_register_all:
  assumes "distinct (map st_id ss)"
  shows "\<exists>r. py_for ss stages_register [] = (Inr (), r) \<and> stages_ok r \<and> stages_all r = ss \<and>
    (\<forall>s. st_id s \<in> st_id ` set ss \<longrightarrow>
      stages_register s r = (Inl (Exn DuplicateStageError
        (''Stage '' @ quoted (stage_value (st_id s)) @ '' already registered'')), r))"
proof -
  have "stages_all [] = []" by (simp add: stages_all_def)
  then obtain r where r: "py_for ss stages_register [] = (Inr (), r)" "stages_ok r" "stages_all r = ss"
    using stage_registry.register_all [of "[]" ss] assms by auto
  have "dict_has r (st_id s)" if "st_id s \<in> st_id ` set ss" for s
    using stage_registry.lookup_None [OF r(2)] r(3) that by (auto simp: dict_has_def)
  with r show ?thesis by (auto simp: stages_register_def py_bind_split)
qed

section \<open>Witnesses\<close>

definition two_stages :: "nat stage list" where
  "two_stages = [base_stage PARSER ''parser'' True [OCR], base_stage OCR ''ocr'' True []]"

definition two_stage_registry :: "nat stages" where
  "two_stage_registry = snd (py_for two_stages stages_register [])"

lemma two_stage_registry_eq:
  "two_stage_registry = [(PARSER, base_stage PARSER ''parser'' True [OCR]), (OCR, base_stage OCR ''ocr'' True [])]"
  by (simp add: two_stage_registry_def two_stages_def stages_register_def py_bind_split dict_has_def base_stage_def)

lemma two_stage_registry_ok: "stages_ok two_stage_registry"
  by (simp add: two_stage_registry_eq stages_ok_def registry_wf_def dict_wf_def base_stage_def)

theorem stages_register_all_witness:
  "\<exists>r. py_for two_stages stages_register [] = (Inr (), r) \<and> stages_all r = two_stages"
proof -
  have "distinct (map st_id two_stages)" by (simp add: two_stages_def base_stage_def)
  from stages_register_all [OF this] show ?thesis by blast
qed

theorem validate_dependencies_iff_witness:
  "acyclic (stage_edges two_stage_registry) \<and> validate_dependencies two_stage_registry = Inr ()"
proof -
  have "validate_dependencies two_stage_registry = Inr ()"
    by (simp add: validate_dependencies_def check_missing_def missing_dependencies_def toposort_def
        two_stage_registry_eq base_stage_def dict_has_def stage_graph_def enter_node_def leave_node_def topo_init_def)
  with validate_dependencies_iff [OF two_stage_registry_ok] show ?thesis by blast
qed

theorem topological_order_correct_witness:
  "topological_order two_stage_registry = Inr [OCR, PARSER] \<and>
   deps_first (stage_graph two_stage_registry) [OCR, PARSER]"
proof -
  have cm: "check_missing two_stage_registry = Inr ()"
    by (simp add: check_missing_def missing_dependencies_def two_stage_registry_eq base_stage_def dict_has_def)
  have "topological_order two_stage_registry = Inr [OCR, PARSER]"
    by (simp add: topological_order_def cm) (simp add: toposort_def two_stage_registry_eq base_stage_def
        dict_has_def stage_graph_def enter_node_def leave_node_def topo_init_def)
  with topological_order_correct [OF two_stage_registry_ok cm] show ?thesis by simp
qed

end
