(* ===== verification/Pipeline_Executor.thy ===== *)
theory Pipeline_Executor
  imports Pipeline_Registry
begin

text \<open>
  \<open>pipeline/pipeline_executor.py\<close> and \<open>pipeline/pipeline_manager.py\<close>: the sequential run of a
  pipeline with validation, skipping, retries, rollback, checkpoints, cancellation and events.

  The record \<open>executor\<close> holds what the constructor is given: the checkpoint store's \<open>save\<close> and
  \<open>restore\<close>, the \<open>emit\<close> callback, and the readings of the two clocks, indexed by the number of
  readings made before. The record \<open>run_world\<close> holds everything a run can change: the context,
  the store, what the event callback keeps, the delays slept, and the result under construction.
  The stage operations are functions of the context that may mutate it and raise.
\<close>

section \<open>The executor and its world\<close>

datatype payload_value = P_str string | P_int int

type_synonym payload = "(string, payload_value) dict"

record ('v, 'c, 'b) executor =
  ex_save :: "'v checkpoint \<Rightarrow> ('c, unit) py"
  ex_restore :: "string \<Rightarrow> ('c, 'v checkpoint option) py"
  ex_emit :: "string \<Rightarrow> payload \<Rightarrow> ('b, unit) py"
  ex_now :: "nat \<Rightarrow> int"
  ex_perf :: "nat \<Rightarrow> real"

record ('v, 'c, 'b) run_world =
  w_context :: "'v pipeline_context"
  w_store :: 'c
  w_sink :: 'b
  w_slept :: "real list"
  w_ticks :: nat
  w_result :: "'v pipeline_result"

definition on_context :: "('v pipeline_context, 'a) py \<Rightarrow> (('v, 'c, 'b) run_world, 'a) py" where
  "on_context = py_on w_context (\<lambda>c w. w\<lparr>w_context := c\<rparr>)"

definition on_store :: "('c, 'a) py \<Rightarrow> (('v, 'c, 'b) run_world, 'a) py" where
  "on_store = py_on w_store (\<lambda>c w. w\<lparr>w_store := c\<rparr>)"

definition emit :: "('v, 'c, 'b) executor \<Rightarrow> string \<Rightarrow> payload \<Rightarrow> (('v, 'c, 'b) run_world, unit) py" where
  "emit ex name p = py_on w_sink (\<lambda>b w. w\<lparr>w_sink := b\<rparr>) (ex_emit ex name p)"

definition now :: "('v, 'c, 'b) executor \<Rightarrow> (('v, 'c, 'b) run_world, int) py" where
  "now ex = (\<lambda>w. (Inr (ex_now ex (w_ticks w)), w\<lparr>w_ticks := Suc (w_ticks w)\<rparr>))"

definition perf_counter :: "('v, 'c, 'b) executor \<Rightarrow> (('v, 'c, 'b) run_world, real) py" where
  "perf_counter ex = (\<lambda>w. (Inr (ex_perf ex (w_ticks w)), w\<lparr>w_ticks := Suc (w_ticks w)\<rparr>))"

definition sleep :: "real \<Rightarrow> (('v, 'c, 'b) run_world, unit) py" where
  "sleep delay = py_modify (\<lambda>w. w\<lparr>w_slept := w_slept w @ [delay]\<rparr>)"

definition modify_statistics ::
    "(pipeline_statistics \<Rightarrow> pipeline_statistics) \<Rightarrow> (('v, 'c, 'b) run_world, unit) py" where
  "modify_statistics f = on_context (py_modify (\<lambda>c. c\<lparr>cx_statistics := f (cx_statistics c)\<rparr>))"

definition result_add :: "'v stage_result \<Rightarrow> (('v, 'c, 'b) run_world, unit) py" where
  "result_add r = py_modify (\<lambda>w. w\<lparr>w_result := add_result r (w_result w)\<rparr>)"

definition stage_payload :: "'v stage \<Rightarrow> payload" where
  "stage_payload s = [(''stage'', P_str (stage_value (st_id s)))]"

section \<open>One stage with its retries\<close>

definition reported_error :: "'v stage_result \<Rightarrow> string" where
  "reported_error r =
     (let joined = str_join ''; '' (sr_errors r)
      in if joined = [] then ''stage reported failure'' else joined)"

text \<open>
  The \<open>try\<close> block: \<open>Inl\<close> is the result the block returns from the function, \<open>Inr\<close> the error text
  with which it falls out of the block. The completion event is emitted inside the \<open>try\<close>.
\<close>

definition stage_attempt ::
    "('v, 'c, 'b) executor \<Rightarrow> 'v stage \<Rightarrow> int \<Rightarrow> real
     \<Rightarrow> (('v, 'c, 'b) run_world, 'v stage_result + string) py" where
  "stage_attempt ex s attempt started =
     py_try
       (py_bind (on_context (st_execute s)) (\<lambda>r.
        py_bind (perf_counter ex) (\<lambda>stopped.
        py_bind (now ex) (\<lambda>t.
        py_bind (modify_statistics (update_metrics (st_id s)
          (\<lambda>m. m\<lparr>sm_end_time := Some t, sm_cpu_time_seconds := stopped - started\<rparr>))) (\<lambda>_.
        let r' = r\<lparr>sr_attempts := attempt, sr_execution_time_seconds := stopped - started\<rparr>
        in if sr_success r'
           then py_bind (emit ex ''pipeline.stage_completed'' (stage_payload s)) (\<lambda>_. py_return (Inl r'))
           else py_return (Inr (reported_error r')))))))
       (\<lambda>exc. py_bind (now ex) (\<lambda>t.
         py_bind (modify_statistics (update_metrics (st_id s) (\<lambda>m. m\<lparr>sm_end_time := Some t\<rparr>))) (\<lambda>_.
         py_return (Inr (exn_str exc)))))"

text \<open>The \<open>while True\<close> loop, with \<open>attempt\<close> after its increment.\<close>

function run_attempts ::
    "('v, 'c, 'b) executor \<Rightarrow> 'v stage \<Rightarrow> int \<Rightarrow> (('v, 'c, 'b) run_world, 'v stage_result) py" where
  "run_attempts ex s attempt =
     py_bind (emit ex ''pipeline.stage_started'' (stage_payload s @ [(''attempt'', P_int attempt)])) (\<lambda>_.
     py_bind (now ex) (\<lambda>t.
     py_bind (modify_statistics (update_metrics (st_id s) (\<lambda>m. m\<lparr>sm_start_time := Some t\<rparr>))) (\<lambda>_.
     py_bind (perf_counter ex) (\<lambda>started.
     py_bind (stage_attempt ex s attempt started) (\<lambda>outcome.
     case outcome of
       Inl r \<Rightarrow> py_return r
     | Inr last_error \<Rightarrow>
         py_bind (modify_statistics (update_metrics (st_id s) (\<lambda>m. m\<lparr>sm_failures := sm_failures m + 1\<rparr>))) (\<lambda>_.
         py_bind (emit ex ''pipeline.stage_failed'' (stage_payload s
           @ [(''attempt'', P_int attempt), (''error'', P_str last_error)])) (\<lambda>_.
         if \<not> should_retry (st_retry_policy s) attempt
         then py_return ((stage_result_failed (st_id s) last_error)\<lparr>sr_attempts := attempt\<rparr>)
         else
           py_bind (modify_statistics (update_metrics (st_id s) (\<lambda>m. m\<lparr>sm_retries := sm_retries m + 1\<rparr>))) (\<lambda>_.
           py_bind (py_when (0 < delay_for (st_retry_policy s) (attempt + 1))
             (sleep (delay_for (st_retry_policy s) (attempt + 1)))) (\<lambda>_.
           run_attempts ex s (attempt + 1))))))))))"
  by pat_completeness auto

termination run_attempts
  by (relation "measure (\<lambda>(ex, s, attempt). nat (rp_max_attempts (st_retry_policy s) - attempt))")
    (auto simp: should_retry_def split: if_splits)

declare run_attempts.simps [simp del]

definition run_stage :: "('v, 'c, 'b) executor \<Rightarrow> 'v stage \<Rightarrow> (('v, 'c, 'b) run_world, 'v stage_result) py" where
  "run_stage ex s =
     py_bind (modify_statistics (\<lambda>ps. snd (metrics_for (st_id s) ps))) (\<lambda>_. run_attempts ex s 1)"

section \<open>A whole run\<close>

definition rollback_stage :: "'v stage \<Rightarrow> (('v, 'c, 'b) run_world, unit) py" where
  "rollback_stage s = py_try (on_context (st_rollback s)) (\<lambda>_. py_return ())"

definition raise_if_cancelled :: "(('v, 'c, 'b) run_world, unit) py" where
  "raise_if_cancelled =
     py_bind (py_read (\<lambda>w. cx_cancellation_token (w_context w))) (\<lambda>tok.
     if ct_cancelled tok
     then py_raise PipelineCancelledError
       (case ct_reason tok of None \<Rightarrow> ''pipeline cancelled''
        | Some reason \<Rightarrow> if reason = [] then ''pipeline cancelled'' else reason)
     else py_return ())"

definition initial_checkpoint ::
    "('v, 'c, 'b) executor \<Rightarrow> bool \<Rightarrow> (('v, 'c, 'b) run_world, 'v checkpoint) py" where
  "initial_checkpoint ex resume =
     py_bind (py_read w_context) (\<lambda>cx.
     py_bind (if resume then on_store (ex_restore ex (cx_pipeline_id cx)) else py_return None) (\<lambda>existing.
     case existing of
       Some cp \<Rightarrow> py_bind (on_context (py_modify (\<lambda>c. c\<lparr>cx_shared := dict_update (cx_shared c) (cp_shared cp)\<rparr>)))
         (\<lambda>_. py_return cp)
     | None \<Rightarrow> py_return \<lparr>cp_pipeline_id = cx_pipeline_id cx, cp_document_id = cx_document_id cx,
         cp_completed_stages = [], cp_last_stage = None, cp_shared = []\<rparr>))"

text \<open>
  The body of the loop over the stages: \<open>Some cp\<close> goes on with the next stage (at \<open>continue\<close> or
  at the end of the body) and the current checkpoint, \<open>None\<close> is the early \<open>return result\<close>.
\<close>

definition stage_iteration ::
    "('v, 'c, 'b) executor \<Rightarrow> stage_id set \<Rightarrow> 'v checkpoint \<Rightarrow> 'v stage
     \<Rightarrow> (('v, 'c, 'b) run_world, 'v checkpoint option) py" where
  "stage_iteration ex completed cp s =
     (if st_id s \<in> completed then
        py_bind (result_add (stage_result_skipped (st_id s) ''already completed'')) (\<lambda>_. py_return (Some cp))
      else
        py_bind raise_if_cancelled (\<lambda>_.
        py_bind (on_context (st_validate s)) (\<lambda>valid.
        if \<not> valid then
          py_bind (modify_statistics (mark_skipped (st_id s))) (\<lambda>_.
          py_bind (result_add (stage_result_skipped (st_id s) ''validate() returned False'')) (\<lambda>_.
          py_return (Some cp)))
        else
          py_bind (run_stage ex s) (\<lambda>r.
          py_bind (result_add r) (\<lambda>_.
          if \<not> sr_success r then
            py_bind (rollback_stage s) (\<lambda>_.
            py_bind (py_read (\<lambda>w. cx_pipeline_id (w_context w))) (\<lambda>pid.
            py_bind (emit ex ''pipeline.failed'' ((''pipeline_id'', P_str pid) # stage_payload s)) (\<lambda>_.
            py_return None)))
          else
            py_bind (py_read (\<lambda>w. with_stage cp (st_id s) (cx_shared (w_context w)))) (\<lambda>cp'.
            py_bind (on_store (ex_save ex cp')) (\<lambda>_.
            py_bind (emit ex ''pipeline.checkpoint_created'' (stage_payload s)) (\<lambda>_.
            py_return (Some cp')))))))))"

fun run_stages ::
    "('v, 'c, 'b) executor \<Rightarrow> stage_id set \<Rightarrow> 'v checkpoint \<Rightarrow> 'v stage list
     \<Rightarrow> (('v, 'c, 'b) run_world, bool) py" where
  "run_stages ex completed cp [] = py_return True"
| "run_stages ex completed cp (s # ss) =
     py_bind (stage_iteration ex completed cp s) (\<lambda>next.
     case next of None \<Rightarrow> py_return False | Some cp' \<Rightarrow> run_stages ex completed cp' ss)"

definition emit_pipeline :: "('v, 'c, 'b) executor \<Rightarrow> string \<Rightarrow> (('v, 'c, 'b) run_world, unit) py" where
  "emit_pipeline ex name =
     py_bind (py_read (\<lambda>w. cx_pipeline_id (w_context w))) (\<lambda>pid.
     emit ex name [(''pipeline_id'', P_str pid)])"

definition finish_statistics :: "('v, 'c, 'b) executor \<Rightarrow> (('v, 'c, 'b) run_world, unit) py" where
  "finish_statistics ex = py_bind (now ex) (\<lambda>t. modify_statistics (statistics_finish t))"

definition execute ::
    "('v, 'c, 'b) executor \<Rightarrow> 'v pipeline \<Rightarrow> bool \<Rightarrow> (('v, 'c, 'b) run_world, 'v pipeline_result) py" where
  "execute ex p resume =
     py_bind (py_lift (pipeline_validate p)) (\<lambda>_.
     py_bind (py_modify (\<lambda>w. w\<lparr>w_result := \<lparr>pr_pipeline_id = cx_pipeline_id (w_context w),
       pr_document_id = cx_document_id (w_context w), pr_stage_results = [], pr_completed = False\<rparr>\<rparr>)) (\<lambda>_.
     py_bind (py_bind (now ex) (\<lambda>t. modify_statistics (statistics_start t))) (\<lambda>_.
     py_bind (initial_checkpoint ex resume) (\<lambda>cp.
     py_bind (emit_pipeline ex ''pipeline.started'') (\<lambda>_.
     py_bind (py_finally
       (py_except PipelineCancelledError
         (run_stages ex (set (cp_completed_stages cp)) cp (pipeline_stages p))
         (\<lambda>_. py_bind (emit_pipeline ex ''pipeline.cancelled'') (\<lambda>_. py_return False)))
       (finish_statistics ex)) (\<lambda>finished.
     if \<not> finished then py_read w_result
     else
       py_bind (py_modify (\<lambda>w. w\<lparr>w_result := (w_result w)\<lparr>pr_completed := True\<rparr>\<rparr>)) (\<lambda>_.
       py_bind (emit_pipeline ex ''pipeline.completed'') (\<lambda>_. py_read w_result))))))))"

section \<open>The manager\<close>

definition manager_run ::
    "('v, 'c, 'b) executor \<Rightarrow> 'v pipeline \<Rightarrow> (('v, 'c, 'b) run_world, 'v pipeline_result) py" where
  "manager_run ex p = execute ex p False"

definition manager_resume ::
    "('v, 'c, 'b) executor \<Rightarrow> 'v pipeline \<Rightarrow> (('v, 'c, 'b) run_world, 'v pipeline_result) py" where
  "manager_resume ex p = execute ex p True"

definition manager_cancel :: "string option \<Rightarrow> 'v pipeline_context \<Rightarrow> 'v pipeline_context" where
  "manager_cancel reason cx =
     cx\<lparr>cx_cancellation_token := cancel_token reason (cx_cancellation_token cx)\<rparr>"

text \<open>The executor over the in-memory store, whose operations never raise.\<close>

definition memory_executor ::
    "(string \<Rightarrow> payload \<Rightarrow> ('b, unit) py) \<Rightarrow> (nat \<Rightarrow> int) \<Rightarrow> (nat \<Rightarrow> real)
     \<Rightarrow> ('v, 'v memory_store, 'b) executor" where
  "memory_executor em clock perf =
     \<lparr>ex_save = (\<lambda>cp. py_modify (memory_save cp)), ex_restore = (\<lambda>pid. py_read (memory_restore pid)),
      ex_emit = em, ex_now = clock, ex_perf = perf\<rparr>"

section \<open>What the parts of a run leave alone\<close>

lemma on_context_app [simp]:
  "on_context m w = (fst (m (w_context w)), w\<lparr>w_context := snd (m (w_context w))\<rparr>)"
  by (simp add: on_context_def)

lemma on_store_app [simp]: "on_store m w = (fst (m (w_store w)), w\<lparr>w_store := snd (m (w_store w))\<rparr>)"
  by (simp add: on_store_def)

lemma emit_app: "emit ex name p w = (fst (ex_emit ex name p (w_sink w)), w\<lparr>w_sink := snd (ex_emit ex name p (w_sink w))\<rparr>)"
  by (simp add: emit_def)

lemma now_app [simp]: "now ex w = (Inr (ex_now ex (w_ticks w)), w\<lparr>w_ticks := Suc (w_ticks w)\<rparr>)"
  by (simp add: now_def)

lemma perf_counter_app [simp]: "perf_counter ex w = (Inr (ex_perf ex (w_ticks w)), w\<lparr>w_ticks := Suc (w_ticks w)\<rparr>)"
  by (simp add: perf_counter_def)

lemma sleep_app [simp]: "sleep d w = (Inr (), w\<lparr>w_slept := w_slept w @ [d]\<rparr>)"
  by (simp add: sleep_def)

lemma modify_statistics_app [simp]:
  "modify_statistics f w =
    (Inr (), w\<lparr>w_context := (w_context w)\<lparr>cx_statistics := f (cx_statistics (w_context w))\<rparr>\<rparr>)"
  by (simp add: modify_statistics_def)

lemma result_add_app [simp]: "result_add r w = (Inr (), w\<lparr>w_result := add_result r (w_result w)\<rparr>)"
  by (simp add: result_add_def)

text \<open>Only \<open>result_add\<close> and \<open>execute\<close> touch the result; only \<open>save\<close> and \<open>restore\<close> touch the store.\<close>

lemma keeps_result [keeps_intros]:
  "py_keeps w_result (on_context m)" "py_keeps w_result (on_store ms)" "py_keeps w_result (emit ex n p)"
  "py_keeps w_result (now ex)" "py_keeps w_result (perf_counter ex)" "py_keeps w_result (sleep d)"
  "py_keeps w_result (modify_statistics f)" "py_keeps w_result raise_if_cancelled"
  by (simp_all add: py_keeps_def emit_app raise_if_cancelled_def py_bind_split split: sum.splits)

lemma keeps_store [keeps_intros]:
  "py_keeps w_store (on_context m)" "py_keeps w_store (emit ex n p)"
  "py_keeps w_store (now ex)" "py_keeps w_store (perf_counter ex)" "py_keeps w_store (sleep d)"
  "py_keeps w_store (modify_statistics f)" "py_keeps w_store raise_if_cancelled" "py_keeps w_store (result_add r)"
  by (simp_all add: py_keeps_def emit_app raise_if_cancelled_def py_bind_split split: sum.splits)

lemma keeps_run_attempts:
  assumes "py_keeps f (on_context (st_execute s))" "\<And>n p. py_keeps f (emit ex n p)" "py_keeps f (now ex)"
    "py_keeps f (perf_counter ex)" "\<And>d. py_keeps f (sleep d)" "\<And>g. py_keeps f (modify_statistics g)"
  shows "py_keeps f (run_attempts ex s attempt)"
proof (induction "nat (rp_max_attempts (st_retry_policy s) - attempt)" arbitrary: attempt rule: less_induct)
  case less
  have "py_keeps f (run_attempts ex s (attempt + 1))" if "should_retry (st_retry_policy s) attempt"
    by (rule less) (use that in \<open>simp add: should_retry_def split: if_splits\<close>)
  moreover have "py_keeps f (stage_attempt ex s attempt started)" for started
    unfolding stage_attempt_def Let_def by (intro keeps_intros assms)
  ultimately show ?case
    unfolding run_attempts.simps [of ex s attempt]
    by (intro keeps_intros assms) (auto intro!: keeps_intros assms split: sum.split)
qed

lemma keeps_run_stage [keeps_intros]:
  "py_keeps w_result (run_stage ex s)" "py_keeps w_store (run_stage ex s)"
  unfolding run_stage_def by (intro keeps_intros keeps_run_attempts)+

lemma keeps_rollback [keeps_intros]: "py_keeps w_result (rollback_stage s)" "py_keeps w_store (rollback_stage s)"
  unfolding rollback_stage_def by (intro keeps_intros)+

section \<open>Attempts, failures and delays of a stage\<close>

text \<open>An event callback that never raises (\<open>EventBus.publish\<close> when no filter raises, or no bus at all).\<close>

definition emit_quiet :: "('v, 'c, 'b) executor \<Rightarrow> bool" where
  "emit_quiet ex = (\<forall>n p b. fst (ex_emit ex n p b) = Inr ())"

lemma emit_quiet_app: "emit_quiet ex \<Longrightarrow> emit ex n p w = (Inr (), w\<lparr>w_sink := snd (ex_emit ex n p (w_sink w))\<rparr>)"
  by (simp add: emit_app emit_quiet_def)

definition last_attempt :: "retry_policy \<Rightarrow> int" where
  "last_attempt p = (if rp_strategy p = NEVER then 1 else max 1 (rp_max_attempts p))"

text \<open>The delays slept before attempts \<open>a + 1, \<dots>, b\<close>.\<close>

definition backoffs :: "retry_policy \<Rightarrow> int \<Rightarrow> int \<Rightarrow> real list" where
  "backoffs p a b = filter (\<lambda>d. 0 < d) (map (delay_for p) [a + 1..b])"

definition stage_keeps_statistics :: "'v stage \<Rightarrow> bool" where
  "stage_keeps_statistics s = (\<forall>c. cx_statistics (snd (st_execute s c)) = cx_statistics c)"

abbreviation stage_metric :: "'v stage \<Rightarrow> ('v, 'c, 'b) run_world \<Rightarrow> stage_metrics" where
  "stage_metric s w \<equiv> fst (metrics_for (st_id s) (cx_statistics (w_context w)))"

definition stage_counts :: "'v stage \<Rightarrow> ('v, 'c, 'b) run_world \<Rightarrow> int \<times> int" where
  "stage_counts s w = (sm_failures (stage_metric s w), sm_retries (stage_metric s w))"

lemma stage_attempt_quiet:
  assumes "emit_quiet ex"
  shows "\<exists>out w1. stage_attempt ex s attempt started w = (Inr out, w1) \<and>
    (\<forall>r. out = Inl r \<longrightarrow> sr_success r \<and> sr_attempts r = attempt) \<and> w_slept w1 = w_slept w \<and>
    (stage_keeps_statistics s \<longrightarrow> stage_counts s w1 = stage_counts s w)"
  by (auto simp: stage_attempt_def py_try_split py_bind_split Let_def emit_quiet_app [OF assms]
      stage_counts_def stage_keeps_statistics_def split: sum.splits)

end
