(* ===== verification/Pipeline_Run.thy ===== *)
theory Pipeline_Run
  imports Pipeline_Executor
begin

text \<open>
  What a run of the pipeline executor guarantees: the attempts, delays and events of a stage,
  the shape of the result, checkpoints and resuming, cancellation, and the statistics.
\<close>

section \<open>A stage with its retries\<close>

lemma run_attempts_step:
  assumes q: "emit_quiet ex"
  shows "(\<exists>r w1. run_attempts ex s a w = (Inr r, w1) \<and> sr_success r \<and> sr_attempts r = a \<and>
      w_slept w1 = w_slept w \<and> (stage_keeps_statistics s \<longrightarrow> stage_counts s w1 = stage_counts s w)) \<or>
    (\<exists>e w1. w_slept w1 = w_slept w @ (if should_retry (st_retry_policy s) a then backoffs (st_retry_policy s) a (a + 1) else []) \<and>
      (stage_keeps_statistics s \<longrightarrow> stage_counts s w1 =
        (fst (stage_counts s w) + 1, snd (stage_counts s w) + (if should_retry (st_retry_policy s) a then 1 else 0))) \<and>
      run_attempts ex s a w =
        (if should_retry (st_retry_policy s) a then run_attempts ex s (a + 1) w1
         else (Inr ((stage_result_failed (st_id s) e)\<lparr>sr_attempts := a\<rparr>), w1)))"
proof -
  let ?w0 = "snd (modify_statistics (update_metrics (st_id s) (\<lambda>m. m\<lparr>sm_start_time := Some (ex_now ex (w_ticks w))\<rparr>))
    (w\<lparr>w_sink := snd (ex_emit ex ''pipeline.stage_started'' (stage_payload s @ [(''attempt'', P_int a)]) (w_sink w)),
       w_ticks := Suc (w_ticks w)\<rparr>))"
  let ?started = "ex_perf ex (Suc (w_ticks w))"
  have w0: "w_slept ?w0 = w_slept w" "stage_counts s (?w0\<lparr>w_ticks := Suc (Suc (w_ticks w))\<rparr>) = stage_counts s w"
    by (simp_all add: stage_counts_def)
  obtain out w1 where att: "stage_attempt ex s a ?started (?w0\<lparr>w_ticks := Suc (Suc (w_ticks w))\<rparr>) = (Inr out, w1)"
    "\<forall>r. out = Inl r \<longrightarrow> sr_success r \<and> sr_attempts r = a" "w_slept w1 = w_slept w"
    "stage_keeps_statistics s \<longrightarrow> stage_counts s w1 = stage_counts s w"
    using stage_attempt_quiet [OF q, of s a ?started "?w0\<lparr>w_ticks := Suc (Suc (w_ticks w))\<rparr>"] w0 by auto
  show ?thesis
  proof (cases out)
    case (Inl r)
    with att show ?thesis
      by (intro disjI1) (simp add: run_attempts.simps [of ex s a] py_bind_split emit_quiet_app [OF q])
  next
    case (Inr e)
    let ?wf = "snd (emit ex ''pipeline.stage_failed'' (stage_payload s @ [(''attempt'', P_int a), (''error'', P_str e)])
      (snd (modify_statistics (update_metrics (st_id s) (\<lambda>m. m\<lparr>sm_failures := sm_failures m + 1\<rparr>)) w1)))"
    let ?wr = "snd (py_when (0 < delay_for (st_retry_policy s) (a + 1)) (sleep (delay_for (st_retry_policy s) (a + 1)))
      (snd (modify_statistics (update_metrics (st_id s) (\<lambda>m. m\<lparr>sm_retries := sm_retries m + 1\<rparr>)) ?wf)))"
    show ?thesis
    proof (intro disjI2 exI [of _ e] exI [of _ "if should_retry (st_retry_policy s) a then ?wr else ?wf"] conjI)
      show "run_attempts ex s a w =
          (if should_retry (st_retry_policy s) a
           then run_attempts ex s (a + 1) (if should_retry (st_retry_policy s) a then ?wr else ?wf)
           else (Inr ((stage_result_failed (st_id s) e)\<lparr>sr_attempts := a\<rparr>),
             if should_retry (st_retry_policy s) a then ?wr else ?wf))"
        using att Inr by (auto simp: run_attempts.simps [of ex s a] py_bind_split emit_quiet_app [OF q] py_when_def)
    qed (use att Inr in \<open>auto simp: emit_quiet_app [OF q] py_when_def backoffs_def stage_counts_def\<close>)
  qed
qed

lemma backoffs_empty [simp]: "b \<le> a \<Longrightarrow> backoffs p a b = []"
  by (simp add: backoffs_def)

lemma backoffs_append: "a \<le> b \<Longrightarrow> b \<le> c \<Longrightarrow> backoffs p a b @ backoffs p b c = backoffs p a c"
proof -
  assume "a \<le> b" "b \<le> c"
  then have "[a + 1..c] = [a + 1..b] @ [b + 1..c]"
    by (cases "a = b") (simp_all add: upto_split2 [symmetric] upto_split2)
  then show ?thesis by (simp add: backoffs_def)
qed

lemma run_attempts_quiet:
  assumes q: "emit_quiet ex" and "1 \<le> a"
  shows "\<exists>r w'. run_attempts ex s a w = (Inr r, w') \<and> a \<le> sr_attempts r \<and>
    sr_attempts r \<le> max a (last_attempt (st_retry_policy s)) \<and>
    (\<not> sr_success r \<longrightarrow> sr_attempts r = max a (last_attempt (st_retry_policy s)) \<and> sr_stage_id r = st_id s \<and> sr_errors r \<noteq> []) \<and>
    w_slept w' = w_slept w @ backoffs (st_retry_policy s) a (sr_attempts r) \<and>
    (stage_keeps_statistics s \<longrightarrow> stage_counts s w' =
      (fst (stage_counts s w) + (sr_attempts r - a) + (if sr_success r then 0 else 1),
       snd (stage_counts s w) + (sr_attempts r - a)))"
  using assms(2)
proof (induction "nat (rp_max_attempts (st_retry_policy s) - a)" arbitrary: a w rule: less_induct)
  case less
  have "1 \<le> a" by (rule less.prems)
  let ?p = "st_retry_policy s"
  show ?case
    using run_attempts_step [OF q, of s a w]
  proof (elim disjE exE conjE)
    fix r w1
    assume "run_attempts ex s a w = (Inr r, w1)" "sr_success r" "sr_attempts r = a" "w_slept w1 = w_slept w"
      "stage_keeps_statistics s \<longrightarrow> stage_counts s w1 = stage_counts s w"
    then show ?thesis by auto
  next
    fix e w1
    assume w1: "w_slept w1 = w_slept w @ (if should_retry ?p a then backoffs ?p a (a + 1) else [])"
      "stage_keeps_statistics s \<longrightarrow> stage_counts s w1 =
        (fst (stage_counts s w) + 1, snd (stage_counts s w) + (if should_retry ?p a then 1 else 0))"
      and run: "run_attempts ex s a w = (if should_retry ?p a then run_attempts ex s (a + 1) w1
         else (Inr ((stage_result_failed (st_id s) e)\<lparr>sr_attempts := a\<rparr>), w1))"
    show ?thesis
    proof (cases "should_retry ?p a")
      case False
      then have "max a (last_attempt ?p) = max a 1"
        by (auto simp: should_retry_def last_attempt_def split: if_splits)
      with False run w1 \<open>1 \<le> a\<close> show ?thesis
        by (auto simp: stage_result_failed_def stage_result_ok_def)
    next
      case True
      then have less': "nat (rp_max_attempts ?p - (a + 1)) < nat (rp_max_attempts ?p - a)"
        and last: "max (a + 1) (last_attempt ?p) = last_attempt ?p" "max a (last_attempt ?p) = last_attempt ?p"
        using \<open>1 \<le> a\<close> by (auto simp: should_retry_def last_attempt_def split: if_splits)
      obtain r w' where r: "run_attempts ex s (a + 1) w1 = (Inr r, w')" "a + 1 \<le> sr_attempts r"
        "sr_attempts r \<le> last_attempt ?p"
        "\<not> sr_success r \<longrightarrow> sr_attempts r = last_attempt ?p \<and> sr_stage_id r = st_id s \<and> sr_errors r \<noteq> []"
        "w_slept w' = w_slept w1 @ backoffs ?p (a + 1) (sr_attempts r)"
        "stage_keeps_statistics s \<longrightarrow> stage_counts s w' =
          (fst (stage_counts s w1) + (sr_attempts r - (a + 1)) + (if sr_success r then 0 else 1),
           snd (stage_counts s w1) + (sr_attempts r - (a + 1)))"
        using less.hyps [OF less', of w1] \<open>1 \<le> a\<close> unfolding last by auto
      have "w_slept w' = w_slept w @ backoffs ?p a (sr_attempts r)"
        using r(2,5) w1(1) True backoffs_append [of a "a + 1" "sr_attempts r" ?p] by simp
      with r w1(2) run True show ?thesis unfolding last by auto
    qed
  qed
qed

section \<open>The results of a run\<close>

definition reports_own_id :: "'v stage \<Rightarrow> bool" where
  "reports_own_id s = (\<forall>c r c'. st_execute s c = (Inr r, c') \<longrightarrow> sr_stage_id r = st_id s)"

lemma stage_attempt_id:
  assumes "reports_own_id s"
  shows "py_ensures (\<lambda>out. \<forall>r. out = Inl r \<longrightarrow> sr_stage_id r = st_id s) (stage_attempt ex s a t)"
proof -
  have exec: "py_ensures (\<lambda>r. sr_stage_id r = st_id s) (on_context (st_execute s))"
    unfolding py_ensures_def on_context_app
    using assms by (auto simp: reports_own_id_def) (metis prod.collapse)
  show ?thesis
    unfolding stage_attempt_def Let_def
    by (intro py_ensures_try py_ensures_bind [OF exec] py_ensures_seq)
      (auto intro!: py_ensures_seq py_ensures_return)
qed

lemma run_attempts_id:
  assumes "reports_own_id s"
  shows "py_ensures (\<lambda>r. sr_stage_id r = st_id s) (run_attempts ex s a)"
proof (induction "nat (rp_max_attempts (st_retry_policy s) - a)" arbitrary: a rule: less_induct)
  case less
  have again: "py_ensures (\<lambda>r. sr_stage_id r = st_id s) (run_attempts ex s (a + 1))" if "should_retry (st_retry_policy s) a"
    by (rule less) (use that in \<open>simp add: should_retry_def split: if_splits\<close>)
  show ?case
    unfolding run_attempts.simps [of ex s a]
    by (intro py_ensures_seq py_ensures_bind [OF stage_attempt_id [OF assms]])
      (auto intro!: py_ensures_seq py_ensures_return again
        simp: stage_result_failed_def stage_result_ok_def split: sum.split)
qed

lemma run_stage_id:
  "reports_own_id s \<Longrightarrow> run_stage ex s w = (Inr r, w') \<Longrightarrow> sr_stage_id r = st_id s"
  unfolding run_stage_def by (rule py_ensuresD [OF py_ensures_seq [OF run_attempts_id]])

definition run_shape :: "'v stage list \<Rightarrow> exn + bool \<Rightarrow> 'v stage_result list \<Rightarrow> bool" where
  "run_shape ss r rs =
     (length rs \<le> length ss \<and> list_all sr_success (butlast rs) \<and>
      (list_all reports_own_id ss \<longrightarrow> map sr_stage_id rs = map st_id (take (length rs) ss)) \<and>
      (r = Inr True \<longrightarrow> length rs = length ss \<and> list_all sr_success rs) \<and>
      (r = Inr False \<longrightarrow> rs \<noteq> [] \<and> \<not> sr_success (last rs)))"

lemma run_shape_Nil [simp]: "run_shape ss (Inl e) []" "run_shape [] (Inr True) []"
  by (simp_all add: run_shape_def)

lemma run_shape_Cons:
  assumes "run_shape ss r rs" and "sr_success x" and "reports_own_id s \<longrightarrow> sr_stage_id x = st_id s"
  shows "run_shape (s # ss) r (x # rs)"
  using assms by (cases rs) (auto simp: run_shape_def)

lemma run_shape_raised: "reports_own_id s \<longrightarrow> sr_stage_id x = st_id s \<Longrightarrow> run_shape (s # ss) (Inl e) [x]"
  by (simp add: run_shape_def)

lemma run_shape_failed:
  "reports_own_id s \<longrightarrow> sr_stage_id x = st_id s \<Longrightarrow> \<not> sr_success x \<Longrightarrow> run_shape (s # ss) (Inr False) [x]"
  by (simp add: run_shape_def)

abbreviation results :: "('v, 'c, 'b) run_world \<Rightarrow> 'v stage_result list" where
  "results w \<equiv> pr_stage_results (w_result w)"

lemma add_result_simps [simp]:
  "pr_stage_results (add_result r pr) = pr_stage_results pr @ [r]"
  "pr_completed (add_result r pr) = pr_completed pr"
  by (simp_all add: add_result_def)

lemma skipped_simps [simp]:
  "sr_success (stage_result_skipped k msg)" "sr_stage_id (stage_result_skipped k msg) = k"
  "sr_status (stage_result_skipped k msg) = STATUS_SKIPPED"
  by (simp_all add: stage_result_skipped_def stage_result_ok_def)

lemmas kept [simp] = keeps_run_stage [THEN py_keeps_snd] keeps_rollback [THEN py_keeps_snd]

lemma raise_if_cancelled_app:
  "raise_if_cancelled w =
    (if is_cancelled (w_context w)
     then (Inl (Exn PipelineCancelledError
       (case ct_reason (cx_cancellation_token (w_context w)) of None \<Rightarrow> ''pipeline cancelled''
        | Some reason \<Rightarrow> if reason = [] then ''pipeline cancelled'' else reason)), w)
     else (Inr (), w))"
  by (simp add: raise_if_cancelled_def py_bind_split is_cancelled_def)

lemma run_stage_id_fst: "fst (run_stage ex s w) = Inr r \<Longrightarrow> reports_own_id s \<Longrightarrow> sr_stage_id r = st_id s"
  by (metis run_stage_id prod.collapse)

lemma stage_iteration_results:
  assumes "stage_iteration ex completed cp s w = (q, w')"
  shows "pr_completed (w_result w') = pr_completed (w_result w) \<and>
    (results w' = results w \<and> isl q \<or>
     (\<exists>x. results w' = results w @ [x] \<and> (reports_own_id s \<longrightarrow> sr_stage_id x = st_id s) \<and>
        (q = Inr None \<longrightarrow> \<not> sr_success x) \<and> (\<forall>cp'. q = Inr (Some cp') \<longrightarrow> sr_success x)))"
    using assms unfolding stage_iteration_def
    by (auto simp: py_bind_split raise_if_cancelled_app emit_app rollback_stage_def py_try_split
        dest!: run_stage_id_fst split: if_splits sum.splits)

lemma run_stages_results:
  assumes "run_stages ex completed cp ss w = (r, w')"
  shows "pr_completed (w_result w') = pr_completed (w_result w) \<and>
    (\<exists>rs. results w' = results w @ rs \<and> run_shape ss r rs)"
  using assms
proof (induction ss arbitrary: cp w)
  case Nil
  then show ?case by auto
next
  case (Cons s ss)
  obtain q w1 where q: "stage_iteration ex completed cp s w = (q, w1)" by fastforce
  note it = stage_iteration_results [OF q]
  consider e where "q = Inl e" | "q = Inr None" | cp' where "q = Inr (Some cp')"
    by (metis old.sum.exhaust option.exhaust)
  then show ?case
  proof cases
    case 1
    with Cons.prems q have "r = Inl e" "w' = w1" by auto
    with it 1 show ?thesis by (metis append_Nil2 run_shape_Nil(1) run_shape_raised)
  next
    case 2
    with Cons.prems q have "r = Inr False" "w' = w1" by auto
    with it 2 show ?thesis by (metis isl_def run_shape_failed sum.distinct(1))
  next
    case 3
    with Cons.prems q have run: "run_stages ex completed cp' ss w1 = (r, w')" by auto
    obtain x where x: "results w1 = results w @ [x]" "sr_success x" "reports_own_id s \<longrightarrow> sr_stage_id x = st_id s"
      "pr_completed (w_result w1) = pr_completed (w_result w)"
      using it 3 by auto
    from Cons.IH [OF run] x obtain rs where "results w' = results w @ x # rs" "run_shape ss r rs"
      "pr_completed (w_result w') = pr_completed (w_result w)" by auto
    with run_shape_Cons [OF _ x(2,3)] show ?thesis by blast
  qed
qed

section \<open>Properties of a whole run\<close>

lemma emit_pipeline_app: "emit_pipeline ex n w = emit ex n [(''pipeline_id'', P_str (cx_pipeline_id (w_context w)))] w"
  by (simp add: emit_pipeline_def py_bind_split)

lemma finish_statistics_app [simp]:
  "finish_statistics ex w = (Inr (), w\<lparr>w_ticks := Suc (w_ticks w), w_context :=
     (w_context w)\<lparr>cx_statistics := statistics_finish (ex_now ex (w_ticks w)) (cx_statistics (w_context w))\<rparr>\<rparr>)"
  by (simp add: finish_statistics_def py_bind_split)

lemma keeps_initial_checkpoint [keeps_intros]: "py_keeps w_result (initial_checkpoint ex resume)"
  unfolding initial_checkpoint_def
  by (intro keeps_intros) (auto intro!: keeps_intros split: option.split)

definition empty_result :: "('v, 'c, 'b) run_world \<Rightarrow> 'v pipeline_result" where
  "empty_result w = \<lparr>pr_pipeline_id = cx_pipeline_id (w_context w),
     pr_document_id = cx_document_id (w_context w), pr_stage_results = [], pr_completed = False\<rparr>"

text \<open>The world in which the checkpoint is looked up, and the loop with its handler and \<open>finally\<close>.\<close>

definition started_world :: "('v, 'c, 'b) executor \<Rightarrow> ('v, 'c, 'b) run_world \<Rightarrow> ('v, 'c, 'b) run_world" where
  "started_world ex w = w\<lparr>w_result := empty_result w, w_ticks := Suc (w_ticks w), w_context :=
     (w_context w)\<lparr>cx_statistics := statistics_start (ex_now ex (w_ticks w)) (cx_statistics (w_context w))\<rparr>\<rparr>"

definition guarded_loop ::
    "('v, 'c, 'b) executor \<Rightarrow> 'v pipeline \<Rightarrow> 'v checkpoint \<Rightarrow> (('v, 'c, 'b) run_world, bool) py" where
  "guarded_loop ex p cp =
     py_except PipelineCancelledError
       (run_stages ex (set (cp_completed_stages cp)) cp (pipeline_stages p))
       (\<lambda>_. py_bind (emit_pipeline ex ''pipeline.cancelled'') (\<lambda>_. py_return False))"

lemma execute_unfold:
  assumes "pipeline_validate p = Inr ()"
  shows "execute ex p resume w =
    py_bind (initial_checkpoint ex resume) (\<lambda>cp.
    py_bind (emit_pipeline ex ''pipeline.started'') (\<lambda>_.
    py_bind (py_finally (guarded_loop ex p cp) (finish_statistics ex)) (\<lambda>finished.
     if \<not> finished then py_read w_result
     else
       py_bind (py_modify (\<lambda>w. w\<lparr>w_result := (w_result w)\<lparr>pr_completed := True\<rparr>\<rparr>)) (\<lambda>_.
       py_bind (emit_pipeline ex ''pipeline.completed'') (\<lambda>_. py_read w_result))))) (started_world ex w)"
  by (simp add: execute_def py_bind_split [of _ _ w] assms py_bind_split [of "py_modify _"]
      started_world_def empty_result_def guarded_loop_def py_bind_split [of "now ex"])

lemma guarded_loop_results:
  assumes "guarded_loop ex p cp w = (r, w')"
  shows "pr_completed (w_result w') = pr_completed (w_result w) \<and>
    (\<exists>rs q. results w' = results w @ rs \<and> run_shape (pipeline_stages p) q rs \<and> (q = Inr True \<longleftrightarrow> r = Inr True))"
proof -
  obtain q w1 where q: "run_stages ex (set (cp_completed_stages cp)) cp (pipeline_stages p) w = (q, w1)"
    by fastforce
  note res = run_stages_results [OF q]
  have "w_result w' = w_result w1" and "q = Inr True \<longleftrightarrow> r = Inr True"
    using assms q by (auto simp: guarded_loop_def py_except_def py_try_split py_bind_split emit_pipeline_app
        emit_app split: sum.splits if_splits)
  with res show ?thesis by auto
qed

lemma execute_results:
  assumes "execute ex p resume w = (Inr res, w')"
  shows "\<exists>q. run_shape (pipeline_stages p) q (pr_stage_results res) \<and> (pr_completed res \<longleftrightarrow> q = Inr True)"
proof -
  have valid: "pipeline_validate p = Inr ()"
    using assms by (cases "pipeline_validate p") (auto simp: execute_def py_bind_split)
  obtain cp w1 where cp: "initial_checkpoint ex resume (started_world ex w) = (Inr cp, w1)"
    using assms unfolding execute_unfold [OF valid] py_bind_eq_Inr by blast
  then have "w_result w1 = empty_result w"
    using py_keepsD [OF keeps_initial_checkpoint cp] by (simp add: started_world_def)
  let ?w2 = "snd (emit_pipeline ex ''pipeline.started'' w1)"
  obtain r w3 where loop: "guarded_loop ex p cp ?w2 = (r, w3)" by fastforce
  have "w_result ?w2 = empty_result w" using \<open>w_result w1 = _\<close> by (simp add: emit_pipeline_app emit_app)
  with guarded_loop_results [OF loop] obtain rs q where
    "results w3 = rs" "run_shape (pipeline_stages p) q rs" "q = Inr True \<longleftrightarrow> r = Inr True" "\<not> pr_completed (w_result w3)"
    by (auto simp: empty_result_def)
  moreover have "pr_stage_results res = results w3 \<and> (pr_completed res \<longleftrightarrow> r = Inr True)"
    using assms cp loop calculation unfolding execute_unfold [OF valid]
    by (auto simp: py_bind_split py_finally_split emit_pipeline_app emit_app split: sum.splits if_splits)
  ultimately show ?thesis by auto
qed

text \<open>C8: A run that returns yields the results of a prefix of the selected stages, in order; every
  result but the last is a success; the run counts as completed only if every stage was
  reached and succeeded or was skipped.\<close>

theorem execute_result_shape:
  assumes "execute ex p resume w = (Inr res, w')"
  shows "length (pr_stage_results res) \<le> length (pipeline_stages p) \<and>
    list_all sr_success (butlast (pr_stage_results res)) \<and>
    (list_all reports_own_id (pipeline_stages p) \<longrightarrow>
      map sr_stage_id (pr_stage_results res) =
        map st_id (take (length (pr_stage_results res)) (pipeline_stages p))) \<and>
    (pr_completed res \<longrightarrow> length (pr_stage_results res) = length (pipeline_stages p) \<and> succeeded res)"
  using execute_results [OF assms] by (auto simp: run_shape_def succeeded_def)

text \<open>C2: With an event callback that does not raise, running a stage always returns a result; it
  was attempted at least once and at most as often as the retry policy allows, a failure is
  reported only after the last allowed attempt and with an error, the delays slept are those of
  the policy, and the failure and retry counters grow by what happened.\<close>

theorem run_stage_attempts:
  assumes "emit_quiet ex"
  shows "\<exists>r w'. run_stage ex s w = (Inr r, w') \<and>
    1 \<le> sr_attempts r \<and> sr_attempts r \<le> last_attempt (st_retry_policy s) \<and>
    (\<not> sr_success r \<longrightarrow> sr_attempts r = last_attempt (st_retry_policy s) \<and> sr_errors r \<noteq> []) \<and>
    w_slept w' = w_slept w @ backoffs (st_retry_policy s) 1 (sr_attempts r) \<and>
    (stage_keeps_statistics s \<longrightarrow>
      sm_failures (stage_metric s w') = sm_failures (stage_metric s w) + sr_attempts r - (if sr_success r then 1 else 0) \<and>
      sm_retries (stage_metric s w') = sm_retries (stage_metric s w) + sr_attempts r - 1)"
proof -
  let ?w0 = "snd (modify_statistics (\<lambda>ps. snd (metrics_for (st_id s) ps)) w)"
  have w0: "w_slept ?w0 = w_slept w" "stage_counts s ?w0 = stage_counts s w"
    by (simp_all add: stage_counts_def)
  have last: "max 1 (last_attempt (st_retry_policy s)) = last_attempt (st_retry_policy s)"
    by (simp add: last_attempt_def)
  have run: "run_stage ex s w = run_attempts ex s 1 ?w0"
    by (simp add: run_stage_def py_bind_split)
  obtain r w' where "run_attempts ex s 1 ?w0 = (Inr r, w')" "1 \<le> sr_attempts r"
    "sr_attempts r \<le> last_attempt (st_retry_policy s)"
    "\<not> sr_success r \<longrightarrow> sr_attempts r = last_attempt (st_retry_policy s) \<and> sr_stage_id r = st_id s \<and> sr_errors r \<noteq> []"
    "w_slept w' = w_slept w @ backoffs (st_retry_policy s) 1 (sr_attempts r)"
    "stage_keeps_statistics s \<longrightarrow> stage_counts s w' =
      (fst (stage_counts s w) + (sr_attempts r - 1) + (if sr_success r then 0 else 1),
       snd (stage_counts s w) + (sr_attempts r - 1))"
    using run_attempts_quiet [OF assms, of 1 s ?w0] unfolding w0 last by auto
  then show ?thesis
    unfolding run by (intro exI [of _ r] exI [of _ w']) (auto simp: stage_counts_def)
qed

definition record_event :: "string \<Rightarrow> payload \<Rightarrow> ((string \<times> payload) list, unit) py" where
  "record_event n p = py_modify (\<lambda>l. l @ [(n, p)])"

definition attempt_events :: "bool \<Rightarrow> string list" where
  "attempt_events ok = [''pipeline.stage_started'', if ok then ''pipeline.stage_completed'' else ''pipeline.stage_failed'']"

definition stage_events :: "int \<Rightarrow> bool \<Rightarrow> string list" where
  "stage_events n ok = concat (replicate (nat (n - 1)) (attempt_events False)) @ attempt_events ok"

abbreviation event_names :: "('v, 'c, (string \<times> payload) list) run_world \<Rightarrow> string list" where
  "event_names w \<equiv> map fst (w_sink w)"

lemma emit_record: "ex_emit ex = record_event \<Longrightarrow> emit ex n p w = (Inr (), w\<lparr>w_sink := w_sink w @ [(n, p)]\<rparr>)"
  by (simp add: emit_app record_event_def)

lemma stage_attempt_events:
  assumes "ex_emit ex = record_event"
  shows "\<exists>out w'. stage_attempt ex s a t w = (Inr out, w') \<and>
    event_names w' = event_names w @ (if isl out then [''pipeline.stage_completed''] else []) \<and>
    (\<forall>r. out = Inl r \<longrightarrow> sr_success r \<and> sr_attempts r = a)"
proof -
  have "emit_quiet ex" by (simp add: emit_quiet_def assms record_event_def)
  then obtain out w' where out: "stage_attempt ex s a t w = (Inr out, w')"
    "\<forall>r. out = Inl r \<longrightarrow> sr_success r \<and> sr_attempts r = a"
    using stage_attempt_quiet [of ex s a t w] by blast
  then have "event_names w' = event_names w @ (if isl out then [''pipeline.stage_completed''] else [])"
    by (auto simp: stage_attempt_def py_try_split py_bind_split Let_def emit_record [OF assms]
        split: sum.splits if_splits)
  with out show ?thesis by blast
qed

text \<open>The events of attempts \<open>a, \<dots>, n\<close>.\<close>

lemma stage_events_first: "1 \<le> n \<Longrightarrow> attempt_events False @ stage_events n ok = stage_events (n + 1) ok"
proof -
  assume "1 \<le> n"
  then have "nat (n + 1 - 1) = Suc (nat (n - 1))" by simp
  then show ?thesis by (simp add: stage_events_def)
qed

lemma run_attempts_events:
  assumes rec: "ex_emit ex = record_event"
  shows "\<exists>r w'. run_attempts ex s a w = (Inr r, w') \<and> a \<le> sr_attempts r \<and>
    event_names w' = event_names w @ stage_events (sr_attempts r - a + 1) (sr_success r)"
proof (induction "nat (rp_max_attempts (st_retry_policy s) - a)" arbitrary: a w rule: less_induct)
  case less
  let ?p = "st_retry_policy s"
  let ?t = "ex_perf ex (Suc (w_ticks w))"
  let ?w0 = "w\<lparr>w_sink := w_sink w @ [(''pipeline.stage_started'', stage_payload s @ [(''attempt'', P_int a)])],
    w_context := (w_context w)\<lparr>cx_statistics := update_metrics (st_id s)
      (\<lambda>m. m\<lparr>sm_start_time := Some (ex_now ex (w_ticks w))\<rparr>) (cx_statistics (w_context w))\<rparr>,
    w_ticks := Suc (Suc (w_ticks w))\<rparr>"
  obtain out w1 where att: "stage_attempt ex s a ?t ?w0 = (Inr out, w1)"
    "event_names w1 = event_names w @ ''pipeline.stage_started'' # (if isl out then [''pipeline.stage_completed''] else [])"
    "\<forall>r. out = Inl r \<longrightarrow> sr_success r \<and> sr_attempts r = a"
    using stage_attempt_events [OF rec, of s a ?t ?w0] by auto
  note unfolded = run_attempts.simps [of ex s a] py_bind_split emit_record [OF rec]
  show ?case
  proof (cases out)
    case (Inl r)
    then have "run_attempts ex s a w = (Inr r, w1)"
      using att(1) by (simp add: unfolded)
    with att Inl show ?thesis by (simp add: stage_events_def attempt_events_def)
  next
    case (Inr e)
    let ?wf = "snd (emit ex ''pipeline.stage_failed'' (stage_payload s @ [(''attempt'', P_int a), (''error'', P_str e)])
      (snd (modify_statistics (update_metrics (st_id s) (\<lambda>m. m\<lparr>sm_failures := sm_failures m + 1\<rparr>)) w1)))"
    have wf: "event_names ?wf = event_names w @ attempt_events False"
      using att(2) Inr by (simp add: emit_record [OF rec] attempt_events_def)
    show ?thesis
    proof (cases "should_retry ?p a")
      case False
      then have "run_attempts ex s a w = (Inr ((stage_result_failed (st_id s) e)\<lparr>sr_attempts := a\<rparr>), ?wf)"
        using att(1) Inr by (simp add: unfolded)
      with wf show ?thesis by (simp add: stage_events_def stage_result_failed_def)
    next
      case True
      let ?wr = "snd (py_when (0 < delay_for ?p (a + 1)) (sleep (delay_for ?p (a + 1)))
        (snd (modify_statistics (update_metrics (st_id s) (\<lambda>m. m\<lparr>sm_retries := sm_retries m + 1\<rparr>)) ?wf)))"
      have run: "run_attempts ex s a w = run_attempts ex s (a + 1) ?wr"
        using att(1) Inr True by (simp add: unfolded py_when_def)
      have "nat (rp_max_attempts ?p - (a + 1)) < nat (rp_max_attempts ?p - a)"
        using True by (simp add: should_retry_def split: if_splits)
      from less [OF this, of ?wr] obtain r w' where r: "run_attempts ex s (a + 1) ?wr = (Inr r, w')" "a + 1 \<le> sr_attempts r"
        "event_names w' = event_names ?wr @ stage_events (sr_attempts r - (a + 1) + 1) (sr_success r)" by blast
      have "event_names ?wr = event_names w @ attempt_events False"
        using wf by (simp add: py_when_def)
      with r(2,3) have "event_names w' = event_names w @ stage_events (sr_attempts r - a + 1) (sr_success r)"
        using stage_events_first [of "sr_attempts r - a" "sr_success r"] by simp
      with r run show ?thesis by auto
    qed
  qed
qed

text \<open>The events of one stage: every failed attempt emits a start and a failure, the last
  attempt a start and its outcome, in that order and nothing else.\<close>

theorem run_stage_events:
  assumes "ex_emit ex = record_event"
  shows "\<exists>r w'. run_stage ex s w = (Inr r, w') \<and>
    event_names w' = event_names w @ stage_events (sr_attempts r) (sr_success r)"
  using run_attempts_events [OF assms, of s 1 "snd (modify_statistics (\<lambda>ps. snd (metrics_for (st_id s) ps)) w)"]
  by (auto simp: run_stage_def py_bind_split)

lemma finally_finish_ends:
  "ps_end_time (cx_statistics (w_context (snd (py_finally m (finish_statistics ex) w)))) \<noteq> None"
  by (simp add: py_finally_split statistics_finish_def)

text \<open>Once the graph is valid and the checkpoint could be read, every way out of a run, whether
  it returns, is cancelled, fails or raises, leaves the statistics with an end time.\<close>

theorem execute_finishes:
  assumes "pipeline_validate p = Inr ()" and "emit_quiet ex" and "\<forall>pid c. \<not> isl (fst (ex_restore ex pid c))"
  shows "ps_end_time (cx_statistics (w_context (snd (execute ex p resume w)))) \<noteq> None"
proof -
  have "\<not> isl (fst (initial_checkpoint ex resume v))" for v
    using assms(3) by (auto simp: initial_checkpoint_def py_bind_split split: sum.splits option.splits)
      (metis sum.disc(1))
  then obtain cp w1 where cp: "initial_checkpoint ex resume (started_world ex w) = (Inr cp, w1)"
    by (metis isl_def prod.collapse sum.collapse(2))
  let ?w2 = "snd (emit_pipeline ex ''pipeline.started'' w1)"
  have started: "emit_pipeline ex ''pipeline.started'' w1 = (Inr (), ?w2)"
    by (simp add: emit_pipeline_app emit_quiet_app [OF assms(2)])
  obtain r w3 where loop: "py_finally (guarded_loop ex p cp) (finish_statistics ex) ?w2 = (r, w3)" by fastforce
  then have "ps_end_time (cx_statistics (w_context w3)) \<noteq> None" by (metis finally_finish_ends snd_conv)
  moreover have "w_context (snd (execute ex p resume w)) = w_context w3"
    using cp started loop unfolding execute_unfold [OF assms(1)]
    by (auto simp: py_bind_split emit_pipeline_app emit_app split: sum.splits)
  ultimately show ?thesis by simp
qed

text \<open>A stage the checkpoint lists as completed is never run again: whatever its validation,
  execution and rollback would do, the run does exactly the same.\<close>

theorem completed_stages_not_run:
  assumes "\<forall>s. st_id (g s) = st_id s"
  shows "run_stages ex completed cp (map (\<lambda>s. if st_id s \<in> completed then g s else s) ss) =
    run_stages ex completed cp ss"
proof (induction ss arbitrary: cp)
  case Nil
  then show ?case by simp
next
  case (Cons s ss)
  have "stage_iteration ex completed cp (if st_id s \<in> completed then g s else s) = stage_iteration ex completed cp s"
    using assms by (simp add: stage_iteration_def)
  with Cons show ?case by simp
qed

lemma run_stages_all_completed:
  assumes "st_id ` set ss \<subseteq> completed"
  shows "run_stages ex completed cp ss w =
    (Inr True, w\<lparr>w_result := (w_result w)\<lparr>pr_stage_results :=
       results w @ map (\<lambda>s. stage_result_skipped (st_id s) ''already completed'') ss\<rparr>\<rparr>)"
  using assms
proof (induction ss arbitrary: w)
  case Nil
  then show ?case by simp
next
  case (Cons s ss)
  then show ?case by (simp add: py_bind_split stage_iteration_def add_result_def)
qed

text \<open>Resuming a run whose checkpoint lists all selected stages runs none of them, completes, and
  merges the checkpoint's shared values into the context.\<close>

theorem manager_resume_completed:
  assumes "pipeline_validate p = Inr ()" and "emit_quiet ex"
    and "ex_restore ex (cx_pipeline_id (w_context w)) (w_store w) = (Inr (Some cp), c)"
    and "st_id ` set (pipeline_stages p) \<subseteq> set (cp_completed_stages cp)"
  shows "\<exists>res w'. manager_resume ex p w = (Inr res, w') \<and> pr_completed res \<and>
    pr_stage_results res = map (\<lambda>s. stage_result_skipped (st_id s) ''already completed'') (pipeline_stages p) \<and>
    cx_shared (w_context w') = dict_update (cx_shared (w_context w)) (cp_shared cp) \<and> w_slept w' = w_slept w"
  using assms(3)
  by (auto simp: manager_resume_def execute_unfold [OF assms(1)] py_bind_split initial_checkpoint_def
      started_world_def emit_pipeline_app emit_quiet_app [OF assms(2)] py_finally_split guarded_loop_def
      py_except_def py_try_split run_stages_all_completed [OF assms(4)] empty_result_def)

text \<open>A run whose context was cancelled before it starts runs no stage: it returns an empty,
  uncompleted result and leaves the checkpoints alone.\<close>

theorem manager_run_cancelled:
  assumes "pipeline_validate p = Inr ()" and "emit_quiet ex" and "pipeline_stages p \<noteq> []"
    and "w_context w = manager_cancel reason cx"
  shows "\<exists>res w'. manager_run ex p w = (Inr res, w') \<and> pr_stage_results res = [] \<and> \<not> pr_completed res \<and>
    w_store w' = w_store w \<and> cx_shared (w_context w') = cx_shared cx \<and> w_slept w' = w_slept w"
proof -
  obtain s ss where ss: "pipeline_stages p = s # ss" using assms(3) by (cases "pipeline_stages p") auto
  show ?thesis
    using assms(4)
    by (auto simp: manager_run_def execute_unfold [OF assms(1)] py_bind_split initial_checkpoint_def
      started_world_def emit_pipeline_app emit_quiet_app [OF assms(2)] py_finally_split guarded_loop_def
      py_except_def py_try_split ss stage_iteration_def raise_if_cancelled_app manager_cancel_def
      is_cancelled_def cancel_token_def empty_result_def)
qed

text \<open>The delay before a retry is never negative, exponential backoff stays below the maximum
  delay and does not shrink from one attempt to the next.\<close>

theorem delay_for_bounds:
  assumes "0 \<le> rp_base_delay_seconds p" and "1 \<le> rp_multiplier p" and "0 \<le> rp_max_delay_seconds p" and "m \<le> n"
  shows "0 \<le> delay_for p m \<and> delay_for p m \<le> delay_for p n \<and>
    (rp_strategy p = EXPONENTIAL_BACKOFF \<longrightarrow> delay_for p n \<le> rp_max_delay_seconds p)"
proof -
  have "rp_multiplier p ^ nat (max (m - 1) 0) \<le> rp_multiplier p ^ nat (max (n - 1) 0)"
    using assms(2,4) by (intro power_increasing nat_mono) auto
  then have "rp_base_delay_seconds p * rp_multiplier p ^ nat (max (m - 1) 0)
      \<le> rp_base_delay_seconds p * rp_multiplier p ^ nat (max (n - 1) 0)"
    using assms(1) by (rule mult_left_mono)
  moreover have "0 \<le> rp_base_delay_seconds p * rp_multiplier p ^ nat (max (m - 1) 0)"
    using assms(1,2) by simp
  ultimately show ?thesis
    using assms by (auto simp: delay_for_def Let_def)
qed

end
