(* ===== verification/Pipeline_Checkpoints.thy ===== *)
theory Pipeline_Checkpoints
  imports Pipeline_Run
begin

text \<open>
  Checkpoints across runs. The locale states what the executor relies on in a \<open>CheckpointStore\<close>;
  inside it, the loop is shown to save exactly the stages it completes. The in-memory store of
  \<open>pipeline/pipeline_checkpoint.py\<close> is an instance, and a run that was interrupted anywhere
  resumes behind every stage that had succeeded. The last part runs a concrete pipeline.
\<close>

text \<open>
  How far the loop got: from checkpoint \<open>cp\<close> to \<open>cp'\<close>, with the results \<open>rs\<close>, when the stored
  checkpoints change from \<open>st\<close> to \<open>st'\<close>; \<open>own\<close> says that the stages report their own ids.
\<close>

definition advances ::
    "bool \<Rightarrow> 'v checkpoint \<Rightarrow> 'v checkpoint \<Rightarrow> 'v stage_result list
     \<Rightarrow> (string \<Rightarrow> 'v checkpoint option) \<Rightarrow> (string \<Rightarrow> 'v checkpoint option) \<Rightarrow> bool" where
  "advances own cp cp' rs st st' =
     (cp_pipeline_id cp' = cp_pipeline_id cp \<and>
      set (cp_completed_stages cp) \<subseteq> set (cp_completed_stages cp') \<and>
      (st' = st \<and> cp' = cp \<or> st' = st(cp_pipeline_id cp := Some cp')) \<and>
      (own \<longrightarrow> (\<forall>x \<in> set rs. sr_success x \<and> sr_status x \<noteq> STATUS_SKIPPED \<longrightarrow>
         sr_stage_id x \<in> set (cp_completed_stages cp') \<and> st' (cp_pipeline_id cp) = Some cp')))"

lemma advances_refl: "(\<forall>x \<in> set rs. \<not> sr_success x \<or> sr_status x = STATUS_SKIPPED) \<Longrightarrow> advances own cp cp rs st st"
  by (auto simp: advances_def)

lemma advances_stage:
  "own \<longrightarrow> sr_stage_id x = k \<Longrightarrow>
    advances own cp (with_stage cp k shared) [x] st (st(cp_pipeline_id cp := Some (with_stage cp k shared)))"
  by (auto simp: advances_def)

lemma advances_trans:
  "advances own cp cp1 rs st st1 \<Longrightarrow> advances own' cp1 cp2 rs' st1 st2 \<Longrightarrow>
    advances (own \<and> own') cp cp2 (rs @ rs') st st2"
  unfolding advances_def by (auto 0 3)

locale checkpoint_store =
  fixes save :: "'v checkpoint \<Rightarrow> ('c, unit) py"
    and restore :: "string \<Rightarrow> ('c, 'v checkpoint option) py"
    and reset :: "string \<Rightarrow> 'c \<Rightarrow> 'c"
    and stored :: "'c \<Rightarrow> string \<Rightarrow> 'v checkpoint option"
  assumes save_stored: "\<exists>c'. save cp c = (Inr (), c') \<and> stored c' = (stored c)(cp_pipeline_id cp := Some cp)"
    and restore_stored: "restore pid c = (Inr (stored c pid), c)"
    and reset_stored: "stored (reset pid c) = (stored c)(pid := None)"
begin

lemma save_restore: "restore (cp_pipeline_id cp) (snd (save cp c)) = (Inr (Some cp), snd (save cp c))"
  using save_stored [of cp c] by (auto simp: restore_stored)

lemma save_twice:
  "cp_pipeline_id cp' = cp_pipeline_id cp \<Longrightarrow>
    stored (snd (save cp' (snd (save cp c)))) = (stored c)(cp_pipeline_id cp := Some cp')"
  using save_stored [of cp c] save_stored [of cp' "snd (save cp c)"] by auto

lemma save_reset: "stored (reset (cp_pipeline_id cp) (snd (save cp c))) = (stored c)(cp_pipeline_id cp := None)"
  using save_stored [of cp c] by (auto simp: reset_stored)

text \<open>What one iteration saves: nothing, or the checkpoint advanced by the stage that succeeded.\<close>

lemma stage_iteration_saves:
  assumes "ex_save ex = save" and "stage_iteration ex completed cp s w = (q, w')"
  shows "(stored (w_store w') = stored (w_store w) \<and> (\<forall>cp'. q = Inr (Some cp') \<longrightarrow> cp' = cp) \<and>
      (results w' = results w \<or> (\<exists>x. results w' = results w @ [x] \<and> (\<not> sr_success x \<or> sr_status x = STATUS_SKIPPED)))) \<or>
    (\<exists>x shared. results w' = results w @ [x] \<and> sr_success x \<and> (reports_own_id s \<longrightarrow> sr_stage_id x = st_id s) \<and>
      stored (w_store w') = (stored (w_store w))(cp_pipeline_id cp := Some (with_stage cp (st_id s) shared)) \<and>
      (\<forall>cp'. q = Inr (Some cp') \<longrightarrow> cp' = with_stage cp (st_id s) shared))"
proof -
  have saved: "fst (save c t) = Inr ()" "stored (snd (save c t)) = (stored t)(cp_pipeline_id c := Some c)" for c t
    using save_stored [of c t] by auto
  show ?thesis
    using assms(2) unfolding stage_iteration_def assms(1)
    by (auto simp: py_bind_split raise_if_cancelled_app emit_app rollback_stage_def py_try_split saved
        dest!: run_stage_id_fst split: if_splits sum.splits)
qed

lemma stage_iteration_advances:
  assumes "ex_save ex = save" and "stage_iteration ex completed cp s w = (q, w')"
  shows "\<exists>rs cp'. results w' = results w @ rs \<and>
    advances (reports_own_id s) cp cp' rs (stored (w_store w)) (stored (w_store w')) \<and>
    (\<forall>cp1. q = Inr (Some cp1) \<longrightarrow> cp1 = cp')"
  using stage_iteration_saves [OF assms]
proof (elim disjE conjE exE)
  fix x shared
  assume "results w' = results w @ [x]" "reports_own_id s \<longrightarrow> sr_stage_id x = st_id s"
    "stored (w_store w') = (stored (w_store w))(cp_pipeline_id cp := Some (with_stage cp (st_id s) shared))"
    "\<forall>cp'. q = Inr (Some cp') \<longrightarrow> cp' = with_stage cp (st_id s) shared"
  then show ?thesis by (intro exI [of _ "[x]"]) (auto intro: advances_stage)
next
  assume "stored (w_store w') = stored (w_store w)" "\<forall>cp'. q = Inr (Some cp') \<longrightarrow> cp' = cp" "results w' = results w"
  then show ?thesis by (intro exI [of _ "[]"] exI [of _ cp]) (auto intro: advances_refl)
next
  fix x
  assume "stored (w_store w') = stored (w_store w)" "\<forall>cp'. q = Inr (Some cp') \<longrightarrow> cp' = cp"
    "results w' = results w @ [x]" "\<not> sr_success x"
  then show ?thesis by (intro exI [of _ "[x]"] exI [of _ cp]) (auto intro: advances_refl)
next
  fix x
  assume "stored (w_store w') = stored (w_store w)" "\<forall>cp'. q = Inr (Some cp') \<longrightarrow> cp' = cp"
    "results w' = results w @ [x]" "sr_status x = STATUS_SKIPPED"
  then show ?thesis by (intro exI [of _ "[x]"] exI [of _ cp]) (auto intro: advances_refl)
qed

lemma run_stages_advances:
  assumes "ex_save ex = save" and "run_stages ex completed cp ss w = (r, w')"
  shows "\<exists>rs cp'. results w' = results w @ rs \<and>
    advances (list_all reports_own_id ss) cp cp' rs (stored (w_store w)) (stored (w_store w'))"
  using assms(2)
proof (induction ss arbitrary: cp w)
  case Nil
  then show ?case by (intro exI [of _ "[]"] exI [of _ cp]) (auto intro: advances_refl)
next
  case (Cons s ss)
  obtain q w1 where q: "stage_iteration ex completed cp s w = (q, w1)" by fastforce
  obtain rs cp' where it: "results w1 = results w @ rs"
    "advances (reports_own_id s) cp cp' rs (stored (w_store w)) (stored (w_store w1))"
    "\<forall>cp1. q = Inr (Some cp1) \<longrightarrow> cp1 = cp'"
    using stage_iteration_advances [OF assms(1) q] by blast
  show ?case
  proof (cases "q = Inr (Some cp')")
    case False
    with it(3) have "\<not> (\<exists>cp1. q = Inr (Some cp1))" by blast
    then have "w' = w1" using Cons.prems q by (cases q) (auto split: option.splits)
    moreover have "advances (list_all reports_own_id (s # ss)) cp cp' rs (stored (w_store w)) (stored (w_store w1))"
      using it(2) by (auto simp: advances_def)
    ultimately show ?thesis using it(1) by blast
  next
    case True
    with Cons.prems q have "run_stages ex completed cp' ss w1 = (r, w')" by auto
    from Cons.IH [OF this] obtain rs' cp2 where "results w' = results w1 @ rs'"
      "advances (list_all reports_own_id ss) cp' cp2 rs' (stored (w_store w1)) (stored (w_store w'))" by blast
    with it(1) advances_trans [OF it(2) this(2)] show ?thesis by auto
  qed
qed

text \<open>
  A run, from the start or resumed, however it ends: what had succeeded when it began, if it resumes, and what
  succeeded in it is in the stored checkpoint. A store is keyed if it keeps a checkpoint under its pipeline.
\<close>

definition keyed :: "'c \<Rightarrow> bool" where
  "keyed c = (\<forall>pid cp. stored c pid = Some cp \<longrightarrow> cp_pipeline_id cp = pid)"

lemma initial_checkpoint_stored:
  assumes "ex_restore ex = restore" and "keyed (w_store w)"
  obtains cp w1 where "initial_checkpoint ex resume (started_world ex w) = (Inr cp, w1)"
    "cp_pipeline_id cp = cx_pipeline_id (w_context w)" "results w1 = []" "w_store w1 = w_store w"
    "\<And>c. resume \<Longrightarrow> stored (w_store w) (cx_pipeline_id (w_context w)) = Some c \<Longrightarrow> cp = c"
proof (cases "if resume then stored (w_store w) (cx_pipeline_id (w_context w)) else None")
  case None
  then show ?thesis
    by (intro that [of "\<lparr>cp_pipeline_id = cx_pipeline_id (w_context w), cp_document_id = cx_document_id (w_context w),
        cp_completed_stages = [], cp_last_stage = None, cp_shared = []\<rparr>" "started_world ex w"])
      (auto simp: initial_checkpoint_def py_bind_split started_world_def empty_result_def assms(1) restore_stored split: if_splits)
next
  case (Some c)
  then have c: "resume" "stored (w_store w) (cx_pipeline_id (w_context w)) = Some c" by (auto split: if_splits)
  show ?thesis
    by (rule that [of c "snd (initial_checkpoint ex resume (started_world ex w))"])
      (use c assms(2) in \<open>auto simp: keyed_def initial_checkpoint_def py_bind_split started_world_def empty_result_def assms(1) restore_stored\<close>)
qed

lemma execute_advances:
  assumes "ex_save ex = save" and "ex_restore ex = restore" and "keyed (w_store w)"
    and "pipeline_validate p = Inr ()" and "execute ex p resume w = (q, w')"
  shows "\<exists>cp cp'. cp_pipeline_id cp = cx_pipeline_id (w_context w) \<and> cp_pipeline_id cp' = cx_pipeline_id (w_context w) \<and>
    (\<forall>c. resume \<and> stored (w_store w) (cx_pipeline_id (w_context w)) = Some c \<longrightarrow> cp = c) \<and>
    advances (list_all reports_own_id (pipeline_stages p)) cp cp' (results w') (stored (w_store w)) (stored (w_store w'))"
proof -
  obtain cp w1 where cp: "initial_checkpoint ex resume (started_world ex w) = (Inr cp, w1)"
    "cp_pipeline_id cp = cx_pipeline_id (w_context w)" "results w1 = []" "w_store w1 = w_store w"
    "\<And>c. resume \<Longrightarrow> stored (w_store w) (cx_pipeline_id (w_context w)) = Some c \<Longrightarrow> cp = c"
    using initial_checkpoint_stored [OF assms(2,3)] by blast
  let ?w2 = "snd (emit_pipeline ex ''pipeline.started'' w1)"
  have w2: "results ?w2 = []" "w_store ?w2 = w_store w"
    using cp by (simp_all add: emit_pipeline_app emit_app)
  obtain r w3 where loop: "run_stages ex (set (cp_completed_stages cp)) cp (pipeline_stages p) ?w2 = (r, w3)"
    by fastforce
  have "results w' = results ?w2 \<and> w_store w' = w_store ?w2 \<or> results w' = results w3 \<and> w_store w' = w_store w3"
    using assms(5) cp(1) loop unfolding execute_unfold [OF assms(4)]
    by (auto simp: py_bind_split emit_pipeline_app emit_app py_finally_split guarded_loop_def py_except_def
        py_try_split split: sum.splits if_splits)
  then show ?thesis
  proof
    assume "results w' = results ?w2 \<and> w_store w' = w_store ?w2"
    with w2 cp(2,5) show ?thesis by (intro exI [of _ cp]) (auto intro: advances_refl)
  next
    assume w': "results w' = results w3 \<and> w_store w' = w_store w3"
    obtain rs cp' where "results w3 = rs"
      "advances (list_all reports_own_id (pipeline_stages p)) cp cp' rs (stored (w_store w)) (stored (w_store w3))"
      using run_stages_advances [OF assms(1) loop] w2 by auto
    moreover from this(2) have "cp_pipeline_id cp' = cp_pipeline_id cp" by (simp add: advances_def)
    ultimately show ?thesis using w' cp(2,5) by metis
  qed
qed

end

interpretation memory: checkpoint_store
  "\<lambda>cp. py_modify (memory_save cp)" "\<lambda>pid. py_read (memory_restore pid)" memory_reset "\<lambda>c pid. memory_restore pid c"
  by unfold_locales (auto simp: memory_save_def memory_restore_def memory_reset_def fun_eq_iff)

section \<open>Properties\<close>

lemma memory_executor_simps [simp]:
  "ex_save (memory_executor em clock perf) = (\<lambda>cp. py_modify (memory_save cp))"
  "ex_restore (memory_executor em clock perf) = (\<lambda>pid. py_read (memory_restore pid))"
  "ex_emit (memory_executor em clock perf) = em"
  by (simp_all add: memory_executor_def)

text \<open>C5: A run over the in-memory store, from the start or resumed, whether it completed, failed, was cancelled or
  raised, leaves the checkpoints of other pipelines alone, and a later resume of the same pipeline starts from a
  checkpoint that lists every stage that had succeeded in the run and, if the run itself was resumed, every stage
  of the checkpoint it started from. (The stages report results of their own identifier, and the store keeps a checkpoint
  under the identifier of its pipeline, as \<open>save\<close> does and the run preserves.)\<close>

theorem interrupted_run_resumes:
  assumes "pipeline_validate p = Inr ()" and "list_all reports_own_id (pipeline_stages p)"
    and "\<forall>pid cp. memory_restore pid (w_store w) = Some cp \<longrightarrow> cp_pipeline_id cp = pid"
    and "execute (memory_executor em clock perf) p resume w = (q, w')"
    and "w_store v = w_store w'" and "cx_pipeline_id (w_context v) = cx_pipeline_id (w_context w)"
  shows "(\<forall>pid. pid \<noteq> cx_pipeline_id (w_context w) \<longrightarrow> memory_restore pid (w_store w') = memory_restore pid (w_store w)) \<and>
    (\<forall>pid cp. memory_restore pid (w_store w') = Some cp \<longrightarrow> cp_pipeline_id cp = pid) \<and>
    (\<forall>k. (\<exists>x \<in> set (results w'). sr_success x \<and> sr_status x \<noteq> STATUS_SKIPPED \<and> sr_stage_id x = k) \<or>
        (resume \<and> (\<exists>c. memory_restore (cx_pipeline_id (w_context w)) (w_store w) = Some c \<and> k \<in> set (cp_completed_stages c))) \<longrightarrow>
      (\<exists>cp v'. initial_checkpoint (memory_executor em clock perf) True v = (Inr cp, v') \<and> k \<in> set (cp_completed_stages cp)))"
proof -
  let ?pid = "cx_pipeline_id (w_context w)" and ?before = "\<lambda>pid. memory_restore pid (w_store w)" and ?after = "\<lambda>pid. memory_restore pid (w_store w')"
  have "memory.keyed (w_store w)" using assms(3) by (simp add: memory.keyed_def)
  then obtain cp cp' where adv: "cp_pipeline_id cp = ?pid" "cp_pipeline_id cp' = ?pid" "\<forall>c. resume \<and> ?before ?pid = Some c \<longrightarrow> cp = c"
    "advances True cp cp' (results w') ?before ?after"
    using memory.execute_advances [of "memory_executor em clock perf" w p resume q w'] assms(1,2,4) by auto
  have others: "?after pid = ?before pid" if "pid \<noteq> ?pid" for pid
    using adv(1,4) that unfolding advances_def by (metis fun_upd_other)
  have keyed: "cp_pipeline_id c = pid" if "?after pid = Some c" for pid c
  proof (cases "?after = ?before")
    case True
    then show ?thesis using that assms(3) by metis
  next
    case False
    then have "?after = ?before(?pid := Some cp')" using adv(1,4) unfolding advances_def by metis
    then show ?thesis using that adv(2) assms(3) by (metis fun_upd_other fun_upd_same option.inject)
  qed
  have later: "\<exists>v'. initial_checkpoint (memory_executor em clock perf) True v = (Inr c, v')" if "?after ?pid = Some c" for c
    using that assms(5,6) by (simp add: initial_checkpoint_def py_bind_split)
  have "?after ?pid = Some cp' \<and> k \<in> set (cp_completed_stages cp')"
    if "(\<exists>x \<in> set (results w'). sr_success x \<and> sr_status x \<noteq> STATUS_SKIPPED \<and> sr_stage_id x = k) \<or>
        (resume \<and> (\<exists>c. ?before ?pid = Some c \<and> k \<in> set (cp_completed_stages c)))" for k
    using that
  proof
    assume "\<exists>x \<in> set (results w'). sr_success x \<and> sr_status x \<noteq> STATUS_SKIPPED \<and> sr_stage_id x = k"
    then show ?thesis using adv(1,4) unfolding advances_def by auto
  next
    assume "resume \<and> (\<exists>c. ?before ?pid = Some c \<and> k \<in> set (cp_completed_stages c))"
    then have "?before ?pid = Some cp" "k \<in> set (cp_completed_stages cp)" using adv(3) by auto
    moreover have "?after = ?before \<and> cp' = cp \<or> ?after = ?before(?pid := Some cp')" "set (cp_completed_stages cp) \<subseteq> set (cp_completed_stages cp')"
      using adv(1,4) unfolding advances_def by auto
    ultimately show ?thesis by (auto dest: fun_cong [where x = ?pid])
  qed
  then show ?thesis using others keyed later by blast
qed

end
