(* ===== verification/Pipeline_Samples.thy ===== *)
theory Pipeline_Samples
  imports Pipeline_Checkpoints
begin

text \<open>
  The pipeline properties on concrete runs: a stage that fails on its first attempt and
  succeeds on its second, with a fixed delay between them.
\<close>

definition flaky_execute :: "(nat pipeline_context, nat stage_result) py" where
  "flaky_execute cx =
     (if dict_has (cx_shared cx) ''pages'' then (Inr (stage_result_ok OCR), cx)
      else (Inl (Exn ValueError ''no text layer''), cx\<lparr>cx_shared := dict_set ''pages'' 3 (cx_shared cx)\<rparr>))"

definition flaky_stage :: "nat stage" where
  "flaky_stage = (base_stage OCR ''ocr'' True [])\<lparr>st_execute := flaky_execute,
     st_retry_policy := NO_RETRY\<lparr>rp_strategy := FIXED_DELAY, rp_max_attempts := 3, rp_base_delay_seconds := 5\<rparr>\<rparr>"

definition flaky_pipeline :: "nat pipeline" where
  "flaky_pipeline = new_pipeline ''p'' [(OCR, flaky_stage)] None"

definition sample_context :: "nat pipeline_context" where
  "sample_context = \<lparr>cx_pipeline_id = ''run-1'', cx_document_id = ''doc-1'', cx_statistics = new_statistics,
     cx_cancellation_token = \<lparr>ct_cancelled = False, ct_reason = None\<rparr>, cx_shared = []\<rparr>"

definition sample_world :: "nat pipeline_context \<Rightarrow> nat memory_store \<Rightarrow> (nat, nat memory_store, (string \<times> payload) list) run_world" where
  "sample_world cx store = \<lparr>w_context = cx, w_store = store, w_sink = [], w_slept = [], w_ticks = 0,
     w_result = \<lparr>pr_pipeline_id = [], pr_document_id = [], pr_stage_results = [], pr_completed = False\<rparr>\<rparr>"

definition sample_executor :: "(nat, nat memory_store, (string \<times> payload) list) executor" where
  "sample_executor = memory_executor record_event int real"

lemma sample_quiet: "emit_quiet sample_executor"
  by (simp add: emit_quiet_def sample_executor_def record_event_def)

lemma sample_records: "ex_emit sample_executor = record_event"
  by (simp add: sample_executor_def)

lemma flaky_fields [simp]:
  "st_id flaky_stage = OCR" "st_execute flaky_stage = flaky_execute" "st_validate flaky_stage = py_return True"
  "rp_strategy (st_retry_policy flaky_stage) = FIXED_DELAY" "rp_max_attempts (st_retry_policy flaky_stage) = 3"
  "rp_base_delay_seconds (st_retry_policy flaky_stage) = 5" "st_dependencies flaky_stage = []"
  by (simp_all add: flaky_stage_def base_stage_def NO_RETRY_def)

lemma flaky_stages: "pipeline_stages flaky_pipeline = [flaky_stage]"
  by (simp add: pipeline_stages_def flaky_pipeline_def new_pipeline_def PIPELINE_STAGE_ORDER_def map_filter_simps)

lemma flaky_valid: "pipeline_validate flaky_pipeline = Inr ()"
  by (simp add: pipeline_validate_def validate_dependencies_def check_missing_def missing_dependencies_def
      toposort_def flaky_pipeline_def new_pipeline_def stage_graph_def topo_init_def)

lemma flaky_reports: "reports_own_id flaky_stage"
  by (auto simp: reports_own_id_def flaky_execute_def stage_result_ok_def split: if_splits)

lemma flaky_run:
  assumes "cx_shared (w_context w) = []"
  shows "\<exists>r w'. run_stage sample_executor flaky_stage w = (Inr r, w') \<and> sr_attempts r = 2 \<and> sr_success r \<and>
    sr_status r = STATUS_COMPLETED \<and> sr_stage_id r = OCR"
  using assms
  by (simp add: run_stage_def py_bind_split emit_record [OF sample_records] run_attempts.simps stage_attempt_def
      py_try_split flaky_execute_def dict_has_def should_retry_def Let_def stage_result_ok_def delay_for_def)

theorem run_stage_attempts_witness:
  "\<exists>r w'. run_stage sample_executor flaky_stage (sample_world sample_context []) = (Inr r, w') \<and>
    sr_attempts r \<le> 3 \<and> w_slept w' = [5]"
proof -
  let ?w = "sample_world sample_context []"
  obtain r w' where r: "run_stage sample_executor flaky_stage ?w = (Inr r, w')" "sr_attempts r = 2"
    using flaky_run [of ?w] by (auto simp: sample_world_def sample_context_def)
  with run_stage_attempts [OF sample_quiet, of flaky_stage ?w] show ?thesis
    by (simp add: backoffs_def delay_for_def sample_world_def)
qed

theorem run_stage_events_witness:
  "\<exists>r w'. run_stage sample_executor flaky_stage (sample_world sample_context []) = (Inr r, w') \<and>
    event_names w' = [''pipeline.stage_started'', ''pipeline.stage_failed'', ''pipeline.stage_started'', ''pipeline.stage_completed'']"
proof -
  let ?w = "sample_world sample_context []"
  obtain r w' where r: "run_stage sample_executor flaky_stage ?w = (Inr r, w')" "sr_attempts r = 2" "sr_success r"
    using flaky_run [of ?w] by (auto simp: sample_world_def sample_context_def)
  with run_stage_events [OF sample_records, of flaky_stage ?w] show ?thesis
    by (simp add: stage_events_def attempt_events_def sample_world_def)
qed

lemma flaky_execute_run:
  "\<exists>x w'. execute sample_executor flaky_pipeline False (sample_world sample_context []) =
     (Inr \<lparr>pr_pipeline_id = ''run-1'', pr_document_id = ''doc-1'', pr_stage_results = [x], pr_completed = True\<rparr>, w') \<and>
   results w' = [x] \<and> sr_success x \<and> sr_status x = STATUS_COMPLETED"
proof -
  define W where "W = started_world sample_executor (sample_world sample_context [])"
  define cp :: "nat checkpoint" where "cp = \<lparr>cp_pipeline_id = ''run-1'', cp_document_id = ''doc-1'',
    cp_completed_stages = [], cp_last_stage = None, cp_shared = []\<rparr>"
  have W: "cx_shared (w_context W) = []" "\<not> is_cancelled (w_context W)"
    "w_result W = \<lparr>pr_pipeline_id = ''run-1'', pr_document_id = ''doc-1'', pr_stage_results = [], pr_completed = False\<rparr>"
    by (simp_all add: W_def started_world_def sample_world_def sample_context_def is_cancelled_def empty_result_def)
  have init: "initial_checkpoint sample_executor False W = (Inr cp, W)"
    by (simp add: initial_checkpoint_def py_bind_split W_def cp_def started_world_def sample_world_def sample_context_def)
  obtain W2 where W2: "emit_pipeline sample_executor ''pipeline.started'' W = (Inr (), W2)"
    "w_context W2 = w_context W" "w_result W2 = w_result W"
    by (simp add: emit_pipeline_app emit_record [OF sample_records])
  obtain r w3 where r: "run_stage sample_executor flaky_stage W2 = (Inr r, w3)" "sr_success r" "sr_status r = STATUS_COMPLETED"
    using flaky_run [of W2] W(1) W2(2) by auto
  have w3: "w_result w3 = w_result W" using py_keepsD [OF keeps_run_stage(1) r(1)] W2(3) by simp
  have save: "ex_save sample_executor = (\<lambda>cp. py_modify (memory_save cp))" by (simp add: sample_executor_def)
  have same: "W2\<lparr>w_context := w_context W2\<rparr> = W2" by simp
  have "cp_completed_stages cp = []" by (simp add: cp_def)
  then have loop: "\<exists>w4. guarded_loop sample_executor flaky_pipeline cp W2 = (Inr True, w4) \<and> w_result w4 = add_result r (w_result W)"
    using r W(2)[folded W2(2)] same w3
    by (simp add: guarded_loop_def py_except_def py_try_split flaky_stages py_bind_split stage_iteration_def
        raise_if_cancelled_app save emit_record [OF sample_records])
  then show ?thesis
    unfolding execute_unfold [OF flaky_valid] W_def [symmetric]
    using init W2(1) W(3) r(2,3)
    by (auto simp: py_bind_split py_finally_split emit_pipeline_app emit_record [OF sample_records] add_result_def)
qed

theorem execute_result_shape_witness:
  "\<exists>res w'. execute sample_executor flaky_pipeline False (sample_world sample_context []) = (Inr res, w') \<and>
    map sr_stage_id (pr_stage_results res) = [OCR] \<and> succeeded res"
proof -
  obtain x w' where run: "execute sample_executor flaky_pipeline False (sample_world sample_context []) =
     (Inr \<lparr>pr_pipeline_id = ''run-1'', pr_document_id = ''doc-1'', pr_stage_results = [x], pr_completed = True\<rparr>, w')"
    using flaky_execute_run by blast
  from execute_result_shape [OF run] run show ?thesis by (auto simp: flaky_stages flaky_reports)
qed

theorem execute_finishes_witness:
  "ps_end_time (cx_statistics (w_context (snd (execute sample_executor flaky_pipeline True (sample_world sample_context []))))) \<noteq> None"
  by (rule execute_finishes [OF flaky_valid sample_quiet]) (simp add: sample_executor_def)

definition sample_checkpoint :: "nat checkpoint" where
  "sample_checkpoint = \<lparr>cp_pipeline_id = ''run-1'', cp_document_id = ''doc-1'', cp_completed_stages = [OCR],
    cp_last_stage = Some OCR, cp_shared = [(''pages'', 3)]\<rparr>"

theorem completed_stages_not_run_witness:
  "run_stages sample_executor {OCR} sample_checkpoint [flaky_stage\<lparr>st_execute := py_raise KeyError ''x''\<rparr>] =
   run_stages sample_executor {OCR} sample_checkpoint [flaky_stage]"
  using completed_stages_not_run [of "\<lambda>s. s\<lparr>st_execute := py_raise KeyError ''x''\<rparr>" sample_executor "{OCR}" sample_checkpoint "[flaky_stage]"]
  by simp

theorem manager_resume_completed_witness:
  "\<exists>res w'. manager_resume sample_executor flaky_pipeline
      (sample_world sample_context [(''run-1'', sample_checkpoint)]) = (Inr res, w') \<and>
    pr_completed res \<and> cx_shared (w_context w') = [(''pages'', 3)]"
proof -
  let ?w = "sample_world sample_context [(''run-1'', sample_checkpoint)]"
  have "ex_restore sample_executor (cx_pipeline_id (w_context ?w)) (w_store ?w)
      = (Inr (Some sample_checkpoint), [(''run-1'', sample_checkpoint)])"
    by (simp add: sample_executor_def memory_restore_def sample_world_def sample_context_def)
  from manager_resume_completed [OF flaky_valid sample_quiet this] show ?thesis
    by (auto simp: flaky_stages sample_world_def sample_context_def sample_checkpoint_def)
qed

theorem manager_run_cancelled_witness:
  "\<exists>res w'. manager_run sample_executor flaky_pipeline
      (sample_world (manager_cancel (Some ''user'') sample_context) []) = (Inr res, w') \<and> pr_stage_results res = []"
proof -
  have "w_context (sample_world (manager_cancel (Some ''user'') sample_context) []) = manager_cancel (Some ''user'') sample_context"
    by (simp add: sample_world_def)
  moreover have "pipeline_stages flaky_pipeline \<noteq> []" by (simp add: flaky_stages)
  ultimately show ?thesis using manager_run_cancelled [OF flaky_valid sample_quiet] by blast
qed

theorem delay_for_bounds_witness:
  "delay_for \<lparr>rp_strategy = EXPONENTIAL_BACKOFF, rp_max_attempts = 5, rp_base_delay_seconds = 1,
     rp_max_delay_seconds = 60, rp_multiplier = 2\<rparr> 10 = 60 \<and>
   delay_for \<lparr>rp_strategy = EXPONENTIAL_BACKOFF, rp_max_attempts = 5, rp_base_delay_seconds = 1,
     rp_max_delay_seconds = 60, rp_multiplier = 2\<rparr> 3 \<le> 60"
proof -
  let ?p = "\<lparr>rp_strategy = EXPONENTIAL_BACKOFF, rp_max_attempts = 5, rp_base_delay_seconds = 1,
     rp_max_delay_seconds = 60, rp_multiplier = 2\<rparr>"
  have "delay_for ?p 10 = 60" by (simp add: delay_for_def)
  with delay_for_bounds [of ?p 3 10] show ?thesis by simp
qed

theorem interrupted_run_resumes_witness:
  "\<exists>q w' x cp v'. execute sample_executor flaky_pipeline False (sample_world sample_context []) = (q, w') \<and>
    results w' = [x] \<and>
    initial_checkpoint sample_executor True (sample_world sample_context (w_store w')) = (Inr cp, v') \<and>
    sr_stage_id x \<in> set (cp_completed_stages cp)"
proof -
  obtain x q w' where run: "execute sample_executor flaky_pipeline False (sample_world sample_context []) = (q, w')"
    "results w' = [x]" "sr_success x" "sr_status x = STATUS_COMPLETED"
    using flaky_execute_run by blast
  let ?v = "sample_world sample_context (w_store w')"
  have own: "list_all reports_own_id (pipeline_stages flaky_pipeline)" by (simp add: flaky_stages flaky_reports)
  have empty: "\<forall>pid cp. memory_restore pid (w_store (sample_world sample_context [])) = Some cp \<longrightarrow> cp_pipeline_id cp = pid"
    by (simp add: sample_world_def memory_restore_def)
  have v: "w_store ?v = w_store w'" "cx_pipeline_id (w_context ?v) = cx_pipeline_id (w_context (sample_world sample_context []))"
    by (simp_all add: sample_world_def)
  have "\<exists>cp v'. initial_checkpoint sample_executor True ?v = (Inr cp, v') \<and> sr_stage_id x \<in> set (cp_completed_stages cp)"
    using interrupted_run_resumes [OF flaky_valid own empty run(1) [unfolded sample_executor_def] v, folded sample_executor_def] run(2-4) by auto
  with run show ?thesis by blast
qed

end
