(* ===== verification/State_Machine.thy ===== *)
theory State_Machine
  imports Prelude
begin

text \<open>
  The contract of the objects whose status changes along a table of allowed transitions (jobs,
  tasks, import requests, artifacts): an allowed transition is made, a disallowed one raises and
  changes nothing. The lemmas speak of any sequence of transition requests.
\<close>

text \<open>A client that swallows the exceptions: every request is tried, refused or not.\<close>

fun try_moves :: "('t \<Rightarrow> ('o, unit) py) \<Rightarrow> 't list \<Rightarrow> 'o \<Rightarrow> 'o" where
  "try_moves move [] x = x"
| "try_moves move (t # ts) x = try_moves move ts (snd (move t x))"

fun path_ok :: "('t \<Rightarrow> 't \<Rightarrow> bool) \<Rightarrow> 't \<Rightarrow> 't list \<Rightarrow> bool" where
  "path_ok can s [] = True"
| "path_ok can s (t # ts) = (can s t \<and> path_ok can t ts)"

locale transition_system =
  fixes can :: "'t \<Rightarrow> 't \<Rightarrow> bool"
    and status :: "'o \<Rightarrow> 't"
    and move :: "'t \<Rightarrow> ('o, unit) py"
  assumes move_allowed: "can (status x) t \<Longrightarrow> \<exists>x'. move t x = (Inr (), x') \<and> status x' = t"
    and move_refused: "\<not> can (status x) t \<Longrightarrow> isl (fst (move t x)) \<and> snd (move t x) = x"
begin

lemma move_iff: "fst (move t x) = Inr () \<longleftrightarrow> can (status x) t"
  using move_allowed [of x t] move_refused [of x t] by (cases "can (status x) t") auto

lemma move_status: "status (snd (move t x)) = (if can (status x) t then t else status x)"
  using move_allowed [of x t] move_refused [of x t] by (cases "can (status x) t") auto

text \<open>A sequence of requests goes through exactly if it is a path of the table.\<close>

lemma moves_path: "fst (py_for ts move x) = Inr () \<longleftrightarrow> path_ok can (status x) ts"
proof (induction ts arbitrary: x)
  case Nil
  then show ?case by simp
next
  case (Cons t ts)
  show ?case
  proof (cases "can (status x) t")
    case True
    then obtain x' where "move t x = (Inr (), x')" "status x' = t" using move_allowed by blast
    with Cons [of x'] True show ?thesis by simp
  next
    case False
    with move_refused [OF this] show ?thesis by (auto simp: py_bind_split split: sum.splits)
  qed
qed

text \<open>Whatever is requested, the status stays reachable along the table.\<close>

lemma try_moves_reachable: "(status x, status (try_moves move ts x)) \<in> {(s, t). can s t}\<^sup>*"
proof (induction ts arbitrary: x)
  case Nil
  then show ?case by simp
next
  case (Cons t ts)
  have "(status x, status (snd (move t x))) \<in> {(s, t). can s t}\<^sup>*" by (auto simp: move_status)
  with Cons [of "snd (move t x)"] show ?case by (simp add: rtrancl_trans)
qed

text \<open>A status without successors is final, and the whole object is frozen in it.\<close>

lemma try_moves_final: "\<forall>t. \<not> can (status x) t \<Longrightarrow> try_moves move ts x = x"
  by (induction ts) (use move_refused in auto)

lemma try_moves_closed:
  assumes "\<forall>s t. s \<in> C \<longrightarrow> can s t \<longrightarrow> t \<in> C" and "status x \<in> C"
  shows "status (try_moves move ts x) \<in> C"
  using try_moves_reachable [of x ts]
  by (induction rule: rtrancl_induct) (use assms in auto)

end

end
