(* ===== verification/Job.thy ===== *)
theory Job
  imports State_Machine
begin

text \<open>
  \<open>scheduler/job.py\<close>: the job entity, its transition table, \<open>transition_to\<close> and \<open>retry\<close>.
  \<open>now\<close> is the reading of \<open>datetime.now(UTC)\<close>; the generated id and creation times are
  arguments of the constructor.
\<close>

section \<open>The entity\<close>

datatype job_status = JOB_PENDING | JOB_RUNNING | JOB_COMPLETED | JOB_FAILED | JOB_CANCELLED

fun job_status_value :: "job_status \<Rightarrow> string" where
  "job_status_value JOB_PENDING = ''pending''"
| "job_status_value JOB_RUNNING = ''running''"
| "job_status_value JOB_COMPLETED = ''completed''"
| "job_status_value JOB_FAILED = ''failed''"
| "job_status_value JOB_CANCELLED = ''cancelled''"

fun job_transitions :: "job_status \<Rightarrow> job_status set" where
  "job_transitions JOB_PENDING = {JOB_RUNNING, JOB_CANCELLED}"
| "job_transitions JOB_RUNNING = {JOB_COMPLETED, JOB_FAILED, JOB_CANCELLED}"
| "job_transitions JOB_COMPLETED = {}"
| "job_transitions JOB_FAILED = {JOB_PENDING}"
| "job_transitions JOB_CANCELLED = {}"

definition can_transition :: "job_status \<Rightarrow> job_status \<Rightarrow> bool" where
  "can_transition current target = (target \<in> job_transitions current)"

record job =
  job_workspace_id :: string
  job_type :: string
  job_id :: string
  job_status :: job_status
  job_payload :: "(string, string) dict"
  job_result :: string
  job_error_message :: string
  job_attempts :: int
  job_max_retries :: int
  job_priority :: int
  job_created_at :: int
  job_started_at :: "int option"
  job_completed_at :: "int option"
  job_updated_at :: int

text \<open>The constructor with its \<open>__post_init__\<close>.\<close>

definition job_post_init :: "job \<Rightarrow> exn + job" where
  "job_post_init j =
     (if job_workspace_id j = [] then Inl (Exn ValueError ''Job must belong to a workspace'') else Inr j)"

definition new_job ::
    "string \<Rightarrow> int \<Rightarrow> int \<Rightarrow> string \<Rightarrow> string \<Rightarrow> (string, string) dict \<Rightarrow> int \<Rightarrow> int \<Rightarrow> exn + job" where
  "new_job uid created updated workspace_id jtype payload priority max_retries =
     job_post_init \<lparr>job_workspace_id = workspace_id, job_type = jtype, job_id = uid, job_status = JOB_PENDING,
       job_payload = payload, job_result = [], job_error_message = [], job_attempts = 0,
       job_max_retries = max_retries, job_priority = priority, job_created_at = created,
       job_started_at = None, job_completed_at = None, job_updated_at = updated\<rparr>"

definition transition_to :: "int \<Rightarrow> job_status \<Rightarrow> (job, unit) py" where
  "transition_to now target =
     py_bind (py_read job_status) (\<lambda>status.
     if \<not> can_transition status target
     then py_raise ValueError (''Cannot transition job from '' @ job_status_value status @ '' to '' @ job_status_value target)
     else
       py_bind (py_read job_started_at) (\<lambda>started_at.
       py_bind (py_when (target = JOB_RUNNING \<and> started_at = None)
         (py_modify (\<lambda>j. j\<lparr>job_started_at := Some now, job_attempts := job_attempts j + 1\<rparr>))) (\<lambda>_.
       py_bind (py_when (target \<in> {JOB_COMPLETED, JOB_FAILED, JOB_CANCELLED})
         (py_modify (\<lambda>j. j\<lparr>job_completed_at := Some now\<rparr>))) (\<lambda>_.
       py_modify (\<lambda>j. j\<lparr>job_status := target, job_updated_at := now\<rparr>)))))"

definition job_is_terminal :: "job \<Rightarrow> bool" where
  "job_is_terminal j = (job_status j \<in> {JOB_COMPLETED, JOB_CANCELLED})"

definition job_can_retry :: "job \<Rightarrow> bool" where
  "job_can_retry j = (job_status j = JOB_FAILED \<and> job_attempts j < job_max_retries j)"

definition job_retry :: "int \<Rightarrow> (job, unit) py" where
  "job_retry now =
     py_bind (py_read job_can_retry) (\<lambda>can.
     if \<not> can
     then py_bind (py_read (\<lambda>j. ''Job cannot be retried: status='' @ job_status_value (job_status j)
       @ '', attempts='' @ int_str (job_attempts j) @ ''/'' @ int_str (job_max_retries j)))
       (py_raise ValueError)
     else py_modify (\<lambda>j. j\<lparr>job_status := JOB_PENDING, job_error_message := [], job_updated_at := now\<rparr>))"

section \<open>The transition table\<close>

lemma transition_to_cases:
  "transition_to now target j =
    (if can_transition (job_status j) target
     then (Inr (), j\<lparr>job_started_at := (if target = JOB_RUNNING \<and> job_started_at j = None then Some now else job_started_at j),
       job_attempts := (if target = JOB_RUNNING \<and> job_started_at j = None then job_attempts j + 1 else job_attempts j),
       job_completed_at := (if target \<in> {JOB_COMPLETED, JOB_FAILED, JOB_CANCELLED} then Some now else job_completed_at j),
       job_status := target, job_updated_at := now\<rparr>)
     else (Inl (Exn ValueError (''Cannot transition job from '' @ job_status_value (job_status j)
       @ '' to '' @ job_status_value target)), j))"
  by (simp add: transition_to_def py_bind_split py_when_def)

lemma job_retry_cases:
  "job_retry now j =
    (if job_can_retry j then (Inr (), j\<lparr>job_status := JOB_PENDING, job_error_message := [], job_updated_at := now\<rparr>)
     else (Inl (Exn ValueError (''Job cannot be retried: status='' @ job_status_value (job_status j)
       @ '', attempts='' @ int_str (job_attempts j) @ ''/'' @ int_str (job_max_retries j))), j))"
  by (simp add: job_retry_def py_bind_split)

interpretation job_table: transition_system can_transition job_status "transition_to now"
  by unfold_locales (simp_all add: transition_to_cases)

lemma can_transition_final: "job_is_terminal j \<Longrightarrow> \<not> can_transition (job_status j) t"
  by (auto simp: job_is_terminal_def can_transition_def)

section \<open>What a job can become\<close>

inductive job_step :: "job \<Rightarrow> job \<Rightarrow> bool" where
  transition: "job_step j (snd (transition_to now target j))"
| retry: "job_step j (snd (job_retry now j))"

text \<open>The bookkeeping of starts and ends.\<close>

definition job_times_ok :: "job \<Rightarrow> bool" where
  "job_times_ok j =
     (job_attempts j = (if job_started_at j = None then 0 else 1) \<and>
      (job_status j \<in> {JOB_RUNNING, JOB_COMPLETED, JOB_FAILED} \<longrightarrow> job_started_at j \<noteq> None) \<and>
      (job_status j \<in> {JOB_COMPLETED, JOB_FAILED, JOB_CANCELLED} \<longrightarrow> job_completed_at j \<noteq> None))"

lemma transition_to_times:
  assumes "job_times_ok j"
  shows "job_times_ok (snd (transition_to now target j))"
proof (cases "can_transition (job_status j) target")
  case True
  with assms show ?thesis
    by (cases "job_status j"; cases target)
      (simp_all add: transition_to_cases job_times_ok_def can_transition_def)
next
  case False
  with assms show ?thesis by (simp add: transition_to_cases)
qed

lemma job_retry_times: "job_times_ok j \<Longrightarrow> job_times_ok (snd (job_retry now j))"
  by (cases "job_status j"; cases "job_started_at j")
    (simp_all add: job_retry_cases job_times_ok_def job_can_retry_def)

lemma job_step_times: "job_step j j' \<Longrightarrow> job_times_ok j \<Longrightarrow> job_times_ok j'"
  by (induction rule: job_step.induct) (simp_all only: transition_to_times job_retry_times)

lemma job_steps_times: "job_step\<^sup>*\<^sup>* j j' \<Longrightarrow> job_times_ok j \<Longrightarrow> job_times_ok j'"
  by (induction rule: rtranclp_induct) (auto intro: job_step_times)

lemma new_job_times: "new_job uid created updated ws t payload prio mr = Inr j \<Longrightarrow> job_times_ok j \<and> job_status j = JOB_PENDING"
  by (auto simp: new_job_def job_post_init_def job_times_ok_def split: if_splits)

section \<open>Properties\<close>

text \<open>Whatever transitions and retries are requested of a new job, a started, completed or failed
  job has a start time and a finished one an end time, and the attempt counter is one from the
  first start on: it never counts the second and later attempts.\<close>

theorem job_bookkeeping:
  assumes "new_job uid created updated ws t payload prio mr = Inr j" and "job_step\<^sup>*\<^sup>* j j'"
  shows "job_attempts j' = (if job_started_at j' = None then 0 else 1) \<and>
    (job_status j' \<in> {JOB_RUNNING, JOB_COMPLETED, JOB_FAILED} \<longrightarrow> job_started_at j' \<noteq> None) \<and>
    (job_status j' \<in> {JOB_COMPLETED, JOB_FAILED, JOB_CANCELLED} \<longrightarrow> job_completed_at j' \<noteq> None)"
  using job_steps_times [OF assms(2)] new_job_times [OF assms(1)] by (simp add: job_times_ok_def)

text \<open>A sequence of transition requests on a job succeeds exactly if it is a path of the
  transition table, and a completed or cancelled job is not changed by any further requests.\<close>

theorem job_transitions_path:
  "(fst (py_for ts (transition_to now) j) = Inr () \<longleftrightarrow> path_ok can_transition (job_status j) ts) \<and>
   (job_is_terminal j \<longrightarrow> try_moves (transition_to now) ts j = j)"
  using job_table.moves_path [of ts now j] job_table.try_moves_final [of j now ts] can_transition_final [of j]
  by blast

text \<open>One failing attempt followed by a retry.\<close>

definition fail_and_retry :: "int \<Rightarrow> (job, unit) py" where
  "fail_and_retry now =
     py_bind (transition_to now JOB_RUNNING) (\<lambda>_.
     py_bind (transition_to now JOB_FAILED) (\<lambda>_. job_retry now))"

lemma fail_and_retry_pending:
  assumes "job_times_ok j" and "job_status j = JOB_PENDING" and "2 \<le> job_max_retries j"
  shows "\<exists>j'. fail_and_retry now j = (Inr (), j') \<and> job_times_ok j' \<and> job_status j' = JOB_PENDING \<and>
    job_max_retries j' = job_max_retries j"
proof -
  let ?j1 = "snd (transition_to now JOB_RUNNING j)"
  let ?j2 = "snd (transition_to now JOB_FAILED ?j1)"
  have ok: "job_times_ok ?j1" "job_times_ok ?j2" using assms(1) by (simp_all add: transition_to_times)
  have j1: "transition_to now JOB_RUNNING j = (Inr (), ?j1)" "job_status ?j1 = JOB_RUNNING" "job_max_retries ?j1 = job_max_retries j"
    using assms(2) by (simp_all add: transition_to_cases can_transition_def)
  have j2: "transition_to now JOB_FAILED ?j1 = (Inr (), ?j2)" "job_status ?j2 = JOB_FAILED" "job_max_retries ?j2 = job_max_retries j"
    using j1 by (simp_all add: transition_to_cases [of now JOB_FAILED] can_transition_def)
  have "job_attempts ?j2 \<le> 1" using ok(2) by (simp add: job_times_ok_def)
  then have "job_can_retry ?j2" using j2 assms(3) by (simp add: job_can_retry_def)
  then show ?thesis
    using j1(1) j2 ok(2) by (simp add: fail_and_retry_def job_retry_cases job_times_ok_def)
qed

text \<open>\<open>max_retries\<close> does not bound the retries: a job that allows two attempts can fail and be
  retried any number of times.\<close>

theorem job_retry_unbounded:
  assumes "new_job uid created updated ws t payload prio mr = Inr j" and "2 \<le> mr"
  shows "fst (py_for nows fail_and_retry j) = Inr () \<and> job_attempts (snd (py_for nows fail_and_retry j)) \<le> 1"
proof -
  have "job_max_retries j = mr" using assms(1) by (auto simp: new_job_def job_post_init_def split: if_splits)
  then have "job_times_ok j" "job_status j = JOB_PENDING" "2 \<le> job_max_retries j"
    using new_job_times [OF assms(1)] assms(2) by auto
  then have "\<exists>j'. py_for nows fail_and_retry j = (Inr (), j') \<and> job_times_ok j'"
  proof (induction nows arbitrary: j)
    case Nil
    then show ?case by simp
  next
    case (Cons n ns)
    obtain j1 where j1: "fail_and_retry n j = (Inr (), j1)" "job_times_ok j1" "job_status j1 = JOB_PENDING"
      "2 \<le> job_max_retries j1"
      using fail_and_retry_pending [OF Cons.prems, of n] Cons.prems(3) by auto
    from Cons.IH [OF this(2-4)] j1(1) show ?case by simp
  qed
  then show ?thesis by (auto simp: job_times_ok_def)
qed

section \<open>Witnesses\<close>

definition sample_job :: job where
  "sample_job = \<lparr>job_workspace_id = ''w'', job_type = ''pipeline'', job_id = ''j1'', job_status = JOB_PENDING,
     job_payload = [], job_result = [], job_error_message = [], job_attempts = 0, job_max_retries = 3,
     job_priority = 0, job_created_at = 10, job_started_at = None, job_completed_at = None, job_updated_at = 10\<rparr>"

lemma sample_job_new: "new_job ''j1'' 10 10 ''w'' ''pipeline'' [] 0 3 = Inr sample_job"
  by (simp add: new_job_def job_post_init_def sample_job_def)

theorem job_bookkeeping_witness:
  "job_attempts (snd (transition_to 11 JOB_RUNNING sample_job)) = 1 \<and>
   job_started_at (snd (transition_to 11 JOB_RUNNING sample_job)) = Some 11"
  using job_bookkeeping [OF sample_job_new r_into_rtranclp [of job_step, OF job_step.transition [of sample_job 11 JOB_RUNNING]]]
  by (simp add: transition_to_cases sample_job_def can_transition_def)

theorem job_transitions_path_witness:
  "try_moves (transition_to 12) [JOB_PENDING, JOB_RUNNING] (sample_job\<lparr>job_status := JOB_CANCELLED\<rparr>)
     = sample_job\<lparr>job_status := JOB_CANCELLED\<rparr>"
  using job_transitions_path [of "[JOB_PENDING, JOB_RUNNING]" 12 "sample_job\<lparr>job_status := JOB_CANCELLED\<rparr>"]
  by (simp add: job_is_terminal_def)

theorem job_retry_unbounded_witness:
  "fst (py_for [11, 12, 13, 14, 15] fail_and_retry sample_job) = Inr ()"
  using job_retry_unbounded [OF sample_job_new, of "[11, 12, 13, 14, 15]"] by simp

end
