(* ===== verification/Json_Strings.thy ===== *)
theory Json_Strings
  imports Prelude "HOL-Library.Char_ord"
begin

text \<open>
  The part of Python's \<open>json\<close> module the repositories use: \<open>json.dumps\<close> of a dictionary from
  strings to strings (with \<open>ensure_ascii\<close>, as by default) and \<open>json.loads\<close> of such a text.
  Characters are code points below 256. \<open>json_loads\<close> is \<open>None\<close> where Python raises, and also for
  texts whose values are not strings or contain larger code points.
\<close>

section \<open>Strings\<close>

abbreviation code :: "char \<Rightarrow> nat" where
  "code c \<equiv> of_char c"

abbreviation (input) quote :: char where
  "quote \<equiv> CHR 0x22"

abbreviation (input) backslash :: char where
  "backslash \<equiv> CHR 0x5C"

definition hex_digit :: "nat \<Rightarrow> char" where
  "hex_digit n = char_of (if n < 10 then 48 + n else 87 + n)"

definition hex_value :: "char \<Rightarrow> nat option" where
  "hex_value c =
     (if 48 \<le> code c \<and> code c \<le> 57 then Some (code c - 48)
      else if 97 \<le> code c \<and> code c \<le> 102 then Some (code c - 87)
      else if 65 \<le> code c \<and> code c \<le> 70 then Some (code c - 55) else None)"

definition json_escape :: "char \<Rightarrow> string" where
  "json_escape c =
     (if c = quote then [backslash, quote] else if c = backslash then [backslash, backslash]
      else if code c = 10 then [backslash, CHR ''n''] else if code c = 13 then [backslash, CHR ''r'']
      else if code c = 9 then [backslash, CHR ''t''] else if code c = 12 then [backslash, CHR ''f'']
      else if code c = 8 then [backslash, CHR ''b'']
      else if 32 \<le> code c \<and> code c \<le> 126 then [c]
      else [backslash, CHR ''u'', CHR ''0'', CHR ''0'', hex_digit (code c div 16), hex_digit (code c mod 16)])"

definition json_string :: "string \<Rightarrow> string" where
  "json_string s = quote # concat (map json_escape s) @ [quote]"

definition simple_escape :: "char \<Rightarrow> char option" where
  "simple_escape c =
     (if c = quote \<or> c = backslash \<or> c = CHR ''/'' then Some c
      else if c = CHR ''n'' then Some (char_of (10::nat)) else if c = CHR ''r'' then Some (char_of (13::nat))
      else if c = CHR ''t'' then Some (char_of (9::nat)) else if c = CHR ''f'' then Some (char_of (12::nat))
      else if c = CHR ''b'' then Some (char_of (8::nat)) else None)"

definition hex4 :: "char \<Rightarrow> char \<Rightarrow> char \<Rightarrow> char \<Rightarrow> char option" where
  "hex4 a b c d =
     (case (hex_value a, hex_value b, hex_value c, hex_value d) of
        (Some w, Some x, Some y, Some z) \<Rightarrow> if w = 0 \<and> x = 0 then Some (char_of (16 * y + z)) else None
      | _ \<Rightarrow> None)"

abbreviation push :: "char \<Rightarrow> (string \<times> string) option \<Rightarrow> (string \<times> string) option" where
  "push c r \<equiv> map_option (\<lambda>(s, rest). (c # s, rest)) r"

text \<open>The text after the opening quote: the string up to the closing quote, and what follows.\<close>

fun scan_string :: "string \<Rightarrow> (string \<times> string) option" where
  "scan_string [] = None"
| "scan_string (c # cs) =
     (if c = quote then Some ([], cs)
      else if c = backslash then
        (case cs of
           [] \<Rightarrow> None
         | e # cs' \<Rightarrow>
             if e = CHR ''u'' then
               (case cs' of
                  h1 # h2 # h3 # h4 # cs'' \<Rightarrow>
                    (case hex4 h1 h2 h3 h4 of None \<Rightarrow> None | Some x \<Rightarrow> push x (scan_string cs''))
                | _ \<Rightarrow> None)
             else (case simple_escape e of None \<Rightarrow> None | Some x \<Rightarrow> push x (scan_string cs')))
      else if code c < 32 then None
      else push c (scan_string cs))"

lemma scan_string_shorter: "scan_string cs = Some (s, rest) \<Longrightarrow> length rest < length cs"
proof (induction cs arbitrary: s rest rule: scan_string.induct)
  case 1
  then show ?case by simp
next
  case (2 c cs)
  then show ?case
    by (fastforce split: if_splits list.splits option.splits)
qed

section \<open>Objects\<close>

definition json_member :: "string \<times> string \<Rightarrow> string" where
  "json_member kv = json_string (fst kv) @ '': '' @ json_string (snd kv)"

definition json_dumps :: "(string, string) dict \<Rightarrow> string" where
  "json_dumps d = CHR ''{'' # str_join '', '' (map json_member d) @ [CHR ''}'']"

definition is_json_space :: "char \<Rightarrow> bool" where
  "is_json_space c = (code c \<in> {9, 10, 13, 32})"

abbreviation skip_ws :: "string \<Rightarrow> string" where
  "skip_ws cs \<equiv> dropWhile is_json_space cs"

definition expect :: "char \<Rightarrow> string \<Rightarrow> string option" where
  "expect c cs = (case skip_ws cs of [] \<Rightarrow> None | d # ds \<Rightarrow> if d = c then Some ds else None)"

lemma expect_shorter: "expect c cs = Some ds \<Longrightarrow> length ds < length cs"
  using length_dropWhile_le [of is_json_space cs] by (auto simp: expect_def split: list.splits if_splits)

definition parse_member :: "string \<Rightarrow> ((string \<times> string) \<times> string) option" where
  "parse_member cs =
     Option.bind (expect quote cs) (\<lambda>cs1.
     Option.bind (scan_string cs1) (\<lambda>(k, cs2).
     Option.bind (expect (CHR '':'') cs2) (\<lambda>cs3.
     Option.bind (expect quote cs3) (\<lambda>cs4.
     Option.bind (scan_string cs4) (\<lambda>(v, cs5). Some ((k, v), cs5))))))"

lemma parse_member_shorter: "parse_member cs = Some (kv, rest) \<Longrightarrow> length rest < length cs"
  by (auto simp: parse_member_def bind_eq_Some_conv dest!: expect_shorter scan_string_shorter)

function parse_members :: "string \<Rightarrow> (string, string) dict \<Rightarrow> ((string, string) dict \<times> string) option" where
  "parse_members cs d =
     (case parse_member cs of
        None \<Rightarrow> None
      | Some (kv, rest) \<Rightarrow>
          (case expect (CHR '','') rest of
             Some rest' \<Rightarrow> parse_members rest' (dict_set (fst kv) (snd kv) d)
           | None \<Rightarrow> map_option (Pair (dict_set (fst kv) (snd kv) d)) (expect (CHR ''}'') rest)))"
  by pat_completeness auto

termination parse_members
  by (relation "measure (length \<circ> fst)") (auto dest!: parse_member_shorter expect_shorter)

declare parse_members.simps [simp del]

definition json_loads :: "string \<Rightarrow> (string, string) dict option" where
  "json_loads cs =
     Option.bind (expect (CHR ''{'') cs) (\<lambda>cs1.
     Option.bind (case expect (CHR ''}'') cs1 of Some rest \<Rightarrow> Some ([], rest) | None \<Rightarrow> parse_members cs1 [])
       (\<lambda>(d, rest). if skip_ws rest = [] then Some d else None))"

section \<open>Reading back what was written\<close>

lemma hex_value_digit: "n < 16 \<Longrightarrow> hex_value (hex_digit n) = Some n"
  by (auto simp: hex_value_def hex_digit_def)

lemma code_less: "code c < 256"
  by (rule nat_of_char_less_256)

lemma scan_escape: "scan_string (json_escape c @ cs) = push c (scan_string cs)"
proof -
  have "code c div 16 < 16" using code_less [of c] by (simp add: less_mult_imp_div_less)
  then have hex: "hex4 (CHR ''0'') (CHR ''0'') (hex_digit (code c div 16)) (hex_digit (code c mod 16)) = Some c"
    by (simp add: hex4_def hex_value_digit) (simp add: hex_value_def)
  have named: "c = char_of n" if "code c = n" for n :: nat
    using that by auto
  show ?thesis
    using hex by (auto simp: json_escape_def simple_escape_def dest: named)
qed

lemma scan_json_string: "scan_string (concat (map json_escape s) @ quote # rest) = Some (s, rest)"
  by (induction s) (simp_all add: scan_escape)

lemma expect_here: "\<not> is_json_space c \<Longrightarrow> expect c (c # cs) = Some cs"
  by (simp add: expect_def)

lemma expect_other: "c \<noteq> d \<Longrightarrow> \<not> is_json_space d \<Longrightarrow> expect c (d # cs) = None"
  by (simp add: expect_def)

lemma expect_space: "expect c (CHR '' '' # cs) = expect c cs"
  by (simp add: expect_def is_json_space_def)

lemma no_space [simp]:
  "\<not> is_json_space quote" "\<not> is_json_space (CHR '':'')" "\<not> is_json_space (CHR ''{'')"
  "\<not> is_json_space (CHR ''}'')" "\<not> is_json_space (CHR '','')"
  by (simp_all add: is_json_space_def)

lemma parse_json_member: "parse_member (json_member kv @ rest) = Some (kv, rest)"
  by (cases kv) (simp add: parse_member_def json_member_def json_string_def expect_here expect_space scan_json_string)

lemma parse_member_space: "parse_member (CHR '' '' # cs) = parse_member cs"
  by (simp add: parse_member_def expect_space)

lemma parse_members_space: "parse_members (CHR '' '' # cs) d = parse_members cs d"
  by (simp add: parse_members.simps [of "CHR '' '' # cs"] parse_members.simps [of cs] parse_member_space)

lemma parse_json_members:
  "kvs \<noteq> [] \<Longrightarrow> parse_members (str_join '', '' (map json_member kvs) @ CHR ''}'' # rest) d
    = Some (dict_update d kvs, rest)"
proof (induction kvs arbitrary: d rule: induct_list012)
  case 1
  then show ?case by simp
next
  case (2 kv)
  show ?case
    by (cases kv) (simp add: parse_members.simps [of "json_member _ @ _"] parse_json_member expect_other expect_here)
next
  case (3 kv kv' kvs)
  then show ?case
    by (cases kv) (simp add: parse_members.simps [of "json_member (_, _) @ _"] parse_json_member expect_here
        parse_members_space)
qed

lemma dict_update_append:
  "distinct (dict_keys (d @ e)) \<Longrightarrow> dict_update d e = d @ e"
proof (induction e arbitrary: d)
  case Nil
  then show ?case by simp
next
  case (Cons kv e)
  obtain k v where kv: "kv = (k, v)" by (cases kv)
  with Cons.prems have "dict_get d k = None" by (auto simp: map_of_eq_None_iff)
  then have "dict_set k v d = d @ [(k, v)]" by (rule dict_set_fresh)
  with Cons.IH [of "d @ [kv]"] Cons.prems kv show ?case by simp
qed

text \<open>Reading the JSON text of a dictionary of strings gives the dictionary back, with its order,
  whatever characters its keys and values contain.\<close>

lemma json_reads_back:
  assumes "dict_wf d"
  shows "json_loads (json_dumps d) = Some d"
proof (cases "d = []")
  case True
  then show ?thesis by (simp add: json_loads_def json_dumps_def expect_here)
next
  case False
  let ?t = "str_join '', '' (map json_member d) @ [CHR ''}'']"
  have "\<exists>ks. ?t = quote # ks"
  proof -
    obtain kv e where "d = kv # e" using False by (cases d) auto
    then show ?thesis by (cases e) (auto simp: json_member_def json_string_def)
  qed
  then have "expect (CHR ''}'') ?t = None" by (auto simp: expect_other)
  moreover have "dict_update [] d = d" using assms dict_update_append [of "[]" d] by (simp add: dict_wf_def)
  ultimately show ?thesis
    using parse_json_members [OF False, of "[]" "[]"]
    by (simp add: json_loads_def json_dumps_def expect_here)
qed

end
