(* ===== verification/Job_Repository.thy ===== *)
theory Job_Repository
  imports Job Json_Strings
begin

text \<open>
  \<open>scheduler/job_repository.py\<close>: the repository interface and its SQLite implementation.

  SQLAlchemy and SQLite are not part of the program: the record \<open>job_session\<close> holds the session
  operations the repository calls, each with its \<open>session_scope\<close> (commit included), and the
  locale \<open>sql_session\<close> states their documented behaviour over the table \<open>rows\<close>. The locale
  \<open>job_repository\<close> is the contract the scheduler relies on; \<open>SqliteJobRepositoryImpl\<close> fulfils it
  over any such session. Points in time are integers; the JSON column is real text.
\<close>

section \<open>Rows\<close>

record job_row =
  jr_id :: string
  jr_workspace_id :: string
  jr_job_type :: string
  jr_status :: string
  jr_payload :: string
  jr_result :: string
  jr_error_message :: string
  jr_attempts :: int
  jr_max_retries :: int
  jr_priority :: int
  jr_created_at :: int
  jr_started_at :: "int option"
  jr_completed_at :: "int option"
  jr_updated_at :: int

record 'db job_session =
  js_get :: "string \<Rightarrow> ('db, job_row option) py"
  js_add :: "job_row \<Rightarrow> ('db, unit) py"
  js_flush :: "job_row \<Rightarrow> ('db, unit) py"
  js_delete :: "string \<Rightarrow> ('db, unit) py"
  js_select :: "(job_row \<Rightarrow> bool) \<Rightarrow> (job_row \<Rightarrow> int) option \<Rightarrow> ('db, job_row list) py"
  js_count :: "(job_row \<Rightarrow> bool) \<Rightarrow> ('db, int option) py"

definition row_of_job :: "job \<Rightarrow> job_row" where
  "row_of_job j =
     \<lparr>jr_id = job_id j, jr_workspace_id = job_workspace_id j, jr_job_type = job_type j,
      jr_status = job_status_value (job_status j), jr_payload = json_dumps (job_payload j),
      jr_result = job_result j, jr_error_message = job_error_message j, jr_attempts = job_attempts j,
      jr_max_retries = job_max_retries j, jr_priority = job_priority j, jr_created_at = job_created_at j,
      jr_started_at = job_started_at j, jr_completed_at = job_completed_at j, jr_updated_at = job_updated_at j\<rparr>"

text \<open>\<open>JobStatus(value)\<close>.\<close>

definition job_status_of :: "string \<Rightarrow> exn + job_status" where
  "job_status_of v =
     (case find (\<lambda>s. job_status_value s = v) [JOB_PENDING, JOB_RUNNING, JOB_COMPLETED, JOB_FAILED, JOB_CANCELLED] of
        Some s \<Rightarrow> Inr s
      | None \<Rightarrow> Inl (Exn ValueError (quoted v @ '' is not a valid JobStatus'')))"

definition to_domain :: "job_row \<Rightarrow> exn + job" where
  "to_domain row =
     (case (if jr_payload row = [] then Some [] else json_loads (jr_payload row)) of
        None \<Rightarrow> Inl (Exn (OtherException ''JSONDecodeError'') (jr_payload row))
      | Some payload \<Rightarrow>
          (case job_status_of (jr_status row) of
             Inl e \<Rightarrow> Inl e
           | Inr status \<Rightarrow>
               job_post_init \<lparr>job_workspace_id = jr_workspace_id row, job_type = jr_job_type row, job_id = jr_id row,
                 job_status = status, job_payload = payload, job_result = jr_result row,
                 job_error_message = jr_error_message row, job_attempts = jr_attempts row,
                 job_max_retries = jr_max_retries row, job_priority = jr_priority row,
                 job_created_at = jr_created_at row, job_started_at = jr_started_at row,
                 job_completed_at = jr_completed_at row, job_updated_at = jr_updated_at row\<rparr>))"

fun to_domain_list :: "job_row list \<Rightarrow> exn + job list" where
  "to_domain_list [] = Inr []"
| "to_domain_list (r # rs) =
     (case to_domain r of Inl e \<Rightarrow> Inl e
      | Inr j \<Rightarrow> (case to_domain_list rs of Inl e \<Rightarrow> Inl e | Inr js \<Rightarrow> Inr (j # js)))"

section \<open>The SQLite repository\<close>

definition job_not_found :: "string \<Rightarrow> ('s, 'a) py" where
  "job_not_found i = py_raise EntityNotFoundError (''Job '' @ quoted i @ '' not found'')"

definition sqlite_create :: "'db job_session \<Rightarrow> job \<Rightarrow> ('db, job) py" where
  "sqlite_create S j = py_bind (js_add S (row_of_job j)) (\<lambda>_. py_return j)"

definition sqlite_update :: "'db job_session \<Rightarrow> job \<Rightarrow> ('db, job) py" where
  "sqlite_update S j =
     py_bind (js_get S (job_id j)) (\<lambda>found.
     case found of
       None \<Rightarrow> job_not_found (job_id j)
     | Some row \<Rightarrow>
         py_bind (js_flush S (row\<lparr>jr_status := job_status_value (job_status j),
           jr_payload := json_dumps (job_payload j), jr_result := job_result j,
           jr_error_message := job_error_message j, jr_attempts := job_attempts j,
           jr_max_retries := job_max_retries j, jr_priority := job_priority j,
           jr_started_at := job_started_at j, jr_completed_at := job_completed_at j,
           jr_updated_at := job_updated_at j\<rparr>)) (\<lambda>_. py_return j))"

definition sqlite_get_by_id :: "'db job_session \<Rightarrow> string \<Rightarrow> ('db, job option) py" where
  "sqlite_get_by_id S i =
     py_bind (js_get S i) (\<lambda>found.
     case found of
       None \<Rightarrow> py_return None
     | Some row \<Rightarrow> py_bind (py_lift (to_domain row)) (\<lambda>j. py_return (Some j)))"

definition sqlite_list_pending :: "'db job_session \<Rightarrow> ('db, job list) py" where
  "sqlite_list_pending S =
     py_bind (js_select S (\<lambda>r. jr_status r = job_status_value JOB_PENDING) (Some jr_priority)) (\<lambda>rows.
     py_lift (to_domain_list rows))"

definition sqlite_list_by_workspace :: "'db job_session \<Rightarrow> string \<Rightarrow> ('db, job list) py" where
  "sqlite_list_by_workspace S ws =
     py_bind (js_select S (\<lambda>r. jr_workspace_id r = ws) (Some jr_created_at)) (\<lambda>rows. py_lift (to_domain_list rows))"

definition sqlite_list_by_status :: "'db job_session \<Rightarrow> job_status \<Rightarrow> ('db, job list) py" where
  "sqlite_list_by_status S status =
     py_bind (js_select S (\<lambda>r. jr_status r = job_status_value status) None) (\<lambda>rows. py_lift (to_domain_list rows))"

definition sqlite_delete :: "'db job_session \<Rightarrow> string \<Rightarrow> ('db, unit) py" where
  "sqlite_delete S i =
     py_bind (js_get S i) (\<lambda>found. case found of None \<Rightarrow> job_not_found i | Some row \<Rightarrow> js_delete S (jr_id row))"

definition sqlite_exists :: "'db job_session \<Rightarrow> string \<Rightarrow> ('db, bool) py" where
  "sqlite_exists S i = py_bind (js_get S i) (\<lambda>found. py_return (found \<noteq> None))"

definition sqlite_count_pending :: "'db job_session \<Rightarrow> ('db, int) py" where
  "sqlite_count_pending S =
     py_bind (js_count S (\<lambda>r. jr_status r = job_status_value JOB_PENDING)) (\<lambda>n.
     py_return (case n of None \<Rightarrow> 0 | Some k \<Rightarrow> k))"

text \<open>The \<open>JobRepository\<close> protocol.\<close>

record 'db job_repo =
  repo_create :: "job \<Rightarrow> ('db, job) py"
  repo_update :: "job \<Rightarrow> ('db, job) py"
  repo_get_by_id :: "string \<Rightarrow> ('db, job option) py"
  repo_list_pending :: "('db, job list) py"
  repo_count_pending :: "('db, int) py"
  repo_delete :: "string \<Rightarrow> ('db, unit) py"

definition sqlite_job_repo :: "'db job_session \<Rightarrow> 'db job_repo" where
  "sqlite_job_repo S =
     \<lparr>repo_create = sqlite_create S, repo_update = sqlite_update S, repo_get_by_id = sqlite_get_by_id S,
      repo_list_pending = sqlite_list_pending S, repo_count_pending = sqlite_count_pending S,
      repo_delete = sqlite_delete S\<rparr>"

section \<open>Rows and jobs\<close>

definition job_ok :: "job \<Rightarrow> bool" where
  "job_ok j = (job_workspace_id j \<noteq> [] \<and> dict_wf (job_payload j))"

lemma job_status_of_value: "job_status_of (job_status_value s) = Inr s"
  by (cases s) (simp_all add: job_status_of_def)

lemma json_dumps_nonempty [simp]: "json_dumps d \<noteq> []"
  by (simp add: json_dumps_def)

lemma to_domain_row: "job_ok j \<Longrightarrow> to_domain (row_of_job j) = Inr j"
  by (simp add: to_domain_def row_of_job_def job_status_of_value job_post_init_def job_ok_def json_reads_back)

lemma row_of_job_inj: "inj_on row_of_job {j. job_ok j}"
proof (rule inj_onI)
  fix j k assume "j \<in> {j. job_ok j}" "k \<in> {j. job_ok j}" "row_of_job j = row_of_job k"
  then have "Inr j = to_domain (row_of_job k)" "to_domain (row_of_job k) = Inr k"
    using to_domain_row [of j] to_domain_row [of k] by (simp_all only: mem_Collect_eq)
  then show "j = k" by simp
qed

lemma to_domain_rows: "\<forall>j \<in> set js. job_ok j \<Longrightarrow> to_domain_list (map row_of_job js) = Inr js"
  by (induction js) (simp_all add: to_domain_row)

lemma row_of_job_simps [simp]:
  "jr_id (row_of_job j) = job_id j" "jr_status (row_of_job j) = job_status_value (job_status j)"
  "jr_priority (row_of_job j) = job_priority j" "jr_workspace_id (row_of_job j) = job_workspace_id j"
  by (simp_all add: row_of_job_def)

lemma job_status_value_inj [simp]: "job_status_value s = job_status_value t \<longleftrightarrow> s = t"
  by (cases s; cases t) simp_all

lemma job_status_value_pending [simp]: "job_status_value s = ''pending'' \<longleftrightarrow> s = JOB_PENDING"
  by (cases s) simp_all

text \<open>What \<open>update\<close> stores: it does not write the workspace, the type and the creation time.\<close>

definition job_merge :: "job \<Rightarrow> job \<Rightarrow> job" where
  "job_merge old j =
     j\<lparr>job_workspace_id := job_workspace_id old, job_type := job_type old, job_created_at := job_created_at old\<rparr>"

lemma job_merge_same:
  "job_workspace_id old = job_workspace_id j \<Longrightarrow> job_type old = job_type j \<Longrightarrow>
    job_created_at old = job_created_at j \<Longrightarrow> job_merge old j = j"
  by (simp add: job_merge_def)

lemma job_merge_simps [simp]:
  "job_id (job_merge old j) = job_id j" "job_status (job_merge old j) = job_status j"
  "job_ok old \<Longrightarrow> job_ok j \<Longrightarrow> job_ok (job_merge old j)"
  by (simp_all add: job_merge_def job_ok_def)

section \<open>The contracts\<close>

definition is_pending :: "job \<Rightarrow> bool" where
  "is_pending j = (job_status j = JOB_PENDING)"

definition pending_jobs :: "(string \<Rightarrow> job option) \<Rightarrow> job set" where
  "pending_jobs m = {j. m (job_id j) = Some j \<and> is_pending j}"

text \<open>The repository as a finite map from ids to jobs.\<close>

locale job_repository =
  fixes R :: "'db job_repo"
    and jobs :: "'db \<Rightarrow> string \<Rightarrow> job option"
    and ok :: "'db \<Rightarrow> bool"
  assumes keyed: "ok db \<Longrightarrow> jobs db i = Some j \<Longrightarrow> job_id j = i \<and> job_ok j"
    and bounded: "ok db \<Longrightarrow> finite (dom (jobs db))"
    and get: "ok db \<Longrightarrow> repo_get_by_id R i db = (Inr (jobs db i), db)"
    and create: "ok db \<Longrightarrow> job_ok j \<Longrightarrow> jobs db (job_id j) = None \<Longrightarrow>
      \<exists>db'. repo_create R j db = (Inr j, db') \<and> ok db' \<and> jobs db' = (jobs db)(job_id j := Some j)"
    and create_taken: "ok db \<Longrightarrow> job_ok j \<Longrightarrow> jobs db (job_id j) = Some old \<Longrightarrow>
      isl (fst (repo_create R j db)) \<and> snd (repo_create R j db) = db"
    and update: "ok db \<Longrightarrow> job_ok j \<Longrightarrow> jobs db (job_id j) = Some old \<Longrightarrow>
      \<exists>db'. repo_update R j db = (Inr j, db') \<and> ok db' \<and> jobs db' = (jobs db)(job_id j := Some (job_merge old j))"
    and update_missing: "ok db \<Longrightarrow> jobs db (job_id j) = None \<Longrightarrow>
      isl (fst (repo_update R j db)) \<and> snd (repo_update R j db) = db"
    and list_pending: "ok db \<Longrightarrow> \<exists>js. repo_list_pending R db = (Inr js, db) \<and> distinct js \<and>
      set js = pending_jobs (jobs db) \<and> sorted_desc job_priority js"
    and count_pending: "ok db \<Longrightarrow> repo_count_pending R db = (Inr (int (card (pending_jobs (jobs db)))), db)"
    and delete: "ok db \<Longrightarrow> jobs db i = Some j \<Longrightarrow>
      \<exists>db'. repo_delete R i db = (Inr (), db') \<and> ok db' \<and> jobs db' = (jobs db)(i := None)"
    and delete_missing: "ok db \<Longrightarrow> jobs db i = None \<Longrightarrow>
      isl (fst (repo_delete R i db)) \<and> snd (repo_delete R i db) = db"

text \<open>
  The documented behaviour of the session over the table: the primary key is unique, a commit
  makes the changes visible, a query returns the matching rows, sorted only if it is told to.
\<close>

locale sql_session =
  fixes S :: "'db job_session"
    and rows :: "'db \<Rightarrow> string \<Rightarrow> job_row option"
  assumes row_key: "rows db i = Some r \<Longrightarrow> jr_id r = i"
    and rows_finite: "finite (dom (rows db))"
    and session_get: "js_get S i db = (Inr (rows db i), db)"
    and session_add: "rows db (jr_id r) = None \<Longrightarrow>
      \<exists>db'. js_add S r db = (Inr (), db') \<and> rows db' = (rows db)(jr_id r := Some r)"
    and session_add_taken: "rows db (jr_id r) = Some old \<Longrightarrow>
      \<exists>msg. js_add S r db = (Inl (Exn IntegrityError msg), db)"
    and session_flush: "rows db (jr_id r) = Some old \<Longrightarrow>
      \<exists>db'. js_flush S r db = (Inr (), db') \<and> rows db' = (rows db)(jr_id r := Some r)"
    and session_delete: "rows db i = Some r \<Longrightarrow>
      \<exists>db'. js_delete S i db = (Inr (), db') \<and> rows db' = (rows db)(i := None)"
    and session_select: "\<exists>rs. js_select S P order db = (Inr rs, db) \<and> distinct rs \<and>
      set rs = {r. rows db (jr_id r) = Some r \<and> P r} \<and> (\<forall>f. order = Some f \<longrightarrow> sorted_desc f rs)"
    and session_count: "js_count S P db = (Inr (Some (int (card {r. rows db (jr_id r) = Some r \<and> P r}))), db)"

definition rows_ok :: "(string \<Rightarrow> job_row option) \<Rightarrow> bool" where
  "rows_ok m = (\<forall>i r. m i = Some r \<longrightarrow> (\<exists>j. job_ok j \<and> r = row_of_job j))"

definition jobs_of_rows :: "(string \<Rightarrow> job_row option) \<Rightarrow> string \<Rightarrow> job option" where
  "jobs_of_rows m i =
     (case m i of None \<Rightarrow> None | Some r \<Rightarrow> (case to_domain r of Inl _ \<Rightarrow> None | Inr j \<Rightarrow> Some j))"

lemma jobs_of_rows_iff: "rows_ok m \<Longrightarrow> jobs_of_rows m i = Some j \<longleftrightarrow> m i = Some (row_of_job j) \<and> job_ok j"
  unfolding rows_ok_def jobs_of_rows_def
  by (auto simp: to_domain_row split: option.splits sum.splits) (metis to_domain_row sum.inject(2))+

lemma jobs_of_rows_None: "rows_ok m \<Longrightarrow> jobs_of_rows m i = None \<longleftrightarrow> m i = None"
  unfolding rows_ok_def jobs_of_rows_def by (auto simp: to_domain_row split: option.splits sum.splits)
    (metis to_domain_row sum.distinct(1))

lemma rows_ok_upd: "rows_ok m \<Longrightarrow> job_ok j \<Longrightarrow> rows_ok (m(i := Some (row_of_job j)))"
  by (auto simp: rows_ok_def)

lemma jobs_of_rows_upd: "job_ok j \<Longrightarrow> jobs_of_rows (m(i := Some (row_of_job j))) = (jobs_of_rows m)(i := Some j)"
  by (simp add: jobs_of_rows_def fun_eq_iff to_domain_row)

lemma row_update_merge:
  "(row_of_job old)\<lparr>jr_status := job_status_value (job_status j), jr_payload := json_dumps (job_payload j),
     jr_result := job_result j, jr_error_message := job_error_message j, jr_attempts := job_attempts j,
     jr_max_retries := job_max_retries j, jr_priority := job_priority j, jr_started_at := job_started_at j,
     jr_completed_at := job_completed_at j, jr_updated_at := job_updated_at j\<rparr>
   = row_of_job ((job_merge old j)\<lparr>job_id := job_id old\<rparr>)"
  by (simp add: row_of_job_def job_merge_def)

section \<open>The SQLite repository keeps the contract\<close>

context sql_session
begin

abbreviation db_ok :: "'db \<Rightarrow> bool" where
  "db_ok db \<equiv> rows_ok (rows db)"

abbreviation db_jobs :: "'db \<Rightarrow> string \<Rightarrow> job option" where
  "db_jobs db \<equiv> jobs_of_rows (rows db)"

lemma select_jobs:
  assumes "db_ok db"
  shows "\<exists>js. js_select S P order db = (Inr (map row_of_job js), db) \<and> to_domain_list (map row_of_job js) = Inr js \<and>
    distinct js \<and> set js = {j. db_jobs db (job_id j) = Some j \<and> P (row_of_job j)} \<and>
    (\<forall>f. order = Some f \<longrightarrow> sorted_desc (f \<circ> row_of_job) js)"
proof -
  obtain rs where rs: "js_select S P order db = (Inr rs, db)" "distinct rs"
    "set rs = {r. rows db (jr_id r) = Some r \<and> P r}" "\<forall>f. order = Some f \<longrightarrow> sorted_desc f rs"
    using session_select [of P order db] by blast
  have "\<forall>r \<in> set rs. \<exists>j. job_ok j \<and> r = row_of_job j"
    using rs(3) assms unfolding rows_ok_def by blast
  from bchoice [OF this] obtain f where f: "\<forall>r \<in> set rs. job_ok (f r) \<and> r = row_of_job (f r)" by blast
  let ?js = "map f rs"
  have "map (row_of_job \<circ> f) rs = rs" by (rule map_idI) (metis f comp_apply)
  then have js: "rs = map row_of_job ?js" by simp
  have okjs: "\<forall>j \<in> set ?js. job_ok j" using f by (metis (no_types, lifting) image_iff list.set_map)
  have "j \<in> set ?js \<longleftrightarrow> db_jobs db (job_id j) = Some j \<and> P (row_of_job j)" for j
  proof
    assume "j \<in> set ?js"
    then obtain r where "r \<in> set rs" "j = f r" by auto
    with f rs(3) show "db_jobs db (job_id j) = Some j \<and> P (row_of_job j)"
      unfolding jobs_of_rows_iff [OF assms] by (metis (mono_tags, lifting) mem_Collect_eq row_of_job_simps(1))
  next
    assume j: "db_jobs db (job_id j) = Some j \<and> P (row_of_job j)"
    then have "row_of_job j \<in> set rs" "job_ok j" unfolding rs(3) jobs_of_rows_iff [OF assms] by auto
    moreover from this f have "f (row_of_job j) = j" by (metis to_domain_row sum.inject(2))
    ultimately show "j \<in> set ?js" by force
  qed
  then have "set ?js = {j. db_jobs db (job_id j) = Some j \<and> P (row_of_job j)}" by blast
  moreover have "distinct ?js" using rs(2) js by (metis distinct_map)
  moreover have "\<forall>g. order = Some g \<longrightarrow> sorted_desc (g \<circ> row_of_job) ?js"
    using rs(4) js by (metis (mono_tags, lifting) comp_apply sorted_desc_def sorted_wrt_map sorted_wrt_mono_rel)
  ultimately show ?thesis
    using rs(1) js to_domain_rows [OF okjs] by (intro exI [of _ ?js]) simp
qed

lemma db_pending: "db_ok db \<Longrightarrow> {j. db_jobs db (job_id j) = Some j \<and> jr_status (row_of_job j) = job_status_value JOB_PENDING}
    = pending_jobs (db_jobs db)"
  by (simp add: pending_jobs_def is_pending_def)

lemma get_row: "db_ok db \<Longrightarrow> sqlite_get_by_id S i db = (Inr (db_jobs db i), db)"
proof (cases "rows db i")
  case None
  then show ?thesis by (simp add: sqlite_get_by_id_def session_get py_bind_split jobs_of_rows_def)
next
  case (Some r)
  assume "db_ok db"
  with Some obtain j where "job_ok j" "r = row_of_job j" unfolding rows_ok_def by blast
  with Some show ?thesis by (simp add: sqlite_get_by_id_def session_get py_bind_split jobs_of_rows_def to_domain_row)
qed

lemma create_row:
  assumes "db_ok db" and "job_ok j" and "db_jobs db (job_id j) = None"
  shows "\<exists>db'. sqlite_create S j db = (Inr j, db') \<and> db_ok db' \<and> db_jobs db' = (db_jobs db)(job_id j := Some j)"
proof -
  have "rows db (jr_id (row_of_job j)) = None" using assms jobs_of_rows_None by simp
  from session_add [OF this] obtain db' where "js_add S (row_of_job j) db = (Inr (), db')"
    "rows db' = (rows db)(job_id j := Some (row_of_job j))" by auto
  with assms(1,2) show ?thesis
    by (auto simp: sqlite_create_def py_bind_split rows_ok_upd jobs_of_rows_upd)
qed

lemma create_row_taken:
  assumes "db_ok db" and "db_jobs db (job_id j) = Some old"
  shows "isl (fst (sqlite_create S j db)) \<and> snd (sqlite_create S j db) = db"
proof -
  have "rows db (jr_id (row_of_job j)) = Some (row_of_job old)" using assms by (simp add: jobs_of_rows_iff)
  from session_add_taken [OF this] show ?thesis by (auto simp: sqlite_create_def py_bind_split)
qed

lemma update_row:
  assumes "db_ok db" and "job_ok j" and "db_jobs db (job_id j) = Some old"
  shows "\<exists>db'. sqlite_update S j db = (Inr j, db') \<and> db_ok db' \<and>
    db_jobs db' = (db_jobs db)(job_id j := Some (job_merge old j))"
proof -
  have old: "rows db (job_id j) = Some (row_of_job old)" "job_ok old"
    using assms(3) jobs_of_rows_iff [OF assms(1)] by auto
  then have "job_id old = job_id j" using row_key by fastforce
  then have merged: "(job_merge old j)\<lparr>job_id := job_id old\<rparr> = job_merge old j" by (simp add: job_merge_def)
  have mok: "job_ok (job_merge old j)" using old(2) assms(2) by simp
  have "rows db (jr_id (row_of_job (job_merge old j))) = Some (row_of_job old)" using old by simp
  from session_flush [OF this] obtain db' where
    db': "js_flush S (row_of_job (job_merge old j)) db = (Inr (), db')"
    "rows db' = (rows db)(job_id j := Some (row_of_job (job_merge old j)))" by auto
  have "sqlite_update S j db = (Inr j, db')"
    using db'(1) old(1) by (simp add: sqlite_update_def py_bind_split session_get row_update_merge merged)
  then show ?thesis
    using db'(2) assms(1) mok by (simp add: rows_ok_upd jobs_of_rows_upd)
qed

lemma delete_row:
  assumes "db_ok db" and "db_jobs db i = Some j"
  shows "\<exists>db'. sqlite_delete S i db = (Inr (), db') \<and> db_ok db' \<and> db_jobs db' = (db_jobs db)(i := None)"
proof -
  have old: "rows db i = Some (row_of_job j)" using assms by (simp add: jobs_of_rows_iff)
  from session_delete [OF old] obtain db' where "js_delete S i db = (Inr (), db')" "rows db' = (rows db)(i := None)" by auto
  moreover have "jr_id (row_of_job j) = i" using row_key [OF old] .
  moreover have "jobs_of_rows ((rows db)(i := None)) = (db_jobs db)(i := None)" by (simp add: jobs_of_rows_def fun_eq_iff)
  moreover have "rows_ok ((rows db)(i := None))" using assms(1) by (auto simp: rows_ok_def)
  ultimately show ?thesis using old by (simp add: sqlite_delete_def py_bind_split session_get)
qed

lemma missing_row:
  assumes "db_ok db" and "db_jobs db i = None"
  shows "sqlite_delete S i db = (Inl (Exn EntityNotFoundError (''Job '' @ quoted i @ '' not found'')), db) \<and>
    (job_id j = i \<longrightarrow> sqlite_update S j db = (Inl (Exn EntityNotFoundError (''Job '' @ quoted i @ '' not found'')), db))"
proof -
  have "rows db i = None" using assms jobs_of_rows_None by blast
  then show ?thesis by (auto simp: sqlite_delete_def sqlite_update_def job_not_found_def py_bind_split session_get)
qed

lemma db_jobs_finite: "finite (dom (db_jobs db))"
proof (rule finite_subset [OF _ rows_finite [of db]])
  show "dom (db_jobs db) \<subseteq> dom (rows db)" by (auto simp: jobs_of_rows_def split: option.splits)
qed

lemma list_rows:
  assumes "db_ok db"
  shows "\<exists>js. sqlite_list_pending S db = (Inr js, db) \<and> distinct js \<and> set js = pending_jobs (db_jobs db) \<and> sorted_desc job_priority js"
proof -
  obtain js where "js_select S (\<lambda>r. jr_status r = job_status_value JOB_PENDING) (Some jr_priority) db = (Inr (map row_of_job js), db)"
    "to_domain_list (map row_of_job js) = Inr js" "distinct js"
    "set js = pending_jobs (db_jobs db)" "sorted_desc (jr_priority \<circ> row_of_job) js"
    using select_jobs [OF assms, of "\<lambda>r. jr_status r = job_status_value JOB_PENDING" "Some jr_priority"]
    unfolding db_pending [OF assms] by auto
  then show ?thesis by (simp add: sqlite_list_pending_def py_bind_split comp_def sorted_desc_def)
qed

lemma count_rows:
  assumes "db_ok db"
  shows "sqlite_count_pending S db = (Inr (int (card (pending_jobs (db_jobs db)))), db)"
proof -
  have "{r. rows db (jr_id r) = Some r \<and> jr_status r = job_status_value JOB_PENDING} = row_of_job ` pending_jobs (db_jobs db)"
    (is "?rs = ?js")
  proof
    show "?rs \<subseteq> ?js"
    proof
      fix r assume r: "r \<in> ?rs"
      then obtain j where "job_ok j" "r = row_of_job j" using assms unfolding rows_ok_def by blast
      moreover from r this have "j \<in> pending_jobs (db_jobs db)"
        using assms by (simp add: pending_jobs_def is_pending_def jobs_of_rows_iff)
      ultimately show "r \<in> ?js" by blast
    qed
    show "?js \<subseteq> ?rs" using assms by (auto simp: pending_jobs_def is_pending_def jobs_of_rows_iff)
  qed
  moreover have "inj_on row_of_job (pending_jobs (db_jobs db))"
    by (rule inj_on_subset [OF row_of_job_inj]) (auto simp: pending_jobs_def jobs_of_rows_iff [OF assms])
  ultimately show ?thesis
    by (simp add: sqlite_count_pending_def py_bind_split session_count card_image)
qed

text \<open>The refinement: over any session with the documented behaviour, the repository is the map.\<close>

lemma sqlite_refines: "job_repository (sqlite_job_repo S) (\<lambda>db. jobs_of_rows (rows db)) (\<lambda>db. rows_ok (rows db))"
  unfolding sqlite_job_repo_def
proof (unfold_locales, simp_all only: job_repo.simps)
  fix db i j old
  show "db_ok db \<Longrightarrow> db_jobs db i = Some j \<Longrightarrow> job_id j = i \<and> job_ok j"
    using row_key by (fastforce simp: jobs_of_rows_iff)
  show "isl (fst (sqlite_create S j db)) \<and> snd (sqlite_create S j db) = db"
    if "db_ok db" "db_jobs db (job_id j) = Some old" using create_row_taken that .
  show "isl (fst (sqlite_update S j db)) \<and> snd (sqlite_update S j db) = db"
    if "db_ok db" "db_jobs db (job_id j) = None" using missing_row [OF that, of j] by simp
  show "isl (fst (sqlite_delete S i db)) \<and> snd (sqlite_delete S i db) = db"
    if "db_ok db" "db_jobs db i = None" using missing_row [OF that] by simp
qed (assumption | rule db_jobs_finite get_row create_row update_row list_rows count_rows delete_row)+

end

sublocale sql_session \<subseteq> repo: job_repository "sqlite_job_repo S" "\<lambda>db. jobs_of_rows (rows db)" "\<lambda>db. rows_ok (rows db)"
  by (rule sqlite_refines)

section \<open>A concrete session\<close>

text \<open>A table as a list of rows, on which the hypotheses about the session hold.\<close>

definition list_rows_of :: "job_row list \<Rightarrow> string \<Rightarrow> job_row option" where
  "list_rows_of db i = find (\<lambda>r. jr_id r = i) db"

definition visible_rows :: "job_row list \<Rightarrow> job_row list" where
  "visible_rows db = remdups (filter (\<lambda>r. list_rows_of db (jr_id r) = Some r) db)"

definition list_session :: "job_row list job_session" where
  "list_session =
     \<lparr>js_get = (\<lambda>i. py_read (\<lambda>db. list_rows_of db i)),
      js_add = (\<lambda>r. py_bind (py_read (\<lambda>db. list_rows_of db (jr_id r))) (\<lambda>found.
        if found \<noteq> None then py_raise IntegrityError ''UNIQUE constraint failed: jobs.id''
        else py_modify (\<lambda>db. db @ [r]))),
      js_flush = (\<lambda>r. py_modify (map (\<lambda>x. if jr_id x = jr_id r then r else x))),
      js_delete = (\<lambda>i. py_modify (filter (\<lambda>x. jr_id x \<noteq> i))),
      js_select = (\<lambda>P order. py_read (\<lambda>db. let rs = filter P (visible_rows db)
        in case order of None \<Rightarrow> rs | Some f \<Rightarrow> sort_desc f rs)),
      js_count = (\<lambda>P. py_read (\<lambda>db. Some (int (length (filter P (visible_rows db))))))\<rparr>"

lemma find_key: "find (\<lambda>r. jr_id r = i) db = Some r \<Longrightarrow> jr_id r = i \<and> r \<in> set db"
  by (auto simp: find_Some_iff in_set_conv_nth)

lemma find_replace_other: "jr_id r = i \<Longrightarrow> k \<noteq> i \<Longrightarrow>
    find (\<lambda>x. jr_id x = k) (map (\<lambda>x. if jr_id x = i then r else x) db) = find (\<lambda>x. jr_id x = k) db"
  by (induction db) auto

lemma find_replace_same: "find (\<lambda>x. jr_id x = i) db = Some old \<Longrightarrow> jr_id r = i \<Longrightarrow>
    find (\<lambda>x. jr_id x = i) (map (\<lambda>x. if jr_id x = i then r else x) db) = Some r"
  by (induction db) (auto split: if_splits)

lemma find_map_other: "find (\<lambda>x. jr_id x = k) (filter (\<lambda>x. jr_id x \<noteq> i) db) =
    (if k = i then None else find (\<lambda>x. jr_id x = k) db)"
  by (induction db) auto

lemma find_append: "find P (xs @ ys) = (case find P xs of None \<Rightarrow> find P ys | Some x \<Rightarrow> Some x)"
  by (induction xs) auto

lemma set_visible: "set (filter P (visible_rows db)) = {r. list_rows_of db (jr_id r) = Some r \<and> P r}"
  by (auto simp: visible_rows_def list_rows_of_def dest: find_key)

interpretation list_db: sql_session list_session list_rows_of
proof
  fix db :: "job_row list" and i r old P and order :: "(job_row \<Rightarrow> int) option"
  show "list_rows_of db i = Some r \<Longrightarrow> jr_id r = i" by (auto simp: list_rows_of_def dest: find_key)
  have "dom (list_rows_of db) \<subseteq> jr_id ` set db" by (auto simp: list_rows_of_def dest!: find_key)
  then show "finite (dom (list_rows_of db))" by (rule finite_subset) simp
  show "js_get list_session i db = (Inr (list_rows_of db i), db)" by (simp add: list_session_def)
  show "list_rows_of db (jr_id r) = None \<Longrightarrow>
      \<exists>db'. js_add list_session r db = (Inr (), db') \<and> list_rows_of db' = (list_rows_of db)(jr_id r := Some r)"
    by (auto simp: list_session_def py_bind_split list_rows_of_def find_append fun_eq_iff split: option.splits)
  show "list_rows_of db (jr_id r) = Some old \<Longrightarrow> \<exists>msg. js_add list_session r db = (Inl (Exn IntegrityError msg), db)"
    by (simp add: list_session_def py_bind_split)
  show "list_rows_of db (jr_id r) = Some old \<Longrightarrow>
      \<exists>db'. js_flush list_session r db = (Inr (), db') \<and> list_rows_of db' = (list_rows_of db)(jr_id r := Some r)"
    by (simp add: list_session_def list_rows_of_def fun_eq_iff find_replace_same find_replace_other)
  show "list_rows_of db i = Some r \<Longrightarrow>
      \<exists>db'. js_delete list_session i db = (Inr (), db') \<and> list_rows_of db' = (list_rows_of db)(i := None)"
    by (simp add: list_session_def list_rows_of_def fun_eq_iff find_map_other)
  have distinct: "distinct (filter P (visible_rows db))" by (simp add: visible_rows_def)
  then show "\<exists>rs. js_select list_session P order db = (Inr rs, db) \<and> distinct rs \<and>
      set rs = {r. list_rows_of db (jr_id r) = Some r \<and> P r} \<and> (\<forall>f. order = Some f \<longrightarrow> sorted_desc f rs)"
    using set_visible [of P db] distinct_map_sort_desc [of "\<lambda>x. x"]
    by (cases order) (auto simp: list_session_def)
  show "js_count list_session P db = (Inr (Some (int (card {r. list_rows_of db (jr_id r) = Some r \<and> P r}))), db)"
    unfolding set_visible [symmetric] distinct_card [OF distinct] by (simp add: list_session_def)
qed

section \<open>Properties\<close>

text \<open>C29: Reading back the row a job is stored as gives the job, with its status, its payload and all
  its other fields, whatever its payload strings contain; a job without a workspace is refused.\<close>

theorem job_row_roundtrip:
  assumes "dict_wf (job_payload j)"
  shows "to_domain (row_of_job j) =
    (if job_workspace_id j = [] then Inl (Exn ValueError ''Job must belong to a workspace'') else Inr j)"
  using assms
  by (simp add: to_domain_def row_of_job_def job_status_of_value job_post_init_def json_reads_back)

text \<open>C4: Over a database session with the documented behaviour, a created job is found again under
  its id, nothing else changes, a second job with the id is refused, and an update stores
  everything but the workspace, the type and the creation time of the job.\<close>

theorem sqlite_repository_crud:
  assumes "sql_session S rows" and "rows_ok (rows db)" and "job_ok j"
    and "sqlite_get_by_id S (job_id j) db = (Inr None, db)" and "job_ok k" and "job_id k = job_id j"
  shows "\<exists>db'. sqlite_create S j db = (Inr j, db') \<and> rows_ok (rows db') \<and>
    (\<forall>i. fst (sqlite_get_by_id S i db') = (if i = job_id j then Inr (Some j) else fst (sqlite_get_by_id S i db))) \<and>
    isl (fst (sqlite_create S k db')) \<and> snd (sqlite_create S k db') = db' \<and>
    (\<exists>db''. sqlite_update S k db' = (Inr k, db'') \<and>
      (\<forall>i. fst (sqlite_get_by_id S i db'') = (if i = job_id j then Inr (Some (job_merge j k)) else fst (sqlite_get_by_id S i db))))"
proof -
  note get = sql_session.get_row [OF assms(1)]
  have none: "jobs_of_rows (rows db) (job_id j) = None" using get [OF assms(2)] assms(4) by simp
  from sql_session.create_row [OF assms(1-3) none] obtain db' where db': "sqlite_create S j db = (Inr j, db')"
    "rows_ok (rows db')" "jobs_of_rows (rows db') = (jobs_of_rows (rows db))(job_id j := Some j)" by blast
  then have stored: "jobs_of_rows (rows db') (job_id k) = Some j" using assms(6) by simp
  from sql_session.update_row [OF assms(1) db'(2) assms(5) stored] obtain db'' where db'': "sqlite_update S k db' = (Inr k, db'')"
    "rows_ok (rows db'')" "jobs_of_rows (rows db'') = (jobs_of_rows (rows db'))(job_id k := Some (job_merge j k))" by blast
  show ?thesis
    using db' db'' sql_session.create_row_taken [OF assms(1) db'(2) stored] assms(6)
    by (simp add: get assms(2))
qed

text \<open>The pending jobs are listed once each, in descending priority, and counted as listed.\<close>

theorem sqlite_pending_listed:
  assumes "sql_session S rows" and "rows_ok (rows db)"
  shows "\<exists>js. sqlite_list_pending S db = (Inr js, db) \<and> sqlite_count_pending S db = (Inr (int (length js)), db) \<and>
    distinct js \<and> sorted_desc job_priority js \<and>
    (\<forall>j. j \<in> set js \<longleftrightarrow> sqlite_get_by_id S (job_id j) db = (Inr (Some j), db) \<and> job_status j = JOB_PENDING)"
proof -
  obtain js where js: "sqlite_list_pending S db = (Inr js, db)" "distinct js"
    "set js = pending_jobs (jobs_of_rows (rows db))" "sorted_desc job_priority js"
    using sql_session.list_rows [OF assms] by blast
  moreover have "sqlite_count_pending S db = (Inr (int (length js)), db)"
    using sql_session.count_rows [OF assms] js(3) distinct_card [OF js(2)] by simp
  moreover have "j \<in> set js \<longleftrightarrow> sqlite_get_by_id S (job_id j) db = (Inr (Some j), db) \<and> job_status j = JOB_PENDING" for j
    unfolding js(3) sql_session.get_row [OF assms] by (simp add: pending_jobs_def is_pending_def)
  ultimately show ?thesis by blast
qed

section \<open>Witnesses\<close>

lemma sample_job_ok: "job_ok sample_job"
  by (simp add: job_ok_def sample_job_def)

lemma rows_ok_Nil: "rows_ok (list_rows_of [])"
  by (simp add: rows_ok_def list_rows_of_def)

theorem job_row_roundtrip_witness:
  "to_domain (row_of_job (sample_job\<lparr>job_payload := [(''q'', [CHR 0x22, CHR 0x5C])]\<rparr>))
     = Inr (sample_job\<lparr>job_payload := [(''q'', [CHR 0x22, CHR 0x5C])]\<rparr>)"
  using job_row_roundtrip [of "sample_job\<lparr>job_payload := [(''q'', [CHR 0x22, CHR 0x5C])]\<rparr>"]
  by (simp add: dict_wf_def sample_job_def)

theorem sqlite_repository_crud_witness:
  "\<exists>db'. sqlite_create list_session sample_job [] = (Inr sample_job, db') \<and>
    fst (sqlite_get_by_id list_session ''j1'' db') = Inr (Some sample_job)"
proof -
  have "sqlite_get_by_id list_session (job_id sample_job) [] = (Inr None, [])"
    by (simp add: sqlite_get_by_id_def list_session_def list_rows_of_def py_bind_split)
  from sqlite_repository_crud [OF list_db.sql_session_axioms rows_ok_Nil sample_job_ok this sample_job_ok refl]
  show ?thesis by (auto simp: sample_job_def)
qed

theorem sqlite_pending_listed_witness:
  "\<exists>js. sqlite_list_pending list_session [] = (Inr js, []) \<and> sqlite_count_pending list_session [] = (Inr (int (length js)), [])"
  using sqlite_pending_listed [OF list_db.sql_session_axioms rows_ok_Nil] by blast

end
