(* ===== verification/Job_Scheduler.thy ===== *)
theory Job_Scheduler
  imports Job_Repository
begin

text \<open>
  \<open>scheduler/job_queue.py\<close>, \<open>job_executor.py\<close>, \<open>job_scheduler.py\<close>, \<open>pipeline_dispatcher.py\<close> and
  \<open>job_events.py\<close>. The record \<open>job_env\<close> holds the collaborators: the repository (for the queue and
  the scheduler, and optionally for the executor), the publish calls of the two event buses, and
  the clock and id generator indexed by the number of readings. A handler is a function that may
  mutate the job it is given and returns a text, \<open>None\<close>, or raises.

  While a job is executed the state is the pair of the job object and the world; handlers do not
  reach the world.
\<close>

section \<open>Environment\<close>

datatype job_event =
    JobCreated string string string
  | JobStarted string string string
  | JobCompleted string string string string
  | JobFailed string string string string
  | JobCancelled string string string

record ('db, 'b) job_env =
  je_repo :: "'db job_repo"
  je_exec_repo :: "'db job_repo option"
  je_emit :: "job_event \<Rightarrow> ('b, unit) py"
  je_exec_emit :: "job_event \<Rightarrow> ('b, unit) py"
  je_now :: "nat \<Rightarrow> int"
  je_uid :: "nat \<Rightarrow> string"

record ('db, 'b) job_world =
  jw_db :: 'db
  jw_sink :: 'b
  jw_ticks :: nat

definition on_db :: "('db, 'a) py \<Rightarrow> (('db, 'b) job_world, 'a) py" where
  "on_db = py_on jw_db (\<lambda>d w. w\<lparr>jw_db := d\<rparr>)"

definition on_sink :: "('b, 'a) py \<Rightarrow> (('db, 'b) job_world, 'a) py" where
  "on_sink = py_on jw_sink (\<lambda>b w. w\<lparr>jw_sink := b\<rparr>)"

definition job_now :: "('db, 'b) job_env \<Rightarrow> (('db, 'b) job_world, int) py" where
  "job_now env = (\<lambda>w. (Inr (je_now env (jw_ticks w)), w\<lparr>jw_ticks := Suc (jw_ticks w)\<rparr>))"

definition job_uid :: "('db, 'b) job_env \<Rightarrow> (('db, 'b) job_world, string) py" where
  "job_uid env = (\<lambda>w. (Inr (je_uid env (jw_ticks w)), w\<lparr>jw_ticks := Suc (jw_ticks w)\<rparr>))"

section \<open>The queue\<close>

definition queue_enqueue :: "('db, 'b) job_env \<Rightarrow> job \<Rightarrow> (('db, 'b) job_world, job) py" where
  "queue_enqueue env j =
     (if job_status j \<noteq> JOB_PENDING
      then py_raise ValueError (''Can only enqueue PENDING jobs, got '' @ job_status_value (job_status j))
      else py_bind (on_db (repo_get_by_id (je_repo env) (job_id j))) (\<lambda>existing.
        if existing \<noteq> None then on_db (repo_update (je_repo env) j)
        else on_db (repo_create (je_repo env) j)))"

definition queue_dequeue :: "('db, 'b) job_env \<Rightarrow> (('db, 'b) job_world, job option) py" where
  "queue_dequeue env =
     py_bind (on_db (repo_list_pending (je_repo env))) (\<lambda>pending.
     case pending of [] \<Rightarrow> py_return None | j # _ \<Rightarrow> py_return (Some j))"

definition queue_peek :: "('db, 'b) job_env \<Rightarrow> (('db, 'b) job_world, job option) py" where
  "queue_peek env = queue_dequeue env"

definition queue_size :: "('db, 'b) job_env \<Rightarrow> (('db, 'b) job_world, int) py" where
  "queue_size env = on_db (repo_count_pending (je_repo env))"

definition queue_is_empty :: "('db, 'b) job_env \<Rightarrow> (('db, 'b) job_world, bool) py" where
  "queue_is_empty env = py_bind (queue_size env) (\<lambda>n. py_return (n = 0))"

section \<open>The executor\<close>

type_synonym job_handler = "(job, string option) py"

type_synonym job_handlers = "(string, job_handler) dict"

definition executor_register :: "string \<Rightarrow> job_handler \<Rightarrow> job_handlers \<Rightarrow> job_handlers" where
  "executor_register t h hs = dict_set t h hs"

definition executor_unregister :: "string \<Rightarrow> job_handlers \<Rightarrow> job_handlers" where
  "executor_unregister t hs = dict_pop t hs"

definition executor_has_handler :: "string \<Rightarrow> job_handlers \<Rightarrow> bool" where
  "executor_has_handler t hs = dict_has hs t"

definition on_job :: "(job, 'a) py \<Rightarrow> (job \<times> ('db, 'b) job_world, 'a) py" where
  "on_job = py_on fst (\<lambda>j (_, w). (j, w))"

definition on_world :: "(('db, 'b) job_world, 'a) py \<Rightarrow> (job \<times> ('db, 'b) job_world, 'a) py" where
  "on_world = py_on snd (\<lambda>w (j, _). (j, w))"

text \<open>\<open>transition_to\<close> reads the clock only after its check has passed.\<close>

definition execute_transition ::
    "('db, 'b) job_env \<Rightarrow> job_status \<Rightarrow> (job \<times> ('db, 'b) job_world, unit) py" where
  "execute_transition env target =
     py_bind (py_read (\<lambda>(j, _). can_transition (job_status j) target)) (\<lambda>can.
     if can then py_bind (on_world (job_now env)) (\<lambda>now. on_job (transition_to now target))
     else on_job (transition_to 0 target))"

definition executor_emit ::
    "('db, 'b) job_env \<Rightarrow> (job \<Rightarrow> job_event) \<Rightarrow> (job \<times> ('db, 'b) job_world, unit) py" where
  "executor_emit env ev =
     py_bind (py_read (\<lambda>(j, _). ev j)) (\<lambda>e. on_world (on_sink (je_exec_emit env e)))"

definition persist :: "('db, 'b) job_env \<Rightarrow> (job \<times> ('db, 'b) job_world, unit) py" where
  "persist env =
     (case je_exec_repo env of
        None \<Rightarrow> py_return ()
      | Some R \<Rightarrow>
          py_bind (py_read fst) (\<lambda>j.
          py_bind (on_world (on_db (repo_get_by_id R (job_id j)))) (\<lambda>existing.
          py_bind (on_world (on_db (if existing \<noteq> None then repo_update R j else repo_create R j))) (\<lambda>_.
          py_return ()))))"

definition job_started_event :: "job \<Rightarrow> job_event" where
  "job_started_event j = JobStarted (job_id j) (job_workspace_id j) (job_type j)"

definition job_completed_event :: "job \<Rightarrow> job_event" where
  "job_completed_event j = JobCompleted (job_id j) (job_workspace_id j) (job_type j) (job_result j)"

definition job_failed_event :: "job \<Rightarrow> job_event" where
  "job_failed_event j = JobFailed (job_id j) (job_workspace_id j) (job_type j) (job_error_message j)"

text \<open>The \<open>try\<close> statement of \<open>execute\<close>.\<close>

definition run_handler :: "('db, 'b) job_env \<Rightarrow> job_handler \<Rightarrow> (job \<times> ('db, 'b) job_world, unit) py" where
  "run_handler env handler =
     py_try
       (py_bind (on_job handler) (\<lambda>result.
        py_bind (on_job (py_modify (\<lambda>j. j\<lparr>job_result := (case result of None \<Rightarrow> [] | Some r \<Rightarrow> r)\<rparr>))) (\<lambda>_.
        py_bind (execute_transition env JOB_COMPLETED) (\<lambda>_.
        executor_emit env job_completed_event))))
       (\<lambda>exc.
        py_bind (on_job (py_modify (\<lambda>j. j\<lparr>job_error_message := exn_str exc\<rparr>))) (\<lambda>_.
        py_bind (execute_transition env JOB_FAILED) (\<lambda>_.
        executor_emit env job_failed_event)))"

definition execute_body ::
    "('db, 'b) job_env \<Rightarrow> job_handlers \<Rightarrow> (job \<times> ('db, 'b) job_world, unit) py" where
  "execute_body env handlers =
     py_bind (py_read (\<lambda>(j, _). job_type j)) (\<lambda>t.
     case dict_get handlers t of
       None \<Rightarrow> py_raise ValueError (''No handler registered for job_type='' @ repr_str t)
     | Some handler \<Rightarrow>
         py_bind (execute_transition env JOB_RUNNING) (\<lambda>_.
         py_bind (executor_emit env job_started_event) (\<lambda>_.
         py_bind (persist env) (\<lambda>_.
         py_bind (run_handler env handler) (\<lambda>_.
         persist env)))))"

definition execute_job ::
    "('db, 'b) job_env \<Rightarrow> job_handlers \<Rightarrow> job \<Rightarrow> (('db, 'b) job_world, job) py" where
  "execute_job env handlers j =
     (\<lambda>w. case execute_body env handlers (j, w) of
        (Inl e, (_, w')) \<Rightarrow> (Inl e, w') | (Inr _, (j', w')) \<Rightarrow> (Inr j', w'))"

section \<open>The scheduler\<close>

definition scheduler_emit :: "('db, 'b) job_env \<Rightarrow> job_event \<Rightarrow> (('db, 'b) job_world, unit) py" where
  "scheduler_emit env e = on_sink (je_emit env e)"

definition submit ::
    "('db, 'b) job_env \<Rightarrow> string \<Rightarrow> string \<Rightarrow> (string, string) dict option \<Rightarrow> int \<Rightarrow> int
     \<Rightarrow> (('db, 'b) job_world, job) py" where
  "submit env workspace_id jtype payload priority max_retries =
     py_bind (job_uid env) (\<lambda>uid.
     py_bind (job_now env) (\<lambda>created.
     py_bind (job_now env) (\<lambda>updated.
     py_bind (py_lift (new_job uid created updated workspace_id jtype
       (case payload of None \<Rightarrow> [] | Some p \<Rightarrow> p) priority max_retries)) (\<lambda>j.
     py_bind (queue_enqueue env j) (\<lambda>_.
     py_bind (scheduler_emit env (JobCreated (job_id j) workspace_id jtype)) (\<lambda>_.
     py_return j))))))"

definition process_next ::
    "('db, 'b) job_env \<Rightarrow> job_handlers \<Rightarrow> (('db, 'b) job_world, job option) py" where
  "process_next env handlers =
     py_bind (queue_dequeue env) (\<lambda>next.
     case next of
       None \<Rightarrow> py_return None
     | Some j \<Rightarrow> py_bind (execute_job env handlers j) (\<lambda>j'. py_return (Some j')))"

text \<open>The loop of \<open>process_all\<close> with a bound on its rounds; \<open>None\<close> if the bound is exhausted.\<close>

fun process_all ::
    "('db, 'b) job_env \<Rightarrow> job_handlers \<Rightarrow> nat \<Rightarrow> ('db, 'b) job_world
     \<Rightarrow> ((exn + job list) \<times> ('db, 'b) job_world) option" where
  "process_all env handlers fuel w =
     (case queue_is_empty env w of
        (Inl e, w1) \<Rightarrow> Some (Inl e, w1)
      | (Inr drained, w1) \<Rightarrow>
          if drained then Some (Inr [], w1)
          else (case fuel of
             0 \<Rightarrow> None
           | Suc n \<Rightarrow>
               (case process_next env handlers w1 of
                  (Inl e, w2) \<Rightarrow> Some (Inl e, w2)
                | (Inr next, w2) \<Rightarrow>
                    (case process_all env handlers n w2 of
                       None \<Rightarrow> None
                     | Some (Inl e, w3) \<Rightarrow> Some (Inl e, w3)
                     | Some (Inr js, w3) \<Rightarrow>
                         Some (Inr (case next of None \<Rightarrow> js | Some j \<Rightarrow> j # js), w3)))))"

declare process_all.simps [simp del]

definition retry_job :: "('db, 'b) job_env \<Rightarrow> string \<Rightarrow> (('db, 'b) job_world, job option) py" where
  "retry_job env i =
     py_bind (on_db (repo_get_by_id (je_repo env) i)) (\<lambda>found.
     case found of
       None \<Rightarrow> py_return None
     | Some j \<Rightarrow>
         if \<not> job_can_retry j then py_return None
         else
           py_bind (job_now env) (\<lambda>now.
           py_bind (py_lift (case job_retry now j of (Inl e, _) \<Rightarrow> Inl e | (Inr _, j') \<Rightarrow> Inr j')) (\<lambda>j'.
           py_bind (on_db (repo_update (je_repo env) j')) (\<lambda>_.
           py_bind (queue_enqueue env j') (\<lambda>_.
           py_return (Some j'))))))"

definition cancel_job :: "('db, 'b) job_env \<Rightarrow> string \<Rightarrow> (('db, 'b) job_world, job option) py" where
  "cancel_job env i =
     py_bind (on_db (repo_get_by_id (je_repo env) i)) (\<lambda>found.
     case found of
       None \<Rightarrow> py_return None
     | Some j \<Rightarrow>
         if job_is_terminal j then py_return None
         else if \<not> can_transition (job_status j) JOB_CANCELLED then py_return None
         else
           py_bind (job_now env) (\<lambda>now.
           py_bind (py_lift (case transition_to now JOB_CANCELLED j of (Inl e, _) \<Rightarrow> Inl e | (Inr _, j') \<Rightarrow> Inr j')) (\<lambda>j'.
           py_bind (on_db (repo_update (je_repo env) j')) (\<lambda>_.
           py_bind (scheduler_emit env (JobCancelled (job_id j') (job_workspace_id j') (job_type j'))) (\<lambda>_.
           py_return (Some j'))))))"

definition get_job :: "('db, 'b) job_env \<Rightarrow> string \<Rightarrow> (('db, 'b) job_world, job option) py" where
  "get_job env i = on_db (repo_get_by_id (je_repo env) i)"

definition recover_pending :: "('db, 'b) job_env \<Rightarrow> (('db, 'b) job_world, job list) py" where
  "recover_pending env = on_db (repo_list_pending (je_repo env))"

section \<open>The dispatcher\<close>

definition dispatch_pipeline ::
    "('db, 'b) job_env \<Rightarrow> string \<Rightarrow> string \<Rightarrow> string \<Rightarrow> (string, string) dict option \<Rightarrow> int
     \<Rightarrow> (('db, 'b) job_world, job) py" where
  "dispatch_pipeline env workspace_id pipeline_id document_id payload priority =
     submit env workspace_id ''pipeline''
       (Some (dict_update [(''pipeline_id'', pipeline_id), (''document_id'', document_id)]
         (case payload of None \<Rightarrow> [] | Some p \<Rightarrow> p)))
       priority 3"

end
