(* ===== verification/Job_Scheduling.thy ===== *)
theory Job_Scheduling
  imports Job_Scheduler
begin

text \<open>
  What the scheduler guarantees over any repository that keeps the contract \<open>job_repository\<close>, and
  through the refinement of the SQLite repository over any session with the documented
  behaviour: every pending job is executed once, in descending priority, and stored with its
  outcome; what happens when a handler is missing, or when an event cannot be published.
\<close>

section \<open>Steps of the executor\<close>

lemma on_db_app [simp]: "on_db m w = (fst (m (jw_db w)), w\<lparr>jw_db := snd (m (jw_db w))\<rparr>)"
  by (simp add: on_db_def)

lemma on_sink_app [simp]: "on_sink m w = (fst (m (jw_sink w)), w\<lparr>jw_sink := snd (m (jw_sink w))\<rparr>)"
  by (simp add: on_sink_def)

lemma on_job_app [simp]: "on_job m (j, w) = (fst (m j), (snd (m j), w))"
  by (simp add: on_job_def)

lemma on_world_app [simp]: "on_world m (j, w) = (fst (m w), (j, snd (m w)))"
  by (simp add: on_world_def)

lemma job_now_app [simp]: "job_now env w = (Inr (je_now env (jw_ticks w)), w\<lparr>jw_ticks := Suc (jw_ticks w)\<rparr>)"
  by (simp add: job_now_def)

lemma job_uid_app [simp]: "job_uid env w = (Inr (je_uid env (jw_ticks w)), w\<lparr>jw_ticks := Suc (jw_ticks w)\<rparr>)"
  by (simp add: job_uid_def)

lemma execute_transition_app:
  "execute_transition env target (j, w) =
    (if can_transition (job_status j) target
     then (Inr (), (snd (transition_to (je_now env (jw_ticks w)) target j), w\<lparr>jw_ticks := Suc (jw_ticks w)\<rparr>))
     else (Inl (Exn ValueError (''Cannot transition job from '' @ job_status_value (job_status j)
       @ '' to '' @ job_status_value target)), (j, w)))"
  by (simp add: execute_transition_def py_bind_split transition_to_cases)

text \<open>Event buses whose publish calls return.\<close>

definition events_quiet :: "('db, 'b) job_env \<Rightarrow> bool" where
  "events_quiet env =
     ((\<forall>e b. fst (je_emit env e b) = Inr ()) \<and> (\<forall>e b. fst (je_exec_emit env e b) = Inr ()))"

lemma executor_emit_app:
  "executor_emit env ev (j, w) =
    (fst (je_exec_emit env (ev j) (jw_sink w)), (j, w\<lparr>jw_sink := snd (je_exec_emit env (ev j) (jw_sink w))\<rparr>))"
  by (simp add: executor_emit_def py_bind_split)

text \<open>The scheduler, its queue and its executor share one repository.\<close>

definition wired :: "'db job_repo \<Rightarrow> ('db, 'b) job_env \<Rightarrow> bool" where
  "wired R env = (je_repo env = R \<and> je_exec_repo env = Some R \<and> events_quiet env)"

text \<open>What identifies a job: no step of the executor changes it, and no handler may.\<close>

definition same_identity :: "job \<Rightarrow> job \<Rightarrow> bool" where
  "same_identity j j' =
     (job_id j' = job_id j \<and> job_workspace_id j' = job_workspace_id j \<and> job_type j' = job_type j \<and>
      job_created_at j' = job_created_at j \<and> job_priority j' = job_priority j)"

definition handler_ok :: "job_handler \<Rightarrow> bool" where
  "handler_ok h =
     (\<forall>j. job_ok j \<longrightarrow> same_identity j (snd (h j)) \<and> job_status (snd (h j)) = job_status j \<and> job_ok (snd (h j)))"

lemma same_identity_refl [simp]: "same_identity j j"
  by (simp add: same_identity_def)

lemma same_identity_trans: "same_identity i j \<Longrightarrow> same_identity j k \<Longrightarrow> same_identity i k"
  by (simp add: same_identity_def)

lemma same_identity_merge: "same_identity j j' \<Longrightarrow> job_merge j j' = j'"
  by (simp add: same_identity_def job_merge_def)

lemma transition_identity: "same_identity j (snd (transition_to now t j)) \<and> (job_ok (snd (transition_to now t j)) \<longleftrightarrow> job_ok j)"
  by (simp add: transition_to_cases same_identity_def job_ok_def)

lemma same_identity_outcome:
  "same_identity j (k\<lparr>job_result := r\<rparr>) = same_identity j k"
  "same_identity j (k\<lparr>job_error_message := r\<rparr>) = same_identity j k"
  "job_ok (k\<lparr>job_result := r\<rparr>) = job_ok k" "job_ok (k\<lparr>job_error_message := r\<rparr>) = job_ok k"
  by (simp_all add: same_identity_def job_ok_def)

text \<open>How a job stands after its handler: completed with its result or failed with its error.\<close>

definition outcome_ok :: "job_handler \<Rightarrow> job \<Rightarrow> job \<Rightarrow> bool" where
  "outcome_ok h running j' =
     (case fst (h running) of
        Inl e \<Rightarrow> job_status j' = JOB_FAILED \<and> job_error_message j' = exn_str e
      | Inr r \<Rightarrow> job_status j' = JOB_COMPLETED \<and> job_result j' = (case r of None \<Rightarrow> [] | Some t \<Rightarrow> t))"

lemma run_handler_quiet:
  assumes "events_quiet env" and "handler_ok h" and "job_ok j" and "job_status j = JOB_RUNNING"
  shows "\<exists>j' w'. run_handler env h (j, w) = (Inr (), (j', w')) \<and> same_identity j j' \<and> job_ok j' \<and>
    outcome_ok h j j' \<and> jw_db w' = jw_db w"
proof -
  let ?k = "snd (h j)"
  have k: "same_identity j ?k" "job_status ?k = JOB_RUNNING" "job_ok ?k"
    using assms(2-4) by (auto simp: handler_ok_def)
  have quiet: "fst (je_exec_emit env e b) = Inr ()" for e b using assms(1) by (simp add: events_quiet_def)
  show ?thesis
  proof (cases "fst (h j)")
    case (Inl e)
    let ?m = "?k\<lparr>job_error_message := exn_str e\<rparr>"
    have "same_identity j (snd (transition_to t JOB_FAILED ?m))" "job_ok (snd (transition_to t JOB_FAILED ?m))" for t
      using transition_identity [of ?m t JOB_FAILED] k same_identity_trans [of j ?m]
      by (simp_all add: same_identity_outcome)
    then show ?thesis
      using Inl k(2)
      by (simp add: run_handler_def py_try_split py_bind_split execute_transition_app executor_emit_app quiet
          can_transition_def outcome_ok_def transition_to_cases)
  next
    case (Inr r)
    let ?m = "?k\<lparr>job_result := (case r of None \<Rightarrow> [] | Some t \<Rightarrow> t)\<rparr>"
    have "same_identity j (snd (transition_to t JOB_COMPLETED ?m))" "job_ok (snd (transition_to t JOB_COMPLETED ?m))" for t
      using transition_identity [of ?m t JOB_COMPLETED] k same_identity_trans [of j ?m]
      by (simp_all add: same_identity_outcome)
    then show ?thesis
      using Inr k(2)
      by (simp add: run_handler_def py_try_split py_bind_split execute_transition_app executor_emit_app quiet
          can_transition_def outcome_ok_def transition_to_cases)
  qed
qed

lemma pending_jobs_upd:
  assumes "m (job_id j) = Some j" and "\<not> is_pending j'" and "job_id j' = job_id j"
  shows "pending_jobs (m(job_id j := Some j')) = pending_jobs m - {j}"
  using assms by (auto simp: pending_jobs_def split: if_splits)

text \<open>What a call of \<open>process_all\<close> that drains the queue has done.\<close>

definition drained :: "(string \<Rightarrow> job option) \<Rightarrow> (string \<Rightarrow> job option) \<Rightarrow> job list \<Rightarrow> bool" where
  "drained m m' js =
     (pending_jobs m' = {} \<and> length js = card (pending_jobs m) \<and> distinct (map job_id js) \<and>
      job_id ` set js = job_id ` pending_jobs m \<and> sorted_desc job_priority js \<and>
      (\<forall>k \<in> set js. \<exists>p \<in> pending_jobs m. same_identity p k) \<and>
      (\<forall>k \<in> set js. m' (job_id k) = Some k \<and> job_status k \<in> {JOB_COMPLETED, JOB_FAILED}) \<and>
      (\<forall>i. i \<notin> job_id ` pending_jobs m \<longrightarrow> m' i = m i))"

lemma drained_Nil: "pending_jobs m = {} \<Longrightarrow> drained m m []"
  by (simp add: drained_def sorted_desc_def)

lemma drained_Cons:
  assumes m: "m (job_id j) = Some j" "is_pending j" "finite (pending_jobs m)"
    and top: "\<forall>p \<in> pending_jobs m. job_priority p \<le> job_priority j"
    and j': "same_identity j j'" "job_status j' \<in> {JOB_COMPLETED, JOB_FAILED}"
    and rest: "drained (m(job_id j := Some j')) m' js"
  shows "drained m m' (j' # js)"
proof -
  have id': "job_id j' = job_id j" using j'(1) by (simp add: same_identity_def)
  have pend: "pending_jobs (m(job_id j := Some j')) = pending_jobs m - {j}"
    using j'(2) by (intro pending_jobs_upd m(1) id') (auto simp: is_pending_def)
  have j: "j \<in> pending_jobs m" using m by (simp add: pending_jobs_def)
  have other: "job_id j \<notin> job_id ` (pending_jobs m - {j})"
  proof
    assume "job_id j \<in> job_id ` (pending_jobs m - {j})"
    then obtain p where p: "p \<in> pending_jobs m - {j}" "job_id j = job_id p" by (elim imageE)
    then have "m (job_id j) = Some p" by (simp add: pending_jobs_def)
    with m(1) p(1) show False by simp
  qed
  have fresh: "job_id j \<notin> job_id ` set js" using rest other by (simp add: drained_def pend)
  have "card (pending_jobs m) = Suc (card (pending_jobs m - {j}))" by (rule card_Suc_Diff1 [OF m(3) j, symmetric])
  moreover have "m' (job_id j') = Some j'" using rest other by (simp add: drained_def pend id')
  moreover have "job_priority k \<le> job_priority j'" if "k \<in> set js" for k
    using rest that top j'(1) by (fastforce simp: drained_def pend same_identity_def)
  moreover have "insert (job_id j) (job_id ` (pending_jobs m - {j})) = job_id ` pending_jobs m" using j by auto
  moreover have "m' i = m i" if "i \<notin> job_id ` pending_jobs m" for i
  proof -
    have "i \<noteq> job_id j" "i \<notin> job_id ` (pending_jobs m - {j})" using that j by auto
    then show ?thesis using rest by (simp add: drained_def pend)
  qed
  ultimately show ?thesis
    using rest fresh j j' id' by (auto simp: drained_def pend sorted_desc_def)
qed

text \<open>
  The completion event is published inside the \<open>try\<close>: if publishing raises, the handler asks for a
  transition from completed to failed, which raises in turn.
\<close>

lemma run_handler_event_fails:
  assumes "fst (h j) = Inr x" and "job_status (snd (h j)) = JOB_RUNNING"
    and loud: "\<And>i ws t r b. isl (fst (je_exec_emit env (JobCompleted i ws t r) b))"
  shows "\<exists>j' w'. run_handler env h (j, w) =
    (Inl (Exn ValueError ''Cannot transition job from completed to failed''), (j', w')) \<and> jw_db w' = jw_db w"
proof -
  obtain k where k: "snd (h j) = k" "job_status k = JOB_RUNNING" using assms(2) by simp
  let ?k = "k\<lparr>job_result := (case x of None \<Rightarrow> [] | Some t \<Rightarrow> t)\<rparr>"
  obtain m where m: "snd (transition_to (je_now env (jw_ticks w)) JOB_COMPLETED ?k) = m" "job_status m = JOB_COMPLETED"
    using k(2) by (simp add: transition_to_cases can_transition_def)
  obtain e where "fst (je_exec_emit env (job_completed_event m) (jw_sink w)) = Inl e"
    using loud [of "job_id m" "job_workspace_id m" "job_type m" "job_result m" "jw_sink w"]
    by (auto simp: job_completed_event_def isl_def)
  then show ?thesis
    using assms(1) k m
    by (simp add: run_handler_def py_try_split py_bind_split execute_transition_app executor_emit_app can_transition_def)
qed

section \<open>Over any repository\<close>

context job_repository
begin

abbreviation stored :: "('db, 'b) job_world \<Rightarrow> string \<Rightarrow> job option" where
  "stored w \<equiv> jobs (jw_db w)"

lemma persist_stored:
  assumes "je_exec_repo env = Some R" and "ok (jw_db w)" and "job_ok j" and "stored w (job_id j) = Some old" and "same_identity old j"
  shows "\<exists>w'. persist env (j, w) = (Inr (), (j, w')) \<and> ok (jw_db w') \<and> stored w' = (stored w)(job_id j := Some j) \<and>
    jw_sink w' = jw_sink w"
proof -
  obtain db' where "repo_update R j (jw_db w) = (Inr j, db')" "ok db'" "jobs db' = (stored w)(job_id j := Some j)"
    using update [OF assms(2-4)] same_identity_merge [OF assms(5)] by auto
  then show ?thesis using assms(1,4) by (simp add: persist_def py_bind_split get [OF assms(2)])
qed

lemma execute_job_pending:
  assumes "wired R env" and "ok (jw_db w)" and "stored w (job_id j) = Some j" and "is_pending j"
    and "dict_get handlers (job_type j) = Some h" and "handler_ok h"
  shows "\<exists>j' w' running. execute_job env handlers j w = (Inr j', w') \<and> ok (jw_db w') \<and>
    stored w' = (stored w)(job_id j := Some j') \<and> same_identity j j' \<and> outcome_ok h running j' \<and>
    running = snd (transition_to (je_now env (jw_ticks w)) JOB_RUNNING j)"
proof -
  let ?r = "snd (transition_to (je_now env (jw_ticks w)) JOB_RUNNING j)"
  have env: "je_exec_repo env = Some R" "events_quiet env" using assms(1) by (simp_all add: wired_def)
  then have quiet: "fst (je_exec_emit env e b) = Inr ()" for e b by (simp add: events_quiet_def)
  have j: "job_ok j" "can_transition (job_status j) JOB_RUNNING"
    using keyed [OF assms(2,3)] assms(4) by (simp_all add: is_pending_def can_transition_def)
  then have r: "same_identity j ?r" "job_ok ?r" "job_status ?r = JOB_RUNNING" "job_id ?r = job_id j"
    using transition_identity [of j _ JOB_RUNNING] by (auto simp: transition_to_cases)
  let ?w1 = "w\<lparr>jw_ticks := Suc (jw_ticks w), jw_sink := snd (je_exec_emit env (job_started_event ?r) (jw_sink w))\<rparr>"
  obtain w2 where w2: "persist env (?r, ?w1) = (Inr (), (?r, w2))" "ok (jw_db w2)"
    "stored w2 = (stored w)(job_id j := Some ?r)"
    using persist_stored [OF env(1), of ?w1 ?r j] r assms(2,3) by auto
  obtain j' w3 where j': "run_handler env h (?r, w2) = (Inr (), (j', w3))" "same_identity ?r j'" "job_ok j'"
    "outcome_ok h ?r j'" "jw_db w3 = jw_db w2"
    using run_handler_quiet [OF env(2) assms(6) r(2,3)] by blast
  have id': "job_id j' = job_id j" using j'(2) r(4) by (simp add: same_identity_def)
  obtain w4 where w4: "persist env (j', w3) = (Inr (), (j', w4))" "ok (jw_db w4)"
    "stored w4 = (stored w3)(job_id j' := Some j')"
    using persist_stored [OF env(1), of w3 j' ?r] j' w2 id' by auto
  have "execute_body env handlers (j, w) = (Inr (), (j', w4))"
    using assms(5) j(2) w2(1) j'(1) w4(1)
    by (simp add: execute_body_def py_bind_split execute_transition_app executor_emit_app quiet)
  moreover have "stored w4 = (stored w)(job_id j := Some j')"
    using w4(3) w2(3) j'(5) id' by (simp add: fun_eq_iff)
  ultimately show ?thesis
    using w4(2) j'(4) same_identity_trans [OF r(1) j'(2)] by (auto simp: execute_job_def)
qed

lemma dequeue_first:
  assumes "wired R env" and "ok (jw_db w)"
  shows "\<exists>js. set js = pending_jobs (stored w) \<and> sorted_desc job_priority js \<and> distinct js \<and>
    queue_dequeue env w = (Inr (case js of [] \<Rightarrow> None | j # _ \<Rightarrow> Some j), w) \<and>
    queue_is_empty env w = (Inr (js = []), w)"
proof -
  have R: "je_repo env = R" using assms(1) by (simp add: wired_def)
  obtain js where js: "repo_list_pending R (jw_db w) = (Inr js, jw_db w)" "distinct js"
    "set js = pending_jobs (stored w)" "sorted_desc job_priority js"
    using list_pending [OF assms(2)] by blast
  have "card (pending_jobs (stored w)) = 0 \<longleftrightarrow> js = []"
    using js(2,3) by (metis distinct_card length_0_conv)
  then have "queue_is_empty env w = (Inr (js = []), w)"
    by (simp add: queue_is_empty_def queue_size_def R py_bind_split count_pending [OF assms(2)])
  moreover have "queue_dequeue env w = (Inr (case js of [] \<Rightarrow> None | j # _ \<Rightarrow> Some j), w)"
    using js(1) by (cases js) (simp_all add: queue_dequeue_def R py_bind_split)
  ultimately show ?thesis using js by blast
qed

lemma pending_finite: "ok db \<Longrightarrow> finite (pending_jobs (jobs db))"
proof -
  assume "ok db"
  then have "finite (ran (jobs db))" by (rule finite_ran [OF bounded])
  then show ?thesis by (rule finite_subset [rotated]) (auto simp: pending_jobs_def ran_def)
qed

text \<open>The queue is read once; what happens then depends on the job it offers only.\<close>

lemma process_next_cases:
  assumes "wired R env" and "\<forall>t h. dict_get handlers t = Some h \<longrightarrow> handler_ok h" and "ok (jw_db w)"
  shows "case queue_dequeue env w of
      (Inr None, w1) \<Rightarrow> w1 = w \<and> pending_jobs (stored w) = {} \<and> process_next env handlers w = (Inr None, w)
    | (Inr (Some j), w1) \<Rightarrow> w1 = w \<and> j \<in> pending_jobs (stored w) \<and> (\<forall>p \<in> pending_jobs (stored w). job_priority p \<le> job_priority j) \<and>
        (case dict_get handlers (job_type j) of
           None \<Rightarrow> process_next env handlers w = (Inl (Exn ValueError (''No handler registered for job_type='' @ repr_str (job_type j))), w)
         | Some h \<Rightarrow> \<exists>j' w'. process_next env handlers w = (Inr (Some j'), w') \<and> ok (jw_db w') \<and>
             stored w' = (stored w)(job_id j := Some j') \<and> same_identity j j' \<and>
             outcome_ok h (snd (transition_to (je_now env (jw_ticks w)) JOB_RUNNING j)) j')
    | (Inl e, w1) \<Rightarrow> False"
proof -
  obtain js where js: "set js = pending_jobs (stored w)" "sorted_desc job_priority js"
    "queue_dequeue env w = (Inr (case js of [] \<Rightarrow> None | j # _ \<Rightarrow> Some j), w)"
    using dequeue_first [OF assms(1,3)] by blast
  show ?thesis
  proof (cases js)
    case Nil
    then show ?thesis using js by (simp add: process_next_def py_bind_split)
  next
    case (Cons j rest)
    then have j: "j \<in> pending_jobs (stored w)" "stored w (job_id j) = Some j" "is_pending j"
      using js(1) by (auto simp: pending_jobs_def)
    have top: "\<forall>p \<in> pending_jobs (stored w). job_priority p \<le> job_priority j"
      using sorted_desc_hd [OF js(2)] js(1) Cons by auto
    have offered: "process_next env handlers w = (case execute_job env handlers j w of (Inl e, w') \<Rightarrow> (Inl e, w') | (Inr j', w') \<Rightarrow> (Inr (Some j'), w'))"
      using js(3) Cons by (simp add: process_next_def py_bind_split split: prod.split sum.split)
    show ?thesis
    proof (cases "dict_get handlers (job_type j)")
      case None
      then show ?thesis using js(3) Cons j(1) top by (simp add: offered execute_job_def execute_body_def py_bind_split)
    next
      case (Some h)
      then have "handler_ok h" using assms(2) by blast
      from execute_job_pending [OF assms(1,3) j(2,3) Some this] show ?thesis using js(3) Cons j(1) top Some by (auto simp: offered)
    qed
  qed
qed

lemma process_next_pending:
  assumes "wired R env" and "\<forall>t h. dict_get handlers t = Some h \<longrightarrow> handler_ok h"
    and "ok (jw_db w)" and "pending_jobs (stored w) \<noteq> {}"
    and "\<forall>j \<in> pending_jobs (stored w). dict_has handlers (job_type j)"
  shows "\<exists>j j' w'. process_next env handlers w = (Inr (Some j'), w') \<and> ok (jw_db w') \<and>
    stored w' = (stored w)(job_id j := Some j') \<and> j \<in> pending_jobs (stored w) \<and>
    (\<forall>p \<in> pending_jobs (stored w). job_priority p \<le> job_priority j) \<and>
    same_identity j j' \<and> job_status j' \<in> {JOB_COMPLETED, JOB_FAILED} \<and>
    (\<exists>h running. dict_get handlers (job_type j) = Some h \<and> outcome_ok h running j' \<and>
      running = snd (transition_to (je_now env (jw_ticks w)) JOB_RUNNING j))"
proof -
  note cases = process_next_cases [OF assms(1-3)]
  obtain j where j: "queue_dequeue env w = (Inr (Some j), w)"
    using cases assms(4) by (auto split: prod.splits sum.splits option.splits)
  then obtain h where h: "dict_get handlers (job_type j) = Some h" using cases assms(5) by (fastforce simp: dict_has_def)
  obtain j' w' where run: "process_next env handlers w = (Inr (Some j'), w')" "ok (jw_db w')" "stored w' = (stored w)(job_id j := Some j')"
    "same_identity j j'" "outcome_ok h (snd (transition_to (je_now env (jw_ticks w)) JOB_RUNNING j)) j'"
    using cases j h by auto
  have "job_status j' \<in> {JOB_COMPLETED, JOB_FAILED}"
    using run(5) by (auto simp: outcome_ok_def split: sum.splits)
  then show ?thesis using run cases j h by auto
qed

lemma process_all_drains:
  assumes "wired R env" and "\<forall>t h. dict_get handlers t = Some h \<longrightarrow> handler_ok h"
    and "ok (jw_db w)" and "\<forall>j \<in> pending_jobs (stored w). dict_has handlers (job_type j)"
    and "card (pending_jobs (stored w)) \<le> fuel"
  shows "\<exists>js w'. process_all env handlers fuel w = Some (Inr js, w') \<and> ok (jw_db w') \<and> drained (stored w) (stored w') js"
  using assms(3-5)
proof (induction fuel arbitrary: w)
  case 0
  then have empty: "pending_jobs (stored w) = {}" using pending_finite by simp
  then have "queue_is_empty env w = (Inr True, w)" using dequeue_first [OF assms(1) 0(1)] by force
  with drained_Nil [OF empty] 0(1) show ?case by (simp add: process_all.simps)
next
  case (Suc n)
  show ?case
  proof (cases "pending_jobs (stored w) = {}")
    case True
    then have "queue_is_empty env w = (Inr True, w)" using dequeue_first [OF assms(1) Suc.prems(1)] by force
    with drained_Nil [OF True] Suc.prems(1) show ?thesis by (simp add: process_all.simps)
  next
    case False
    then have nonempty: "queue_is_empty env w = (Inr False, w)" using dequeue_first [OF assms(1) Suc.prems(1)] by force
    obtain j j' w' where step: "process_next env handlers w = (Inr (Some j'), w')" "ok (jw_db w')"
      "stored w' = (stored w)(job_id j := Some j')" "j \<in> pending_jobs (stored w)"
      "\<forall>p \<in> pending_jobs (stored w). job_priority p \<le> job_priority j"
      "same_identity j j'" "job_status j' \<in> {JOB_COMPLETED, JOB_FAILED}"
      using process_next_pending [OF assms(1,2) Suc.prems(1) False Suc.prems(2)] by blast
    have j: "stored w (job_id j) = Some j" "is_pending j" using step(4) by (simp_all add: pending_jobs_def)
    have pend: "pending_jobs (stored w') = pending_jobs (stored w) - {j}"
      unfolding step(3) using step(6,7) by (intro pending_jobs_upd j(1)) (auto simp: is_pending_def same_identity_def)
    have fin: "finite (pending_jobs (stored w))" using pending_finite [OF Suc.prems(1)] .
    have "card (pending_jobs (stored w')) \<le> n" using Suc.prems(3) step(4) fin by (simp add: pend)
    moreover have "\<forall>j \<in> pending_jobs (stored w'). dict_has handlers (job_type j)" using Suc.prems(2) pend by blast
    ultimately obtain js w'' where rest: "process_all env handlers n w' = Some (Inr js, w'')" "ok (jw_db w'')"
      "drained (stored w') (stored w'') js" using Suc.IH [OF step(2)] by blast
    have "drained (stored w) (stored w'') (j' # js)"
      using rest(3) unfolding step(3) by (rule drained_Cons [OF j fin step(5,6,7)])
    with rest(1,2) nonempty step(1) show ?thesis by (simp add: process_all.simps [of env handlers "Suc n" w])
  qed
qed

text \<open>Blocking at the head: without a handler for the first pending job nothing is processed.\<close>

lemma process_next_blocked:
  assumes "wired R env" and "ok (jw_db w)" and "j \<in> pending_jobs (stored w)"
    and "\<forall>p \<in> pending_jobs (stored w). p \<noteq> j \<longrightarrow> job_priority p < job_priority j"
    and "\<not> dict_has handlers (job_type j)"
  shows "process_next env handlers w =
    (Inl (Exn ValueError (''No handler registered for job_type='' @ repr_str (job_type j))), w)"
proof -
  obtain js where js: "set js = pending_jobs (stored w)" "sorted_desc job_priority js"
    "queue_dequeue env w = (Inr (case js of [] \<Rightarrow> None | j # _ \<Rightarrow> Some j), w)"
    using dequeue_first [OF assms(1,2)] by blast
  then obtain k rest where hd: "js = k # rest" using assms(3) by (cases js) auto
  have "job_priority j \<le> job_priority k" using sorted_desc_hd [OF js(2)] js(1) assms(3) hd by auto
  moreover have "k \<in> pending_jobs (stored w)" using js(1) hd by auto
  ultimately have "k = j" using assms(4) by force
  with js(3) hd assms(5) show ?thesis
    by (simp add: process_next_def py_bind_split execute_job_def execute_body_def dict_has_def)
qed

lemma retry_job_stored:
  assumes "wired R env" and "ok (jw_db w)"
  shows "case stored w i of
      None \<Rightarrow> retry_job env i w = (Inr None, w)
    | Some j \<Rightarrow>
        if job_can_retry j
        then \<exists>j' w'. retry_job env i w = (Inr (Some j'), w') \<and> ok (jw_db w') \<and> stored w' = (stored w)(i := Some j') \<and>
          job_status j' = JOB_PENDING \<and> job_error_message j' = [] \<and> same_identity j j' \<and> job_attempts j' = job_attempts j
        else retry_job env i w = (Inr None, w)"
proof (cases "stored w i")
  case None
  with assms show ?thesis by (simp add: retry_job_def wired_def py_bind_split get)
next
  case (Some j)
  note j = keyed [OF assms(2) Some]
  have env: "je_repo env = R" using assms(1) by (simp add: wired_def)
  show ?thesis
  proof (cases "job_can_retry j")
    case False
    with Some show ?thesis by (simp add: retry_job_def env py_bind_split get [OF assms(2)])
  next
    case True
    obtain k where j': "job_retry (je_now env (jw_ticks w)) j = (Inr (), k)" "same_identity j k" "job_ok k" "job_id k = i"
      "job_status k = JOB_PENDING" "job_error_message k = []" "job_attempts k = job_attempts j"
      using True j by (simp add: job_retry_cases same_identity_def job_ok_def)
    obtain db1 where db1: "repo_update R k (jw_db w) = (Inr k, db1)" "ok db1" "jobs db1 = (stored w)(i := Some k)"
      using update [OF assms(2) j'(3), of j] Some j'(4) same_identity_merge [OF j'(2)] by auto
    obtain db2 where db2: "repo_update R k db1 = (Inr k, db2)" "ok db2" "jobs db2 = (stored w)(i := Some k)"
      using update [OF db1(2) j'(3), of k] db1(3) j'(4) same_identity_merge [of k k] by auto
    have "retry_job env i w = (Inr (Some k), w\<lparr>jw_ticks := Suc (jw_ticks w), jw_db := db2\<rparr>)"
      using True Some j'(1,4,5) db1 db2
      by (simp add: retry_job_def env py_bind_split get [OF assms(2)] get [OF db1(2)] queue_enqueue_def)
    with db2 True Some j' show ?thesis by simp
  qed
qed

lemma cancel_job_stored:
  assumes "wired R env" and "ok (jw_db w)"
  shows "case stored w i of
      None \<Rightarrow> cancel_job env i w = (Inr None, w)
    | Some j \<Rightarrow>
        if job_status j \<in> {JOB_PENDING, JOB_RUNNING}
        then \<exists>j' w'. cancel_job env i w = (Inr (Some j'), w') \<and> ok (jw_db w') \<and> stored w' = (stored w)(i := Some j') \<and>
          job_status j' = JOB_CANCELLED \<and> same_identity j j'
        else cancel_job env i w = (Inr None, w)"
proof (cases "stored w i")
  case None
  with assms show ?thesis by (simp add: cancel_job_def wired_def py_bind_split get)
next
  case (Some j)
  note j = keyed [OF assms(2) Some]
  have env: "je_repo env = R" "\<And>e b. fst (je_emit env e b) = Inr ()"
    using assms(1) by (simp_all add: wired_def events_quiet_def)
  show ?thesis
  proof (cases "job_status j \<in> {JOB_PENDING, JOB_RUNNING}")
    case False
    then have "\<not> can_transition (job_status j) JOB_CANCELLED" by (cases "job_status j") (auto simp: can_transition_def)
    with False Some show ?thesis by (simp add: cancel_job_def env py_bind_split get [OF assms(2)])
  next
    case True
    then have can: "can_transition (job_status j) JOB_CANCELLED" "\<not> job_is_terminal j"
      by (auto simp: can_transition_def job_is_terminal_def)
    obtain k where j': "transition_to (je_now env (jw_ticks w)) JOB_CANCELLED j = (Inr (), k)" "same_identity j k" "job_ok k"
      "job_id k = i" "job_status k = JOB_CANCELLED"
      using can j by (simp add: transition_to_cases same_identity_def job_ok_def)
    obtain db1 where db1: "repo_update R k (jw_db w) = (Inr k, db1)" "ok db1" "jobs db1 = (stored w)(i := Some k)"
      using update [OF assms(2) j'(3), of j] Some j'(4) same_identity_merge [OF j'(2)] by auto
    have "\<exists>w'. cancel_job env i w = (Inr (Some k), w') \<and> jw_db w' = db1"
      using can Some j'(1) db1(1) env(2)
      by (simp add: cancel_job_def env(1) py_bind_split get [OF assms(2)] scheduler_emit_def)
    with db1 True Some j' show ?thesis by auto
  qed
qed

lemma submit_stored:
  assumes "wired R env" and "ok (jw_db w)" and "ws \<noteq> []" and "stored w (je_uid env (jw_ticks w)) = None"
    and "payload = None \<or> payload = Some p" and "dict_wf p"
  shows "\<exists>j w'. submit env ws t payload prio mr w = (Inr j, w') \<and> ok (jw_db w') \<and>
    stored w' = (stored w)(je_uid env (jw_ticks w) := Some j) \<and> is_pending j \<and> job_type j = t \<and>
    job_workspace_id j = ws \<and> job_priority j = prio \<and> job_max_retries j = mr \<and> job_attempts j = 0 \<and>
    job_id j = je_uid env (jw_ticks w) \<and> job_payload j = (case payload of None \<Rightarrow> [] | Some q \<Rightarrow> q)"
proof -
  have env: "je_repo env = R" "\<And>e b. fst (je_emit env e b) = Inr ()"
    using assms(1) by (simp_all add: wired_def events_quiet_def)
  let ?t = "jw_ticks w"
  let ?q = "case payload of None \<Rightarrow> [] | Some q \<Rightarrow> q"
  obtain j where j: "new_job (je_uid env ?t) (je_now env (Suc ?t)) (je_now env (Suc (Suc ?t))) ws t ?q prio mr = Inr j"
    "job_ok j" "is_pending j" "job_type j = t" "job_workspace_id j = ws" "job_priority j = prio"
    "job_max_retries j = mr" "job_attempts j = 0" "job_id j = je_uid env ?t" "job_payload j = ?q"
    using assms(3,5,6) by (auto simp: new_job_def job_post_init_def job_ok_def is_pending_def)
  obtain db1 where db1: "repo_create R j (jw_db w) = (Inr j, db1)" "ok db1" "jobs db1 = (stored w)(job_id j := Some j)"
    using create [OF assms(2) j(2)] assms(4) j(9) by auto
  have "\<exists>w'. submit env ws t payload prio mr w = (Inr j, w') \<and> jw_db w' = db1"
    using j(1,3,9) db1(1) assms(4) env
    by (simp add: submit_def py_bind_split queue_enqueue_def is_pending_def get [OF assms(2)] scheduler_emit_def)
  with db1 j show ?thesis by auto
qed

lemma execute_job_event_fails:
  assumes "je_exec_repo env = Some R" and "ok (jw_db w)" and "stored w (job_id j) = Some j" and "is_pending j"
    and "dict_get handlers (job_type j) = Some h" and "handler_ok h" and "\<forall>k. \<not> isl (fst (h k))"
    and quiet: "\<And>i ws t b. fst (je_exec_emit env (JobStarted i ws t) b) = Inr ()"
    and loud: "\<And>i ws t r b. isl (fst (je_exec_emit env (JobCompleted i ws t r) b))"
  shows "\<exists>w' r. execute_job env handlers j w =
      (Inl (Exn ValueError ''Cannot transition job from completed to failed''), w') \<and>
    stored w' = (stored w)(job_id j := Some r) \<and> job_status r = JOB_RUNNING"
proof -
  let ?r = "snd (transition_to (je_now env (jw_ticks w)) JOB_RUNNING j)"
  have j: "job_ok j" "can_transition (job_status j) JOB_RUNNING"
    using keyed [OF assms(2,3)] assms(4) by (simp_all add: is_pending_def can_transition_def)
  then have r: "same_identity j ?r" "job_ok ?r" "job_status ?r = JOB_RUNNING" "job_id ?r = job_id j"
    using transition_identity [of j _ JOB_RUNNING] by (auto simp: transition_to_cases)
  let ?w1 = "w\<lparr>jw_ticks := Suc (jw_ticks w), jw_sink := snd (je_exec_emit env (job_started_event ?r) (jw_sink w))\<rparr>"
  obtain w2 where w2: "persist env (?r, ?w1) = (Inr (), (?r, w2))" "stored w2 = (stored w)(job_id j := Some ?r)"
    using persist_stored [OF assms(1), of ?w1 ?r j] r assms(2,3) by auto
  obtain x where x: "fst (h ?r) = Inr x" using assms(7) by (metis sum.collapse(2))
  have k: "job_status (snd (h ?r)) = JOB_RUNNING" using assms(6) r(2,3) by (simp add: handler_ok_def)
  obtain j' w3 where run: "run_handler env h (?r, w2) =
      (Inl (Exn ValueError ''Cannot transition job from completed to failed''), (j', w3))" "jw_db w3 = jw_db w2"
    using run_handler_event_fails [of h ?r x env w2, OF x k loud] by blast
  have "execute_job env handlers j w =
      (Inl (Exn ValueError ''Cannot transition job from completed to failed''), w3)"
    using assms(5) j(2) w2(1) run(1)
    by (simp add: execute_job_def execute_body_def py_bind_split execute_transition_app executor_emit_app
        quiet job_started_event_def)
  then show ?thesis using run(2) w2(2) r(3) by auto
qed

end

section \<open>Properties\<close>

abbreviation job_table :: "('db \<Rightarrow> string \<Rightarrow> job_row option) \<Rightarrow> ('db, 'b) job_world \<Rightarrow> string \<Rightarrow> job option" where
  "job_table rows w \<equiv> jobs_of_rows (rows (jw_db w))"

text \<open>C1: \<open>process_all\<close> terminates, within as many rounds as there are pending jobs, when every
  pending job has a handler; it executes each of them exactly once, in descending priority,
  stores each as completed or failed, leaves no job pending and no other job changed.\<close>

theorem process_all_correct:
  assumes "sql_session S rows" and "wired (sqlite_job_repo S) env" and "rows_ok (rows (jw_db w))"
    and "\<forall>t h. dict_get handlers t = Some h \<longrightarrow> handler_ok h"
    and "\<forall>j \<in> pending_jobs (job_table rows w). dict_has handlers (job_type j)"
    and "card (pending_jobs (job_table rows w)) \<le> fuel"
  shows "\<exists>js w'. process_all env handlers fuel w = Some (Inr js, w') \<and>
    pending_jobs (job_table rows w') = {} \<and> length js = card (pending_jobs (job_table rows w)) \<and>
    distinct (map job_id js) \<and> job_id ` set js = job_id ` pending_jobs (job_table rows w) \<and>
    sorted_desc job_priority js \<and>
    (\<forall>k \<in> set js. job_table rows w' (job_id k) = Some k \<and> job_status k \<in> {JOB_COMPLETED, JOB_FAILED}) \<and>
    (\<forall>i. i \<notin> job_id ` pending_jobs (job_table rows w) \<longrightarrow> job_table rows w' i = job_table rows w i)"
  using job_repository.process_all_drains [OF sql_session.sqlite_refines [OF assms(1)] assms(2,4) assms(3,5,6)]
  unfolding drained_def by blast

text \<open>C27: \<open>process_next\<close> does what the job asks for that the queue offers, a pending job of the highest priority, and for
  no other: with nothing pending it returns nothing and changes nothing; a job whose type has no handler makes it raise, and
  nothing changes; otherwise the job is stored as completed with the text its handler returned, or as failed with the text of
  the exception it raised, and all other jobs stay as they were. (Handlers leave the identity and the status of the job alone.)\<close>

theorem process_next_outcome:
  assumes "sql_session S rows" and "wired (sqlite_job_repo S) env" and "rows_ok (rows (jw_db w))"
    and "\<forall>t h. dict_get handlers t = Some h \<longrightarrow> handler_ok h"
  shows "case queue_dequeue env w of
      (Inr None, _) \<Rightarrow> pending_jobs (job_table rows w) = {} \<and> process_next env handlers w = (Inr None, w)
    | (Inr (Some j), _) \<Rightarrow>
        j \<in> pending_jobs (job_table rows w) \<and> (\<forall>p \<in> pending_jobs (job_table rows w). job_priority p \<le> job_priority j) \<and>
        (case dict_get handlers (job_type j) of
           None \<Rightarrow> process_next env handlers w = (Inl (Exn ValueError (''No handler registered for job_type='' @ repr_str (job_type j))), w)
         | Some h \<Rightarrow> \<exists>j' w'. process_next env handlers w = (Inr (Some j'), w') \<and>
             job_table rows w' = (job_table rows w)(job_id j := Some j') \<and> same_identity j j' \<and>
             (case fst (h (snd (transition_to (je_now env (jw_ticks w)) JOB_RUNNING j))) of
                Inl e \<Rightarrow> job_status j' = JOB_FAILED \<and> job_error_message j' = exn_str e
              | Inr r \<Rightarrow> job_status j' = JOB_COMPLETED \<and> job_result j' = (case r of None \<Rightarrow> [] | Some t \<Rightarrow> t)))
    | (Inl e, _) \<Rightarrow> False"
  using job_repository.process_next_cases [OF sql_session.sqlite_refines [OF assms(1)] assms(2,4) assms(3)]
  unfolding outcome_ok_def [symmetric] by (auto split: prod.splits sum.splits option.splits)

text \<open>A pending job of the highest priority without a handler blocks the queue: \<open>process_next\<close>
  raises, the job stays pending, and so does every job behind it.\<close>

theorem process_next_head_blocks:
  assumes "sql_session S rows" and "wired (sqlite_job_repo S) env" and "rows_ok (rows (jw_db w))"
    and "j \<in> pending_jobs (job_table rows w)"
    and "\<forall>p \<in> pending_jobs (job_table rows w). p \<noteq> j \<longrightarrow> job_priority p < job_priority j"
    and "\<not> dict_has handlers (job_type j)"
  shows "process_next env handlers w =
    (Inl (Exn ValueError (''No handler registered for job_type='' @ repr_str (job_type j))), w)"
  using job_repository.process_next_blocked [OF sql_session.sqlite_refines [OF assms(1)] assms(2) assms(3,4,5,6)] .

text \<open>\<open>retry_job\<close> resets exactly the failed jobs with attempts left, clears their error and
  stores them as pending; for any other id it returns nothing and changes nothing.\<close>

theorem retry_job_correct:
  assumes "sql_session S rows" and "wired (sqlite_job_repo S) env" and "rows_ok (rows (jw_db w))"
  shows "case job_table rows w i of
      None \<Rightarrow> retry_job env i w = (Inr None, w)
    | Some j \<Rightarrow>
        if job_status j = JOB_FAILED \<and> job_attempts j < job_max_retries j
        then \<exists>j' w'. retry_job env i w = (Inr (Some j'), w') \<and>
          job_table rows w' = (job_table rows w)(i := Some j') \<and>
          job_status j' = JOB_PENDING \<and> job_error_message j' = [] \<and> job_attempts j' = job_attempts j
        else retry_job env i w = (Inr None, w)"
  using job_repository.retry_job_stored [OF sql_session.sqlite_refines [OF assms(1)] assms(2) assms(3), of i]
  unfolding job_can_retry_def by (fastforce split: option.splits if_splits)

text \<open>\<open>cancel_job\<close> cancels exactly the pending and the running jobs; for any other id it returns
  nothing and changes nothing.\<close>

theorem cancel_job_correct:
  assumes "sql_session S rows" and "wired (sqlite_job_repo S) env" and "rows_ok (rows (jw_db w))"
  shows "case job_table rows w i of
      None \<Rightarrow> cancel_job env i w = (Inr None, w)
    | Some j \<Rightarrow>
        if job_status j \<in> {JOB_PENDING, JOB_RUNNING}
        then \<exists>j' w'. cancel_job env i w = (Inr (Some j'), w') \<and>
          job_table rows w' = (job_table rows w)(i := Some j') \<and> job_status j' = JOB_CANCELLED
        else cancel_job env i w = (Inr None, w)"
  using job_repository.cancel_job_stored [OF sql_session.sqlite_refines [OF assms(1)] assms(2) assms(3), of i]
  by (fastforce split: option.splits if_splits)

text \<open>Dispatching a pipeline stores a new pending job of type \<open>pipeline\<close> whose payload names the
  pipeline and the document, unless the caller's payload overrides them.\<close>

theorem dispatch_pipeline_stored:
  assumes "sql_session S rows" and "wired (sqlite_job_repo S) env" and "rows_ok (rows (jw_db w))"
    and "ws \<noteq> []" and "job_table rows w (je_uid env (jw_ticks w)) = None"
  shows "\<exists>j w'. dispatch_pipeline env ws pid did payload prio w = (Inr j, w') \<and>
    job_table rows w' = (job_table rows w)(je_uid env (jw_ticks w) := Some j) \<and>
    j \<in> pending_jobs (job_table rows w') \<and> job_type j = ''pipeline'' \<and> job_priority j = prio \<and>
    (\<forall>k. dict_get (job_payload j) k =
      (case dict_get (rev (case payload of None \<Rightarrow> [] | Some p \<Rightarrow> p)) k of
         Some v \<Rightarrow> Some v
       | None \<Rightarrow> if k = ''pipeline_id'' then Some pid else if k = ''document_id'' then Some did else None))"
proof -
  let ?p = "dict_update [(''pipeline_id'', pid), (''document_id'', did)] (case payload of None \<Rightarrow> [] | Some p \<Rightarrow> p)"
  have "dict_wf ?p" by (rule dict_wf_update) (simp add: dict_wf_def)
  from job_repository.submit_stored [OF sql_session.sqlite_refines [OF assms(1)] assms(2-5) disjI2 [OF refl] this]
  obtain j w' where j: "submit env ws ''pipeline'' (Some ?p) prio 3 w = (Inr j, w')"
    "job_table rows w' = (job_table rows w)(je_uid env (jw_ticks w) := Some j)" "is_pending j"
    "job_type j = ''pipeline''" "job_priority j = prio" "job_id j = je_uid env (jw_ticks w)" "job_payload j = ?p"
    by (metis option.simps(5))
  then show ?thesis
    by (auto simp: dispatch_pipeline_def pending_jobs_def dict_get_update split: option.splits)
qed

text \<open>If the completion event cannot be published, a job whose handler succeeded is not stored as
  completed: the call raises an error about its own transition and the job stays running.\<close>

theorem completed_event_fails:
  assumes "sql_session S rows" and "je_exec_repo env = Some (sqlite_job_repo S)" and "rows_ok (rows (jw_db w))"
    and "job_table rows w (job_id j) = Some j" and "is_pending j"
    and "dict_get handlers (job_type j) = Some h" and "handler_ok h" and "\<forall>k. \<not> isl (fst (h k))"
    and "\<And>i ws t b. fst (je_exec_emit env (JobStarted i ws t) b) = Inr ()"
    and "\<And>i ws t r b. isl (fst (je_exec_emit env (JobCompleted i ws t r) b))"
  shows "\<exists>w' r. execute_job env handlers j w =
      (Inl (Exn ValueError ''Cannot transition job from completed to failed''), w') \<and>
    job_table rows w' = (job_table rows w)(job_id j := Some r) \<and> job_status r = JOB_RUNNING"
  using job_repository.execute_job_event_fails [OF sql_session.sqlite_refines [OF assms(1)] assms(2-8) assms(9,10)] .

section \<open>Witnesses\<close>

definition sample_env :: "(job_row list, job_event list) job_env" where
  "sample_env = \<lparr>je_repo = sqlite_job_repo list_session, je_exec_repo = Some (sqlite_job_repo list_session),
     je_emit = (\<lambda>e. py_modify (\<lambda>l. l @ [e])), je_exec_emit = (\<lambda>e. py_modify (\<lambda>l. l @ [e])),
     je_now = int, je_uid = (\<lambda>n. ''id'' @ nat_str n)\<rparr>"

definition sample_job_list :: "job list" where
  "sample_job_list = [sample_job, sample_job\<lparr>job_id := ''j2'', job_priority := 5\<rparr>,
     sample_job\<lparr>job_id := ''j3'', job_status := JOB_FAILED, job_attempts := 1\<rparr>]"

definition sample_jobs :: "job_row list" where
  "sample_jobs = map row_of_job sample_job_list"

definition sample_jobs_world :: "(job_row list, job_event list) job_world" where
  "sample_jobs_world = \<lparr>jw_db = sample_jobs, jw_sink = [], jw_ticks = 0\<rparr>"

definition done_handler :: job_handler where
  "done_handler = py_return (Some ''done'')"

lemma sample_env_wired: "wired (sqlite_job_repo list_session) sample_env"
  by (simp add: wired_def sample_env_def events_quiet_def)

lemma sample_job_status [simp]: "job_status sample_job = JOB_PENDING" "job_id sample_job = ''j1''"
  "job_type sample_job = ''pipeline''" "job_priority sample_job = 0" "job_max_retries sample_job = 3"
  by (simp_all add: sample_job_def)

lemma job_ok_fields: "job_ok (sample_job\<lparr>job_id := i, job_priority := p\<rparr>)"
  "job_ok (sample_job\<lparr>job_id := i, job_status := s, job_attempts := a\<rparr>)"
  by (simp_all add: job_ok_def sample_job_def)

lemma sample_rows_ok: "rows_ok (list_rows_of (jw_db sample_jobs_world))"
  unfolding rows_ok_def
proof (intro allI impI)
  fix i r assume "list_rows_of (jw_db sample_jobs_world) i = Some r"
  then have "r \<in> set sample_jobs" by (auto simp: list_rows_of_def sample_jobs_world_def dest: find_key)
  moreover have "\<forall>j \<in> set sample_job_list. job_ok j"
    by (simp add: sample_job_list_def sample_job_ok job_ok_fields)
  ultimately show "\<exists>j. job_ok j \<and> r = row_of_job j" unfolding sample_jobs_def by auto
qed

lemma sample_table:
  "job_table list_rows_of sample_jobs_world i =
    (if i = ''j1'' then Some sample_job
     else if i = ''j2'' then Some (sample_job\<lparr>job_id := ''j2'', job_priority := 5\<rparr>)
     else if i = ''j3'' then Some (sample_job\<lparr>job_id := ''j3'', job_status := JOB_FAILED, job_attempts := 1\<rparr>)
     else None)"
  by (auto simp: jobs_of_rows_def list_rows_of_def sample_jobs_world_def sample_jobs_def sample_job_list_def
      to_domain_row sample_job_ok job_ok_fields)

lemma sample_pending:
  "pending_jobs (job_table list_rows_of sample_jobs_world) =
    {sample_job, sample_job\<lparr>job_id := ''j2'', job_priority := 5\<rparr>}"
proof (rule set_eqI)
  fix j
  have "j \<in> pending_jobs (job_table list_rows_of sample_jobs_world) \<longleftrightarrow>
      job_table list_rows_of sample_jobs_world (job_id j) = Some j \<and> job_status j = JOB_PENDING"
    by (simp only: pending_jobs_def is_pending_def mem_Collect_eq)
  also have "\<dots> \<longleftrightarrow> j = sample_job \<or> j = sample_job\<lparr>job_id := ''j2'', job_priority := 5\<rparr>"
    unfolding sample_table by (cases "j = sample_job"; cases "j = sample_job\<lparr>job_id := ''j2'', job_priority := 5\<rparr>") auto
  finally show "j \<in> pending_jobs (job_table list_rows_of sample_jobs_world) \<longleftrightarrow>
      j \<in> {sample_job, sample_job\<lparr>job_id := ''j2'', job_priority := 5\<rparr>}" by simp
qed

lemma done_handler_ok: "handler_ok done_handler"
  by (simp add: handler_ok_def done_handler_def)

lemma done_handlers_ok: "\<forall>t h. dict_get [(''pipeline'', done_handler)] t = Some h \<longrightarrow> handler_ok h"
  by (simp add: done_handler_ok)

lemma done_handlers_cover:
  "\<forall>j \<in> pending_jobs (job_table list_rows_of sample_jobs_world). dict_has [(''pipeline'', done_handler)] (job_type j)"
  by (simp add: sample_pending dict_has_def)

lemmas sample_setting = list_db.sql_session_axioms sample_env_wired sample_rows_ok

theorem process_all_correct_witness:
  "\<exists>js w'. process_all sample_env [(''pipeline'', done_handler)] 2 sample_jobs_world = Some (Inr js, w') \<and>
    set (map job_id js) = {''j1'', ''j2''} \<and> pending_jobs (job_table list_rows_of w') = {}"
proof -
  have "card (pending_jobs (job_table list_rows_of sample_jobs_world)) \<le> 2"
    unfolding sample_pending by (simp add: card_insert_if)
  from process_all_correct [OF sample_setting done_handlers_ok done_handlers_cover this]
  show ?thesis by (auto simp: sample_pending)
qed

theorem process_next_outcome_witness:
  "\<exists>j' w'. process_next sample_env [(''pipeline'', done_handler)] sample_jobs_world = (Inr (Some j'), w') \<and>
    job_status j' = JOB_COMPLETED \<and> job_result j' = ''done''"
proof -
  note outcome = process_next_outcome [OF sample_setting done_handlers_ok]
  have pending: "pending_jobs (job_table list_rows_of sample_jobs_world) \<noteq> {}" by (simp add: sample_pending)
  obtain r w1 where q: "queue_dequeue sample_env sample_jobs_world = (r, w1)" by fastforce
  with outcome pending obtain j where j: "r = Inr (Some j)" by (cases r) (auto split: option.splits)
  have "j \<in> pending_jobs (job_table list_rows_of sample_jobs_world)" using outcome unfolding q j by simp
  then obtain h where "dict_get [(''pipeline'', done_handler)] (job_type j) = Some h"
    using done_handlers_cover by (auto simp: dict_has_def)
  moreover from this have "h = done_handler" by (auto split: if_splits)
  ultimately show ?thesis using outcome unfolding q j by (auto simp: done_handler_def)
qed

theorem process_next_head_blocks_witness:
  "process_next sample_env [(''other'', done_handler)] sample_jobs_world =
    (Inl (Exn ValueError (''No handler registered for job_type='' @ repr_str ''pipeline'')), sample_jobs_world)"
  using process_next_head_blocks [OF sample_setting, of "sample_job\<lparr>job_id := ''j2'', job_priority := 5\<rparr>" "[(''other'', done_handler)]"]
  by (simp add: sample_pending dict_has_def)

theorem retry_job_correct_witness:
  "\<exists>j' w'. retry_job sample_env ''j3'' sample_jobs_world = (Inr (Some j'), w') \<and> job_status j' = JOB_PENDING"
  using retry_job_correct [OF sample_setting, of "''j3''"] by (auto simp: sample_table)

theorem cancel_job_correct_witness:
  "cancel_job sample_env ''j3'' sample_jobs_world = (Inr None, sample_jobs_world) \<and>
   (\<exists>j' w'. cancel_job sample_env ''j1'' sample_jobs_world = (Inr (Some j'), w') \<and> job_status j' = JOB_CANCELLED)"
  using cancel_job_correct [OF sample_setting, of "''j3''"] cancel_job_correct [OF sample_setting, of "''j1''"]
  by (auto simp: sample_table)

theorem dispatch_pipeline_stored_witness:
  "\<exists>j w'. dispatch_pipeline sample_env ''w'' ''p1'' ''d1'' None 3 sample_jobs_world = (Inr j, w') \<and>
    dict_get (job_payload j) ''document_id'' = Some ''d1''"
proof -
  have "job_table list_rows_of sample_jobs_world (je_uid sample_env (jw_ticks sample_jobs_world)) = None"
    by (simp add: sample_table sample_env_def)
  from dispatch_pipeline_stored [OF sample_setting _ this, of "''w''" "''p1''" "''d1''" None 3] show ?thesis by auto
qed

definition loud_env :: "(job_row list, job_event list) job_env" where
  "loud_env = sample_env\<lparr>je_exec_emit := (\<lambda>e. case e of JobStarted _ _ _ \<Rightarrow> py_return ()
     | _ \<Rightarrow> py_raise AttributeError ''name'')\<rparr>"

theorem completed_event_fails_witness:
  "\<exists>w'. execute_job loud_env [(''pipeline'', done_handler)] sample_job sample_jobs_world =
      (Inl (Exn ValueError ''Cannot transition job from completed to failed''), w')"
proof -
  have "je_exec_repo loud_env = Some (sqlite_job_repo list_session)" by (simp add: loud_env_def sample_env_def)
  moreover have "job_table list_rows_of sample_jobs_world (job_id sample_job) = Some sample_job" "is_pending sample_job"
    by (simp_all add: sample_table is_pending_def)
  moreover have "dict_get [(''pipeline'', done_handler)] (job_type sample_job) = Some done_handler" by simp
  moreover have "\<forall>k. \<not> isl (fst (done_handler k))" by (simp add: done_handler_def)
  moreover have "fst (je_exec_emit loud_env (JobStarted i ws t) b) = Inr ()"
    "isl (fst (je_exec_emit loud_env (JobCompleted i ws t r) b))" for i ws t r b
    by (simp_all add: loud_env_def)
  ultimately show ?thesis
    using completed_event_fails [OF list_db.sql_session_axioms _ sample_rows_ok _ _ _ done_handler_ok] by blast
qed

end
