(* ===== verification/Workers.thy ===== *)
theory Workers
  imports Job_Scheduling
begin

text \<open>
  \<open>workers/worker.py\<close> and \<open>worker_registry.py\<close>: the worker that runs pending jobs, swallows what
  the scheduler raises and publishes worker events, and the pool that takes turns.

  A task handler is an object that may offer the \<open>handle\<close> method of the protocol and may be
  callable; the executor calls the object itself. Worker events go to the same sink as the
  events of the scheduler.
\<close>

section \<open>Handlers and their registry\<close>

record task_handler =
  th_class :: string
  th_handle :: "job_handler option"
  th_call :: "job_handler option"

text \<open>What \<open>handler(job)\<close> does.\<close>

definition call_handler :: "task_handler \<Rightarrow> job_handler" where
  "call_handler h =
     (case th_call h of
        Some f \<Rightarrow> f
      | None \<Rightarrow> py_raise TypeError (quoted (th_class h) @ '' object is not callable''))"

type_synonym worker_registry = "(string, task_handler) dict"

definition registry_register :: "string \<Rightarrow> task_handler \<Rightarrow> worker_registry \<Rightarrow> worker_registry" where
  "registry_register t h r = dict_set t h r"

definition registry_get :: "string \<Rightarrow> worker_registry \<Rightarrow> task_handler option" where
  "registry_get t r = dict_get r t"

definition registry_unregister :: "string \<Rightarrow> worker_registry \<Rightarrow> worker_registry" where
  "registry_unregister t r = dict_pop t r"

definition registry_job_types :: "worker_registry \<Rightarrow> string list" where
  "registry_job_types r = dict_keys r"

text \<open>The registry and the executor's handlers, to which \<open>register\<close> adds both.\<close>

definition worker_register ::
    "string \<Rightarrow> task_handler \<Rightarrow> worker_registry \<times> job_handlers \<Rightarrow> worker_registry \<times> job_handlers" where
  "worker_register t h rh =
     (registry_register t h (fst rh), executor_register t (call_handler h) (snd rh))"

section \<open>The worker\<close>

datatype worker_event =
    TaskAssigned string string string
  | TaskCompleted string string string
  | TaskFailed string string string
  | WorkerStarted string
  | WorkerStopped string

record ('db, 'b) worker_env =
  we_env :: "('db, 'b) job_env"
  we_bus :: "worker_event \<Rightarrow> ('b, unit) py"

definition worker_emit :: "('db, 'b) worker_env \<Rightarrow> worker_event \<Rightarrow> (('db, 'b) job_world, unit) py" where
  "worker_emit we e = on_sink (we_bus we e)"

text \<open>\<open>Some next\<close>: the scheduler returned \<open>next\<close>; \<open>None\<close>: it raised, and the failure was published.\<close>

definition guarded_process_next ::
    "('db, 'b) worker_env \<Rightarrow> job_handlers \<Rightarrow> (('db, 'b) job_world, job option option) py" where
  "guarded_process_next we handlers =
     py_try (py_bind (process_next (we_env we) handlers) (\<lambda>next. py_return (Some next)))
       (\<lambda>exc. py_bind (worker_emit we (TaskFailed [] [] (exn_str exc))) (\<lambda>_. py_return None))"

definition worker_run_once ::
    "('db, 'b) worker_env \<Rightarrow> job_handlers \<Rightarrow> (('db, 'b) job_world, job option) py" where
  "worker_run_once we handlers =
     py_bind (guarded_process_next we handlers) (\<lambda>outcome.
     case outcome of
       None \<Rightarrow> py_return None
     | Some None \<Rightarrow> py_return None
     | Some (Some j) \<Rightarrow>
         py_bind (worker_emit we (TaskAssigned (job_id j) (job_type j) (job_workspace_id j))) (\<lambda>_.
         py_bind (if job_status j = JOB_FAILED
           then worker_emit we (TaskFailed (job_id j) (job_type j) (job_error_message j))
           else worker_emit we (TaskCompleted (job_id j) (job_type j) (job_result j))) (\<lambda>_.
         py_return (Some j))))"

text \<open>The loop of \<open>run_all\<close> with a bound on its rounds; \<open>None\<close> if the bound is exhausted.\<close>

fun worker_run_all ::
    "('db, 'b) worker_env \<Rightarrow> job_handlers \<Rightarrow> nat \<Rightarrow> ('db, 'b) job_world
     \<Rightarrow> ((exn + job list) \<times> ('db, 'b) job_world) option" where
  "worker_run_all we handlers 0 w = None"
| "worker_run_all we handlers (Suc n) w =
     (case worker_run_once we handlers w of
        (Inl e, w1) \<Rightarrow> Some (Inl e, w1)
      | (Inr None, w1) \<Rightarrow> Some (Inr [], w1)
      | (Inr (Some j), w1) \<Rightarrow>
          (case worker_run_all we handlers n w1 of
             None \<Rightarrow> None
           | Some (Inl e, w2) \<Rightarrow> Some (Inl e, w2)
           | Some (Inr js, w2) \<Rightarrow> Some (Inr (j # js), w2)))"

record worker =
  wk_id :: string
  wk_running :: bool

definition worker_start :: "('db, 'b) worker_env \<Rightarrow> (worker \<times> ('db, 'b) job_world, unit) py" where
  "worker_start we =
     py_bind (py_modify (\<lambda>(wk, w). (wk\<lparr>wk_running := True\<rparr>, w))) (\<lambda>_.
     py_bind (py_read (\<lambda>(wk, w). wk_id wk)) (\<lambda>i.
     py_on snd (\<lambda>w (wk, _). (wk, w)) (worker_emit we (WorkerStarted i))))"

definition worker_stop :: "('db, 'b) worker_env \<Rightarrow> (worker \<times> ('db, 'b) job_world, unit) py" where
  "worker_stop we =
     py_bind (py_modify (\<lambda>(wk, w). (wk\<lparr>wk_running := False\<rparr>, w))) (\<lambda>_.
     py_bind (py_read (\<lambda>(wk, w). wk_id wk)) (\<lambda>i.
     py_on snd (\<lambda>w (wk, _). (wk, w)) (worker_emit we (WorkerStopped i))))"

section \<open>The pool\<close>

record worker_pool =
  wp_workers :: "worker list"
  wp_next :: nat

definition new_worker_pool :: "int \<Rightarrow> string \<Rightarrow> exn + worker_pool" where
  "new_worker_pool pool_size prefix =
     (if pool_size < 1 then Inl (Exn ValueError ''pool_size must be >= 1'')
      else Inr \<lparr>wp_workers = map (\<lambda>i. \<lparr>wk_id = prefix @ ''-'' @ nat_str i, wk_running = False\<rparr>) [0..<nat pool_size],
        wp_next = 0\<rparr>)"

text \<open>The next worker in turn, and the pool after taking it.\<close>

definition pool_take :: "worker_pool \<Rightarrow> worker \<times> worker_pool" where
  "pool_take p =
     (wp_workers p ! wp_next p, p\<lparr>wp_next := (wp_next p + 1) mod length (wp_workers p)\<rparr>)"

definition pool_run_once ::
    "('db, 'b) worker_env \<Rightarrow> job_handlers \<Rightarrow> worker_pool \<Rightarrow> (('db, 'b) job_world, job option) py \<times> worker_pool" where
  "pool_run_once we handlers p = (worker_run_once we handlers, snd (pool_take p))"

definition pool_run_all ::
    "('db, 'b) worker_env \<Rightarrow> job_handlers \<Rightarrow> worker_pool \<Rightarrow> nat \<Rightarrow> ('db, 'b) job_world
     \<Rightarrow> ((exn + job list) \<times> ('db, 'b) job_world) option" where
  "pool_run_all we handlers p = worker_run_all we handlers"

text \<open>The loops of \<open>start_all\<close> and \<open>stop_all\<close>.\<close>

fun each_worker ::
    "(worker \<times> ('db, 'b) job_world, unit) py \<Rightarrow> worker list \<Rightarrow> ('db, 'b) job_world
     \<Rightarrow> (exn + unit) \<times> worker list \<times> ('db, 'b) job_world" where
  "each_worker m [] w = (Inr (), [], w)"
| "each_worker m (wk # wks) w =
     (case m (wk, w) of
        (Inl e, (wk', w')) \<Rightarrow> (Inl e, wk' # wks, w')
      | (Inr _, (wk', w')) \<Rightarrow>
          (case each_worker m wks w' of (r, wks', w'') \<Rightarrow> (r, wk' # wks', w'')))"

definition start_all :: "('db, 'b) worker_env \<Rightarrow> (worker_pool \<times> ('db, 'b) job_world, unit) py" where
  "start_all we = (\<lambda>(p, w). case each_worker (worker_start we) (wp_workers p) w of
     (r, wks, w') \<Rightarrow> (r, (p\<lparr>wp_workers := wks\<rparr>, w')))"

definition stop_all :: "('db, 'b) worker_env \<Rightarrow> (worker_pool \<times> ('db, 'b) job_world, unit) py" where
  "stop_all we = (\<lambda>(p, w). case each_worker (worker_stop we) (wp_workers p) w of
     (r, wks, w') \<Rightarrow> (r, (p\<lparr>wp_workers := wks\<rparr>, w')))"

definition pool_is_running :: "worker_pool \<Rightarrow> bool" where
  "pool_is_running p = list_ex wk_running (wp_workers p)"

section \<open>Running pending jobs\<close>

definition bus_quiet :: "('db, 'b) worker_env \<Rightarrow> bool" where
  "bus_quiet we = (\<forall>e b. fst (we_bus we e b) = Inr ())"

lemma worker_emit_app: "bus_quiet we \<Longrightarrow> worker_emit we e w = (Inr (), w\<lparr>jw_sink := snd (we_bus we e (jw_sink w))\<rparr>)"
  by (simp add: worker_emit_def bus_quiet_def)

lemma worker_run_once_returns:
  assumes "bus_quiet we" and "process_next (we_env we) handlers w = (Inr r, w2)"
  shows "\<exists>w1. worker_run_once we handlers w = (Inr r, w1) \<and> jw_db w1 = jw_db w2"
  using assms(2)
  by (cases r) (simp_all add: worker_run_once_def guarded_process_next_def py_bind_split py_try_split worker_emit_app [OF assms(1)])

lemma worker_run_once_swallows:
  assumes "bus_quiet we" and "process_next (we_env we) handlers w = (Inl e, w2)"
  shows "\<exists>w1. worker_run_once we handlers w = (Inr None, w1) \<and> jw_db w1 = jw_db w2"
  using assms(2)
  by (simp add: worker_run_once_def guarded_process_next_def py_bind_split py_try_split worker_emit_app [OF assms(1)])

context job_repository
begin

lemma worker_run_all_drains:
  assumes "wired R (we_env we)" and "bus_quiet we" and "\<forall>t h. dict_get handlers t = Some h \<longrightarrow> handler_ok h"
    and "ok (jw_db w)" and "\<forall>j \<in> pending_jobs (stored w). dict_has handlers (job_type j)"
    and "card (pending_jobs (stored w)) < fuel"
  shows "\<exists>js w'. worker_run_all we handlers fuel w = Some (Inr js, w') \<and> ok (jw_db w') \<and> drained (stored w) (stored w') js"
  using assms(4-6)
proof (induction fuel arbitrary: w)
  case 0
  then show ?case by simp
next
  case (Suc n)
  show ?case
  proof (cases "pending_jobs (stored w) = {}")
    case True
    obtain js where "set js = pending_jobs (stored w)"
      "queue_dequeue (we_env we) w = (Inr (case js of [] \<Rightarrow> None | j # _ \<Rightarrow> Some j), w)"
      using dequeue_first [OF assms(1) Suc.prems(1)] by blast
    with True have "process_next (we_env we) handlers w = (Inr None, w)"
      by (simp add: process_next_def py_bind_split)
    from worker_run_once_returns [OF assms(2) this] obtain w1 where
      "worker_run_once we handlers w = (Inr None, w1)" "jw_db w1 = jw_db w" by blast
    with Suc.prems(1) drained_Nil [OF True] show ?thesis by simp
  next
    case False
    obtain j j' w' where step: "process_next (we_env we) handlers w = (Inr (Some j'), w')" "ok (jw_db w')"
      "stored w' = (stored w)(job_id j := Some j')" "j \<in> pending_jobs (stored w)"
      "\<forall>p \<in> pending_jobs (stored w). job_priority p \<le> job_priority j"
      "same_identity j j'" "job_status j' \<in> {JOB_COMPLETED, JOB_FAILED}"
      using process_next_pending [OF assms(1,3) Suc.prems(1) False Suc.prems(2)] by blast
    obtain w1 where once: "worker_run_once we handlers w = (Inr (Some j'), w1)" and r: "jw_db w1 = jw_db w'"
      using worker_run_once_returns [OF assms(2) step(1)] by blast
    have j: "stored w (job_id j) = Some j" "is_pending j" using step(4) by (simp_all add: pending_jobs_def)
    have pend: "pending_jobs (stored w1) = pending_jobs (stored w) - {j}"
      unfolding r step(3) using step(6,7) by (intro pending_jobs_upd j(1)) (auto simp: is_pending_def same_identity_def)
    have fin: "finite (pending_jobs (stored w))" using pending_finite [OF Suc.prems(1)] .
    have "card (pending_jobs (stored w)) > 0" using step(4) fin by (auto simp: card_gt_0_iff)
    then have "card (pending_jobs (stored w1)) < n" using Suc.prems(3) step(4) fin by (simp add: pend)
    moreover have "\<forall>j \<in> pending_jobs (stored w1). dict_has handlers (job_type j)" using Suc.prems(2) pend by blast
    moreover have "ok (jw_db w1)" using step(2) r by simp
    ultimately obtain js w'' where rest: "worker_run_all we handlers n w1 = Some (Inr js, w'')" "ok (jw_db w'')"
      "drained (stored w1) (stored w'') js" using Suc.IH [of w1] by blast
    have "drained (stored w) (stored w'') (j' # js)"
      using rest(3) unfolding r step(3) by (rule drained_Cons [OF j fin step(5,6,7)])
    with rest(1,2) once show ?thesis by simp
  qed
qed

end

section \<open>Properties\<close>

text \<open>C28: \<open>run_all\<close> of a worker terminates, within one round more than there are pending jobs, when
  every pending job has a handler; it runs each of them once, in descending priority, and no
  job is left pending.\<close>

theorem worker_run_all_correct:
  assumes "sql_session S rows" and "wired (sqlite_job_repo S) (we_env we)" and "rows_ok (rows (jw_db w))"
    and "bus_quiet we" and "\<forall>t h. dict_get handlers t = Some h \<longrightarrow> handler_ok h"
    and "\<forall>j \<in> pending_jobs (job_table rows w). dict_has handlers (job_type j)"
    and "card (pending_jobs (job_table rows w)) < fuel"
  shows "\<exists>js w'. worker_run_all we handlers fuel w = Some (Inr js, w') \<and>
    pending_jobs (job_table rows w') = {} \<and> length js = card (pending_jobs (job_table rows w)) \<and>
    job_id ` set js = job_id ` pending_jobs (job_table rows w) \<and> sorted_desc job_priority js \<and>
    (\<forall>k \<in> set js. job_table rows w' (job_id k) = Some k \<and> job_status k \<in> {JOB_COMPLETED, JOB_FAILED})"
  using job_repository.worker_run_all_drains [OF sql_session.sqlite_refines [OF assms(1)] assms(2,4,5) assms(3,6,7)]
  unfolding drained_def by blast

text \<open>A handler object that implements only the documented \<open>handle\<close> method makes every job of
  its type fail: the executor calls the object itself.\<close>

theorem worker_handle_not_called:
  assumes "sql_session S rows" and "wired (sqlite_job_repo S) (we_env we)" and "rows_ok (rows (jw_db w))"
    and "bus_quiet we" and "th_call h = None"
    and "\<forall>j \<in> pending_jobs (job_table rows w). job_type j = t" and "pending_jobs (job_table rows w) \<noteq> {}"
  shows "\<exists>j w'. worker_run_once we (snd (worker_register t h ([], []))) w = (Inr (Some j), w') \<and>
    job_status j = JOB_FAILED \<and> job_error_message j = quoted (th_class h) @ '' object is not callable''"
proof -
  let ?handlers = "snd (worker_register t h ([], []))"
  have h: "?handlers = [(t, call_handler h)]" by (simp add: worker_register_def executor_register_def)
  have call: "call_handler h k = (Inl (Exn TypeError (quoted (th_class h) @ '' object is not callable'')), k)" for k
    by (simp add: call_handler_def assms(5))
  have hok: "\<forall>t' h'. dict_get ?handlers t' = Some h' \<longrightarrow> handler_ok h'"
    unfolding h by (simp add: handler_ok_def call)
  have hall: "\<forall>j \<in> pending_jobs (job_table rows w). dict_has ?handlers (job_type j)"
    unfolding h using assms(6) by (simp add: dict_has_def)
  from job_repository.process_next_pending [OF sql_session.sqlite_refines [OF assms(1)] assms(2) hok assms(3,7) hall]
  show ?thesis
  proof (elim exE conjE)
    fix j j' w' hh running
    assume step: "process_next (we_env we) ?handlers w = (Inr (Some j'), w')"
      and "dict_get ?handlers (job_type j) = Some hh" and outcome: "outcome_ok hh running j'"
    then have "hh = call_handler h" unfolding h by (simp split: if_splits)
    with outcome have "job_status j' = JOB_FAILED \<and> job_error_message j' = quoted (th_class h) @ '' object is not callable''"
      by (simp add: outcome_ok_def call)
    with worker_run_once_returns [OF assms(4) step] show ?thesis by blast
  qed
qed

text \<open>A pending job of the highest priority without a handler silently ends \<open>run_all\<close>: it
  returns no job and no error, and all jobs stay as they are.\<close>

theorem worker_run_all_blocked:
  assumes "sql_session S rows" and "wired (sqlite_job_repo S) (we_env we)" and "rows_ok (rows (jw_db w))"
    and "bus_quiet we" and "j \<in> pending_jobs (job_table rows w)"
    and "\<forall>p \<in> pending_jobs (job_table rows w). p \<noteq> j \<longrightarrow> job_priority p < job_priority j"
    and "\<not> dict_has handlers (job_type j)"
  shows "\<exists>w'. worker_run_all we handlers (Suc n) w = Some (Inr [], w') \<and> jw_db w' = jw_db w"
  using worker_run_once_swallows [OF assms(4)
      job_repository.process_next_blocked [OF sql_session.sqlite_refines [OF assms(1)] assms(2,3,5-7)]]
  by auto

text \<open>The workers of a pool take turns: after \<open>n\<close> calls the next worker is number \<open>n\<close> modulo the
  size of the pool, so every worker is chosen again after one round.\<close>

theorem pool_round_robin:
  assumes "new_worker_pool psize prefix = Inr p"
  shows "((snd \<circ> pool_take) ^^ n) p = p\<lparr>wp_next := n mod nat psize\<rparr> \<and>
    wk_id (fst (pool_take (((snd \<circ> pool_take) ^^ n) p))) = prefix @ ''-'' @ nat_str (n mod nat psize)"
proof -
  have p: "wp_workers p = map (\<lambda>i. \<lparr>wk_id = prefix @ ''-'' @ nat_str i, wk_running = False\<rparr>) [0..<nat psize]"
    "wp_next p = 0" "0 < nat psize"
    using assms by (auto simp: new_worker_pool_def split: if_splits)
  have turns: "((snd \<circ> pool_take) ^^ n) p = p\<lparr>wp_next := n mod nat psize\<rparr>"
  proof (induction n)
    case 0
    show ?case using p(2) by simp
  next
    case (Suc n)
    then show ?case using p(1) by (simp add: pool_take_def mod_Suc_eq)
  qed
  then show ?thesis using p turns by (simp add: pool_take_def)
qed

section \<open>Witnesses\<close>

definition sample_worker_env :: "(job_row list, job_event list) worker_env" where
  "sample_worker_env = \<lparr>we_env = sample_env, we_bus = (\<lambda>_. py_return ())\<rparr>"

lemma sample_worker [simp]: "we_env sample_worker_env = sample_env" "bus_quiet sample_worker_env"
  by (simp_all add: sample_worker_env_def bus_quiet_def)

lemmas sample_worker_setting = list_db.sql_session_axioms sample_env_wired [folded sample_worker(1)] sample_rows_ok sample_worker(2)

theorem worker_run_all_correct_witness:
  "\<exists>js w'. worker_run_all sample_worker_env [(''pipeline'', done_handler)] 3 sample_jobs_world = Some (Inr js, w') \<and>
    job_id ` set js = {''j1'', ''j2''}"
proof -
  have "card (pending_jobs (job_table list_rows_of sample_jobs_world)) < 3"
    unfolding sample_pending by (simp add: card_insert_if)
  from worker_run_all_correct [OF sample_worker_setting done_handlers_ok done_handlers_cover this]
  show ?thesis by (auto simp: sample_pending)
qed

definition handle_only :: task_handler where
  "handle_only = \<lparr>th_class = ''EchoHandler'', th_handle = Some done_handler, th_call = None\<rparr>"

theorem worker_handle_not_called_witness:
  "\<exists>j w'. worker_run_once sample_worker_env (snd (worker_register ''pipeline'' handle_only ([], []))) sample_jobs_world
      = (Inr (Some j), w') \<and> job_error_message j = quoted ''EchoHandler'' @ '' object is not callable''"
  using worker_handle_not_called [OF sample_worker_setting, of handle_only "''pipeline''"]
  by (auto simp: sample_pending handle_only_def)

theorem worker_run_all_blocked_witness:
  "\<exists>w'. worker_run_all sample_worker_env [] (Suc 5) sample_jobs_world = Some (Inr [], w') \<and> jw_db w' = sample_jobs"
proof -
  let ?j = "sample_job\<lparr>job_id := ''j2'', job_priority := 5\<rparr>"
  have "?j \<in> pending_jobs (job_table list_rows_of sample_jobs_world)"
    "\<forall>p \<in> pending_jobs (job_table list_rows_of sample_jobs_world). p \<noteq> ?j \<longrightarrow> job_priority p < job_priority ?j"
    "\<not> dict_has [] (job_type ?j)"
    by (simp_all add: sample_pending dict_has_def)
  from worker_run_all_blocked [OF sample_worker_setting this, of 5] show ?thesis
    by (simp only: sample_jobs_world_def job_world.simps)
qed

theorem pool_round_robin_witness:
  "\<exists>p. new_worker_pool 3 ''w'' = Inr p \<and> wk_id (fst (pool_take (((snd \<circ> pool_take) ^^ 4) p))) = ''w-'' @ nat_str 1"
proof -
  obtain p where p: "new_worker_pool 3 ''w'' = Inr p" by (simp add: new_worker_pool_def)
  have three: "4 mod nat 3 = 1" by simp
  have "wk_id (fst (pool_take (((snd \<circ> pool_take) ^^ 4) p))) = ''w'' @ ''-'' @ nat_str (4 mod nat 3)"
    by (rule conjunct2 [OF pool_round_robin [OF p]])
  then have "wk_id (fst (pool_take (((snd \<circ> pool_take) ^^ 4) p))) = ''w-'' @ nat_str 1"
    by (simp only: three append.simps)
  with p show ?thesis by blast
qed

end
