(* ===== verification/Task_Executor.thy ===== *)
theory Task_Executor
  imports Complex_Main State_Machine "HOL-Library.List_Lexorder" "HOL-Library.Char_ord"
begin

text \<open>
  \<open>task_executor/\<close>: the task entity, the registry of task handlers, and the executor's loop of
  attempts. A handler is a function of the task that may mutate it (through the task's own
  methods) and returns a text or raises. The constructor parameters of the executor are the
  record \<open>task_env\<close>; while a task is executed the state is the pair of the task and the world.
  \<open>Task\<close> is a frozen dataclass: its configuration is read once, its progress fields are written.
\<close>

section \<open>The task\<close>

datatype task_status = TASK_PENDING | TASK_RUNNING | TASK_COMPLETED | TASK_FAILED | TASK_CANCELLED

fun task_status_value :: "task_status \<Rightarrow> string" where
  "task_status_value TASK_PENDING = ''pending''"
| "task_status_value TASK_RUNNING = ''running''"
| "task_status_value TASK_COMPLETED = ''completed''"
| "task_status_value TASK_FAILED = ''failed''"
| "task_status_value TASK_CANCELLED = ''cancelled''"

fun task_transitions :: "task_status \<Rightarrow> task_status set" where
  "task_transitions TASK_PENDING = {TASK_RUNNING, TASK_CANCELLED}"
| "task_transitions TASK_RUNNING = {TASK_COMPLETED, TASK_FAILED, TASK_CANCELLED}"
| "task_transitions TASK_COMPLETED = {}"
| "task_transitions TASK_FAILED = {TASK_PENDING, TASK_CANCELLED}"
| "task_transitions TASK_CANCELLED = {}"

definition can_transition_task :: "task_status \<Rightarrow> task_status \<Rightarrow> bool" where
  "can_transition_task current target = (target \<in> task_transitions current)"

record task =
  task_type :: string
  task_name :: string
  task_id :: string
  task_workspace_id :: string
  task_payload :: "(string, string) dict"
  task_status :: task_status
  task_attempts :: int
  task_max_retries :: int
  task_timeout_seconds :: real
  task_result :: string
  task_error_message :: string
  task_created_at :: int
  task_started_at :: "int option"
  task_completed_at :: "int option"

definition task_post_init :: "task \<Rightarrow> exn + task" where
  "task_post_init t = (if task_type t = [] then Inl (Exn ValueError ''Task must have a task_type'') else Inr t)"

definition task_transition_to :: "int \<Rightarrow> task_status \<Rightarrow> (task, unit) py" where
  "task_transition_to now target =
     py_bind (py_read (\<lambda>t. t)) (\<lambda>t.
     if \<not> can_transition_task (task_status t) target
     then py_raise InvalidTaskStateError (''Cannot transition task '' @ task_id t @ '' from ''
       @ task_status_value (task_status t) @ '' to '' @ task_status_value target)
     else
       py_bind (py_when (target = TASK_RUNNING \<and> task_started_at t = None)
         (py_modify (\<lambda>t. t\<lparr>task_started_at := Some now\<rparr>))) (\<lambda>_.
       py_bind (py_when (target \<in> {TASK_COMPLETED, TASK_FAILED, TASK_CANCELLED})
         (py_modify (\<lambda>t. t\<lparr>task_completed_at := Some now\<rparr>))) (\<lambda>_.
       py_modify (\<lambda>t. t\<lparr>task_status := target\<rparr>))))"

definition task_is_terminal :: "task \<Rightarrow> bool" where
  "task_is_terminal t = (task_status t \<in> {TASK_COMPLETED, TASK_FAILED, TASK_CANCELLED})"

definition task_can_retry :: "task \<Rightarrow> bool" where
  "task_can_retry t = (task_status t \<in> {TASK_PENDING, TASK_FAILED} \<and> task_attempts t < task_max_retries t)"

definition task_retry :: "(task, unit) py" where
  "task_retry =
     py_bind (py_read task_can_retry) (\<lambda>can.
     if \<not> can then py_raise ValueError ''Task cannot be retried''
     else py_modify (\<lambda>t. t\<lparr>task_status := TASK_PENDING, task_error_message := []\<rparr>))"

section \<open>The registry of handlers\<close>

type_synonym task_executable = "(task, string) py"

type_synonym task_registry = "(string, task_executable) dict"

definition task_registry_register :: "string \<Rightarrow> task_executable option \<Rightarrow> (task_registry, unit) py" where
  "task_registry_register ttype handler =
     (if ttype = [] then py_raise ValueError ''task_type must not be empty''
      else case handler of
        None \<Rightarrow> py_raise ValueError ''handler must not be None''
      | Some h \<Rightarrow> py_modify (dict_set ttype h))"

definition task_registry_get :: "task_registry \<Rightarrow> string \<Rightarrow> exn + task_executable" where
  "task_registry_get r ttype =
     (case dict_get r ttype of
        None \<Rightarrow> Inl (Exn TaskHandlerNotFoundError (''No handler registered for task type '' @ quoted ttype))
      | Some h \<Rightarrow> Inr h)"

definition task_registry_has :: "task_registry \<Rightarrow> string \<Rightarrow> bool" where
  "task_registry_has r ttype = dict_has r ttype"

definition registered_types :: "task_registry \<Rightarrow> string list" where
  "registered_types r = sort (dict_keys r)"

section \<open>The executor\<close>

datatype task_event =
    TaskSubmittedEvent string string
  | TaskStartedEvent string string int
  | TaskCompletedEvent string string string int
  | TaskFailedEvent string string string int
  | TaskRetriedEvent string string int
  | TaskCancelledEvent string string task_status

record 'b task_env =
  te_registry :: task_registry
  te_emit :: "task_event \<Rightarrow> ('b, unit) py"
  te_now :: "nat \<Rightarrow> int"

record 'b task_world =
  tw_sink :: 'b
  tw_ticks :: nat
  tw_delays :: "real list"

definition on_task :: "(task, 'a) py \<Rightarrow> (task \<times> 'b task_world, 'a) py" where
  "on_task = py_on fst (\<lambda>t (_, w). (t, w))"

definition on_task_world :: "('b task_world, 'a) py \<Rightarrow> (task \<times> 'b task_world, 'a) py" where
  "on_task_world = py_on snd (\<lambda>w (t, _). (t, w))"

definition task_emit :: "'b task_env \<Rightarrow> (task \<Rightarrow> task_event) \<Rightarrow> (task \<times> 'b task_world, unit) py" where
  "task_emit env ev =
     py_bind (py_read (\<lambda>(t, _). ev t)) (\<lambda>e.
     on_task_world (py_on tw_sink (\<lambda>b w. w\<lparr>tw_sink := b\<rparr>) (te_emit env e)))"

definition task_move :: "'b task_env \<Rightarrow> task_status \<Rightarrow> (task \<times> 'b task_world, unit) py" where
  "task_move env target =
     py_bind (py_read (\<lambda>(_, w). te_now env (tw_ticks w))) (\<lambda>now.
     py_bind (on_task (task_transition_to now target)) (\<lambda>_.
     on_task_world (py_modify (\<lambda>w. w\<lparr>tw_ticks := Suc (tw_ticks w)\<rparr>))))"

definition task_delay :: "real \<Rightarrow> (task \<times> 'b task_world, unit) py" where
  "task_delay seconds = on_task_world (py_modify (\<lambda>w. w\<lparr>tw_delays := tw_delays w @ [seconds]\<rparr>))"

text \<open>The \<open>while True\<close> loop, with \<open>attempt\<close> after its increment.\<close>

function run_task_attempts ::
    "'b task_env \<Rightarrow> task_executable \<Rightarrow> int \<Rightarrow> real \<Rightarrow> int \<Rightarrow> (task \<times> 'b task_world, unit) py" where
  "run_task_attempts env handler max_retries timeout attempt =
     py_bind (on_task (py_modify (\<lambda>t. t\<lparr>task_attempts := attempt\<rparr>))) (\<lambda>_.
     py_bind (task_emit env (\<lambda>t. TaskStartedEvent (task_id t) (task_type t) attempt)) (\<lambda>_.
     py_bind (py_result (on_task handler)) (\<lambda>outcome.
     case outcome of
       Inl exc \<Rightarrow>
         py_bind (on_task (py_modify (\<lambda>t. t\<lparr>task_error_message := exn_str exc\<rparr>))) (\<lambda>_.
         if attempt \<le> max_retries then
           py_bind (task_emit env (\<lambda>t. TaskRetriedEvent (task_id t) (task_type t) (attempt + 1))) (\<lambda>_.
           py_bind (task_delay timeout) (\<lambda>_.
           run_task_attempts env handler max_retries timeout (attempt + 1)))
         else
           py_bind (task_move env TASK_FAILED) (\<lambda>_.
           task_emit env (\<lambda>t. TaskFailedEvent (task_id t) (task_type t) (task_error_message t) attempt)))
     | Inr result \<Rightarrow>
         py_bind (on_task (py_modify (\<lambda>t. t\<lparr>task_result := result\<rparr>))) (\<lambda>_.
         py_bind (task_move env TASK_COMPLETED) (\<lambda>_.
         task_emit env (\<lambda>t. TaskCompletedEvent (task_id t) (task_type t) result attempt))))))"
  by pat_completeness auto

termination run_task_attempts
  by (relation "measure (\<lambda>(env, handler, max_retries, timeout, attempt). nat (max_retries + 1 - attempt))") auto

declare run_task_attempts.simps [simp del]

definition task_execute :: "'b task_env \<Rightarrow> (task \<times> 'b task_world, unit) py" where
  "task_execute env =
     py_bind (py_read fst) (\<lambda>t.
     if task_status t \<noteq> TASK_PENDING
     then py_raise InvalidTaskStateError (''Task '' @ task_id t @ '' must be PENDING to execute, got ''
       @ task_status_value (task_status t))
     else
       py_bind (task_emit env (\<lambda>t. TaskSubmittedEvent (task_id t) (task_type t))) (\<lambda>_.
       py_bind (py_lift (task_registry_get (te_registry env) (task_type t))) (\<lambda>handler.
       py_bind (task_move env TASK_RUNNING) (\<lambda>_.
       run_task_attempts env handler (task_max_retries t) (task_timeout_seconds t) 1))))"

definition task_cancel :: "'b task_env \<Rightarrow> (task \<times> 'b task_world, unit) py" where
  "task_cancel env =
     py_bind (py_read fst) (\<lambda>t.
     if task_is_terminal t
     then py_raise InvalidTaskStateError (''Cannot cancel task '' @ task_id t @ '' in state ''
       @ task_status_value (task_status t))
     else
       py_bind (task_move env TASK_CANCELLED) (\<lambda>_.
       task_emit env (\<lambda>t'. TaskCancelledEvent (task_id t') (task_type t') (task_status t))))"

text \<open>\<open>execute_batch\<close>: the first task that raises ends the batch.\<close>

fun execute_batch :: "'b task_env \<Rightarrow> task list \<Rightarrow> 'b task_world \<Rightarrow> (exn + task list) \<times> 'b task_world" where
  "execute_batch env [] w = (Inr [], w)"
| "execute_batch env (t # ts) w =
     (case task_execute env (t, w) of
        (Inl e, (_, w')) \<Rightarrow> (Inl e, w')
      | (Inr _, (t', w')) \<Rightarrow>
          (case execute_batch env ts w' of
             (Inl e, w'') \<Rightarrow> (Inl e, w'') | (Inr ts', w'') \<Rightarrow> (Inr (t' # ts'), w'')))"

section \<open>The transition table\<close>

lemma task_transition_cases:
  "task_transition_to now target t =
    (if can_transition_task (task_status t) target
     then (Inr (), t\<lparr>task_started_at := (if target = TASK_RUNNING \<and> task_started_at t = None then Some now else task_started_at t),
       task_completed_at := (if target \<in> {TASK_COMPLETED, TASK_FAILED, TASK_CANCELLED} then Some now else task_completed_at t),
       task_status := target\<rparr>)
     else (Inl (Exn InvalidTaskStateError (''Cannot transition task '' @ task_id t @ '' from ''
       @ task_status_value (task_status t) @ '' to '' @ task_status_value target)), t))"
  by (simp add: task_transition_to_def py_bind_split py_when_def)

interpretation task_table: transition_system can_transition_task task_status "task_transition_to now"
  by unfold_locales (simp_all add: task_transition_cases)

section \<open>The loop of attempts\<close>

lemma on_task_app [simp]: "on_task m (t, w) = (fst (m t), (snd (m t), w))"
  by (simp add: on_task_def)

lemma on_task_world_app [simp]: "on_task_world m (t, w) = (fst (m w), (t, snd (m w)))"
  by (simp add: on_task_world_def)

definition task_events_quiet :: "'b task_env \<Rightarrow> bool" where
  "task_events_quiet env = (\<forall>e b. fst (te_emit env e b) = Inr ())"

lemma task_emit_app:
  "task_events_quiet env \<Longrightarrow> task_emit env ev (t, w) =
    (Inr (), (t, w\<lparr>tw_sink := snd (te_emit env (ev t) (tw_sink w))\<rparr>))"
  by (simp add: task_emit_def py_bind_split task_events_quiet_def)

lemma task_move_app:
  "task_move env target (t, w) =
    (if can_transition_task (task_status t) target
     then (Inr (), (snd (task_transition_to (te_now env (tw_ticks w)) target t), w\<lparr>tw_ticks := Suc (tw_ticks w)\<rparr>))
     else (Inl (Exn InvalidTaskStateError (''Cannot transition task '' @ task_id t @ '' from ''
       @ task_status_value (task_status t) @ '' to '' @ task_status_value target)), (t, w)))"
  by (simp add: task_move_def py_bind_split task_transition_cases)

text \<open>A handler that leaves the status and the attempt counter of the task to the executor.\<close>

definition task_handler_ok :: "task_executable \<Rightarrow> bool" where
  "task_handler_ok h =
     (\<forall>t. task_status (snd (h t)) = task_status t \<and> task_attempts (snd (h t)) = task_attempts t)"

lemma run_task_attempts_outcome:
  assumes q: "task_events_quiet env" and "task_handler_ok h" and "task_status t = TASK_RUNNING" and "0 \<le> mr" and "a \<le> mr + 1"
  shows "\<exists>t' w' u. run_task_attempts env h mr timeout a (t, w) = (Inr (), (t', w')) \<and>
    a \<le> task_attempts t' \<and> task_attempts t' \<le> mr + 1 \<and>
    tw_delays w' = tw_delays w @ replicate (nat (task_attempts t' - a)) timeout \<and>
    (case fst (h u) of
       Inr r \<Rightarrow> task_status t' = TASK_COMPLETED \<and> task_result t' = r \<and> task_error_message t' = task_error_message (snd (h u))
     | Inl e \<Rightarrow> task_status t' = TASK_FAILED \<and> task_error_message t' = exn_str e \<and> task_attempts t' = mr + 1) \<and>
    task_completed_at t' \<noteq> None \<and> task_attempts u = task_attempts t'"
  using assms(3,5)
proof (induction "nat (mr + 1 - a)" arbitrary: a t w rule: less_induct)
  case less
  let ?t = "t\<lparr>task_attempts := a\<rparr>"
  have h: "task_status (snd (h ?t)) = TASK_RUNNING" "task_attempts (snd (h ?t)) = a"
    using assms(2) less.prems(1) by (simp_all add: task_handler_ok_def)
  show ?case
  proof (cases "fst (h ?t)")
    case (Inr r)
    let ?m = "(snd (h ?t))\<lparr>task_result := r\<rparr>"
    let ?u = "?m\<lparr>task_completed_at := Some (te_now env (tw_ticks w)), task_status := TASK_COMPLETED\<rparr>"
    have "\<exists>w'. run_task_attempts env h mr timeout a (t, w) = (Inr (), (?u, w')) \<and> tw_delays w' = tw_delays w"
      using Inr h by (simp add: run_task_attempts.simps [of env h mr timeout a] py_bind_split task_emit_app [OF q]
          task_move_app task_transition_cases can_transition_task_def)
    then obtain w' where "run_task_attempts env h mr timeout a (t, w) = (Inr (), (?u, w'))" "tw_delays w' = tw_delays w" by blast
    then show ?thesis
      using Inr h less.prems(2) by (intro exI [of _ ?u] exI [of _ w'] exI [of _ ?t]) simp
  next
    case (Inl e)
    let ?m = "(snd (h ?t))\<lparr>task_error_message := exn_str e\<rparr>"
    show ?thesis
    proof (cases "a \<le> mr")
      case False
      let ?u = "?m\<lparr>task_completed_at := Some (te_now env (tw_ticks w)), task_status := TASK_FAILED\<rparr>"
      have "\<exists>w'. run_task_attempts env h mr timeout a (t, w) = (Inr (), (?u, w')) \<and> tw_delays w' = tw_delays w"
        using False Inl h by (simp add: run_task_attempts.simps [of env h mr timeout a] py_bind_split task_emit_app [OF q]
            task_move_app task_transition_cases can_transition_task_def)
      then obtain w' where "run_task_attempts env h mr timeout a (t, w) = (Inr (), (?u, w'))" "tw_delays w' = tw_delays w" by blast
      moreover have "a = mr + 1" using False less.prems(2) by simp
      ultimately show ?thesis
        using Inl h by (intro exI [of _ ?u] exI [of _ w'] exI [of _ ?t]) simp
    next
      case True
      define w1 where "w1 = (w\<lparr>tw_sink := snd (te_emit env (TaskRetriedEvent (task_id ?m) (task_type ?m) (a + 1))
        (snd (te_emit env (TaskStartedEvent (task_id ?t) (task_type ?t) a) (tw_sink w)))),
        tw_delays := tw_delays w @ [timeout]\<rparr>)"
      have run: "run_task_attempts env h mr timeout a (t, w) = run_task_attempts env h mr timeout (a + 1) (?m, w1)"
        using True Inl by (simp add: run_task_attempts.simps [of env h mr timeout a] py_bind_split task_emit_app [OF q] task_delay_def w1_def)
      have "nat (mr + 1 - (a + 1)) < nat (mr + 1 - a)" "task_status ?m = TASK_RUNNING" "a + 1 \<le> mr + 1"
        using True h by auto
      from less.hyps [OF this, of w1] obtain t' w' u where r:
        "run_task_attempts env h mr timeout (a + 1) (?m, w1) = (Inr (), (t', w'))"
        "a + 1 \<le> task_attempts t'" "task_attempts t' \<le> mr + 1"
        "tw_delays w' = tw_delays w1 @ replicate (nat (task_attempts t' - (a + 1))) timeout"
        "case fst (h u) of
           Inr r \<Rightarrow> task_status t' = TASK_COMPLETED \<and> task_result t' = r \<and> task_error_message t' = task_error_message (snd (h u))
         | Inl e \<Rightarrow> task_status t' = TASK_FAILED \<and> task_error_message t' = exn_str e \<and> task_attempts t' = mr + 1"
        "task_completed_at t' \<noteq> None" "task_attempts u = task_attempts t'" by blast
      have "nat (task_attempts t' - a) = Suc (nat (task_attempts t' - (a + 1)))" using r(2) by simp
      then have "tw_delays w' = tw_delays w @ replicate (nat (task_attempts t' - a)) timeout"
        using r(4) by (simp add: w1_def)
      with r run show ?thesis by (intro exI [of _ t'] exI [of _ w'] exI [of _ u]) auto
    qed
  qed
qed

section \<open>Properties\<close>

text \<open>C12: Executing a pending task with a registered handler ends after at most \<open>max_retries + 1\<close>
  attempts: completed with the text of the last attempt, or failed with its error after exactly
  that many attempts; the configured delay is waited once between two attempts.\<close>

theorem task_execute_outcome:
  assumes "task_events_quiet env" and "task_status t = TASK_PENDING" and "0 \<le> task_max_retries t"
    and "dict_get (te_registry env) (task_type t) = Some h" and "task_handler_ok h"
  shows "\<exists>t' w' u. task_execute env (t, w) = (Inr (), (t', w')) \<and>
    1 \<le> task_attempts t' \<and> task_attempts t' \<le> task_max_retries t + 1 \<and> task_attempts u = task_attempts t' \<and>
    tw_delays w' = tw_delays w @ replicate (nat (task_attempts t' - 1)) (task_timeout_seconds t) \<and>
    (case fst (h u) of
       Inr r \<Rightarrow> task_status t' = TASK_COMPLETED \<and> task_result t' = r
     | Inl e \<Rightarrow> task_status t' = TASK_FAILED \<and> task_error_message t' = exn_str e \<and>
         task_attempts t' = task_max_retries t + 1)"
proof -
  let ?w = "w\<lparr>tw_sink := snd (te_emit env (TaskSubmittedEvent (task_id t) (task_type t)) (tw_sink w)), tw_ticks := Suc (tw_ticks w)\<rparr>"
  let ?t = "snd (task_transition_to (te_now env (tw_ticks w)) TASK_RUNNING t)"
  have t: "task_status ?t = TASK_RUNNING" using assms(2) by (simp add: task_transition_cases can_transition_task_def)
  have "task_execute env (t, w) = run_task_attempts env h (task_max_retries t) (task_timeout_seconds t) 1 (?t, ?w)"
    using assms(2,4)
    by (simp add: task_execute_def py_bind_split task_emit_app [OF assms(1)] task_registry_get_def task_move_app can_transition_task_def)
  moreover obtain t' w' u where "run_task_attempts env h (task_max_retries t) (task_timeout_seconds t) 1 (?t, ?w) = (Inr (), (t', w'))"
    "1 \<le> task_attempts t'" "task_attempts t' \<le> task_max_retries t + 1" "task_attempts u = task_attempts t'"
    "tw_delays w' = tw_delays w @ replicate (nat (task_attempts t' - 1)) (task_timeout_seconds t)"
    "case fst (h u) of
       Inr r \<Rightarrow> task_status t' = TASK_COMPLETED \<and> task_result t' = r \<and> task_error_message t' = task_error_message (snd (h u))
     | Inl e \<Rightarrow> task_status t' = TASK_FAILED \<and> task_error_message t' = exn_str e \<and> task_attempts t' = task_max_retries t + 1"
    using run_task_attempts_outcome [OF assms(1,5) t assms(3), of 1 "task_timeout_seconds t" ?w] assms(3) by auto
  ultimately show ?thesis by (intro exI [of _ t'] exI [of _ w'] exI [of _ u]) (auto split: sum.splits)
qed

text \<open>A task that is cancelled while its handler runs stays cancelled, and \<open>execute\<close> raises instead
  of returning it.\<close>

theorem task_cancelled_in_flight:
  assumes "task_events_quiet env" and "task_status t = TASK_PENDING"
    and "dict_get (te_registry env) (task_type t) = Some h"
    and "\<forall>u. \<not> isl (fst (h u)) \<and> task_status (snd (h u)) = TASK_CANCELLED \<and> task_id (snd (h u)) = task_id u"
  shows "\<exists>t' w'. task_execute env (t, w) = (Inl (Exn InvalidTaskStateError (''Cannot transition task '' @ task_id t
      @ '' from cancelled to completed'')), (t', w')) \<and> task_status t' = TASK_CANCELLED"
proof -
  let ?t = "(snd (task_transition_to (te_now env (tw_ticks w)) TASK_RUNNING t))\<lparr>task_attempts := 1\<rparr>"
  obtain r where r: "fst (h ?t) = Inr r" using assms(4) by (metis sum.collapse(2))
  have id': "task_id ?t = task_id t" by (simp add: task_transition_cases)
  show ?thesis
    using assms(2-4) r id'
    by (simp add: task_execute_def py_bind_split task_emit_app [OF assms(1)] task_registry_get_def task_move_app
        can_transition_task_def run_task_attempts.simps [of env h "task_max_retries t" "task_timeout_seconds t" 1])
qed

text \<open>A sequence of transition requests on a task succeeds exactly if it is a path of the table;
  \<open>cancel\<close> cancels exactly the pending and the running tasks, and refuses failed ones although
  the table would let them be cancelled.\<close>

theorem task_cancel_correct:
  assumes "task_events_quiet env"
  shows "(fst (py_for ts (task_transition_to now) t) = Inr () \<longleftrightarrow> path_ok can_transition_task (task_status t) ts) \<and>
    (if task_status t \<in> {TASK_PENDING, TASK_RUNNING}
     then \<exists>t' w'. task_cancel env (t, w) = (Inr (), (t', w')) \<and> task_status t' = TASK_CANCELLED
     else fst (task_cancel env (t, w)) = Inl (Exn InvalidTaskStateError (''Cannot cancel task '' @ task_id t @ '' in state ''
       @ task_status_value (task_status t))) \<and> snd (task_cancel env (t, w)) = (t, w)) \<and>
    can_transition_task TASK_FAILED TASK_CANCELLED"
proof -
  have moves: "fst (py_for ts (task_transition_to now) t) = Inr () \<longleftrightarrow> path_ok can_transition_task (task_status t) ts"
    by (rule task_table.moves_path)
  show ?thesis
    unfolding moves
    by (cases "task_status t") (simp_all add: task_cancel_def py_bind_split task_is_terminal_def task_move_app
        can_transition_task_def task_transition_cases task_emit_app [OF assms])
qed

section \<open>Witnesses\<close>

text \<open>A handler that fails until the second attempt.\<close>

definition second_try :: task_executable where
  "second_try t = (if task_attempts t < 2 then (Inl (Exn ValueError ''busy''), t) else (Inr ''ok'', t))"

definition cancelling :: task_executable where
  "cancelling t = (Inr ''late'', t\<lparr>task_status := TASK_CANCELLED\<rparr>)"

definition sample_task :: task where
  "sample_task = \<lparr>task_type = ''echo'', task_name = [], task_id = ''t1'', task_workspace_id = [], task_payload = [],
     task_status = TASK_PENDING, task_attempts = 0, task_max_retries = 3, task_timeout_seconds = 2, task_result = [],
     task_error_message = [], task_created_at = 0, task_started_at = None, task_completed_at = None\<rparr>"

definition sample_task_env :: "task_executable \<Rightarrow> task_event list task_env" where
  "sample_task_env h = \<lparr>te_registry = [(''echo'', h)], te_emit = (\<lambda>e. py_modify (\<lambda>l. l @ [e])), te_now = int\<rparr>"

lemma sample_task_quiet: "task_events_quiet (sample_task_env h)"
  by (simp add: task_events_quiet_def sample_task_env_def)

theorem task_execute_outcome_witness:
  "\<exists>t' w'. task_execute (sample_task_env second_try) (sample_task, \<lparr>tw_sink = [], tw_ticks = 0, tw_delays = []\<rparr>)
      = (Inr (), (t', w')) \<and> task_attempts t' \<le> 4"
proof -
  have "task_handler_ok second_try" by (simp add: task_handler_ok_def second_try_def)
  moreover have "dict_get (te_registry (sample_task_env second_try)) (task_type sample_task) = Some second_try"
    by (simp add: sample_task_env_def sample_task_def)
  moreover have "task_status sample_task = TASK_PENDING" "task_max_retries sample_task = 3" by (simp_all add: sample_task_def)
  ultimately show ?thesis
    using task_execute_outcome [OF sample_task_quiet, of sample_task second_try second_try "\<lparr>tw_sink = [], tw_ticks = 0, tw_delays = []\<rparr>"]
    by auto
qed

theorem task_cancelled_in_flight_witness:
  "\<exists>t' w'. task_execute (sample_task_env cancelling) (sample_task, \<lparr>tw_sink = [], tw_ticks = 0, tw_delays = []\<rparr>)
      = (Inl (Exn InvalidTaskStateError ''Cannot transition task t1 from cancelled to completed''), (t', w')) \<and>
    task_status t' = TASK_CANCELLED"
proof -
  have "dict_get (te_registry (sample_task_env cancelling)) (task_type sample_task) = Some cancelling"
    "task_status sample_task = TASK_PENDING" "task_id sample_task = ''t1''"
    by (simp_all add: sample_task_env_def sample_task_def)
  then show ?thesis
    using task_cancelled_in_flight [OF sample_task_quiet, of sample_task cancelling cancelling "\<lparr>tw_sink = [], tw_ticks = 0, tw_delays = []\<rparr>"]
    by (simp add: cancelling_def)
qed

theorem task_cancel_correct_witness:
  "\<exists>t' w'. task_cancel (sample_task_env second_try) (sample_task, \<lparr>tw_sink = [], tw_ticks = 0, tw_delays = []\<rparr>)
      = (Inr (), (t', w')) \<and> task_status t' = TASK_CANCELLED"
  using task_cancel_correct [OF sample_task_quiet, of "[]" 0 sample_task second_try "\<lparr>tw_sink = [], tw_ticks = 0, tw_delays = []\<rparr>"]
  by (simp add: sample_task_def)

end
