(* ===== verification/Artifact.thy ===== *)
theory Artifact
  imports State_Machine
begin

text \<open>
  \<open>artifacts/artifact.py\<close> with its types, states, versions, metadata and manifest. An artifact is
  a record; a method that mutates it is a state-and-exception computation on the record, with the
  clock readings it makes as arguments.
\<close>

section \<open>Types and states\<close>

datatype artifact_type =
    ORIGINAL_DOCUMENT | OCR_TEXT | OCR_LAYOUT | PARSED_DOCUMENT | ENTITIES | RELATIONSHIPS | CHUNKS
  | EMBEDDINGS | VECTOR_INDEX | KNOWLEDGE_GRAPH | TIMELINE | SUMMARY | REPORT | EXPORT | CACHE
  | THUMBNAIL | PREVIEW | LOG | METRICS

fun artifact_type_value :: "artifact_type \<Rightarrow> string" where
  "artifact_type_value ORIGINAL_DOCUMENT = ''original_document''"
| "artifact_type_value OCR_TEXT = ''ocr_text''"
| "artifact_type_value OCR_LAYOUT = ''ocr_layout''"
| "artifact_type_value PARSED_DOCUMENT = ''parsed_document''"
| "artifact_type_value ENTITIES = ''entities''"
| "artifact_type_value RELATIONSHIPS = ''relationships''"
| "artifact_type_value CHUNKS = ''chunks''"
| "artifact_type_value EMBEDDINGS = ''embeddings''"
| "artifact_type_value VECTOR_INDEX = ''vector_index''"
| "artifact_type_value KNOWLEDGE_GRAPH = ''knowledge_graph''"
| "artifact_type_value TIMELINE = ''timeline''"
| "artifact_type_value SUMMARY = ''summary''"
| "artifact_type_value REPORT = ''report''"
| "artifact_type_value EXPORT = ''export''"
| "artifact_type_value CACHE = ''cache''"
| "artifact_type_value THUMBNAIL = ''thumbnail''"
| "artifact_type_value PREVIEW = ''preview''"
| "artifact_type_value LOG = ''log''"
| "artifact_type_value METRICS = ''metrics''"

definition PIPELINE_ORDER :: "artifact_type list" where
  "PIPELINE_ORDER =
     [ORIGINAL_DOCUMENT, OCR_TEXT, OCR_LAYOUT, PARSED_DOCUMENT, ENTITIES, RELATIONSHIPS, CHUNKS, EMBEDDINGS,
      VECTOR_INDEX, KNOWLEDGE_GRAPH, TIMELINE, SUMMARY, REPORT, EXPORT]"

datatype artifact_status =
    ART_REGISTERED | ART_AVAILABLE | ART_INVALID | ART_SUPERSEDED | ART_ARCHIVED | ART_DELETED

fun artifact_status_value :: "artifact_status \<Rightarrow> string" where
  "artifact_status_value ART_REGISTERED = ''registered''"
| "artifact_status_value ART_AVAILABLE = ''available''"
| "artifact_status_value ART_INVALID = ''invalid''"
| "artifact_status_value ART_SUPERSEDED = ''superseded''"
| "artifact_status_value ART_ARCHIVED = ''archived''"
| "artifact_status_value ART_DELETED = ''deleted''"

fun artifact_transitions :: "artifact_status \<Rightarrow> artifact_status set" where
  "artifact_transitions ART_REGISTERED = {ART_AVAILABLE, ART_INVALID}"
| "artifact_transitions ART_AVAILABLE = {ART_SUPERSEDED, ART_ARCHIVED, ART_DELETED}"
| "artifact_transitions ART_INVALID = {ART_DELETED}"
| "artifact_transitions ART_SUPERSEDED = {ART_ARCHIVED, ART_DELETED}"
| "artifact_transitions ART_ARCHIVED = {ART_DELETED}"
| "artifact_transitions ART_DELETED = {}"

definition can_transition_artifact :: "artifact_status \<Rightarrow> artifact_status \<Rightarrow> bool" where
  "can_transition_artifact source target = (target \<in> artifact_transitions source)"

section \<open>Artifacts\<close>

record artifact_version =
  av_artifact_id :: string
  av_version_number :: int
  av_checksum :: string
  av_created_at :: int
  av_producer_module :: string
  av_producer_version :: string
  av_storage_uri :: string
  av_media_type :: string
  av_notes :: string

record artifact =
  art_id :: string
  art_workspace_id :: string
  art_investigation_id :: string
  art_type :: artifact_type
  art_subtype :: string
  art_status :: artifact_status
  art_current_version :: int
  art_producer_module :: string
  art_producer_version :: string
  art_checksum :: string
  art_media_type :: string
  art_storage_uri :: string
  art_tags :: "string list"
  art_extra :: "(string, string) dict"
  art_versions :: "artifact_version list"
  art_created_at :: int
  art_updated_at :: int

definition validation_error :: "string \<Rightarrow> string \<Rightarrow> exn" where
  "validation_error i reason =
     Exn ArtifactValidationError (''Artifact '' @ quoted i @ '' validation failed'' @
       (if reason = [] then [] else '': '' @ reason))"

definition artifact_post_init :: "artifact \<Rightarrow> exn + artifact" where
  "artifact_post_init a =
     (if art_id a = [] then Inl (validation_error (art_id a) ''artifact_id is required'')
      else if art_workspace_id a = [] then Inl (validation_error (art_id a) ''workspace_id is required'')
      else Inr a)"

definition artifact_state_error :: "string \<Rightarrow> string \<Rightarrow> string \<Rightarrow> exn" where
  "artifact_state_error i current operation =
     Exn ArtifactStateError (''Cannot '' @ operation @ '' artifact '' @ quoted i @ '' in state '' @ quoted current)"

definition artifact_transition :: "int \<Rightarrow> artifact_status \<Rightarrow> (artifact, unit) py" where
  "artifact_transition now target =
     py_bind (py_read (\<lambda>a. a)) (\<lambda>a.
     if \<not> can_transition_artifact (art_status a) target
     then py_lift (Inl (artifact_state_error (art_id a) (artifact_status_value (art_status a))
       (''transition to '' @ artifact_status_value target)))
     else py_modify (\<lambda>a. a\<lparr>art_status := target, art_updated_at := now\<rparr>))"

definition mark_available :: "int \<Rightarrow> (artifact, unit) py" where
  "mark_available now = artifact_transition now ART_AVAILABLE"

definition mark_invalid :: "int \<Rightarrow> (artifact, unit) py" where
  "mark_invalid now = artifact_transition now ART_INVALID"

definition supersede :: "int \<Rightarrow> (artifact, unit) py" where
  "supersede now = artifact_transition now ART_SUPERSEDED"

definition archive :: "int \<Rightarrow> (artifact, unit) py" where
  "archive now = artifact_transition now ART_ARCHIVED"

definition delete_artifact_state :: "int \<Rightarrow> (artifact, unit) py" where
  "delete_artifact_state now = py_modify (\<lambda>a. a\<lparr>art_status := ART_DELETED, art_updated_at := now\<rparr>)"

record version_request =
  vr_checksum :: string
  vr_producer_module :: string
  vr_producer_version :: string
  vr_storage_uri :: string
  vr_media_type :: string
  vr_notes :: string

definition create_new_version :: "int \<Rightarrow> int \<Rightarrow> version_request \<Rightarrow> (artifact, artifact_version) py" where
  "create_new_version created now req =
     py_bind (py_read (\<lambda>a. a)) (\<lambda>a.
     if art_status a \<in> {ART_DELETED, ART_ARCHIVED}
     then py_lift (Inl (artifact_state_error (art_id a) (artifact_status_value (art_status a)) ''create new version''))
     else
       let number = art_current_version a + 1;
           v = \<lparr>av_artifact_id = art_id a, av_version_number = number, av_checksum = vr_checksum req,
             av_created_at = created, av_producer_module = vr_producer_module req,
             av_producer_version = vr_producer_version req, av_storage_uri = vr_storage_uri req,
             av_media_type = vr_media_type req, av_notes = vr_notes req\<rparr>
       in py_bind (py_modify (\<lambda>a. a\<lparr>art_current_version := number, art_versions := art_versions a @ [v],
            art_checksum := vr_checksum req,
            art_storage_uri := (if vr_storage_uri req = [] then art_storage_uri a else vr_storage_uri req),
            art_media_type := (if vr_media_type req = [] then art_media_type a else vr_media_type req),
            art_updated_at := now\<rparr>)) (\<lambda>_. py_return v))"

definition validate_checksum :: "artifact \<Rightarrow> string \<Rightarrow> bool" where
  "validate_checksum a expected = (art_checksum a = expected)"

definition version_history :: "artifact \<Rightarrow> artifact_version list" where
  "version_history a = art_versions a"

definition latest_version :: "artifact \<Rightarrow> artifact_version option" where
  "latest_version a = (if art_versions a = [] then None else Some (last (art_versions a)))"

definition add_tag :: "int \<Rightarrow> string \<Rightarrow> artifact \<Rightarrow> artifact" where
  "add_tag now tag a =
     (if tag \<in> set (art_tags a) then a else a\<lparr>art_tags := art_tags a @ [tag], art_updated_at := now\<rparr>)"

definition remove_tag :: "int \<Rightarrow> string \<Rightarrow> artifact \<Rightarrow> artifact" where
  "remove_tag now tag a = a\<lparr>art_tags := filter (\<lambda>t. t \<noteq> tag) (art_tags a), art_updated_at := now\<rparr>"

section \<open>Manifest and metadata\<close>

record artifact_manifest =
  man_artifact_id :: string
  man_workspace_id :: string
  man_investigation_id :: string
  man_artifact_type :: string
  man_subtype :: string
  man_version :: int
  man_producer_module :: string
  man_producer_version :: string
  man_created_at :: int
  man_checksum :: string
  man_media_type :: string
  man_storage_uri :: string
  man_dependencies :: "string list"
  man_tags :: "string list"
  man_schema_version :: string

record manifest_validation_result =
  mv_is_valid :: bool
  mv_errors :: "string list"

definition SUPPORTED_SCHEMA_VERSIONS :: "string set" where
  "SUPPORTED_SCHEMA_VERSIONS = {''1.0.0''}"

definition manifest_validate :: "artifact_manifest \<Rightarrow> manifest_validation_result" where
  "manifest_validate m =
     (let errors =
        (if man_artifact_id m = [] then [''artifact_id is required''] else []) @
        (if man_workspace_id m = [] then [''workspace_id is required''] else []) @
        (if man_artifact_type m = [] then [''artifact_type is required''] else []) @
        (if man_version m < 1 then [''version must be >= 1''] else []) @
        (if man_checksum m = [] then [''checksum is required''] else []) @
        (if man_schema_version m \<notin> SUPPORTED_SCHEMA_VERSIONS
         then [''unsupported schema version '' @ quoted (man_schema_version m)] else [])
      in \<lparr>mv_is_valid = (length errors = 0), mv_errors = errors\<rparr>)"

definition build_manifest :: "artifact \<Rightarrow> artifact_manifest" where
  "build_manifest a =
     \<lparr>man_artifact_id = art_id a, man_workspace_id = art_workspace_id a, man_investigation_id = art_investigation_id a,
      man_artifact_type = artifact_type_value (art_type a), man_subtype = art_subtype a,
      man_version = art_current_version a, man_producer_module = art_producer_module a,
      man_producer_version = art_producer_version a, man_created_at = art_created_at a,
      man_checksum = art_checksum a, man_media_type = art_media_type a, man_storage_uri = art_storage_uri a,
      man_dependencies = [], man_tags = art_tags a, man_schema_version = ''1.0.0''\<rparr>"

definition validate_manifest :: "artifact \<Rightarrow> artifact_manifest option \<Rightarrow> manifest_validation_result" where
  "validate_manifest a m = manifest_validate (case m of None \<Rightarrow> build_manifest a | Some m \<Rightarrow> m)"

record artifact_metadata =
  am_artifact_id :: string
  am_workspace_id :: string
  am_investigation_id :: string
  am_artifact_type :: string
  am_subtype :: string
  am_version :: int
  am_producer_module :: string
  am_producer_version :: string
  am_created_at :: int
  am_checksum :: string
  am_media_type :: string
  am_storage_uri :: string
  am_tags :: "string list"
  am_extra :: "(string, string) dict"

definition build_metadata :: "artifact \<Rightarrow> artifact_metadata" where
  "build_metadata a =
     \<lparr>am_artifact_id = art_id a, am_workspace_id = art_workspace_id a, am_investigation_id = art_investigation_id a,
      am_artifact_type = artifact_type_value (art_type a), am_subtype = art_subtype a,
      am_version = art_current_version a, am_producer_module = art_producer_module a,
      am_producer_version = art_producer_version a, am_created_at = art_created_at a,
      am_checksum = art_checksum a, am_media_type = art_media_type a, am_storage_uri = art_storage_uri a,
      am_tags = art_tags a, am_extra = art_extra a\<rparr>"

section \<open>The life cycle\<close>

lemma artifact_transition_cases:
  "artifact_transition now target a =
    (if can_transition_artifact (art_status a) target then (Inr (), a\<lparr>art_status := target, art_updated_at := now\<rparr>)
     else (Inl (artifact_state_error (art_id a) (artifact_status_value (art_status a))
       (''transition to '' @ artifact_status_value target)), a))"
  by (simp add: artifact_transition_def)

interpretation artifact_table: transition_system can_transition_artifact art_status "artifact_transition now"
  by unfold_locales (simp_all add: artifact_transition_cases)

section \<open>The requests a client can make of one artifact\<close>

datatype artifact_request =
    Move artifact_status | Delete_It | New_Version version_request | Add_Tag string | Remove_Tag string

fun artifact_step :: "int \<Rightarrow> artifact_request \<Rightarrow> artifact \<Rightarrow> artifact" where
  "artifact_step now (Move target) a = snd (artifact_transition now target a)"
| "artifact_step now Delete_It a = snd (delete_artifact_state now a)"
| "artifact_step now (New_Version req) a = snd (create_new_version now now req a)"
| "artifact_step now (Add_Tag t) a = add_tag now t a"
| "artifact_step now (Remove_Tag t) a = remove_tag now t a"

definition versions_ok :: "artifact \<Rightarrow> bool" where
  "versions_ok a =
     (map av_version_number (art_versions a) = [2..art_current_version a] \<and> 1 \<le> art_current_version a \<and>
      (\<forall>v \<in> set (art_versions a). av_artifact_id v = art_id a) \<and>
      (art_versions a \<noteq> [] \<longrightarrow> av_checksum (last (art_versions a)) = art_checksum a) \<and> distinct (art_tags a))"

lemma create_new_version_cases:
  "create_new_version created now req a =
    (if art_status a \<in> {ART_DELETED, ART_ARCHIVED}
     then (Inl (artifact_state_error (art_id a) (artifact_status_value (art_status a)) ''create new version''), a)
     else let v = \<lparr>av_artifact_id = art_id a, av_version_number = art_current_version a + 1, av_checksum = vr_checksum req,
             av_created_at = created, av_producer_module = vr_producer_module req,
             av_producer_version = vr_producer_version req, av_storage_uri = vr_storage_uri req,
             av_media_type = vr_media_type req, av_notes = vr_notes req\<rparr> in
       (Inr v, a\<lparr>art_current_version := art_current_version a + 1, art_versions := art_versions a @ [v],
          art_checksum := vr_checksum req,
          art_storage_uri := (if vr_storage_uri req = [] then art_storage_uri a else vr_storage_uri req),
          art_media_type := (if vr_media_type req = [] then art_media_type a else vr_media_type req),
          art_updated_at := now\<rparr>))"
  by (simp add: create_new_version_def Let_def)

lemma versions_ok_step:
  assumes "versions_ok a"
  shows "versions_ok (artifact_step now r a) \<and> art_id (artifact_step now r a) = art_id a \<and>
    (\<exists>vs. art_versions (artifact_step now r a) = art_versions a @ vs)"
proof (cases r)
  case (Move target)
  then show ?thesis using assms by (simp add: artifact_transition_cases versions_ok_def)
next
  case Delete_It
  then show ?thesis using assms by (simp add: delete_artifact_state_def versions_ok_def)
next
  case (New_Version req)
  have "[2..art_current_version a + 1] = [2..art_current_version a] @ [art_current_version a + 1]"
    using assms upto_rec2 [of 2 "art_current_version a + 1"] by (simp add: versions_ok_def)
  then show ?thesis using assms New_Version by (simp add: create_new_version_cases Let_def versions_ok_def)
next
  case (Add_Tag t)
  then show ?thesis using assms by (simp add: add_tag_def versions_ok_def)
next
  case (Remove_Tag t)
  then show ?thesis using assms by (simp add: remove_tag_def versions_ok_def)
qed

lemma versions_ok_steps:
  assumes "versions_ok a"
  shows "versions_ok (fold (artifact_step now) rs a) \<and> art_id (fold (artifact_step now) rs a) = art_id a \<and>
    (\<exists>vs. art_versions (fold (artifact_step now) rs a) = art_versions a @ vs)"
  using assms
proof (induction rs arbitrary: a)
  case Nil
  then show ?case by simp
next
  case (Cons r rs)
  from versions_ok_step [OF Cons.prems, of now r] Cons.IH [of "artifact_step now r a"] show ?case by auto
qed

section \<open>Properties\<close>

text \<open>Whatever is requested of a new artifact, accepted or refused, its recorded versions are
  numbered 2, 3, ... up to the current version, all carry its id, the last one carries its
  checksum, tags are never duplicated, and records once written stay in the history.\<close>

theorem artifact_versions_numbered:
  assumes "art_versions a = []" and "art_current_version a = 1" and "distinct (art_tags a)"
  shows "versions_ok (fold (artifact_step now) rs a) \<and>
    (\<exists>vs. version_history (fold (artifact_step now) (rs @ rs') a) = version_history (fold (artifact_step now) rs a) @ vs)"
proof -
  have "versions_ok a" using assms by (simp add: versions_ok_def)
  then have "versions_ok (fold (artifact_step now) rs a)" using versions_ok_steps by blast
  with versions_ok_steps [OF this, of now rs'] show ?thesis by (simp add: version_history_def)
qed

text \<open>A sequence of transition requests on an artifact succeeds exactly if it is a path of the
  transition table; but \<open>delete\<close> does not consult the table: it deletes from every state, also
  from \<open>REGISTERED\<close>, from where the table has no way to \<open>DELETED\<close>.\<close>

theorem artifact_delete_bypasses:
  "(fst (py_for ts (artifact_transition now) a) = Inr () \<longleftrightarrow> path_ok can_transition_artifact (art_status a) ts) \<and>
    fst (delete_artifact_state now a) = Inr () \<and> art_status (snd (delete_artifact_state now a)) = ART_DELETED \<and>
    \<not> can_transition_artifact ART_REGISTERED ART_DELETED \<and>
    try_moves (artifact_transition now) ts (snd (delete_artifact_state now a)) = snd (delete_artifact_state now a)"
proof -
  let ?d = "snd (delete_artifact_state now a)"
  have d: "art_status ?d = ART_DELETED" by (simp add: delete_artifact_state_def)
  have "try_moves (artifact_transition now) ts ?d = ?d"
    by (rule artifact_table.try_moves_final) (simp add: d can_transition_artifact_def)
  with d show ?thesis
    using artifact_table.moves_path [of ts now a] by (simp add: delete_artifact_state_def can_transition_artifact_def)
qed

text \<open>Validating the manifest of an artifact the constructor accepted fails exactly on a missing
  checksum (its version number cannot be below one); a manifest handed in is valid exactly if
  every required field is there and its schema version is supported.\<close>

theorem manifest_validation:
  assumes "artifact_post_init a = Inr a" and "versions_ok a"
  shows "(mv_is_valid (validate_manifest a None) \<longleftrightarrow> art_checksum a \<noteq> []) \<and>
    mv_errors (validate_manifest a None) = (if art_checksum a = [] then [''checksum is required''] else []) \<and>
    (mv_is_valid (validate_manifest a (Some m)) \<longleftrightarrow>
      man_artifact_id m \<noteq> [] \<and> man_workspace_id m \<noteq> [] \<and> man_artifact_type m \<noteq> [] \<and> 1 \<le> man_version m \<and>
      man_checksum m \<noteq> [] \<and> man_schema_version m = ''1.0.0'')"
proof -
  have "art_id a \<noteq> []" "art_workspace_id a \<noteq> []"
    using assms(1) by (auto simp: artifact_post_init_def split: if_splits)
  moreover have "artifact_type_value t \<noteq> []" for t by (cases t) simp_all
  moreover have "\<not> art_current_version a < 1" using assms(2) by (simp add: versions_ok_def)
  ultimately have b: "mv_errors (manifest_validate (build_manifest a)) = (if art_checksum a = [] then [''checksum is required''] else [])"
    by (simp add: manifest_validate_def build_manifest_def Let_def SUPPORTED_SCHEMA_VERSIONS_def)
  have v: "mv_is_valid (manifest_validate x) \<longleftrightarrow> mv_errors (manifest_validate x) = []" for x
    by (simp only: manifest_validate_def Let_def manifest_validation_result.simps length_0_conv)
  have "mv_is_valid (manifest_validate m) \<longleftrightarrow>
      man_artifact_id m \<noteq> [] \<and> man_workspace_id m \<noteq> [] \<and> man_artifact_type m \<noteq> [] \<and> \<not> man_version m < 1 \<and>
      man_checksum m \<noteq> [] \<and> man_schema_version m = ''1.0.0''"
    unfolding v by (simp add: manifest_validate_def Let_def SUPPORTED_SCHEMA_VERSIONS_def)
  then show ?thesis by (simp add: validate_manifest_def b v not_less)
qed

section \<open>Witnesses\<close>

definition sample_artifact :: artifact where
  "sample_artifact = \<lparr>art_id = ''a1'', art_workspace_id = ''ws'', art_investigation_id = [], art_type = OCR_TEXT,
     art_subtype = [], art_status = ART_REGISTERED, art_current_version = 1, art_producer_module = ''ocr'',
     art_producer_version = [], art_checksum = ''c0'', art_media_type = [], art_storage_uri = [], art_tags = [],
     art_extra = [], art_versions = [], art_created_at = 0, art_updated_at = 0\<rparr>"

definition sample_version :: version_request where
  "sample_version = \<lparr>vr_checksum = ''c1'', vr_producer_module = [], vr_producer_version = [], vr_storage_uri = [],
     vr_media_type = [], vr_notes = []\<rparr>"

lemma sample_artifact_start:
  "art_versions sample_artifact = []" "art_current_version sample_artifact = 1" "distinct (art_tags sample_artifact)"
  "artifact_post_init sample_artifact = Inr sample_artifact"
  by (simp_all add: sample_artifact_def artifact_post_init_def)

theorem artifact_versions_numbered_witness:
  "versions_ok (fold (artifact_step 7) [New_Version sample_version, Delete_It, New_Version sample_version] sample_artifact)"
  using artifact_versions_numbered [OF sample_artifact_start(1-3)] by blast

theorem manifest_validation_witness:
  "mv_is_valid (validate_manifest sample_artifact None)"
proof -
  have "versions_ok sample_artifact" by (simp add: sample_artifact_def versions_ok_def)
  from manifest_validation [OF sample_artifact_start(4) this] show ?thesis by (simp add: sample_artifact_def)
qed

end
