(* ===== verification/Py_Text.thy ===== *)
theory Py_Text
  imports Prelude "HOL-Library.List_Lexorder" "HOL-Library.Char_ord"
begin

text \<open>
  What the program uses of Python's \<open>str\<close>, for code points below 256: character classes, \<open>split()\<close> without
  arguments and at a separator, \<open>strip()\<close>, \<open>lower()\<close>, decimal digits; and the iteration over a set of strings.
\<close>

text \<open>\<open>str.isspace\<close> and \<open>str.isalnum\<close> of one character.\<close>

definition is_space :: "char \<Rightarrow> bool" where
  "is_space c = (let n = of_char c :: nat in 9 \<le> n \<and> n \<le> 13 \<or> 28 \<le> n \<and> n \<le> 32 \<or> n = 133 \<or> n = 160)"

definition is_alnum :: "char \<Rightarrow> bool" where
  "is_alnum c = (let n = of_char c :: nat in
     48 \<le> n \<and> n \<le> 57 \<or> 65 \<le> n \<and> n \<le> 90 \<or> 97 \<le> n \<and> n \<le> 122 \<or> n \<in> {170, 178, 179, 181, 185, 186, 188, 189, 190} \<or>
     192 \<le> n \<and> n \<noteq> 215 \<and> n \<noteq> 247)"

text \<open>\<open>s.split()\<close>: the maximal runs of characters that are not spaces.\<close>

fun split_words :: "string \<Rightarrow> string \<Rightarrow> string list" where
  "split_words w [] = (if w = [] then [] else [w])"
| "split_words w (c # cs) =
     (if is_space c then (if w = [] then split_words [] cs else w # split_words [] cs) else split_words (w @ [c]) cs)"

definition str_words :: "string \<Rightarrow> string list" where
  "str_words s = split_words [] s"

definition str_strip :: "string \<Rightarrow> string" where
  "str_strip s = rev (dropWhile is_space (rev (dropWhile is_space s)))"

lemma split_words_nonempty:
  assumes "\<forall>c \<in> set w. \<not> is_space c"
  shows "\<forall>w' \<in> set (split_words w s). w' \<noteq> [] \<and> (\<forall>c \<in> set w'. \<not> is_space c)"
  using assms
proof (induction s arbitrary: w)
  case Nil
  then show ?case by simp
next
  case (Cons c cs)
  show ?case
  proof (cases "is_space c")
    case True
    with Cons.IH [of "[]"] Cons.prems show ?thesis by simp
  next
    case False
    with Cons.IH [of "w @ [c]"] Cons.prems show ?thesis by simp
  qed
qed

lemma str_words_no_space: "w \<in> set (str_words s) \<Longrightarrow> w \<noteq> [] \<and> (\<forall>c \<in> set w. \<not> is_space c)"
  using split_words_nonempty [of "[]" s] by (simp add: str_words_def)

text \<open>Splitting loses nothing but the spaces.\<close>

lemma concat_split_words: "concat (split_words w s) = w @ filter (\<lambda>c. \<not> is_space c) s"
  by (induction w s rule: split_words.induct) auto

lemma concat_str_words: "concat (str_words s) = filter (\<lambda>c. \<not> is_space c) s"
  by (simp add: str_words_def concat_split_words)

lemma str_words_empty: "str_words s = [] \<longleftrightarrow> (\<forall>c \<in> set s. is_space c)"
proof
  assume "str_words s = []"
  then show "\<forall>c \<in> set s. is_space c" using concat_str_words [of s] by (metis concat.simps(1) filter_empty_conv)
next
  assume sp: "\<forall>c \<in> set s. is_space c"
  then have "split_words [] s = []" by (induction s) auto
  then show "str_words s = []" by (simp add: str_words_def)
qed

lemma str_strip_blank: "str_strip s = [] \<longleftrightarrow> (\<forall>c \<in> set s. is_space c)"
proof
  assume "str_strip s = []"
  then have sp: "\<forall>c \<in> set (dropWhile is_space s). is_space c" by (simp add: str_strip_def dropWhile_eq_Nil_conv)
  have "dropWhile is_space s = []"
    using hd_dropWhile [of is_space s] sp by (cases "dropWhile is_space s") simp_all
  then show "\<forall>c \<in> set s. is_space c" by (simp add: dropWhile_eq_Nil_conv)
next
  assume "\<forall>c \<in> set s. is_space c"
  then have nil: "dropWhile is_space s = []" unfolding dropWhile_eq_Nil_conv .
  show "str_strip s = []" unfolding str_strip_def nil by simp
qed

section \<open>Splitting at a separator\<close>

text \<open>\<open>s.split(sep)\<close> for a one-character separator.\<close>

fun str_split :: "char \<Rightarrow> string \<Rightarrow> string list" where
  "str_split sep [] = [[]]"
| "str_split sep (c # cs) =
     (if c = sep then [] # str_split sep cs
      else (case str_split sep cs of [] \<Rightarrow> [[c]] | t # ts \<Rightarrow> (c # t) # ts))"

lemma str_split_none: "sep \<notin> set s \<Longrightarrow> str_split sep s = [s]"
  by (induction s) auto

lemma str_split_append: "sep \<notin> set s \<Longrightarrow> str_split sep (s @ sep # t) = s # str_split sep t"
  by (induction s) auto

lemma str_split_join:
  "xs \<noteq> [] \<Longrightarrow> \<forall>x \<in> set xs. sep \<notin> set x \<Longrightarrow> str_split sep (str_join [sep] xs) = xs"
proof (induction "[sep]" xs rule: str_join.induct)
  case (3 x y xs)
  then show ?case by (simp add: str_split_append)
qed (simp_all add: str_split_none)

section \<open>Lower case\<close>

text \<open>\<open>s.lower()\<close>.\<close>

definition lower_char :: "char \<Rightarrow> char" where
  "lower_char c = (let n = of_char c :: nat in
     if 65 \<le> n \<and> n \<le> 90 \<or> 192 \<le> n \<and> n \<le> 222 \<and> n \<noteq> 215 then char_of (n + 32) else c)"

definition str_lower :: "string \<Rightarrow> string" where
  "str_lower s = map lower_char s"

lemma lower_char_twice [simp]: "lower_char (lower_char c) = lower_char c"
  by (auto simp: lower_char_def Let_def)

lemma str_lower_twice [simp]: "str_lower (str_lower s) = str_lower s"
  by (simp add: str_lower_def)

section \<open>Decimal numbers\<close>

definition is_decimal :: "char \<Rightarrow> bool" where
  "is_decimal c = (48 \<le> (of_char c :: nat) \<and> (of_char c :: nat) \<le> 57)"

definition digit_value :: "char \<Rightarrow> nat" where
  "digit_value c = of_char c - 48"

lemma decimal_digit: "n < 10 \<Longrightarrow> is_decimal (char_of (48 + n)) \<and> digit_value (char_of (48 + n)) = n"
  by (simp add: is_decimal_def digit_value_def)

lemma nat_str_digits: "nat_str n \<noteq> [] \<and> (\<forall>c \<in> set (nat_str n). is_decimal c) \<and>
    foldl (\<lambda>n c. n * 10 + digit_value c) 0 (nat_str n) = n"
proof (induction n rule: nat_str.induct)
  case (1 n)
  show ?case
  proof (cases "n < 10")
    case True
    then show ?thesis using decimal_digit [of n] by (simp add: nat_str.simps [of n])
  next
    case False
    then show ?thesis using 1 [OF False] decimal_digit [of "n mod 10"] by (simp add: nat_str.simps [of n])
  qed
qed

lemma is_decimal_not_dot: "is_decimal c \<Longrightarrow> c \<noteq> CHR ''.''"
  by (auto simp: is_decimal_def)

section \<open>Lemmas on stripping, splitting and joining\<close>

lemma is_space_lower [simp]: "is_space (lower_char c) = is_space c"
  by (auto simp: lower_char_def is_space_def Let_def)

lemma str_strip_ends: "s = [] \<or> \<not> is_space (hd s) \<and> \<not> is_space (last s) \<Longrightarrow> str_strip s = s"
proof (elim disjE)
  assume a: "\<not> is_space (hd s) \<and> \<not> is_space (last s)"
  show "str_strip s = s"
  proof (cases "s = []")
    case False
    then obtain x xs where "s = x # xs" by (cases s) simp_all
    then have d: "dropWhile is_space s = s" using a by simp
    obtain y ys where r: "rev s = y # ys" using False by (cases "rev s") simp_all
    then have "last s = y" by (metis last_rev list.sel(1) rev_rev_ident False hd_rev)
    then have "dropWhile is_space (rev s) = rev s" using a r by simp
    then show ?thesis by (simp add: str_strip_def d)
  qed (simp add: str_strip_def)
qed (simp add: str_strip_def)

lemma str_strip_hd_last:
  assumes "str_strip s \<noteq> []"
  shows "\<not> is_space (hd (str_strip s)) \<and> \<not> is_space (last (str_strip s))"
proof
  let ?d = "dropWhile is_space s"
  let ?r = "dropWhile is_space (rev ?d)"
  have r: "?r \<noteq> []" using assms by (simp add: str_strip_def)
  show "\<not> is_space (last (str_strip s))" using hd_dropWhile [OF r] by (simp add: str_strip_def last_rev)
  obtain k where "rev ?r = take k ?d" by (metis dropWhile_eq_drop rev_drop rev_rev_ident)
  then have "hd (rev ?r) = hd ?d" using r by (metis hd_take rev_is_Nil_conv take_eq_Nil not_gr_zero)
  moreover have "?d \<noteq> []" using r by (metis dropWhile.simps(1) rev.simps(1))
  ultimately show "\<not> is_space (hd (str_strip s))" using hd_dropWhile [of is_space s] by (simp add: str_strip_def)
qed

lemma str_strip_idem [simp]: "str_strip (str_strip s) = str_strip s"
  using str_strip_hd_last [of s] by (intro str_strip_ends) blast

lemma str_strip_lower: "str_strip (str_lower s) = str_lower (str_strip s)"
  by (simp add: str_strip_def str_lower_def dropWhile_map rev_map o_def)

lemma str_strip_filter: "filter (\<lambda>c. \<not> is_space c) (str_strip s) = filter (\<lambda>c. \<not> is_space c) s"
proof -
  have f: "filter (\<lambda>c. \<not> is_space c) (dropWhile is_space xs) = filter (\<lambda>c. \<not> is_space c) xs" for xs
    by (induction xs) simp_all
  show ?thesis unfolding str_strip_def by (metis f rev_filter rev_rev_ident)
qed

lemma str_strip_mem: "c \<in> set s \<Longrightarrow> \<not> is_space c \<Longrightarrow> c \<in> set (str_strip s)"
proof -
  assume "c \<in> set s" "\<not> is_space c"
  then have "c \<in> set (filter (\<lambda>c. \<not> is_space c) (str_strip s))" by (simp add: str_strip_filter)
  then show ?thesis by simp
qed

text \<open>Words joined by single spaces are split into the same words.\<close>

lemma split_words_word: "\<forall>c \<in> set u. \<not> is_space c \<Longrightarrow> split_words w (u @ s) = split_words (w @ u) s"
  by (induction u arbitrary: w) simp_all

lemma str_words_join:
  assumes "\<forall>w \<in> set ws. w \<noteq> [] \<and> (\<forall>c \<in> set w. \<not> is_space c)"
  shows "str_words (str_join '' '' ws) = ws"
  using assms
proof (induction "'' ''" ws rule: str_join.induct)
  case (2 x)
  then show ?case using split_words_word [of x "[]" "[]"] by (simp add: str_words_def)
next
  case (3 x y xs)
  have "is_space CHR '' ''" by (simp add: is_space_def)
  moreover have "split_words [] (x @ CHR '' '' # str_join '' '' (y # xs)) = split_words x (CHR '' '' # str_join '' '' (y # xs))"
    using 3 split_words_word [of x "[]"] by simp
  ultimately show ?case using 3 by (simp add: str_words_def)
qed (simp add: str_words_def)

lemma str_join_split: "str_join [sep] (str_split sep s) = s"
proof (induction s)
  case (Cons c s)
  have j: "str_join [sep] ((c # a) # as) = c # str_join [sep] (a # as)" for a as by (cases as) simp_all
  obtain a as where "str_split sep s = a # as" by (cases "str_split sep s"; cases s) (auto split: list.splits if_splits)
  then show ?case using Cons j by auto
qed simp

lemma str_split_pieces: "t \<in> set (str_split sep s) \<Longrightarrow> sep \<notin> set t"
  by (induction s arbitrary: t) (auto split: list.splits if_splits)

lemma str_split_hd: "\<exists>ts. str_split sep s = takeWhile (\<lambda>c. c \<noteq> sep) s # ts"
  by (induction s) auto

lemma nat_str_hd: "0 < n \<Longrightarrow> hd (nat_str n) \<noteq> CHR ''0''"
proof (induction n rule: nat_str.induct)
  case (1 n)
  show ?case
  proof (cases "n < 10")
    case True
    then have "digit_value (hd (nat_str n)) = n" using decimal_digit [of n] by (simp add: nat_str.simps [of n])
    then show ?thesis using 1 by (auto simp: digit_value_def)
  next
    case False
    then show ?thesis using 1(1) [OF False] nat_str_digits [of "n div 10"] by (simp add: nat_str.simps [of n])
  qed
qed

text \<open>Digits without leading zeros are the decimal text of their value.\<close>

lemma nat_str_of_digits:
  assumes "ds \<noteq> []" and "\<forall>c \<in> set ds. is_decimal c" and "hd ds = CHR ''0'' \<longrightarrow> ds = ''0''"
  shows "nat_str (foldl (\<lambda>n c. n * 10 + digit_value c) 0 ds) = ds"
  using assms
proof (induction ds rule: rev_induct)
  case (snoc c ds)
  let ?v = "foldl (\<lambda>n c. n * 10 + digit_value c) 0"
  have dc: "digit_value c < 10" "char_of (48 + digit_value c) = c"
    using snoc.prems(2) by (auto simp: is_decimal_def digit_value_def)
  show ?case
  proof (cases "ds = []")
    case True
    then show ?thesis using dc by (simp add: nat_str.simps)
  next
    case False
    then have hd: "hd ds \<noteq> CHR ''0''" using snoc.prems(3) by (cases ds) auto
    with snoc False have ds: "nat_str (?v ds) = ds" by simp
    have "hd (nat_str 0) = CHR ''0''" by code_simp
    then have "?v ds \<noteq> 0" using ds hd by metis
    then have "0 < ?v ds" by simp
    then have "\<not> ?v ds * 10 + digit_value c < 10" by simp
    then show ?thesis using ds dc nat_str.simps [of "?v ds * 10 + digit_value c"] by simp
  qed
qed simp

section \<open>Sets in the interpreter's order\<close>

type_synonym set_order = "string set \<Rightarrow> string list"

definition set_iter :: "set_order \<Rightarrow> string set \<Rightarrow> string list" where
  "set_iter it A = (if distinct (it A) \<and> set (it A) = A then it A else sorted_list_of_set A)"

lemma set_set_iter [simp]: "finite A \<Longrightarrow> set (set_iter it A) = A"
  by (auto simp: set_iter_def)

lemma distinct_set_iter [simp, intro]: "distinct (set_iter it A)"
  by (auto simp: set_iter_def)

lemma set_iter_empty [simp]: "set_iter it {} = []"
  by (simp add: set_iter_def)

lemma set_set_iter_subset: "set (set_iter it A) \<subseteq> A"
  by (cases "finite A") (auto simp: set_iter_def)

end
