(* ===== verification/Artifact_Graph.thy ===== *)
theory Artifact_Graph
  imports Py_Text
begin

text \<open>
  \<open>artifacts/artifact_dependency.py\<close>: the dependency graph of the artifacts. \<open>_edges\<close> and
  \<open>_reverse\<close> are dictionaries of sets, kept as mirror images of each other.

  The order in which the interpreter iterates over a set is not the program's: it is the parameter
  \<open>it\<close> of every operation that iterates over one (a choice that does not enumerate the set counts
  as the sorted order), so the lemmas hold for every order.
\<close>

section \<open>The graph\<close>

record artifact_dependency =
  dep_parent_id :: string
  dep_child_id :: string
  dep_relationship :: string
  dep_pipeline_stage :: string

type_synonym adjacency = "(string, string set) dict"

record dependency_graph =
  dg_edges :: adjacency
  dg_reverse :: adjacency
  dg_metadata :: "(string, artifact_dependency) dict"

definition new_graph :: dependency_graph where
  "new_graph = \<lparr>dg_edges = [], dg_reverse = [], dg_metadata = []\<rparr>"

text \<open>\<open>d.get(k, set())\<close> and \<open>d.setdefault(k, set()).add(v)\<close>.\<close>

definition adj :: "adjacency \<Rightarrow> string \<Rightarrow> string set" where
  "adj d k = (case dict_get d k of None \<Rightarrow> {} | Some s \<Rightarrow> s)"

definition adj_add :: "string \<Rightarrow> string \<Rightarrow> adjacency \<Rightarrow> adjacency" where
  "adj_add k v d = dict_set k (insert v (adj d k)) d"

text \<open>\<open>d.get(k, set()).discard(v)\<close>: a missing key stays missing.\<close>

definition adj_discard :: "string \<Rightarrow> string \<Rightarrow> adjacency \<Rightarrow> adjacency" where
  "adj_discard k v d = (case dict_get d k of None \<Rightarrow> d | Some s \<Rightarrow> dict_set k (s - {v}) d)"

text \<open>The loop of \<open>_would_create_cycle\<close>; the head of the list is the top of the stack.\<close>

function cycle_search :: "set_order \<Rightarrow> adjacency \<Rightarrow> string \<Rightarrow> string set \<Rightarrow> string list \<Rightarrow> bool" where
  "cycle_search it d parent visited [] = False"
| "cycle_search it d parent visited (node # stack) =
     (if node = parent then True
      else if node \<in> visited then cycle_search it d parent visited stack
      else cycle_search it d parent (insert node visited) (rev (set_iter it (adj d node)) @ stack))"
  by pat_completeness auto

lemma adj_no_key: "k \<notin> set (dict_keys d) \<Longrightarrow> adj d k = {}"
  by (metis adj_def dict_get_key option.exhaust option.simps(4))

termination cycle_search
proof (relation "measures [\<lambda>(it, d, parent, visited, stack). card (set (dict_keys d) - visited),
    \<lambda>(it, d, parent, visited, stack). length stack]", goal_cases)
  case 1
  show ?case by simp
next
  case (2 it d parent visited node stack)
  then show ?case by simp
next
  case (3 it d parent visited node stack)
  show ?case
  proof (cases "node \<in> set (dict_keys d)")
    case True
    with 3 have "card (set (dict_keys d) - insert node visited) < card (set (dict_keys d) - visited)"
      by (intro psubset_card_mono) auto
    then show ?thesis by simp
  next
    case False
    moreover from this have "set (dict_keys d) - insert node visited = set (dict_keys d) - visited" by auto
    ultimately show ?thesis by (simp add: adj_no_key)
  qed
qed

definition would_create_cycle :: "set_order \<Rightarrow> dependency_graph \<Rightarrow> string \<Rightarrow> string \<Rightarrow> bool" where
  "would_create_cycle it g parent child = cycle_search it (dg_edges g) parent {} [child]"

definition edge_key :: "string \<Rightarrow> string \<Rightarrow> string" where
  "edge_key p c = p @ ''->'' @ c"

definition graph_add :: "set_order \<Rightarrow> artifact_dependency \<Rightarrow> (dependency_graph, unit) py" where
  "graph_add it dep =
     (let p = dep_parent_id dep; c = dep_child_id dep in
      if p = c then py_raise ValueError ''Self-dependency is not allowed''
      else py_bind (py_read (\<lambda>g. would_create_cycle it g p c)) (\<lambda>cyclic.
        if cyclic then py_raise ValueError (''Adding '' @ p @ '' -> '' @ c @ '' would create a cycle'')
        else py_modify (\<lambda>g. g\<lparr>dg_edges := adj_add p c (dg_edges g), dg_reverse := adj_add c p (dg_reverse g),
          dg_metadata := dict_set (edge_key p c) dep (dg_metadata g)\<rparr>)))"

definition graph_children :: "dependency_graph \<Rightarrow> string \<Rightarrow> string set" where
  "graph_children g a = adj (dg_edges g) a"

definition graph_parents :: "dependency_graph \<Rightarrow> string \<Rightarrow> string set" where
  "graph_parents g a = adj (dg_reverse g) a"

definition all_artifacts :: "dependency_graph \<Rightarrow> string set" where
  "all_artifacts g = set (dict_keys (dg_edges g)) \<union> set (dict_keys (dg_reverse g))"

definition graph_roots :: "dependency_graph \<Rightarrow> string set" where
  "graph_roots g = all_artifacts g - set (dict_keys (dg_reverse g))"

definition graph_leaves :: "dependency_graph \<Rightarrow> string set" where
  "graph_leaves g = all_artifacts g - set (dict_keys (dg_edges g))"

definition starts_with :: "string \<Rightarrow> string \<Rightarrow> bool" where
  "starts_with p s = (take (length p) s = p)"

definition ends_with :: "string \<Rightarrow> string \<Rightarrow> bool" where
  "ends_with e s = (length e \<le> length s \<and> drop (length s - length e) s = e)"

definition graph_remove :: "set_order \<Rightarrow> string \<Rightarrow> dependency_graph \<Rightarrow> dependency_graph" where
  "graph_remove it a g =
     (let cs = adj (dg_edges g) a;
          edges1 = dict_pop a (dg_edges g);
          reverse1 = fold (\<lambda>c. adj_discard c a) (set_iter it cs) (dg_reverse g);
          ps = adj reverse1 a;
          reverse2 = dict_pop a reverse1;
          edges2 = fold (\<lambda>p. adj_discard p a) (set_iter it ps) edges1
      in \<lparr>dg_edges = edges2, dg_reverse = reverse2,
          dg_metadata = filter (\<lambda>(k, _). \<not> (starts_with (a @ ''->'') k \<or> ends_with (''->'' @ a) k)) (dg_metadata g)\<rparr>)"

section \<open>Kahn's algorithm\<close>

type_synonym degrees = "(string, int) dict"

text \<open>\<open>in_degree[child] = in_degree.get(child, 0) + 1\<close> over all children of all entries.\<close>

definition count_child :: "string \<Rightarrow> degrees \<Rightarrow> degrees" where
  "count_child c deg = dict_set c ((case dict_get deg c of None \<Rightarrow> 0 | Some n \<Rightarrow> n) + 1) deg"

definition in_degrees :: "set_order \<Rightarrow> dependency_graph \<Rightarrow> degrees" where
  "in_degrees it g =
     fold (\<lambda>cs. fold count_child (set_iter it cs)) (dict_values (dg_edges g))
       (map (\<lambda>a. (a, 0)) (set_iter it (all_artifacts g)))"

text \<open>The inner loop: every child's degree drops by one, a child without open parents is queued.\<close>

fun relax :: "string list \<Rightarrow> degrees \<Rightarrow> string list \<Rightarrow> exn + degrees \<times> string list" where
  "relax [] deg queue = Inr (deg, queue)"
| "relax (c # cs) deg queue =
     (case dict_get deg c of
        None \<Rightarrow> Inl (Exn KeyError (repr_str c))
      | Some n \<Rightarrow> relax cs (dict_set c (n - 1) deg) (if n - 1 = 0 then queue @ [c] else queue))"

definition open_degrees :: "degrees \<Rightarrow> nat" where
  "open_degrees deg = sum_list (map (\<lambda>(k, n). nat n) deg)"

lemma open_degrees_set:
  "dict_get deg c = Some n \<Longrightarrow> open_degrees (dict_set c (n - 1) deg) + (if 0 < n then 1 else 0) = open_degrees deg"
  by (induction deg) (auto simp: open_degrees_def split: if_splits)

lemma relax_measure:
  "relax cs deg queue = Inr (deg', queue') \<Longrightarrow> open_degrees deg' + length queue' \<le> open_degrees deg + length queue"
proof (induction cs deg queue rule: relax.induct)
  case (1 deg queue)
  then show ?case by simp
next
  case (2 c cs deg queue)
  then obtain n where n: "dict_get deg c = Some n" by (cases "dict_get deg c") auto
  with 2 have "open_degrees deg' + length queue' \<le>
      open_degrees (dict_set c (n - 1) deg) + length (if n - 1 = 0 then queue @ [c] else queue)" by simp
  also have "\<dots> \<le> open_degrees deg + length queue"
    using open_degrees_set [OF n] by (auto split: if_splits)
  finally show ?case .
qed

function kahn :: "set_order \<Rightarrow> adjacency \<Rightarrow> degrees \<Rightarrow> string list \<Rightarrow> string list \<Rightarrow> exn + string list" where
  "kahn it d deg [] result = Inr result"
| "kahn it d deg (node # queue) result =
     (case relax (set_iter it (adj d node)) deg queue of
        Inl e \<Rightarrow> Inl e
      | Inr r \<Rightarrow> kahn it d (fst r) (snd r) (result @ [node]))"
  by pat_completeness auto

termination kahn
proof (relation "measure (\<lambda>(it, d, deg, queue, result). open_degrees deg + length queue)", goal_cases)
  case 1
  show ?case by simp
next
  case (2 it d deg node queue result r)
  then have "open_degrees (fst r) + length (snd r) \<le> open_degrees deg + length queue"
    by (intro relax_measure) simp
  then show ?case by simp
qed

definition graph_order :: "set_order \<Rightarrow> dependency_graph \<Rightarrow> exn + string list" where
  "graph_order it g =
     (let deg = in_degrees it g in
      case kahn it (dg_edges g) deg (map fst (filter (\<lambda>(n, d). d = 0) deg)) [] of
        Inl e \<Rightarrow> Inl e
      | Inr result \<Rightarrow>
          if length result \<noteq> length deg then Inl (Exn ValueError ''Cycle detected in dependency graph'')
          else Inr result)"

section \<open>Adjacency\<close>

lemma adj_dict_set: "adj (dict_set k s d) x = (if x = k then s else adj d x)"
  by (simp add: adj_def)

lemma adj_adj_add [simp]: "adj (adj_add k v d) x = (if x = k then insert v (adj d k) else adj d x)"
  by (simp add: adj_add_def adj_dict_set)

lemma adj_adj_discard [simp]: "adj (adj_discard k v d) x = (if x = k then adj d k - {v} else adj d x)"
  by (simp add: adj_discard_def adj_def split: option.splits)

lemma adj_pop [simp]: "adj (dict_pop k d) x = (if x = k then {} else adj d x)"
  by (simp add: adj_def)

lemma dict_wf_adj_add [simp]: "dict_wf d \<Longrightarrow> dict_wf (adj_add k v d)"
  by (simp add: adj_add_def)

lemma dict_wf_adj_discard [simp]: "dict_wf d \<Longrightarrow> dict_wf (adj_discard k v d)"
  by (simp add: adj_discard_def split: option.splits)

lemma adj_fold_discard [simp]:
  "adj (fold (\<lambda>c. adj_discard c a) cs d) x = (if x \<in> set cs then adj d x - {a} else adj d x)"
  by (induction cs arbitrary: d) auto

lemma dict_wf_fold_discard [simp]: "dict_wf d \<Longrightarrow> dict_wf (fold (\<lambda>c. adj_discard c a) cs d)"
  by (induction cs arbitrary: d) simp_all

definition graph_edges :: "dependency_graph \<Rightarrow> (string \<times> string) set" where
  "graph_edges g = {(a, b). b \<in> graph_children g a}"

text \<open>What every operation keeps: the two dictionaries mirror each other and there is no cycle.\<close>

definition graph_ok :: "dependency_graph \<Rightarrow> bool" where
  "graph_ok g =
     (dict_wf (dg_edges g) \<and> dict_wf (dg_reverse g) \<and>
      (\<forall>a. finite (graph_children g a) \<and> finite (graph_parents g a)) \<and>
      (\<forall>a b. b \<in> graph_children g a \<longleftrightarrow> a \<in> graph_parents g b) \<and> acyclic (graph_edges g))"

lemma graph_ok_new [simp]: "graph_ok new_graph"
  by (simp add: graph_ok_def new_graph_def graph_children_def graph_parents_def adj_def graph_edges_def acyclic_def)

lemma graph_edges_iff [simp]: "(a, b) \<in> graph_edges g \<longleftrightarrow> b \<in> graph_children g a"
  by (simp add: graph_edges_def)

lemma child_is_key: "b \<in> graph_children g a \<Longrightarrow> a \<in> set (dict_keys (dg_edges g))"
  using adj_no_key [of a "dg_edges g"] by (auto simp: graph_children_def)

lemma parent_is_key: "b \<in> graph_parents g a \<Longrightarrow> a \<in> set (dict_keys (dg_reverse g))"
  using adj_no_key [of a "dg_reverse g"] by (auto simp: graph_parents_def)

lemma graph_edges_field:
  assumes "graph_ok g" and "b \<in> graph_children g a"
  shows "a \<in> all_artifacts g \<and> b \<in> all_artifacts g"
proof -
  have "a \<in> graph_parents g b" using assms by (simp add: graph_ok_def)
  then show ?thesis using child_is_key [OF assms(2)] parent_is_key [of a g b] by (simp add: all_artifacts_def)
qed

lemma finite_all_artifacts [simp]: "finite (all_artifacts g)"
  by (simp add: all_artifacts_def)

lemma finite_graph_edges: "graph_ok g \<Longrightarrow> finite (graph_edges g)"
proof (rule finite_subset [of _ "all_artifacts g \<times> all_artifacts g"])
  assume "graph_ok g"
  then show "graph_edges g \<subseteq> all_artifacts g \<times> all_artifacts g"
    using graph_edges_field unfolding graph_edges_def by blast
qed simp

section \<open>The cycle check\<close>

lemma leave_visited:
  assumes "(v, p) \<in> E\<^sup>*" and "v \<in> V" and "p \<notin> V" and "\<forall>x \<in> V. E `` {x} \<subseteq> V \<union> S"
  shows "\<exists>s \<in> S - V. (s, p) \<in> E\<^sup>*"
  using assms(1,2)
proof (induction rule: converse_rtrancl_induct)
  case base
  then show ?case using assms(3) by simp
next
  case (step x y)
  then show ?case using assms(4) by (cases "y \<in> V") auto
qed

lemma cycle_search_iff:
  assumes "\<forall>a. finite (adj d a)" and "\<forall>v \<in> visited. v \<noteq> parent \<and> adj d v \<subseteq> visited \<union> set stack"
  shows "cycle_search it d parent visited stack \<longleftrightarrow> (\<exists>s \<in> set stack. (s, parent) \<in> {(a, b). b \<in> adj d a}\<^sup>*)"
  using assms
proof (induction it d parent visited stack rule: cycle_search.induct)
  case (1 it d parent visited)
  then show ?case by simp
next
  case (2 it d parent visited node stack)
  let ?E = "{(a, b). b \<in> adj d a}"
  consider "node = parent" | "node \<noteq> parent" "node \<in> visited" | "node \<noteq> parent" "node \<notin> visited" by blast
  then show ?case
  proof cases
    case 1
    then show ?thesis by auto
  next
    case 2
    then have inv: "\<forall>v \<in> visited. v \<noteq> parent \<and> adj d v \<subseteq> visited \<union> set stack"
      using "2.prems"(2) by auto
    have "(node, parent) \<in> ?E\<^sup>* \<Longrightarrow> \<exists>s \<in> set stack. (s, parent) \<in> ?E\<^sup>*"
      using leave_visited [of node parent ?E visited "set stack"] 2 inv by blast
    then show ?thesis using "2.IH"(1) [OF 2 "2.prems"(1) inv] 2 by auto
  next
    case 3
    let ?stack = "rev (set_iter it (adj d node)) @ stack"
    have st: "set ?stack = adj d node \<union> set stack" using "2.prems"(1) by simp
    have inv: "\<forall>v \<in> insert node visited. v \<noteq> parent \<and> adj d v \<subseteq> insert node visited \<union> set ?stack"
      using "2.prems"(2) 3 unfolding st by auto
    have "(\<exists>s \<in> adj d node. (s, parent) \<in> ?E\<^sup>*) \<longleftrightarrow> (node, parent) \<in> ?E\<^sup>*"
      using 3(1) by (auto intro: converse_rtrancl_into_rtrancl elim: converse_rtranclE)
    then show ?thesis using "2.IH"(2) [OF 3 "2.prems"(1) inv] 3 unfolding st by auto
  qed
qed

lemma would_create_cycle_iff:
  "graph_ok g \<Longrightarrow> would_create_cycle it g p c \<longleftrightarrow> (c, p) \<in> (graph_edges g)\<^sup>*"
  unfolding would_create_cycle_def graph_edges_def graph_children_def
  by (subst cycle_search_iff) (auto simp: graph_ok_def graph_children_def)

section \<open>Adding and removing\<close>

definition with_edge :: "artifact_dependency \<Rightarrow> dependency_graph \<Rightarrow> dependency_graph" where
  "with_edge dep g =
     (let p = dep_parent_id dep; c = dep_child_id dep in
      g\<lparr>dg_edges := adj_add p c (dg_edges g), dg_reverse := adj_add c p (dg_reverse g),
        dg_metadata := dict_set (edge_key p c) dep (dg_metadata g)\<rparr>)"

lemma graph_add_cases:
  assumes "graph_ok g"
  shows "graph_add it dep g =
    (if dep_parent_id dep = dep_child_id dep then (Inl (Exn ValueError ''Self-dependency is not allowed''), g)
     else if (dep_child_id dep, dep_parent_id dep) \<in> (graph_edges g)\<^sup>*
       then (Inl (Exn ValueError (''Adding '' @ dep_parent_id dep @ '' -> '' @ dep_child_id dep @ '' would create a cycle'')), g)
     else (Inr (), with_edge dep g))"
  by (simp add: graph_add_def Let_def with_edge_def py_bind_split would_create_cycle_iff [OF assms])

lemma graph_edges_with_edge [simp]:
  "graph_edges (with_edge dep g) = insert (dep_parent_id dep, dep_child_id dep) (graph_edges g)"
  by (auto simp: graph_edges_def graph_children_def with_edge_def Let_def split: if_splits)

lemma graph_ok_with_edge:
  assumes "graph_ok g" and "(dep_child_id dep, dep_parent_id dep) \<notin> (graph_edges g)\<^sup>*"
  shows "graph_ok (with_edge dep g)"
proof -
  have "acyclic (graph_edges (with_edge dep g))"
    using assms by (simp add: acyclic_insert graph_ok_def)
  then show ?thesis
    using assms(1) unfolding graph_ok_def
    by (auto simp: graph_children_def graph_parents_def with_edge_def Let_def)
qed

lemma no_own_child: "graph_ok g \<Longrightarrow> a \<notin> graph_children g a"
  unfolding graph_ok_def acyclic_def by (metis graph_edges_iff r_into_trancl')

lemma graph_remove_adj:
  assumes "graph_ok g"
  shows "graph_children (graph_remove it a g) x = (if x = a then {} else graph_children g x - {a})"
    and "graph_parents (graph_remove it a g) x = (if x = a then {} else graph_parents g x - {a})"
proof -
  have fin: "finite (adj (dg_edges g) a)" "finite (adj (dg_reverse g) a)"
    and mirror: "\<forall>b y. b \<in> adj (dg_edges g) y \<longleftrightarrow> y \<in> adj (dg_reverse g) b"
    and irr: "a \<notin> adj (dg_edges g) a"
    using assms no_own_child [OF assms, of a]
    unfolding graph_ok_def graph_children_def graph_parents_def by blast+
  from irr mirror have irr2: "a \<notin> adj (dg_reverse g) a" by blast
  show "graph_children (graph_remove it a g) x = (if x = a then {} else graph_children g x - {a})"
    using fin irr irr2 mirror by (auto simp: graph_remove_def Let_def graph_children_def)
  show "graph_parents (graph_remove it a g) x = (if x = a then {} else graph_parents g x - {a})"
    using fin irr irr2 mirror by (auto simp: graph_remove_def Let_def graph_parents_def)
qed

lemma graph_edges_remove:
  "graph_ok g \<Longrightarrow> graph_edges (graph_remove it a g) = {(x, y) \<in> graph_edges g. x \<noteq> a \<and> y \<noteq> a}"
  by (auto simp: graph_edges_def graph_remove_adj split: if_splits)

lemma graph_ok_remove: "graph_ok g \<Longrightarrow> graph_ok (graph_remove it a g)"
proof -
  assume ok: "graph_ok g"
  have "acyclic (graph_edges (graph_remove it a g))"
    by (rule acyclic_subset [of "graph_edges g"]) (use ok in \<open>auto simp: graph_edges_remove graph_ok_def\<close>)
  moreover have "dict_wf (dg_edges (graph_remove it a g))" "dict_wf (dg_reverse (graph_remove it a g))"
    using ok by (simp_all add: graph_remove_def Let_def graph_ok_def)
  ultimately show ?thesis
    using ok by (auto simp: graph_ok_def graph_remove_adj)
qed

end
