(* ===== verification/Artifact_Order.thy ===== *)
theory Artifact_Order
  imports Artifact_Graph
begin

text \<open>
  \<open>DependencyGraph.topological_order\<close> is correct: on every graph the operations can build it
  raises nothing and lists every artifact once, parents first, for every order in which the sets
  are iterated.
\<close>

definition parents_first :: "('a \<times> 'a) set \<Rightarrow> 'a list \<Rightarrow> bool" where
  "parents_first E xs = (\<forall>us c vs. xs = us @ c # vs \<longrightarrow> (\<forall>p. (p, c) \<in> E \<longrightarrow> p \<in> set us))"

lemma parents_first_Nil [simp]: "parents_first E []"
  by (simp add: parents_first_def)

lemma parents_first_snoc:
  "parents_first E (xs @ [x]) \<longleftrightarrow> parents_first E xs \<and> (\<forall>p. (p, x) \<in> E \<longrightarrow> p \<in> set xs)"
proof
  assume a: "parents_first E (xs @ [x])"
  have "p \<in> set us" if "xs = us @ c # vs" "(p, c) \<in> E" for us c vs p
    using a that unfolding parents_first_def by (metis append_Cons append_assoc)
  then show "parents_first E xs \<and> (\<forall>p. (p, x) \<in> E \<longrightarrow> p \<in> set xs)"
    using a unfolding parents_first_def by blast
next
  assume a: "parents_first E xs \<and> (\<forall>p. (p, x) \<in> E \<longrightarrow> p \<in> set xs)"
  have "p \<in> set us" if "xs @ [x] = us @ c # vs" "(p, c) \<in> E" for us c vs p
    using that a by (cases vs rule: rev_cases) (auto simp: parents_first_def)
  then show "parents_first E (xs @ [x])" unfolding parents_first_def by blast
qed

section \<open>The degrees\<close>

definition deg_val :: "degrees \<Rightarrow> string \<Rightarrow> int" where
  "deg_val deg c = (case dict_get deg c of None \<Rightarrow> 0 | Some n \<Rightarrow> n)"

lemma deg_val_count [simp]: "deg_val (count_child c deg) x = deg_val deg x + (if x = c then 1 else 0)"
  by (simp add: deg_val_def count_child_def)

lemma dict_keys_count [simp]: "c \<in> set (dict_keys deg) \<Longrightarrow> dict_keys (count_child c deg) = dict_keys deg"
  by (simp add: count_child_def dict_keys_set dict_has_iff)

lemma fold_count_child:
  assumes "distinct cs" and "set cs \<subseteq> set (dict_keys deg)"
  shows "dict_keys (fold count_child cs deg) = dict_keys deg \<and>
    (\<forall>x. deg_val (fold count_child cs deg) x = deg_val deg x + (if x \<in> set cs then 1 else 0))"
  using assms
proof (induction cs arbitrary: deg)
  case Nil
  then show ?case by simp
next
  case (Cons c cs)
  have k: "dict_keys (count_child c deg) = dict_keys deg" using Cons.prems by (intro dict_keys_count) auto
  then have "set cs \<subseteq> set (dict_keys (count_child c deg))" using Cons.prems by simp
  from Cons.IH [OF _ this] Cons.prems k show ?case by auto
qed

lemma fold_count_children:
  assumes "\<forall>A \<in> set As. finite A \<and> A \<subseteq> set (dict_keys deg)"
  shows "dict_keys (fold (\<lambda>cs. fold count_child (set_iter it cs)) As deg) = dict_keys deg \<and>
    (\<forall>x. deg_val (fold (\<lambda>cs. fold count_child (set_iter it cs)) As deg) x
      = deg_val deg x + int (length (filter (\<lambda>A. x \<in> A) As)))"
  using assms
proof (induction As arbitrary: deg)
  case Nil
  then show ?case by simp
next
  case (Cons A As)
  let ?deg = "fold count_child (set_iter it A) deg"
  have A: "dict_keys ?deg = dict_keys deg \<and> (\<forall>x. deg_val ?deg x = deg_val deg x + (if x \<in> A then 1 else 0))"
    using fold_count_child [of "set_iter it A" deg] Cons.prems by simp
  then show ?case using Cons.IH [of ?deg] Cons.prems by simp
qed

lemma length_filter_values:
  "dict_wf d \<Longrightarrow> length (filter (\<lambda>A. x \<in> A) (dict_values d)) = card {k. x \<in> adj d k}"
proof (induction d)
  case Nil
  then show ?case by (simp add: adj_def)
next
  case (Cons e d)
  obtain k A where e: "e = (k, A)" by (cases e)
  have k: "k \<notin> set (dict_keys d)" "dict_wf d" using Cons.prems by (auto simp: dict_wf_def e)
  have none: "adj d k = {}" using adj_no_key [OF k(1)] .
  have "{k'. x \<in> adj d k'} \<subseteq> set (dict_keys d)" using adj_no_key [of _ d] by blast
  then have fin: "finite {k'. x \<in> adj d k'}" using finite_subset by blast
  have "{k'. x \<in> adj (e # d) k'} = (if x \<in> A then insert k {k'. x \<in> adj d k'} else {k'. x \<in> adj d k'})"
    using none by (auto simp: adj_def e split: if_splits)
  then show ?case using Cons.IH [OF k(2)] fin none by (simp add: e)
qed

lemma in_degrees_spec:
  assumes "graph_ok g"
  shows "dict_keys (in_degrees it g) = set_iter it (all_artifacts g) \<and>
    (\<forall>c \<in> all_artifacts g. dict_get (in_degrees it g) c = Some (int (card (graph_parents g c))))"
proof -
  let ?deg0 = "map (\<lambda>a. (a, 0 :: int)) (set_iter it (all_artifacts g))"
  have keys: "dict_keys ?deg0 = set_iter it (all_artifacts g)" by (induction "set_iter it (all_artifacts g)") (simp_all add: comp_def)
  have "finite A \<and> A \<subseteq> set (dict_keys ?deg0)" if A: "A \<in> set (dict_values (dg_edges g))" for A
  proof -
    obtain k where "(k, A) \<in> set (dg_edges g)" using A by auto
    then have "graph_children g k = A"
      using assms by (simp add: graph_ok_def dict_get_mem graph_children_def adj_def)
    then show ?thesis using assms graph_edges_field [OF assms, of _ k] unfolding keys by (auto simp: graph_ok_def)
  qed
  then have "\<forall>A \<in> set (dict_values (dg_edges g)). finite A \<and> A \<subseteq> set (dict_keys ?deg0)" by blast
  from fold_count_children [OF this, of it]
  have f: "dict_keys (in_degrees it g) = dict_keys ?deg0"
    "\<And>x. deg_val (in_degrees it g) x = deg_val ?deg0 x + int (length (filter (\<lambda>A. x \<in> A) (dict_values (dg_edges g))))"
    unfolding in_degrees_def by blast+
  have zero: "deg_val ?deg0 x = 0" for x
    by (cases "dict_get ?deg0 x") (auto simp: deg_val_def dest!: map_of_SomeD)
  have "{k. x \<in> adj (dg_edges g) k} = graph_parents g x" for x
    using assms by (auto simp: graph_ok_def graph_children_def)
  then have v: "deg_val (in_degrees it g) x = int (card (graph_parents g x))" for x
    using assms length_filter_values [of "dg_edges g" x] by (simp add: f(2) zero graph_ok_def)
  have "dict_get (in_degrees it g) c = Some (int (card (graph_parents g c)))" if "c \<in> all_artifacts g" for c
  proof -
    have "c \<in> set (dict_keys (in_degrees it g))" unfolding f(1) keys using that by simp
    then obtain n where "dict_get (in_degrees it g) c = Some n" using dict_key_get by metis
    then show ?thesis using v [of c] by (simp add: deg_val_def)
  qed
  then show ?thesis unfolding f(1) keys by blast
qed

section \<open>The loop\<close>

lemma relax_spec:
  assumes "distinct cs" and "\<forall>c \<in> set cs. dict_get deg c = Some (f c)"
  shows "\<exists>deg'. relax cs deg queue = Inr (deg', queue @ filter (\<lambda>c. f c = 1) cs) \<and> dict_keys deg' = dict_keys deg \<and>
    (\<forall>x. dict_get deg' x = (if x \<in> set cs then Some (f x - 1) else dict_get deg x))"
  using assms
proof (induction cs arbitrary: deg queue)
  case Nil
  then show ?case by simp
next
  case (Cons c cs)
  let ?deg = "dict_set c (f c - 1) deg"
  let ?q = "if f c = 1 then queue @ [c] else queue"
  have c: "dict_get deg c = Some (f c)" using Cons.prems by simp
  then have keys: "dict_keys ?deg = dict_keys deg" by (simp add: dict_keys_set dict_has_def)
  have "\<forall>x \<in> set cs. dict_get ?deg x = Some (f x)" using Cons.prems by auto
  then obtain deg' where d: "relax cs ?deg ?q = Inr (deg', ?q @ filter (\<lambda>c. f c = 1) cs)"
    "dict_keys deg' = dict_keys ?deg"
    "\<forall>x. dict_get deg' x = (if x \<in> set cs then Some (f x - 1) else dict_get ?deg x)"
    using Cons.IH [of ?deg ?q] Cons.prems(1) by auto
  have "relax (c # cs) deg queue = relax cs ?deg ?q" using c by simp
  with d keys Cons.prems(1) show ?case by (intro exI [of _ deg']) auto
qed

text \<open>The state of the loop: what is left open of every artifact, and which artifacts are ready.\<close>

definition kahn_inv :: "string set \<Rightarrow> (string \<times> string) set \<Rightarrow> degrees \<Rightarrow> string list \<Rightarrow> string list \<Rightarrow> bool" where
  "kahn_inv N E deg queue result =
     ((\<forall>c \<in> N. dict_get deg c = Some (int (card {p. (p, c) \<in> E \<and> p \<notin> set result}))) \<and>
      distinct (result @ queue) \<and>
      set (result @ queue) = {c \<in> N. \<forall>p. (p, c) \<in> E \<longrightarrow> p \<in> set result} \<and>
      parents_first E result)"

lemma card_one_iff: "int (card X) = 1 \<and> x \<in> X \<longleftrightarrow> X = {x}"
proof
  assume a: "int (card X) = 1 \<and> x \<in> X"
  then have "card X = 1" by simp
  then obtain y where "X = {y}" using card_1_singletonE by blast
  with a show "X = {x}" by simp
qed simp

lemma kahn_step:
  assumes inv: "kahn_inv N E deg (node # queue) result" and fin: "finite E" and sub: "E \<subseteq> N \<times> N"
    and cs: "distinct cs" "set cs = E `` {node}"
  shows "\<exists>deg' queue'. relax cs deg queue = Inr (deg', queue') \<and> kahn_inv N E deg' queue' (result @ [node])"
proof -
  let ?open = "\<lambda>r c. {p. (p, c) \<in> E \<and> p \<notin> set r}"
  let ?f = "\<lambda>c. int (card (?open result c))"
  have fo: "finite (?open r c)" for r c
    by (rule finite_subset [of _ "fst ` E"]) (use fin in force)+
  have deg: "dict_get deg c = Some (?f c)" if "c \<in> N" for c using inv that by (simp add: kahn_inv_def)
  have fresh: "node \<notin> set result" "node \<notin> set queue" and dist: "distinct (result @ queue)"
    using inv by (auto simp: kahn_inv_def)
  have ready: "set result \<union> insert node (set queue) = {c \<in> N. \<forall>p. (p, c) \<in> E \<longrightarrow> p \<in> set result}"
    using inv by (auto simp: kahn_inv_def)
  have "\<forall>c \<in> set cs. dict_get deg c = Some (?f c)" using deg cs(2) sub by auto
  from relax_spec [OF cs(1) this, of queue] obtain deg' where
    r: "relax cs deg queue = Inr (deg', queue @ filter (\<lambda>c. ?f c = 1) cs)"
    and d': "\<forall>x. dict_get deg' x = (if x \<in> set cs then Some (?f x - 1) else dict_get deg x)" by blast
  let ?new = "filter (\<lambda>c. ?f c = 1) cs"
  have opn: "?open (result @ [node]) c = ?open result c - {node}" for c by auto
  have child: "node \<in> ?open result c \<longleftrightarrow> c \<in> set cs" for c using fresh cs(2) by auto
  have card': "int (card (?open (result @ [node]) c)) = ?f c - (if c \<in> set cs then 1 else 0)" for c
  proof (cases "c \<in> set cs")
    case True
    then have n: "node \<in> ?open result c" using child by blast
    then have "card (?open result c) \<noteq> 0" using fo [of c result] by (metis (no_types, lifting) card_0_eq empty_iff)
    then show ?thesis unfolding opn card_Diff_singleton [OF n] using True by simp
  next
    case False
    then have "node \<notin> ?open result c" using child by blast
    then show ?thesis unfolding opn using False by simp
  qed
  have one: "?f c = 1 \<and> c \<in> set cs \<longleftrightarrow> ?open result c = {node}" for c
    unfolding child [of c, symmetric] by (rule card_one_iff)
  have "dict_get deg' c = Some (int (card (?open (result @ [node]) c)))" if "c \<in> N" for c
    using d' deg [OF that] card' [of c] by simp
  moreover have new: "set ?new = {c \<in> N. ?open result c = {node}}"
    using one sub cs(2) by auto
  moreover have "distinct (result @ [node] @ queue @ ?new)"
  proof -
    have "set ?new \<inter> (set result \<union> insert node (set queue)) = {}"
      unfolding new ready using fresh by auto
    then show ?thesis using dist fresh cs(1) by auto
  qed
  moreover have "set (result @ [node] @ queue @ ?new) = {c \<in> N. \<forall>p. (p, c) \<in> E \<longrightarrow> p \<in> set (result @ [node])}"
  proof -
    have "c \<in> set result \<union> insert node (set queue) \<or> c \<in> set ?new \<longleftrightarrow>
        c \<in> N \<and> (\<forall>p. (p, c) \<in> E \<longrightarrow> p \<in> set (result @ [node]))" for c
      unfolding ready new by auto
    then show ?thesis by auto
  qed
  moreover have "parents_first E (result @ [node])"
    using inv ready unfolding parents_first_snoc kahn_inv_def by blast
  ultimately have "kahn_inv N E deg' (queue @ ?new) (result @ [node])"
    unfolding kahn_inv_def by auto
  with r show ?thesis by blast
qed

lemma kahn_complete:
  assumes "kahn_inv N E deg [] result" and "finite E" and "acyclic E" and "E \<subseteq> N \<times> N"
  shows "set result = N"
proof (rule ccontr)
  assume "set result \<noteq> N"
  then obtain c where c: "c \<in> N - set result" using assms(1) by (auto simp: kahn_inv_def)
  have "wf E" using assms(2,3) by (rule finite_acyclic_wf)
  then obtain m where m: "m \<in> N - set result" "\<forall>p. (p, m) \<in> E \<longrightarrow> p \<notin> N - set result"
    using c by (metis wfE_min)
  then have "\<forall>p. (p, m) \<in> E \<longrightarrow> p \<in> set result" using assms(4) by blast
  with m(1) have "m \<in> {c \<in> N. \<forall>p. (p, c) \<in> E \<longrightarrow> p \<in> set result}" by blast
  also have "\<dots> = set result" using assms(1) by (simp add: kahn_inv_def)
  finally show False using m(1) by blast
qed

lemma kahn_correct:
  assumes "kahn_inv N E deg queue result" and "finite E" and "acyclic E" and "E \<subseteq> N \<times> N"
    and "\<forall>a. E `` {a} = adj d a"
  shows "\<exists>ns. kahn it d deg queue result = Inr ns \<and> distinct ns \<and> set ns = N \<and> parents_first E ns"
  using assms(1,5)
proof (induction it d deg queue result rule: kahn.induct)
  case (1 it d deg result)
  then show ?case using kahn_complete [OF "1.prems"(1) assms(2-4)] by (simp add: kahn_inv_def)
next
  case (2 it d deg node queue result)
  let ?cs = "set_iter it (adj d node)"
  have "finite (adj d node)" using "2.prems"(2) finite_subset [of "E `` {node}" "snd ` E"] assms(2) by force
  then have cs: "distinct ?cs" "set ?cs = E `` {node}" using "2.prems"(2) by auto
  obtain deg' queue' where r: "relax ?cs deg queue = Inr (deg', queue')" "kahn_inv N E deg' queue' (result @ [node])"
    using kahn_step [OF "2.prems"(1) assms(2,4) cs] by blast
  have "\<exists>ns. kahn it d deg' queue' (result @ [node]) = Inr ns \<and> distinct ns \<and> set ns = N \<and> parents_first E ns"
    using "2.IH" [OF r(1)] r(2) "2.prems"(2) by simp
  with r(1) show ?case by simp
qed

lemma kahn_start:
  assumes "graph_ok g"
  shows "kahn_inv (all_artifacts g) (graph_edges g) (in_degrees it g)
    (map fst (filter (\<lambda>(n, d). d = 0) (in_degrees it g))) []"
proof -
  let ?deg = "in_degrees it g"
  have keys: "dict_keys ?deg = set_iter it (all_artifacts g)"
    and deg: "\<forall>c \<in> all_artifacts g. dict_get ?deg c = Some (int (card (graph_parents g c)))"
    using in_degrees_spec [OF assms, of it] by blast+
  have wf: "dict_wf ?deg" unfolding dict_wf_def keys by simp
  have par: "{p. (p, c) \<in> graph_edges g} = graph_parents g c" for c
    using assms by (auto simp: graph_ok_def)
  have fin: "finite (graph_parents g c)" for c using assms by (simp add: graph_ok_def)
  have ready: "set (map fst (filter (\<lambda>(n, d). d = 0) ?deg)) = {c \<in> all_artifacts g. graph_parents g c = {}}"
  proof -
    have "(c, 0) \<in> set ?deg \<longleftrightarrow> c \<in> all_artifacts g \<and> graph_parents g c = {}" for c
    proof -
      have "(c, 0) \<in> set ?deg \<longleftrightarrow> c \<in> set (dict_keys ?deg) \<and> dict_get ?deg c = Some 0"
        using dict_get_mem [OF wf] by force
      also have "\<dots> \<longleftrightarrow> c \<in> all_artifacts g \<and> graph_parents g c = {}"
        using deg fin [of c] unfolding keys by auto
      finally show ?thesis .
    qed
    then show ?thesis by force
  qed
  have "distinct (map fst (filter (\<lambda>(n, d). d = 0) ?deg))"
    using wf unfolding dict_wf_def by (rule distinct_map_filter)
  with deg ready show ?thesis
    unfolding kahn_inv_def par [symmetric] by auto
qed

text \<open>The order exists, holds every artifact once, and puts parents first.\<close>

lemma graph_order_correct:
  assumes "graph_ok g"
  shows "\<exists>ns. graph_order it g = Inr ns \<and> distinct ns \<and> set ns = all_artifacts g \<and> parents_first (graph_edges g) ns"
proof -
  have sub: "graph_edges g \<subseteq> all_artifacts g \<times> all_artifacts g"
    using graph_edges_field [OF assms] unfolding graph_edges_def by blast
  have ac: "acyclic (graph_edges g)" using assms by (simp add: graph_ok_def)
  have im: "\<forall>a. graph_edges g `` {a} = adj (dg_edges g) a"
    unfolding graph_edges_def graph_children_def by blast
  obtain ns where ns: "kahn it (dg_edges g) (in_degrees it g) (map fst (filter (\<lambda>(n, d). d = 0) (in_degrees it g))) [] = Inr ns"
    "distinct ns" "set ns = all_artifacts g" "parents_first (graph_edges g) ns"
    using kahn_correct [OF kahn_start [OF assms] finite_graph_edges [OF assms] ac sub im] by blast
  have keys: "dict_keys (in_degrees it g) = set_iter it (all_artifacts g)"
    using in_degrees_spec [OF assms, of it] by blast
  have "length (in_degrees it g) = length (set_iter it (all_artifacts g))"
    unfolding keys [symmetric] by simp
  also have "\<dots> = length ns"
    using ns(2,3) by (metis distinct_card distinct_set_iter finite_all_artifacts set_set_iter)
  finally have "length ns = length (in_degrees it g)" by simp
  with ns show ?thesis by (simp add: graph_order_def Let_def)
qed

end
