(* ===== verification/Artifact_Lineage.thy ===== *)
theory Artifact_Lineage
  imports Artifact_Order
begin

text \<open>
  \<open>artifacts/artifact_lineage.py\<close>: breadth-first search for the ancestors and descendants of an
  artifact, the lineage chain and the pipeline stage. The locale \<open>dependency_store\<close> is the
  contract of the dependency graph its clients (the lineage tracker and the manager) rely on; the
  graph of \<open>Artifact_Graph\<close> fulfils it for every set iteration order.
\<close>

section \<open>The contract of the dependency graph\<close>

datatype graph_op = Add_Edge string string | Remove_Node string

text \<open>A client that swallows the refusals.\<close>

definition run_graph_op ::
    "(string \<Rightarrow> string \<Rightarrow> ('g, unit) py) \<Rightarrow> (string \<Rightarrow> 'g \<Rightarrow> 'g) \<Rightarrow> graph_op \<Rightarrow> 'g \<Rightarrow> 'g" where
  "run_graph_op add remove op g = (case op of Add_Edge p c \<Rightarrow> snd (add p c g) | Remove_Node a \<Rightarrow> remove a g)"

locale dependency_store =
  fixes add :: "string \<Rightarrow> string \<Rightarrow> ('g, unit) py"
    and remove :: "string \<Rightarrow> 'g \<Rightarrow> 'g"
    and edges :: "'g \<Rightarrow> (string \<times> string) set"
    and order :: "'g \<Rightarrow> exn + string list"
    and ok :: "'g \<Rightarrow> bool"
  assumes ok_edges: "ok g \<Longrightarrow> finite (edges g) \<and> acyclic (edges g)"
    and add_ok: "ok g \<Longrightarrow> (c, p) \<notin> (edges g)\<^sup>* \<Longrightarrow>
      \<exists>g'. add p c g = (Inr (), g') \<and> ok g' \<and> edges g' = insert (p, c) (edges g)"
    and add_cycle: "ok g \<Longrightarrow> (c, p) \<in> (edges g)\<^sup>* \<Longrightarrow> (\<exists>msg. add p c g = (Inl (Exn ValueError msg), g))"
    and remove_ok: "ok g \<Longrightarrow> ok (remove a g) \<and> edges (remove a g) = {(x, y) \<in> edges g. x \<noteq> a \<and> y \<noteq> a}"
    and order_ok: "ok g \<Longrightarrow> \<exists>ns. order g = Inr ns \<and> distinct ns \<and> Field (edges g) \<subseteq> set ns \<and> parents_first (edges g) ns"
begin

abbreviation run_op :: "graph_op \<Rightarrow> 'g \<Rightarrow> 'g" where
  "run_op \<equiv> run_graph_op add remove"

lemma run_op_ok: "ok g \<Longrightarrow> ok (run_op op g)"
proof (cases op)
  case (Add_Edge p c)
  assume ok: "ok g"
  show ?thesis
  proof (cases "(c, p) \<in> (edges g)\<^sup>*")
    case True
    then obtain msg where "add p c g = (Inl (Exn ValueError msg), g)" using add_cycle ok by blast
    then show ?thesis using ok by (simp add: run_graph_op_def Add_Edge)
  next
    case False
    then obtain g' where "add p c g = (Inr (), g')" "ok g'" using add_ok ok by blast
    then show ?thesis by (simp add: run_graph_op_def Add_Edge)
  qed
qed (use remove_ok in \<open>simp add: run_graph_op_def\<close>)

lemma run_ops_ok: "ok g \<Longrightarrow> ok (fold run_op ops g)"
  by (induction ops arbitrary: g) (simp_all add: run_op_ok)

lemma add_iff: "ok g \<Longrightarrow> fst (add p c g) = Inr () \<longleftrightarrow> acyclic (insert (p, c) (edges g))"
proof (cases "(c, p) \<in> (edges g)\<^sup>*")
  case True
  assume ok: "ok g"
  obtain msg where "add p c g = (Inl (Exn ValueError msg), g)" using add_cycle [OF ok True] by blast
  then show ?thesis using True by (simp add: acyclic_insert)
next
  case False
  assume ok: "ok g"
  obtain g' where "add p c g = (Inr (), g')" using add_ok [OF ok False] by blast
  then show ?thesis using False ok_edges [OF ok] by (simp add: acyclic_insert)
qed

text \<open>A list of edges goes in completely exactly if all of them together have no cycle.\<close>

lemma add_all_iff:
  "ok g \<Longrightarrow> fst (py_for es (\<lambda>(p, c). add p c) g) = Inr () \<longleftrightarrow> acyclic (set es \<union> edges g)"
proof (induction es arbitrary: g)
  case Nil
  then show ?case using ok_edges by simp
next
  case (Cons e es)
  obtain p c where e: "e = (p, c)" by (cases e)
  show ?case
  proof (cases "(c, p) \<in> (edges g)\<^sup>*")
    case True
    then obtain msg where m: "add p c g = (Inl (Exn ValueError msg), g)" using add_cycle Cons.prems by blast
    have "\<not> acyclic (insert (p, c) (edges g))" using True ok_edges [OF Cons.prems] by (simp add: acyclic_insert)
    then have "\<not> acyclic (set (e # es) \<union> edges g)" by (metis Un_upper2 acyclic_subset e insert_mono list.simps(15) sup_commute Un_insert_left)
    with m show ?thesis by (simp add: e)
  next
    case False
    then obtain g' where g': "add p c g = (Inr (), g')" "ok g'" "edges g' = insert (p, c) (edges g)"
      using add_ok Cons.prems by blast
    then show ?thesis using Cons.IH [OF g'(2)] by (simp add: e)
  qed
qed

lemma removed_unreachable:
  assumes "ok g" and "x \<noteq> y" and "x = a \<or> y = a"
  shows "(x, y) \<notin> (edges (remove a g))\<^sup>*"
proof
  assume "(x, y) \<in> (edges (remove a g))\<^sup>*"
  then have "(x, y) \<in> (edges (remove a g))\<^sup>+" using assms(2) by (simp add: rtrancl_eq_or_trancl)
  then have "x \<in> Domain (edges (remove a g)) \<and> y \<in> Range (edges (remove a g))"
    by (metis trancl_domain trancl_range Domain.DomainI Range.RangeI)
  then show False using remove_ok [OF assms(1)] assms(3) by auto
qed

end

definition edge_dep :: "string \<Rightarrow> string \<Rightarrow> artifact_dependency" where
  "edge_dep p c = \<lparr>dep_parent_id = p, dep_child_id = c, dep_relationship = ''produced_by'', dep_pipeline_stage = []\<rparr>"

interpretation artifact_graph: dependency_store
  "\<lambda>p c. graph_add it (edge_dep p c)" "graph_remove it" graph_edges "graph_order it" graph_ok
proof unfold_locales
  fix g :: dependency_graph and p c a
  assume ok: "graph_ok g"
  show "finite (graph_edges g) \<and> acyclic (graph_edges g)"
    using ok finite_graph_edges by (simp add: graph_ok_def)
  show "(c, p) \<notin> (graph_edges g)\<^sup>* \<Longrightarrow>
    \<exists>g'. graph_add it (edge_dep p c) g = (Inr (), g') \<and> graph_ok g' \<and> graph_edges g' = insert (p, c) (graph_edges g)"
    using graph_add_cases [OF ok, of it "edge_dep p c"] graph_ok_with_edge [OF ok, of "edge_dep p c"]
    by (auto simp: edge_dep_def)
  show "(c, p) \<in> (graph_edges g)\<^sup>* \<Longrightarrow> \<exists>msg. graph_add it (edge_dep p c) g = (Inl (Exn ValueError msg), g)"
    using graph_add_cases [OF ok, of it "edge_dep p c"] by (auto simp: edge_dep_def)
  show "graph_ok (graph_remove it a g) \<and> graph_edges (graph_remove it a g) = {(x, y) \<in> graph_edges g. x \<noteq> a \<and> y \<noteq> a}"
    using ok graph_ok_remove graph_edges_remove by blast
  have "Field (graph_edges g) \<subseteq> all_artifacts g"
    using graph_edges_field [OF ok] by (auto simp: Field_def graph_edges_def)
  then show "\<exists>ns. graph_order it g = Inr ns \<and> distinct ns \<and> Field (graph_edges g) \<subseteq> set ns \<and> parents_first (graph_edges g) ns"
    using graph_order_correct [OF ok, of it] by metis
qed

section \<open>Breadth-first search\<close>

text \<open>The inner \<open>for\<close> loop: an id not seen before is seen, listed and queued.\<close>

fun bfs_visit :: "string list \<Rightarrow> string set \<Rightarrow> string list \<Rightarrow> string list \<Rightarrow> string set \<times> string list \<times> string list" where
  "bfs_visit [] visited result queue = (visited, result, queue)"
| "bfs_visit (p # ps) visited result queue =
     (if p \<notin> visited then bfs_visit ps (insert p visited) (result @ [p]) (queue @ [p])
      else bfs_visit ps visited result queue)"

lemma bfs_visit_spec:
  "distinct ps \<Longrightarrow> bfs_visit ps visited result queue =
    (visited \<union> set ps, result @ filter (\<lambda>p. p \<notin> visited) ps, queue @ filter (\<lambda>p. p \<notin> visited) ps)"
proof (induction ps arbitrary: visited result queue)
  case Nil
  then show ?case by simp
next
  case (Cons p ps)
  have "filter (\<lambda>q. q \<notin> insert p visited) ps = filter (\<lambda>q. q \<notin> visited) ps"
    using Cons.prems by (auto intro: filter_cong)
  then show ?case using Cons by auto
qed

function bfs :: "set_order \<Rightarrow> adjacency \<Rightarrow> string set \<Rightarrow> string list \<Rightarrow> string list \<Rightarrow> string list" where
  "bfs it d visited result [] = result"
| "bfs it d visited result (node # queue) =
     (let seen = bfs_visit (set_iter it (adj d node)) visited result queue
      in bfs it d (fst seen) (fst (snd seen)) (snd (snd seen)))"
  by pat_completeness auto

definition targets :: "set_order \<Rightarrow> adjacency \<Rightarrow> string set" where
  "targets it d = (\<Union>k \<in> set (dict_keys d). set (set_iter it (adj d k)))"

lemma set_iter_targets: "set (set_iter it (adj d k)) \<subseteq> targets it d"
  using adj_no_key [of k d] by (cases "k \<in> set (dict_keys d)") (auto simp: targets_def)

lemma finite_targets: "finite (targets it d)"
  by (simp add: targets_def)

termination bfs
proof (relation "measures [\<lambda>(it, d, visited, result, queue). card (targets it d - visited),
    \<lambda>(it, d, visited, result, queue). length queue]", goal_cases)
  case 1
  show ?case by simp
next
  case (2 it d visited result node queue seen)
  let ?ps = "set_iter it (adj d node)"
  let ?visited = "fst seen"
  have v: "?visited = visited \<union> set ?ps" "snd (snd seen) = queue @ filter (\<lambda>p. p \<notin> visited) ?ps"
    using 2 by (auto simp: bfs_visit_spec)
  show ?case
  proof (cases "set ?ps \<subseteq> visited")
    case True
    then have "?visited = visited" "snd (snd seen) = queue" using v by (auto simp: filter_empty_conv)
    then show ?thesis by (simp add: split_def)
  next
    case False
    then have "targets it d - ?visited \<subset> targets it d - visited" using v(1) set_iter_targets [of it d node] by blast
    then have "card (targets it d - ?visited) < card (targets it d - visited)"
      by (simp add: finite_targets psubset_card_mono)
    then show ?thesis by (simp add: split_def)
  qed
qed

declare bfs.simps(2) [simp del]

definition ancestors :: "set_order \<Rightarrow> dependency_graph \<Rightarrow> string \<Rightarrow> string list" where
  "ancestors it g a = bfs it (dg_reverse g) {} [] [a]"

definition descendants :: "set_order \<Rightarrow> dependency_graph \<Rightarrow> string \<Rightarrow> string list" where
  "descendants it g a = bfs it (dg_edges g) {} [] [a]"

lemma bfs_correct:
  assumes "\<forall>x. finite (adj d x)" and "distinct result" and "set result = visited"
    and "\<forall>x \<in> insert a visited - set queue. adj d x \<subseteq> visited"
    and "set queue \<subseteq> insert a visited" and "visited \<subseteq> {(x, y). y \<in> adj d x}\<^sup>+ `` {a}"
  shows "distinct (bfs it d visited result queue) \<and> set (bfs it d visited result queue) = {(x, y). y \<in> adj d x}\<^sup>+ `` {a}"
  using assms
proof (induction it d visited result queue rule: bfs.induct)
  case (1 it d visited result)
  let ?R = "{(x, y). y \<in> adj d x}"
  have "y \<in> visited" if "(a, y) \<in> ?R\<^sup>+" for y
    using that by (induction rule: trancl_induct) (use 1 in auto)
  then show ?case using 1 by auto
next
  case (2 it d visited result node queue)
  let ?R = "{(x, y). y \<in> adj d x}"
  let ?ps = "set_iter it (adj d node)"
  have ps: "set ?ps = adj d node" "distinct ?ps" using "2.prems"(1) by simp_all
  let ?v = "visited \<union> adj d node" and ?new = "filter (\<lambda>p. p \<notin> visited) ?ps"
  have step: "bfs it d visited result (node # queue) = bfs it d ?v (result @ ?new) (queue @ ?new)"
    using ps by (simp add: bfs.simps(2) bfs_visit_spec)
  have reach: "adj d node \<subseteq> ?R\<^sup>+ `` {a}"
  proof (cases "node = a")
    case False
    then have "(a, node) \<in> ?R\<^sup>+" using "2.prems"(5,6) by auto
    then show ?thesis by (auto intro: trancl_into_trancl)
  qed auto
  have vis: "bfs_visit ?ps visited result queue = (?v, result @ ?new, queue @ ?new)"
    using ps by (simp add: bfs_visit_spec)
  have "distinct (result @ ?new)" using "2.prems"(2,3) ps(2) by auto
  moreover have "set (result @ ?new) = ?v" using "2.prems"(3) ps(1) by auto
  moreover have "\<forall>x \<in> insert a ?v - set (queue @ ?new). adj d x \<subseteq> ?v"
    using "2.prems"(4) ps(1) by auto
  moreover have "set (queue @ ?new) \<subseteq> insert a ?v" using "2.prems"(5) ps(1) by auto
  moreover have "?v \<subseteq> ?R\<^sup>+ `` {a}" using "2.prems"(6) reach by blast
  ultimately show ?case
    unfolding step using "2.IH" [OF refl] "2.prems"(1) unfolding vis by simp
qed

lemma reverse_edges: "graph_ok g \<Longrightarrow> {(x, y). y \<in> adj (dg_reverse g) x} = (graph_edges g)\<inverse>"
  by (auto simp: graph_ok_def graph_parents_def graph_edges_def)

lemma ancestors_spec:
  "graph_ok g \<Longrightarrow> distinct (ancestors it g a) \<and> set (ancestors it g a) = {x. (x, a) \<in> (graph_edges g)\<^sup>+}"
proof -
  assume ok: "graph_ok g"
  have "\<forall>x. finite (adj (dg_reverse g) x)" using ok by (simp add: graph_ok_def graph_parents_def)
  then show ?thesis
    unfolding ancestors_def
    using bfs_correct [of "dg_reverse g" "[]" "{}" a "[a]" it] reverse_edges [OF ok] by (auto simp: trancl_converse)
qed

lemma descendants_spec:
  "graph_ok g \<Longrightarrow> distinct (descendants it g a) \<and> set (descendants it g a) = {x. (a, x) \<in> (graph_edges g)\<^sup>+}"
proof -
  assume ok: "graph_ok g"
  have "{(x, y). y \<in> adj (dg_edges g) x} = graph_edges g" by (simp add: graph_edges_def graph_children_def)
  moreover have "\<forall>x. finite (adj (dg_edges g) x)" using ok by (simp add: graph_ok_def graph_children_def)
  ultimately show ?thesis
    unfolding descendants_def using bfs_correct [of "dg_edges g" "[]" "{}" a "[a]" it] by auto
qed

section \<open>The lineage chain\<close>

text \<open>\<open>order.index(x)\<close> of a member.\<close>

definition list_index :: "string \<Rightarrow> string list \<Rightarrow> nat" where
  "list_index x xs = length (takeWhile (\<lambda>y. y \<noteq> x) xs)"

fun add_new :: "string list \<Rightarrow> string list \<Rightarrow> string list" where
  "add_new chain [] = chain"
| "add_new chain (n # ns) = add_new (if n \<in> set chain then chain else chain @ [n]) ns"

fun chain_roots :: "(exn + string list) \<Rightarrow> string list \<Rightarrow> string list \<Rightarrow> exn + string list" where
  "chain_roots topological [] chain = Inr chain"
| "chain_roots topological (r # rs) chain =
     (case topological of
        Inl e \<Rightarrow> Inl e
      | Inr order \<Rightarrow> chain_roots topological rs
          (add_new chain (drop (if r \<in> set order then list_index r order else 0) order)))"

definition full_chain :: "set_order \<Rightarrow> dependency_graph \<Rightarrow> string \<Rightarrow> exn + string list" where
  "full_chain it g a =
     (let roots = filter (\<lambda>x. graph_parents g x = {}) (ancestors it g a);
          roots = (if roots = [] then [a] else roots)
      in case chain_roots (graph_order it g) roots [] of
           Inl e \<Rightarrow> Inl e
         | Inr chain \<Rightarrow> Inr (if a \<in> set chain then chain else chain @ [a]))"

fun deepest :: "set_order \<Rightarrow> dependency_graph \<Rightarrow> string \<Rightarrow> string list \<Rightarrow> nat \<Rightarrow> exn + nat" where
  "deepest it g a [] m = Inr m"
| "deepest it g a (x # xs) m =
     (case full_chain it g x of
        Inl e \<Rightarrow> Inl e
      | Inr chain \<Rightarrow> deepest it g a xs (if a \<in> set chain then max m (list_index a chain) else m))"

definition pipeline_stage :: "set_order \<Rightarrow> dependency_graph \<Rightarrow> string \<Rightarrow> exn + nat" where
  "pipeline_stage it g a =
     (let up = ancestors it g a in if up = [] then Inr 0 else deepest it g a up 0)"

lemma set_add_new [simp]: "set (add_new chain ns) = set chain \<union> set ns"
  by (induction chain ns rule: add_new.induct) auto

lemma distinct_add_new [simp]: "distinct chain \<Longrightarrow> distinct (add_new chain ns)"
  by (induction chain ns rule: add_new.induct) auto

lemma chain_roots_spec:
  assumes "distinct chain" and "set rs \<subseteq> set order"
  shows "\<exists>chain'. chain_roots (Inr order) rs chain = Inr chain' \<and> distinct chain' \<and>
    set chain' = set chain \<union> (\<Union>r \<in> set rs. set (drop (list_index r order) order))"
  using assms
proof (induction rs arbitrary: chain)
  case Nil
  then show ?case by simp
next
  case (Cons r rs)
  have "distinct (add_new chain (drop (list_index r order) order))" using Cons.prems(1) by simp
  from Cons.IH [OF this] Cons.prems(2) show ?case by auto
qed

lemma list_index_split:
  assumes "x \<in> set ns"
  obtains us vs where "ns = us @ x # vs" "x \<notin> set us" "list_index x ns = length us"
proof -
  obtain us vs where u: "ns = us @ x # vs" "x \<notin> set us" using assms split_list_first by metis
  then have "takeWhile (\<lambda>y. y \<noteq> x) us = us" by (auto simp: takeWhile_eq_all_conv)
  then have "list_index x ns = length us" using u by (simp add: list_index_def takeWhile_append)
  with u show ?thesis by (rule that)
qed

lemma list_index_append: "x \<in> set us \<Longrightarrow> list_index x (us @ vs) < length us"
  by (induction us) (auto simp: list_index_def)

lemma parents_first_index:
  assumes "parents_first E ns" and "c \<in> set ns" and "(p, c) \<in> E"
  shows "p \<in> set ns \<and> list_index p ns < list_index c ns"
proof -
  obtain us vs where u: "ns = us @ c # vs" "list_index c ns = length us" using list_index_split [OF assms(2)] .
  then have p: "p \<in> set us" using assms(1,3) unfolding parents_first_def by blast
  then show ?thesis using list_index_append [OF p, of "c # vs"] u by simp
qed

lemma parents_first_path:
  assumes "parents_first E ns" and "c \<in> set ns" and "(r, c) \<in> E\<^sup>*"
  shows "c \<in> set (drop (list_index r ns) ns)"
proof -
  have "r \<in> set ns \<and> list_index r ns \<le> list_index c ns"
    using assms(3,2)
  proof (induction rule: converse_rtrancl_induct)
    case base
    then show ?case by simp
  next
    case (step x y)
    then show ?case using parents_first_index [OF assms(1)] by fastforce
  qed
  moreover obtain us vs where u: "ns = us @ c # vs" "list_index c ns = length us" using list_index_split [OF assms(2)] .
  ultimately show ?thesis by (simp add: u)
qed

lemma full_chain_spec:
  assumes "graph_ok g"
  shows "\<exists>chain. full_chain it g a = Inr chain \<and> distinct chain \<and> a \<in> set chain \<and>
    set chain \<subseteq> insert a (all_artifacts g) \<and>
    (\<forall>r x. (r, a) \<in> (graph_edges g)\<^sup>+ \<longrightarrow> graph_parents g r = {} \<longrightarrow> (r, x) \<in> (graph_edges g)\<^sup>* \<longrightarrow> x \<in> set chain)"
proof -
  let ?E = "graph_edges g"
  let ?up = "filter (\<lambda>x. graph_parents g x = {}) (ancestors it g a)"
  obtain ns where ns: "graph_order it g = Inr ns" "set ns = all_artifacts g" "parents_first ?E ns"
    using graph_order_correct [OF assms, of it] by blast
  have field: "x \<in> set ns" if "(x, y) \<in> ?E\<^sup>+" for x y
    using that by (induction rule: converse_trancl_induct) (use graph_edges_field [OF assms] ns(2) in auto)
  have up: "set ?up = {r. (r, a) \<in> ?E\<^sup>+ \<and> graph_parents g r = {}}"
    using ancestors_spec [OF assms, of it a] by auto
  show ?thesis
  proof (cases "?up = []")
    case True
    then have none: "\<not> ((r, a) \<in> ?E\<^sup>+ \<and> graph_parents g r = {})" for r using up by auto
    define i where "i = (if a \<in> set ns then list_index a ns else 0)"
    have "full_chain it g a = Inr (let chain = add_new [] (drop i ns) in if a \<in> set chain then chain else chain @ [a])"
      using True ns(1) by (simp add: full_chain_def Let_def i_def)
    moreover have "set (drop i ns) \<subseteq> all_artifacts g" using ns(2) set_drop_subset by metis
    ultimately show ?thesis using none by (auto simp: Let_def)
  next
    case False
    have "set ?up \<subseteq> set ns" using field unfolding up by blast
    from chain_roots_spec [of "[]", OF _ this] obtain chain where c: "chain_roots (Inr ns) ?up [] = Inr chain" "distinct chain"
      "set chain = (\<Union>r \<in> set ?up. set (drop (list_index r ns) ns))" by auto
    have cover: "x \<in> set chain" if r: "(r, a) \<in> ?E\<^sup>+" "graph_parents g r = {}" "(r, x) \<in> ?E\<^sup>*" for r x
    proof -
      have "x \<in> set ns"
      proof (cases "x = r")
        case True
        then show ?thesis using field [OF r(1)] by simp
      next
        case False
        then obtain y where "(y, x) \<in> ?E" using r(3) by (metis rtranclE)
        then show ?thesis using graph_edges_field [OF assms] ns(2) by auto
      qed
      from parents_first_path [OF ns(3) this r(3)] show ?thesis unfolding c(3) up using r(1,2) by blast
    qed
    have "set chain \<subseteq> all_artifacts g" unfolding c(3) using ns(2) by (auto dest: in_set_dropD)
    moreover have "full_chain it g a = Inr (if a \<in> set chain then chain else chain @ [a])"
      using False ns(1) c(1) by (simp add: full_chain_def Let_def)
    ultimately show ?thesis using c(2) cover by auto
  qed
qed

lemma root_ancestor:
  assumes "graph_ok g"
  shows "\<exists>r. (r, x) \<in> (graph_edges g)\<^sup>* \<and> graph_parents g r = {}"
proof -
  have "acyclic (graph_edges g)" using assms by (simp add: graph_ok_def)
  then have "wf (graph_edges g)" by (rule finite_acyclic_wf [OF finite_graph_edges [OF assms]])
  then show ?thesis
  proof (induction x rule: wf_induct_rule)
    case (less x)
    show ?case
    proof (cases "graph_parents g x = {}")
      case False
      then obtain p where "(p, x) \<in> graph_edges g" using assms by (auto simp: graph_ok_def)
      with less [OF this] show ?thesis by (meson rtrancl.rtrancl_into_rtrancl)
    qed auto
  qed
qed

lemma keys_dict_set: "set (dict_keys (dict_set k v d)) = insert k (set (dict_keys d))"
  unfolding dict_keys_set dict_has_iff by auto

lemma parents_edges: "graph_ok g \<Longrightarrow> graph_parents g c = {p. (p, c) \<in> graph_edges g}"
  by (auto simp: graph_ok_def)

lemma pipeline_stage_returns:
  assumes "graph_ok g"
  shows "\<exists>n. pipeline_stage it g a = Inr n \<and> (graph_parents g a = {} \<longrightarrow> n = 0)"
proof -
  have "\<exists>n. deepest it g a xs m = Inr n" for xs m
  proof (induction xs arbitrary: m)
    case (Cons x xs)
    obtain chain where "full_chain it g x = Inr chain" using full_chain_spec [OF assms] by blast
    then show ?case using Cons by simp
  qed simp
  moreover have "ancestors it g a = []" if p: "graph_parents g a = {}"
  proof -
    have "(x, a) \<notin> (graph_edges g)\<^sup>+" for x
    proof
      assume "(x, a) \<in> (graph_edges g)\<^sup>+"
      then obtain y where "(y, a) \<in> graph_edges g" by (metis tranclD2)
      then show False using p assms by (simp add: graph_ok_def)
    qed
    then show ?thesis using ancestors_spec [OF assms, of it a] by simp
  qed
  ultimately show ?thesis by (cases "graph_parents g a = {}") (simp_all add: pipeline_stage_def Let_def)
qed

section \<open>Properties\<close>

text \<open>C3: Whatever sequence of additions and removals is requested of a new graph, accepted or
  refused, the graph stays free of cycles, its two dictionaries mirror each other, and the
  topological order exists: every artifact once, every parent before its children.\<close>

theorem dependency_graph_invariant:
  fixes it :: set_order and ops :: "graph_op list"
  shows "let g = fold (run_graph_op (\<lambda>p c. graph_add it (edge_dep p c)) (graph_remove it)) ops new_graph in
    acyclic (graph_edges g) \<and> (\<forall>a b. b \<in> graph_children g a \<longleftrightarrow> a \<in> graph_parents g b) \<and>
    (\<exists>ns. graph_order it g = Inr ns \<and> distinct ns \<and> set ns = all_artifacts g \<and> parents_first (graph_edges g) ns)"
proof -
  have "graph_ok (fold (run_graph_op (\<lambda>p c. graph_add it (edge_dep p c)) (graph_remove it)) ops new_graph)"
    by (rule artifact_graph.run_ops_ok) simp
  note ok = this
  show ?thesis unfolding Let_def using ok graph_order_correct [OF ok, of it] by (simp add: graph_ok_def)
qed

text \<open>C30: The edges of a list can all be added to a new graph, in the order given, exactly if together
  they have no cycle; the refusal of a single edge leaves the graph as it is.\<close>

theorem graph_add_all_iff_acyclic:
  "(fst (py_for es (\<lambda>(p, c). graph_add it (edge_dep p c)) new_graph) = Inr () \<longleftrightarrow> acyclic (set es)) \<and>
    (graph_ok g \<and> isl (fst (graph_add it dep g)) \<longrightarrow> snd (graph_add it dep g) = g)"
proof -
  have "graph_edges new_graph = {}" by (simp add: graph_edges_def graph_children_def new_graph_def adj_def)
  then show ?thesis
    using artifact_graph.add_all_iff [of new_graph es it] by (auto simp: graph_add_cases)
qed

text \<open>C31: The ancestors of an artifact are listed once each and are exactly its transitive parents; the
  descendants are the artifacts it is an ancestor of, and nothing is its own ancestor.\<close>

theorem lineage_transitive:
  assumes "graph_ok g"
  shows "distinct (ancestors it g a) \<and> set (ancestors it g a) = {x. (x, a) \<in> (graph_edges g)\<^sup>+} \<and>
    distinct (descendants it g a) \<and> (\<forall>b. b \<in> set (descendants it g a) \<longleftrightarrow> a \<in> set (ancestors it g b)) \<and>
    a \<notin> set (ancestors it g a)"
  using ancestors_spec [OF assms] descendants_spec [OF assms] assms by (simp add: graph_ok_def acyclic_def)

text \<open>The lineage chain of an artifact exists and holds the artifact and all its ancestors once
  each; but it holds also everything else that descends from one of its roots.\<close>

theorem full_chain_covers:
  assumes "graph_ok g"
  shows "\<exists>chain. full_chain it g a = Inr chain \<and> distinct chain \<and> insert a (set (ancestors it g a)) \<subseteq> set chain \<and>
    (\<forall>r \<in> set (ancestors it g a). graph_parents g r = {} \<longrightarrow> insert r (set (descendants it g r)) \<subseteq> set chain)"
proof -
  let ?E = "graph_edges g"
  obtain chain where c: "full_chain it g a = Inr chain" "distinct chain" "a \<in> set chain"
    "\<forall>r x. (r, a) \<in> ?E\<^sup>+ \<longrightarrow> graph_parents g r = {} \<longrightarrow> (r, x) \<in> ?E\<^sup>* \<longrightarrow> x \<in> set chain"
    using full_chain_spec [OF assms, of it a] by blast
  have anc: "set (ancestors it g a) = {x. (x, a) \<in> ?E\<^sup>+}" using ancestors_spec [OF assms] by simp
  have "x \<in> set chain" if x: "(x, a) \<in> ?E\<^sup>+" for x
  proof -
    obtain r where "(r, x) \<in> ?E\<^sup>*" "graph_parents g r = {}" using root_ancestor [OF assms] by blast
    with c(4) x show ?thesis by (meson rtrancl_trancl_trancl)
  qed
  moreover have "insert r (set (descendants it g r)) \<subseteq> set chain" if "(r, a) \<in> ?E\<^sup>+" "graph_parents g r = {}" for r
    using c(4) that descendants_spec [OF assms, of it r] by (auto dest: trancl_into_rtrancl)
  ultimately show ?thesis using c(1-3) unfolding anc by blast
qed

text \<open>Removing the only parent of an artifact leaves it without parents, but it does not become a
  root: its empty entry stays in the reverse dictionary.\<close>

theorem removed_parent_not_root:
  assumes "graph_ok g" and "graph_parents g c = {p}"
  shows "graph_parents (graph_remove it p g) c = {} \<and> c \<in> all_artifacts (graph_remove it p g) \<and>
    c \<notin> graph_roots (graph_remove it p g)"
proof -
  have pc: "p \<noteq> c" using no_own_child [OF assms(1), of c] assms by (auto simp: graph_ok_def)
  have "c \<in> set (dict_keys (dg_reverse g))" using parent_is_key [of p g c] assms(2) by simp
  then have k: "c \<in> set (dict_keys (fold (\<lambda>c. adj_discard c p) cs (dg_reverse g)))" for cs
    by (induction cs rule: rev_induct) (auto simp: adj_discard_def keys_dict_set [simplified] split: option.splits)
  have "c \<in> set (dict_keys (dg_reverse (graph_remove it p g)))"
    using k pc by (simp add: graph_remove_def Let_def dict_keys_pop)
  then show ?thesis using graph_remove_adj(2) [OF assms(1), of it p c] assms(2) pc by (simp add: all_artifacts_def graph_roots_def)
qed

section \<open>Witnesses\<close>

definition sample_iter :: set_order where
  "sample_iter A = filter (\<lambda>x. x \<in> A) [''scan'', ''text'', ''chunks'']"

definition sample_graph :: dependency_graph where
  "sample_graph = fold (run_graph_op (\<lambda>p c. graph_add sample_iter (edge_dep p c)) (graph_remove sample_iter))
     [Add_Edge ''scan'' ''text'', Add_Edge ''text'' ''chunks'', Add_Edge ''chunks'' ''scan''] new_graph"

lemma sample_graph_ok: "graph_ok sample_graph"
  unfolding sample_graph_def by (rule artifact_graph.run_ops_ok) simp

lemma sample_graph_edges: "graph_edges sample_graph = {(''scan'', ''text''), (''text'', ''chunks'')}"
proof -
  have "dg_edges sample_graph = [(''scan'', {''text''}), (''text'', {''chunks''})]"
    by (simp add: sample_graph_def run_graph_op_def graph_add_def Let_def py_bind_split edge_dep_def would_create_cycle_def
        new_graph_def set_iter_def sample_iter_def adj_def adj_add_def)
  then show ?thesis by (auto simp: graph_edges_def graph_children_def adj_def split: if_splits)
qed

theorem graph_add_all_iff_acyclic_witness:
  "fst (py_for [(''a'', ''b''), (''b'', ''a'')] (\<lambda>(p, c). graph_add sample_iter (edge_dep p c)) new_graph) \<noteq> Inr () \<and>
    graph_ok sample_graph"
proof -
  have "\<not> acyclic (set [(''a'', ''b''), (''b'', ''a'')])"
    unfolding acyclic_def by (metis list.set_intros r_into_trancl' trancl_into_trancl)
  then show ?thesis
    using graph_add_all_iff_acyclic [of "[(''a'', ''b''), (''b'', ''a'')]" sample_iter sample_graph] sample_graph_ok by blast
qed

theorem lineage_transitive_witness:
  "''scan'' \<in> set (ancestors sample_iter sample_graph ''chunks'')"
proof -
  have "(''scan'', ''chunks'') \<in> (graph_edges sample_graph)\<^sup>+"
    unfolding sample_graph_edges by (meson insertI1 insertI2 r_into_trancl' trancl_into_trancl)
  then show ?thesis using lineage_transitive [OF sample_graph_ok, of sample_iter "''chunks''"] by blast
qed

theorem full_chain_covers_witness:
  "\<exists>chain. full_chain sample_iter sample_graph ''text'' = Inr chain \<and> ''text'' \<in> set chain"
  using full_chain_covers [OF sample_graph_ok, of sample_iter "''text''"] by blast

theorem removed_parent_not_root_witness:
  "''text'' \<notin> graph_roots (graph_remove sample_iter ''scan'' sample_graph)"
proof -
  have "graph_parents sample_graph ''text'' = {''scan''}"
    unfolding parents_edges [OF sample_graph_ok] sample_graph_edges by simp
  from removed_parent_not_root [OF sample_graph_ok this] show ?thesis by blast
qed

end
