(* ===== verification/Artifact_Manager.thy ===== *)
theory Artifact_Manager
  imports Artifact Artifact_Lineage
begin

text \<open>
  \<open>artifacts/artifact_manager.py\<close>. The registry is an interface without an implementation in the
  program: the record \<open>artifact_registry\<close> holds its operations, and \<open>ar_mutated a\<close> is what it means
  for the registry that the object it handed out has been mutated into \<open>a\<close> (a registry that hands
  out its own objects sees the mutation, one that hands out copies does not). \<open>registry_serves\<close>
  states the documented behaviour of a registry of the first kind.
\<close>

datatype artifact_event =
    ArtifactCreated string string string
  | ArtifactValidated string bool
  | ArtifactSuperseded string
  | ArtifactArchived string
  | ArtifactDeleted string

record 'r artifact_registry =
  ar_register :: "artifact \<Rightarrow> ('r, unit) py"
  ar_find :: "'r \<Rightarrow> string \<Rightarrow> artifact option"
  ar_exists :: "'r \<Rightarrow> string \<Rightarrow> bool"
  ar_find_by_type :: "'r \<Rightarrow> string \<Rightarrow> artifact list"
  ar_mutated :: "artifact \<Rightarrow> 'r \<Rightarrow> 'r"

record ('r, 'b) artifact_env =
  ae_registry :: "'r artifact_registry"
  ae_emit :: "artifact_event \<Rightarrow> ('b, unit) py"
  ae_now :: "nat \<Rightarrow> int"
  ae_iter :: set_order

record ('r, 'b) artifact_manager =
  mgr_registry :: 'r
  mgr_dependencies :: dependency_graph
  mgr_sink :: 'b
  mgr_ticks :: nat

type_synonym ('r, 'b, 'a) manager_py = "(('r, 'b) artifact_manager, 'a) py"

record create_args =
  ca_artifact_id :: string
  ca_workspace_id :: string
  ca_artifact_type :: artifact_type
  ca_checksum :: string
  ca_investigation_id :: string
  ca_subtype :: string
  ca_producer_module :: string
  ca_producer_version :: string
  ca_media_type :: string
  ca_storage_uri :: string
  ca_tags :: "string list"

section \<open>Operations\<close>

definition mgr_publish :: "('r, 'b) artifact_env \<Rightarrow> artifact_event \<Rightarrow> ('r, 'b, unit) manager_py" where
  "mgr_publish env e = py_on mgr_sink (\<lambda>b s. s\<lparr>mgr_sink := b\<rparr>) (ae_emit env e)"

definition mgr_now :: "('r, 'b) artifact_env \<Rightarrow> ('r, 'b, int) manager_py" where
  "mgr_now env = (\<lambda>s. (Inr (ae_now env (mgr_ticks s)), s\<lparr>mgr_ticks := Suc (mgr_ticks s)\<rparr>))"

definition get_or_raise :: "('r, 'b) artifact_env \<Rightarrow> string \<Rightarrow> ('r, 'b, artifact) manager_py" where
  "get_or_raise env i =
     py_bind (py_read (\<lambda>s. ar_find (ae_registry env) (mgr_registry s) i)) (\<lambda>found.
     case found of
       None \<Rightarrow> py_raise ArtifactNotFoundError (''Artifact '' @ quoted i @ '' not found'')
     | Some a \<Rightarrow> py_return a)"

text \<open>A method of the found object: it mutates the object the registry handed out.\<close>

definition call_found :: "('r, 'b) artifact_env \<Rightarrow> artifact \<Rightarrow> (artifact, 'a) py \<Rightarrow> ('r, 'b, 'a) manager_py" where
  "call_found env a m =
     (\<lambda>s. (fst (m a), s\<lparr>mgr_registry := ar_mutated (ae_registry env) (snd (m a)) (mgr_registry s)\<rparr>))"

definition new_artifact :: "create_args \<Rightarrow> int \<Rightarrow> int \<Rightarrow> artifact" where
  "new_artifact c created updated =
     \<lparr>art_id = ca_artifact_id c, art_workspace_id = ca_workspace_id c, art_investigation_id = ca_investigation_id c,
      art_type = ca_artifact_type c, art_subtype = ca_subtype c, art_status = ART_REGISTERED, art_current_version = 1,
      art_producer_module = ca_producer_module c, art_producer_version = ca_producer_version c,
      art_checksum = ca_checksum c, art_media_type = ca_media_type c, art_storage_uri = ca_storage_uri c,
      art_tags = ca_tags c, art_extra = [], art_versions = [], art_created_at = created, art_updated_at = updated\<rparr>"

definition create_artifact :: "('r, 'b) artifact_env \<Rightarrow> create_args \<Rightarrow> ('r, 'b, artifact) manager_py" where
  "create_artifact env c =
     py_bind (py_read (\<lambda>s. ar_exists (ae_registry env) (mgr_registry s) (ca_artifact_id c))) (\<lambda>taken.
     if taken then py_raise ArtifactAlreadyExistsError (''Artifact '' @ quoted (ca_artifact_id c) @ '' already exists'')
     else
       py_bind (mgr_now env) (\<lambda>created.
       py_bind (mgr_now env) (\<lambda>updated.
       py_bind (py_lift (artifact_post_init (new_artifact c created updated))) (\<lambda>a.
       py_bind (py_on mgr_registry (\<lambda>r s. s\<lparr>mgr_registry := r\<rparr>) (ar_register (ae_registry env) a)) (\<lambda>_.
       py_bind (mgr_publish env (ArtifactCreated (art_id a) (artifact_type_value (ca_artifact_type c)) (ca_producer_module c))) (\<lambda>_.
       py_return a))))))"

definition validate_artifact :: "('r, 'b) artifact_env \<Rightarrow> string \<Rightarrow> string \<Rightarrow> ('r, 'b, bool) manager_py" where
  "validate_artifact env i expected =
     py_bind (get_or_raise env i) (\<lambda>a.
     if \<not> validate_checksum a expected
     then py_raise ArtifactChecksumError (''Artifact '' @ quoted i @ '' checksum mismatch: expected '' @ expected
       @ '', got '' @ art_checksum a)
     else
       py_bind (mgr_now env) (\<lambda>now.
       py_bind (call_found env a (mark_available now)) (\<lambda>_.
       py_bind (mgr_publish env (ArtifactValidated i True)) (\<lambda>_. py_return True))))"

definition supersede_artifact :: "('r, 'b) artifact_env \<Rightarrow> string \<Rightarrow> ('r, 'b, unit) manager_py" where
  "supersede_artifact env i =
     py_bind (get_or_raise env i) (\<lambda>a.
     py_bind (mgr_now env) (\<lambda>now.
     py_bind (call_found env a (supersede now)) (\<lambda>_. mgr_publish env (ArtifactSuperseded i))))"

definition archive_artifact :: "('r, 'b) artifact_env \<Rightarrow> string \<Rightarrow> ('r, 'b, unit) manager_py" where
  "archive_artifact env i =
     py_bind (get_or_raise env i) (\<lambda>a.
     py_bind (mgr_now env) (\<lambda>now.
     py_bind (call_found env a (archive now)) (\<lambda>_. mgr_publish env (ArtifactArchived i))))"

definition delete_artifact :: "('r, 'b) artifact_env \<Rightarrow> string \<Rightarrow> ('r, 'b, unit) manager_py" where
  "delete_artifact env i =
     py_bind (get_or_raise env i) (\<lambda>a.
     py_bind (mgr_now env) (\<lambda>now.
     py_bind (call_found env a (delete_artifact_state now)) (\<lambda>_.
     py_bind (py_modify (\<lambda>s. s\<lparr>mgr_dependencies := graph_remove (ae_iter env) i (mgr_dependencies s)\<rparr>)) (\<lambda>_.
     mgr_publish env (ArtifactDeleted i)))))"

definition add_dependency :: "('r, 'b) artifact_env \<Rightarrow> string \<Rightarrow> string \<Rightarrow> string \<Rightarrow> ('r, 'b, unit) manager_py" where
  "add_dependency env p c relationship =
     py_bind (get_or_raise env p) (\<lambda>_.
     py_bind (get_or_raise env c) (\<lambda>_.
     py_on mgr_dependencies (\<lambda>g s. s\<lparr>mgr_dependencies := g\<rparr>)
       (graph_add (ae_iter env) \<lparr>dep_parent_id = p, dep_child_id = c, dep_relationship = relationship, dep_pipeline_stage = []\<rparr>)))"

definition found_artifacts :: "('r, 'b) artifact_env \<Rightarrow> 'r \<Rightarrow> string set \<Rightarrow> artifact list" where
  "found_artifacts env r A = List.map_filter (ar_find (ae_registry env) r) (set_iter (ae_iter env) A)"

definition get_children :: "('r, 'b) artifact_env \<Rightarrow> string \<Rightarrow> ('r, 'b, artifact list) manager_py" where
  "get_children env i =
     py_bind (get_or_raise env i) (\<lambda>_.
     py_read (\<lambda>s. found_artifacts env (mgr_registry s) (graph_children (mgr_dependencies s) i)))"

definition get_parents :: "('r, 'b) artifact_env \<Rightarrow> string \<Rightarrow> ('r, 'b, artifact list) manager_py" where
  "get_parents env i =
     py_bind (get_or_raise env i) (\<lambda>_.
     py_read (\<lambda>s. found_artifacts env (mgr_registry s) (graph_parents (mgr_dependencies s) i)))"

definition lineage :: "('r, 'b) artifact_env \<Rightarrow> string \<Rightarrow> ('r, 'b, string list) manager_py" where
  "lineage env i =
     py_bind (get_or_raise env i) (\<lambda>_.
     py_bind (py_read mgr_dependencies) (\<lambda>g. py_lift (full_chain (ae_iter env) g i)))"

definition missing_parents :: "('r, 'b) artifact_env \<Rightarrow> string \<Rightarrow> ('r, 'b, string list) manager_py" where
  "missing_parents env i =
     py_bind (get_or_raise env i) (\<lambda>_.
     py_read (\<lambda>s. filter (\<lambda>p. \<not> ar_exists (ae_registry env) (mgr_registry s) p)
       (set_iter (ae_iter env) (graph_parents (mgr_dependencies s) i))))"

definition pipeline_order :: "('r, 'b) artifact_env \<Rightarrow> ('r, 'b, string list) manager_py" where
  "pipeline_order env = py_bind (py_read mgr_dependencies) (\<lambda>g. py_lift (graph_order (ae_iter env) g))"

definition get_artifact :: "('r, 'b) artifact_env \<Rightarrow> string \<Rightarrow> ('r, 'b, artifact option) manager_py" where
  "get_artifact env i = py_read (\<lambda>s. ar_find (ae_registry env) (mgr_registry s) i)"

definition list_by_type :: "('r, 'b) artifact_env \<Rightarrow> artifact_type \<Rightarrow> ('r, 'b, artifact list) manager_py" where
  "list_by_type env t = py_read (\<lambda>s. ar_find_by_type (ae_registry env) (mgr_registry s) (artifact_type_value t))"

section \<open>What the registry documents\<close>

definition registry_serves :: "'r artifact_registry \<Rightarrow> bool" where
  "registry_serves R =
     (\<forall>r i a. (ar_exists R r i \<longleftrightarrow> ar_find R r i \<noteq> None) \<and>
       (ar_find R r i = Some a \<longrightarrow> art_id a = i) \<and>
       (ar_find R r (art_id a) = None \<longrightarrow>
         (\<exists>r'. ar_register R a r = (Inr (), r') \<and> ar_find R r' = (ar_find R r)(art_id a := Some a))) \<and>
       (ar_find R r (art_id a) \<noteq> None \<longrightarrow> ar_find R (ar_mutated R a r) = (ar_find R r)(art_id a := Some a)))"

lemma registry_exists: "registry_serves R \<Longrightarrow> ar_exists R r i \<longleftrightarrow> ar_find R r i \<noteq> None"
  unfolding registry_serves_def by blast

lemma registry_found_id: "registry_serves R \<Longrightarrow> ar_find R r i = Some a \<Longrightarrow> art_id a = i"
  unfolding registry_serves_def by blast

lemma registry_new:
  "registry_serves R \<Longrightarrow> ar_find R r (art_id a) = None \<Longrightarrow>
    \<exists>r'. ar_register R a r = (Inr (), r') \<and> ar_find R r' = (ar_find R r)(art_id a := Some a)"
  unfolding registry_serves_def by blast

lemma registry_mutated:
  "registry_serves R \<Longrightarrow> ar_find R r i = Some a \<Longrightarrow> art_id a' = i \<Longrightarrow>
    ar_find R (ar_mutated R a' r) = (ar_find R r)(i := Some a')"
  unfolding registry_serves_def by (metis option.distinct(1))

section \<open>What the operations do to the state\<close>

lemma get_or_raise_app [simp]:
  "get_or_raise env i s =
    (case ar_find (ae_registry env) (mgr_registry s) i of
       None \<Rightarrow> (Inl (Exn ArtifactNotFoundError (''Artifact '' @ quoted i @ '' not found'')), s)
     | Some a \<Rightarrow> (Inr a, s))"
  by (simp add: get_or_raise_def split: option.splits)

lemma mgr_now_app [simp]: "mgr_now env s = (Inr (ae_now env (mgr_ticks s)), s\<lparr>mgr_ticks := Suc (mgr_ticks s)\<rparr>)"
  by (simp add: mgr_now_def)

lemma mgr_publish_app [simp]:
  "mgr_publish env e s = (fst (ae_emit env e (mgr_sink s)), s\<lparr>mgr_sink := snd (ae_emit env e (mgr_sink s))\<rparr>)"
  by (simp add: mgr_publish_def)

lemma call_found_app [simp]:
  "call_found env a m s =
    (fst (m a), s\<lparr>mgr_registry := ar_mutated (ae_registry env) (snd (m a)) (mgr_registry s)\<rparr>)"
  by (simp add: call_found_def)

text \<open>The operations on one artifact: what is found afterwards, and the graph.\<close>

abbreviation mgr_find :: "('r, 'b) artifact_env \<Rightarrow> ('r, 'b) artifact_manager \<Rightarrow> string \<Rightarrow> artifact option" where
  "mgr_find env s \<equiv> ar_find (ae_registry env) (mgr_registry s)"

lemma transition_id [simp]: "art_id (snd (artifact_transition now t a)) = art_id a"
  by (simp add: artifact_transition_cases)

lemma post_init_same: "artifact_post_init a = Inr b \<Longrightarrow> b = a"
  by (auto simp: artifact_post_init_def split: if_splits)

lemma create_artifact_state:
  assumes "registry_serves (ae_registry env)"
  shows "mgr_dependencies (snd (create_artifact env c s)) = mgr_dependencies s \<and>
    (mgr_find env (snd (create_artifact env c s)) = mgr_find env s \<or>
     mgr_find env s (ca_artifact_id c) = None \<and>
     (\<exists>a. mgr_find env (snd (create_artifact env c s)) = (mgr_find env s)(ca_artifact_id c := Some a) \<and>
       art_status a = ART_REGISTERED \<and> art_checksum a = ca_checksum c))"
proof (cases "mgr_find env s (ca_artifact_id c)")
  case (Some b)
  then show ?thesis using registry_exists [OF assms] by (simp add: create_artifact_def py_bind_split)
next
  case None
  let ?a = "new_artifact c (ae_now env (mgr_ticks s)) (ae_now env (Suc (mgr_ticks s)))"
  have id': "art_id ?a = ca_artifact_id c" "art_status ?a = ART_REGISTERED" "art_checksum ?a = ca_checksum c"
    by (simp_all add: new_artifact_def)
  obtain r' where r': "ar_register (ae_registry env) ?a (mgr_registry s) = (Inr (), r')"
    "ar_find (ae_registry env) r' = (mgr_find env s)(ca_artifact_id c := Some ?a)"
    using registry_new [OF assms, of "mgr_registry s" ?a] None id' by auto
  have taken: "\<not> ar_exists (ae_registry env) (mgr_registry s) (ca_artifact_id c)" using registry_exists [OF assms] None by blast
  show ?thesis
  proof (cases "artifact_post_init ?a")
    case (Inl e)
    then show ?thesis using taken by (simp add: create_artifact_def py_bind_split)
  next
    case (Inr b)
    then have "b = ?a" by (rule post_init_same)
    with Inr show ?thesis using taken r' id' None
      by (auto simp: create_artifact_def py_bind_split split: sum.splits)
  qed
qed

lemma validate_artifact_state:
  assumes "registry_serves (ae_registry env)" and "mgr_find env s i = Some a"
  shows "mgr_dependencies (snd (validate_artifact env i expected s)) = mgr_dependencies s \<and>
    (\<exists>a'. mgr_find env (snd (validate_artifact env i expected s)) = (mgr_find env s)(i := Some a') \<and> art_id a' = i \<and>
      art_status a' = (if art_checksum a = expected \<and> art_status a = ART_REGISTERED then ART_AVAILABLE else art_status a))"
proof -
  have i: "art_id a = i" using registry_found_id [OF assms] .
  have upd: "ar_find (ae_registry env) (ar_mutated (ae_registry env) (snd (mark_available t a)) (mgr_registry s))
      = (mgr_find env s)(i := Some (snd (mark_available t a)))" for t
    by (rule registry_mutated [OF assms]) (simp add: mark_available_def i)
  show ?thesis
  proof (cases "validate_checksum a expected")
    case False
    then have "mgr_find env (snd (validate_artifact env i expected s)) = (mgr_find env s)(i := Some a)"
      using assms(2) by (simp add: validate_artifact_def py_bind_split fun_upd_idem)
    then show ?thesis using False assms(2) i by (auto simp: validate_artifact_def py_bind_split validate_checksum_def)
  next
    case True
    let ?a = "snd (mark_available (ae_now env (mgr_ticks s)) a)"
    have "mgr_find env (snd (validate_artifact env i expected s)) = (mgr_find env s)(i := Some ?a)"
      "mgr_dependencies (snd (validate_artifact env i expected s)) = mgr_dependencies s"
      using True assms(2) upd by (auto simp: validate_artifact_def py_bind_split split: sum.splits)
    moreover have "art_id ?a = i" "art_status ?a = (if art_status a = ART_REGISTERED then ART_AVAILABLE else art_status a)"
      using i by (cases "art_status a"; simp add: mark_available_def artifact_transition_cases can_transition_artifact_def)+
    moreover have "art_checksum a = expected" using True by (simp add: validate_checksum_def)
    ultimately show ?thesis by (intro conjI exI [of _ ?a]) simp_all
  qed
qed

lemma found_mutation_state:
  assumes "registry_serves (ae_registry env)" and "mgr_find env s i = Some a" and "\<And>t. art_id (snd (m t a)) = i"
    and "op = py_bind (get_or_raise env i) (\<lambda>a. py_bind (mgr_now env) (\<lambda>now. py_bind (call_found env a (m now)) (\<lambda>_. mgr_publish env e)))"
  shows "mgr_dependencies (snd (op s)) = mgr_dependencies s \<and>
    mgr_find env (snd (op s)) = (mgr_find env s)(i := Some (snd (m (ae_now env (mgr_ticks s)) a)))"
  using registry_mutated [OF assms(1,2,3)] assms(2) unfolding assms(4)
  by (auto simp: py_bind_split split: sum.splits)

lemma delete_artifact_effect:
  assumes "registry_serves (ae_registry env)" and "mgr_find env s i = Some a"
  shows "mgr_dependencies (snd (delete_artifact env i s)) = graph_remove (ae_iter env) i (mgr_dependencies s) \<and>
    mgr_find env (snd (delete_artifact env i s)) =
      (mgr_find env s)(i := Some (a\<lparr>art_status := ART_DELETED, art_updated_at := ae_now env (mgr_ticks s)\<rparr>))"
  using registry_mutated [OF assms, of "a\<lparr>art_status := ART_DELETED, art_updated_at := ae_now env (mgr_ticks s)\<rparr>"]
    registry_found_id [OF assms] assms(2)
  by (simp add: delete_artifact_def py_bind_split delete_artifact_state_def split: sum.splits)

lemma add_dependency_state:
  "mgr_registry (snd (add_dependency env p c rel s)) = mgr_registry s \<and>
    mgr_dependencies (snd (add_dependency env p c rel s)) =
      (if mgr_find env s p = None \<or> mgr_find env s c = None then mgr_dependencies s
       else snd (graph_add (ae_iter env) \<lparr>dep_parent_id = p, dep_child_id = c, dep_relationship = rel, dep_pipeline_stage = []\<rparr>
         (mgr_dependencies s)))"
  by (simp add: add_dependency_def py_bind_split split: option.splits)

section \<open>Reachable managers\<close>

datatype manager_call =
    Create create_args | Validate string string | Supersede string | Archive string | Delete string
  | Depend string string string

fun manager_step :: "('r, 'b) artifact_env \<Rightarrow> manager_call \<Rightarrow> ('r, 'b) artifact_manager \<Rightarrow> ('r, 'b) artifact_manager" where
  "manager_step env (Create c) s = snd (create_artifact env c s)"
| "manager_step env (Validate i e) s = snd (validate_artifact env i e s)"
| "manager_step env (Supersede i) s = snd (supersede_artifact env i s)"
| "manager_step env (Archive i) s = snd (archive_artifact env i s)"
| "manager_step env (Delete i) s = snd (delete_artifact env i s)"
| "manager_step env (Depend p c rel) s = snd (add_dependency env p c rel s)"

definition manager_ok :: "('r, 'b) artifact_env \<Rightarrow> ('r, 'b) artifact_manager \<Rightarrow> bool" where
  "manager_ok env s =
     (graph_ok (mgr_dependencies s) \<and>
      (\<forall>p c. c \<in> graph_children (mgr_dependencies s) p \<longrightarrow> mgr_find env s p \<noteq> None \<and> mgr_find env s c \<noteq> None))"

lemma manager_ok_grow:
  assumes "manager_ok env s" and "mgr_dependencies s' = mgr_dependencies s"
    and "\<forall>i. mgr_find env s i \<noteq> None \<longrightarrow> mgr_find env s' i \<noteq> None"
  shows "manager_ok env s'"
  using assms unfolding manager_ok_def by auto

lemma step_grows:
  assumes R: "registry_serves (ae_registry env)"
  shows "mgr_find env s i \<noteq> None \<Longrightarrow> mgr_find env (manager_step env call s) i \<noteq> None"
    and "\<forall>j. call \<noteq> Delete j \<Longrightarrow> \<forall>p c rel. call \<noteq> Depend p c rel \<Longrightarrow>
      mgr_dependencies (manager_step env call s) = mgr_dependencies s"
proof -
  have both: "(mgr_find env s i \<noteq> None \<longrightarrow> mgr_find env (manager_step env call s) i \<noteq> None) \<and>
    ((\<forall>j. call \<noteq> Delete j) \<longrightarrow> (\<forall>p c rel. call \<noteq> Depend p c rel) \<longrightarrow>
      mgr_dependencies (manager_step env call s) = mgr_dependencies s)"
  proof (cases call)
    case (Create c)
    then show ?thesis using create_artifact_state [OF R, of c s] by auto
  next
    case (Validate j e)
    show ?thesis
    proof (cases "mgr_find env s j")
      case None
      then show ?thesis using Validate by (simp add: validate_artifact_def py_bind_split)
    next
      case (Some a)
      then show ?thesis using Validate validate_artifact_state [OF R Some, of e] by auto
    qed
  next
    case (Supersede j)
    show ?thesis
    proof (cases "mgr_find env s j")
      case None
      then show ?thesis using Supersede by (simp add: supersede_artifact_def py_bind_split)
    next
      case (Some a)
      have "art_id (snd (supersede t a)) = j" for t
        using registry_found_id [OF R Some] by (simp add: supersede_def)
      from found_mutation_state [OF R Some this supersede_artifact_def]
      show ?thesis using Supersede by auto
    qed
  next
    case (Archive j)
    show ?thesis
    proof (cases "mgr_find env s j")
      case None
      then show ?thesis using Archive by (simp add: archive_artifact_def py_bind_split)
    next
      case (Some a)
      have "art_id (snd (archive t a)) = j" for t
        using registry_found_id [OF R Some] by (simp add: archive_def)
      from found_mutation_state [OF R Some this archive_artifact_def]
      show ?thesis using Archive by auto
    qed
  next
    case (Delete j)
    show ?thesis
    proof (cases "mgr_find env s j")
      case None
      then show ?thesis using Delete by (simp add: delete_artifact_def py_bind_split)
    next
      case (Some a)
      then show ?thesis using Delete delete_artifact_effect [OF R Some] by auto
    qed
  next
    case (Depend p c rel)
    then show ?thesis using add_dependency_state [of env p c rel s] by simp
  qed
  then show "mgr_find env s i \<noteq> None \<Longrightarrow> mgr_find env (manager_step env call s) i \<noteq> None"
    and "\<forall>j. call \<noteq> Delete j \<Longrightarrow> \<forall>p c rel. call \<noteq> Depend p c rel \<Longrightarrow>
      mgr_dependencies (manager_step env call s) = mgr_dependencies s" by blast+
qed

lemma manager_ok_step:
  assumes R: "registry_serves (ae_registry env)" and ok: "manager_ok env s"
  shows "manager_ok env (manager_step env call s)"
proof (cases "(\<exists>j. call = Delete j) \<or> (\<exists>p c rel. call = Depend p c rel)")
  case False
  then show ?thesis
    using manager_ok_grow [OF ok] step_grows [OF R] by (metis (no_types, lifting))
next
  case True
  then consider j where "call = Delete j" | p c rel where "call = Depend p c rel" by blast
  then show ?thesis
  proof cases
    case 1
    show ?thesis
    proof (cases "mgr_find env s j")
      case None
      then show ?thesis using 1 ok by (simp add: delete_artifact_def py_bind_split)
    next
      case (Some a)
      have g: "graph_ok (mgr_dependencies s)" using ok by (simp add: manager_ok_def)
      show ?thesis
        using delete_artifact_effect [OF R Some] ok graph_ok_remove [OF g] graph_remove_adj(1) [OF g]
        unfolding manager_ok_def 1 by (auto split: if_splits)
    qed
  next
    case 2
    let ?dep = "\<lparr>dep_parent_id = p, dep_child_id = c, dep_relationship = rel, dep_pipeline_stage = []\<rparr>"
    let ?g = "snd (graph_add (ae_iter env) ?dep (mgr_dependencies s))"
    have g: "graph_ok (mgr_dependencies s)" using ok by (simp add: manager_ok_def)
    have g': "graph_ok ?g \<and> graph_edges ?g \<subseteq> insert (p, c) (graph_edges (mgr_dependencies s))"
      using graph_add_cases [OF g, of "ae_iter env" ?dep] graph_ok_with_edge [OF g, of ?dep] g by auto
    have "manager_step env call s = snd (add_dependency env p c rel s)" using 2 by simp
    then show ?thesis
      using add_dependency_state [of env p c rel s] ok g' unfolding manager_ok_def
      by (auto simp: graph_edges_def split: if_splits)
  qed
qed

lemma manager_ok_steps:
  "registry_serves (ae_registry env) \<Longrightarrow> manager_ok env s \<Longrightarrow> manager_ok env (fold (manager_step env) calls s)"
  by (induction calls arbitrary: s) (simp_all add: manager_ok_step)

section \<open>Properties\<close>

text \<open>C11: Whatever calls are made on a manager that starts without dependencies, its graph stays free
  of cycles and both ends of each of its edges are registered artifacts, so \<open>validate_dependencies\<close> never
  reports a missing one; and the pipeline order exists: it holds exactly the artifacts of the graph, among
  them both ends of every edge, each once, and puts parents first.\<close>

theorem manager_dependencies_sound:
  assumes "registry_serves (ae_registry env)" and "mgr_dependencies s0 = new_graph"
    and "s = fold (manager_step env) calls s0"
  shows "acyclic (graph_edges (mgr_dependencies s)) \<and>
    Field (graph_edges (mgr_dependencies s)) \<subseteq> {j. mgr_find env s j \<noteq> None} \<and>
    (mgr_find env s i \<noteq> None \<longrightarrow> missing_parents env i s = (Inr [], s)) \<and>
    (\<exists>ns. pipeline_order env s = (Inr ns, s) \<and> distinct ns \<and> Field (graph_edges (mgr_dependencies s)) \<subseteq> set ns \<and>
      set ns = all_artifacts (mgr_dependencies s) \<and> parents_first (graph_edges (mgr_dependencies s)) ns)"
proof -
  have "manager_ok env s0"
    using assms(2) graph_ok_new by (simp add: manager_ok_def graph_children_def new_graph_def adj_def)
  then have ok: "manager_ok env s" unfolding assms(3) by (rule manager_ok_steps [OF assms(1)])
  then have g: "graph_ok (mgr_dependencies s)" by (simp add: manager_ok_def)
  have "ar_exists (ae_registry env) (mgr_registry s) p" if "p \<in> graph_parents (mgr_dependencies s) i" for p
    using that ok g registry_exists [OF assms(1)] by (auto simp: manager_ok_def graph_ok_def)
  then have "filter (\<lambda>p. \<not> ar_exists (ae_registry env) (mgr_registry s) p)
      (set_iter (ae_iter env) (graph_parents (mgr_dependencies s) i)) = []"
    using set_set_iter_subset by (fastforce simp: filter_empty_conv)
  then have "mgr_find env s i \<noteq> None \<longrightarrow> missing_parents env i s = (Inr [], s)"
    by (auto simp: missing_parents_def py_bind_split)
  moreover have "Field (graph_edges (mgr_dependencies s)) \<subseteq> {j. mgr_find env s j \<noteq> None}"
    using ok by (auto simp: manager_ok_def graph_edges_def Field_def)
  moreover have "Field (graph_edges (mgr_dependencies s)) \<subseteq> all_artifacts (mgr_dependencies s)"
    using graph_edges_field [OF g] by (auto simp: graph_edges_def Field_def)
  moreover obtain ns where "graph_order (ae_iter env) (mgr_dependencies s) = Inr ns" "distinct ns"
    "set ns = all_artifacts (mgr_dependencies s)" "parents_first (graph_edges (mgr_dependencies s)) ns" using graph_order_correct [OF g] by blast
  ultimately show ?thesis using g by (auto simp: pipeline_order_def py_bind_split graph_ok_def)
qed

text \<open>Deleting a registered artifact marks it deleted but keeps it registered, and takes exactly
  its own edges out of the dependency graph; an unknown id raises and changes nothing.\<close>

theorem delete_artifact_outcome:
  assumes "registry_serves (ae_registry env)" and "graph_ok (mgr_dependencies s)"
  shows "case mgr_find env s i of
      None \<Rightarrow> delete_artifact env i s = (Inl (Exn ArtifactNotFoundError (''Artifact '' @ quoted i @ '' not found'')), s)
    | Some a \<Rightarrow>
        (\<exists>a'. mgr_find env (snd (delete_artifact env i s)) = (mgr_find env s)(i := Some a') \<and> art_status a' = ART_DELETED) \<and>
        graph_edges (mgr_dependencies (snd (delete_artifact env i s))) =
          {(x, y) \<in> graph_edges (mgr_dependencies s). x \<noteq> i \<and> y \<noteq> i}"
proof (cases "mgr_find env s i")
  case None
  then show ?thesis by (simp add: delete_artifact_def py_bind_split)
next
  case (Some a)
  let ?a = "a\<lparr>art_status := ART_DELETED, art_updated_at := ae_now env (mgr_ticks s)\<rparr>"
  note effect = delete_artifact_effect [OF assms(1) Some]
  have "\<exists>a'. mgr_find env (snd (delete_artifact env i s)) = (mgr_find env s)(i := Some a') \<and> art_status a' = ART_DELETED"
    by (intro exI [of _ ?a] conjI effect [THEN conjunct2]) simp
  moreover have "graph_edges (mgr_dependencies (snd (delete_artifact env i s))) =
      {(x, y) \<in> graph_edges (mgr_dependencies s). x \<noteq> i \<and> y \<noteq> i}"
    unfolding effect [THEN conjunct1] by (rule graph_edges_remove [OF assms(2)])
  ultimately show ?thesis unfolding Some option.case by (rule conjI)
qed

text \<open>A new artifact is created exactly if its id is free; afterwards it is found as registered, and
  it becomes available by the first validation with its own checksum and no other.\<close>

theorem create_then_validate:
  assumes "registry_serves (ae_registry env)" and "\<forall>e b. fst (ae_emit env e b) = Inr ()"
    and "ca_artifact_id c \<noteq> []" and "ca_workspace_id c \<noteq> []"
  shows "(fst (create_artifact env c s) \<noteq> Inl (Exn ArtifactAlreadyExistsError (''Artifact '' @ quoted (ca_artifact_id c) @ '' already exists''))
      \<longleftrightarrow> mgr_find env s (ca_artifact_id c) = None) \<and>
    (mgr_find env s (ca_artifact_id c) = None \<longrightarrow>
      (\<exists>a s1 a'. create_artifact env c s = (Inr a, s1) \<and> mgr_find env s1 (ca_artifact_id c) = Some a \<and>
        art_status a = ART_REGISTERED \<and>
        mgr_find env (snd (validate_artifact env (ca_artifact_id c) expected s1)) (ca_artifact_id c) = Some a' \<and>
        (art_status a' = ART_AVAILABLE \<longleftrightarrow> expected = ca_checksum c)))"
proof (cases "mgr_find env s (ca_artifact_id c)")
  case (Some b)
  then show ?thesis using registry_exists [OF assms(1)] by (simp add: create_artifact_def py_bind_split)
next
  case None
  let ?i = "ca_artifact_id c"
  let ?a = "new_artifact c (ae_now env (mgr_ticks s)) (ae_now env (Suc (mgr_ticks s)))"
  have id': "art_id ?a = ?i" "art_status ?a = ART_REGISTERED" "art_checksum ?a = ca_checksum c" "artifact_post_init ?a = Inr ?a"
    using assms(3,4) by (simp_all add: new_artifact_def artifact_post_init_def)
  obtain r' where r': "ar_register (ae_registry env) ?a (mgr_registry s) = (Inr (), r')"
    "ar_find (ae_registry env) r' = (mgr_find env s)(?i := Some ?a)"
    using registry_new [OF assms(1), of "mgr_registry s" ?a] None id' by auto
  have taken: "\<not> ar_exists (ae_registry env) (mgr_registry s) ?i" using registry_exists [OF assms(1)] None by blast
  have "\<exists>s1. create_artifact env c s = (Inr ?a, s1) \<and> mgr_registry s1 = r'"
    using taken r'(1) id'(4) assms(2) by (simp add: create_artifact_def py_bind_split)
  then obtain s1 where s1: "create_artifact env c s = (Inr ?a, s1)" "mgr_find env s1 ?i = Some ?a" using r'(2) by auto
  obtain a' where "mgr_find env (snd (validate_artifact env ?i expected s1)) = (mgr_find env s1)(?i := Some a')"
    "art_status a' = (if art_checksum ?a = expected \<and> art_status ?a = ART_REGISTERED then ART_AVAILABLE else art_status ?a)"
    using validate_artifact_state [OF assms(1) s1(2), of expected] by blast
  then show ?thesis using s1 None id' by auto
qed

section \<open>Witnesses\<close>

text \<open>A registry that keeps the artifacts in a list and hands out its own objects.\<close>

definition list_registry :: "artifact list artifact_registry" where
  "list_registry =
     \<lparr>ar_register = (\<lambda>a. py_modify (\<lambda>r. r @ [a])),
      ar_find = (\<lambda>r i. find (\<lambda>a. art_id a = i) r),
      ar_exists = (\<lambda>r i. find (\<lambda>a. art_id a = i) r \<noteq> None),
      ar_find_by_type = (\<lambda>r t. filter (\<lambda>a. artifact_type_value (art_type a) = t) r),
      ar_mutated = (\<lambda>a r. map (\<lambda>x. if art_id x = art_id a then a else x) r)\<rparr>"

lemma find_snoc: "find P (xs @ [x]) = (case find P xs of None \<Rightarrow> (if P x then Some x else None) | Some y \<Rightarrow> Some y)"
  by (induction xs) simp_all

lemma find_artifact_map_other:
  "j \<noteq> art_id a \<Longrightarrow> find (\<lambda>x. art_id x = j) (map (\<lambda>x. if art_id x = art_id a then a else x) r) = find (\<lambda>x. art_id x = j) r"
  by (induction r) auto

lemma find_map_this:
  "find (\<lambda>x. art_id x = art_id a) r \<noteq> None \<Longrightarrow>
    find (\<lambda>x. art_id x = art_id a) (map (\<lambda>x. if art_id x = art_id a then a else x) r) = Some a"
  by (induction r) auto

lemma find_artifact_replace_same:
  "find (\<lambda>x. art_id x = art_id a) r \<noteq> None \<Longrightarrow>
    (\<lambda>j. find (\<lambda>x. art_id x = j) (map (\<lambda>x. if art_id x = art_id a then a else x) r)) =
      (\<lambda>j. find (\<lambda>x. art_id x = j) r)(art_id a := Some a)"
  using find_map_this find_artifact_map_other by (auto simp: fun_eq_iff)

lemma find_holds: "find P r = Some a \<Longrightarrow> P a"
  by (induction r) (auto split: if_splits)

lemma list_registry_serves: "registry_serves list_registry"
proof -
  have sel: "ar_exists list_registry r i = (ar_find list_registry r i \<noteq> None)"
    "ar_find list_registry r = (\<lambda>i. find (\<lambda>a. art_id a = i) r)"
    "ar_register list_registry a r = (Inr (), r @ [a])"
    "ar_mutated list_registry a r = map (\<lambda>x. if art_id x = art_id a then a else x) r" for r i a
    by (simp_all add: list_registry_def)
  have "(\<lambda>j. find (\<lambda>a. art_id a = j) (r @ [b])) = (\<lambda>j. find (\<lambda>a. art_id a = j) r)(art_id b := Some b)"
    if "find (\<lambda>a. art_id a = art_id b) r = None" for r :: "artifact list" and b
    using that by (auto simp: find_snoc fun_eq_iff split: option.splits)
  then have new: "ar_find list_registry r (art_id a) = None \<Longrightarrow>
      \<exists>r'. ar_register list_registry a r = (Inr (), r') \<and> ar_find list_registry r' = (ar_find list_registry r)(art_id a := Some a)" for r a
    unfolding sel by blast
  have mut: "ar_find list_registry r (art_id a) \<noteq> None \<Longrightarrow>
      ar_find list_registry (ar_mutated list_registry a r) = (ar_find list_registry r)(art_id a := Some a)" for r a
    unfolding sel by (rule find_artifact_replace_same)
  have found: "ar_find list_registry r i = Some a \<Longrightarrow> art_id a = i" for r i a
    unfolding sel by (rule find_holds)
  show ?thesis
    unfolding registry_serves_def by (intro allI conjI impI sel(1) found new mut)
qed

definition sample_env :: "(artifact list, artifact_event list) artifact_env" where
  "sample_env = \<lparr>ae_registry = list_registry, ae_emit = (\<lambda>e. py_modify (\<lambda>l. l @ [e])), ae_now = int, ae_iter = sample_iter\<rparr>"

definition sample_args :: "string \<Rightarrow> create_args" where
  "sample_args i = \<lparr>ca_artifact_id = i, ca_workspace_id = ''ws'', ca_artifact_type = OCR_TEXT, ca_checksum = ''c0'',
     ca_investigation_id = [], ca_subtype = [], ca_producer_module = ''ocr'', ca_producer_version = [],
     ca_media_type = [], ca_storage_uri = [], ca_tags = []\<rparr>"

definition sample_manager :: "(artifact list, artifact_event list) artifact_manager" where
  "sample_manager = \<lparr>mgr_registry = [sample_artifact], mgr_dependencies = new_graph, mgr_sink = [], mgr_ticks = 0\<rparr>"

lemma sample_env_serves: "registry_serves (ae_registry sample_env)"
  using list_registry_serves by (simp add: sample_env_def)

lemma sample_manager_find: "mgr_find sample_env sample_manager i = (if i = ''a1'' then Some sample_artifact else None)"
  by (simp add: sample_env_def sample_manager_def list_registry_def sample_artifact_def)

theorem manager_dependencies_sound_witness:
  "acyclic (graph_edges (mgr_dependencies (fold (manager_step sample_env)
    [Create (sample_args ''scan''), Depend ''a1'' ''scan'' ''produced_by'', Depend ''scan'' ''a1'' ''produced_by'', Delete ''a1'']
    sample_manager)))"
proof -
  have "mgr_dependencies sample_manager = new_graph" by (simp add: sample_manager_def)
  from manager_dependencies_sound [OF sample_env_serves this refl] show ?thesis by blast
qed

theorem delete_artifact_outcome_witness:
  "\<exists>a'. mgr_find sample_env (snd (delete_artifact sample_env ''a1'' sample_manager)) =
      (mgr_find sample_env sample_manager)(''a1'' := Some a') \<and> art_status a' = ART_DELETED"
proof -
  have "graph_ok (mgr_dependencies sample_manager)" by (simp add: sample_manager_def)
  from delete_artifact_outcome [OF sample_env_serves this, of "''a1''"] show ?thesis
    by (simp add: sample_manager_find del: fun_upd_apply)
qed

theorem create_then_validate_witness:
  "\<exists>a s1 a'. create_artifact sample_env (sample_args ''scan'') sample_manager = (Inr a, s1) \<and>
    mgr_find sample_env (snd (validate_artifact sample_env ''scan'' ''c0'' s1)) ''scan'' = Some a' \<and>
    art_status a' = ART_AVAILABLE"
proof -
  have "\<forall>e b. fst (ae_emit sample_env e b) = Inr ()" by (simp add: sample_env_def)
  moreover have "ca_artifact_id (sample_args ''scan'') = ''scan''" "ca_workspace_id (sample_args ''scan'') \<noteq> []"
    "ca_checksum (sample_args ''scan'') = ''c0''" by (simp_all add: sample_args_def)
  moreover have "mgr_find sample_env sample_manager ''scan'' = None" by (simp add: sample_manager_find)
  ultimately show ?thesis
    using create_then_validate [OF sample_env_serves, of "sample_args ''scan''" sample_manager "''c0''"] by (simp) blast
qed

end
