(* ===== verification/Core_Kernel.thy ===== *)
theory Core_Kernel
  imports Registry
begin

text \<open>
  \<open>core/\<close>: modules, the module registry, the service locator, the kernel and its bootstrap. A
  module of the \<open>Module\<close> protocol is a record of its attributes, its own state and its methods,
  which may mutate that state and may raise; \<open>base_module\<close> is \<open>BaseModule\<close>. The kernel's
  capability table refers to modules by their id, the key they are registered under.
\<close>

section \<open>Health, life cycle, capabilities\<close>

datatype health_status = HEALTHY | DEGRADED | UNAVAILABLE | UNKNOWN

datatype lifecycle_state =
    LC_CREATED | LC_LOADED | LC_INITIALIZED | LC_STARTED | LC_PAUSED | LC_STOPPING | LC_STOPPED | LC_FAILED | LC_UNKNOWN

definition lifecycle_is_terminal :: "lifecycle_state \<Rightarrow> bool" where
  "lifecycle_is_terminal s = (s \<in> {LC_STOPPED, LC_FAILED})"

record health =
  he_module :: string
  he_status :: health_status
  he_timestamp :: int

definition is_healthy :: "health \<Rightarrow> bool" where
  "is_healthy h = (he_status h = HEALTHY)"

datatype capability =
    KC_OCR | KC_PARSER | KC_EMBEDDING | KC_VECTOR_STORE | KC_RETRIEVER | KC_KNOWLEDGE_GRAPH | KC_TIMELINE
  | KC_CONTRADICTION_DETECTION | KC_AI_PROVIDER | KC_PLUGIN

fun capability_value :: "capability \<Rightarrow> string" where
  "capability_value KC_OCR = ''ocr''"
| "capability_value KC_PARSER = ''parser''"
| "capability_value KC_EMBEDDING = ''embedding''"
| "capability_value KC_VECTOR_STORE = ''vector_store''"
| "capability_value KC_RETRIEVER = ''retriever''"
| "capability_value KC_KNOWLEDGE_GRAPH = ''knowledge_graph''"
| "capability_value KC_TIMELINE = ''timeline''"
| "capability_value KC_CONTRADICTION_DETECTION = ''contradiction_detection''"
| "capability_value KC_AI_PROVIDER = ''ai_provider''"
| "capability_value KC_PLUGIN = ''plugin''"

section \<open>Modules\<close>

text \<open>
  \<open>ModuleMetadata\<close>; its dictionary \<open>extra\<close> may hold the entry \<open>capabilities\<close>, the only one the code
  reads or writes.
\<close>

record module_metadata =
  mm_name :: string
  mm_author :: string
  mm_version :: string
  mm_license :: string
  mm_website :: string
  mm_description :: string
  mm_supported_platforms :: "string list"
  mm_experimental :: bool
  mm_extra :: "(string, capability list) dict"

definition has_capability :: "module_metadata \<Rightarrow> capability \<Rightarrow> bool" where
  "has_capability md c = (c \<in> set (case dict_get (mm_extra md) ''capabilities'' of None \<Rightarrow> [] | Some cs \<Rightarrow> cs))"

record 'm kmodule =
  km_id :: string
  km_name :: string
  km_version :: string
  km_description :: string
  km_dependencies :: "string list"
  km_capabilities :: "capability list"
  km_metadata :: module_metadata
  km_state :: 'm
  km_initialize :: "('m, unit) py"
  km_start :: "('m, unit) py"
  km_stop :: "('m, unit) py"
  km_health :: "'m \<Rightarrow> exn + health_status"

definition base_health :: "lifecycle_state \<Rightarrow> health_status" where
  "base_health s = (if s \<in> {LC_INITIALIZED, LC_STARTED} then HEALTHY else UNKNOWN)"

definition base_module ::
    "string \<Rightarrow> string \<Rightarrow> string \<Rightarrow> string \<Rightarrow> string list \<Rightarrow> capability list \<Rightarrow> lifecycle_state kmodule" where
  "base_module i name version description dependencies cs =
     \<lparr>km_id = i, km_name = name, km_version = version, km_description = description, km_dependencies = dependencies,
      km_capabilities = cs,
      km_metadata = \<lparr>mm_name = name, mm_author = ''Unknown'', mm_version = version, mm_license = ''Apache-2.0'',
        mm_website = [], mm_description = description, mm_supported_platforms = [], mm_experimental = False,
        mm_extra = [(''capabilities'', cs)]\<rparr>,
      km_state = LC_CREATED,
      km_initialize = py_modify (\<lambda>_. LC_INITIALIZED), km_start = py_modify (\<lambda>_. LC_STARTED),
      km_stop = py_modify (\<lambda>_. LC_STOPPED), km_health = (\<lambda>s. Inr (base_health s))\<rparr>"

section \<open>The module registry\<close>

type_synonym 'm kmodules = "(string, 'm kmodule) dict"

definition not_registered :: "string \<Rightarrow> exn" where
  "not_registered i = Exn ModuleNotFoundError (''Module '' @ quoted i @ '' is not registered.'')"

definition modules_register :: "'m kmodule \<Rightarrow> ('m kmodules, unit) py" where
  "modules_register m =
     py_bind (py_read (\<lambda>r. dict_has r (km_id m))) (\<lambda>taken.
     if taken then py_raise DuplicateModuleError (''Module '' @ quoted (km_id m) @ '' is already registered.'')
     else py_modify (dict_set (km_id m) m))"

definition modules_unregister :: "string \<Rightarrow> ('m kmodules, unit) py" where
  "modules_unregister i =
     py_bind (py_read (\<lambda>r. dict_has r i)) (\<lambda>known.
     if \<not> known then py_lift (Inl (not_registered i)) else py_modify (dict_pop i))"

definition modules_get :: "'m kmodules \<Rightarrow> string \<Rightarrow> exn + 'm kmodule" where
  "modules_get r i = (case dict_get r i of None \<Rightarrow> Inl (not_registered i) | Some m \<Rightarrow> Inr m)"

definition modules_list :: "'m kmodules \<Rightarrow> 'm kmodule list" where
  "modules_list r = dict_values r"

definition modules_exists :: "'m kmodules \<Rightarrow> string \<Rightarrow> bool" where
  "modules_exists r i = dict_has r i"

section \<open>The service locator\<close>

type_synonym 'v services = "(string, 'v) dict"

definition service_register :: "string \<Rightarrow> 'v \<Rightarrow> 'v services \<Rightarrow> 'v services" where
  "service_register name v s = dict_set name v s"

definition service_get :: "'v services \<Rightarrow> string \<Rightarrow> exn + 'v" where
  "service_get s name =
     (case dict_get s name of
        None \<Rightarrow> Inl (Exn KeyError (repr_str (''Service '' @ quoted name @ '' is not registered.'')))
      | Some v \<Rightarrow> Inr v)"

definition service_has :: "'v services \<Rightarrow> string \<Rightarrow> bool" where
  "service_has s name = dict_has s name"

definition service_clear :: "'v services \<Rightarrow> 'v services" where
  "service_clear s = []"

section \<open>The kernel\<close>

record 'm kernel_state =
  kn_name :: string
  kn_registry :: "'m kmodules"
  kn_capabilities :: "(string, string) dict"

definition new_kernel :: "'m kernel_state" where
  "new_kernel = \<lparr>kn_name = ''LexMind Kernel'', kn_registry = [], kn_capabilities = []\<rparr>"

definition on_registry :: "('m kmodules, 'a) py \<Rightarrow> ('m kernel_state, 'a) py" where
  "on_registry = py_on kn_registry (\<lambda>r k. k\<lparr>kn_registry := r\<rparr>)"

definition register_module :: "'m kmodule \<Rightarrow> ('m kernel_state, unit) py" where
  "register_module m =
     py_bind (on_registry (modules_register m)) (\<lambda>_.
     py_for (km_capabilities m) (\<lambda>c. py_modify (\<lambda>k.
       k\<lparr>kn_capabilities := dict_set (capability_value c) (km_id m) (kn_capabilities k)\<rparr>)))"

definition unregister_module :: "string \<Rightarrow> ('m kernel_state, unit) py" where
  "unregister_module i =
     py_bind (py_read (\<lambda>k. modules_get (kn_registry k) i)) (\<lambda>found.
     py_bind (py_lift found) (\<lambda>m.
     py_bind (py_for (km_capabilities m) (\<lambda>c. py_modify (\<lambda>k.
       k\<lparr>kn_capabilities := dict_pop (capability_value c) (kn_capabilities k)\<rparr>))) (\<lambda>_.
     on_registry (modules_unregister i))))"

text \<open>A step of a registered module: it runs on the module's state, which stays in the registry.\<close>

definition call_module :: "('m kmodule \<Rightarrow> ('m, unit) py) \<Rightarrow> string \<Rightarrow> ('m kernel_state, unit) py" where
  "call_module step i =
     py_bind (py_read (\<lambda>k. modules_get (kn_registry k) i)) (\<lambda>found.
     py_bind (py_lift found) (\<lambda>m.
     on_registry (py_on (\<lambda>_. km_state m) (\<lambda>s r. dict_set i (m\<lparr>km_state := s\<rparr>) r) (step m))))"

definition for_modules :: "('m kmodule \<Rightarrow> ('m, unit) py) \<Rightarrow> ('m kernel_state, unit) py" where
  "for_modules step =
     py_bind (py_read (\<lambda>k. map km_id (modules_list (kn_registry k)))) (\<lambda>ids. py_for ids (call_module step))"

definition initialize_modules :: "('m kernel_state, unit) py" where
  "initialize_modules = for_modules km_initialize"

definition start_modules :: "('m kernel_state, unit) py" where
  "start_modules = for_modules km_start"

definition stop_modules :: "('m kernel_state, unit) py" where
  "stop_modules = for_modules km_stop"

fun module_statuses :: "'m kmodule list \<Rightarrow> exn + health_status list" where
  "module_statuses [] = Inr []"
| "module_statuses (m # ms) =
     (case km_health m (km_state m) of
        Inl e \<Rightarrow> Inl e
      | Inr s \<Rightarrow> (case module_statuses ms of Inl e \<Rightarrow> Inl e | Inr ss \<Rightarrow> Inr (s # ss)))"

definition kernel_health :: "'m kernel_state \<Rightarrow> exn + health_status" where
  "kernel_health k =
     (if modules_list (kn_registry k) = [] then Inr UNKNOWN
      else case module_statuses (modules_list (kn_registry k)) of
        Inl e \<Rightarrow> Inl e
      | Inr ss \<Rightarrow>
          Inr (if set ss = {HEALTHY} then HEALTHY else if UNAVAILABLE \<in> set ss then UNAVAILABLE else DEGRADED))"

definition health_report :: "int \<Rightarrow> 'm kernel_state \<Rightarrow> exn + health" where
  "health_report now k =
     (case kernel_health k of Inl e \<Rightarrow> Inl e
      | Inr s \<Rightarrow> Inr \<lparr>he_module = kn_name k, he_status = s, he_timestamp = now\<rparr>)"

definition kernel_contains :: "'m kernel_state \<Rightarrow> string \<Rightarrow> bool" where
  "kernel_contains k i = modules_exists (kn_registry k) i"

definition kernel_len :: "'m kernel_state \<Rightarrow> nat" where
  "kernel_len k = length (modules_list (kn_registry k))"

definition bootstrap :: "'m kmodule list \<Rightarrow> (exn + unit) \<times> 'm kernel_state" where
  "bootstrap ms =
     py_bind (py_for ms register_module) (\<lambda>_. py_bind initialize_modules (\<lambda>_. start_modules)) new_kernel"

definition shutdown :: "('m kernel_state, unit) py" where
  "shutdown = stop_modules"

section \<open>The registry keeps its contract\<close>

definition modules_ok :: "'m kmodules \<Rightarrow> bool" where
  "modules_ok r = registry_wf km_id r"

definition modules_remove :: "string \<Rightarrow> 'm kmodules \<Rightarrow> 'm kmodules" where
  "modules_remove i r = snd (modules_unregister i r)"

lemma modules_remove_pop: "modules_remove i r = dict_pop i r"
proof (cases "dict_get r i")
  case None
  then have "dict_pop i r = r" by (simp add: map_of_eq_None_iff AList.delete_idem)
  then show ?thesis using None by (simp add: modules_remove_def modules_unregister_def py_bind_split dict_has_def)
next
  case (Some m)
  then show ?thesis by (simp add: modules_remove_def modules_unregister_def py_bind_split dict_has_def)
qed

interpretation module_registry: keyed_registry km_id modules_register modules_remove dict_get modules_list modules_ok
proof
  fix r :: "'m kmodules" and v w :: "'m kmodule" and k
  assume ok: "modules_ok r"
  show "\<exists>r'. modules_register v r = (Inr (), r') \<and> modules_ok r' \<and> modules_list r' = modules_list r @ [v] \<and>
      dict_get r' = (dict_get r)(km_id v := Some v)" if "dict_get r (km_id v) = None"
    using ok that registry_wf_set [of km_id r v]
    by (auto simp: modules_register_def py_bind_split dict_has_def modules_ok_def modules_list_def dict_set_fresh
        fun_eq_iff map_add_def split: option.splits)
  show "isl (fst (modules_register v r)) \<and> snd (modules_register v r) = r" if "dict_get r (km_id v) = Some w"
    using that by (simp add: modules_register_def py_bind_split dict_has_def)
  show "modules_ok (modules_remove k r)"
    using ok registry_wf_pop by (auto simp: modules_ok_def modules_remove_pop)
  show "modules_list (modules_remove k r) = filter (\<lambda>v. km_id v \<noteq> k) (modules_list r)"
    using ok registry_wf_values_pop by (auto simp: modules_ok_def modules_list_def modules_remove_pop)
  show "dict_get r k = Some v \<longleftrightarrow> v \<in> set (modules_list r) \<and> km_id v = k"
    using ok unfolding modules_ok_def modules_list_def by (rule registry_wf_get)
qed

section \<open>Running a step of every module\<close>

definition after :: "('m kmodule \<Rightarrow> ('m, unit) py) \<Rightarrow> 'm kmodule \<Rightarrow> 'm kmodule" where
  "after step m = m\<lparr>km_state := snd (step m (km_state m))\<rparr>"

definition returns :: "('m kmodule \<Rightarrow> ('m, unit) py) \<Rightarrow> 'm kmodule \<Rightarrow> bool" where
  "returns step m = (fst (step m (km_state m)) = Inr ())"

lemma dict_set_middle: "k \<notin> set (dict_keys xs) \<Longrightarrow> dict_set k v (xs @ (k, w) # ys) = xs @ (k, v) # ys"
  by (induction xs) auto

lemma dict_get_middle: "k \<notin> set (dict_keys xs) \<Longrightarrow> dict_get (xs @ (k, w) # ys) k = Some w"
  by (induction xs) auto

lemma call_module_middle:
  assumes "kn_registry k = xs @ (i, m) # ys" and "i \<notin> set (dict_keys xs)"
  shows "call_module step i k = (fst (step m (km_state m)), k\<lparr>kn_registry := xs @ (i, after step m) # ys\<rparr>)"
  using dict_get_middle [OF assms(2), of m ys] dict_set_middle [OF assms(2), of "after step m" m ys] assms(1)
  by (simp add: call_module_def py_bind_split modules_get_def on_registry_def after_def)

lemma for_modules_loop:
  assumes "distinct (map fst (xs @ ys))" and "\<forall>(i, m) \<in> set ys. returns step m" and "kn_registry k = xs @ ys @ zs"
  shows "py_for (map fst ys @ is) (call_module step) k =
    py_for is (call_module step) (k\<lparr>kn_registry := xs @ map (\<lambda>(i, m). (i, after step m)) ys @ zs\<rparr>)"
  using assms
proof (induction ys arbitrary: xs k)
  case Nil
  then have "k\<lparr>kn_registry := xs @ zs\<rparr> = k" by (cases k) simp
  then show ?case by simp
next
  case (Cons y ys)
  obtain i m where y: "y = (i, m)" by (cases y)
  let ?k = "k\<lparr>kn_registry := xs @ (i, after step m) # ys @ zs\<rparr>"
  have "call_module step i k = (Inr (), ?k)"
    using call_module_middle [of k xs i m "ys @ zs" step] Cons.prems y by (auto simp: returns_def)
  moreover have "py_for (map fst ys @ is) (call_module step) ?k =
      py_for is (call_module step) (?k\<lparr>kn_registry := (xs @ [(i, after step m)]) @ map (\<lambda>(i, m). (i, after step m)) ys @ zs\<rparr>)"
    by (rule Cons.IH) (use Cons.prems y in auto)
  ultimately show ?case using y by simp
qed

lemma modules_keys: "modules_ok r \<Longrightarrow> map km_id (modules_list r) = map fst r \<and> distinct (map fst r)"
  using registry_wf_keys [of km_id r] by (simp add: modules_ok_def modules_list_def registry_wf_def dict_wf_def)

lemma for_modules_return:
  assumes "modules_ok (kn_registry k)" and "\<forall>m \<in> set (modules_list (kn_registry k)). returns step m"
  shows "for_modules step k = (Inr (), k\<lparr>kn_registry := map (\<lambda>(i, m). (i, after step m)) (kn_registry k)\<rparr>)"
proof -
  have "\<forall>(i, m) \<in> set (kn_registry k). returns step m" using assms(2) by (force simp: modules_list_def)
  then have "py_for (map fst (kn_registry k) @ []) (call_module step) k =
      py_for [] (call_module step) (k\<lparr>kn_registry := [] @ map (\<lambda>(i, m). (i, after step m)) (kn_registry k) @ []\<rparr>)"
    by (intro for_modules_loop) (use modules_keys [OF assms(1)] in simp_all)
  then show ?thesis using modules_keys [OF assms(1)] by (simp add: for_modules_def py_bind_split)
qed

lemma after_id [simp]: "km_id (after step m) = km_id m"
  by (simp add: after_def)

lemma modules_ok_after: "modules_ok r \<Longrightarrow> modules_ok (map (\<lambda>(i, m). (i, after step m)) r)"
  by (auto simp: modules_ok_def registry_wf_def dict_wf_def comp_def split_def)

lemma modules_list_after: "modules_list (map (\<lambda>(i, m). (i, after step m)) r) = map (after step) (modules_list r)"
  by (simp add: modules_list_def comp_def split_def)

section \<open>Registering modules\<close>

lemma capabilities_loop:
  "\<exists>caps. py_for cs (\<lambda>c. py_modify (\<lambda>k. k\<lparr>kn_capabilities := f c (kn_capabilities k)\<rparr>)) k
      = (Inr (), k\<lparr>kn_capabilities := caps\<rparr>) \<and> caps = fold f cs (kn_capabilities k)"
  by (induction cs arbitrary: k) auto

lemma register_module_new:
  assumes "modules_ok (kn_registry k)" and "dict_get (kn_registry k) (km_id m) = None"
  shows "\<exists>r'. register_module m k = (Inr (), k\<lparr>kn_registry := r',
      kn_capabilities := fold (\<lambda>c. dict_set (capability_value c) (km_id m)) (km_capabilities m) (kn_capabilities k)\<rparr>) \<and>
    modules_ok r' \<and> modules_list r' = modules_list (kn_registry k) @ [m] \<and> dict_get r' = (dict_get (kn_registry k))(km_id m := Some m)"
proof -
  obtain r' where r': "modules_register m (kn_registry k) = (Inr (), r')" "modules_ok r'"
    "modules_list r' = modules_list (kn_registry k) @ [m]" "dict_get r' = (dict_get (kn_registry k))(km_id m := Some m)"
    using module_registry.register_new [OF assms] by blast
  show ?thesis
    using r' capabilities_loop [of "km_capabilities m" "\<lambda>c. dict_set (capability_value c) (km_id m)" "k\<lparr>kn_registry := r'\<rparr>"]
    by (auto simp: register_module_def py_bind_split on_registry_def)
qed

lemma register_modules:
  assumes "modules_ok (kn_registry k)" and "distinct (map km_id ms)" and "\<forall>m \<in> set ms. dict_get (kn_registry k) (km_id m) = None"
  shows "\<exists>k'. py_for ms register_module k = (Inr (), k') \<and> modules_ok (kn_registry k') \<and>
    modules_list (kn_registry k') = modules_list (kn_registry k) @ ms"
  using assms
proof (induction ms arbitrary: k)
  case Nil
  then show ?case by simp
next
  case (Cons m ms)
  obtain r' where r': "register_module m k = (Inr (), k\<lparr>kn_registry := r',
      kn_capabilities := fold (\<lambda>c. dict_set (capability_value c) (km_id m)) (km_capabilities m) (kn_capabilities k)\<rparr>)"
    "modules_ok r'" "modules_list r' = modules_list (kn_registry k) @ [m]"
    "dict_get r' = (dict_get (kn_registry k))(km_id m := Some m)"
    using register_module_new [of k m] Cons.prems by auto
  let ?k = "k\<lparr>kn_registry := r',
    kn_capabilities := fold (\<lambda>c. dict_set (capability_value c) (km_id m)) (km_capabilities m) (kn_capabilities k)\<rparr>"
  have "\<exists>k'. py_for ms register_module ?k = (Inr (), k') \<and> modules_ok (kn_registry k') \<and>
      modules_list (kn_registry k') = modules_list (kn_registry ?k) @ ms"
    by (rule Cons.IH) (use Cons.prems r' in \<open>auto simp: image_iff\<close>)
  then show ?case using r' by auto
qed

section \<open>Properties\<close>

text \<open>Bootstrapping modules with distinct ids whose methods return registers all of them in order
  and then initialises and starts each of them once, every initialisation before any start. A
  duplicate id ends the bootstrap before any module is initialised.\<close>

theorem bootstrap_starts_all:
  assumes "distinct (map km_id ms)"
    and "\<forall>m \<in> set ms. returns km_initialize m \<and> returns km_start (after km_initialize m)"
  shows "(\<exists>k. bootstrap ms = (Inr (), k) \<and> modules_ok (kn_registry k) \<and>
      modules_list (kn_registry k) = map (after km_start \<circ> after km_initialize) ms) \<and>
    (m \<in> set ms \<longrightarrow> isl (fst (bootstrap (ms @ [m]))) \<and> modules_list (kn_registry (snd (bootstrap (ms @ [m])))) = ms)"
proof -
  have start: "modules_ok (kn_registry (new_kernel :: 'a kernel_state))" "modules_list (kn_registry (new_kernel :: 'a kernel_state)) = []"
    "\<forall>m \<in> set ms. dict_get (kn_registry new_kernel) (km_id m) = None"
    by (simp_all add: new_kernel_def modules_ok_def modules_list_def)
  obtain k where k: "py_for ms register_module new_kernel = (Inr (), k)" "modules_ok (kn_registry k)"
    "modules_list (kn_registry k) = ms"
    using register_modules [OF start(1) assms(1) start(3)] start(2) by auto
  let ?r1 = "map (\<lambda>(i, m). (i, after km_initialize m)) (kn_registry k)"
  let ?r2 = "map (\<lambda>(i, m). (i, after km_start m)) ?r1"
  have "initialize_modules k = (Inr (), k\<lparr>kn_registry := ?r1\<rparr>)"
    unfolding initialize_modules_def using assms(2) k(3) by (intro for_modules_return [OF k(2)]) simp
  moreover have "start_modules (k\<lparr>kn_registry := ?r1\<rparr>) = (Inr (), k\<lparr>kn_registry := ?r1\<rparr>\<lparr>kn_registry := ?r2\<rparr>)"
  proof -
    have "modules_ok ?r1" using modules_ok_after [OF k(2)] .
    moreover have "\<forall>m \<in> set (modules_list ?r1). returns km_start m" using assms(2) k(3) by (simp add: modules_list_after)
    ultimately show ?thesis
      unfolding start_modules_def using for_modules_return [of "k\<lparr>kn_registry := ?r1\<rparr>" km_start] by simp
  qed
  ultimately have "bootstrap ms = (Inr (), k\<lparr>kn_registry := ?r2\<rparr>)" using k(1) by (simp add: bootstrap_def)
  moreover have "modules_ok ?r2" using modules_ok_after [OF modules_ok_after [OF k(2)]] .
  moreover have "modules_list ?r2 = map (after km_start \<circ> after km_initialize) ms"
    unfolding modules_list_after k(3) by simp
  moreover have "isl (fst (bootstrap (ms @ [m]))) \<and> modules_list (kn_registry (snd (bootstrap (ms @ [m])))) = ms" if m: "m \<in> set ms"
  proof -
    have "dict_get (kn_registry k) (km_id m) = Some m" using module_registry.lookup_items [OF k(2)] k(3) m by blast
    from module_registry.register_taken [OF k(2) this]
    obtain e where "modules_register m (kn_registry k) = (Inl e, kn_registry k)" by (metis isl_def prod.collapse)
    then have "register_module m k = (Inl e, k)" by (cases k) (simp add: register_module_def on_registry_def py_bind_split)
    moreover have "py_for (xs @ ys) f s = py_bind (py_for xs f) (\<lambda>_. py_for ys f) s"
      for xs ys :: "'a kmodule list" and f and s :: "'a kernel_state"
      by (induction xs arbitrary: s) (simp_all add: py_bind_split split: sum.splits)
    ultimately have "py_for (ms @ [m]) register_module new_kernel = (Inl e, k)" using k(1) by simp
    then show ?thesis using k(3) by (simp add: bootstrap_def)
  qed
  ultimately show ?thesis by simp
qed

text \<open>The kernel's health: unknown without modules, healthy exactly if all modules are, unavailable
  if any of them is, and degraded otherwise.\<close>

theorem kernel_health_spec:
  assumes "module_statuses (modules_list (kn_registry k)) = Inr ss"
  shows "\<exists>h. kernel_health k = Inr h \<and> (h = UNKNOWN \<longleftrightarrow> kernel_len k = 0) \<and>
    (h = HEALTHY \<longleftrightarrow> ss \<noteq> [] \<and> (\<forall>s \<in> set ss. s = HEALTHY)) \<and> (h = UNAVAILABLE \<longleftrightarrow> UNAVAILABLE \<in> set ss)"
proof -
  have len: "module_statuses ms = Inr ts \<Longrightarrow> length ts = length ms" for ms :: "'a kmodule list" and ts
    by (induction ms arbitrary: ts) (auto split: sum.splits)
  have "ss = [] \<longleftrightarrow> modules_list (kn_registry k) = []" using len [OF assms] by auto
  moreover have "set ss = {HEALTHY} \<longleftrightarrow> ss \<noteq> [] \<and> (\<forall>s \<in> set ss. s = HEALTHY)" by (cases ss) auto
  ultimately show ?thesis using assms by (auto simp: kernel_health_def kernel_len_def)
qed

text \<open>Unregistering a module withdraws its capabilities from the kernel also when another module,
  still registered, provides them and had taken them over.\<close>

theorem unregister_drops_shared_capability:
  assumes "km_id a \<noteq> km_id b" and "c \<in> set (km_capabilities a)" and "c \<in> set (km_capabilities b)"
    and "py_for [a, b] register_module new_kernel = (Inr (), k)"
  shows "dict_get (kn_capabilities k) (capability_value c) = Some (km_id b) \<and>
    (\<exists>k'. unregister_module (km_id a) k = (Inr (), k') \<and> modules_list (kn_registry k') = [b] \<and>
      dict_get (kn_capabilities k') (capability_value c) = None)"
proof -
  have sets: "dict_get (fold (\<lambda>c. dict_set (capability_value c) v) cs d) (capability_value c) =
      (if capability_value c \<in> capability_value ` set cs then Some v else dict_get d (capability_value c))" for cs v d
    by (induction cs arbitrary: d) auto
  have pops: "dict_get (fold (\<lambda>c. dict_pop (capability_value c)) cs d) (capability_value c) =
      (if capability_value c \<in> capability_value ` set cs then None else dict_get d (capability_value c))" for cs and d :: "(string, string) dict"
    by (induction cs arbitrary: d) auto
  have start: "modules_ok (kn_registry (new_kernel :: 'a kernel_state))" "kn_registry (new_kernel :: 'a kernel_state) = []"
    by (simp_all add: new_kernel_def modules_ok_def)
  obtain r1 caps1 where r1: "register_module a new_kernel = (Inr (), new_kernel\<lparr>kn_registry := r1, kn_capabilities := caps1\<rparr>)"
    "modules_ok r1" "modules_list r1 = [a]" "dict_get r1 = [km_id a \<mapsto> a]"
    using register_module_new [of new_kernel a] start by (auto simp: modules_list_def)
  let ?k1 = "new_kernel\<lparr>kn_registry := r1, kn_capabilities := caps1\<rparr>"
  obtain r2 where r2: "register_module b ?k1 = (Inr (), ?k1\<lparr>kn_registry := r2,
      kn_capabilities := fold (\<lambda>c. dict_set (capability_value c) (km_id b)) (km_capabilities b) caps1\<rparr>)"
    "modules_ok r2" "modules_list r2 = [a, b]" "dict_get r2 = (dict_get r1)(km_id b := Some b)"
    using register_module_new [of ?k1 b] r1 assms(1) by auto
  have k: "kn_registry k = r2" "kn_capabilities k = fold (\<lambda>c. dict_set (capability_value c) (km_id b)) (km_capabilities b) caps1"
    using assms(4) r1(1) r2(1) by auto
  have "dict_get (kn_capabilities k) (capability_value c) = Some (km_id b)" unfolding k sets using assms(3) by simp
  moreover have "modules_get (kn_registry k) (km_id a) = Inr a" using r2(4) r1(4) assms(1) by (simp add: k modules_get_def)
  moreover have "modules_unregister (km_id a) (kn_registry k) = (Inr (), dict_pop (km_id a) r2)"
    using r2(4) r1(4) assms(1) by (simp add: k modules_unregister_def dict_has_def)
  moreover have "modules_list (dict_pop (km_id a) r2) = [b]"
    using module_registry.remove_items [OF r2(2), of "km_id a"] r2(3) assms(1) by (simp add: modules_remove_pop)
  moreover obtain caps where caps: "py_for (km_capabilities a) (\<lambda>c. py_modify (\<lambda>k.
      k\<lparr>kn_capabilities := dict_pop (capability_value c) (kn_capabilities k)\<rparr>)) k = (Inr (), k\<lparr>kn_capabilities := caps\<rparr>)"
    "caps = fold (\<lambda>c. dict_pop (capability_value c)) (km_capabilities a) (kn_capabilities k)"
    using capabilities_loop [of "km_capabilities a" "\<lambda>c. dict_pop (capability_value c)" k] by blast
  moreover have "dict_get caps (capability_value c) = None" unfolding caps(2) pops using assms(2) by simp
  ultimately show ?thesis
    by (simp add: unregister_module_def py_bind_split on_registry_def)
qed

section \<open>Witnesses\<close>

definition sample_module :: "string \<Rightarrow> capability list \<Rightarrow> lifecycle_state kmodule" where
  "sample_module i cs = base_module i i ''0.1.0'' [] [] cs"

lemma base_module_advertises: "has_capability (km_metadata (base_module i n v d ds cs)) c \<longleftrightarrow> c \<in> set (km_capabilities (base_module i n v d ds cs))"
  by (simp add: base_module_def has_capability_def)

lemma sample_module_simps [simp]:
  "km_id (sample_module i cs) = i" "km_capabilities (sample_module i cs) = cs"
  "km_state (after km_start (after km_initialize (sample_module i cs))) = LC_STARTED"
  "returns km_initialize (sample_module i cs)" "returns km_start (after km_initialize (sample_module i cs))"
  by (simp_all add: sample_module_def base_module_def after_def returns_def)

theorem bootstrap_starts_all_witness:
  "\<exists>k. bootstrap [sample_module ''ocr'' [KC_OCR], sample_module ''index'' []] = (Inr (), k) \<and>
    map km_state (modules_list (kn_registry k)) = [LC_STARTED, LC_STARTED]"
proof -
  let ?ms = "[sample_module ''ocr'' [KC_OCR], sample_module ''index'' []]"
  have "distinct (map km_id ?ms)"
    "\<forall>m \<in> set ?ms. returns km_initialize m \<and> returns km_start (after km_initialize m)" by simp_all
  from bootstrap_starts_all [OF this, THEN conjunct1] obtain k where k: "bootstrap ?ms = (Inr (), k)"
    "modules_list (kn_registry k) = map (after km_start \<circ> after km_initialize) ?ms" by (elim exE conjE)
  have "map km_state (modules_list (kn_registry k)) = [LC_STARTED, LC_STARTED]"
    unfolding k(2) by simp
  with k(1) show ?thesis by (intro exI [of _ k] conjI)
qed

theorem kernel_health_spec_witness:
  "kernel_health (new_kernel :: lifecycle_state kernel_state) = Inr UNKNOWN"
proof -
  have "module_statuses (modules_list (kn_registry (new_kernel :: lifecycle_state kernel_state))) = Inr []"
    "kernel_len (new_kernel :: lifecycle_state kernel_state) = 0"
    by (simp_all add: new_kernel_def modules_list_def kernel_len_def)
  with kernel_health_spec [OF this(1)] show ?thesis by auto
qed

theorem unregister_drops_shared_capability_witness:
  "\<exists>k k'. py_for [sample_module ''a'' [KC_OCR], sample_module ''b'' [KC_OCR]] register_module new_kernel = (Inr (), k) \<and>
    unregister_module ''a'' k = (Inr (), k') \<and> dict_get (kn_capabilities k') ''ocr'' = None"
proof -
  have ok: "modules_ok (kn_registry (new_kernel :: lifecycle_state kernel_state))" by (simp add: new_kernel_def modules_ok_def)
  obtain k where k: "py_for [sample_module ''a'' [KC_OCR], sample_module ''b'' [KC_OCR]] register_module new_kernel = (Inr (), k)"
    using register_modules [OF ok, of "[sample_module ''a'' [KC_OCR], sample_module ''b'' [KC_OCR]]"]
    by (auto simp: new_kernel_def)
  have "KC_OCR \<in> set (km_capabilities (sample_module i [KC_OCR]))" for i by simp
  from unregister_drops_shared_capability [OF _ this this k] obtain k' where
    "unregister_module ''a'' k = (Inr (), k')" "dict_get (kn_capabilities k') ''ocr'' = None" by auto
  with k show ?thesis by blast
qed

end
