(* ===== verification/Plugin_Version.thy ===== *)
theory Plugin_Version
  imports Py_Text
begin

text \<open>
  \<open>parse_version\<close> and \<open>version_in_range\<close> of \<open>plugins/plugin_manager.py\<close>. Strings are code points
  below 256, among which \<open>str.isdigit\<close> also accepts the superscripts two, three and one, which
  \<open>int\<close> then refuses (the limit of 4300 digits of \<open>int\<close> is not modelled). A version is compared as a tuple, that is lexicographically.
\<close>

section \<open>Parsing\<close>

definition is_digit :: "char \<Rightarrow> bool" where
  "is_digit c = (is_decimal c \<or> (of_char c :: nat) \<in> {178, 179, 185})"

text \<open>\<open>int(num)\<close> of a non-empty text of digits.\<close>

definition int_of_digits :: "string \<Rightarrow> exn + nat" where
  "int_of_digits num =
     (if \<forall>c \<in> set num. is_decimal c then Inr (foldl (\<lambda>n c. n * 10 + digit_value c) 0 num)
      else Inl (Exn ValueError (''invalid literal for int() with base 10: '' @ repr_str num)))"

definition parse_token :: "string \<Rightarrow> exn + nat" where
  "parse_token token = (let num = takeWhile is_digit token in if num = [] then Inr 0 else int_of_digits num)"

fun parse_tokens :: "string list \<Rightarrow> exn + nat list" where
  "parse_tokens [] = Inr []"
| "parse_tokens (t # ts) =
     (case parse_token t of Inl e \<Rightarrow> Inl e
      | Inr n \<Rightarrow> (case parse_tokens ts of Inl e \<Rightarrow> Inl e | Inr ns \<Rightarrow> Inr (n # ns)))"

definition parse_version :: "string \<Rightarrow> exn + nat list" where
  "parse_version v = parse_tokens (str_split (CHR ''.'') v)"

text \<open>An absent bound is not parsed; both bounds that are there are, whatever the first says.\<close>

definition version_in_range :: "string \<Rightarrow> string option \<Rightarrow> string option \<Rightarrow> exn + bool" where
  "version_in_range version minimum maximum =
     (case parse_version version of
        Inl e \<Rightarrow> Inl e
      | Inr current \<Rightarrow>
          (case (case minimum of None \<Rightarrow> Inr False
                 | Some m \<Rightarrow> (case parse_version m of Inl e \<Rightarrow> Inl e | Inr lo \<Rightarrow> Inr (current < lo))) of
             Inl e \<Rightarrow> Inl e
           | Inr too_low \<Rightarrow>
               (case (case maximum of None \<Rightarrow> Inr False
                      | Some m \<Rightarrow> (case parse_version m of Inl e \<Rightarrow> Inl e | Inr hi \<Rightarrow> Inr (current > hi))) of
                  Inl e \<Rightarrow> Inl e
                | Inr too_high \<Rightarrow> Inr (\<not> (too_low \<or> too_high)))))"

section \<open>Printing and parsing\<close>

definition version_str :: "nat list \<Rightarrow> string" where
  "version_str ns = str_join ''.'' (map nat_str ns)"

lemma parse_token_nat_str: "parse_token (nat_str n) = Inr n"
proof -
  have tw: "takeWhile is_digit (nat_str n) = nat_str n"
    using nat_str_digits by (auto simp: takeWhile_eq_all_conv is_digit_def)
  show ?thesis
    unfolding parse_token_def tw Let_def using nat_str_digits [of n] by (simp add: int_of_digits_def)
qed

lemma parse_tokens_nat_str: "parse_tokens (map nat_str ns) = Inr ns"
  by (induction ns) (simp_all add: parse_token_nat_str)

lemma parse_version_str: "ns \<noteq> [] \<Longrightarrow> parse_version (version_str ns) = Inr ns"
proof -
  assume "ns \<noteq> []"
  moreover have "\<forall>x \<in> set (map nat_str ns). CHR ''.'' \<notin> set x"
    using nat_str_digits is_decimal_not_dot by fastforce
  ultimately have "str_split (CHR ''.'') (version_str ns) = map nat_str ns"
    unfolding version_str_def by (intro str_split_join) simp_all
  then show ?thesis by (simp add: parse_version_def parse_tokens_nat_str)
qed

section \<open>Properties\<close>

text \<open>A version printed with dots is read back as its numbers, and the bounds are inclusive and
  compared number by number; a version that only lacks trailing zeros counts as older.\<close>

theorem version_range_inclusive:
  assumes "v \<noteq> []" and "lo \<noteq> []" and "hi \<noteq> []"
  shows "parse_version (version_str v) = Inr v \<and>
    version_in_range (version_str v) (Some (version_str lo)) (Some (version_str hi)) = Inr (lo \<le> v \<and> v \<le> hi) \<and>
    version_in_range (version_str v) None None = Inr True \<and>
    version_in_range (version_str v) (Some (version_str (v @ [0]))) None = Inr False"
proof -
  have "v < v @ [0]" by (simp add: list_less_def lexord_append_rightI)
  then show ?thesis using assms by (simp add: version_in_range_def parse_version_str not_less conj_commute)
qed

text \<open>A superscript digit passes the digit test and then makes the comparison raise.\<close>

theorem version_superscript_raises:
  "version_in_range [CHR ''1'', CHR 0xB2] None None =
    Inl (Exn ValueError (''invalid literal for int() with base 10: '' @ repr_str [CHR ''1'', CHR 0xB2]))"
  by (simp add: version_in_range_def parse_version_def parse_token_def is_digit_def is_decimal_def int_of_digits_def Let_def)

section \<open>Witnesses\<close>

theorem version_range_inclusive_witness:
  "version_in_range (version_str [0, 10]) (Some (version_str [0, 9])) (Some (version_str [1])) = Inr True"
proof -
  have "[0, 9] \<le> [0, 10 :: nat]" "[0, 10] \<le> [1 :: nat]" by simp_all
  then show ?thesis using version_range_inclusive [of "[0, 10]" "[0, 9]" "[1]"] by simp
qed

end
