(* ===== verification/Plugin_Manager.thy ===== *)
theory Plugin_Manager
  imports Core_Kernel Dep_Graph Plugin_Version
begin

text \<open>
  \<open>plugins/\<close>: the plugin record (\<open>BasePlugin\<close> with its metadata and life cycle), the registry, and
  the manager with its colouring search for dependency cycles. The duck-typed accesses
  (\<open>getattr\<close>, \<open>hasattr\<close>) are those of \<open>BasePlugin\<close>, which has all the attributes.
\<close>

section \<open>Plugins\<close>

datatype plugin_capability =
    CAP_OCR | CAP_PARSER | CAP_EMBEDDING | CAP_VECTOR_STORE | CAP_RETRIEVER | CAP_RERANKER | CAP_LLM
  | CAP_KNOWLEDGE_GRAPH | CAP_TIMELINE | CAP_EXPORTER | CAP_IMPORTER | CAP_IMPORT_QUEUE | CAP_WORKER
  | CAP_TASK_EXECUTOR | CAP_IMAGE_PREPROCESSING | CAP_LAYOUT_ANALYSIS | CAP_TABLE_DETECTION
  | CAP_BARCODE_QR_DETECTION | CAP_LANGUAGE_DETECTION | CAP_OCR_QUALITY_METRICS | CAP_OCR_BENCHMARK
  | CAP_OCR_CACHE | CAP_OCR_PIPELINE | CAP_OCR_ARTIFACT_INTEGRATION | CAP_FILE_WATCH | CAP_UI | CAP_MCP
  | CAP_SECURITY | CAP_AUTHENTICATION | CAP_AUTHORIZATION | CAP_LOGGING | CAP_MONITORING

datatype plugin_state =
    PL_DISCOVERED | PL_LOADED | PL_INITIALIZED | PL_STARTED | PL_STOPPED | PL_FAILED | PL_DISABLED | PL_UNINSTALLED

record plugin_metadata =
  pm_id :: string
  pm_name :: string
  pm_version :: string
  pm_display_name :: string
  pm_author :: string
  pm_license :: string
  pm_homepage :: string
  pm_repository :: string
  pm_description :: string
  pm_capabilities :: "plugin_capability list"
  pm_dependencies :: "string list"
  pm_supported_platforms :: "string list"
  pm_minimum_kernel_version :: "string option"
  pm_maximum_kernel_version :: "string option"
  pm_experimental :: bool
  pm_enabled :: bool

record 'c plugin =
  pg_id :: string
  pg_metadata :: plugin_metadata
  pg_state :: plugin_state
  pg_context :: "'c option"

definition pg_dependencies :: "'c plugin \<Rightarrow> string list" where
  "pg_dependencies p = pm_dependencies (pg_metadata p)"

definition pg_capabilities :: "'c plugin \<Rightarrow> plugin_capability list" where
  "pg_capabilities p = pm_capabilities (pg_metadata p)"

text \<open>
  \<open>BasePlugin(...)\<close>: the metadata is copied from the constructor's arguments, the display name
  defaulting to the name.
\<close>

definition new_plugin :: "plugin_metadata \<Rightarrow> 'c plugin" where
  "new_plugin m = \<lparr>pg_id = pm_id m,
     pg_metadata = m\<lparr>pm_display_name := (if pm_display_name m = [] then pm_name m else pm_display_name m)\<rparr>, pg_state = PL_DISCOVERED, pg_context = None\<rparr>"

definition plugin_initialize :: "'c option \<Rightarrow> 'c plugin \<Rightarrow> 'c plugin" where
  "plugin_initialize ctx p = p\<lparr>pg_context := ctx, pg_state := PL_INITIALIZED\<rparr>"

definition plugin_start :: "'c plugin \<Rightarrow> 'c plugin" where
  "plugin_start p = p\<lparr>pg_state := PL_STARTED\<rparr>"

definition plugin_stop :: "'c plugin \<Rightarrow> 'c plugin" where
  "plugin_stop p = p\<lparr>pg_state := PL_STOPPED\<rparr>"

definition plugin_dispose :: "'c plugin \<Rightarrow> 'c plugin" where
  "plugin_dispose p = p\<lparr>pg_state := PL_UNINSTALLED\<rparr>"

definition plugin_health :: "'c plugin \<Rightarrow> string \<times> health_status" where
  "plugin_health p = (pg_id p, if pg_state p \<in> {PL_INITIALIZED, PL_STARTED} then HEALTHY else UNKNOWN)"

definition is_compatible_kernel :: "plugin_metadata \<Rightarrow> string \<Rightarrow> exn + bool" where
  "is_compatible_kernel m kernel_version =
     version_in_range kernel_version (pm_minimum_kernel_version m) (pm_maximum_kernel_version m)"

section \<open>The registry\<close>

type_synonym 'c plugins = "(string, 'c plugin) dict"

definition plugins_register :: "'c plugin \<Rightarrow> ('c plugins, unit) py" where
  "plugins_register p =
     py_bind (py_read (\<lambda>r. dict_has r (pg_id p))) (\<lambda>taken.
     if taken then py_raise DuplicatePluginError (''Plugin '' @ quoted (pg_id p) @ '' is already registered.'')
     else py_modify (dict_set (pg_id p) p))"

definition plugins_unregister :: "string \<Rightarrow> 'c plugins \<Rightarrow> 'c plugins" where
  "plugins_unregister i r = dict_pop i r"

definition plugins_find :: "'c plugins \<Rightarrow> string \<Rightarrow> 'c plugin option" where
  "plugins_find r i = dict_get r i"

definition find_by_capability :: "'c plugins \<Rightarrow> plugin_capability \<Rightarrow> 'c plugin list" where
  "find_by_capability r c = filter (\<lambda>p. c \<in> set (pg_capabilities p)) (dict_values r)"

definition plugins_list :: "'c plugins \<Rightarrow> 'c plugin list" where
  "plugins_list r = dict_values r"

definition plugins_exists :: "'c plugins \<Rightarrow> string \<Rightarrow> bool" where
  "plugins_exists r i = dict_has r i"

definition plugins_clear :: "'c plugins \<Rightarrow> 'c plugins" where
  "plugins_clear r = []"

section \<open>The search for cycles\<close>

datatype colour = WHITE | GRAY | BLACK

type_synonym colours = "(string, colour) dict"

definition circular_error :: "string list \<Rightarrow> exn" where
  "circular_error path = Exn CircularDependencyError (''Circular plugin dependency: '' @ str_join '' -> '' path)"

text \<open>The body of \<open>visit\<close> on a list of dependencies; \<open>stack\<close> is the path to the node they belong to.\<close>

function visit_deps :: "(string, string list) dict \<Rightarrow> string list \<Rightarrow> string list \<Rightarrow> colours \<Rightarrow> exn + colours" where
  "visit_deps g stack [] col = Inr col"
| "visit_deps g stack (d # ds) col =
     (case dict_get col d of
        None \<Rightarrow> visit_deps g stack ds col
      | Some GRAY \<Rightarrow> Inl (circular_error (stack @ [d]))
      | Some BLACK \<Rightarrow> visit_deps g stack ds col
      | Some WHITE \<Rightarrow>
          (case dict_get g d of
             None \<Rightarrow> Inl (Exn KeyError (repr_str d))
           | Some es \<Rightarrow>
               (case visit_deps g (stack @ [d]) es (dict_set d GRAY col) of
                  Inl e \<Rightarrow> Inl e
                | Inr col' \<Rightarrow> visit_deps g stack ds (dict_set d BLACK col'))))"
  by pat_completeness auto

definition whites :: "colours \<Rightarrow> string set" where
  "whites col = {d. dict_get col d = Some WHITE}"

lemma finite_whites: "finite (whites col)"
  by (rule finite_subset [of _ "set (dict_keys col)"]) (auto simp: whites_def dest: dict_get_key)

lemma whites_set: "whites (dict_set d c col) = (if c = WHITE then insert d (whites col) else whites col - {d})"
  by (auto simp: whites_def)

lemma visit_deps_whites_dom:
  "visit_deps_dom (g, stack, ds, col) \<Longrightarrow> visit_deps g stack ds col = Inr col' \<Longrightarrow> whites col' \<subseteq> whites col"
proof (induction arbitrary: col' rule: visit_deps.pinduct)
  case (1 g stack col)
  then show ?case by (simp add: visit_deps.psimps)
next
  case (2 g stack d ds col)
  consider "dict_get col d = None" | "dict_get col d = Some GRAY" | "dict_get col d = Some BLACK" | "dict_get col d = Some WHITE"
    by (metis colour.exhaust option.exhaust)
  then show ?case
  proof cases
    case 1
    with 2 show ?thesis by (simp add: visit_deps.psimps)
  next
    case c: 2
    with 2 show ?thesis by (simp add: visit_deps.psimps)
  next
    case 3
    with 2 show ?thesis by (simp add: visit_deps.psimps)
  next
    case 4
    with 2(1,6) obtain es col1 where s: "dict_get g d = Some es"
      "visit_deps g (stack @ [d]) es (dict_set d GRAY col) = Inr col1"
      "visit_deps g stack ds (dict_set d BLACK col1) = Inr col'"
      by (auto simp: visit_deps.psimps split: option.splits sum.splits)
    from 2(3) [OF 4 refl s(1,2)] 2(4) [OF 4 refl s]
    have "whites col1 \<subseteq> whites (dict_set d GRAY col)" "whites col' \<subseteq> whites (dict_set d BLACK col1)" .
    then show ?thesis by (auto simp: whites_set)
  qed
qed

termination visit_deps
proof (relation "measures [\<lambda>(g, stack, ds, col). card (whites col), \<lambda>(g, stack, ds, col). length ds]", goal_cases)
  case 1
  show ?case by simp
next
  case (2 g stack d ds col)
  then show ?case by simp
next
  case (3 g stack d ds col c es)
  then have "d \<in> whites col" by (simp add: whites_def)
  then have "card (whites col - {d}) < card (whites col)" using finite_whites by (rule card_Diff1_less [rotated])
  then show ?case by (simp add: whites_set)
next
  case (4 g stack d ds col c es col')
  then have d: "d \<in> whites col" by (simp add: whites_def)
  have "whites col' \<subseteq> whites (dict_set d GRAY col)"
    by (rule visit_deps_whites_dom) (use 4 in simp_all)
  then have "whites (dict_set d BLACK col') \<subset> whites col" using d by (auto simp: whites_set)
  then have "card (whites (dict_set d BLACK col')) < card (whites col)"
    by (intro psubset_card_mono finite_whites)
  then show ?case by simp
next
  case (5 g stack d ds col c)
  then show ?case by simp
qed

declare visit_deps.simps(2) [simp del]

text \<open>The loop over the roots.\<close>

fun visit_roots :: "(string, string list) dict \<Rightarrow> string list \<Rightarrow> colours \<Rightarrow> exn + colours" where
  "visit_roots g [] col = Inr col"
| "visit_roots g (n # ns) col =
     (if dict_get col n \<in> {None, Some WHITE} then
        (case dict_get g n of
           None \<Rightarrow> Inl (Exn KeyError (repr_str n))
         | Some ds \<Rightarrow>
             (case visit_deps g [n] ds (dict_set n GRAY col) of
                Inl e \<Rightarrow> Inl e
              | Inr col' \<Rightarrow> visit_roots g ns (dict_set n BLACK col')))
      else visit_roots g ns col)"

definition detect_cycle :: "(string, string list) dict \<Rightarrow> string option \<Rightarrow> exn + unit" where
  "detect_cycle g start =
     (let roots = (case start of None \<Rightarrow> dict_keys g | Some s \<Rightarrow> if s = [] then dict_keys g else [s]) in
      case visit_roots g roots (map (\<lambda>k. (k, WHITE)) (dict_keys g)) of Inl e \<Rightarrow> Inl e | Inr _ \<Rightarrow> Inr ())"

section \<open>Validation\<close>

definition plugin_graph :: "'c plugins \<Rightarrow> (string, string list) dict" where
  "plugin_graph r = map (\<lambda>(k, p). (k, pg_dependencies p)) (dict_update [] (map (\<lambda>p. (pg_id p, p)) (plugins_list r)))"

definition missing_plugin_error :: "string \<Rightarrow> string \<Rightarrow> exn" where
  "missing_plugin_error i d =
     Exn MissingDependencyError (''Plugin '' @ quoted i @ '' requires missing dependency '' @ quoted d @ ''.'')"

definition missing_pairs :: "(string, string list) dict \<Rightarrow> (string \<times> string) list" where
  "missing_pairs g = concat (map (\<lambda>(i, ds). map (Pair i) (filter (\<lambda>d. \<not> dict_has g d) ds)) g)"

definition validate_plugins :: "'c plugins \<Rightarrow> exn + unit" where
  "validate_plugins r =
     (let g = plugin_graph r in
      case missing_pairs g of
        (i, d) # _ \<Rightarrow> Inl (missing_plugin_error i d)
      | [] \<Rightarrow> detect_cycle g None)"

section \<open>The manager\<close>

definition manager_register :: "string \<Rightarrow> 'c plugin \<Rightarrow> ('c plugins, unit) py" where
  "manager_register kernel_version p =
     py_bind (py_lift (is_compatible_kernel (pg_metadata p) kernel_version)) (\<lambda>compatible.
     if \<not> compatible
     then py_raise IncompatibleKernelError (''Plugin '' @ quoted (pg_id p) @ '' is incompatible with kernel ''
       @ kernel_version @ ''.'')
     else plugins_register p)"

definition manager_load :: "'c option \<Rightarrow> ('c plugin, unit) py" where
  "manager_load ctx =
     py_bind (py_read (\<lambda>p. p)) (\<lambda>p.
     if \<not> pm_enabled (pg_metadata p) then py_raise PluginDisabledError (''Plugin '' @ quoted (pg_id p) @ '' is disabled.'')
     else py_bind (py_modify (plugin_initialize ctx)) (\<lambda>_. py_modify plugin_start))"

text \<open>\<open>unload\<close>: the registry afterwards, and the stopped object for those who still hold it.\<close>

definition manager_unload :: "string \<Rightarrow> 'c plugins \<Rightarrow> 'c plugin option \<times> 'c plugins" where
  "manager_unload i r =
     (case plugins_find r i of None \<Rightarrow> (None, r) | Some p \<Rightarrow> (Some (plugin_stop p), plugins_unregister i r))"

definition manager_validate :: "'c plugins \<Rightarrow> exn + unit" where
  "manager_validate r = validate_plugins r"

section \<open>The registry keeps its contract\<close>

definition plugins_ok :: "'c plugins \<Rightarrow> bool" where
  "plugins_ok r = registry_wf pg_id r"

lemma plugins_ok_Nil [simp]: "plugins_ok []"
  by (simp add: plugins_ok_def)

interpretation plugin_registry: keyed_registry pg_id plugins_register plugins_unregister plugins_find plugins_list plugins_ok
proof
  fix r :: "'c plugins" and v w :: "'c plugin" and k
  assume ok: "plugins_ok r"
  show "\<exists>r'. plugins_register v r = (Inr (), r') \<and> plugins_ok r' \<and> plugins_list r' = plugins_list r @ [v] \<and>
      plugins_find r' = (plugins_find r)(pg_id v := Some v)" if "plugins_find r (pg_id v) = None"
    using ok that registry_wf_set [of pg_id r v]
    by (auto simp: plugins_register_def py_bind_split dict_has_def plugins_ok_def plugins_list_def plugins_find_def dict_set_fresh
        fun_eq_iff map_add_def split: option.splits)
  show "isl (fst (plugins_register v r)) \<and> snd (plugins_register v r) = r" if "plugins_find r (pg_id v) = Some w"
    using that by (simp add: plugins_register_def py_bind_split dict_has_def plugins_find_def)
  show "plugins_ok (plugins_unregister k r)"
    using ok registry_wf_pop by (auto simp: plugins_ok_def plugins_unregister_def)
  show "plugins_list (plugins_unregister k r) = filter (\<lambda>v. pg_id v \<noteq> k) (plugins_list r)"
    using ok registry_wf_values_pop by (auto simp: plugins_ok_def plugins_list_def plugins_unregister_def)
  show "plugins_find r k = Some v \<longleftrightarrow> v \<in> set (plugins_list r) \<and> pg_id v = k"
    using ok unfolding plugins_ok_def plugins_list_def plugins_find_def by (rule registry_wf_get)
qed

section \<open>Colours and sets\<close>

definition coloured :: "colour \<Rightarrow> colours \<Rightarrow> string set" where
  "coloured c col = {d. dict_get col d = Some c}"

lemma coloured_set: "coloured c (dict_set d c' col) = (if c = c' then insert d (coloured c col) else coloured c col - {d})"
  by (auto simp: coloured_def)

definition same_colours :: "(string, string list) dict \<Rightarrow> colours \<Rightarrow> string topo_state \<Rightarrow> bool" where
  "same_colours g col st =
     (set (dict_keys col) = set (dict_keys g) \<and> coloured GRAY col = ts_visiting st \<and> coloured BLACK col = ts_visited st)"

lemma same_colours_enter:
  assumes "same_colours g col st" and "dict_get col d = Some WHITE"
  shows "same_colours g (dict_set d GRAY col) (enter_node d st)"
proof -
  have "d \<in> set (dict_keys col)" "d \<notin> coloured BLACK col" using assms(2) dict_get_key by (auto simp: coloured_def)
  then show ?thesis using assms(1) by (auto simp: same_colours_def coloured_set dict_keys_set dict_has_iff)
qed

lemma same_colours_leave:
  "same_colours g col st \<Longrightarrow> d \<in> set (dict_keys g) \<Longrightarrow> same_colours g (dict_set d BLACK col) (leave_node d st)"
  by (auto simp: same_colours_def coloured_set dict_keys_set dict_has_iff)

text \<open>The colouring search and the search with the two sets of \<open>Dep_Graph\<close> do the same.\<close>

lemma visit_deps_same:
  assumes "Range (dep_edges g) \<subseteq> set (dict_keys g)" and "set ds \<subseteq> set (dict_keys g)" and "same_colours g col st"
  shows "case visit_deps g stack ds col of
      Inl e \<Rightarrow> isl (visit_all cyc mis g ds st)
    | Inr col' \<Rightarrow> (\<exists>st'. visit_all cyc mis g ds st = Inr st' \<and> same_colours g col' st')"
  using assms
proof (induction g stack ds col arbitrary: st rule: visit_deps.induct)
  case (1 g stack col)
  then show ?case by simp
next
  case (2 g stack d ds col)
  have d: "d \<in> set (dict_keys g)" using "2.prems"(2) by simp
  have st: "d \<in> ts_visited st \<longleftrightarrow> dict_get col d = Some BLACK" "d \<in> ts_visiting st \<longleftrightarrow> dict_get col d = Some GRAY"
    using "2.prems"(3) by (auto simp: same_colours_def coloured_def)
  have "d \<in> set (dict_keys col)" using d "2.prems"(3) by (simp add: same_colours_def)
  then obtain c where c: "dict_get col d = Some c" using dict_key_get by metis
  show ?case
  proof (cases c)
    case GRAY
    then show ?thesis using c st by (simp add: visit_deps.simps(2))
  next
    case BLACK
    have all: "visit_all cyc mis g (d # ds) st = visit_all cyc mis g ds st" using c BLACK st by simp
    have deps: "visit_deps g stack (d # ds) col = visit_deps g stack ds col" using c BLACK by (simp add: visit_deps.simps(2))
    have "set ds \<subseteq> set (dict_keys g)" using "2.prems"(2) by simp
    from "2.IH"(4) [OF c BLACK "2.prems"(1) this "2.prems"(3)] show ?thesis unfolding all deps .
  next
    case WHITE
    obtain es where es: "dict_get g d = Some es" using d dict_key_get by metis
    then have sub: "set es \<subseteq> set (dict_keys g)" using "2.prems"(1) by (auto simp: dep_edges_def)
    have enter: "same_colours g (dict_set d GRAY col) (enter_node d st)"
      using same_colours_enter "2.prems"(3) c WHITE by blast
    note inner = "2.IH"(2) [OF c WHITE es "2.prems"(1) sub enter]
    show ?thesis
    proof (cases "visit_deps g (stack @ [d]) es (dict_set d GRAY col)")
      case (Inl e)
      with inner have "isl (visit_all cyc mis g es (enter_node d st))" by simp
      then show ?thesis using c WHITE es Inl st by (auto simp: visit_deps.simps(2) split: sum.splits)
    next
      case (Inr col1)
      with inner obtain st1 where st1: "visit_all cyc mis g es (enter_node d st) = Inr st1" "same_colours g col1 st1" by auto
      have all: "visit_all cyc mis g (d # ds) st = visit_all cyc mis g ds (leave_node d st1)"
        using c WHITE es st st1(1) by simp
      have deps: "visit_deps g stack (d # ds) col = visit_deps g stack ds (dict_set d BLACK col1)"
        using c WHITE es Inr by (simp add: visit_deps.simps(2))
      have "set ds \<subseteq> set (dict_keys g)" using "2.prems"(2) by simp
      from "2.IH"(3) [OF c WHITE es Inr "2.prems"(1) this same_colours_leave [OF st1(2) d]]
      show ?thesis unfolding all deps .
    qed
  qed
qed

lemma visit_roots_same:
  assumes "Range (dep_edges g) \<subseteq> set (dict_keys g)" and "set ns \<subseteq> set (dict_keys g)" and "same_colours g col st"
    and "topo_inv g st" and "ts_visiting st = {}"
  shows "isl (visit_roots g ns col) \<longleftrightarrow> isl (visit_all cyc mis g ns st)"
  using assms(2-)
proof (induction ns arbitrary: col st)
  case Nil
  then show ?case by simp
next
  case (Cons n ns)
  have n: "n \<in> set (dict_keys g)" using Cons.prems by simp
  then obtain c where c: "dict_get col n = Some c" using Cons.prems(2) dict_key_get by (metis same_colours_def)
  have "coloured GRAY col = {}" "coloured BLACK col = ts_visited st"
    using Cons.prems(2,4) by (simp_all add: same_colours_def)
  moreover have "n \<in> coloured GRAY col \<longleftrightarrow> c = GRAY" "n \<in> coloured BLACK col \<longleftrightarrow> c = BLACK"
    using c by (auto simp: coloured_def)
  ultimately have gray: "c \<noteq> GRAY" "c = BLACK \<longleftrightarrow> n \<in> ts_visited st" by auto
  show ?case
  proof (cases "c = BLACK")
    case True
    have "visit_roots g (n # ns) col = visit_roots g ns col" using True c by simp
    moreover have "visit_all cyc mis g (n # ns) st = visit_all cyc mis g ns st" using True gray(2) by simp
    moreover have "isl (visit_roots g ns col) \<longleftrightarrow> isl (visit_all cyc mis g ns st)"
      by (rule Cons.IH) (use Cons.prems in simp_all)
    ultimately show ?thesis by metis
  next
    case False
    then have W: "c = WHITE" using gray(1) by (cases c) auto
    obtain es where es: "dict_get g n = Some es" using n dict_key_get by metis
    then have sub: "set es \<subseteq> set (dict_keys g)" using assms(1) by (auto simp: dep_edges_def)
    have new: "n \<notin> ts_visited st" "n \<notin> ts_visiting st" using False gray Cons.prems(4) by auto
    have inv: "topo_inv g (enter_node n st)" using topo_inv_enter [OF Cons.prems(3) new(1)] .
    note inner = visit_deps_same [where stack = "[n]" and cyc = cyc and mis = mis, OF assms(1) sub same_colours_enter [OF Cons.prems(2) c [unfolded W]]]
    have roots: "visit_roots g (n # ns) col = (case visit_deps g [n] es (dict_set n GRAY col) of
        Inl e \<Rightarrow> Inl e | Inr col' \<Rightarrow> visit_roots g ns (dict_set n BLACK col'))" using c W es by simp
    have all: "visit_all cyc mis g (n # ns) st = (case visit_all cyc mis g es (enter_node n st) of
        Inl e \<Rightarrow> Inl e | Inr st' \<Rightarrow> visit_all cyc mis g ns (leave_node n st'))" using new es by simp
    show ?thesis
    proof (cases "visit_deps g [n] es (dict_set n GRAY col)")
      case (Inl e)
      with inner have "isl (visit_all cyc mis g es (enter_node n st))" by simp
      then show ?thesis unfolding roots all using Inl by (auto split: sum.splits)
    next
      case (Inr col1)
      with inner obtain st1 where st1: "visit_all cyc mis g es (enter_node n st) = Inr st1" "same_colours g col1 st1" by auto
      from visit_all_Inr [OF st1(1) inv] Cons.prems(4) have v: "topo_inv g st1" "ts_visiting st1 = {n}" "set es \<subseteq> ts_visited st1" by auto
      have "topo_inv g (leave_node n st1)" using v es by (intro topo_inv_leave) auto
      moreover have "ts_visiting (leave_node n st1) = {}" using v(2) by simp
      moreover have "set ns \<subseteq> set (dict_keys g)" using Cons.prems(1) by simp
      ultimately have "isl (visit_roots g ns (dict_set n BLACK col1)) \<longleftrightarrow> isl (visit_all cyc mis g ns (leave_node n st1))"
        using Cons.IH same_colours_leave [OF st1(2) n] by blast
      then show ?thesis unfolding roots all Inr st1(1) by simp
    qed
  qed
qed

lemma white_start: "same_colours g (map (\<lambda>k. (k, WHITE)) (dict_keys g)) topo_init"
proof -
  have "dict_get (map (\<lambda>k. (k, WHITE)) ks) d = (if d \<in> set ks then Some WHITE else None)" for ks :: "string list" and d
    by (induction ks) auto
  note get = this [of "dict_keys g"]
  have "coloured GRAY (map (\<lambda>k. (k, WHITE)) (dict_keys g)) = {}" "coloured BLACK (map (\<lambda>k. (k, WHITE)) (dict_keys g)) = {}"
    unfolding coloured_def get by auto
  then show ?thesis by (simp add: same_colours_def comp_def)
qed

lemma detect_cycle_iff:
  assumes "Range (dep_edges g) \<subseteq> set (dict_keys g)"
  shows "detect_cycle g None = Inr () \<longleftrightarrow> acyclic (dep_edges g)"
proof -
  let ?cyc = "\<lambda>_. Exn CircularDependencyError []" and ?mis = "\<lambda>_. Exn KeyError []"
  have "isl (visit_roots g (dict_keys g) (map (\<lambda>k. (k, WHITE)) (dict_keys g))) \<longleftrightarrow>
      isl (visit_all ?cyc ?mis g (dict_keys g) topo_init)"
    by (rule visit_roots_same [OF assms subset_refl white_start]) simp_all
  moreover have "isl (visit_all ?cyc ?mis g (dict_keys g) topo_init) \<longleftrightarrow> \<not> acyclic (dep_edges g)"
    using visit_all_complete [OF assms, of ?cyc ?mis] by (auto simp: acyclic_def)
  ultimately show ?thesis by (auto simp: detect_cycle_def split: sum.splits)
qed

section \<open>The reported cycle\<close>

definition walk :: "(string, string list) dict \<Rightarrow> string list \<Rightarrow> bool" where
  "walk g = successively (\<lambda>a b. (a, b) \<in> dep_edges g)"

lemma visit_deps_grays:
  "visit_deps g stack ds col = Inr col' \<Longrightarrow>
    coloured GRAY col' = coloured GRAY col \<and> set (dict_keys col') = set (dict_keys col)"
proof (induction g stack ds col arbitrary: col' rule: visit_deps.induct)
  case (1 g stack col)
  then show ?case by simp
next
  case (2 g stack d ds col)
  consider "dict_get col d = None" | "dict_get col d = Some BLACK" | "dict_get col d = Some GRAY" | "dict_get col d = Some WHITE"
    by (metis colour.exhaust option.exhaust)
  then show ?case
  proof cases
    case 1
    then show ?thesis using 2 by (simp add: visit_deps.simps(2))
  next
    case c: 2
    then show ?thesis using 2 by (simp add: visit_deps.simps(2))
  next
    case 3
    then show ?thesis using 2 by (simp add: visit_deps.simps(2))
  next
    case 4
    then obtain es col1 where s: "dict_get g d = Some es"
      "visit_deps g (stack @ [d]) es (dict_set d GRAY col) = Inr col1"
      "visit_deps g stack ds (dict_set d BLACK col1) = Inr col'"
      using "2.prems" by (auto simp: visit_deps.simps(2) split: option.splits sum.splits)
    have d: "d \<in> set (dict_keys col)" using 4 dict_get_key by metis
    have c1: "coloured GRAY col1 = insert d (coloured GRAY col)" "set (dict_keys col1) = set (dict_keys col)"
      using "2.IH"(2) [OF 4 refl s(1,2)] d unfolding coloured_set dict_keys_set dict_has_iff by simp_all
    have "coloured GRAY col' = coloured GRAY col1 - {d}" "set (dict_keys col') = set (dict_keys col1)"
      using "2.IH"(3) [OF 4 refl s(1,2,3)] d c1(2) unfolding coloured_set dict_keys_set dict_has_iff by simp_all
    moreover have "d \<notin> coloured GRAY col" using 4 by (simp add: coloured_def)
    ultimately show ?thesis using c1 by simp
  qed
qed

lemma visit_deps_path:
  assumes "visit_deps g stack ds col = Inl e" and "walk g stack" and "stack \<noteq> []"
    and "\<forall>d \<in> set ds. (last stack, d) \<in> dep_edges g" and "coloured GRAY col = set stack"
    and "set (dict_keys col) \<subseteq> set (dict_keys g)"
  shows "\<exists>path. e = circular_error path \<and> walk g path \<and> path \<noteq> [] \<and> last path \<in> set (butlast path)"
  using assms
proof (induction g stack ds col rule: visit_deps.induct)
  case (1 g stack col)
  then show ?case by simp
next
  case (2 g stack d ds col)
  have walk: "walk g (stack @ [d])"
    using "2.prems"(2-4) by (simp add: walk_def successively_append_iff)
  consider "dict_get col d = None" | "dict_get col d = Some BLACK" | "dict_get col d = Some GRAY" | "dict_get col d = Some WHITE"
    by (metis colour.exhaust option.exhaust)
  then show ?case
  proof cases
    case 1
    then show ?thesis using 2 by (simp add: visit_deps.simps(2))
  next
    case c: 2
    then show ?thesis using 2 by (simp add: visit_deps.simps(2))
  next
    case 3
    then have "e = circular_error (stack @ [d])" using "2.prems"(1) by (simp add: visit_deps.simps(2))
    moreover have "d \<in> set stack" using 3 "2.prems"(5) by (auto simp: coloured_def)
    ultimately show ?thesis using walk by (intro exI [of _ "stack @ [d]"]) simp
  next
    case 4
    then have "d \<in> set (dict_keys g)" using "2.prems"(6) dict_get_key by (metis subsetD)
    then obtain es where es: "dict_get g d = Some es" using dict_key_get by metis
    have keys: "set (dict_keys (dict_set d c col')) \<subseteq> set (dict_keys g)"
      if "set (dict_keys col') \<subseteq> set (dict_keys g)" for c col'
      using that \<open>d \<in> set (dict_keys g)\<close> by (simp add: dict_keys_set)
    show ?thesis
    proof (cases "visit_deps g (stack @ [d]) es (dict_set d GRAY col)")
      case (Inl e')
      then have "visit_deps g (stack @ [d]) es (dict_set d GRAY col) = Inl e"
        using "2.prems"(1) 4 es by (simp add: visit_deps.simps(2))
      moreover have "\<forall>x \<in> set es. (last (stack @ [d]), x) \<in> dep_edges g" using es by (auto simp: dep_edges_def)
      moreover have "coloured GRAY (dict_set d GRAY col) = set (stack @ [d])" using "2.prems"(5) by (simp add: coloured_set)
      ultimately show ?thesis using "2.IH"(2) [OF 4 refl es] walk keys [OF "2.prems"(6)] by simp
    next
      case (Inr col1)
      have grays: "coloured GRAY col1 = insert d (set stack)"
        using visit_deps_grays [OF Inr] "2.prems"(5) by (simp add: coloured_set)
      have "d \<notin> coloured GRAY col" using 4 by (simp add: coloured_def)
      then have "d \<notin> set stack" using "2.prems"(5) by simp
      then have "coloured GRAY (dict_set d BLACK col1) = set stack" using grays by (simp add: coloured_set)
      moreover have "visit_deps g stack ds (dict_set d BLACK col1) = Inl e"
        using "2.prems"(1) 4 es Inr by (simp add: visit_deps.simps(2))
      moreover have "set (dict_keys (dict_set d BLACK col1)) \<subseteq> set (dict_keys g)"
        by (rule keys) (use visit_deps_grays [OF Inr] keys [OF "2.prems"(6), of GRAY] in simp)
      ultimately show ?thesis using "2.IH"(3) [OF 4 refl es Inr] "2.prems" by simp
    qed
  qed
qed

lemma visit_roots_path:
  assumes "visit_roots g ns col = Inl e" and "set ns \<subseteq> set (dict_keys g)" and "coloured GRAY col = {}"
    and "set (dict_keys col) \<subseteq> set (dict_keys g)"
  shows "\<exists>path. e = circular_error path \<and> walk g path \<and> path \<noteq> [] \<and> last path \<in> set (butlast path)"
  using assms
proof (induction ns arbitrary: col)
  case Nil
  then show ?case by simp
next
  case (Cons n ns)
  show ?case
  proof (cases "dict_get col n \<in> {None, Some WHITE}")
    case False
    then show ?thesis using Cons by (simp split: if_splits)
  next
    case True
    obtain ds where ds: "dict_get g n = Some ds" using Cons.prems(2) dict_key_get by (metis list.set_intros(1) subsetD)
    then have n: "n \<in> set (dict_keys g)" by (rule dict_get_key)
    let ?col = "dict_set n GRAY col"
    have g1: "coloured GRAY ?col = set [n]" using Cons.prems(3) by (simp add: coloured_set)
    have k1: "set (dict_keys ?col) \<subseteq> set (dict_keys g)" using Cons.prems(4) n by (simp add: dict_keys_set)
    show ?thesis
    proof (cases "visit_deps g [n] ds ?col")
      case (Inl e')
      then have "e' = e" using Cons.prems(1) True ds by simp
      have "\<forall>d \<in> set ds. (last [n], d) \<in> dep_edges g" using ds by (auto simp: dep_edges_def)
      from visit_deps_path [OF Inl _ _ this g1 k1] \<open>e' = e\<close> show ?thesis by (simp add: walk_def)
    next
      case (Inr col1)
      have "visit_roots g ns (dict_set n BLACK col1) = Inl e" using Cons.prems(1) True ds Inr by simp
      moreover have "coloured GRAY (dict_set n BLACK col1) = {}"
        using visit_deps_grays [OF Inr] g1 by (simp add: coloured_set)
      moreover have "set (dict_keys (dict_set n BLACK col1)) \<subseteq> set (dict_keys g)"
        using visit_deps_grays [OF Inr] k1 n by (simp add: dict_keys_set)
      ultimately show ?thesis using Cons.IH Cons.prems(2) by simp
    qed
  qed
qed

lemma dict_update_fresh:
  "distinct (map fst xs) \<Longrightarrow> set (map fst xs) \<inter> set (dict_keys d) = {} \<Longrightarrow> dict_update d xs = d @ xs"
proof (induction xs arbitrary: d)
  case Nil
  then show ?case by simp
next
  case (Cons x xs)
  obtain k v where x: "x = (k, v)" by (cases x)
  have "dict_get d k = None" using Cons.prems(2) x by (metis IntI dict_get_key empty_iff list.set_intros(1) list.simps(9) fst_conv not_None_eq)
  then have "dict_set k v d = d @ [(k, v)]" by (rule dict_set_fresh)
  then show ?case using Cons.IH [of "d @ [(k, v)]"] Cons.prems x by auto
qed

lemma plugin_graph_ok: "plugins_ok r \<Longrightarrow> plugin_graph r = map (\<lambda>(k, p). (k, pg_dependencies p)) r"
proof -
  assume ok: "plugins_ok r"
  have "map (\<lambda>p. (pg_id p, p)) (dict_values r) = r"
    using ok unfolding plugins_ok_def registry_wf_def by (induction r) (auto simp: dict_wf_def)
  moreover have "distinct (map fst r)" using ok by (simp add: plugins_ok_def registry_wf_def dict_wf_def)
  ultimately show ?thesis using dict_update_fresh [of r "[]"] by (simp add: plugin_graph_def plugins_list_def)
qed

lemma dict_get_plugin_graph:
  "plugins_ok r \<Longrightarrow> dict_get (plugin_graph r) k = map_option pg_dependencies (plugins_find r k)"
proof -
  have "dict_get (map (\<lambda>(k, p). (k, pg_dependencies p)) r) k = map_option pg_dependencies (dict_get r k)"
    for r :: "'c plugins" by (induction r) auto
  then show "plugins_ok r \<Longrightarrow> dict_get (plugin_graph r) k = map_option pg_dependencies (plugins_find r k)"
    by (simp add: plugin_graph_ok plugins_find_def)
qed

lemma dep_edges_plugins:
  "plugins_ok r \<Longrightarrow> dep_edges (plugin_graph r) = {(pg_id p, d) | p d. p \<in> set (plugins_list r) \<and> d \<in> set (pg_dependencies p)}"
  unfolding dep_edges_def dict_get_plugin_graph
  by (auto simp: plugin_registry.lookup_items dict_get_plugin_graph)

lemma missing_pairs_empty: "dict_wf g \<Longrightarrow> missing_pairs g = [] \<longleftrightarrow> Range (dep_edges g) \<subseteq> set (dict_keys g)"
  by (fastforce simp: missing_pairs_def filter_empty_conv dict_has_iff dep_edges_def dict_get_mem [symmetric])

lemma plugin_graph_keys:
  "plugins_ok r \<Longrightarrow> set (dict_keys (plugin_graph r)) = pg_id ` set (plugins_list r) \<and> dict_wf (plugin_graph r)"
proof -
  assume ok: "plugins_ok r"
  have keys: "dict_keys (plugin_graph r) = dict_keys r"
    unfolding plugin_graph_ok [OF ok] by (induction r) auto
  have "dict_keys r = map pg_id (plugins_list r)"
    using ok registry_wf_keys [of pg_id r] by (simp add: plugins_ok_def plugins_list_def)
  then show ?thesis using keys ok by (simp add: dict_wf_def plugins_ok_def registry_wf_def)
qed

section \<open>Properties\<close>

text \<open>C10: Validation of the plugins succeeds exactly if every declared dependency is registered and
  the dependencies have no cycle. A reported cycle is a real one: the message shows a path along
  declared dependencies whose last plugin has occurred before.\<close>

theorem validate_plugins_iff:
  assumes "plugins_ok r"
  shows "(validate_plugins r = Inr () \<longleftrightarrow>
      (\<forall>p \<in> set (plugins_list r). \<forall>d \<in> set (pg_dependencies p). plugins_find r d \<noteq> None) \<and>
      acyclic {(pg_id p, d) | p d. p \<in> set (plugins_list r) \<and> d \<in> set (pg_dependencies p)}) \<and>
    (\<forall>e. validate_plugins r = Inl e \<and>
        (\<forall>p \<in> set (plugins_list r). \<forall>d \<in> set (pg_dependencies p). plugins_find r d \<noteq> None) \<longrightarrow>
      (\<exists>path. e = circular_error path \<and> walk (plugin_graph r) path \<and> path \<noteq> [] \<and> last path \<in> set (butlast path)))"
proof -
  let ?g = "plugin_graph r"
  note keys = plugin_graph_keys [OF assms]
  have found: "d \<in> set (dict_keys ?g) \<longleftrightarrow> plugins_find r d \<noteq> None" for d
    unfolding keys [THEN conjunct1] plugin_registry.lookup_None [OF assms] by simp
  then have closed: "missing_pairs ?g = [] \<longleftrightarrow>
      (\<forall>p \<in> set (plugins_list r). \<forall>d \<in> set (pg_dependencies p). plugins_find r d \<noteq> None)"
  proof -
    let ?D = "{(pg_id p, d) | p d. p \<in> set (plugins_list r) \<and> d \<in> set (pg_dependencies p)}"
    have "missing_pairs ?g = [] \<longleftrightarrow> Range ?D \<subseteq> set (dict_keys ?g)"
      using missing_pairs_empty [of ?g] keys unfolding dep_edges_plugins [OF assms] by simp
    also have "\<dots> \<longleftrightarrow> (\<forall>d \<in> Range ?D. plugins_find r d \<noteq> None)" using found by blast
    also have "\<dots> \<longleftrightarrow> (\<forall>p \<in> set (plugins_list r). \<forall>d \<in> set (pg_dependencies p). plugins_find r d \<noteq> None)" by blast
    finally show ?thesis .
  qed
  show ?thesis
  proof (cases "missing_pairs ?g")
    case (Cons m ms)
    then have "\<not> (\<forall>p \<in> set (plugins_list r). \<forall>d \<in> set (pg_dependencies p). plugins_find r d \<noteq> None)"
      using closed by (metis list.distinct(1))
    moreover have "validate_plugins r \<noteq> Inr ()" using Cons by (cases m) (simp add: validate_plugins_def Let_def)
    ultimately show ?thesis by blast
  next
    case Nil
    then have range: "Range (dep_edges ?g) \<subseteq> set (dict_keys ?g)" using missing_pairs_empty keys by blast
    have v: "validate_plugins r = detect_cycle ?g None" using Nil by (simp add: validate_plugins_def Let_def)
    have "\<exists>path. e = circular_error path \<and> walk ?g path \<and> path \<noteq> [] \<and> last path \<in> set (butlast path)"
      if "detect_cycle ?g None = Inl e" for e
    proof (rule visit_roots_path)
      show "visit_roots ?g (dict_keys ?g) (map (\<lambda>k. (k, WHITE)) (dict_keys ?g)) = Inl e"
        using that by (simp add: detect_cycle_def split: sum.splits)
    qed (use white_start [of ?g] in \<open>simp_all add: same_colours_def\<close>)
    then show ?thesis
      using detect_cycle_iff [OF range] closed Nil unfolding v dep_edges_plugins [OF assms] by blast
  qed
qed

text \<open>A plugin is accepted exactly if the kernel version is in its declared range and its id is
  free. Loading starts an enabled plugin, which then is healthy, and refuses a disabled one;
  unloading takes out just that plugin, stopped, so that its id is free again.\<close>

theorem plugin_lifecycle:
  assumes "plugins_ok r" and "is_compatible_kernel (pg_metadata p) kv = Inr compatible"
  shows "(fst (manager_register kv p r) = Inr () \<longleftrightarrow> compatible \<and> plugins_find r (pg_id p) = None) \<and>
    (case manager_load ctx p of
       (Inr _, p') \<Rightarrow> pm_enabled (pg_metadata p) \<and> pg_state p' = PL_STARTED \<and> pg_context p' = ctx \<and> plugin_health p' = (pg_id p, HEALTHY)
     | (Inl e, p') \<Rightarrow> \<not> pm_enabled (pg_metadata p) \<and> exn_class e = PluginDisabledError \<and> p' = p) \<and>
    (\<exists>r'. manager_unload i r = (map_option plugin_stop (plugins_find r i), r') \<and> plugins_ok r' \<and>
      plugins_list r' = filter (\<lambda>q. pg_id q \<noteq> i) (plugins_list r) \<and> plugins_find r' i = None)"
proof (intro conjI)
  show "fst (manager_register kv p r) = Inr () \<longleftrightarrow> compatible \<and> plugins_find r (pg_id p) = None"
  proof (cases "plugins_find r (pg_id p)")
    case None
    then obtain r' where "plugins_register p r = (Inr (), r')" using plugin_registry.register_new [OF assms(1)] by blast
    then show ?thesis using None assms(2) by (simp add: manager_register_def py_bind_split)
  next
    case (Some w)
    have "isl (fst (plugins_register p r))" using plugin_registry.register_taken [OF assms(1) Some] by simp
    then show ?thesis using Some assms(2) by (auto simp: manager_register_def py_bind_split)
  qed
  show "case manager_load ctx p of
      (Inr _, p') \<Rightarrow> pm_enabled (pg_metadata p) \<and> pg_state p' = PL_STARTED \<and> pg_context p' = ctx \<and> plugin_health p' = (pg_id p, HEALTHY)
    | (Inl e, p') \<Rightarrow> \<not> pm_enabled (pg_metadata p) \<and> exn_class e = PluginDisabledError \<and> p' = p"
    by (simp add: manager_load_def py_bind_split plugin_initialize_def plugin_start_def plugin_health_def)
  have "plugins_find (plugins_unregister i r) i = None" by (simp add: plugins_find_def plugins_unregister_def)
  moreover have "filter (\<lambda>q. pg_id q \<noteq> i) (plugins_list r) = plugins_list r" if "plugins_find r i = None"
    using that plugin_registry.lookup_None [OF assms(1)] by (intro filter_True) (auto simp: image_iff)
  ultimately show "\<exists>r'. manager_unload i r = (map_option plugin_stop (plugins_find r i), r') \<and> plugins_ok r' \<and>
      plugins_list r' = filter (\<lambda>q. pg_id q \<noteq> i) (plugins_list r) \<and> plugins_find r' i = None"
    using plugin_registry.remove_ok [OF assms(1)] plugin_registry.remove_items [OF assms(1)] assms(1)
    by (cases "plugins_find r i") (simp_all add: manager_unload_def)
qed

section \<open>Witnesses\<close>

definition sample_plugin :: "string \<Rightarrow> string list \<Rightarrow> unit plugin" where
  "sample_plugin i ds = new_plugin \<lparr>pm_id = i, pm_name = i, pm_version = ''1.0.0'', pm_display_name = [], pm_author = ''Unknown'',
     pm_license = ''Apache-2.0'', pm_homepage = [], pm_repository = [], pm_description = [], pm_capabilities = [CAP_OCR],
     pm_dependencies = ds, pm_supported_platforms = [], pm_minimum_kernel_version = None, pm_maximum_kernel_version = None, pm_experimental = False, pm_enabled = True\<rparr>"

definition sample_plugins :: "unit plugins" where
  "sample_plugins = [(''a'', sample_plugin ''a'' [''b'']), (''b'', sample_plugin ''b'' [''a''])]"

lemma sample_plugin_simps [simp]:
  "pg_id (sample_plugin i ds) = i" "pg_dependencies (sample_plugin i ds) = ds"
  by (simp_all add: sample_plugin_def new_plugin_def pg_dependencies_def)

lemma sample_plugins_list: "plugins_list sample_plugins = [sample_plugin ''a'' [''b''], sample_plugin ''b'' [''a'']]"
  by (simp add: sample_plugins_def plugins_list_def)

lemma sample_plugins_ok: "plugins_ok sample_plugins"
  by (simp add: plugins_ok_def registry_wf_def dict_wf_def sample_plugins_def sample_plugin_def new_plugin_def)

theorem validate_plugins_iff_witness:
  "\<exists>e path. validate_plugins sample_plugins = Inl e \<and> e = circular_error path \<and> last path \<in> set (butlast path)"
proof -
  have all: "\<forall>p \<in> set (plugins_list sample_plugins). \<forall>d \<in> set (pg_dependencies p). plugins_find sample_plugins d \<noteq> None"
    by (simp add: sample_plugins_list) (simp add: sample_plugins_def plugins_find_def)
  let ?E = "{(pg_id p, d) | p d. p \<in> set (plugins_list sample_plugins) \<and> d \<in> set (pg_dependencies p)}"
  have "(''a'', ''b'') \<in> ?E"
    by (intro CollectI exI [of _ "sample_plugin ''a'' [''b'']"] exI [of _ "''b''"]) (simp add: sample_plugins_list)
  moreover have "(''b'', ''a'') \<in> ?E"
    by (intro CollectI exI [of _ "sample_plugin ''b'' [''a'']"] exI [of _ "''a''"]) (simp add: sample_plugins_list)
  ultimately have "(''a'', ''b'') \<in> ?E" "(''b'', ''a'') \<in> ?E" .
  then have "(''a'', ''a'') \<in> ?E\<^sup>+" by (meson r_into_trancl' trancl_into_trancl)
  then have "\<not> acyclic ?E" unfolding acyclic_def by blast
  then have "validate_plugins sample_plugins \<noteq> Inr ()" using validate_plugins_iff [OF sample_plugins_ok] by blast
  then obtain e where "validate_plugins sample_plugins = Inl e" by (cases "validate_plugins sample_plugins") auto
  then show ?thesis using validate_plugins_iff [OF sample_plugins_ok] all by blast
qed

theorem plugin_lifecycle_witness:
  "fst (manager_register ''0.1.0'' (sample_plugin ''c'' []) sample_plugins) = Inr ()"
proof -
  have compatible: "is_compatible_kernel (pg_metadata (sample_plugin ''c'' [])) ''0.1.0'' = Inr True"
  proof -
    have "parse_version ''0.1.0'' = Inr [0, 1, 0]" by code_simp
    then show ?thesis by (simp add: is_compatible_kernel_def sample_plugin_def new_plugin_def version_in_range_def)
  qed
  have "plugins_find sample_plugins (pg_id (sample_plugin ''c'' [])) = None"
    by (simp add: sample_plugins_def plugins_find_def)
  with plugin_lifecycle [OF sample_plugins_ok compatible, of None "''a''"] show ?thesis by simp
qed

end
