(* ===== verification/Import_Queue.thy ===== *)
theory Import_Queue
  imports State_Machine
begin

text \<open>
  \<open>import_queue/\<close>: import requests and the service that submits, dequeues, cancels and finishes
  them. The repository is a protocol: the record \<open>request_repo\<close> holds its operations and the locale
  \<open>request_repository\<close> what the service relies on; the in-memory repository the repository's own
  tests define fulfils it. Deduplication strategy, event bus, clock and id generator are
  parameters; \<open>checksum_dedup\<close> is the strategy the program provides, over a storage manager that
  is a parameter too. The service stores every request it has mutated before anything else can
  fail, so handing out copies or the stored objects themselves makes no difference.
\<close>

section \<open>Requests\<close>

datatype request_priority = PRIO_LOW | PRIO_NORMAL | PRIO_HIGH | PRIO_CRITICAL

fun request_weight :: "request_priority \<Rightarrow> int" where
  "request_weight PRIO_LOW = 0"
| "request_weight PRIO_NORMAL = 1"
| "request_weight PRIO_HIGH = 2"
| "request_weight PRIO_CRITICAL = 3"

datatype request_status = REQ_PENDING | REQ_DEQUEUED | REQ_PROCESSING | REQ_COMPLETED | REQ_FAILED | REQ_CANCELLED

fun request_status_value :: "request_status \<Rightarrow> string" where
  "request_status_value REQ_PENDING = ''pending''"
| "request_status_value REQ_DEQUEUED = ''dequeued''"
| "request_status_value REQ_PROCESSING = ''processing''"
| "request_status_value REQ_COMPLETED = ''completed''"
| "request_status_value REQ_FAILED = ''failed''"
| "request_status_value REQ_CANCELLED = ''cancelled''"

fun request_transitions :: "request_status \<Rightarrow> request_status set" where
  "request_transitions REQ_PENDING = {REQ_DEQUEUED, REQ_CANCELLED, REQ_FAILED}"
| "request_transitions REQ_DEQUEUED = {REQ_PROCESSING, REQ_CANCELLED, REQ_FAILED}"
| "request_transitions REQ_PROCESSING = {REQ_COMPLETED, REQ_CANCELLED, REQ_FAILED}"
| "request_transitions REQ_COMPLETED = {}"
| "request_transitions REQ_FAILED = {REQ_PENDING, REQ_CANCELLED}"
| "request_transitions REQ_CANCELLED = {}"

definition can_transition_request :: "request_status \<Rightarrow> request_status \<Rightarrow> bool" where
  "can_transition_request current target = (target \<in> request_transitions current)"

record import_request =
  rq_workspace_id :: string
  rq_location :: string
  rq_request_id :: string
  rq_priority :: int
  rq_status :: request_status
  rq_payload :: "(string, string) dict"
  rq_created_at :: int
  rq_started_at :: "int option"
  rq_completed_at :: "int option"
  rq_retries :: int
  rq_max_retries :: int

definition request_post_init :: "import_request \<Rightarrow> exn + import_request" where
  "request_post_init r =
     (if rq_workspace_id r = [] then Inl (Exn ValueError ''Import request must belong to a workspace'')
      else if rq_max_retries r \<le> rq_retries r then Inl (Exn ValueError ''Request retries exceed max retries'')
      else Inr r)"

definition new_request ::
    "string \<Rightarrow> string \<Rightarrow> int \<Rightarrow> (string, string) dict \<Rightarrow> string \<Rightarrow> int \<Rightarrow> exn + import_request" where
  "new_request ws loc prio payload i now =
     request_post_init \<lparr>rq_workspace_id = ws, rq_location = loc, rq_request_id = i, rq_priority = prio,
       rq_status = REQ_PENDING, rq_payload = payload, rq_created_at = now, rq_started_at = None,
       rq_completed_at = None, rq_retries = 0, rq_max_retries = 3\<rparr>"

definition request_transition_to :: "int \<Rightarrow> request_status \<Rightarrow> (import_request, unit) py" where
  "request_transition_to now target =
     py_bind (py_read (\<lambda>r. r)) (\<lambda>r.
     if \<not> can_transition_request (rq_status r) target
     then py_raise InvalidRequestStateError (''Cannot transition request '' @ rq_request_id r @ '' from ''
       @ request_status_value (rq_status r) @ '' to '' @ request_status_value target)
     else
       py_bind (py_when (target = REQ_PROCESSING \<and> rq_started_at r = None)
         (py_modify (\<lambda>r. r\<lparr>rq_started_at := Some now\<rparr>))) (\<lambda>_.
       py_bind (py_when (target \<in> {REQ_COMPLETED, REQ_CANCELLED, REQ_FAILED})
         (py_modify (\<lambda>r. r\<lparr>rq_completed_at := Some now\<rparr>))) (\<lambda>_.
       py_modify (\<lambda>r. r\<lparr>rq_status := target\<rparr>))))"

definition request_is_terminal :: "import_request \<Rightarrow> bool" where
  "request_is_terminal r = (rq_status r \<in> {REQ_COMPLETED, REQ_CANCELLED, REQ_FAILED})"

definition request_can_retry :: "import_request \<Rightarrow> bool" where
  "request_can_retry r = (rq_status r = REQ_FAILED \<and> rq_retries r < rq_max_retries r)"

definition request_retry :: "(import_request, unit) py" where
  "request_retry =
     py_bind (py_read request_can_retry) (\<lambda>can.
     if \<not> can then py_raise ValueError ''Request cannot be retried''
     else py_modify (\<lambda>r. r\<lparr>rq_status := REQ_PENDING, rq_retries := rq_retries r + 1\<rparr>))"

definition to_job_payload :: "import_request \<Rightarrow> (string, string) dict" where
  "to_job_payload r =
     dict_update (rq_payload r)
       [(''workspace_id'', rq_workspace_id r), (''location'', rq_location r), (''request_id'', rq_request_id r)]"

section \<open>Environment\<close>

datatype request_event =
    RequestEnqueued string string string int
  | RequestDequeued string string string int
  | RequestCompleted string string string string string
  | RequestFailed string string string string
  | RequestCancelled string string
  | DuplicateRejected string string string

record 'db request_repo =
  rr_create :: "import_request \<Rightarrow> ('db, import_request) py"
  rr_get_by_id :: "string \<Rightarrow> ('db, import_request option) py"
  rr_update :: "import_request \<Rightarrow> ('db, import_request) py"
  rr_list_pending :: "('db, import_request list) py"
  rr_count_pending :: "('db, int) py"

record ('db, 'b) request_env =
  qe_repo :: "'db request_repo"
  qe_dedup :: "(import_request \<Rightarrow> ('db, bool) py) option"
  qe_emit :: "request_event \<Rightarrow> ('b, unit) py"
  qe_now :: "nat \<Rightarrow> int"
  qe_uid :: "nat \<Rightarrow> string"

record ('db, 'b) request_world =
  qw_db :: 'db
  qw_sink :: 'b
  qw_ticks :: nat

type_synonym ('db, 'b, 'a) queue_py = "(('db, 'b) request_world, 'a) py"

definition on_requests :: "('db, 'a) py \<Rightarrow> ('db, 'b, 'a) queue_py" where
  "on_requests = py_on qw_db (\<lambda>d w. w\<lparr>qw_db := d\<rparr>)"

definition request_emit :: "('db, 'b) request_env \<Rightarrow> request_event \<Rightarrow> ('db, 'b, unit) queue_py" where
  "request_emit env e = py_on qw_sink (\<lambda>b w. w\<lparr>qw_sink := b\<rparr>) (qe_emit env e)"

definition queue_tick :: "('db, 'b, nat) queue_py" where
  "queue_tick = (\<lambda>w. (Inr (qw_ticks w), w\<lparr>qw_ticks := Suc (qw_ticks w)\<rparr>))"

text \<open>
  \<open>request.transition_to(target)\<close> on a request the service holds: the mutated request. The clock is
  read only once the check has passed.
\<close>

definition move_request :: "('db, 'b) request_env \<Rightarrow> request_status \<Rightarrow> import_request \<Rightarrow> ('db, 'b, import_request) queue_py" where
  "move_request env target r =
     py_bind (if can_transition_request (rq_status r) target then queue_tick else py_return 0) (\<lambda>t.
     py_lift (case request_transition_to (qe_now env t) target r of (Inl e, _) \<Rightarrow> Inl e | (Inr _, r') \<Rightarrow> Inr r'))"

section \<open>Deduplication\<close>

definition checksum_dedup ::
    "(string \<Rightarrow> string \<Rightarrow> ('db, import_request option) py) \<Rightarrow> import_request \<Rightarrow> ('db, bool) py" where
  "checksum_dedup get_by_location r =
     (if rq_location r = [] then py_return False
      else
        py_bind (py_result (get_by_location (rq_workspace_id r) (rq_location r))) (\<lambda>outcome.
        case outcome of
          Inl _ \<Rightarrow> py_return False
        | Inr None \<Rightarrow> py_return False
        | Inr (Some existing) \<Rightarrow>
            if rq_request_id existing = rq_request_id r then py_return False
            else py_return (request_status_value (rq_status existing) \<in> {''pending'', ''dequeued'', ''processing''})))"

section \<open>The service\<close>

definition submit_request ::
    "('db, 'b) request_env \<Rightarrow> string \<Rightarrow> string \<Rightarrow> int \<Rightarrow> (string, string) dict option \<Rightarrow> ('db, 'b, import_request) queue_py" where
  "submit_request env ws loc prio payload =
     (if ws = [] then py_raise ValueError ''workspace_id is required''
      else if loc = [] then py_raise ValueError ''location is required''
      else
        py_bind queue_tick (\<lambda>t.
        py_bind (py_lift (new_request ws loc prio (case payload of None \<Rightarrow> [] | Some p \<Rightarrow> p) (qe_uid env t) (qe_now env t))) (\<lambda>r.
        py_bind (case qe_dedup env of None \<Rightarrow> py_return False | Some d \<Rightarrow> on_requests (d r)) (\<lambda>duplicate.
        if duplicate then
          py_bind (request_emit env (DuplicateRejected ws loc ''duplicate-detected'')) (\<lambda>_.
          py_raise DuplicateRequestError (''Duplicate import request for '' @ loc))
        else
          py_bind (on_requests (rr_create (qe_repo env) r)) (\<lambda>r.
          py_bind (request_emit env (RequestEnqueued (rq_request_id r) ws loc (rq_priority r))) (\<lambda>_.
          py_return r))))))"

definition dequeue_request :: "('db, 'b) request_env \<Rightarrow> ('db, 'b, import_request option) queue_py" where
  "dequeue_request env =
     py_bind (on_requests (rr_list_pending (qe_repo env))) (\<lambda>pending.
     case sort_desc rq_priority pending of
       [] \<Rightarrow> py_return None
     | r # _ \<Rightarrow>
         py_bind (move_request env REQ_DEQUEUED r) (\<lambda>r.
         py_bind (on_requests (rr_update (qe_repo env) r)) (\<lambda>r.
         py_bind (request_emit env (RequestDequeued (rq_request_id r) (rq_workspace_id r) (rq_location r) (rq_priority r))) (\<lambda>_.
         py_return (Some r)))))"

definition get_request :: "('db, 'b) request_env \<Rightarrow> string \<Rightarrow> ('db, 'b, import_request option) queue_py" where
  "get_request env i = on_requests (rr_get_by_id (qe_repo env) i)"

definition cancel_request :: "('db, 'b) request_env \<Rightarrow> string \<Rightarrow> ('db, 'b, bool) queue_py" where
  "cancel_request env i =
     py_bind (get_request env i) (\<lambda>found.
     case found of
       None \<Rightarrow> py_return False
     | Some r \<Rightarrow>
         if request_is_terminal r then py_return False
         else
           py_bind (move_request env REQ_CANCELLED r) (\<lambda>r.
           py_bind (on_requests (rr_update (qe_repo env) r)) (\<lambda>_.
           py_bind (request_emit env (RequestCancelled (rq_request_id r) (rq_workspace_id r))) (\<lambda>_.
           py_return True))))"

definition finish_request ::
    "('db, 'b) request_env \<Rightarrow> request_status \<Rightarrow> (import_request \<Rightarrow> request_event) \<Rightarrow> string \<Rightarrow> ('db, 'b, unit) queue_py" where
  "finish_request env target event i =
     py_bind (get_request env i) (\<lambda>found.
     case found of
       None \<Rightarrow> py_return ()
     | Some r \<Rightarrow>
         py_bind (if rq_status r = REQ_DEQUEUED then move_request env REQ_PROCESSING r else py_return r) (\<lambda>r.
         py_bind (move_request env target r) (\<lambda>r.
         py_bind (on_requests (rr_update (qe_repo env) r)) (\<lambda>_.
         request_emit env (event r)))))"

definition mark_completed :: "('db, 'b) request_env \<Rightarrow> string \<Rightarrow> string \<Rightarrow> string \<Rightarrow> ('db, 'b, unit) queue_py" where
  "mark_completed env i document_id file_hash =
     finish_request env REQ_COMPLETED
       (\<lambda>r. RequestCompleted (rq_request_id r) (rq_workspace_id r) (rq_location r) document_id file_hash) i"

definition mark_failed :: "('db, 'b) request_env \<Rightarrow> string \<Rightarrow> string \<Rightarrow> ('db, 'b, unit) queue_py" where
  "mark_failed env i error_message =
     finish_request env REQ_FAILED
       (\<lambda>r. RequestFailed (rq_request_id r) (rq_workspace_id r) (rq_location r) error_message) i"

definition pending_ids :: "('db, 'b) request_env \<Rightarrow> ('db, 'b, string list) queue_py" where
  "pending_ids env =
     py_bind (on_requests (rr_list_pending (qe_repo env))) (\<lambda>rs. py_return (map rq_request_id rs))"

definition pending_size :: "('db, 'b) request_env \<Rightarrow> ('db, 'b, int) queue_py" where
  "pending_size env = on_requests (rr_count_pending (qe_repo env))"

text \<open>\<open>ImportQueuePlugin.stop\<close>: what it does to the queue.\<close>

definition stop_queue :: "('db, 'b) request_env \<Rightarrow> ('db, 'b, unit) queue_py" where
  "stop_queue env =
     py_bind (pending_ids env) (\<lambda>ids. py_for ids (\<lambda>i. py_bind (cancel_request env i) (\<lambda>_. py_return ())))"

section \<open>The contract of the repository\<close>

definition pending_requests :: "(string \<Rightarrow> import_request option) \<Rightarrow> import_request set" where
  "pending_requests m = {r. m (rq_request_id r) = Some r \<and> rq_status r = REQ_PENDING}"

section \<open>Transitions of a request\<close>

definition moved :: "int \<Rightarrow> request_status \<Rightarrow> import_request \<Rightarrow> import_request" where
  "moved now target r =
     r\<lparr>rq_started_at := (if target = REQ_PROCESSING \<and> rq_started_at r = None then Some now else rq_started_at r),
       rq_completed_at := (if target \<in> {REQ_COMPLETED, REQ_CANCELLED, REQ_FAILED} then Some now else rq_completed_at r),
       rq_status := target\<rparr>"

lemma moved_simps [simp]:
  "rq_status (moved now t r) = t" "rq_request_id (moved now t r) = rq_request_id r"
  "rq_retries (moved now t r) = rq_retries r" "rq_max_retries (moved now t r) = rq_max_retries r"
  "rq_priority (moved now t r) = rq_priority r"
  by (simp_all add: moved_def)

lemma request_transition_cases:
  "request_transition_to now target r =
    (if can_transition_request (rq_status r) target then (Inr (), moved now target r)
     else (Inl (Exn InvalidRequestStateError (''Cannot transition request '' @ rq_request_id r @ '' from ''
       @ request_status_value (rq_status r) @ '' to '' @ request_status_value target)), r))"
  by (simp add: request_transition_to_def py_bind_split py_when_def moved_def)

interpretation request_table: transition_system can_transition_request rq_status "request_transition_to now"
  by unfold_locales (simp_all add: request_transition_cases)

lemma on_requests_app [simp]: "on_requests m w = (fst (m (qw_db w)), w\<lparr>qw_db := snd (m (qw_db w))\<rparr>)"
  by (simp add: on_requests_def)

lemma qw_db_same [simp]: "w\<lparr>qw_db := qw_db w\<rparr> = w"
  by (cases w) simp

lemma queue_tick_app [simp]: "queue_tick w = (Inr (qw_ticks w), w\<lparr>qw_ticks := Suc (qw_ticks w)\<rparr>)"
  by (simp add: queue_tick_def)

lemma request_emit_app [simp]:
  "request_emit env e w = (fst (qe_emit env e (qw_sink w)), w\<lparr>qw_sink := snd (qe_emit env e (qw_sink w))\<rparr>)"
  by (simp add: request_emit_def)

lemma move_request_allowed:
  "can_transition_request (rq_status r) target \<Longrightarrow>
    move_request env target r w = (Inr (moved (qe_now env (qw_ticks w)) target r), w\<lparr>qw_ticks := Suc (qw_ticks w)\<rparr>)"
  by (simp add: move_request_def py_bind_split request_transition_cases)

lemma move_request_refused:
  "\<not> can_transition_request (rq_status r) target \<Longrightarrow>
    \<exists>msg. move_request env target r w = (Inl (Exn InvalidRequestStateError msg), w)"
  by (simp add: move_request_def py_bind_split request_transition_cases)

definition request_events_quiet :: "('db, 'b) request_env \<Rightarrow> bool" where
  "request_events_quiet env = (\<forall>e b. fst (qe_emit env e b) = Inr ())"

lemma quiet_emit: "request_events_quiet env \<Longrightarrow> fst (qe_emit env e b) = Inr ()"
  by (simp add: request_events_quiet_def)

text \<open>A descending sort starts with the first of the elements of the highest priority.\<close>

lemma hd_sort_desc:
  assumes "xs \<noteq> []"
  shows "sort_desc f xs = hd (sort_desc f xs) # tl (sort_desc f xs) \<and> hd (sort_desc f xs) \<in> set xs \<and>
    (\<forall>x \<in> set xs. f x \<le> f (hd (sort_desc f xs))) \<and>
    hd (sort_desc f xs) = hd (filter (\<lambda>x. f x = f (hd (sort_desc f xs))) xs)"
proof -
  have ne: "sort_desc f xs \<noteq> []" using assms by (metis length_0_conv length_sort_desc)
  have "hd (filter (\<lambda>x. f x = f (hd (sort_desc f xs))) (sort_desc f xs)) = hd (sort_desc f xs)"
    using ne by (cases "sort_desc f xs") simp_all
  then have "hd (sort_desc f xs) = hd (filter (\<lambda>x. f x = f (hd (sort_desc f xs))) xs)" by (simp add: sort_desc_stable)
  moreover have "\<forall>x \<in> set xs. f x \<le> f (hd (sort_desc f xs))"
    using sorted_desc_hd [OF sorted_desc_sort_desc [of f xs]] by simp
  moreover have "hd (sort_desc f xs) \<in> set xs" using hd_in_set [OF ne] by simp
  ultimately show ?thesis using ne by simp
qed

section \<open>What the service does to the repository\<close>

locale request_repository =
  fixes R :: "'db request_repo"
    and requests :: "'db \<Rightarrow> string \<Rightarrow> import_request option"
    and ok :: "'db \<Rightarrow> bool"
  assumes keyed: "ok db \<Longrightarrow> requests db i = Some r \<Longrightarrow> rq_request_id r = i"
    and get: "ok db \<Longrightarrow> rr_get_by_id R i db = (Inr (requests db i), db)"
    and create: "ok db \<Longrightarrow> requests db (rq_request_id r) = None \<Longrightarrow>
      \<exists>db'. rr_create R r db = (Inr r, db') \<and> ok db' \<and> requests db' = (requests db)(rq_request_id r := Some r)"
    and update: "ok db \<Longrightarrow> requests db (rq_request_id r) \<noteq> None \<Longrightarrow>
      \<exists>db'. rr_update R r db = (Inr r, db') \<and> ok db' \<and> requests db' = (requests db)(rq_request_id r := Some r)"
    and list_pending: "ok db \<Longrightarrow> \<exists>rs. rr_list_pending R db = (Inr rs, db) \<and> distinct rs \<and> set rs = pending_requests (requests db)"
    and count_pending: "ok db \<Longrightarrow> rr_count_pending R db = (Inr (int (card (pending_requests (requests db)))), db)"

begin

lemma pending_found: "ok db \<Longrightarrow> r \<in> pending_requests (requests db) \<Longrightarrow> requests db (rq_request_id r) = Some r \<and> rq_status r = REQ_PENDING"
  by (simp add: pending_requests_def)

lemma dequeue_empty:
  assumes "qe_repo env = R" and "ok (qw_db w)" and "pending_requests (requests (qw_db w)) = {}"
  shows "dequeue_request env w = (Inr None, w)"
proof -
  obtain rs where rs: "rr_list_pending R (qw_db w) = (Inr rs, qw_db w)" "set rs = pending_requests (requests (qw_db w))"
    using list_pending [OF assms(2)] by blast
  then have "rs = []" using assms(3) by simp
  then show ?thesis using rs(1) assms(1) by (simp add: dequeue_request_def py_bind_split sort_desc_def)
qed

lemma dequeue_some:
  assumes "qe_repo env = R" and "request_events_quiet env" and "ok (qw_db w)"
    and "rr_list_pending R (qw_db w) = (Inr rs, qw_db w)" and "pending_requests (requests (qw_db w)) \<noteq> {}"
  shows "\<exists>r w'. r \<in> pending_requests (requests (qw_db w)) \<and>
    (\<forall>s \<in> pending_requests (requests (qw_db w)). rq_priority s \<le> rq_priority r) \<and>
    r = hd (filter (\<lambda>s. rq_priority s = rq_priority r) rs) \<and>
    dequeue_request env w = (Inr (Some (moved (qe_now env (qw_ticks w)) REQ_DEQUEUED r)), w') \<and> ok (qw_db w') \<and>
    requests (qw_db w') = (requests (qw_db w))(rq_request_id r := Some (moved (qe_now env (qw_ticks w)) REQ_DEQUEUED r))"
proof -
  let ?r = "hd (sort_desc rq_priority rs)"
  let ?m = "moved (qe_now env (qw_ticks w)) REQ_DEQUEUED ?r"
  obtain rs' where "rr_list_pending R (qw_db w) = (Inr rs', qw_db w)" "set rs' = pending_requests (requests (qw_db w))"
    using list_pending [OF assms(3)] by blast
  then have set: "set rs = pending_requests (requests (qw_db w))" using assms(4) by simp
  then have ne: "rs \<noteq> []" using assms(5) by auto
  note h = hd_sort_desc [OF ne, of rq_priority]
  then have p: "?r \<in> pending_requests (requests (qw_db w))" using set by simp
  then have st: "requests (qw_db w) (rq_request_id ?r) = Some ?r" "can_transition_request (rq_status ?r) REQ_DEQUEUED"
    using pending_found [OF assms(3)] by (auto simp: can_transition_request_def)
  obtain db' where db': "rr_update R ?m (qw_db w) = (Inr ?m, db')" "ok db'"
    "requests db' = (requests (qw_db w))(rq_request_id ?r := Some ?m)"
    using update [OF assms(3), of ?m] st(1) by auto
  obtain r tail where tail: "sort_desc rq_priority rs = r # tail" "?r = r" using h by blast
  have "\<exists>w'. dequeue_request env w = (Inr (Some (moved (qe_now env (qw_ticks w)) REQ_DEQUEUED r)), w') \<and> qw_db w' = db'"
    using assms(1,4) tail(1) st(2) db'(1) quiet_emit [OF assms(2)]
    unfolding tail(2) by (simp add: dequeue_request_def py_bind_split move_request_allowed)
  then have "\<exists>w'. dequeue_request env w = (Inr (Some ?m), w') \<and> qw_db w' = db'" unfolding tail(2) .
  then obtain w' where "dequeue_request env w = (Inr (Some ?m), w')" "qw_db w' = db'" by blast
  then show ?thesis using p h db'(2,3) set by (intro exI [of _ ?r] exI [of _ w']) simp
qed

lemma cancel_live:
  assumes "qe_repo env = R" and "request_events_quiet env" and "ok (qw_db w)"
    and "requests (qw_db w) i = Some r" and "\<not> request_is_terminal r"
  shows "\<exists>w'. cancel_request env i w = (Inr True, w') \<and> ok (qw_db w') \<and>
    requests (qw_db w') = (requests (qw_db w))(i := Some (moved (qe_now env (qw_ticks w)) REQ_CANCELLED r))"
proof -
  let ?m = "moved (qe_now env (qw_ticks w)) REQ_CANCELLED r"
  have i: "rq_request_id r = i" using keyed assms(3,4) by blast
  have can: "can_transition_request (rq_status r) REQ_CANCELLED"
    using assms(5) by (cases "rq_status r") (simp_all add: can_transition_request_def request_is_terminal_def)
  obtain db' where db': "rr_update R ?m (qw_db w) = (Inr ?m, db')" "ok db'" "requests db' = (requests (qw_db w))(i := Some ?m)"
    using update [OF assms(3), of ?m] assms(4) i by auto
  have "\<exists>w'. cancel_request env i w = (Inr True, w') \<and> qw_db w' = db'"
    using assms(1,4,5) can db'(1) quiet_emit [OF assms(2)] get [OF assms(3), of i]
    by (simp add: cancel_request_def get_request_def py_bind_split move_request_allowed)
  with db' show ?thesis by auto
qed

lemma cancel_nothing:
  assumes "qe_repo env = R" and "ok (qw_db w)"
    and "\<forall>r. requests (qw_db w) i = Some r \<longrightarrow> request_is_terminal r"
  shows "cancel_request env i w = (Inr False, w)"
  using assms get [OF assms(2), of i]
  by (cases "requests (qw_db w) i") (simp_all add: cancel_request_def get_request_def py_bind_split)

lemma cancel_all:
  assumes "qe_repo env = R" and "request_events_quiet env" and "ok (qw_db w)"
    and "distinct is" and "\<forall>i \<in> set is. \<exists>r. requests (qw_db w) i = Some r \<and> \<not> request_is_terminal r"
  shows "\<exists>w'. py_for is (\<lambda>i. py_bind (cancel_request env i) (\<lambda>_. py_return ())) w = (Inr (), w') \<and> ok (qw_db w') \<and>
    (\<forall>i. i \<notin> set is \<longrightarrow> requests (qw_db w') i = requests (qw_db w) i) \<and>
    (\<forall>i \<in> set is. \<exists>r now. requests (qw_db w) i = Some r \<and> requests (qw_db w') i = Some (moved now REQ_CANCELLED r))"
  using assms(3-)
proof (induction "is" arbitrary: w)
  case Nil
  then show ?case by simp
next
  case (Cons i js)
  obtain r where r: "requests (qw_db w) i = Some r" "\<not> request_is_terminal r" using Cons.prems(3) by auto
  obtain w1 where w1: "cancel_request env i w = (Inr True, w1)" "ok (qw_db w1)"
    "requests (qw_db w1) = (requests (qw_db w))(i := Some (moved (qe_now env (qw_ticks w)) REQ_CANCELLED r))"
    using cancel_live [OF assms(1,2) Cons.prems(1) r] by blast
  have "\<forall>j \<in> set js. \<exists>r. requests (qw_db w1) j = Some r \<and> \<not> request_is_terminal r"
    using Cons.prems(2,3) w1(3) by auto
  moreover have "distinct js" using Cons.prems(2) by simp
  ultimately obtain w' where w': "py_for js (\<lambda>i. py_bind (cancel_request env i) (\<lambda>_. py_return ())) w1 = (Inr (), w')" "ok (qw_db w')"
    "\<forall>i. i \<notin> set js \<longrightarrow> requests (qw_db w') i = requests (qw_db w1) i"
    "\<forall>i \<in> set js. \<exists>r now. requests (qw_db w1) i = Some r \<and> requests (qw_db w') i = Some (moved now REQ_CANCELLED r)"
    using Cons.IH [OF w1(2)] by blast
  have "py_for (i # js) (\<lambda>i. py_bind (cancel_request env i) (\<lambda>_. py_return ())) w = (Inr (), w')"
    using w1(1) w'(1) by (simp add: py_bind_split)
  moreover have "\<forall>j \<in> set (i # js). \<exists>r now. requests (qw_db w) j = Some r \<and> requests (qw_db w') j = Some (moved now REQ_CANCELLED r)"
  proof
    fix j assume j: "j \<in> set (i # js)"
    show "\<exists>r now. requests (qw_db w) j = Some r \<and> requests (qw_db w') j = Some (moved now REQ_CANCELLED r)"
    proof (cases "j = i")
      case True
      then have "requests (qw_db w') j = Some (moved (qe_now env (qw_ticks w)) REQ_CANCELLED r)"
        using w'(3) w1(3) Cons.prems(2) by simp
      with True r(1) show ?thesis by blast
    next
      case False
      then have "requests (qw_db w1) j = requests (qw_db w) j" "j \<in> set js" using w1(3) j by simp_all
      with w'(4) show ?thesis by metis
    qed
  qed
  moreover have "\<forall>j. j \<notin> set (i # js) \<longrightarrow> requests (qw_db w') j = requests (qw_db w) j" using w'(3) w1(3) by simp
  ultimately show ?case using w'(2) by (intro exI [of _ w'] conjI)
qed

lemma finish_allowed:
  assumes "qe_repo env = R" and "request_events_quiet env" and "ok (qw_db w)"
    and "requests (qw_db w) i = Some r" and "rq_status r \<noteq> REQ_DEQUEUED" and "can_transition_request (rq_status r) t"
  shows "\<exists>w'. finish_request env t event i w = (Inr (), w') \<and> ok (qw_db w') \<and>
    requests (qw_db w') = (requests (qw_db w))(i := Some (moved (qe_now env (qw_ticks w)) t r))"
proof -
  let ?m = "moved (qe_now env (qw_ticks w)) t r"
  have i: "rq_request_id r = i" using keyed assms(3,4) by blast
  obtain db' where db': "rr_update R ?m (qw_db w) = (Inr ?m, db')" "ok db'" "requests db' = (requests (qw_db w))(i := Some ?m)"
    using update [OF assms(3), of ?m] assms(4) i by auto
  have "\<exists>w'. finish_request env t event i w = (Inr (), w') \<and> qw_db w' = db'"
    using assms(1,4-) db'(1) quiet_emit [OF assms(2)] get [OF assms(3), of i]
    by (simp add: finish_request_def get_request_def py_bind_split move_request_allowed)
  with db' show ?thesis by auto
qed

text \<open>A dequeued request goes through processing first, so its start is stamped as well.\<close>

lemma finish_dequeued:
  assumes "qe_repo env = R" and "request_events_quiet env" and "ok (qw_db w)"
    and "requests (qw_db w) i = Some r" and "rq_status r = REQ_DEQUEUED" and "can_transition_request REQ_PROCESSING t"
  shows "\<exists>w'. finish_request env t event i w = (Inr (), w') \<and> ok (qw_db w') \<and>
    requests (qw_db w') = (requests (qw_db w))(i := Some (moved (qe_now env (Suc (qw_ticks w))) t
      (moved (qe_now env (qw_ticks w)) REQ_PROCESSING r)))"
proof -
  let ?m = "moved (qe_now env (Suc (qw_ticks w))) t (moved (qe_now env (qw_ticks w)) REQ_PROCESSING r)"
  have i: "rq_request_id r = i" using keyed assms(3,4) by blast
  have can: "can_transition_request REQ_DEQUEUED REQ_PROCESSING" by (simp add: can_transition_request_def)
  obtain db' where db': "rr_update R ?m (qw_db w) = (Inr ?m, db')" "ok db'" "requests db' = (requests (qw_db w))(i := Some ?m)"
    using update [OF assms(3), of ?m] assms(4) i by auto
  have "\<exists>w'. finish_request env t event i w = (Inr (), w') \<and> qw_db w' = db'"
    using assms(1,4-) can db'(1) quiet_emit [OF assms(2)] get [OF assms(3), of i]
    by (simp add: finish_request_def get_request_def py_bind_split move_request_allowed)
  with db' show ?thesis by auto
qed

lemma finish_refused:
  assumes "qe_repo env = R" and "ok (qw_db w)" and "requests (qw_db w) i = Some r"
    and "rq_status r \<noteq> REQ_DEQUEUED" and "\<not> can_transition_request (rq_status r) t"
  shows "\<exists>msg. finish_request env t event i w = (Inl (Exn InvalidRequestStateError msg), w)"
proof -
  obtain msg where "move_request env t r w = (Inl (Exn InvalidRequestStateError msg), w)"
    using move_request_refused [OF assms(5)] by blast
  then show ?thesis using assms(1,3,4) get [OF assms(2), of i]
    by (simp add: finish_request_def get_request_def py_bind_split)
qed

lemma finish_unknown:
  "qe_repo env = R \<Longrightarrow> ok (qw_db w) \<Longrightarrow> requests (qw_db w) i = None \<Longrightarrow> finish_request env t event i w = (Inr (), w)"
  using get [of "qw_db w" i] by (simp add: finish_request_def get_request_def py_bind_split)

lemma submit_new:
  assumes "qe_repo env = R" and "request_events_quiet env" and "ok (qw_db w)" and "ws \<noteq> []" and "loc \<noteq> []"
    and "requests (qw_db w) (qe_uid env (qw_ticks w)) = None" and "\<forall>d r db. qe_dedup env = Some d \<longrightarrow> rq_workspace_id r = ws \<longrightarrow> rq_location r = loc \<longrightarrow> d r db = (Inr False, db)"
  shows "\<exists>r w'. submit_request env ws loc prio payload w = (Inr r, w') \<and> ok (qw_db w') \<and>
    rq_request_id r = qe_uid env (qw_ticks w) \<and> rq_status r = REQ_PENDING \<and> rq_retries r = 0 \<and> rq_priority r = prio \<and>
    rq_workspace_id r = ws \<and> rq_location r = loc \<and>
    requests (qw_db w') = (requests (qw_db w))(rq_request_id r := Some r)"
proof -
  define r where "r = \<lparr>rq_workspace_id = ws, rq_location = loc, rq_request_id = qe_uid env (qw_ticks w), rq_priority = prio,
       rq_status = REQ_PENDING, rq_payload = (case payload of None \<Rightarrow> [] | Some p \<Rightarrow> p), rq_created_at = qe_now env (qw_ticks w),
       rq_started_at = None, rq_completed_at = None, rq_retries = 0, rq_max_retries = 3\<rparr>"
  have new: "new_request ws loc prio (case payload of None \<Rightarrow> [] | Some p \<Rightarrow> p) (qe_uid env (qw_ticks w)) (qe_now env (qw_ticks w)) = Inr r"
    using assms(4) by (simp add: new_request_def request_post_init_def r_def)
  obtain db' where db': "rr_create R r (qw_db w) = (Inr r, db')" "ok db'" "requests db' = (requests (qw_db w))(rq_request_id r := Some r)"
    using create [OF assms(3), of r] assms(6) by (auto simp: r_def)
  have dedup: "(case qe_dedup env of None \<Rightarrow> py_return False | Some d \<Rightarrow> on_requests (d r)) (w\<lparr>qw_ticks := Suc (qw_ticks w)\<rparr>) =
      (Inr False, w\<lparr>qw_ticks := Suc (qw_ticks w)\<rparr>)"
    using assms(7) by (cases "qe_dedup env") (simp_all add: r_def)
  have "\<exists>w'. submit_request env ws loc prio payload w = (Inr r, w') \<and> qw_db w' = db'"
    using assms(1,4,5) new db'(1) dedup quiet_emit [OF assms(2)]
    by (simp add: submit_request_def py_bind_split)
  moreover have "rq_request_id r = qe_uid env (qw_ticks w) \<and> rq_status r = REQ_PENDING \<and> rq_retries r = 0 \<and> rq_priority r = prio \<and>
    rq_workspace_id r = ws \<and> rq_location r = loc" by (simp add: r_def)
  ultimately show ?thesis using db' by (intro exI [of _ r]) auto
qed

lemma stop_cancels:
  assumes "qe_repo env = R" and "request_events_quiet env" and "ok (qw_db w)"
  shows "\<exists>w'. stop_queue env w = (Inr (), w') \<and> ok (qw_db w') \<and> pending_requests (requests (qw_db w')) = {} \<and>
    (\<forall>i. \<not> (\<exists>r. requests (qw_db w) i = Some r \<and> rq_status r = REQ_PENDING) \<longrightarrow> requests (qw_db w') i = requests (qw_db w) i) \<and>
    (\<forall>i r. requests (qw_db w) i = Some r \<longrightarrow> rq_status r = REQ_PENDING \<longrightarrow>
      (\<exists>now. requests (qw_db w') i = Some (moved now REQ_CANCELLED r)))"
proof -
  let ?P = "pending_requests (requests (qw_db w))"
  obtain rs where rs: "rr_list_pending R (qw_db w) = (Inr rs, qw_db w)" "distinct rs" "set rs = ?P"
    using list_pending [OF assms(3)] by blast
  have ids: "pending_ids env w = (Inr (map rq_request_id rs), w)"
    unfolding pending_ids_def py_bind_split on_requests_app assms(1) rs(1) by simp
  have "inj_on rq_request_id ?P"
  proof (rule inj_onI)
    fix x y assume "x \<in> ?P" "y \<in> ?P" "rq_request_id x = rq_request_id y"
    then have "Some x = Some y" unfolding pending_requests_def by (metis (mono_tags, lifting) mem_Collect_eq)
    then show "x = y" by simp
  qed
  then have dist: "distinct (map rq_request_id rs)" using rs(2,3) by (simp add: distinct_map)
  have in_ids: "i \<in> set (map rq_request_id rs) \<longleftrightarrow> (\<exists>r. requests (qw_db w) i = Some r \<and> rq_status r = REQ_PENDING)" for i
  proof
    assume "i \<in> set (map rq_request_id rs)"
    then obtain r where "r \<in> ?P" "i = rq_request_id r" using rs(3) by auto
    then show "\<exists>r. requests (qw_db w) i = Some r \<and> rq_status r = REQ_PENDING" by (auto simp: pending_requests_def)
  next
    assume "\<exists>r. requests (qw_db w) i = Some r \<and> rq_status r = REQ_PENDING"
    then obtain r where r: "requests (qw_db w) i = Some r" "rq_status r = REQ_PENDING" by blast
    then have "rq_request_id r = i" using keyed [OF assms(3)] by blast
    with r have "r \<in> set rs" using rs(3) by (simp add: pending_requests_def)
    with \<open>rq_request_id r = i\<close> show "i \<in> set (map rq_request_id rs)" by force
  qed
  have live: "\<forall>i \<in> set (map rq_request_id rs). \<exists>r. requests (qw_db w) i = Some r \<and> \<not> request_is_terminal r"
    using in_ids by (fastforce simp: request_is_terminal_def)
  obtain w' where w': "py_for (map rq_request_id rs) (\<lambda>i. py_bind (cancel_request env i) (\<lambda>_. py_return ())) w = (Inr (), w')" "ok (qw_db w')"
    "\<forall>i. i \<notin> set (map rq_request_id rs) \<longrightarrow> requests (qw_db w') i = requests (qw_db w) i"
    "\<forall>i \<in> set (map rq_request_id rs). \<exists>r now. requests (qw_db w) i = Some r \<and> requests (qw_db w') i = Some (moved now REQ_CANCELLED r)"
    using cancel_all [OF assms dist live] by blast
  have "stop_queue env w = (Inr (), w')" using ids w'(1) by (simp add: stop_queue_def)
  moreover have same: "\<forall>i. \<not> (\<exists>r. requests (qw_db w) i = Some r \<and> rq_status r = REQ_PENDING) \<longrightarrow> requests (qw_db w') i = requests (qw_db w) i"
    using w'(3) in_ids by blast
  moreover have gone: "\<forall>i r. requests (qw_db w) i = Some r \<longrightarrow> rq_status r = REQ_PENDING \<longrightarrow>
      (\<exists>now. requests (qw_db w') i = Some (moved now REQ_CANCELLED r))"
    using w'(4) in_ids by (metis option.inject)
  moreover have "pending_requests (requests (qw_db w')) = {}"
  proof -
    have "r \<notin> pending_requests (requests (qw_db w'))" for r
    proof
      assume "r \<in> pending_requests (requests (qw_db w'))"
      then have r: "requests (qw_db w') (rq_request_id r) = Some r" "rq_status r = REQ_PENDING" by (simp_all add: pending_requests_def)
      show False
      proof (cases "rq_request_id r \<in> set (map rq_request_id rs)")
        case True
        with w'(4) r show False by fastforce
      next
        case False
        with w'(3) in_ids r show False by metis
      qed
    qed
    then show ?thesis by blast
  qed
  ultimately show ?thesis using w'(2) by blast
qed

end

end
