(* ===== verification/Import_Memory.thy ===== *)
theory Import_Memory
  imports Import_Queue
begin

text \<open>
  The import queue over a repository: the dictionary of requests the repository's tests implement the
  protocol with, its \<open>interpretation\<close> of the contract, and the properties of the service over it.
  The last section bounds the retries of a request.
\<close>

section \<open>A repository in a dictionary\<close>

type_synonym request_store = "(string, import_request) dict"

definition put_request :: "import_request \<Rightarrow> (request_store, import_request) py" where
  "put_request r = py_bind (py_modify (dict_set (rq_request_id r) r)) (\<lambda>_. py_return r)"

definition lookup_request :: "string \<Rightarrow> (request_store, import_request option) py" where
  "lookup_request i = py_read (\<lambda>d. dict_get d i)"

definition stored_pending :: "(request_store, import_request list) py" where
  "stored_pending = py_read (\<lambda>d. filter (\<lambda>r. rq_status r = REQ_PENDING) (dict_values d))"

definition stored_count :: "(request_store, int) py" where
  "stored_count = py_read (\<lambda>d. int (length (filter (\<lambda>r. rq_status r = REQ_PENDING) (dict_values d))))"

definition memory_repo :: "request_store request_repo" where
  "memory_repo = \<lparr>rr_create = put_request, rr_get_by_id = lookup_request, rr_update = put_request,
     rr_list_pending = stored_pending, rr_count_pending = stored_count\<rparr>"

definition store_ok :: "request_store \<Rightarrow> bool" where
  "store_ok d = (dict_wf d \<and> (\<forall>(i, r) \<in> set d. rq_request_id r = i))"

lemma store_okD: "store_ok d \<Longrightarrow> dict_get d i = Some r \<Longrightarrow> rq_request_id r = i"
  unfolding store_ok_def by (metis (mono_tags, lifting) case_prodD map_of_SomeD)

lemma store_ok_set: "store_ok d \<Longrightarrow> store_ok (dict_set (rq_request_id r) r d)"
  using set_dict_set [of "rq_request_id r" r d] by (auto simp: store_ok_def)

lemma store_values:
  assumes "store_ok d"
  shows "distinct (dict_values d) \<and> set (dict_values d) = {r. dict_get d (rq_request_id r) = Some r}"
proof
  have ids: "map rq_request_id (dict_values d) = dict_keys d"
    using assms by (auto simp: store_ok_def)
  then show "distinct (dict_values d)" using assms unfolding store_ok_def dict_wf_def by (metis distinct_map)
  have "r \<in> set (dict_values d) \<longleftrightarrow> dict_get d (rq_request_id r) = Some r" for r
  proof -
    have "r \<in> set (dict_values d) \<longleftrightarrow> (rq_request_id r, r) \<in> set d" using assms by (force simp: store_ok_def)
    also have "\<dots> \<longleftrightarrow> dict_get d (rq_request_id r) = Some r" using assms by (simp add: store_ok_def dict_get_mem)
    finally show ?thesis .
  qed
  then show "set (dict_values d) = {r. dict_get d (rq_request_id r) = Some r}" by blast
qed

lemma store_pending:
  assumes "store_ok d"
  shows "distinct (filter (\<lambda>r. rq_status r = REQ_PENDING) (dict_values d)) \<and>
    set (filter (\<lambda>r. rq_status r = REQ_PENDING) (dict_values d)) = pending_requests (dict_get d)"
  using store_values [OF assms] by (auto simp: pending_requests_def)

interpretation memory: request_repository memory_repo dict_get store_ok
proof unfold_locales
  fix d :: request_store and i r
  assume ok: "store_ok d"
  show "dict_get d i = Some r \<Longrightarrow> rq_request_id r = i" by (rule store_okD [OF ok])
  show "rr_get_by_id memory_repo i d = (Inr (dict_get d i), d)" by (simp add: memory_repo_def lookup_request_def)
  show "\<exists>d'. rr_create memory_repo r d = (Inr r, d') \<and> store_ok d' \<and> dict_get d' = (dict_get d)(rq_request_id r := Some r)"
    using store_ok_set [OF ok] by (auto simp: memory_repo_def put_request_def fun_eq_iff)
  then show "\<exists>d'. rr_update memory_repo r d = (Inr r, d') \<and> store_ok d' \<and> dict_get d' = (dict_get d)(rq_request_id r := Some r)"
    by (simp add: memory_repo_def)
  show "\<exists>rs. rr_list_pending memory_repo d = (Inr rs, d) \<and> distinct rs \<and> set rs = pending_requests (dict_get d)"
    using store_pending [OF ok] by (simp add: memory_repo_def stored_pending_def)
  show "rr_count_pending memory_repo d = (Inr (int (card (pending_requests (dict_get d)))), d)"
    using store_pending [OF ok] unfolding memory_repo_def stored_count_def by (metis distinct_card py_read_app request_repo.select_convs(5))
qed

section \<open>Retries\<close>

text \<open>What can happen to one request: a transition is requested at some time, or \<open>retry()\<close> is called.\<close>

datatype request_ask = AskMove int request_status | AskRetry

fun request_call :: "request_ask \<Rightarrow> (import_request, unit) py" where
  "request_call (AskMove now t) = request_transition_to now t"
| "request_call AskRetry = request_retry"

fun retries_granted :: "request_ask list \<Rightarrow> import_request \<Rightarrow> nat" where
  "retries_granted [] r = 0"
| "retries_granted (c # cs) r =
    (if c = AskRetry \<and> fst (request_call c r) = Inr () then 1 else 0) + retries_granted cs (snd (request_call c r))"

lemma request_retry_cases:
  "request_retry r = (if request_can_retry r then (Inr (), r\<lparr>rq_status := REQ_PENDING, rq_retries := rq_retries r + 1\<rparr>)
    else (Inl (Exn ValueError ''Request cannot be retried''), r))"
  by (simp add: request_retry_def py_bind_split)

lemma request_call_retries:
  "rq_max_retries (snd (request_call c r)) = rq_max_retries r"
  "rq_retries (snd (request_call c r)) = rq_retries r + (if c = AskRetry \<and> fst (request_call c r) = Inr () then 1 else 0)"
  by (cases c; simp add: request_transition_cases request_retry_cases)+

lemma retries_granted_bound:
  "rq_retries r \<le> rq_max_retries r \<Longrightarrow>
    int (retries_granted cs r) = rq_retries (try_moves request_call cs r) - rq_retries r \<and>
    rq_retries (try_moves request_call cs r) \<le> rq_max_retries r"
proof (induction cs arbitrary: r)
  case Nil
  then show ?case by simp
next
  case (Cons c cs)
  let ?r = "snd (request_call c r)"
  have le: "rq_retries ?r \<le> rq_max_retries ?r"
    using Cons.prems by (cases c) (auto simp: request_transition_cases request_retry_cases request_can_retry_def)
  show ?case
    using Cons.IH [OF le] request_call_retries [where c = c and r = r] by auto
qed

section \<open>Properties\<close>

text \<open>C9: 
  \<open>dequeue\<close> takes, of the pending requests, one of the highest priority, and of those the first the
  repository lists; it is stored as dequeued and nothing else changes. With nothing pending it returns
  None and changes nothing.
\<close>

theorem dequeue_serves_best:
  fixes w :: "(request_store, 'b) request_world"
  assumes "qe_repo env = memory_repo" and "request_events_quiet env" and "store_ok (qw_db w)"
  shows "let P = pending_requests (dict_get (qw_db w)) in
    if P = {} then dequeue_request env w = (Inr None, w)
    else \<exists>r \<in> P. (\<forall>s \<in> P. rq_priority s \<le> rq_priority r) \<and>
      r = hd (filter (\<lambda>s. rq_status s = REQ_PENDING \<and> rq_priority s = rq_priority r) (dict_values (qw_db w))) \<and>
      (let r' = moved (qe_now env (qw_ticks w)) REQ_DEQUEUED r in
       \<exists>w'. dequeue_request env w = (Inr (Some r'), w') \<and> store_ok (qw_db w') \<and>
         dict_get (qw_db w') = (dict_get (qw_db w))(rq_request_id r := Some r'))"
proof (cases "pending_requests (dict_get (qw_db w)) = {}")
  case True
  then show ?thesis using memory.dequeue_empty [OF assms(1,3)] by (simp add: Let_def)
next
  case False
  let ?rs = "filter (\<lambda>r. rq_status r = REQ_PENDING) (dict_values (qw_db w))"
  have "rr_list_pending memory_repo (qw_db w) = (Inr ?rs, qw_db w)" by (simp add: memory_repo_def stored_pending_def)
  from memory.dequeue_some [OF assms this False] obtain r w' where
    "r \<in> pending_requests (dict_get (qw_db w))" "\<forall>s \<in> pending_requests (dict_get (qw_db w)). rq_priority s \<le> rq_priority r"
    "r = hd (filter (\<lambda>s. rq_priority s = rq_priority r) ?rs)"
    "dequeue_request env w = (Inr (Some (moved (qe_now env (qw_ticks w)) REQ_DEQUEUED r)), w')" "store_ok (qw_db w')"
    "dict_get (qw_db w') = (dict_get (qw_db w))(rq_request_id r := Some (moved (qe_now env (qw_ticks w)) REQ_DEQUEUED r))"
    by (elim exE conjE)
  then show ?thesis using False unfolding Let_def by (auto simp: conj_commute intro!: bexI [of _ r])
qed

text \<open>
  \<open>cancel\<close> cancels every request that is not in a terminal state, one that is being processed included;
  otherwise (an unknown identifier, or a completed, failed or cancelled request) it returns False and
  changes nothing.
\<close>

theorem cancel_request_scope:
  fixes w :: "(request_store, 'b) request_world"
  assumes "qe_repo env = memory_repo" and "request_events_quiet env" and "store_ok (qw_db w)"
  shows "case dict_get (qw_db w) i of
      None \<Rightarrow> cancel_request env i w = (Inr False, w)
    | Some r \<Rightarrow>
        if rq_status r \<in> {REQ_PENDING, REQ_DEQUEUED, REQ_PROCESSING}
        then \<exists>w'. cancel_request env i w = (Inr True, w') \<and> store_ok (qw_db w') \<and>
          dict_get (qw_db w') = (dict_get (qw_db w))(i := Some (moved (qe_now env (qw_ticks w)) REQ_CANCELLED r))
        else cancel_request env i w = (Inr False, w)"
proof (cases "dict_get (qw_db w) i")
  case None
  then show ?thesis using memory.cancel_nothing [OF assms(1,3)] by simp
next
  case (Some r)
  have live: "rq_status r \<in> {REQ_PENDING, REQ_DEQUEUED, REQ_PROCESSING} \<longleftrightarrow> \<not> request_is_terminal r"
    by (cases "rq_status r") (simp_all add: request_is_terminal_def)
  show ?thesis
  proof (cases "request_is_terminal r")
    case True
    then have "cancel_request env i w = (Inr False, w)" using memory.cancel_nothing [OF assms(1,3)] Some by simp
    with True live show ?thesis unfolding Some by auto
  next
    case False
    with memory.cancel_live [OF assms Some] live show ?thesis unfolding Some by auto
  qed
qed

text \<open>
  \<open>mark_completed\<close> by the state of the request: a dequeued one is first moved to processing, one in
  processing is completed, an unknown one is ignored, and for every other state (pending and failed
  included) it raises and changes nothing.
\<close>

theorem mark_completed_outcome:
  fixes w :: "(request_store, 'b) request_world"
  assumes "qe_repo env = memory_repo" and "request_events_quiet env" and "store_ok (qw_db w)"
  shows "case dict_get (qw_db w) i of
      None \<Rightarrow> mark_completed env i doc h w = (Inr (), w)
    | Some r \<Rightarrow>
        if rq_status r = REQ_DEQUEUED
        then \<exists>w'. mark_completed env i doc h w = (Inr (), w') \<and>
          dict_get (qw_db w') = (dict_get (qw_db w))(i := Some (moved (qe_now env (Suc (qw_ticks w))) REQ_COMPLETED
            (moved (qe_now env (qw_ticks w)) REQ_PROCESSING r)))
        else if rq_status r = REQ_PROCESSING
        then \<exists>w'. mark_completed env i doc h w = (Inr (), w') \<and>
          dict_get (qw_db w') = (dict_get (qw_db w))(i := Some (moved (qe_now env (qw_ticks w)) REQ_COMPLETED r))
        else \<exists>msg. mark_completed env i doc h w = (Inl (Exn InvalidRequestStateError msg), w)"
proof (cases "dict_get (qw_db w) i")
  case None
  then show ?thesis using memory.finish_unknown [OF assms(1,3)] by (simp add: mark_completed_def)
next
  case (Some r)
  have can: "can_transition_request REQ_PROCESSING REQ_COMPLETED" by (simp add: can_transition_request_def)
  consider "rq_status r = REQ_DEQUEUED" | "rq_status r = REQ_PROCESSING"
    | "rq_status r \<noteq> REQ_DEQUEUED" "rq_status r \<noteq> REQ_PROCESSING" by blast
  then show ?thesis
  proof cases
    case 1
    with memory.finish_dequeued [OF assms Some 1 can] show ?thesis unfolding Some mark_completed_def by fastforce
  next
    case 2
    with memory.finish_allowed [OF assms Some _ , of REQ_COMPLETED] can show ?thesis
      unfolding Some mark_completed_def by fastforce
  next
    case 3
    then have "\<not> can_transition_request (rq_status r) REQ_COMPLETED"
      by (cases "rq_status r") (simp_all add: can_transition_request_def)
    with memory.finish_refused [OF assms(1,3) Some 3(1)] 3 show ?thesis unfolding Some mark_completed_def by simp
  qed
qed

text \<open>
  \<open>submit\<close>: an empty workspace or location raises before anything is stored or emitted; a request the
  strategy calls a duplicate is refused with the repository unchanged; any other is stored, pending,
  under the fresh identifier, and returned.
\<close>

theorem submit_request_outcome:
  fixes w :: "(request_store, 'b) request_world"
  assumes "qe_repo env = memory_repo" and "request_events_quiet env" and "store_ok (qw_db w)"
    and "dict_get (qw_db w) (qe_uid env (qw_ticks w)) = None"
    and "qe_dedup env = Some (\<lambda>r. py_return (dup (rq_workspace_id r) (rq_location r)))"
  shows "if ws = [] \<or> loc = [] then \<exists>msg. submit_request env ws loc prio payload w = (Inl (Exn ValueError msg), w)
    else if dup ws loc
    then \<exists>w'. submit_request env ws loc prio payload w = (Inl (Exn DuplicateRequestError (''Duplicate import request for '' @ loc)), w') \<and>
      qw_db w' = qw_db w \<and> qw_sink w' = snd (qe_emit env (DuplicateRejected ws loc ''duplicate-detected'') (qw_sink w))
    else \<exists>r w'. submit_request env ws loc prio payload w = (Inr r, w') \<and> store_ok (qw_db w') \<and>
      rq_request_id r = qe_uid env (qw_ticks w) \<and> rq_status r = REQ_PENDING \<and> rq_retries r = 0 \<and> rq_priority r = prio \<and>
      rq_workspace_id r = ws \<and> rq_location r = loc \<and>
      dict_get (qw_db w') = (dict_get (qw_db w))(rq_request_id r := Some r)"
proof -
  consider "ws = [] \<or> loc = []" | "ws \<noteq> []" "loc \<noteq> []" "dup ws loc" | "ws \<noteq> []" "loc \<noteq> []" "\<not> dup ws loc" by blast
  then show ?thesis
  proof cases
    case 1
    then show ?thesis by (auto simp: submit_request_def)
  next
    case 2
    then show ?thesis using assms(5) quiet_emit [OF assms(2)]
      by (simp add: submit_request_def py_bind_split new_request_def request_post_init_def)
  next
    case 3
    have "\<forall>d r db. qe_dedup env = Some d \<longrightarrow> rq_workspace_id r = ws \<longrightarrow> rq_location r = loc \<longrightarrow> d r db = (Inr False, db)"
      using assms(5) 3(3) by simp
    from memory.submit_new [OF assms(1-3) 3(1,2) assms(4) this, of prio payload] 3 show ?thesis by simp
  qed
qed

text \<open>C32: 
  Stopping the plugin cancels exactly the requests that were pending: none is pending afterwards, and a
  request that was not pending (dequeued and processing ones included) is left as it was.
\<close>

theorem stop_queue_cancels_pending:
  fixes w :: "(request_store, 'b) request_world"
  assumes "qe_repo env = memory_repo" and "request_events_quiet env" and "store_ok (qw_db w)"
  shows "\<exists>w'. stop_queue env w = (Inr (), w') \<and> fst (pending_size env w') = Inr 0 \<and>
    (\<forall>i. case dict_get (qw_db w) i of
        None \<Rightarrow> dict_get (qw_db w') i = None
      | Some r \<Rightarrow> if rq_status r = REQ_PENDING then \<exists>now. dict_get (qw_db w') i = Some (moved now REQ_CANCELLED r)
          else dict_get (qw_db w') i = Some r)"
proof -
  obtain w' where w': "stop_queue env w = (Inr (), w')" "store_ok (qw_db w')" "pending_requests (dict_get (qw_db w')) = {}"
    "\<forall>i. \<not> (\<exists>r. dict_get (qw_db w) i = Some r \<and> rq_status r = REQ_PENDING) \<longrightarrow> dict_get (qw_db w') i = dict_get (qw_db w) i"
    "\<forall>i r. dict_get (qw_db w) i = Some r \<longrightarrow> rq_status r = REQ_PENDING \<longrightarrow>
      (\<exists>now. dict_get (qw_db w') i = Some (moved now REQ_CANCELLED r))"
    using memory.stop_cancels [OF assms] by (elim exE conjE)
  have "fst (pending_size env w') = Inr 0"
    using memory.count_pending [OF w'(2)] w'(3) assms(1) by (simp add: pending_size_def)
  moreover have "case dict_get (qw_db w) i of None \<Rightarrow> dict_get (qw_db w') i = None
      | Some r \<Rightarrow> if rq_status r = REQ_PENDING then \<exists>now. dict_get (qw_db w') i = Some (moved now REQ_CANCELLED r)
          else dict_get (qw_db w') i = Some r" for i
    using w'(4,5) by (cases "dict_get (qw_db w) i") simp_all
  ultimately show ?thesis using w'(1) by blast
qed

text \<open>
  However transitions and calls of \<open>retry()\<close> are interleaved, refused ones included, \<open>retry()\<close> is granted at
  most as often as the request has retries left, and the counter never passes the maximum.
\<close>

theorem request_retries_bounded:
  assumes "rq_retries r \<le> rq_max_retries r"
  shows "int (retries_granted calls r) \<le> rq_max_retries r - rq_retries r \<and>
    rq_retries (try_moves request_call calls r) = rq_retries r + int (retries_granted calls r)"
  using retries_granted_bound [OF assms, of calls] by simp

section \<open>Witnesses\<close>

definition sample_request :: "string \<Rightarrow> int \<Rightarrow> request_status \<Rightarrow> import_request" where
  "sample_request i prio status =
     \<lparr>rq_workspace_id = ''ws'', rq_location = ''loc-'' @ i, rq_request_id = i, rq_priority = prio, rq_status = status,
      rq_payload = [], rq_created_at = 0, rq_started_at = None, rq_completed_at = None, rq_retries = 0, rq_max_retries = 3\<rparr>"

definition sample_queue :: "(request_store, request_event list) request_env" where
  "sample_queue = \<lparr>qe_repo = memory_repo, qe_dedup = Some (\<lambda>r. py_return (rq_location r = ''loc-a'')),
     qe_emit = (\<lambda>e. py_modify (\<lambda>es. es @ [e])), qe_now = int, qe_uid = (\<lambda>n. CHR ''n'' # nat_str n)\<rparr>"

definition sample_queue_world :: "(request_store, request_event list) request_world" where
  "sample_queue_world = \<lparr>qw_db = map (\<lambda>(i, p, s). (i, sample_request i p s))
     [(''a'', 1, REQ_PENDING), (''b'', 3, REQ_PENDING), (''c'', 3, REQ_PENDING), (''d'', 9, REQ_PROCESSING)],
     qw_sink = [], qw_ticks = 7\<rparr>"

lemma sample_queue_ok:
  "qe_repo sample_queue = memory_repo" "request_events_quiet sample_queue" "store_ok (qw_db sample_queue_world)"
  "qe_dedup sample_queue = Some (\<lambda>r. py_return (rq_location r = ''loc-a''))"
  by (simp_all add: sample_queue_def request_events_quiet_def sample_queue_world_def store_ok_def dict_wf_def sample_request_def)

lemma dequeue_serves_best_witness:
  "\<exists>r w'. dequeue_request sample_queue sample_queue_world = (Inr (Some r), w') \<and> rq_request_id r = ''b'' \<and> rq_status r = REQ_DEQUEUED"
proof -
  let ?P = "pending_requests (dict_get (qw_db sample_queue_world))"
  have P: "?P = {sample_request ''a'' 1 REQ_PENDING, sample_request ''b'' 3 REQ_PENDING, sample_request ''c'' 3 REQ_PENDING}"
    using store_pending [OF sample_queue_ok(3), THEN conjunct2] by (simp add: sample_queue_world_def sample_request_def)
  then have ne: "?P \<noteq> {}" by blast
  from dequeue_serves_best [OF sample_queue_ok(1-3)] ne obtain r w' where
    r: "r \<in> ?P" "\<forall>s \<in> ?P. rq_priority s \<le> rq_priority r"
      "r = hd (filter (\<lambda>s. rq_status s = REQ_PENDING \<and> rq_priority s = rq_priority r) (dict_values (qw_db sample_queue_world)))"
      "dequeue_request sample_queue sample_queue_world = (Inr (Some (moved (qe_now sample_queue (qw_ticks sample_queue_world)) REQ_DEQUEUED r)), w')"
    unfolding Let_def by auto
  have "3 \<le> rq_priority r" using r(2) unfolding P by (simp add: sample_request_def)
  then have three: "rq_priority r = 3" using r(1) unfolding P by (auto simp: sample_request_def)
  have "r = sample_request ''b'' 3 REQ_PENDING"
    using r(3) unfolding three by (simp add: sample_queue_world_def sample_request_def)
  then have "rq_request_id r = ''b''" by (simp add: sample_request_def)
  with r(4) show ?thesis by simp
qed

lemma cancel_request_scope_witness:
  "\<exists>w'. cancel_request sample_queue ''d'' sample_queue_world = (Inr True, w')"
  using cancel_request_scope [OF sample_queue_ok(1-3), of "''d''"]
  by (simp add: sample_queue_world_def sample_request_def) blast

lemma mark_completed_outcome_witness:
  "\<exists>msg. mark_completed sample_queue ''a'' [] [] sample_queue_world = (Inl (Exn InvalidRequestStateError msg), sample_queue_world)"
  using mark_completed_outcome [OF sample_queue_ok(1-3), of "''a''" "[]" "[]"]
  by (simp add: sample_queue_world_def sample_request_def)

lemma submit_request_outcome_witness:
  "\<exists>w'. submit_request sample_queue ''ws'' ''loc-a'' 1 None sample_queue_world =
    (Inl (Exn DuplicateRequestError ''Duplicate import request for loc-a''), w')"
  using submit_request_outcome [OF sample_queue_ok(1-3) _ sample_queue_ok(4) , of "''ws''" "''loc-a''" 1 None]
  by (simp add: sample_queue_world_def sample_queue_def nat_str.simps) blast

lemma stop_queue_cancels_pending_witness:
  "\<exists>w'. stop_queue sample_queue sample_queue_world = (Inr (), w') \<and> fst (pending_size sample_queue w') = Inr 0"
  using stop_queue_cancels_pending [OF sample_queue_ok(1-3)] by blast

lemma request_retries_bounded_witness:
  "int (retries_granted [AskRetry, AskMove 5 REQ_FAILED, AskRetry] (sample_request ''a'' 1 REQ_FAILED)) \<le> 3"
  using request_retries_bounded [of "sample_request ''a'' 1 REQ_FAILED" "[AskRetry, AskMove 5 REQ_FAILED, AskRetry]"]
  by (simp add: sample_request_def)

end
