(* ===== verification/Named_Registry.thy ===== *)
theory Named_Registry
  imports Prelude "HOL-Library.List_Lexorder" "HOL-Library.Char_ord"
begin

text \<open>
  The registries of the OCR packages: components are stored in a dictionary under a non-empty name, a
  later registration replaces an earlier one, an unknown name raises, and the names are listed
  sorted. The functions are what these classes have in common, the error messages are parameters;
  the locale states what their clients rely on.
\<close>

type_synonym 'v named = "(string, 'v) dict"

definition named_register :: "string \<Rightarrow> string \<Rightarrow> 'v \<Rightarrow> ('v named, unit) py" where
  "named_register msg name v =
     (if name = [] then py_raise ValueError msg else py_modify (dict_set name v))"

definition named_get :: "exn_class \<Rightarrow> (string \<Rightarrow> string) \<Rightarrow> 'v named \<Rightarrow> string \<Rightarrow> exn + 'v" where
  "named_get c msg d name = (case dict_get d name of None \<Rightarrow> Inl (Exn c (msg name)) | Some v \<Rightarrow> Inr v)"

definition named_names :: "'v named \<Rightarrow> string list" where
  "named_names d = sort (dict_keys d)"

locale named_registry =
  fixes register :: "string \<Rightarrow> 'v \<Rightarrow> ('r, unit) py"
    and goes_by :: "'v \<Rightarrow> string \<Rightarrow> bool"
    and find :: "'r \<Rightarrow> string \<Rightarrow> exn + 'v"
    and has :: "'r \<Rightarrow> string \<Rightarrow> bool"
    and names :: "'r \<Rightarrow> string list"
    and ok :: "'r \<Rightarrow> bool"
  assumes register_named: "ok r \<Longrightarrow> goes_by v n \<Longrightarrow> n \<noteq> [] \<Longrightarrow>
      \<exists>r'. register n v r = (Inr (), r') \<and> ok r' \<and> (\<forall>m. m \<noteq> n \<longrightarrow> (\<forall>w. find r' m = Inr w \<longleftrightarrow> find r m = Inr w)) \<and> find r' n = Inr v"
    and register_unnamed: "goes_by v [] \<Longrightarrow> isl (fst (register [] v r)) \<and> snd (register [] v r) = r"
    and has_iff: "has r n \<longleftrightarrow> \<not> isl (find r n)"
    and names_sorted: "ok r \<Longrightarrow> sorted (names r) \<and> distinct (names r) \<and> set (names r) = {n. has r n}"
begin

text \<open>Whatever is registered, refused or not, the registry stays well-formed.\<close>

lemma register_ok:
  assumes "ok r" and "goes_by v n"
  shows "ok (snd (register n v r))"
proof (cases "n = []")
  case True
  then show ?thesis using register_unnamed [of v r] assms by simp
next
  case False
  then obtain r' where "register n v r = (Inr (), r')" "ok r'" using register_named [OF assms] by blast
  then show ?thesis by simp
qed

lemma register_all_ok:
  "ok r \<Longrightarrow> \<forall>(n, v) \<in> set nvs. goes_by v n \<Longrightarrow> ok (fold (\<lambda>(n, v) r. snd (register n v r)) nvs r)"
  by (induction nvs arbitrary: r) (auto intro: register_ok)

text \<open>The last registration under a name wins.\<close>

lemma last_registration:
  assumes "ok r" and "n \<noteq> []" and "\<forall>(n, v) \<in> set nvs. goes_by v n" and "goes_by v n"
  shows "find (fold (\<lambda>(n, v) r. snd (register n v r)) (nvs @ [(n, v)]) r) n = Inr v"
proof -
  have "ok (fold (\<lambda>(n, v) r. snd (register n v r)) nvs r)" using assms(1,3) by (rule register_all_ok)
  from register_named [OF this assms(4,2)]
  obtain r' where r': "register n v (fold (\<lambda>(n, v) r. snd (register n v r)) nvs r) = (Inr (), r')" "find r' n = Inr v"
    by (elim exE conjE)
  show ?thesis unfolding fold_append o_apply by (simp add: r')
qed

lemma names_found: "ok r \<Longrightarrow> n \<in> set (names r) \<Longrightarrow> \<exists>v. find r n = Inr v"
  using names_sorted [of r] has_iff [of r n] by (cases "find r n") auto

end

lemma named_register_app:
  "n \<noteq> [] \<Longrightarrow> named_register msg n v d = (Inr (), dict_set n v d)"
  by (simp add: named_register_def)

lemma named_get_iff: "named_get c msg d n = Inr v \<longleftrightarrow> dict_get d n = Some v"
  by (simp add: named_get_def split: option.splits)

lemma named_names_spec: "dict_wf d \<Longrightarrow> sorted (named_names d) \<and> distinct (named_names d) \<and> set (named_names d) = {n. dict_has d n}"
  by (auto simp: named_names_def dict_wf_def dict_has_iff)

text \<open>A registry built from these functions fulfils the contract.\<close>

lemma named_registry_intro:
  fixes register :: "string \<Rightarrow> 'v \<Rightarrow> ('v named, unit) py"
  assumes "\<And>n v. goes_by v n \<Longrightarrow> register n v = named_register msg n v"
  shows "named_registry register goes_by (named_get c m) dict_has named_names dict_wf"
proof
  fix r :: "'v named" and n v
  show "dict_wf r \<Longrightarrow> goes_by v n \<Longrightarrow> n \<noteq> [] \<Longrightarrow> \<exists>r'. register n v r = (Inr (), r') \<and> dict_wf r' \<and>
      (\<forall>k. k \<noteq> n \<longrightarrow> (\<forall>w. named_get c m r' k = Inr w \<longleftrightarrow> named_get c m r k = Inr w)) \<and> named_get c m r' n = Inr v"
    by (simp add: assms named_register_app named_get_iff)
  show "goes_by v [] \<Longrightarrow> isl (fst (register [] v r)) \<and> snd (register [] v r) = r" by (simp add: assms named_register_def)
  show "dict_has r n \<longleftrightarrow> \<not> isl (named_get c m r n)" by (simp add: named_get_def dict_has_def split: option.splits)
  show "dict_wf r \<Longrightarrow> sorted (named_names r) \<and> distinct (named_names r) \<and> set (named_names r) = {n. dict_has r n}"
    by (rule named_names_spec)
qed

end
