(* ===== verification/Ocr_Cache.thy ===== *)
theory Ocr_Cache
  imports Complex_Main Named_Registry "HOL-Library.Word"
begin

text \<open>
  \<open>ocr/cache/\<close>: keys, options and statistics, the in-memory backend with its limits, the registry of
  backends and the service. An operation reads the clock at most once, so the time it runs at is an
  argument; the hash function is a parameter that may raise for an unknown algorithm. The locale
  \<open>cache_backend\<close> states what the service relies on in a backend: an entry may be dropped at any
  time, but what is found was stored, is fresh, and has not been invalidated since.
\<close>

section \<open>Values\<close>

record cache_key =
  ck_algorithm :: string
  ck_digest :: string

definition cache_key_init :: "string \<Rightarrow> string \<Rightarrow> exn + cache_key" where
  "cache_key_init algorithm digest =
     (if algorithm = [] then Inl (Exn ValueError ''algorithm must not be empty'')
      else if digest = [] then Inl (Exn ValueError ''digest must not be empty'')
      else Inr \<lparr>ck_algorithm = algorithm, ck_digest = digest\<rparr>)"

type_synonym hash_function = "string \<Rightarrow> 8 word list \<Rightarrow> exn + string"

definition key_from_bytes :: "hash_function \<Rightarrow> 8 word list \<Rightarrow> string \<Rightarrow> exn + cache_key" where
  "key_from_bytes hash data algorithm =
     (if data = [] then Inl (Exn ValueError ''data must not be empty'')
      else (case hash algorithm data of Inl e \<Rightarrow> Inl e | Inr digest \<Rightarrow> cache_key_init algorithm digest))"

record 'm cached_result =
  cr_key :: cache_key
  cr_text :: string
  cr_confidence :: real
  cr_created_at :: real
  cr_metadata :: "(string, 'm) dict"

definition cached_result_init :: "cache_key \<Rightarrow> string \<Rightarrow> real \<Rightarrow> real \<Rightarrow> (string, 'm) dict \<Rightarrow> exn + 'm cached_result" where
  "cached_result_init key text confidence now metadata =
     (if \<not> (0 \<le> confidence \<and> confidence \<le> 1) then Inl (Exn ValueError ''confidence must be between 0 and 1'')
      else Inr \<lparr>cr_key = key, cr_text = text, cr_confidence = confidence, cr_created_at = now, cr_metadata = metadata\<rparr>)"

record cache_options =
  co_ttl_seconds :: "int option"
  co_max_entries :: "int option"

definition cache_options_init :: "int option \<Rightarrow> int option \<Rightarrow> exn + cache_options" where
  "cache_options_init ttl max_entries =
     (if \<exists>t. ttl = Some t \<and> t \<le> 0 then Inl (Exn ValueError ''ttl_seconds must be positive'')
      else if \<exists>m. max_entries = Some m \<and> m \<le> 0 then Inl (Exn ValueError ''max_entries must be positive'')
      else Inr \<lparr>co_ttl_seconds = ttl, co_max_entries = max_entries\<rparr>)"

definition is_expired :: "cache_options \<Rightarrow> real \<Rightarrow> 'm cached_result \<Rightarrow> bool" where
  "is_expired opts now r =
     (case co_ttl_seconds opts of None \<Rightarrow> False | Some ttl \<Rightarrow> real_of_int ttl < now - cr_created_at r)"

record cache_stats =
  cs_hits :: int
  cs_misses :: int
  cs_size :: int

definition hit_rate :: "cache_stats \<Rightarrow> real" where
  "hit_rate s =
     (let total = cs_hits s + cs_misses s in
      if total = 0 then 0 else real_of_int (cs_hits s) / real_of_int total)"

section \<open>The in-memory backend\<close>

record 'm memory_cache =
  mc_options :: cache_options
  mc_store :: "(string, 'm cached_result) dict"
  mc_hits :: int
  mc_misses :: int

definition new_cache :: "cache_options \<Rightarrow> 'm memory_cache" where
  "new_cache opts = \<lparr>mc_options = opts, mc_store = [], mc_hits = 0, mc_misses = 0\<rparr>"

text \<open>\<open>while len(store) >= n: store.popitem(last=False)\<close>, which raises once the store is empty.\<close>

fun evict :: "int \<Rightarrow> ('k, 'v) dict \<Rightarrow> exn + ('k, 'v) dict" where
  "evict n [] = (if n \<le> 0 then Inl (Exn KeyError (quoted ''dictionary is empty'')) else Inr [])"
| "evict n (e # d) = (if n \<le> int (length (e # d)) then evict n d else Inr (e # d))"

definition cache_get :: "real \<Rightarrow> cache_key \<Rightarrow> ('m memory_cache, 'm cached_result option) py" where
  "cache_get now key =
     py_bind (py_read (\<lambda>c. (dict_get (mc_store c) (ck_digest key), mc_options c))) (\<lambda>(found, opts).
     case found of
       None \<Rightarrow> py_bind (py_modify (\<lambda>c. c\<lparr>mc_misses := mc_misses c + 1\<rparr>)) (\<lambda>_. py_return None)
     | Some r \<Rightarrow>
         if is_expired opts now r then
           py_bind (py_modify (\<lambda>c. c\<lparr>mc_store := dict_pop (ck_digest key) (mc_store c)\<rparr>)) (\<lambda>_.
           py_bind (py_modify (\<lambda>c. c\<lparr>mc_misses := mc_misses c + 1\<rparr>)) (\<lambda>_. py_return None))
         else
           py_bind (py_modify (\<lambda>c. c\<lparr>mc_hits := mc_hits c + 1\<rparr>)) (\<lambda>_. py_return (Some r)))"

definition cache_put :: "cache_key \<Rightarrow> 'm cached_result \<Rightarrow> ('m memory_cache, unit) py" where
  "cache_put key r =
     py_bind (py_read mc_options) (\<lambda>opts.
     py_bind (case co_max_entries opts of
         None \<Rightarrow> py_return ()
       | Some n \<Rightarrow>
           py_bind (py_read (\<lambda>c. evict n (mc_store c))) (\<lambda>evicted.
           py_bind (py_lift evicted) (\<lambda>d. py_modify (\<lambda>c. c\<lparr>mc_store := d\<rparr>)))) (\<lambda>_.
     py_modify (\<lambda>c. c\<lparr>mc_store := dict_set (ck_digest key) r (mc_store c)\<rparr>)))"

definition cache_has :: "real \<Rightarrow> cache_key \<Rightarrow> ('m memory_cache, bool) py" where
  "cache_has now key =
     py_bind (py_read (\<lambda>c. (dict_get (mc_store c) (ck_digest key), mc_options c))) (\<lambda>(found, opts).
     case found of
       None \<Rightarrow> py_return False
     | Some r \<Rightarrow>
         if is_expired opts now r then
           py_bind (py_modify (\<lambda>c. c\<lparr>mc_store := dict_pop (ck_digest key) (mc_store c)\<rparr>)) (\<lambda>_. py_return False)
         else py_return True)"

definition cache_invalidate :: "cache_key \<Rightarrow> ('m memory_cache, bool) py" where
  "cache_invalidate key =
     py_bind (py_read (\<lambda>c. dict_has (mc_store c) (ck_digest key))) (\<lambda>present.
     if present then py_bind (py_modify (\<lambda>c. c\<lparr>mc_store := dict_pop (ck_digest key) (mc_store c)\<rparr>)) (\<lambda>_. py_return True)
     else py_return False)"

definition cache_clear :: "('m memory_cache, unit) py" where
  "cache_clear = py_modify (\<lambda>c. c\<lparr>mc_store := [], mc_hits := 0, mc_misses := 0\<rparr>)"

definition cache_statistics :: "real \<Rightarrow> ('m memory_cache, cache_stats) py" where
  "cache_statistics now = py_read (\<lambda>c.
     \<lparr>cs_hits = mc_hits c, cs_misses = mc_misses c,
      cs_size = int (length (filter (\<lambda>r. case co_ttl_seconds (mc_options c) of None \<Rightarrow> True
        | Some ttl \<Rightarrow> now - cr_created_at r \<le> real_of_int ttl) (dict_values (mc_store c))))\<rparr>)"

section \<open>The registry of backends\<close>

definition backends_register :: "string \<Rightarrow> 'b \<Rightarrow> ('b named, unit) py" where
  "backends_register = named_register ''name must not be empty''"

definition backends_get :: "'b named \<Rightarrow> string \<Rightarrow> exn + 'b" where
  "backends_get = named_get OcrCacheBackendNotFoundError (\<lambda>n. ''No OCR cache backend registered under '' @ quoted n)"

definition backends_has :: "'b named \<Rightarrow> string \<Rightarrow> bool" where
  "backends_has = dict_has"

definition backends_names :: "'b named \<Rightarrow> string list" where
  "backends_names = named_names"

interpretation cache_backends: named_registry backends_register "\<lambda>_ _. True" backends_get backends_has backends_names dict_wf
  unfolding backends_get_def backends_has_def backends_names_def
  by (rule named_registry_intro) (simp add: backends_register_def)

section \<open>The service\<close>

datatype cache_event = OcrCacheHit string | OcrCacheMiss string | OcrCacheStored string

record ('s, 'm) cache_ops =
  cb_get :: "real \<Rightarrow> cache_key \<Rightarrow> ('s, 'm cached_result option) py"
  cb_put :: "cache_key \<Rightarrow> 'm cached_result \<Rightarrow> ('s, unit) py"
  cb_has :: "real \<Rightarrow> cache_key \<Rightarrow> ('s, bool) py"
  cb_invalidate :: "cache_key \<Rightarrow> ('s, bool) py"
  cb_clear :: "('s, unit) py"
  cb_stats :: "real \<Rightarrow> ('s, cache_stats) py"

definition memory_backend :: "('m memory_cache, 'm) cache_ops" where
  "memory_backend = \<lparr>cb_get = cache_get, cb_put = cache_put, cb_has = cache_has, cb_invalidate = cache_invalidate,
     cb_clear = cache_clear, cb_stats = cache_statistics\<rparr>"

record ('s, 'm, 'b) cache_env =
  ce_backend :: "('s, 'm) cache_ops"
  ce_emit :: "cache_event \<Rightarrow> ('b, unit) py"
  ce_algorithm :: string
  ce_hash :: hash_function

type_synonym ('s, 'b, 'a) cache_py = "('s \<times> 'b, 'a) py"

definition on_backend :: "('s, 'a) py \<Rightarrow> ('s, 'b, 'a) cache_py" where
  "on_backend = py_on fst (\<lambda>s w. (s, snd w))"

definition cache_emit :: "('s, 'm, 'b) cache_env \<Rightarrow> cache_event \<Rightarrow> ('s, 'b, unit) cache_py" where
  "cache_emit env e = py_on snd (\<lambda>b w. (fst w, b)) (ce_emit env e)"

definition key_from_data :: "('s, 'm, 'b) cache_env \<Rightarrow> 8 word list \<Rightarrow> exn + cache_key" where
  "key_from_data env data = key_from_bytes (ce_hash env) data (ce_algorithm env)"

definition service_cache_get :: "('s, 'm, 'b) cache_env \<Rightarrow> real \<Rightarrow> 8 word list \<Rightarrow> ('s, 'b, 'm cached_result option) cache_py" where
  "service_cache_get env now data =
     py_bind (py_lift (key_from_data env data)) (\<lambda>key.
     py_bind (on_backend (cb_get (ce_backend env) now key)) (\<lambda>found.
     case found of
       Some r \<Rightarrow> py_bind (cache_emit env (OcrCacheHit (ck_digest key))) (\<lambda>_. py_return (Some r))
     | None \<Rightarrow> py_bind (cache_emit env (OcrCacheMiss (ck_digest key))) (\<lambda>_. py_return None)))"

definition service_cache_put ::
    "('s, 'm, 'b) cache_env \<Rightarrow> real \<Rightarrow> 8 word list \<Rightarrow> string \<Rightarrow> real \<Rightarrow> (string, 'm) dict option \<Rightarrow> ('s, 'b, 'm cached_result) cache_py" where
  "service_cache_put env now data text confidence metadata =
     py_bind (py_lift (key_from_data env data)) (\<lambda>key.
     py_bind (py_lift (cached_result_init key text confidence now (case metadata of None \<Rightarrow> [] | Some d \<Rightarrow> d))) (\<lambda>r.
     py_bind (on_backend (cb_put (ce_backend env) key r)) (\<lambda>_.
     py_bind (cache_emit env (OcrCacheStored (ck_digest key))) (\<lambda>_.
     py_return r))))"

definition service_cache_has :: "('s, 'm, 'b) cache_env \<Rightarrow> real \<Rightarrow> 8 word list \<Rightarrow> ('s, 'b, bool) cache_py" where
  "service_cache_has env now data =
     py_bind (py_lift (key_from_data env data)) (\<lambda>key. on_backend (cb_has (ce_backend env) now key))"

definition service_cache_invalidate :: "('s, 'm, 'b) cache_env \<Rightarrow> 8 word list \<Rightarrow> ('s, 'b, bool) cache_py" where
  "service_cache_invalidate env data =
     py_bind (py_lift (key_from_data env data)) (\<lambda>key. on_backend (cb_invalidate (ce_backend env) key))"

definition service_cache_clear :: "('s, 'm, 'b) cache_env \<Rightarrow> ('s, 'b, unit) cache_py" where
  "service_cache_clear env = on_backend (cb_clear (ce_backend env))"

definition service_cache_stats :: "('s, 'm, 'b) cache_env \<Rightarrow> real \<Rightarrow> ('s, 'b, cache_stats) cache_py" where
  "service_cache_stats env now = on_backend (cb_stats (ce_backend env) now)"

section \<open>What the service relies on\<close>

locale cache_backend =
  fixes B :: "('s, 'm) cache_ops"
    and live :: "'s \<Rightarrow> real \<Rightarrow> string \<Rightarrow> 'm cached_result option"
    and fresh :: "real \<Rightarrow> 'm cached_result \<Rightarrow> bool"
    and ok :: "'s \<Rightarrow> bool"
  assumes get: "ok s \<Longrightarrow> \<exists>s'. cb_get B now k s = (Inr (live s now (ck_digest k)), s') \<and> ok s' \<and>
      (\<forall>t d. live s' t d \<in> {None, live s t d}) \<and> (\<forall>t d. now \<le> t \<longrightarrow> live s' t d = live s t d)"
    and has: "ok s \<Longrightarrow> \<exists>s'. cb_has B now k s = (Inr (live s now (ck_digest k) \<noteq> None), s') \<and> ok s' \<and>
      (\<forall>t d. live s' t d \<in> {None, live s t d}) \<and> (\<forall>t d. now \<le> t \<longrightarrow> live s' t d = live s t d)"
    and put: "ok s \<Longrightarrow> \<exists>s'. cb_put B k r s = (Inr (), s') \<and> ok s' \<and>
      (\<forall>t. live s' t (ck_digest k) = (if fresh t r then Some r else None)) \<and>
      (\<forall>t d. d \<noteq> ck_digest k \<longrightarrow> live s' t d \<in> {None, live s t d})"
    and invalidate: "ok s \<Longrightarrow> \<exists>s' b. cb_invalidate B k s = (Inr b, s') \<and> ok s' \<and> (\<forall>t. live s' t (ck_digest k) = None) \<and>
      (\<forall>t d. d \<noteq> ck_digest k \<longrightarrow> live s' t d = live s t d)"
    and clear: "ok s \<Longrightarrow> \<exists>s'. cb_clear B s = (Inr (), s') \<and> ok s' \<and> (\<forall>t d. live s' t d = None)"
    and stats: "ok s \<Longrightarrow> \<exists>st. cb_stats B now s = (Inr st, s)"

text \<open>
  A caller's use of the cache, one call after the other, whether a call returns or raises, and the
  map of what was stored last and not withdrawn.
\<close>

datatype 'm cache_call =
    Call_Get real "8 word list"
  | Call_Put real "8 word list" string real "(string, 'm) dict option"
  | Call_Has real "8 word list"
  | Call_Invalidate "8 word list"
  | Call_Clear
  | Call_Stats real

fun cache_step :: "('s, 'm, 'b) cache_env \<Rightarrow> 'm cache_call \<Rightarrow> 's \<times> 'b \<Rightarrow> 's \<times> 'b" where
  "cache_step env (Call_Get now data) w = snd (service_cache_get env now data w)"
| "cache_step env (Call_Put now data text conf md) w = snd (service_cache_put env now data text conf md w)"
| "cache_step env (Call_Has now data) w = snd (service_cache_has env now data w)"
| "cache_step env (Call_Invalidate data) w = snd (service_cache_invalidate env data w)"
| "cache_step env Call_Clear w = snd (service_cache_clear env w)"
| "cache_step env (Call_Stats now) w = snd (service_cache_stats env now w)"

fun stored_step :: "('s, 'm, 'b) cache_env \<Rightarrow> 'm cache_call \<Rightarrow> (string \<Rightarrow> 'm cached_result option) \<Rightarrow> string \<Rightarrow> 'm cached_result option" where
  "stored_step env (Call_Put now data text conf md) m =
     (case key_from_data env data of Inl _ \<Rightarrow> m
      | Inr k \<Rightarrow> (case cached_result_init k text conf now (case md of None \<Rightarrow> [] | Some d \<Rightarrow> d) of
          Inl _ \<Rightarrow> m | Inr r \<Rightarrow> m(ck_digest k := Some r)))"
| "stored_step env (Call_Invalidate data) m = (case key_from_data env data of Inl _ \<Rightarrow> m | Inr k \<Rightarrow> m(ck_digest k := None))"
| "stored_step env Call_Clear m = (\<lambda>_. None)"
| "stored_step env _ m = m"

lemma on_backend_app [simp]: "on_backend m w = (fst (m (fst w)), (snd (m (fst w)), snd w))"
  by (simp add: on_backend_def)

lemma cache_emit_app [simp]: "cache_emit env e w = (fst (ce_emit env e (snd w)), (fst w, snd (ce_emit env e (snd w))))"
  by (simp add: cache_emit_def)

context cache_backend
begin

definition sound :: "'s \<Rightarrow> (string \<Rightarrow> 'm cached_result option) \<Rightarrow> bool" where
  "sound s m = (ok s \<and> (\<forall>t d. live s t d \<noteq> None \<longrightarrow> live s t d = m d))"

lemma step_sound:
  assumes "ce_backend env = B" and "sound (fst w) m"
  shows "sound (fst (cache_step env c w)) (stored_step env c m)"
proof -
  have ok: "ok (fst w)" using assms(2) by (simp add: sound_def)
  have kept: "sound s' m" if "ok s'" "\<forall>t d. live s' t d \<in> {None, live (fst w) t d}" for s'
    using that assms(2) unfolding sound_def by (metis insert_iff singletonD)
  show ?thesis
  proof (cases c)
    case (Call_Get now data)
    show ?thesis
    proof (cases "key_from_data env data")
      case (Inl e)
      then show ?thesis using Call_Get assms(2) by (simp add: service_cache_get_def py_bind_split)
    next
      case (Inr k)
      obtain s' where s': "cb_get B now k (fst w) = (Inr (live (fst w) now (ck_digest k)), s')" "ok s'"
        "\<forall>t d. live s' t d \<in> {None, live (fst w) t d}" using get [OF ok] by blast
      have "fst (cache_step env c w) = s'"
        using Call_Get Inr s'(1) assms(1) by (simp add: service_cache_get_def py_bind_split split: option.split sum.split)
      with kept [OF s'(2,3)] Call_Get show ?thesis by simp
    qed
  next
    case (Call_Put now data tx conf md)
    show ?thesis
    proof (cases "key_from_data env data")
      case (Inl e)
      then show ?thesis using Call_Put assms(2) by (simp add: service_cache_put_def py_bind_split)
    next
      case k: (Inr k)
      show ?thesis
      proof (cases "cached_result_init k tx conf now (case md of None \<Rightarrow> [] | Some d \<Rightarrow> d)")
        case (Inl e)
        then show ?thesis using Call_Put k assms(2) by (simp add: service_cache_put_def py_bind_split)
      next
        case (Inr r)
        obtain s' where s': "cb_put B k r (fst w) = (Inr (), s')" "ok s'"
          "\<forall>t. live s' t (ck_digest k) = (if fresh t r then Some r else None)"
          "\<forall>t d. d \<noteq> ck_digest k \<longrightarrow> live s' t d \<in> {None, live (fst w) t d}"
          using put [OF ok, of k r] by (elim exE conjE)
        have "fst (cache_step env c w) = s'"
          using Call_Put k Inr s'(1) assms(1) by (simp add: service_cache_put_def py_bind_split split: sum.split)
        moreover have "live s' t d = (m(ck_digest k := Some r)) d" if "live s' t d \<noteq> None" for t d
        proof (cases "d = ck_digest k")
          case True
          with s'(3) that show ?thesis by (auto split: if_splits)
        next
          case False
          with s'(4) that have "live (fst w) t d \<noteq> None" "live s' t d = live (fst w) t d" by (metis insert_iff singletonD)+
          with False assms(2) show ?thesis by (simp add: sound_def)
        qed
        ultimately show ?thesis using Call_Put k Inr s'(2) by (simp add: sound_def)
      qed
    qed
  next
    case (Call_Has now data)
    show ?thesis
    proof (cases "key_from_data env data")
      case (Inl e)
      then show ?thesis using Call_Has assms(2) by (simp add: service_cache_has_def py_bind_split)
    next
      case (Inr k)
      obtain s' where s': "cb_has B now k (fst w) = (Inr (live (fst w) now (ck_digest k) \<noteq> None), s')" "ok s'"
        "\<forall>t d. live s' t d \<in> {None, live (fst w) t d}" using has [OF ok] by blast
      have "fst (cache_step env c w) = s'"
        using Call_Has Inr s'(1) assms(1) by (simp add: service_cache_has_def py_bind_split)
      with kept [OF s'(2,3)] Call_Has show ?thesis by simp
    qed
  next
    case (Call_Invalidate data)
    show ?thesis
    proof (cases "key_from_data env data")
      case (Inl e)
      then show ?thesis using Call_Invalidate assms(2) by (simp add: service_cache_invalidate_def py_bind_split)
    next
      case (Inr k)
      obtain s' b where s': "cb_invalidate B k (fst w) = (Inr b, s')" "ok s'" "\<forall>t. live s' t (ck_digest k) = None"
        "\<forall>t d. d \<noteq> ck_digest k \<longrightarrow> live s' t d = live (fst w) t d" using invalidate [OF ok, of k] by (elim exE conjE)
      have "fst (cache_step env c w) = s'"
        using Call_Invalidate Inr s'(1) assms(1) by (simp add: service_cache_invalidate_def py_bind_split)
      then show ?thesis using Call_Invalidate Inr s'(2-4) assms(2) by (simp add: sound_def)
    qed
  next
    case Call_Clear
    obtain s' where s': "cb_clear B (fst w) = (Inr (), s')" "ok s'" "\<forall>t d. live s' t d = None" using clear [OF ok] by blast
    then show ?thesis using Call_Clear assms(1) by (simp add: service_cache_clear_def sound_def)
  next
    case (Call_Stats now)
    obtain st where "cb_stats B now (fst w) = (Inr st, fst w)" using stats [OF ok] by blast
    then show ?thesis using Call_Stats assms by (simp add: service_cache_stats_def)
  qed
qed

lemma steps_sound:
  "ce_backend env = B \<Longrightarrow> sound (fst w) m \<Longrightarrow> sound (fst (fold (cache_step env) cs w)) (fold (stored_step env) cs m)"
  by (induction cs arbitrary: w m) (simp_all add: step_sound)

lemma found_sound:
  assumes "ce_backend env = B" and "sound (fst w) m" and "service_cache_get env now data w = (Inr (Some r), w')"
  shows "\<exists>k. key_from_data env data = Inr k \<and> m (ck_digest k) = Some r \<and> live (fst w) now (ck_digest k) = Some r"
proof -
  have ok: "ok (fst w)" using assms(2) by (simp add: sound_def)
  obtain k where k: "key_from_data env data = Inr k"
    using assms(3) by (cases "key_from_data env data") (simp_all add: service_cache_get_def py_bind_split)
  obtain s' where s': "cb_get B now k (fst w) = (Inr (live (fst w) now (ck_digest k)), s')" using get [OF ok] by blast
  have "live (fst w) now (ck_digest k) = Some r"
    using assms(1,3) k s' by (cases "live (fst w) now (ck_digest k)") (auto simp: service_cache_get_def py_bind_split split: sum.splits)
  with assms(2) k show ?thesis unfolding sound_def by (metis option.distinct(1))
qed

text \<open>A stored text is found until it is stale, unless the cache is used in between.\<close>

lemma put_then_get:
  assumes "ce_backend env = B" and "ok (fst w)" and "\<forall>e b. fst (ce_emit env e b) = Inr ()"
    and "key_from_data env data = Inr k" and "0 \<le> conf" and "conf \<le> 1"
  shows "\<exists>r w'. service_cache_put env now data tx conf md w = (Inr r, w') \<and> cr_text r = tx \<and> cr_confidence r = conf \<and>
    cr_created_at r = now \<and> fst (service_cache_get env t data w') = Inr (if fresh t r then Some r else None)"
proof -
  define r where "r = \<lparr>cr_key = k, cr_text = tx, cr_confidence = conf, cr_created_at = now,
    cr_metadata = (case md of None \<Rightarrow> [] | Some d \<Rightarrow> d)\<rparr>"
  have init: "cached_result_init k tx conf now (case md of None \<Rightarrow> [] | Some d \<Rightarrow> d) = Inr r"
    using assms(5,6) by (simp add: cached_result_init_def r_def)
  obtain s' where s': "cb_put B k r (fst w) = (Inr (), s')" "ok s'"
    "\<forall>t. live s' t (ck_digest k) = (if fresh t r then Some r else None)"
    using put [OF assms(2), of k r] by (elim exE conjE)
  obtain s'' where s'': "cb_get B t k s' = (Inr (live s' t (ck_digest k)), s'')" using get [OF s'(2)] by blast
  have "\<exists>w'. service_cache_put env now data tx conf md w = (Inr r, w') \<and> fst w' = s'"
    using assms(1,3,4) init s'(1) by (simp add: service_cache_put_def py_bind_split)
  then obtain w' where w': "service_cache_put env now data tx conf md w = (Inr r, w')" "fst w' = s'" by blast
  have "fst (service_cache_get env t data w') = Inr (if fresh t r then Some r else None)"
    using assms(1,3,4) s'' s'(3) w'(2) by (simp add: service_cache_get_def py_bind_split)
  with w'(1) show ?thesis by (intro exI [of _ r] exI [of _ w']) (simp add: r_def)
qed

end

end
