(* ===== verification/Ocr_Cache_Memory.thy ===== *)
theory Ocr_Cache_Memory
  imports Ocr_Cache
begin

text \<open>
  The in-memory backend of the OCR cache fulfils the contract; what the service promises over it, and
  its limits: capacity, first-in-first-out eviction, statistics.
\<close>

section \<open>Eviction\<close>

lemma evict_drop: "0 < n \<Longrightarrow> evict n d = Inr (drop (Suc (length d) - nat n) d)"
proof (induction d)
  case Nil
  then show ?case by simp
next
  case (Cons e d)
  show ?case
  proof (cases "n \<le> int (length (e # d))")
    case True
    then have "Suc (length (e # d)) - nat n = Suc (Suc (length d) - nat n)" using Cons.prems by simp
    with True Cons show ?thesis by simp
  next
    case False
    then have "Suc (length (e # d)) - nat n = 0" by simp
    with False show ?thesis by simp
  qed
qed

lemma dict_wf_drop: "dict_wf d \<Longrightarrow> dict_wf (drop n d)"
  by (simp add: dict_wf_def drop_map [symmetric])

lemma dict_get_drop: "dict_wf d \<Longrightarrow> dict_get (drop n d) k \<in> {None, dict_get d k}"
proof -
  assume wf: "dict_wf d"
  have "dict_get (drop n d) k = dict_get d k" if "dict_get (drop n d) k = Some v" for v
  proof -
    have "(k, v) \<in> set d" using map_of_SomeD [OF that] by (meson in_set_dropD)
    with wf that show ?thesis by (simp add: dict_get_mem)
  qed
  then show ?thesis by (cases "dict_get (drop n d) k") auto
qed

text \<open>The store \<open>put\<close> works on once it has made room.\<close>

definition room :: "cache_options \<Rightarrow> ('k, 'v) dict \<Rightarrow> ('k, 'v) dict" where
  "room opts d = (case co_max_entries opts of None \<Rightarrow> d | Some n \<Rightarrow> drop (Suc (length d) - nat n) d)"

definition options_ok :: "cache_options \<Rightarrow> bool" where
  "options_ok opts = (cache_options_init (co_ttl_seconds opts) (co_max_entries opts) = Inr opts)"

lemma options_ok_pos: "options_ok opts \<Longrightarrow> co_max_entries opts = Some n \<Longrightarrow> 0 < n"
  by (auto simp: options_ok_def cache_options_init_def split: if_splits)

lemma cache_put_app:
  "options_ok (mc_options c) \<Longrightarrow>
    cache_put key r c = (Inr (), c\<lparr>mc_store := dict_set (ck_digest key) r (room (mc_options c) (mc_store c))\<rparr>)"
  using options_ok_pos [of "mc_options c"]
  by (cases "co_max_entries (mc_options c)") (simp_all add: cache_put_def py_bind_split evict_drop room_def)

lemma room_wf: "dict_wf d \<Longrightarrow> dict_wf (room opts d)"
  by (simp add: room_def dict_wf_drop split: option.split)

lemma room_get: "dict_wf d \<Longrightarrow> dict_get (room opts d) k \<in> {None, dict_get d k}"
  using dict_get_drop [of d] by (simp add: room_def split: option.split)

lemma room_length: "options_ok opts \<Longrightarrow> co_max_entries opts = Some n \<Longrightarrow> int (length (room opts d)) < n"
  using options_ok_pos [of opts n] by (simp add: room_def)

section \<open>The contract\<close>

definition cache_live :: "'m memory_cache \<Rightarrow> real \<Rightarrow> string \<Rightarrow> 'm cached_result option" where
  "cache_live c t d =
     (case dict_get (mc_store c) d of None \<Rightarrow> None | Some r \<Rightarrow> if is_expired (mc_options c) t r then None else Some r)"

definition cache_ok :: "cache_options \<Rightarrow> 'm memory_cache \<Rightarrow> bool" where
  "cache_ok opts c = (mc_options c = opts \<and> options_ok opts \<and> dict_wf (mc_store c))"

lemma is_expired_later: "is_expired opts t r \<Longrightarrow> t \<le> u \<Longrightarrow> is_expired opts u r"
  by (simp add: is_expired_def split: option.splits)

lemma cache_get_app:
  "cache_get now key c = (Inr (cache_live c now (ck_digest key)),
     case dict_get (mc_store c) (ck_digest key) of
       None \<Rightarrow> c\<lparr>mc_misses := mc_misses c + 1\<rparr>
     | Some r \<Rightarrow> if is_expired (mc_options c) now r
         then c\<lparr>mc_store := dict_pop (ck_digest key) (mc_store c), mc_misses := mc_misses c + 1\<rparr>
         else c\<lparr>mc_hits := mc_hits c + 1\<rparr>)"
  by (simp add: cache_get_def cache_live_def py_bind_split split: option.split)

lemma cache_has_app:
  "cache_has now key c = (Inr (cache_live c now (ck_digest key) \<noteq> None),
     case dict_get (mc_store c) (ck_digest key) of
       None \<Rightarrow> c
     | Some r \<Rightarrow> if is_expired (mc_options c) now r then c\<lparr>mc_store := dict_pop (ck_digest key) (mc_store c)\<rparr> else c)"
  by (simp add: cache_has_def cache_live_def py_bind_split split: option.split)

lemma cache_invalidate_app:
  "cache_invalidate key c = (Inr (dict_has (mc_store c) (ck_digest key)), c\<lparr>mc_store := dict_pop (ck_digest key) (mc_store c)\<rparr>)"
proof (cases "dict_has (mc_store c) (ck_digest key)")
  case False
  then have "dict_pop (ck_digest key) (mc_store c) = mc_store c" by (simp add: dict_has_iff delete_id)
  with False show ?thesis by (cases c) (simp add: cache_invalidate_def)
qed (simp add: cache_invalidate_def)

text \<open>Taking out an entry that has expired withdraws nothing that could still be found.\<close>

lemma live_pop:
  assumes "dict_get (mc_store c) k = Some r" and "is_expired (mc_options c) now r"
    and "mc_options c' = mc_options c" and "mc_store c' = dict_pop k (mc_store c)"
  shows "cache_live c' t d \<in> {None, cache_live c t d}" and "now \<le> t \<Longrightarrow> cache_live c' t d = cache_live c t d"
  using assms is_expired_later [OF assms(2), of t] by (auto simp: cache_live_def split: option.splits)

lemma live_same:
  "mc_options c' = mc_options c \<Longrightarrow> mc_store c' = mc_store c \<Longrightarrow> cache_live c' t d = cache_live c t d"
  by (simp add: cache_live_def split: option.split)

interpretation memory_cache: cache_backend memory_backend cache_live "\<lambda>t r. \<not> is_expired opts t r" "cache_ok opts" for opts
proof unfold_locales
  fix c :: "'m memory_cache" and now :: real and k :: cache_key and r :: "'m cached_result"
  assume ok: "cache_ok opts c"
  then have o: "mc_options c = opts" "options_ok opts" "dict_wf (mc_store c)" by (simp_all add: cache_ok_def)
  let ?d = "ck_digest k"
  have expired: "cache_live c' t d \<in> {None, cache_live c t d} \<and> (now \<le> t \<longrightarrow> cache_live c' t d = cache_live c t d)"
    if "dict_get (mc_store c) ?d = Some r" "is_expired (mc_options c) now r"
      "mc_options c' = mc_options c" "mc_store c' = dict_pop ?d (mc_store c)" for c' r t d
    using live_pop [OF that] by simp
  have same: "cache_live c' t d \<in> {None, cache_live c t d} \<and> (now \<le> t \<longrightarrow> cache_live c' t d = cache_live c t d)"
    if "mc_options c' = mc_options c" "mc_store c' = mc_store c" for c' t d
    using live_same [OF that] by simp
  have get: "cache_ok opts (snd (cache_get now k c)) \<and> (\<forall>t d. cache_live (snd (cache_get now k c)) t d \<in> {None, cache_live c t d} \<and>
      (now \<le> t \<longrightarrow> cache_live (snd (cache_get now k c)) t d = cache_live c t d))"
  proof (cases "dict_get (mc_store c) ?d")
    case None
    then have "snd (cache_get now k c) = c\<lparr>mc_misses := mc_misses c + 1\<rparr>" by (simp add: cache_get_app)
    then show ?thesis using ok same [of "c\<lparr>mc_misses := mc_misses c + 1\<rparr>"] by (simp add: cache_ok_def)
  next
    case (Some r)
    show ?thesis
    proof (cases "is_expired (mc_options c) now r")
      case True
      let ?c' = "c\<lparr>mc_store := dict_pop ?d (mc_store c), mc_misses := mc_misses c + 1\<rparr>"
      have "snd (cache_get now k c) = ?c'" using Some True by (simp add: cache_get_app)
      moreover have "cache_ok opts ?c'" using ok by (simp add: cache_ok_def)
      ultimately show ?thesis using expired [OF Some True, of ?c'] by simp
    next
      case False
      with Some have "snd (cache_get now k c) = c\<lparr>mc_hits := mc_hits c + 1\<rparr>" by (simp add: cache_get_app)
      then show ?thesis using ok same [of "c\<lparr>mc_hits := mc_hits c + 1\<rparr>"] by (simp add: cache_ok_def)
    qed
  qed
  then show "\<exists>s'. cb_get memory_backend now k c = (Inr (cache_live c now ?d), s') \<and> cache_ok opts s' \<and>
      (\<forall>t d. cache_live s' t d \<in> {None, cache_live c t d}) \<and> (\<forall>t d. now \<le> t \<longrightarrow> cache_live s' t d = cache_live c t d)"
    by (intro exI [of _ "snd (cache_get now k c)"]) (simp add: memory_backend_def cache_get_app)
  have "cache_ok opts (snd (cache_has now k c)) \<and> (\<forall>t d. cache_live (snd (cache_has now k c)) t d \<in> {None, cache_live c t d} \<and>
      (now \<le> t \<longrightarrow> cache_live (snd (cache_has now k c)) t d = cache_live c t d))"
  proof (cases "dict_get (mc_store c) ?d")
    case None
    then show ?thesis using ok by (simp add: cache_has_app)
  next
    case (Some r)
    show ?thesis
    proof (cases "is_expired (mc_options c) now r")
      case True
      let ?c' = "c\<lparr>mc_store := dict_pop ?d (mc_store c)\<rparr>"
      have "snd (cache_has now k c) = ?c'" using Some True by (simp add: cache_has_app)
      moreover have "cache_ok opts ?c'" using ok by (simp add: cache_ok_def)
      ultimately show ?thesis using expired [OF Some True, of ?c'] by simp
    next
      case False
      then show ?thesis using ok Some by (simp add: cache_has_app)
    qed
  qed
  then show "\<exists>s'. cb_has memory_backend now k c = (Inr (cache_live c now ?d \<noteq> None), s') \<and> cache_ok opts s' \<and>
      (\<forall>t d. cache_live s' t d \<in> {None, cache_live c t d}) \<and> (\<forall>t d. now \<le> t \<longrightarrow> cache_live s' t d = cache_live c t d)"
    by (intro exI [of _ "snd (cache_has now k c)"]) (simp add: memory_backend_def cache_has_app)
  let ?c = "c\<lparr>mc_store := dict_set ?d r (room opts (mc_store c))\<rparr>"
  have "cache_live ?c t d \<in> {None, cache_live c t d}" if "d \<noteq> ?d" for t d
    using room_get [OF o(3), of opts d] that o(1) by (auto simp: cache_live_def split: option.splits)
  then show "\<exists>s'. cb_put memory_backend k r c = (Inr (), s') \<and> cache_ok opts s' \<and>
      (\<forall>t. cache_live s' t ?d = (if \<not> is_expired opts t r then Some r else None)) \<and>
      (\<forall>t d. d \<noteq> ?d \<longrightarrow> cache_live s' t d \<in> {None, cache_live c t d})"
    using o by (intro exI [of _ ?c]) (simp add: memory_backend_def cache_put_app cache_ok_def room_wf cache_live_def)
  show "\<exists>s' b. cb_invalidate memory_backend k c = (Inr b, s') \<and> cache_ok opts s' \<and> (\<forall>t. cache_live s' t ?d = None) \<and>
      (\<forall>t d. d \<noteq> ?d \<longrightarrow> cache_live s' t d = cache_live c t d)"
    using ok by (simp add: memory_backend_def cache_invalidate_app cache_ok_def cache_live_def split: option.split)
  show "\<exists>s'. cb_clear memory_backend c = (Inr (), s') \<and> cache_ok opts s' \<and> (\<forall>t d. cache_live s' t d = None)"
    using ok by (simp add: memory_backend_def cache_clear_def cache_ok_def cache_live_def)
  show "\<exists>st. cb_stats memory_backend now c = (Inr st, c)"
    by (simp add: memory_backend_def cache_statistics_def)
qed

section \<open>Capacity\<close>

lemma room_keys: "dict_keys (room opts d) = (case co_max_entries opts of None \<Rightarrow> dict_keys d | Some n \<Rightarrow> drop (Suc (length d) - nat n) (dict_keys d))"
  by (simp add: room_def drop_map split: option.split)

text \<open>
  With \<open>n\<close> entries allowed, the slack of an entry at position \<open>i\<close> of \<open>l\<close> is \<open>i + (n - l)\<close>: as many stores can
  follow before it is dropped.
\<close>

lemma put_slack:
  assumes "options_ok opts" and "co_max_entries opts = Some n" and "dict_wf d" and "int (length d) \<le> n"
    and "i < length d" and "dict_keys d ! i = k" and "dict_get d k = Some r" and "k' \<noteq> k" and "int m < int i + (n - int (length d))"
  shows "\<exists>i'. let d' = dict_set k' v (room opts d) in dict_wf d' \<and> int (length d') \<le> n \<and> i' < length d' \<and> dict_keys d' ! i' = k \<and>
    dict_get d' k = Some r \<and> int m \<le> int i' + (n - int (length d'))"
proof -
  let ?e = "Suc (length d) - nat n"
  have pos: "0 < n" using options_ok_pos assms(1,2) by blast
  have e: "?e \<le> 1" using assms(4) by linarith
  have ei: "?e \<le> i" using assms(4,5,9) pos by linarith
  have room: "room opts d = drop ?e d" using assms(2) by (simp add: room_def)
  have keys: "dict_keys (drop ?e d) = drop ?e (dict_keys d)" by (simp add: drop_map)
  have at: "drop ?e (dict_keys d) ! (i - ?e) = k" using ei assms(5,6) by simp
  have len: "i - ?e < length (drop ?e d)" using ei assms(5) by simp
  let ?d' = "dict_set k' v (drop ?e d)"
  have keys': "dict_keys ?d' = drop ?e (dict_keys d) @ (if dict_has (drop ?e d) k' then [] else [k'])"
    unfolding dict_keys_set keys by simp
  have l: "length ?d' = length d - ?e + (if dict_has (drop ?e d) k' then 0 else 1)"
    using arg_cong [OF keys', of length] by simp
  have l': "int (length ?d') \<le> n \<and> i - ?e < length ?d' \<and> int m \<le> int (i - ?e) + (n - int (length ?d'))"
  proof (cases "int (length d) = n")
    case True
    then have "?e = 1" using pos by linarith
    with l ei assms(4,5,9) True show ?thesis by auto
  next
    case False
    then have "?e = 0" using assms(4) by linarith
    with l assms(4,5,9) False show ?thesis by auto
  qed
  have k: "dict_keys ?d' ! (i - ?e) = k" unfolding keys' using at len by (simp add: nth_append)
  have wf: "dict_wf (drop ?e d)" by (rule dict_wf_drop [OF assms(3)])
  have "k \<in> set (dict_keys (drop ?e d))" unfolding keys using at len by (metis length_map keys nth_mem)
  then obtain r' where "dict_get (drop ?e d) k = Some r'" using dict_key_get by metis
  with dict_get_drop [OF assms(3), of ?e k] assms(7) have "dict_get (drop ?e d) k = Some r" by auto
  then have "dict_get ?d' k = Some r" using assms(8) by simp
  with l' k wf show ?thesis unfolding Let_def room by (intro exI [of _ "i - ?e"]) simp
qed

lemma puts_survive:
  assumes "cache_ok opts c" and "co_max_entries opts = Some n" and "int (length (mc_store c)) \<le> n"
    and "i < length (mc_store c)" and "dict_keys (mc_store c) ! i = k" and "dict_get (mc_store c) k = Some r"
    and "\<forall>(k', v) \<in> set kvs. ck_digest k' \<noteq> k" and "int (length kvs) \<le> int i + (n - int (length (mc_store c)))"
  shows "dict_get (mc_store (fold (\<lambda>(k', v) c. snd (cache_put k' v c)) kvs c)) k = Some r"
  using assms(1,3-)
proof (induction kvs arbitrary: c i)
  case Nil
  then show ?case by simp
next
  case (Cons kv kvs)
  obtain k' v where kv: "kv = (k', v)" by (cases kv)
  have o: "options_ok opts" "mc_options c = opts" "dict_wf (mc_store c)" using Cons.prems(1) by (simp_all add: cache_ok_def)
  have less: "int (length kvs) < int i + (n - int (length (mc_store c)))" using Cons.prems(7) by simp
  have other: "ck_digest k' \<noteq> k" using Cons.prems(6) kv by simp
  let ?d = "dict_set (ck_digest k') v (room opts (mc_store c))"
  obtain i' where i': "dict_wf ?d" "int (length ?d) \<le> n" "i' < length ?d" "dict_keys ?d ! i' = k" "dict_get ?d k = Some r"
    "int (length kvs) \<le> int i' + (n - int (length ?d))"
    using put_slack [OF o(1) assms(2) o(3) Cons.prems(2-5) other less, of v] unfolding Let_def by (elim exE conjE)
  have put: "snd (cache_put k' v c) = c\<lparr>mc_store := ?d\<rparr>" using cache_put_app [of c k' v] o by simp
  have "dict_get (mc_store (fold (\<lambda>(k', v) c. snd (cache_put k' v c)) kvs (c\<lparr>mc_store := ?d\<rparr>))) k = Some r"
    by (rule Cons.IH [of _ i']) (use i' o Cons.prems(6) in \<open>simp_all add: cache_ok_def\<close>)
  then show ?case by (simp add: kv put)
qed

text \<open>What no call can break.\<close>

definition cache_bounded :: "cache_options \<Rightarrow> 'm memory_cache \<Rightarrow> bool" where
  "cache_bounded opts c = (cache_ok opts c \<and> 0 \<le> mc_hits c \<and> 0 \<le> mc_misses c \<and>
     (\<forall>n. co_max_entries opts = Some n \<longrightarrow> int (length (mc_store c)) \<le> n))"

lemma length_dict_pop: "length (dict_pop k d) \<le> length d"
  by (simp add: AList.delete_eq)

lemma length_dict_set: "length (dict_set k v d) \<le> Suc (length d)"
  by (induction d) auto

lemma bounded_get: "cache_bounded opts c \<Longrightarrow> cache_bounded opts (snd (cache_get now key c))"
  using length_dict_pop [of "ck_digest key" "mc_store c"]
  by (auto simp: cache_bounded_def cache_ok_def cache_get_app split: option.split)

lemma bounded_has: "cache_bounded opts c \<Longrightarrow> cache_bounded opts (snd (cache_has now key c))"
  using length_dict_pop [of "ck_digest key" "mc_store c"]
  by (auto simp: cache_bounded_def cache_ok_def cache_has_app split: option.split)

lemma bounded_put: "cache_bounded opts c \<Longrightarrow> cache_bounded opts (snd (cache_put key r c))"
  using room_length [of opts _ "mc_store c"] length_dict_set [of "ck_digest key" r "room opts (mc_store c)"]
  by (auto simp: cache_bounded_def cache_ok_def cache_put_app room_wf)

lemma bounded_invalidate: "cache_bounded opts c \<Longrightarrow> cache_bounded opts (snd (cache_invalidate key c))"
  using length_dict_pop [of "ck_digest key" "mc_store c"]
  by (auto simp: cache_bounded_def cache_ok_def cache_invalidate_app)

lemma bounded_clear: "cache_bounded opts c \<Longrightarrow> cache_bounded opts (snd (cache_clear c))"
  using options_ok_pos [of opts] by (fastforce simp: cache_bounded_def cache_ok_def cache_clear_def)

lemma bounded_step:
  assumes "ce_backend env = memory_backend" and "cache_bounded opts (fst w)"
  shows "cache_bounded opts (fst (cache_step env call w))"
proof (cases call)
  case (Call_Get now data)
  then show ?thesis using assms bounded_get [OF assms(2)]
    by (cases "key_from_data env data") (simp_all add: service_cache_get_def py_bind_split memory_backend_def split: sum.split option.split)
next
  case (Call_Put now data tx conf md)
  then show ?thesis using assms bounded_put [OF assms(2)]
    by (cases "key_from_data env data") (simp_all add: service_cache_put_def py_bind_split memory_backend_def split: sum.split)
next
  case (Call_Has now data)
  then show ?thesis using assms bounded_has [OF assms(2)]
    by (cases "key_from_data env data") (simp_all add: service_cache_has_def py_bind_split memory_backend_def)
next
  case (Call_Invalidate data)
  then show ?thesis using assms bounded_invalidate [OF assms(2)]
    by (cases "key_from_data env data") (simp_all add: service_cache_invalidate_def py_bind_split memory_backend_def)
next
  case Call_Clear
  then show ?thesis using assms bounded_clear [OF assms(2)] by (simp add: service_cache_clear_def memory_backend_def)
next
  case (Call_Stats now)
  then show ?thesis using assms by (simp add: service_cache_stats_def memory_backend_def cache_statistics_def)
qed

lemma bounded_steps:
  "ce_backend env = memory_backend \<Longrightarrow> cache_bounded opts (fst w) \<Longrightarrow> cache_bounded opts (fst (fold (cache_step env) calls w))"
  by (induction calls arbitrary: w) (simp_all add: bounded_step)

lemma bounded_new: "options_ok opts \<Longrightarrow> cache_bounded opts (new_cache opts)"
  using options_ok_pos [of opts] by (fastforce simp: cache_bounded_def cache_ok_def new_cache_def)

section \<open>Properties\<close>

text \<open>C16: 
  Whatever calls are made on a new cache, at whatever times, returning or raising: a text that is found
  is the one stored last for that content, it has not been withdrawn since, and it is not older than
  the time to live.
\<close>

theorem ocr_cache_sound:
  fixes env :: "('m memory_cache, 'm, 'b) cache_env"
  assumes "ce_backend env = memory_backend" and "options_ok opts"
    and "service_cache_get env now data (fold (cache_step env) calls (new_cache opts, b)) = (Inr (Some r), w')"
  shows "\<exists>k. key_from_data env data = Inr k \<and> fold (stored_step env) calls (\<lambda>_. None) (ck_digest k) = Some r \<and>
    \<not> is_expired opts now r"
proof -
  let ?w = "fold (cache_step env) calls (new_cache opts, b)"
  have "memory_cache.sound opts (fst (new_cache opts :: 'm memory_cache, b)) (\<lambda>_. None)"
    using assms(2) by (simp add: memory_cache.sound_def cache_ok_def new_cache_def cache_live_def)
  then have s: "memory_cache.sound opts (fst ?w) (fold (stored_step env) calls (\<lambda>_. None))"
    by (rule memory_cache.steps_sound [OF assms(1)])
  obtain k where k: "key_from_data env data = Inr k" "fold (stored_step env) calls (\<lambda>_. None) (ck_digest k) = Some r"
    "cache_live (fst ?w) now (ck_digest k) = Some r"
    using memory_cache.found_sound [OF assms(1) s assms(3)] by blast
  have "mc_options (fst ?w) = opts" using s by (simp add: memory_cache.sound_def cache_ok_def)
  with k(3) have "\<not> is_expired opts now r" by (auto simp: cache_live_def split: option.splits if_splits)
  with k(1,2) show ?thesis by blast
qed

text \<open>
  A text that was stored is read back unchanged as long as it is fresh, and not at all afterwards.
\<close>

theorem ocr_cache_roundtrip:
  fixes env :: "('m memory_cache, 'm, 'b) cache_env"
  assumes "ce_backend env = memory_backend" and "cache_ok opts (fst w)" and "\<forall>e b. fst (ce_emit env e b) = Inr ()"
    and "key_from_data env data = Inr k" and "0 \<le> conf" and "conf \<le> 1"
  shows "\<exists>r w'. service_cache_put env now data tx conf md w = (Inr r, w') \<and> cr_text r = tx \<and> cr_confidence r = conf \<and>
    (case co_ttl_seconds opts of
       None \<Rightarrow> fst (service_cache_get env t data w') = Inr (Some r)
     | Some ttl \<Rightarrow> fst (service_cache_get env t data w') = Inr (if t - now \<le> real_of_int ttl then Some r else None))"
proof -
  obtain r w' where r: "service_cache_put env now data tx conf md w = (Inr r, w')" "cr_text r = tx" "cr_confidence r = conf"
    "cr_created_at r = now" "fst (service_cache_get env t data w') = Inr (if \<not> is_expired opts t r then Some r else None)"
    using memory_cache.put_then_get [OF assms, where now = now and t = t and tx = tx and md = md] by (elim exE conjE)
  then show ?thesis by (intro exI [of _ r] exI [of _ w']) (simp add: is_expired_def split: option.split)
qed

text \<open>
  Whatever calls are made on a new cache, it never holds more entries than allowed, no digest twice, and
  its statistics make a hit rate between 0 and 1 and a size that is at most the number of entries.
\<close>

theorem ocr_cache_bounded:
  fixes env :: "('m memory_cache, 'm, 'b) cache_env"
  assumes "ce_backend env = memory_backend" and "cache_options_init ttl n = Inr opts"
  shows "let c = fst (fold (cache_step env) calls (new_cache opts, b)) in
    distinct (dict_keys (mc_store c)) \<and> (case n of None \<Rightarrow> True | Some m \<Rightarrow> int (length (mc_store c)) \<le> m) \<and>
    (\<exists>st. cache_statistics now c = (Inr st, c) \<and> 0 \<le> hit_rate st \<and> hit_rate st \<le> 1 \<and>
      0 \<le> cs_size st \<and> cs_size st \<le> int (length (mc_store c)))"
proof -
  have opts: "co_ttl_seconds opts = ttl" "co_max_entries opts = n" using assms(2) by (auto simp: cache_options_init_def split: if_splits)
  then have ok: "options_ok opts" using assms(2) by (simp add: options_ok_def)
  let ?c = "fst (fold (cache_step env) calls (new_cache opts, b))"
  have bd: "cache_bounded opts ?c" by (rule bounded_steps [OF assms(1)]) (simp add: bounded_new ok)
  have hr: "0 \<le> hit_rate st \<and> hit_rate st \<le> 1" if "cs_hits st = mc_hits ?c" "cs_misses st = mc_misses ?c" for st
  proof -
    have "0 \<le> mc_hits ?c" "0 \<le> mc_misses ?c" using bd by (simp_all add: cache_bounded_def)
    then show ?thesis using that by (simp add: hit_rate_def Let_def divide_le_eq)
  qed
  have "distinct (dict_keys (mc_store ?c))" using bd by (simp add: cache_bounded_def cache_ok_def dict_wf_def)
  moreover have "case n of None \<Rightarrow> True | Some m \<Rightarrow> int (length (mc_store ?c)) \<le> m"
    using bd opts(2) by (simp add: cache_bounded_def split: option.split)
  moreover have "\<exists>st. cache_statistics now ?c = (Inr st, ?c) \<and> 0 \<le> hit_rate st \<and> hit_rate st \<le> 1 \<and>
      0 \<le> cs_size st \<and> cs_size st \<le> int (length (mc_store ?c))"
  proof -
    define st where "st = \<lparr>cs_hits = mc_hits ?c, cs_misses = mc_misses ?c,
      cs_size = int (length (filter (\<lambda>r. case co_ttl_seconds (mc_options ?c) of None \<Rightarrow> True
        | Some ttl \<Rightarrow> now - cr_created_at r \<le> real_of_int ttl) (dict_values (mc_store ?c))))\<rparr>"
    have st: "cache_statistics now ?c = (Inr st, ?c)" "cs_hits st = mc_hits ?c" "cs_misses st = mc_misses ?c" "0 \<le> cs_size st"
      by (simp_all add: cache_statistics_def st_def)
    have "cs_size st \<le> int (length (mc_store ?c))"
      unfolding st_def cache_stats.select_convs by (metis length_filter_le length_map of_nat_le_iff)
    with hr [OF st(2,3)] show ?thesis by (intro exI [of _ st]) (simp add: st)
  qed
  ultimately show ?thesis unfolding Let_def by blast
qed

text \<open>
  The entry dropped first is the one stored first: a new entry survives any sequence of further stores
  of other contents that is shorter than the number of entries allowed.
\<close>

theorem ocr_cache_survives:
  assumes "cache_bounded opts c" and "co_max_entries opts = Some n" and "dict_get (mc_store c) (ck_digest k) = None"
    and "\<forall>(k', v) \<in> set kvs. ck_digest k' \<noteq> ck_digest k" and "int (length kvs) < n"
  shows "dict_get (mc_store (fold (\<lambda>(k', v) c. snd (cache_put k' v c)) kvs (snd (cache_put k r c)))) (ck_digest k) = Some r"
proof -
  have ok: "cache_ok opts c" "int (length (mc_store c)) \<le> n" "options_ok opts" "dict_wf (mc_store c)" "mc_options c = opts"
    using assms(1,2) by (simp_all add: cache_bounded_def cache_ok_def)
  let ?d = "room opts (mc_store c)"
  have put: "snd (cache_put k r c) = c\<lparr>mc_store := dict_set (ck_digest k) r ?d\<rparr>" using cache_put_app [of c k r] ok by simp
  have fresh: "dict_get ?d (ck_digest k) = None" using room_get [OF ok(4), of opts "ck_digest k"] assms(3) by simp
  have end_: "dict_set (ck_digest k) r ?d = ?d @ [(ck_digest k, r)]" by (rule dict_set_fresh [OF fresh])
  have less: "int (length ?d) < n" by (rule room_length [OF ok(3) assms(2)])
  show ?thesis unfolding put
  proof (rule puts_survive [where i = "length ?d"])
    show "cache_ok opts (c\<lparr>mc_store := dict_set (ck_digest k) r ?d\<rparr>)" using ok room_wf [OF ok(4), of opts] by (simp add: cache_ok_def)
    show "co_max_entries opts = Some n" by (rule assms(2))
    show "int (length (mc_store (c\<lparr>mc_store := dict_set (ck_digest k) r ?d\<rparr>))) \<le> n" using less unfolding end_ by simp
    show "length ?d < length (mc_store (c\<lparr>mc_store := dict_set (ck_digest k) r ?d\<rparr>))" unfolding end_ by simp
    show "dict_keys (mc_store (c\<lparr>mc_store := dict_set (ck_digest k) r ?d\<rparr>)) ! length ?d = ck_digest k"
      unfolding end_ by (simp add: nth_append)
    show "dict_get (mc_store (c\<lparr>mc_store := dict_set (ck_digest k) r ?d\<rparr>)) (ck_digest k) = Some r" by simp
    show "\<forall>(k', v) \<in> set kvs. ck_digest k' \<noteq> ck_digest k" by (rule assms(4))
    show "int (length kvs) \<le> int (length ?d) + (n - int (length (mc_store (c\<lparr>mc_store := dict_set (ck_digest k) r ?d\<rparr>))))"
      using assms(5) unfolding end_ by simp
  qed
qed

text \<open>
  Storing a content again does not make its entry younger: when the cache is full and the entry is the
  second oldest, the oldest one is dropped although nothing new comes in, and this entry is dropped next.
\<close>

theorem ocr_cache_overwrite_evicts:
  assumes "cache_ok opts c" and "co_max_entries opts = Some n" and "mc_store c = (a, x) # (ck_digest k, y) # d"
    and "int (length (mc_store c)) = n"
  shows "mc_store (snd (cache_put k r c)) = (ck_digest k, r) # d"
proof -
  have o: "mc_options c = opts" "options_ok opts" using assms(1) by (simp_all add: cache_ok_def)
  have one: "Suc (length (mc_store c)) - nat n = 1" using assms(3,4) by auto
  have "room opts (mc_store c) = (ck_digest k, y) # d" unfolding room_def assms(2) option.case one by (simp add: assms(3))
  then show ?thesis using cache_put_app [of c k r] o by simp
qed

section \<open>Witnesses\<close>

definition sample_hash :: hash_function where
  "sample_hash algorithm data =
     (if algorithm = ''sha256'' then Inr (if data = [65] then ''A'' else ''B'') else Inl (Exn ValueError ''unsupported hash type''))"

definition sample_cache_env :: "(unit memory_cache, unit, cache_event list) cache_env" where
  "sample_cache_env = \<lparr>ce_backend = memory_backend, ce_emit = (\<lambda>e. py_modify (\<lambda>es. es @ [e])),
     ce_algorithm = ''sha256'', ce_hash = sample_hash\<rparr>"

definition sample_options :: cache_options where
  "sample_options = \<lparr>co_ttl_seconds = Some 60, co_max_entries = Some 2\<rparr>"

lemma sample_options_ok: "options_ok sample_options" "cache_options_init (Some 60) (Some 2) = Inr sample_options"
  by (simp_all add: sample_options_def options_ok_def cache_options_init_def)

lemma sample_cache_key: "key_from_data sample_cache_env [65] = Inr \<lparr>ck_algorithm = ''sha256'', ck_digest = ''A''\<rparr>"
  by (simp add: key_from_data_def sample_cache_env_def key_from_bytes_def sample_hash_def cache_key_init_def)

definition sample_stored :: "real \<Rightarrow> string \<Rightarrow> unit cached_result" where
  "sample_stored now tx = \<lparr>cr_key = \<lparr>ck_algorithm = ''sha256'', ck_digest = ''A''\<rparr>, cr_text = tx, cr_confidence = 1,
     cr_created_at = now, cr_metadata = []\<rparr>"

lemma sample_put:
  "mc_options c = sample_options \<Longrightarrow> service_cache_put sample_cache_env now [65] tx 1 None (c, es) =
    (Inr (sample_stored now tx), (c\<lparr>mc_store := dict_set ''A'' (sample_stored now tx) (room sample_options (mc_store c))\<rparr>, es @ [OcrCacheStored ''A'']))"
  using sample_cache_key sample_options_ok
  by (simp add: service_cache_put_def py_bind_split cached_result_init_def sample_stored_def)
    (simp add: sample_cache_env_def memory_backend_def cache_put_app)

lemma ocr_cache_sound_witness:
  "\<exists>r. fold (stored_step sample_cache_env) [Call_Put 0 [65] ''x'' 1 None, Call_Put 5 [65] ''y'' 1 None] (\<lambda>_. None) ''A'' = Some r \<and>
    cr_text r = ''y'' \<and> \<not> is_expired sample_options 10 r"
proof -
  have b: "ce_backend sample_cache_env = memory_backend" by (simp add: sample_cache_env_def)
  let ?w = "fold (cache_step sample_cache_env) [Call_Put 0 [65] ''x'' 1 None, Call_Put 5 [65] ''y'' 1 None] (new_cache sample_options, [])"
  have o: "mc_options (new_cache sample_options :: unit memory_cache) = sample_options" by (simp add: new_cache_def)
  have w: "dict_get (mc_store (fst ?w)) ''A'' = Some (sample_stored 5 ''y'')" "mc_options (fst ?w) = sample_options"
    using o by (simp_all add: sample_put)
  have live: "cache_live (fst ?w) 10 ''A'' = Some (sample_stored 5 ''y'')"
    by (simp only: cache_live_def w option.case) (simp add: is_expired_def sample_stored_def sample_options_def)
  have "\<exists>w'. service_cache_get sample_cache_env 10 [65] ?w = (Inr (Some (sample_stored 5 ''y'')), w')"
    using sample_cache_key b live
    by (simp add: service_cache_get_def py_bind_split memory_backend_def cache_get_app del: fold_simps) (simp add: sample_cache_env_def)
  then obtain w' where r: "service_cache_get sample_cache_env 10 [65] ?w = (Inr (Some (sample_stored 5 ''y'')), w')" by blast
  have "cr_text (sample_stored 5 ''y'') = ''y''" by (simp add: sample_stored_def)
  with ocr_cache_sound [OF b sample_options_ok(1) r] sample_cache_key show ?thesis by auto
qed

lemma ocr_cache_roundtrip_witness:
  "\<exists>r w'. service_cache_put sample_cache_env 0 [65] ''x'' 1 None (new_cache sample_options, []) = (Inr r, w') \<and>
    fst (service_cache_get sample_cache_env 60 [65] w') = Inr (Some r)"
  using ocr_cache_roundtrip [of sample_cache_env sample_options "(new_cache sample_options, [])" "[65]" _ 1 0 "''x''" None 60] sample_cache_key sample_options_ok
  by (auto simp: sample_cache_env_def cache_ok_def new_cache_def sample_options_def)

lemma ocr_cache_bounded_witness:
  "int (length (mc_store (fst (fold (cache_step sample_cache_env) [Call_Put 0 [65] ''x'' 1 None] (new_cache sample_options, []))))) \<le> 2"
  using ocr_cache_bounded [OF _ sample_options_ok(2), of sample_cache_env "[Call_Put 0 [65] ''x'' 1 None]" "[]" 0]
  by (simp add: Let_def sample_cache_env_def)

definition sample_result :: "unit cached_result" where
  "sample_result = \<lparr>cr_key = \<lparr>ck_algorithm = ''md5'', ck_digest = ''a''\<rparr>, cr_text = ''x'', cr_confidence = 1, cr_created_at = 0, cr_metadata = []\<rparr>"

lemma ocr_cache_survives_witness:
  "dict_get (mc_store (fold (\<lambda>(k', v) c. snd (cache_put k' v c)) [(\<lparr>ck_algorithm = ''md5'', ck_digest = ''b''\<rparr>, sample_result)]
    (snd (cache_put \<lparr>ck_algorithm = ''md5'', ck_digest = ''a''\<rparr> sample_result (new_cache sample_options))))) ''a'' = Some sample_result"
  using ocr_cache_survives [OF bounded_new [OF sample_options_ok(1)], of 2 "\<lparr>ck_algorithm = ''md5'', ck_digest = ''a''\<rparr>"
    "[(\<lparr>ck_algorithm = ''md5'', ck_digest = ''b''\<rparr>, sample_result)]" sample_result]
  by (simp add: new_cache_def sample_options_def)

end
