(* ===== verification/Ocr_Quality.thy ===== *)
theory Ocr_Quality
  imports Complex_Main Named_Registry Py_Text
begin

text \<open>
  \<open>ocr/quality/\<close>: metrics, options and reports, the three rule-based calculators, their registry and the
  service. A calculator is a function that returns a metric or raises; the optional aggregation engine
  is one too. Scores are real numbers; texts are code points below 256.
\<close>

section \<open>Values\<close>

datatype quality_detail = Detail_str string | Detail_bool bool | Detail_int int | Detail_float real

record quality_metric =
  qm_name :: string
  qm_score :: real
  qm_weight :: real
  qm_details :: "(string, quality_detail) dict"

definition quality_metric_init :: "string \<Rightarrow> real \<Rightarrow> real \<Rightarrow> (string, quality_detail) dict \<Rightarrow> exn + quality_metric" where
  "quality_metric_init name score weight details =
     (if \<not> (0 \<le> score \<and> score \<le> 1) then Inl (Exn ValueError ''score must be between 0 and 1'')
      else if weight < 0 then Inl (Exn ValueError ''weight must be non-negative'')
      else Inr \<lparr>qm_name = name, qm_score = score, qm_weight = weight, qm_details = details\<rparr>)"

record quality_report =
  qr_overall_score :: real
  qr_metrics :: "quality_metric list"
  qr_warnings :: "string list"
  qr_threshold :: real

definition is_low_quality :: "quality_report \<Rightarrow> bool" where
  "is_low_quality r = (qr_overall_score r < qr_threshold r)"

definition weighted_average :: "quality_metric list \<Rightarrow> real" where
  "weighted_average ms =
     (let total_weight = sum_list (map qm_weight ms) in
      if total_weight \<le> 0 then 0 else sum_list (map (\<lambda>m. qm_score m * qm_weight m) ms) / total_weight)"

definition report_build :: "quality_metric list \<Rightarrow> real \<Rightarrow> string list \<Rightarrow> real option \<Rightarrow> quality_report" where
  "report_build ms threshold warnings overall =
     \<lparr>qr_overall_score = (case overall of None \<Rightarrow> weighted_average ms | Some s \<Rightarrow> s), qr_metrics = ms,
      qr_warnings = warnings, qr_threshold = threshold\<rparr>"

record quality_options =
  qo_threshold :: real
  qo_enabled_metrics :: "string list"

definition quality_options_init :: "real \<Rightarrow> string list \<Rightarrow> exn + quality_options" where
  "quality_options_init threshold enabled =
     (if \<not> (0 \<le> threshold \<and> threshold \<le> 1) then Inl (Exn ValueError ''threshold must be between 0 and 1'')
      else Inr \<lparr>qo_threshold = threshold, qo_enabled_metrics = enabled\<rparr>)"

definition metric_enabled :: "quality_options \<Rightarrow> string \<Rightarrow> bool" where
  "metric_enabled opts name = (if qo_enabled_metrics opts = [] then True else name \<in> set (qo_enabled_metrics opts))"

definition options_keeps :: "quality_options \<Rightarrow> real \<Rightarrow> bool" where
  "options_keeps opts score = (qo_threshold opts \<le> score)"

section \<open>Calculators\<close>

text \<open>\<open>a / b\<close>, which raises for zero.\<close>

definition true_div :: "real \<Rightarrow> real \<Rightarrow> exn + real" where
  "true_div a b = (if b = 0 then Inl (Exn (OtherException ''ZeroDivisionError'') ''division by zero'') else Inr (a / b))"

record quality_calculator =
  qc_name :: string
  qc_calculate :: "string \<Rightarrow> string option \<Rightarrow> quality_options \<Rightarrow> exn + quality_metric"

definition confidence_calculate :: "string \<Rightarrow> string \<Rightarrow> string option \<Rightarrow> exn + quality_metric" where
  "confidence_calculate name tx reference =
     (if tx = [] then quality_metric_init name 0 1
        [(''reason'', Detail_str ''empty''), (''reference_provided'', Detail_bool (reference \<noteq> None))]
      else
        let non_ws = filter (\<lambda>c. \<not> is_space c) tx in
        if non_ws = [] then quality_metric_init name 0 1
          [(''reason'', Detail_str ''whitespace_only''), (''length'', Detail_int (int (length tx)))]
        else
          let alnum = length (filter is_alnum non_ws) in
          and_then (true_div (real alnum) (real (length non_ws))) (\<lambda>score.
          quality_metric_init name score 1
            [(''alnum'', Detail_int (int alnum)), (''non_whitespace'', Detail_int (int (length non_ws)))]))"

definition confidence_calculator :: "string \<Rightarrow> quality_calculator" where
  "confidence_calculator name = \<lparr>qc_name = name, qc_calculate = (\<lambda>tx reference _. confidence_calculate name tx reference)\<rparr>"

definition length_calculate :: "string \<Rightarrow> int \<Rightarrow> string \<Rightarrow> exn + quality_metric" where
  "length_calculate name expected tx =
     (let len = int (length tx) in
      and_then (if len \<le> 0 then Inr 0 else if expected \<le> len then Inr 1 else true_div (real_of_int len) (real_of_int expected)) (\<lambda>score.
      quality_metric_init name score 1 [(''length'', Detail_int len), (''expected'', Detail_int expected)]))"

definition length_calculator :: "string \<Rightarrow> int \<Rightarrow> exn + quality_calculator" where
  "length_calculator name expected =
     (if expected \<le> 0 then Inl (Exn ValueError ''expected_length must be positive'')
      else Inr \<lparr>qc_name = name, qc_calculate = (\<lambda>tx _ _. length_calculate name expected tx)\<rparr>)"

definition whitespace_calculate :: "string \<Rightarrow> real \<Rightarrow> string \<Rightarrow> exn + quality_metric" where
  "whitespace_calculate name max_ratio tx =
     (let total = length tx in
      if total = 0 then quality_metric_init name 0 1 [(''reason'', Detail_str ''empty'')]
      else
        and_then (true_div (real (length (filter is_space tx))) (real total)) (\<lambda>ratio.
        and_then (if ratio \<le> max_ratio then Inr 1
            else and_then (true_div (ratio - max_ratio) (max (1 / 10 ^ 9) (1 - max_ratio))) (\<lambda>excess. Inr (max 0 (1 - excess)))) (\<lambda>score.
        quality_metric_init name score 1 [(''whitespace_ratio'', Detail_float ratio), (''max_ratio'', Detail_float max_ratio)])))"

definition whitespace_calculator :: "string \<Rightarrow> real \<Rightarrow> exn + quality_calculator" where
  "whitespace_calculator name max_ratio =
     (if \<not> (0 \<le> max_ratio \<and> max_ratio \<le> 1) then Inl (Exn ValueError ''max_whitespace_ratio must be between 0 and 1'')
      else Inr \<lparr>qc_name = name, qc_calculate = (\<lambda>tx _ _. whitespace_calculate name max_ratio tx)\<rparr>)"

definition calculators_register :: "quality_calculator \<Rightarrow> (quality_calculator named, unit) py" where
  "calculators_register c = named_register ''calculator name must not be empty'' (qc_name c) c"

definition calculators_get :: "quality_calculator named \<Rightarrow> string \<Rightarrow> exn + quality_calculator" where
  "calculators_get = named_get QualityCalculatorNotFoundError (\<lambda>n. ''No quality calculator registered under '' @ quoted n)"

definition calculators_has :: "quality_calculator named \<Rightarrow> string \<Rightarrow> bool" where
  "calculators_has = dict_has"

definition calculators_names :: "quality_calculator named \<Rightarrow> string list" where
  "calculators_names = named_names"


interpretation calculators: named_registry "\<lambda>_. calculators_register" "\<lambda>c n. qc_name c = n"
    calculators_get calculators_has calculators_names dict_wf
  unfolding calculators_get_def calculators_has_def calculators_names_def
  by (rule named_registry_intro) (auto simp: calculators_register_def)

section \<open>The service\<close>

datatype quality_event =
    OcrQualityStarted int int
  | OcrQualityCompleted real "(string \<times> real) list" bool
  | OcrQualityFailed string

record 'b quality_env =
  qv_registry :: "quality_calculator named"
  qv_engine :: "(quality_metric list \<Rightarrow> quality_options \<Rightarrow> exn + real) option"
  qv_emit :: "quality_event \<Rightarrow> ('b, unit) py"

definition quality_aggregate :: "'b quality_env \<Rightarrow> quality_metric list \<Rightarrow> quality_options \<Rightarrow> exn + real" where
  "quality_aggregate env ms opts = (case qv_engine env of None \<Rightarrow> Inr (weighted_average ms) | Some engine \<Rightarrow> engine ms opts)"

fun run_calculators ::
    "quality_calculator named \<Rightarrow> string \<Rightarrow> string option \<Rightarrow> quality_options \<Rightarrow> string list \<Rightarrow> exn + quality_metric list \<times> string list" where
  "run_calculators reg tx reference opts [] = Inr ([], [])"
| "run_calculators reg tx reference opts (n # ns) =
     (if \<not> metric_enabled opts n then run_calculators reg tx reference opts ns
      else (case calculators_get reg n of
          Inl e \<Rightarrow> Inl e
        | Inr c \<Rightarrow>
            (case run_calculators reg tx reference opts ns of
               Inl e \<Rightarrow> Inl e
             | Inr (ms, ws) \<Rightarrow>
                 (case qc_calculate c tx reference opts of
                    Inl exc \<Rightarrow> Inr (ms, (n @ '' failed: '' @ exn_str exc) # ws)
                  | Inr m \<Rightarrow> Inr (m # ms, ws)))))"

definition default_quality_options :: quality_options where
  "default_quality_options = \<lparr>qo_threshold = 1 / 2, qo_enabled_metrics = []\<rparr>"

definition quality_score ::
    "'b quality_env \<Rightarrow> string \<Rightarrow> string option \<Rightarrow> quality_options option \<Rightarrow> ('b, quality_report) py" where
  "quality_score env tx reference options =
     (let opts = (case options of None \<Rightarrow> default_quality_options | Some opts \<Rightarrow> opts) in
      py_bind (qv_emit env (OcrQualityStarted (int (length tx)) (int (length (case reference of None \<Rightarrow> [] | Some r \<Rightarrow> r))))) (\<lambda>_.
      py_try
        (py_bind (py_lift (run_calculators (qv_registry env) tx reference opts (calculators_names (qv_registry env)))) (\<lambda>(ms, ws).
         py_bind (py_lift (quality_aggregate env ms opts)) (\<lambda>overall.
         let report = report_build ms (qo_threshold opts) ws (Some overall) in
         py_bind (qv_emit env (OcrQualityCompleted (qr_overall_score report)
           (map (\<lambda>m. (qm_name m, qm_score m)) (qr_metrics report)) (is_low_quality report))) (\<lambda>_.
         py_return report))))
        (\<lambda>exc. py_bind (qv_emit env (OcrQualityFailed (exn_str exc))) (\<lambda>_. py_lift (Inl exc)))))"

section \<open>Lemmas\<close>

lemma metric_init_Inr:
  "0 \<le> score \<Longrightarrow> score \<le> 1 \<Longrightarrow> 0 \<le> weight \<Longrightarrow>
    quality_metric_init n score weight ds = Inr \<lparr>qm_name = n, qm_score = score, qm_weight = weight, qm_details = ds\<rparr>"
  by (simp add: quality_metric_init_def)

lemma filter_share: "xs \<noteq> [] \<Longrightarrow> 0 \<le> real (length (filter P xs)) / real (length xs) \<and> real (length (filter P xs)) / real (length xs) \<le> 1"
  by (simp add: divide_le_eq)

text \<open>A weighted average lies between the smallest and the largest score.\<close>

lemma weighted_sum_between:
  "\<forall>m \<in> set ms. lo \<le> qm_score m \<and> qm_score m \<le> hi \<and> 0 \<le> qm_weight m \<Longrightarrow>
    lo * sum_list (map qm_weight ms) \<le> sum_list (map (\<lambda>m. qm_score m * qm_weight m) ms) \<and>
    sum_list (map (\<lambda>m. qm_score m * qm_weight m) ms) \<le> hi * sum_list (map qm_weight ms)"
proof (induction ms)
  case Nil
  then show ?case by simp
next
  case (Cons m ms)
  then have "lo * qm_weight m \<le> qm_score m * qm_weight m" "qm_score m * qm_weight m \<le> hi * qm_weight m"
    by (simp_all add: mult_right_mono)
  with Cons show ?case by (simp add: distrib_left)
qed

lemma weighted_average_between:
  assumes "\<forall>m \<in> set ms. lo \<le> qm_score m \<and> qm_score m \<le> hi \<and> 0 \<le> qm_weight m" and "0 < sum_list (map qm_weight ms)"
  shows "lo \<le> weighted_average ms \<and> weighted_average ms \<le> hi"
  using weighted_sum_between [OF assms(1)] assms(2) by (simp add: weighted_average_def Let_def le_divide_eq divide_le_eq)

lemma weighted_average_unit:
  assumes "\<forall>m \<in> set ms. 0 \<le> qm_score m \<and> qm_score m \<le> 1 \<and> 0 \<le> qm_weight m"
  shows "0 \<le> weighted_average ms \<and> weighted_average ms \<le> 1"
  using weighted_average_between [OF assms] by (cases "0 < sum_list (map qm_weight ms)") (simp_all add: weighted_average_def)

definition metric_of :: "quality_calculator named \<Rightarrow> string \<Rightarrow> string option \<Rightarrow> quality_options \<Rightarrow> string \<Rightarrow> quality_metric option" where
  "metric_of reg tx reference opts n =
     (case dict_get reg n of None \<Rightarrow> None
      | Some c \<Rightarrow> (case qc_calculate c tx reference opts of Inl _ \<Rightarrow> None | Inr m \<Rightarrow> Some m))"

lemma run_calculators_returns:
  assumes "\<forall>n \<in> set ns. dict_has reg n"
  shows "\<exists>ms ws. run_calculators reg tx reference opts ns = Inr (ms, ws) \<and>
    ms = List.map_filter (metric_of reg tx reference opts) (filter (metric_enabled opts) ns) \<and>
    length ms + length ws = length (filter (metric_enabled opts) ns)"
  using assms
proof (induction ns)
  case Nil
  then show ?case by (simp add: List.map_filter_def)
next
  case (Cons n ns)
  obtain ms ws where r: "run_calculators reg tx reference opts ns = Inr (ms, ws)"
    "ms = List.map_filter (metric_of reg tx reference opts) (filter (metric_enabled opts) ns)"
    "length ms + length ws = length (filter (metric_enabled opts) ns)"
    using Cons by auto
  obtain c where c: "dict_get reg n = Some c" using Cons.prems by (auto simp: dict_has_def)
  show ?case
  proof (cases "metric_enabled opts n")
    case False
    with r show ?thesis by simp
  next
    case True
    with r c show ?thesis
      by (cases "qc_calculate c tx reference opts") (simp_all add: calculators_get_def named_get_def metric_of_def List.map_filter_def)
  qed
qed

section \<open>The scores of the calculators\<close>

definition share :: "('a \<Rightarrow> bool) \<Rightarrow> 'a list \<Rightarrow> real" where
  "share P xs = (if xs = [] then 0 else real (length (filter P xs)) / real (length xs))"

definition metric_with :: "string \<Rightarrow> (real \<Rightarrow> bool) \<Rightarrow> exn + quality_metric \<Rightarrow> bool" where
  "metric_with n P r = (case r of Inl _ \<Rightarrow> False | Inr m \<Rightarrow> qm_name m = n \<and> qm_weight m = 1 \<and> 0 \<le> qm_score m \<and> qm_score m \<le> 1 \<and> P (qm_score m))"

lemma share_unit: "0 \<le> share P xs \<and> share P xs \<le> 1"
  by (simp add: share_def divide_le_eq)

lemma confidence_metric:
  "metric_with n (\<lambda>score. score = share is_alnum (filter (\<lambda>c. \<not> is_space c) tx)) (confidence_calculate n tx reference)"
proof -
  define ws where "ws = filter (\<lambda>c. \<not> is_space c) tx"
  show ?thesis using share_unit [of is_alnum ws]
    unfolding confidence_calculate_def Let_def ws_def [symmetric]
    by (cases "tx = []"; cases "ws = []") (simp_all add: metric_with_def metric_init_Inr true_div_def share_def ws_def [symmetric], simp_all add: ws_def)
qed

lemma length_metric:
  assumes "0 < expected"
  shows "metric_with n (\<lambda>score. score = min 1 (real (length tx) / real_of_int expected)) (length_calculate n expected tx)"
proof -
  have "real (length tx) / real_of_int expected < 1 \<longleftrightarrow> int (length tx) < expected"
    using assms of_int_less_iff [of "int (length tx)" expected, where 'a = real] by (simp add: divide_less_eq)
  then show ?thesis using assms
    by (cases "tx = []"; cases "expected \<le> int (length tx)")
      (auto simp: length_calculate_def Let_def metric_with_def metric_init_Inr true_div_def min_def not_le)
qed

text \<open>The third score: tolerated white space costs nothing, more of it the excess as a share of what is left.\<close>

definition whitespace_score :: "real \<Rightarrow> string \<Rightarrow> real" where
  "whitespace_score ratio tx =
     (if tx = [] then 0 else if share is_space tx \<le> ratio then 1
      else max 0 (1 - (share is_space tx - ratio) / max (1 / 10 ^ 9) (1 - ratio)))"

lemma whitespace_metric:
  "metric_with n (\<lambda>score. score = whitespace_score ratio tx) (whitespace_calculate n ratio tx)"
proof (cases "tx = [] \<or> share is_space tx \<le> ratio")
  case True
  then show ?thesis
    by (auto simp: whitespace_calculate_def Let_def metric_with_def metric_init_Inr true_div_def share_def whitespace_score_def)
next
  case False
  define excess where "excess = (share is_space tx - ratio) / max (1 / 10 ^ 9) (1 - ratio)"
  have pos: "0 < max (1 / 10 ^ 9 :: real) (1 - ratio)" by (simp add: less_max_iff_disj)
  with False have "0 < excess" by (simp add: excess_def)
  moreover have "whitespace_calculate n ratio tx = quality_metric_init n (max 0 (1 - excess)) 1
      [(''whitespace_ratio'', Detail_float (share is_space tx)), (''max_ratio'', Detail_float ratio)]"
    using False pos by (auto simp: whitespace_calculate_def Let_def true_div_def share_def excess_def)
  ultimately show ?thesis using False by (simp add: metric_with_def metric_init_Inr whitespace_score_def excess_def)
qed

section \<open>Properties\<close>

text \<open>C26: 
  The calculators that come with the package cannot fail: for every text, the empty one included, they return a metric of
  their own name and weight one. The score of the first is the share of letters and digits among the characters that are no
  white space, that of the second the length as a share of the expected one, at most one; that of the third is one as long as the share of
  white space is tolerated and falls with the excess (\<open>whitespace_score\<close>). All scores are between zero and one, and zero for
  the empty text. The second and the third can be constructed exactly with a positive length and with a ratio between zero and
  one. Division by zero raises in the model as in Python, so the tests for empty texts are needed.
\<close>

theorem bundled_calculators_total:
  "metric_with n (\<lambda>score. score = share is_alnum (filter (\<lambda>c. \<not> is_space c) tx)) (qc_calculate (confidence_calculator n) tx reference opts) \<and>
   (case length_calculator n expected of
      Inl e \<Rightarrow> expected \<le> 0
    | Inr c \<Rightarrow> 0 < expected \<and> metric_with n (\<lambda>score. score = min 1 (real (length tx) / real_of_int expected)) (qc_calculate c tx reference opts)) \<and>
   (case whitespace_calculator n ratio of
      Inl e \<Rightarrow> ratio < 0 \<or> 1 < ratio
    | Inr c \<Rightarrow> 0 \<le> ratio \<and> ratio \<le> 1 \<and>
        metric_with n (\<lambda>score. score = whitespace_score ratio tx) (qc_calculate c tx reference opts))"
  using confidence_metric [of n tx reference] length_metric [of expected n tx] whitespace_metric [of n ratio tx]
  by (auto simp: confidence_calculator_def length_calculator_def whitespace_calculator_def metric_with_def split: sum.splits)


text \<open>
  An assessment without an engine of its own returns a report: the metrics of the enabled calculators
  that returned one, in the order of their sorted names, and one warning for each that raised. The
  overall score is between zero and one, and between the smallest and the largest score.
\<close>

theorem quality_score_correct:
  assumes "dict_wf (qv_registry env)" and "qv_engine env = None" and "\<forall>e b. fst (qv_emit env e b) = Inr ()"
    and "\<forall>n m. metric_of (qv_registry env) tx reference opts n = Some m \<longrightarrow> 0 \<le> qm_score m \<and> qm_score m \<le> 1 \<and> 0 \<le> qm_weight m"
  shows "\<exists>r b'. quality_score env tx reference (Some opts) b = (Inr r, b') \<and>
    (let enabled = filter (metric_enabled opts) (sort (dict_keys (qv_registry env))) in
      qr_metrics r = List.map_filter (metric_of (qv_registry env) tx reference opts) enabled \<and>
      length (qr_metrics r) + length (qr_warnings r) = length enabled) \<and>
    0 \<le> qr_overall_score r \<and> qr_overall_score r \<le> 1 \<and> (is_low_quality r \<longleftrightarrow> qr_overall_score r < qo_threshold opts) \<and>
    (\<forall>lo hi. (\<forall>m \<in> set (qr_metrics r). lo \<le> qm_score m \<and> qm_score m \<le> hi) \<and> 0 < sum_list (map qm_weight (qr_metrics r)) \<longrightarrow>
      lo \<le> qr_overall_score r \<and> qr_overall_score r \<le> hi)"
proof -
  let ?ns = "calculators_names (qv_registry env)"
  have ns: "?ns = sort (dict_keys (qv_registry env))" by (simp add: calculators_names_def named_names_def)
  have "\<forall>n \<in> set ?ns. dict_has (qv_registry env) n" unfolding ns by (simp add: dict_has_iff)
  then obtain ms ws where r: "run_calculators (qv_registry env) tx reference opts ?ns = Inr (ms, ws)"
    "ms = List.map_filter (metric_of (qv_registry env) tx reference opts) (filter (metric_enabled opts) ?ns)"
    "length ms + length ws = length (filter (metric_enabled opts) ?ns)"
    using run_calculators_returns by blast
  let ?r = "report_build ms (qo_threshold opts) ws (Some (weighted_average ms))"
  have ok: "\<forall>m \<in> set ms. 0 \<le> qm_score m \<and> qm_score m \<le> 1 \<and> 0 \<le> qm_weight m"
  proof
    fix m assume "m \<in> set ms"
    then obtain n where "metric_of (qv_registry env) tx reference opts n = Some m" unfolding r(2) by (auto simp: List.map_filter_def)
    then show "0 \<le> qm_score m \<and> qm_score m \<le> 1 \<and> 0 \<le> qm_weight m" using assms(4) by blast
  qed
  have "\<exists>b'. quality_score env tx reference (Some opts) b = (Inr ?r, b')"
    using r(1) assms(2,3) by (simp add: quality_score_def quality_aggregate_def py_bind_split py_try_split Let_def)
  then obtain b' where q: "quality_score env tx reference (Some opts) b = (Inr ?r, b')" by blast
  have fields: "qr_metrics ?r = ms" "qr_warnings ?r = ws" "qr_overall_score ?r = weighted_average ms"
    "is_low_quality ?r \<longleftrightarrow> weighted_average ms < qo_threshold opts"
    by (simp_all add: report_build_def is_low_quality_def)
  have between: "\<forall>lo hi. (\<forall>m \<in> set ms. lo \<le> qm_score m \<and> qm_score m \<le> hi) \<and> 0 < sum_list (map qm_weight ms) \<longrightarrow>
      lo \<le> weighted_average ms \<and> weighted_average ms \<le> hi"
    using weighted_average_between [of ms] ok by metis
  show ?thesis
    by (intro exI [of _ ?r] exI [of _ b'], unfold fields Let_def)
      (intro conjI q r(2) [unfolded ns] r(3) [unfolded ns] weighted_average_unit [OF ok, THEN conjunct1]
        weighted_average_unit [OF ok, THEN conjunct2] refl between)
qed

text \<open>
  If the aggregation engine raises, the assessment raises the same exception after announcing the
  start and the failure, and nothing else.
\<close>

theorem quality_score_engine_fails:
  assumes "qv_engine env = Some engine" and "\<forall>ms. engine ms opts = Inl e" and "qv_emit env = (\<lambda>e. py_modify (\<lambda>es. es @ [e]))"
  shows "quality_score env tx reference (Some opts) es =
    (Inl e, es @ [OcrQualityStarted (int (length tx)) (int (length (case reference of None \<Rightarrow> [] | Some r \<Rightarrow> r))),
      OcrQualityFailed (exn_str e)])"
proof -
  have "\<forall>n \<in> set (calculators_names (qv_registry env)). dict_has (qv_registry env) n"
    by (simp add: calculators_names_def named_names_def dict_has_iff)
  then obtain ms ws where "run_calculators (qv_registry env) tx reference opts (calculators_names (qv_registry env)) = Inr (ms, ws)"
    using run_calculators_returns by blast
  then show ?thesis using assms by (simp add: quality_score_def quality_aggregate_def py_bind_split py_try_split)
qed

section \<open>Witnesses\<close>

definition failing_calculator :: quality_calculator where
  "failing_calculator = \<lparr>qc_name = ''model'', qc_calculate = (\<lambda>_ _ _. Inl (Exn ValueError ''no model''))\<rparr>"

definition sample_quality_env :: "(quality_metric list \<Rightarrow> quality_options \<Rightarrow> exn + real) option \<Rightarrow> quality_event list quality_env" where
  "sample_quality_env engine = \<lparr>qv_registry = [(''model'', failing_calculator), (''confidence'', confidence_calculator ''confidence'')],
     qv_engine = engine, qv_emit = (\<lambda>e. py_modify (\<lambda>es. es @ [e]))\<rparr>"

lemma quality_score_correct_witness:
  "\<exists>r b'. quality_score (sample_quality_env None) ''ab'' None (Some default_quality_options) [] = (Inr r, b') \<and>
    length (qr_metrics r) + length (qr_warnings r) = 2 \<and> qr_overall_score r \<le> 1"
proof -
  have m: "\<forall>n m. metric_of (qv_registry (sample_quality_env None)) ''ab'' None default_quality_options n = Some m \<longrightarrow>
      0 \<le> qm_score m \<and> qm_score m \<le> 1 \<and> 0 \<le> qm_weight m"
  proof (intro allI impI)
    fix n m assume "metric_of (qv_registry (sample_quality_env None)) ''ab'' None default_quality_options n = Some m"
    then have "confidence_calculate ''confidence'' ''ab'' None = Inr m"
      by (auto simp: metric_of_def sample_quality_env_def failing_calculator_def confidence_calculator_def split: if_splits sum.splits)
    then show "0 \<le> qm_score m \<and> qm_score m \<le> 1 \<and> 0 \<le> qm_weight m"
      using confidence_metric [of "''confidence''" "''ab''" None] by (simp add: metric_with_def)
  qed
  show ?thesis using quality_score_correct [OF _ _ _ m, of "[]"]
    by (auto simp: sample_quality_env_def dict_wf_def default_quality_options_def metric_enabled_def Let_def)
qed

lemma quality_score_engine_fails_witness:
  "quality_score (sample_quality_env (Some (\<lambda>_ _. Inl (Exn ValueError ''x'')))) ''ab'' None (Some default_quality_options) [] =
    (Inl (Exn ValueError ''x''), [OcrQualityStarted 2 0, OcrQualityFailed ''x''])"
  using quality_score_engine_fails [of "sample_quality_env (Some (\<lambda>_ _. Inl (Exn ValueError ''x'')))" "\<lambda>_ _. Inl (Exn ValueError ''x'')"
      default_quality_options "Exn ValueError ''x''" "''ab''" None "[]"]
  by (simp add: sample_quality_env_def)

end
