(* ===== verification/Ocr_Pipeline.thy ===== *)
theory Ocr_Pipeline
  imports Complex_Main Named_Registry "HOL-Library.Word"
begin

text \<open>
  \<open>ocr/pipeline/\<close>: the ordered run of processing steps over one page. A step is a function of the page
  that may change the state dictionary shared by the steps of one run, and returns a result or
  raises. What a step returns is an object of any kind: a parameter tells whether it is a text and
  what \<open>str\<close> makes of it. The local variables of \<open>run\<close> that its exception handler reads are part of
  the state of the run.
\<close>

section \<open>Values\<close>

record 'd step_result =
  sp_step_name :: string
  sp_data :: 'd
  sp_metadata :: "(string, 'd) dict"
  sp_duration_ms :: real

record ocr_pipeline_options =
  po_step_names :: "string list"

definition step_enabled :: "ocr_pipeline_options \<Rightarrow> string \<Rightarrow> bool" where
  "step_enabled opts name = (name \<in> set (po_step_names opts))"

definition step_keeps :: "ocr_pipeline_options \<Rightarrow> string \<Rightarrow> bool" where
  "step_keeps = step_enabled"

record 'd ocr_pipeline_result =
  op_page_number :: int
  op_step_results :: "'d step_result list"
  op_final_text :: string
  op_duration_ms :: real
  op_is_success :: bool

definition step_count :: "'d ocr_pipeline_result \<Rightarrow> nat" where
  "step_count r = length (op_step_results r)"

record ('d, 'v) ocr_step =
  os_name :: string
  os_process :: "8 word list \<Rightarrow> int \<Rightarrow> ((string, 'v) dict, 'd step_result) py"

section \<open>The registry of steps\<close>

definition steps_register :: "('d, 'v) ocr_step \<Rightarrow> (('d, 'v) ocr_step named, unit) py" where
  "steps_register s = named_register ''step name must not be empty'' (os_name s) s"

definition steps_get :: "('d, 'v) ocr_step named \<Rightarrow> string \<Rightarrow> exn + ('d, 'v) ocr_step" where
  "steps_get = named_get OcrPipelineStepNotFoundError (\<lambda>n. ''No OCR pipeline step registered under '' @ quoted n)"

definition steps_has :: "('d, 'v) ocr_step named \<Rightarrow> string \<Rightarrow> bool" where
  "steps_has = dict_has"

definition steps_names :: "('d, 'v) ocr_step named \<Rightarrow> string list" where
  "steps_names = named_names"

interpretation ocr_steps: named_registry "\<lambda>_. steps_register" "\<lambda>s n. os_name s = n" steps_get steps_has steps_names dict_wf
  unfolding steps_get_def steps_has_def steps_names_def
  by (rule named_registry_intro) (auto simp: steps_register_def)

section \<open>The service\<close>

datatype ocr_pipeline_event =
    OcrPipelineStarted string int "string list"
  | OcrPipelineStepCompleted string int string real
  | OcrPipelineCompleted string int int string real
  | OcrPipelineFailed string int string string

record ('d, 'v, 'b) ocr_pipeline_env =
  ov_registry :: "('d, 'v) ocr_step named"
  ov_default_sequence :: "string list"
  ov_emit :: "ocr_pipeline_event \<Rightarrow> ('b, unit) py"
  ov_clock :: "nat \<Rightarrow> real"
  ov_as_str :: "'d \<Rightarrow> string option"
  ov_str :: "'d \<Rightarrow> string"

record ('d, 'v, 'b) ocr_run =
  or_state :: "(string, 'v) dict"
  or_sink :: 'b
  or_ticks :: nat
  or_results :: "'d step_result list"
  or_final_text :: string
  or_name :: string

type_synonym ('d, 'v, 'b, 'a) ocr_py = "(('d, 'v, 'b) ocr_run, 'a) py"

definition pipeline_emit :: "('d, 'v, 'b) ocr_pipeline_env \<Rightarrow> ocr_pipeline_event \<Rightarrow> ('d, 'v, 'b, unit) ocr_py" where
  "pipeline_emit env e = py_on or_sink (\<lambda>b w. w\<lparr>or_sink := b\<rparr>) (ov_emit env e)"

definition pipeline_counter :: "('d, 'v, 'b) ocr_pipeline_env \<Rightarrow> ('d, 'v, 'b, real) ocr_py" where
  "pipeline_counter env = (\<lambda>w. (Inr (ov_clock env (or_ticks w)), w\<lparr>or_ticks := Suc (or_ticks w)\<rparr>))"

text \<open>The text a step contributes: its data if that is a text, else the entry \<open>text\<close> of its metadata.\<close>

definition contributed_text :: "('d, 'v, 'b) ocr_pipeline_env \<Rightarrow> 'd step_result \<Rightarrow> string option" where
  "contributed_text env r =
     (case ov_as_str env (sp_data r) of
        Some s \<Rightarrow> Some s
      | None \<Rightarrow> (case dict_get (sp_metadata r) ''text'' of None \<Rightarrow> None | Some d \<Rightarrow> Some (ov_str env d)))"

definition run_ocr_step ::
    "('d, 'v, 'b) ocr_pipeline_env \<Rightarrow> 8 word list \<Rightarrow> int \<Rightarrow> string \<Rightarrow> ('d, 'v, 'b, unit) ocr_py" where
  "run_ocr_step env img page name =
     py_bind (py_modify (\<lambda>w. w\<lparr>or_name := name\<rparr>)) (\<lambda>_.
     py_bind (py_lift (steps_get (ov_registry env) name)) (\<lambda>step.
     py_bind (pipeline_counter env) (\<lambda>step_start.
     py_bind (py_on or_state (\<lambda>st w. w\<lparr>or_state := st\<rparr>) (os_process step img page)) (\<lambda>result.
     py_bind (pipeline_counter env) (\<lambda>t.
     let r = result\<lparr>sp_duration_ms := (t - step_start) * 1000\<rparr> in
     py_bind (py_modify (\<lambda>w. w\<lparr>or_results := or_results w @ [r]\<rparr>)) (\<lambda>_.
     py_bind (case contributed_text env r of
         None \<Rightarrow> py_return () | Some s \<Rightarrow> py_modify (\<lambda>w. w\<lparr>or_final_text := s\<rparr>)) (\<lambda>_.
     pipeline_emit env (OcrPipelineStepCompleted (int_str page) page (sp_step_name r) (sp_duration_ms r)))))))))"

definition run_ocr_pipeline ::
    "('d, 'v, 'b) ocr_pipeline_env \<Rightarrow> 8 word list \<Rightarrow> ocr_pipeline_options option \<Rightarrow> int \<Rightarrow> ('d, 'v, 'b, 'd ocr_pipeline_result) ocr_py" where
  "run_ocr_pipeline env img options page =
     (if img = [] then py_raise ValueError ''image_data must not be empty''
      else
        let names = (case options of None \<Rightarrow> ov_default_sequence env | Some opts \<Rightarrow> po_step_names opts) in
        py_bind (pipeline_emit env (OcrPipelineStarted (int_str page) page names)) (\<lambda>_.
        py_bind (pipeline_counter env) (\<lambda>started.
        py_bind (py_modify (\<lambda>w. w\<lparr>or_state := [], or_results := [], or_final_text := [], or_name := []\<rparr>)) (\<lambda>_.
        py_bind (py_try (py_for names (run_ocr_step env img page))
          (\<lambda>exc.
             py_bind (pipeline_counter env) (\<lambda>_.
             py_bind (py_read or_name) (\<lambda>name.
             py_bind (pipeline_emit env (OcrPipelineFailed (int_str page) page name (exn_str exc))) (\<lambda>_.
             py_lift (Inl exc)))))) (\<lambda>_.
        py_bind (pipeline_counter env) (\<lambda>t.
        py_bind (py_read (\<lambda>w. (or_results w, or_final_text w))) (\<lambda>(results, final_text).
        let total = (t - started) * 1000 in
        py_bind (pipeline_emit env (OcrPipelineCompleted (int_str page) page (int (length results)) final_text total)) (\<lambda>_.
        py_return \<lparr>op_page_number = page, op_step_results = results, op_final_text = final_text,
          op_duration_ms = total, op_is_success = True\<rparr>))))))))"

section \<open>Lemmas\<close>

lemma pipeline_counter_app [simp]: "pipeline_counter env w = (Inr (ov_clock env (or_ticks w)), w\<lparr>or_ticks := Suc (or_ticks w)\<rparr>)"
  by (simp add: pipeline_counter_def)

definition records_run :: "('d, 'v, ocr_pipeline_event list) ocr_pipeline_env \<Rightarrow> bool" where
  "records_run env = (ov_emit env = (\<lambda>e. py_modify (\<lambda>es. es @ [e])))"

lemma pipeline_emit_recorded: "records_run env \<Longrightarrow> pipeline_emit env e w = (Inr (), w\<lparr>or_sink := or_sink w @ [e]\<rparr>)"
  by (simp add: pipeline_emit_def records_run_def)

text \<open>What the steps do on their own: the results of the steps that returned, the state they leave, and
  the name and the exception of the step that ended the run, if one did.\<close>

fun steps_semantics ::
    "('d, 'v) ocr_step named \<Rightarrow> 8 word list \<Rightarrow> int \<Rightarrow> string list \<Rightarrow> (string, 'v) dict \<Rightarrow> 'd step_result list \<times> (string \<times> exn) option" where
  "steps_semantics reg img page [] st = ([], None)"
| "steps_semantics reg img page (n # ns) st =
     (case steps_get reg n of
        Inl e \<Rightarrow> ([], Some (n, e))
      | Inr step \<Rightarrow>
          (case os_process step img page st of
             (Inl e, _) \<Rightarrow> ([], Some (n, e))
           | (Inr r, st') \<Rightarrow> (case steps_semantics reg img page ns st' of (rs, fin) \<Rightarrow> (r # rs, fin))))"

definition same_result :: "'d step_result \<Rightarrow> 'd step_result \<Rightarrow> bool" where
  "same_result r r' = (r' = r\<lparr>sp_duration_ms := sp_duration_ms r'\<rparr>)"

definition step_event :: "int \<Rightarrow> 'd step_result \<Rightarrow> ocr_pipeline_event" where
  "step_event page r = OcrPipelineStepCompleted (int_str page) page (sp_step_name r) (sp_duration_ms r)"

fun last_text :: "('d, 'v, 'b) ocr_pipeline_env \<Rightarrow> 'd step_result list \<Rightarrow> string \<Rightarrow> string" where
  "last_text env [] s = s"
| "last_text env (r # rs) s = last_text env rs (case contributed_text env r of None \<Rightarrow> s | Some t \<Rightarrow> t)"

lemma contributed_text_duration [simp]: "contributed_text env (r\<lparr>sp_duration_ms := x\<rparr>) = contributed_text env r"
  by (simp add: contributed_text_def split: option.split)

lemma run_steps_spec:
  assumes "records_run env"
  shows "\<exists>w' rs. list_all2 same_result (fst (steps_semantics (ov_registry env) img page ns (or_state w))) rs \<and>
    or_results w' = or_results w @ rs \<and> or_final_text w' = last_text env rs (or_final_text w) \<and>
    or_sink w' = or_sink w @ map (step_event page) rs \<and>
    (case snd (steps_semantics (ov_registry env) img page ns (or_state w)) of
       None \<Rightarrow> py_for ns (run_ocr_step env img page) w = (Inr (), w')
     | Some (n, e) \<Rightarrow> py_for ns (run_ocr_step env img page) w = (Inl e, w') \<and> or_name w' = n)"
proof (induction ns arbitrary: w)
  case Nil
  then show ?case by (intro exI [of _ w] exI [of _ "[]"]) simp
next
  case (Cons n ns)
  show ?case
  proof (cases "steps_get (ov_registry env) n")
    case (Inl e)
    then show ?thesis
      by (intro exI [of _ "w\<lparr>or_name := n\<rparr>"] exI [of _ "[]"]) (simp add: run_ocr_step_def py_bind_split)
  next
    case (Inr step)
    obtain out st where p: "os_process step img page (or_state w) = (out, st)" by fastforce
    show ?thesis
    proof (cases out)
      case (Inl e)
      then show ?thesis using Inr p
        by (intro exI [of _ "w\<lparr>or_name := n, or_ticks := Suc (or_ticks w), or_state := st\<rparr>"] exI [of _ "[]"])
          (simp add: run_ocr_step_def py_bind_split)
    next
      case r: (Inr r)
      define r' where "r' = r\<lparr>sp_duration_ms := (ov_clock env (Suc (or_ticks w)) - ov_clock env (or_ticks w)) * 1000\<rparr>"
      define w1 where "w1 = w\<lparr>or_name := n, or_ticks := Suc (Suc (or_ticks w)), or_state := st, or_results := or_results w @ [r'],
        or_final_text := (case contributed_text env r' of None \<Rightarrow> or_final_text w | Some s \<Rightarrow> s), or_sink := or_sink w @ [step_event page r']\<rparr>"
      have step: "run_ocr_step env img page n w = (Inr (), w1)"
        using Inr p r pipeline_emit_recorded [OF assms]
        by (simp add: run_ocr_step_def py_bind_split w1_def r'_def step_event_def Let_def split: option.split)
      have st: "or_state w1 = st" by (simp add: w1_def)
      obtain w' rs where rest: "list_all2 same_result (fst (steps_semantics (ov_registry env) img page ns st)) rs"
        "or_results w' = or_results w1 @ rs" "or_final_text w' = last_text env rs (or_final_text w1)"
        "or_sink w' = or_sink w1 @ map (step_event page) rs"
        "case snd (steps_semantics (ov_registry env) img page ns st) of
           None \<Rightarrow> py_for ns (run_ocr_step env img page) w1 = (Inr (), w')
         | Some (n, e) \<Rightarrow> py_for ns (run_ocr_step env img page) w1 = (Inl e, w') \<and> or_name w' = n"
        using Cons.IH [of w1] unfolding st by (elim exE conjE)
      have sem: "steps_semantics (ov_registry env) img page (n # ns) (or_state w) =
          (r # fst (steps_semantics (ov_registry env) img page ns st), snd (steps_semantics (ov_registry env) img page ns st))"
        using Inr p r by (simp add: case_prod_unfold)
      have "same_result r r'" by (simp add: same_result_def r'_def)
      moreover have "or_results w1 = or_results w @ [r']" "or_sink w1 = or_sink w @ [step_event page r']"
        "or_final_text w1 = (case contributed_text env r' of None \<Rightarrow> or_final_text w | Some s \<Rightarrow> s)" by (simp_all add: w1_def)
      ultimately show ?thesis unfolding sem fst_conv snd_conv
        using rest step
        by (cases "snd (steps_semantics (ov_registry env) img page ns st)")
          (intro exI [of _ w'] exI [of _ "r' # rs"], simp add: case_prod_unfold)+
    qed
  qed
qed

section \<open>Properties\<close>

text \<open>C35: 
  A run over a page executes the steps in the order asked for, each on the state the earlier ones left,
  up to the first that is unknown or raises. If none does, the run returns the results, all of
  them, and the text contributed last, after announcing the start, each step and the completion.
  Otherwise it announces the failure of that very step and raises its exception.
\<close>

theorem ocr_pipeline_outcome:
  assumes "records_run env" and "img \<noteq> []" and "or_sink w = []"
    and "names = (case options of None \<Rightarrow> ov_default_sequence env | Some opts \<Rightarrow> po_step_names opts)"
    and "steps_semantics (ov_registry env) img page names [] = (plain, fin)"
  shows "\<exists>rs w'. list_all2 same_result plain rs \<and>
    (case fin of
       None \<Rightarrow> (\<exists>total. run_ocr_pipeline env img options page w =
           (Inr \<lparr>op_page_number = page, op_step_results = rs, op_final_text = last_text env rs [], op_duration_ms = total, op_is_success = True\<rparr>, w') \<and>
         or_sink w' = OcrPipelineStarted (int_str page) page names # map (step_event page) rs @
           [OcrPipelineCompleted (int_str page) page (int (length names)) (last_text env rs []) total])
     | Some (n, e) \<Rightarrow> run_ocr_pipeline env img options page w = (Inl e, w') \<and>
         or_sink w' = OcrPipelineStarted (int_str page) page names # map (step_event page) rs @
           [OcrPipelineFailed (int_str page) page n (exn_str e)])"
proof -
  have len: "fin = None \<Longrightarrow> length plain = length names"
  proof -
    have "steps_semantics reg img page ns st = (p, None) \<Longrightarrow> length p = length ns" for reg ns st p
      by (induction ns arbitrary: st p) (auto split: sum.splits prod.splits)
    then show "fin = None \<Longrightarrow> length plain = length names" using assms(5) by blast
  qed
  define w0 where "w0 = w\<lparr>or_sink := [OcrPipelineStarted (int_str page) page names], or_ticks := Suc (or_ticks w),
    or_state := [], or_results := [], or_final_text := [], or_name := []\<rparr>"
  have "or_state w0 = []" "or_results w0 = []" "or_final_text w0 = []" "or_sink w0 = [OcrPipelineStarted (int_str page) page names]"
    by (simp_all add: w0_def)
  note w0 = this
  obtain w1 rs where r: "list_all2 same_result plain rs" "or_results w1 = rs" "or_final_text w1 = last_text env rs []"
    "or_sink w1 = OcrPipelineStarted (int_str page) page names # map (step_event page) rs"
    "case fin of None \<Rightarrow> py_for names (run_ocr_step env img page) w0 = (Inr (), w1)
     | Some (n, e) \<Rightarrow> py_for names (run_ocr_step env img page) w0 = (Inl e, w1) \<and> or_name w1 = n"
    using run_steps_spec [OF assms(1), of img page names w0] unfolding w0 assms(5) by auto
  have run: "run_ocr_pipeline env img options page w =
      (case py_for names (run_ocr_step env img page) w0 of
         (Inl e, w1) \<Rightarrow> (Inl e, w1\<lparr>or_ticks := Suc (or_ticks w1), or_sink := or_sink w1 @ [OcrPipelineFailed (int_str page) page (or_name w1) (exn_str e)]\<rparr>)
       | (Inr _, w1) \<Rightarrow>
           let total = (ov_clock env (or_ticks w1) - ov_clock env (or_ticks w)) * 1000 in
           (Inr \<lparr>op_page_number = page, op_step_results = or_results w1, op_final_text = or_final_text w1, op_duration_ms = total, op_is_success = True\<rparr>,
            w1\<lparr>or_ticks := Suc (or_ticks w1), or_sink := or_sink w1 @
              [OcrPipelineCompleted (int_str page) page (int (length (or_results w1))) (or_final_text w1) total]\<rparr>))"
    using assms(2,3) pipeline_emit_recorded [OF assms(1)]
    by (simp add: run_ocr_pipeline_def assms(4) [symmetric] py_bind_split py_try_split w0_def Let_def split: prod.split sum.split)
  show ?thesis
  proof (cases fin)
    case None
    then have "length rs = length names" using len r(1) list_all2_lengthD by metis
    with r None run show ?thesis by (intro exI [of _ rs]) (simp add: Let_def)
  next
    case (Some ne)
    with r run show ?thesis by (intro exI [of _ rs]) (auto split: prod.splits)
  qed
qed

section \<open>Witnesses\<close>

definition sample_step :: "string \<Rightarrow> (string, int) ocr_step" where
  "sample_step n = \<lparr>os_name = n, os_process = (\<lambda>_ _. py_bind (py_modify (dict_set n 1))
     (\<lambda>_. py_return \<lparr>sp_step_name = n, sp_data = ''from '' @ n, sp_metadata = [], sp_duration_ms = 0\<rparr>))\<rparr>"

definition sample_pipeline_env :: "(string, int, ocr_pipeline_event list) ocr_pipeline_env" where
  "sample_pipeline_env = \<lparr>ov_registry = [(''ocr'', sample_step ''ocr'')], ov_default_sequence = [''ocr'', ''clean''],
     ov_emit = (\<lambda>e. py_modify (\<lambda>es. es @ [e])), ov_clock = real, ov_as_str = Some, ov_str = (\<lambda>s. s)\<rparr>"

definition sample_run :: "(string, int, ocr_pipeline_event list) ocr_run" where
  "sample_run = \<lparr>or_state = [], or_sink = [], or_ticks = 0, or_results = [], or_final_text = [], or_name = []\<rparr>"

lemma ocr_pipeline_outcome_witness:
  "\<exists>w'. run_ocr_pipeline sample_pipeline_env [1] None 7 sample_run =
    (Inl (Exn OcrPipelineStepNotFoundError (''No OCR pipeline step registered under '' @ quoted ''clean'')), w')"
proof -
  let ?e = "Exn OcrPipelineStepNotFoundError (''No OCR pipeline step registered under '' @ quoted ''clean'')"
  have sem: "steps_semantics (ov_registry sample_pipeline_env) [1] 7 [''ocr'', ''clean''] [] =
      ([\<lparr>sp_step_name = ''ocr'', sp_data = ''from ocr'', sp_metadata = [], sp_duration_ms = 0\<rparr>], Some (''clean'', ?e))"
    by (simp add: sample_pipeline_env_def steps_get_def named_get_def sample_step_def)
  have names: "[''ocr'', ''clean''] = (case None of None \<Rightarrow> ov_default_sequence sample_pipeline_env | Some opts \<Rightarrow> po_step_names opts)"
    by (simp add: sample_pipeline_env_def)
  have rec: "records_run sample_pipeline_env" "or_sink sample_run = []"
    by (simp_all add: records_run_def sample_pipeline_env_def sample_run_def)
  from ocr_pipeline_outcome [OF rec(1) _ rec(2) names sem]
  obtain w' where "run_ocr_pipeline sample_pipeline_env [1] None 7 sample_run = (Inl ?e, w')" by auto
  then show ?thesis by blast
qed

end
