(* ===== verification/Ocr_Preprocessing.thy ===== *)
theory Ocr_Preprocessing
  imports Complex_Main Named_Registry "HOL-Library.Word"
begin

text \<open>
  \<open>ocr/preprocessing/\<close>: options, operations over an imaging engine, their registry and the pipeline. The
  engine is a third-party library behind a protocol: a record of functions on images of any type,
  each of which may raise.
\<close>

type_synonym bytes = "8 word list"

section \<open>Options and results\<close>

record preprocessing_options =
  pp_grayscale :: bool
  pp_binarize :: bool
  pp_binarize_threshold :: real
  pp_resize_max_dim :: int
  pp_deskew :: bool
  pp_denoise :: bool
  pp_enabled_operations :: "string list"

definition preprocessing_options_init :: "preprocessing_options \<Rightarrow> exn + preprocessing_options" where
  "preprocessing_options_init opts =
     (if \<not> (0 \<le> pp_binarize_threshold opts \<and> pp_binarize_threshold opts \<le> 1)
      then Inl (Exn ValueError ''binarize_threshold must be between 0 and 1'')
      else if pp_resize_max_dim opts < 0 then Inl (Exn ValueError ''resize_max_dim must be non-negative'')
      else Inr opts)"


record preprocessing_result =
  pr_image_data :: bytes
  pr_applied_operations :: "string list"
  pr_warnings :: "string list"

definition was_modified :: "preprocessing_result \<Rightarrow> bool" where
  "was_modified r = (pr_applied_operations r \<noteq> [])"

section \<open>Operations\<close>

record 'i image_engine =
  ie_load :: "bytes \<Rightarrow> exn + 'i"
  ie_save :: "'i \<Rightarrow> exn + bytes"
  ie_grayscale :: "'i \<Rightarrow> exn + 'i"
  ie_binarize :: "'i \<Rightarrow> real \<Rightarrow> exn + 'i"
  ie_resize :: "'i \<Rightarrow> int \<Rightarrow> exn + 'i"
  ie_deskew :: "'i \<Rightarrow> exn + 'i"
  ie_denoise :: "'i \<Rightarrow> exn + 'i"

record image_operation =
  io_name :: string
  io_apply :: "bytes \<Rightarrow> preprocessing_options \<Rightarrow> exn + bytes"

text \<open>\<open>ImageOperation.apply\<close>, for the transformation a subclass provides.\<close>

definition operation_apply ::
    "'i image_engine \<Rightarrow> ('i \<Rightarrow> preprocessing_options \<Rightarrow> exn + 'i) \<Rightarrow> bytes \<Rightarrow> preprocessing_options \<Rightarrow> exn + bytes" where
  "operation_apply engine transform data opts =
     (case ie_load engine data of
        Inl e \<Rightarrow> Inl e
      | Inr i \<Rightarrow> (case transform i opts of Inl e \<Rightarrow> Inl e | Inr i' \<Rightarrow> ie_save engine i'))"

definition grayscale_operation :: "'i image_engine \<Rightarrow> image_operation" where
  "grayscale_operation engine =
     \<lparr>io_name = ''grayscale'', io_apply = operation_apply engine (\<lambda>i _. ie_grayscale engine i)\<rparr>"

definition binarize_operation :: "'i image_engine \<Rightarrow> image_operation" where
  "binarize_operation engine =
     \<lparr>io_name = ''binarize'', io_apply = operation_apply engine (\<lambda>i opts. ie_binarize engine i (pp_binarize_threshold opts))\<rparr>"

definition resize_operation :: "'i image_engine \<Rightarrow> image_operation" where
  "resize_operation engine =
     \<lparr>io_name = ''resize'', io_apply = operation_apply engine (\<lambda>i opts. ie_resize engine i (pp_resize_max_dim opts))\<rparr>"

definition deskew_operation :: "'i image_engine \<Rightarrow> image_operation" where
  "deskew_operation engine =
     \<lparr>io_name = ''deskew'', io_apply = operation_apply engine (\<lambda>i _. ie_deskew engine i)\<rparr>"

definition denoise_operation :: "'i image_engine \<Rightarrow> image_operation" where
  "denoise_operation engine =
     \<lparr>io_name = ''denoise'', io_apply = operation_apply engine (\<lambda>i _. ie_denoise engine i)\<rparr>"

definition operations_register :: "image_operation \<Rightarrow> (image_operation named, unit) py" where
  "operations_register op = named_register ''operation name must not be empty'' (io_name op) op"

definition operations_get :: "image_operation named \<Rightarrow> string \<Rightarrow> exn + image_operation" where
  "operations_get = named_get ImageOperationError (\<lambda>n. ''No operation registered for '' @ quoted n)"

definition operations_has :: "image_operation named \<Rightarrow> string \<Rightarrow> bool" where
  "operations_has = dict_has"

definition operations_names :: "image_operation named \<Rightarrow> string list" where
  "operations_names = named_names"

interpretation operations: named_registry "\<lambda>_. operations_register" "\<lambda>op n. io_name op = n"
    operations_get operations_has operations_names dict_wf
  unfolding operations_get_def operations_has_def operations_names_def
  by (rule named_registry_intro) (auto simp: operations_register_def)

definition build_default_registry :: "'i image_engine \<Rightarrow> image_operation named" where
  "build_default_registry engine =
     snd (py_for [grayscale_operation engine, binarize_operation engine, resize_operation engine,
       deskew_operation engine, denoise_operation engine] operations_register [])"

section \<open>The pipeline\<close>

datatype preprocessing_event =
    ImagePreprocessingStarted string string string
  | ImagePreprocessingCompleted string string string "string list" nat
  | ImagePreprocessingFailed string string string string

record 'b preprocessing_env =
  pe_registry :: "image_operation named"
  pe_emit :: "preprocessing_event \<Rightarrow> ('b, unit) py"

definition ordered_operations :: "preprocessing_options \<Rightarrow> string list" where
  "ordered_operations opts =
     (if pp_enabled_operations opts \<noteq> [] then pp_enabled_operations opts
      else (if pp_grayscale opts then [''grayscale''] else []) @ (if pp_deskew opts then [''deskew''] else []) @
        (if pp_denoise opts then [''denoise''] else []) @ (if pp_binarize opts then [''binarize''] else []) @
        (if 0 < pp_resize_max_dim opts then [''resize''] else []))"

fun apply_operations ::
    "image_operation named \<Rightarrow> preprocessing_options \<Rightarrow> string list \<Rightarrow> bytes \<Rightarrow> exn + bytes \<times> string list" where
  "apply_operations reg opts [] data = Inr (data, [])"
| "apply_operations reg opts (n # ns) data =
     (case operations_get reg n of
        Inl e \<Rightarrow> Inl e
      | Inr op \<Rightarrow>
          (case io_apply op data opts of
             Inl e \<Rightarrow> Inl e
           | Inr data' \<Rightarrow>
               (case apply_operations reg opts ns data' of
                  Inl e \<Rightarrow> Inl e
                | Inr (out, applied) \<Rightarrow> Inr (out, n # applied))))"

definition preprocess ::
    "'b preprocessing_env \<Rightarrow> bytes \<Rightarrow> preprocessing_options \<Rightarrow> string \<Rightarrow> string \<Rightarrow> ('b, preprocessing_result) py" where
  "preprocess env data opts image_id workspace_id =
     (let aggregate = (if image_id = [] then ''unknown'' else image_id);
          ordered = ordered_operations opts;
          completed = (\<lambda>(out, applied).
            py_bind (pe_emit env (ImagePreprocessingCompleted aggregate image_id workspace_id applied (length out))) (\<lambda>_.
            py_return \<lparr>pr_image_data = out, pr_applied_operations = applied, pr_warnings = []\<rparr>))
      in
      if data = [] then py_raise ValueError ''image_data must not be empty''
      else
        py_bind (pe_emit env (ImagePreprocessingStarted aggregate image_id workspace_id)) (\<lambda>_.
        if ordered = [] then completed (data, [])
        else
          py_try (py_bind (py_lift (apply_operations (pe_registry env) opts ordered data)) completed)
            (\<lambda>exc.
               py_bind (pe_emit env (ImagePreprocessingFailed aggregate image_id workspace_id (exn_str exc))) (\<lambda>_.
               py_raise ImageOperationError (exn_str exc)))))"

section \<open>Lemmas\<close>

lemma default_registry:
  "build_default_registry engine = [(''grayscale'', grayscale_operation engine), (''binarize'', binarize_operation engine),
     (''resize'', resize_operation engine), (''deskew'', deskew_operation engine), (''denoise'', denoise_operation engine)]"
  by (simp add: build_default_registry_def operations_register_def named_register_def grayscale_operation_def
      binarize_operation_def resize_operation_def deskew_operation_def denoise_operation_def)


text \<open>The steps one after the other, each on the image the one before left.\<close>

definition then_apply :: "('i \<Rightarrow> exn + 'i) \<Rightarrow> exn + 'i \<Rightarrow> exn + 'i" where
  "then_apply f x = (case x of Inl e \<Rightarrow> Inl e | Inr i \<Rightarrow> f i)"

lemma then_apply_simps [simp]: "then_apply f (Inr i) = f i" "then_apply f (Inl e) = Inl e"
  by (simp_all add: then_apply_def)

lemma fold_then_apply_Inl [simp]: "fold (\<lambda>n. then_apply (f n)) ns (Inl e) = Inl e"
  by (induction ns) simp_all



section \<open>Properties\<close>


text \<open>An explicit order wins over the flags, and an operation that is not registered makes the call fail.\<close>

theorem preprocess_explicit_order:
  assumes "pp_enabled_operations opts = ns @ n # ms" and "\<forall>m \<in> set ns. \<exists>op. operations_get (pe_registry env) m = Inr op \<and> (\<forall>d. io_apply op d opts = Inr d)"
    and "\<not> operations_has (pe_registry env) n" and "data \<noteq> []" and "\<forall>e b. fst (pe_emit env e b) = Inr ()"
  shows "fst (preprocess env data opts image_id ws b) = Inl (Exn ImageOperationError (''No operation registered for '' @ quoted n))"
proof -
  have o: "ordered_operations opts = ns @ n # ms" using assms(1) by (simp add: ordered_operations_def)
  have e: "operations_get (pe_registry env) n = Inl (Exn ImageOperationError (''No operation registered for '' @ quoted n))"
    using assms(3) by (simp add: operations_get_def operations_has_def named_get_def dict_has_def split: option.split)
  have "apply_operations (pe_registry env) opts (ns @ n # ms) data = Inl (Exn ImageOperationError (''No operation registered for '' @ quoted n))"
    using assms(2) by (induction ns) (auto simp: e)
  then show ?thesis using o assms(4,5) by (simp add: preprocess_def py_bind_split py_try_split Let_def)
qed

section \<open>Witnesses\<close>

definition sample_engine :: "bytes image_engine" where
  "sample_engine = \<lparr>ie_load = Inr, ie_save = Inr, ie_grayscale = (\<lambda>i. Inr (map (\<lambda>b. b div 2) i)), ie_binarize = (\<lambda>i _. Inr i),
     ie_resize = (\<lambda>i n. Inr (take (nat n) i)), ie_deskew = (\<lambda>i. Inl (Exn ValueError ''no model'')), ie_denoise = Inr\<rparr>"

definition sample_preprocessing :: "preprocessing_event list preprocessing_env" where
  "sample_preprocessing = \<lparr>pe_registry = build_default_registry sample_engine, pe_emit = (\<lambda>e. py_modify (\<lambda>es. es @ [e]))\<rparr>"

definition sample_preprocessing_options :: "bool \<Rightarrow> string list \<Rightarrow> preprocessing_options" where
  "sample_preprocessing_options deskew ns = \<lparr>pp_grayscale = False, pp_binarize = False, pp_binarize_threshold = 1 / 2, pp_resize_max_dim = 2,
     pp_deskew = deskew, pp_denoise = False, pp_enabled_operations = ns\<rparr>"


lemma preprocess_explicit_order_witness:
  "fst (preprocess sample_preprocessing [1] (sample_preprocessing_options False [''denoise'', ''sharpen'']) [] [] []) =
    Inl (Exn ImageOperationError (''No operation registered for '' @ quoted ''sharpen''))"
  using preprocess_explicit_order [of "sample_preprocessing_options False [''denoise'', ''sharpen'']" "[''denoise'']" "''sharpen''" "[]" sample_preprocessing "[1]" "[]" "[]" "[]"]
  by (simp add: sample_preprocessing_def sample_preprocessing_options_def default_registry operations_get_def named_get_def operations_has_def
      dict_has_def denoise_operation_def operation_apply_def sample_engine_def)

end
