(* ===== verification/Ocr_Benchmark.thy ===== *)
theory Ocr_Benchmark
  imports Complex_Main Named_Registry Py_Text
begin

text \<open>
  \<open>ocr/benchmark/\<close>: cases, results and reports, the scoring, the default runner, the registry of runners and
  the service. An engine is its name and a function from image references to texts that may raise;
  the performance counter is a sequence of readings.
\<close>

section \<open>Values\<close>

record benchmark_case =
  bc_id :: string
  bc_expected_text :: string
  bc_image_ref :: string

definition benchmark_case_init :: "string \<Rightarrow> string \<Rightarrow> string \<Rightarrow> exn + benchmark_case" where
  "benchmark_case_init i expected image_ref =
     (if i = [] then Inl (Exn ValueError ''case id must not be empty'')
      else Inr \<lparr>bc_id = i, bc_expected_text = expected, bc_image_ref = image_ref\<rparr>)"

record benchmark_dataset =
  bd_name :: string
  bd_cases :: "benchmark_case list"

definition benchmark_dataset_init :: "string \<Rightarrow> benchmark_case list \<Rightarrow> exn + benchmark_dataset" where
  "benchmark_dataset_init name cases =
     (if name = [] then Inl (Exn ValueError ''dataset name must not be empty'')
      else Inr \<lparr>bd_name = name, bd_cases = cases\<rparr>)"

definition case_count :: "benchmark_dataset \<Rightarrow> nat" where
  "case_count d = length (bd_cases d)"

record benchmark_result =
  br_engine_name :: string
  br_case_id :: string
  br_accuracy :: real
  br_latency_ms :: real

definition benchmark_result_init :: "string \<Rightarrow> string \<Rightarrow> real \<Rightarrow> real \<Rightarrow> exn + benchmark_result" where
  "benchmark_result_init engine_name case_id accuracy latency =
     (if engine_name = [] then Inl (Exn ValueError ''engine_name must not be empty'')
      else if case_id = [] then Inl (Exn ValueError ''case_id must not be empty'')
      else if \<not> (0 \<le> accuracy \<and> accuracy \<le> 1) then Inl (Exn ValueError ''accuracy must be between 0 and 1'')
      else Inr \<lparr>br_engine_name = engine_name, br_case_id = case_id, br_accuracy = accuracy, br_latency_ms = latency\<rparr>)"

record benchmark_report =
  bp_engine_name :: string
  bp_dataset_name :: string
  bp_results :: "benchmark_result list"

definition benchmark_report_init :: "string \<Rightarrow> string \<Rightarrow> benchmark_result list \<Rightarrow> exn + benchmark_report" where
  "benchmark_report_init engine_name dataset_name results =
     (if engine_name = [] then Inl (Exn ValueError ''engine_name must not be empty'')
      else if dataset_name = [] then Inl (Exn ValueError ''dataset_name must not be empty'')
      else Inr \<lparr>bp_engine_name = engine_name, bp_dataset_name = dataset_name, bp_results = results\<rparr>)"

definition mean_accuracy :: "benchmark_report \<Rightarrow> real" where
  "mean_accuracy r = (if bp_results r = [] then 0 else sum_list (map br_accuracy (bp_results r)) / real (length (bp_results r)))"

definition mean_latency :: "benchmark_report \<Rightarrow> real" where
  "mean_latency r = (if bp_results r = [] then 0 else sum_list (map br_latency_ms (bp_results r)) / real (length (bp_results r)))"

definition is_acceptable :: "benchmark_report \<Rightarrow> real \<Rightarrow> exn + bool" where
  "is_acceptable r threshold =
     (if \<not> (0 \<le> threshold \<and> threshold \<le> 1) then Inl (Exn ValueError ''threshold must be between 0 and 1'')
      else Inr (threshold \<le> mean_accuracy r))"

section \<open>Scoring\<close>

definition char_overlap :: "string \<Rightarrow> string \<Rightarrow> real" where
  "char_overlap expected actual =
     (if expected = [] then 1 else if actual = [] then 0
      else if set expected = {} then 1
      else real (card (set expected \<inter> set actual)) / real (card (set expected)))"

definition word_overlap :: "string \<Rightarrow> string \<Rightarrow> real" where
  "word_overlap expected actual =
     (if expected = [] then 1
      else
        let expected_words = set (str_words expected) in
        if expected_words = {} then 1
        else real (card (expected_words \<inter> set (str_words actual))) / real (card expected_words))"

definition benchmark_accuracy :: "string \<Rightarrow> string \<Rightarrow> real" where
  "benchmark_accuracy expected actual =
     (if expected = [] then 1 else (char_overlap expected actual + word_overlap expected actual) / 2)"

section \<open>Runners\<close>

record benchmark_engine =
  be_name :: string
  be_recognize :: "string \<Rightarrow> exn + string"

record 'b bench_world =
  bw_sink :: 'b
  bw_ticks :: nat

record 'b benchmark_runner =
  rn_name :: string
  rn_run :: "benchmark_dataset \<Rightarrow> benchmark_engine \<Rightarrow> ('b bench_world, benchmark_report) py"

definition run_case :: "(nat \<Rightarrow> real) \<Rightarrow> benchmark_engine \<Rightarrow> benchmark_case \<Rightarrow> ('b bench_world, benchmark_result) py" where
  "run_case counter engine c =
     (let tick = (\<lambda>w. (Inr (counter (bw_ticks w)), w\<lparr>bw_ticks := Suc (bw_ticks w)\<rparr>)) in
      py_bind tick (\<lambda>start.
      py_bind (py_lift (be_recognize engine (bc_image_ref c))) (\<lambda>actual.
      py_bind tick (\<lambda>t.
      py_lift (benchmark_result_init (be_name engine) (bc_id c) (benchmark_accuracy (bc_expected_text c) actual)
        ((t - start) * 1000))))))"

fun run_cases :: "(nat \<Rightarrow> real) \<Rightarrow> benchmark_engine \<Rightarrow> benchmark_case list \<Rightarrow> ('b bench_world, benchmark_result list) py" where
  "run_cases counter engine [] = py_return []"
| "run_cases counter engine (c # cs) =
     py_bind (run_case counter engine c) (\<lambda>r. py_bind (run_cases counter engine cs) (\<lambda>rs. py_return (r # rs)))"

definition default_runner_run ::
    "(nat \<Rightarrow> real) \<Rightarrow> benchmark_dataset \<Rightarrow> benchmark_engine \<Rightarrow> ('b bench_world, benchmark_report) py" where
  "default_runner_run counter dataset engine =
     py_bind (run_cases counter engine (bd_cases dataset)) (\<lambda>results.
     py_lift (benchmark_report_init (be_name engine) (bd_name dataset) results))"

definition default_runner :: "(nat \<Rightarrow> real) \<Rightarrow> string \<Rightarrow> exn + 'b benchmark_runner" where
  "default_runner counter name =
     (if name = [] then Inl (Exn ValueError ''name must not be empty'')
      else Inr \<lparr>rn_name = name, rn_run = default_runner_run counter\<rparr>)"

definition runners_register :: "'b benchmark_runner \<Rightarrow> ('b benchmark_runner named, unit) py" where
  "runners_register r = named_register ''runner name must not be empty'' (rn_name r) r"

definition runners_get :: "'b benchmark_runner named \<Rightarrow> string \<Rightarrow> exn + 'b benchmark_runner" where
  "runners_get = named_get BenchmarkRunnerNotFoundError (\<lambda>n. ''No benchmark runner registered under '' @ quoted n)"

definition runners_has :: "'b benchmark_runner named \<Rightarrow> string \<Rightarrow> bool" where
  "runners_has = dict_has"

definition runners_names :: "'b benchmark_runner named \<Rightarrow> string list" where
  "runners_names = named_names"

interpretation runners: named_registry "\<lambda>_. runners_register" "\<lambda>r n. rn_name r = n" runners_get runners_has runners_names dict_wf
  unfolding runners_get_def runners_has_def runners_names_def
  by (rule named_registry_intro) (auto simp: runners_register_def)

section \<open>The service\<close>

datatype benchmark_event =
    OcrBenchmarkStarted string string
  | OcrBenchmarkCompleted string string real real
  | OcrBenchmarkFailed string string string

record 'b benchmark_env =
  bv_registry :: "'b benchmark_runner named"
  bv_emit :: "benchmark_event \<Rightarrow> ('b, unit) py"
  bv_default :: "string option"

definition benchmark_emit :: "'b benchmark_env \<Rightarrow> benchmark_event \<Rightarrow> ('b bench_world, unit) py" where
  "benchmark_emit env e = py_on bw_sink (\<lambda>b w. w\<lparr>bw_sink := b\<rparr>) (bv_emit env e)"

text \<open>\<open>runner_name or default or registered_names()[0]\<close>: an empty name counts as none.\<close>

definition given_name :: "string option \<Rightarrow> string option" where
  "given_name n = (case n of Some (c # cs) \<Rightarrow> Some (c # cs) | _ \<Rightarrow> None)"

definition resolve_runner :: "'b benchmark_env \<Rightarrow> string option \<Rightarrow> exn + 'b benchmark_runner" where
  "resolve_runner env runner_name =
     (case given_name runner_name of
        Some n \<Rightarrow> runners_get (bv_registry env) n
      | None \<Rightarrow>
          (case given_name (bv_default env) of
             Some n \<Rightarrow> runners_get (bv_registry env) n
           | None \<Rightarrow>
               (case runners_names (bv_registry env) of
                  [] \<Rightarrow> Inl (Exn IndexError ''list index out of range'')
                | n # _ \<Rightarrow> runners_get (bv_registry env) n)))"

definition run_benchmark ::
    "'b benchmark_env \<Rightarrow> benchmark_dataset \<Rightarrow> benchmark_engine \<Rightarrow> string option \<Rightarrow> ('b bench_world, benchmark_report) py" where
  "run_benchmark env dataset engine runner_name =
     py_bind (benchmark_emit env (OcrBenchmarkStarted (be_name engine) (bd_name dataset))) (\<lambda>_.
     py_bind (py_except IndexError (py_lift (resolve_runner env runner_name))
       (\<lambda>exc.
          py_bind (benchmark_emit env (OcrBenchmarkFailed (be_name engine) (bd_name dataset) (exn_str exc))) (\<lambda>_.
          py_raise BenchmarkRunnerNotFoundError ''No benchmark runner registered''))) (\<lambda>runner.
     py_try
       (py_bind (rn_run runner dataset engine) (\<lambda>report.
        py_bind (benchmark_emit env (OcrBenchmarkCompleted (bp_engine_name report) (bp_dataset_name report)
          (mean_accuracy report) (mean_latency report))) (\<lambda>_.
        py_return report)))
       (\<lambda>exc.
          py_bind (benchmark_emit env (OcrBenchmarkFailed (be_name engine) (bd_name dataset) (exn_str exc))) (\<lambda>_.
          py_lift (Inl exc)))))"

section \<open>Lemmas\<close>

lemma benchmark_emit_app [simp]:
  "benchmark_emit env e w = (fst (bv_emit env e (bw_sink w)), w\<lparr>bw_sink := snd (bv_emit env e (bw_sink w))\<rparr>)"
  by (simp add: benchmark_emit_def)

lemma card_share:
  assumes "finite A" and "A \<noteq> {}"
  shows "0 \<le> real (card (A \<inter> B)) / real (card A) \<and> real (card (A \<inter> B)) / real (card A) \<le> 1 \<and>
    (real (card (A \<inter> B)) / real (card A) = 1 \<longleftrightarrow> A \<subseteq> B)"
proof -
  have pos: "0 < card A" using assms by (simp add: card_gt_0_iff)
  have le: "card (A \<inter> B) \<le> card A" using assms(1) by (simp add: card_mono)
  have "card (A \<inter> B) = card A \<longleftrightarrow> A \<inter> B = A" using assms(1) card_subset_eq [of A "A \<inter> B"] by auto
  then have "real (card (A \<inter> B)) / real (card A) = 1 \<longleftrightarrow> A \<subseteq> B" using pos by (auto simp: divide_eq_eq)
  then show ?thesis using pos le by (simp add: divide_le_eq)
qed

lemma char_overlap_unit:
  "0 \<le> char_overlap e a \<and> char_overlap e a \<le> 1 \<and> (char_overlap e a = 1 \<longleftrightarrow> set e \<subseteq> set a)"
  using card_share [of "set e" "set a"] by (cases "a = []") (auto simp: char_overlap_def)

lemma word_overlap_unit:
  "0 \<le> word_overlap e a \<and> word_overlap e a \<le> 1 \<and> (word_overlap e a = 1 \<longleftrightarrow> set (str_words e) \<subseteq> set (str_words a))"
  using card_share [of "set (str_words e)" "set (str_words a)"] by (auto simp: word_overlap_def Let_def str_words_def)

lemma benchmark_accuracy_unit: "0 \<le> benchmark_accuracy e a \<and> benchmark_accuracy e a \<le> 1"
  using char_overlap_unit [of e a] word_overlap_unit [of e a] by (simp add: benchmark_accuracy_def)

lemma run_cases_return:
  assumes "\<forall>c \<in> set cs. \<exists>s. be_recognize engine (bc_image_ref c) = Inr s" and "be_name engine \<noteq> []" and "\<forall>c \<in> set cs. bc_id c \<noteq> []"
  shows "\<exists>rs w'. run_cases counter engine cs w = (Inr rs, w') \<and> bw_sink w' = bw_sink w \<and> length rs = length cs \<and>
    (\<forall>(c, r) \<in> set (zip cs rs). br_engine_name r = be_name engine \<and> br_case_id r = bc_id c \<and>
      br_accuracy r = benchmark_accuracy (bc_expected_text c) (projr (be_recognize engine (bc_image_ref c))))"
  using assms(1,3)
proof (induction cs arbitrary: w)
  case Nil
  then show ?case by simp
next
  case (Cons c cs)
  obtain s where s: "be_recognize engine (bc_image_ref c) = Inr s" using Cons.prems(1) by auto
  let ?w = "w\<lparr>bw_ticks := Suc (Suc (bw_ticks w))\<rparr>"
  let ?r = "\<lparr>br_engine_name = be_name engine, br_case_id = bc_id c, br_accuracy = benchmark_accuracy (bc_expected_text c) s,
    br_latency_ms = (counter (Suc (bw_ticks w)) - counter (bw_ticks w)) * 1000\<rparr>"
  have one: "run_case counter engine c w = (Inr ?r, ?w)"
    using s assms(2) Cons.prems(2) benchmark_accuracy_unit
    by (simp add: run_case_def py_bind_split Let_def benchmark_result_init_def)
  obtain rs w' where rest: "run_cases counter engine cs ?w = (Inr rs, w')" "bw_sink w' = bw_sink ?w" "length rs = length cs"
    "\<forall>(c, r) \<in> set (zip cs rs). br_engine_name r = be_name engine \<and> br_case_id r = bc_id c \<and>
      br_accuracy r = benchmark_accuracy (bc_expected_text c) (projr (be_recognize engine (bc_image_ref c)))"
    using Cons.IH [of ?w] Cons.prems by (auto simp del: bench_world.simps)
  show ?case using one rest s by (intro exI [of _ "?r # rs"] exI [of _ w']) (simp add: py_bind_split)
qed

lemma mean_accuracy_unit:
  assumes "\<forall>r \<in> set (bp_results p). 0 \<le> br_accuracy r \<and> br_accuracy r \<le> 1"
  shows "0 \<le> mean_accuracy p \<and> mean_accuracy p \<le> 1"
proof -
  have "0 \<le> sum_list (map br_accuracy rs) \<and> sum_list (map br_accuracy rs) \<le> real (length rs)"
    if "\<forall>r \<in> set rs. 0 \<le> br_accuracy r \<and> br_accuracy r \<le> 1" for rs
    using that by (induction rs) auto
  from this [OF assms] show ?thesis by (simp add: mean_accuracy_def divide_le_eq)
qed

section \<open>Properties\<close>

text \<open>
  The accuracy of a text is between zero and one, and it is one exactly if every character and every
  word of the expected text occurs in it, in whatever order and among whatever else; an empty
  expectation is always met.
\<close>

theorem benchmark_accuracy_spec:
  "0 \<le> benchmark_accuracy expected actual \<and> benchmark_accuracy expected actual \<le> 1 \<and>
    (benchmark_accuracy expected actual = 1 \<longleftrightarrow>
      expected = [] \<or> set expected \<subseteq> set actual \<and> set (str_words expected) \<subseteq> set (str_words actual))"
proof -
  have half: "(x + y) / 2 = 1 \<longleftrightarrow> x = 1 \<and> y = 1" if "x \<le> 1" "y \<le> 1" for x y :: real using that by auto
  show ?thesis
    using benchmark_accuracy_unit [of expected actual] char_overlap_unit [of expected actual] word_overlap_unit [of expected actual]
      half [of "char_overlap expected actual" "word_overlap expected actual"]
    by (simp add: benchmark_accuracy_def)
qed

text \<open>
  A benchmark with the default runner returns one result per case, in their order, scored against the
  expected text, its mean accuracy is between zero and one, and it announces the start and the completion.
\<close>

theorem run_benchmark_default:
  assumes "resolve_runner env runner_name = Inr \<lparr>rn_name = n, rn_run = default_runner_run counter\<rparr>"
    and "bv_emit env = (\<lambda>e. py_modify (\<lambda>es. es @ [e]))" and "be_name engine \<noteq> []" and "bd_name dataset \<noteq> []"
    and "\<forall>c \<in> set (bd_cases dataset). bc_id c \<noteq> [] \<and> (\<exists>s. be_recognize engine (bc_image_ref c) = Inr s)"
  shows "\<exists>report w'. run_benchmark env dataset engine runner_name w = (Inr report, w') \<and>
    length (bp_results report) = case_count dataset \<and>
    (\<forall>(c, r) \<in> set (zip (bd_cases dataset) (bp_results report)). br_case_id r = bc_id c \<and>
      br_accuracy r = benchmark_accuracy (bc_expected_text c) (projr (be_recognize engine (bc_image_ref c)))) \<and>
    0 \<le> mean_accuracy report \<and> mean_accuracy report \<le> 1 \<and>
    bw_sink w' = bw_sink w @ [OcrBenchmarkStarted (be_name engine) (bd_name dataset),
      OcrBenchmarkCompleted (be_name engine) (bd_name dataset) (mean_accuracy report) (mean_latency report)]"
proof -
  let ?w = "w\<lparr>bw_sink := bw_sink w @ [OcrBenchmarkStarted (be_name engine) (bd_name dataset)]\<rparr>"
  obtain rs w1 where rs: "run_cases counter engine (bd_cases dataset) ?w = (Inr rs, w1)" "bw_sink w1 = bw_sink ?w"
    "length rs = length (bd_cases dataset)"
    "\<forall>(c, r) \<in> set (zip (bd_cases dataset) rs). br_engine_name r = be_name engine \<and> br_case_id r = bc_id c \<and>
      br_accuracy r = benchmark_accuracy (bc_expected_text c) (projr (be_recognize engine (bc_image_ref c)))"
    using run_cases_return [of "bd_cases dataset" engine counter ?w] assms(3,5) by blast
  let ?p = "\<lparr>bp_engine_name = be_name engine, bp_dataset_name = bd_name dataset, bp_results = rs\<rparr>"
  have run: "default_runner_run counter dataset engine ?w = (Inr ?p, w1)"
    using rs(1) assms(3,4) by (simp add: default_runner_run_def py_bind_split benchmark_report_init_def)
  have "\<forall>r \<in> set rs. 0 \<le> br_accuracy r \<and> br_accuracy r \<le> 1"
  proof
    fix r assume "r \<in> set rs"
    then obtain c where "(c, r) \<in> set (zip (bd_cases dataset) rs)" using rs(3) by (metis in_set_impl_in_set_zip2)
    with rs(4) benchmark_accuracy_unit show "0 \<le> br_accuracy r \<and> br_accuracy r \<le> 1" by fastforce
  qed
  then have mean: "0 \<le> mean_accuracy ?p \<and> mean_accuracy ?p \<le> 1" by (intro mean_accuracy_unit) simp
  let ?w2 = "w1\<lparr>bw_sink := bw_sink w1 @ [OcrBenchmarkCompleted (be_name engine) (bd_name dataset) (mean_accuracy ?p) (mean_latency ?p)]\<rparr>"
  have all: "run_benchmark env dataset engine runner_name w = (Inr ?p, ?w2)"
    using run assms(1,2) by (simp add: run_benchmark_def py_except_def py_bind_split py_try_split)
  have "\<forall>(c, r) \<in> set (zip (bd_cases dataset) rs). br_case_id r = bc_id c \<and>
      br_accuracy r = benchmark_accuracy (bc_expected_text c) (projr (be_recognize engine (bc_image_ref c)))"
    using rs(4) by fastforce
  then show ?thesis using all rs(2,3) mean by (intro exI [of _ ?p] exI [of _ ?w2]) (simp add: case_count_def)
qed

text \<open>
  A runner name that is not registered makes the call raise after it has announced the start, and no
  failure is announced.
\<close>

theorem run_benchmark_unknown_runner:
  assumes "given_name runner_name = Some n" and "\<not> runners_has (bv_registry env) n" and "bv_emit env = (\<lambda>e. py_modify (\<lambda>es. es @ [e]))"
  shows "\<exists>w'. run_benchmark env dataset engine runner_name w =
      (Inl (Exn BenchmarkRunnerNotFoundError (''No benchmark runner registered under '' @ quoted n)), w') \<and>
    bw_sink w' = bw_sink w @ [OcrBenchmarkStarted (be_name engine) (bd_name dataset)]"
proof -
  have "resolve_runner env runner_name = Inl (Exn BenchmarkRunnerNotFoundError (''No benchmark runner registered under '' @ quoted n))"
    using assms(1,2) by (simp add: resolve_runner_def runners_get_def runners_has_def named_get_def dict_has_def split: option.split)
  then show ?thesis using assms(3) by (simp add: run_benchmark_def py_except_def py_bind_split py_try_split)
qed

section \<open>Witnesses\<close>

definition sample_engine :: benchmark_engine where
  "sample_engine = \<lparr>be_name = ''tess'', be_recognize = (\<lambda>_. Inr ''ab c'')\<rparr>"

definition sample_dataset :: benchmark_dataset where
  "sample_dataset = \<lparr>bd_name = ''set'', bd_cases = [\<lparr>bc_id = ''1'', bc_expected_text = ''c ab'', bc_image_ref = ''x.png''\<rparr>]\<rparr>"

definition sample_benchmark_env :: "benchmark_event list benchmark_env" where
  "sample_benchmark_env = \<lparr>bv_registry = [(''default'', \<lparr>rn_name = ''default'', rn_run = default_runner_run real\<rparr>)],
     bv_emit = (\<lambda>e. py_modify (\<lambda>es. es @ [e])), bv_default = None\<rparr>"

lemma run_benchmark_default_witness:
  "\<exists>report w'. run_benchmark sample_benchmark_env sample_dataset sample_engine None \<lparr>bw_sink = [], bw_ticks = 0\<rparr> = (Inr report, w') \<and>
    length (bp_results report) = 1 \<and> mean_accuracy report \<le> 1"
proof -
  have r: "resolve_runner sample_benchmark_env None = Inr \<lparr>rn_name = ''default'', rn_run = default_runner_run real\<rparr>"
    by (simp add: resolve_runner_def given_name_def sample_benchmark_env_def runners_names_def named_names_def runners_get_def named_get_def)
  have e: "bv_emit sample_benchmark_env = (\<lambda>e. py_modify (\<lambda>es. es @ [e]))" by (simp add: sample_benchmark_env_def)
  have n: "be_name sample_engine \<noteq> []" "bd_name sample_dataset \<noteq> []" "case_count sample_dataset = 1"
    "\<forall>c \<in> set (bd_cases sample_dataset). bc_id c \<noteq> [] \<and> (\<exists>s. be_recognize sample_engine (bc_image_ref c) = Inr s)"
    by (simp_all add: sample_engine_def sample_dataset_def case_count_def)
  from run_benchmark_default [OF r e n(1,2,4), of "\<lparr>bw_sink = [], bw_ticks = 0\<rparr>"] n(3) show ?thesis
    by (elim exE conjE) (intro exI conjI, assumption, simp_all)
qed

lemma run_benchmark_unknown_runner_witness:
  "\<exists>w'. run_benchmark sample_benchmark_env sample_dataset sample_engine (Some ''fast'') \<lparr>bw_sink = [], bw_ticks = 0\<rparr> =
      (Inl (Exn BenchmarkRunnerNotFoundError (''No benchmark runner registered under '' @ quoted ''fast'')), w') \<and>
    bw_sink w' = [OcrBenchmarkStarted ''tess'' ''set'']"
  using run_benchmark_unknown_runner [of "Some ''fast''" "''fast''" sample_benchmark_env sample_dataset sample_engine "\<lparr>bw_sink = [], bw_ticks = 0\<rparr>"]
  by (simp add: given_name_def sample_benchmark_env_def runners_has_def dict_has_def sample_engine_def sample_dataset_def)

end
