(* ===== verification/Watcher.thy ===== *)
theory Watcher
  imports Complex_Main Py_Text
begin

text \<open>
  \<open>watcher/\<close>: watch configurations, the service that filters and debounces the notifications of a
  backend, and its plugin. The backend is a protocol in the code: a record of its operations on a
  state of its own. The dispatcher is the parameter \<open>fe_dispatch\<close>, the injected clock \<open>fe_clock\<close> (its
  n-th reading), the order in which the interpreter iterates over a set \<open>fe_order\<close>. A callback reaches
  the service, not the backend that calls it.
\<close>

section \<open>Values\<close>

datatype file_event_type = FILE_CREATED | FILE_MODIFIED | FILE_DELETED

record raw_event =
  re_watch_id :: string
  re_uri :: string
  re_name :: string
  re_event_type :: file_event_type
  re_size :: int
  re_timestamp :: real

record file_event =
  fv_workspace_id :: string
  fv_watch_id :: string
  fv_uri :: string
  fv_name :: string
  fv_event_type :: file_event_type
  fv_size :: int

record watch_config =
  wc_watch_id :: string
  wc_workspace_id :: string
  wc_root_uri :: string
  wc_patterns :: "string set"
  wc_recursive :: bool
  wc_debounce_seconds :: real
  wc_enabled :: bool

definition normalize_pattern :: "string \<Rightarrow> string option" where
  "normalize_pattern pattern =
     (let v = str_lower (str_strip pattern) in
      if v = [] then None else if hd v \<noteq> CHR ''.'' then Some (CHR ''.'' # v) else Some v)"

definition normalize_patterns :: "string set \<Rightarrow> string set" where
  "normalize_patterns ps = {v. \<exists>p \<in> ps. normalize_pattern p = Some v}"

definition watch_config_init :: "watch_config \<Rightarrow> exn + watch_config" where
  "watch_config_init c =
     (if wc_debounce_seconds c < 0 then Inl (Exn ValueError ''debounce_seconds must be non-negative'')
      else if wc_root_uri c = [] then Inl (Exn ValueError ''root_uri must not be empty'')
      else Inr (c\<lparr>wc_patterns := normalize_patterns (wc_patterns c)\<rparr>))"

text \<open>\<open>PurePosixPath(uri).name\<close> and \<open>.suffix\<close>: empty and \<open>.\<close> components do not count; a dot at either end
  of the name starts no suffix.\<close>

definition path_name :: "string \<Rightarrow> string" where
  "path_name uri =
     (case filter (\<lambda>x. x \<noteq> [] \<and> x \<noteq> ''.'') (str_split (CHR ''/'') uri) of [] \<Rightarrow> [] | x # xs \<Rightarrow> last (x # xs))"

definition path_suffix :: "string \<Rightarrow> string" where
  "path_suffix uri =
     (let name = path_name uri; ext = rev (takeWhile (\<lambda>c. c \<noteq> CHR ''.'') (rev name)) in
      if CHR ''.'' \<in> set name \<and> ext \<noteq> [] \<and> Suc (length ext) < length name then CHR ''.'' # ext else [])"

definition accepts_extension :: "watch_config \<Rightarrow> string \<Rightarrow> bool" where
  "accepts_extension c uri = (wc_patterns c = {} \<or> str_lower (path_suffix uri) \<in> wc_patterns c)"

section \<open>The service\<close>

record pending_event =
  pe_timestamp :: real
  pe_event :: raw_event

record 'b watcher =
  fw_configs :: "(string, watch_config) dict"
  fw_pending :: "(string, pending_event) dict"
  fw_watching :: "string set"
  fw_sink :: 'b
  fw_ticks :: nat

record 'k backend_ops =
  bo_watch :: "watch_config \<Rightarrow> ('k, unit) py"
  bo_unwatch :: "string \<Rightarrow> ('k, unit) py"

record ('k, 'b) watcher_env =
  fe_backend :: "'k backend_ops"
  fe_dispatch :: "file_event \<Rightarrow> ('b, unit) py"
  fe_clock :: "nat \<Rightarrow> real"
  fe_order :: set_order

type_synonym ('k, 'b, 'a) watcher_py = "('k \<times> 'b watcher, 'a) py"

definition on_watcher :: "('b watcher, 'a) py \<Rightarrow> ('k, 'b, 'a) watcher_py" where
  "on_watcher = py_on snd (\<lambda>w s. (fst s, w))"

definition on_watch_backend :: "('k, 'a) py \<Rightarrow> ('k, 'b, 'a) watcher_py" where
  "on_watch_backend = py_on fst (\<lambda>k s. (k, snd s))"

definition watcher_now :: "('k, 'b) watcher_env \<Rightarrow> ('b watcher, real) py" where
  "watcher_now env = (\<lambda>w. (Inr (fe_clock env (fw_ticks w)), w\<lparr>fw_ticks := Suc (fw_ticks w)\<rparr>))"

definition debounce_seconds :: "'b watcher \<Rightarrow> string \<Rightarrow> real" where
  "debounce_seconds w uri =
     (case dict_get (fw_pending w) uri of
        None \<Rightarrow> 0
      | Some p \<Rightarrow> (case dict_get (fw_configs w) (re_watch_id (pe_event p)) of None \<Rightarrow> 0 | Some c \<Rightarrow> wc_debounce_seconds c))"

definition file_event_of :: "watch_config \<Rightarrow> raw_event \<Rightarrow> file_event" where
  "file_event_of c raw =
     \<lparr>fv_workspace_id = wc_workspace_id c, fv_watch_id = re_watch_id raw, fv_uri = re_uri raw, fv_name = re_name raw,
      fv_event_type = re_event_type raw, fv_size = re_size raw\<rparr>"

definition dispatch_raw :: "('k, 'b) watcher_env \<Rightarrow> raw_event \<Rightarrow> ('b watcher, unit) py" where
  "dispatch_raw env raw =
     py_bind (py_read (\<lambda>w. dict_get (fw_configs w) (re_watch_id raw))) (\<lambda>found.
     case found of
       None \<Rightarrow> py_return ()
     | Some c \<Rightarrow> py_on fw_sink (\<lambda>b w. w\<lparr>fw_sink := b\<rparr>) (fe_dispatch env (file_event_of c raw)))"

definition due_uris :: "'b watcher \<Rightarrow> real \<Rightarrow> bool \<Rightarrow> string list" where
  "due_uris w now force =
     map fst (filter (\<lambda>(uri, p). force \<or> now - pe_timestamp p \<ge> debounce_seconds w uri) (fw_pending w))"

definition drain_one :: "('k, 'b) watcher_env \<Rightarrow> string \<Rightarrow> ('b watcher, unit) py" where
  "drain_one env uri =
     py_bind (py_read (\<lambda>w. dict_get (fw_pending w) uri)) (\<lambda>found.
     case found of
       None \<Rightarrow> py_raise KeyError (repr_str uri)
     | Some p \<Rightarrow>
         py_bind (py_modify (\<lambda>w. w\<lparr>fw_pending := dict_pop uri (fw_pending w)\<rparr>)) (\<lambda>_.
         dispatch_raw env (pe_event p)))"

definition drain :: "('k, 'b) watcher_env \<Rightarrow> real \<Rightarrow> bool \<Rightarrow> ('b watcher, unit) py" where
  "drain env now force =
     py_bind (py_read (\<lambda>w. due_uris w now force)) (\<lambda>due. py_for due (drain_one env))"

definition on_backend_event :: "('k, 'b) watcher_env \<Rightarrow> raw_event \<Rightarrow> ('b watcher, unit) py" where
  "on_backend_event env raw =
     py_bind (py_read (\<lambda>w. dict_get (fw_configs w) (re_watch_id raw))) (\<lambda>found.
     case found of
       None \<Rightarrow> py_return ()
     | Some c \<Rightarrow>
         if \<not> wc_enabled c then py_return ()
         else if \<not> accepts_extension c (re_uri raw) then py_return ()
         else
           py_bind (watcher_now env) (\<lambda>now.
           py_bind (py_modify (\<lambda>w. w\<lparr>fw_pending := dict_set (re_uri raw) \<lparr>pe_timestamp = now, pe_event = raw\<rparr> (fw_pending w)\<rparr>)) (\<lambda>_.
           drain env now False)))"

definition watcher_flush :: "('k, 'b) watcher_env \<Rightarrow> ('b watcher, unit) py" where
  "watcher_flush env = py_bind (watcher_now env) (\<lambda>now. drain env now True)"

definition watcher_register :: "watch_config \<Rightarrow> ('b watcher, unit) py" where
  "watcher_register c = py_modify (\<lambda>w. w\<lparr>fw_configs := dict_set (wc_watch_id c) c (fw_configs w)\<rparr>)"

definition require_config :: "string \<Rightarrow> ('b watcher, watch_config) py" where
  "require_config wid =
     py_bind (py_read (\<lambda>w. dict_get (fw_configs w) wid)) (\<lambda>found.
     case found of None \<Rightarrow> py_raise KeyError (repr_str (''Unknown watch_id: '' @ wid)) | Some c \<Rightarrow> py_return c)"

definition watcher_start :: "('k, 'b) watcher_env \<Rightarrow> string \<Rightarrow> ('k, 'b, unit) watcher_py" where
  "watcher_start env wid =
     py_bind (on_watcher (require_config wid)) (\<lambda>c.
     py_bind (on_watch_backend (bo_watch (fe_backend env) c)) (\<lambda>_.
     on_watcher (py_modify (\<lambda>w. w\<lparr>fw_watching := insert wid (fw_watching w)\<rparr>))))"

definition watcher_stop :: "('k, 'b) watcher_env \<Rightarrow> string \<Rightarrow> ('k, 'b, unit) watcher_py" where
  "watcher_stop env wid =
     py_bind (on_watch_backend (bo_unwatch (fe_backend env) wid)) (\<lambda>_.
     py_bind (on_watcher (py_modify (\<lambda>w. w\<lparr>fw_watching := fw_watching w - {wid}\<rparr>))) (\<lambda>_.
     on_watcher (watcher_flush env)))"

definition is_watching :: "'b watcher \<Rightarrow> string \<Rightarrow> bool" where
  "is_watching w wid = (wid \<in> fw_watching w)"

definition watching_ids :: "('k, 'b) watcher_env \<Rightarrow> 'b watcher \<Rightarrow> string list" where
  "watching_ids env w = set_iter (fe_order env) (fw_watching w)"

text \<open>\<open>FileWatcherPlugin.stop\<close>, up to the state of the plugin itself (\<open>Plugin_Manager\<close>).\<close>

definition watcher_plugin_stop :: "('k, 'b) watcher_env \<Rightarrow> ('k, 'b, unit) watcher_py" where
  "watcher_plugin_stop env =
     py_bind (py_read (\<lambda>s. watching_ids env (snd s))) (\<lambda>ids. py_for ids (watcher_stop env))"

section \<open>The in-memory backend\<close>

text \<open>What a callback is called with is a parameter: here a callback is a key of type \<open>'c\<close>.\<close>

record 'c memory_watch =
  mw_callbacks :: "(string, 'c) dict"
  mw_watching :: "string set"

definition memory_watch :: "'c \<Rightarrow> watch_config \<Rightarrow> ('c memory_watch, unit) py" where
  "memory_watch callback c =
     py_modify (\<lambda>m. m\<lparr>mw_callbacks := dict_set (wc_watch_id c) callback (mw_callbacks m),
       mw_watching := insert (wc_watch_id c) (mw_watching m)\<rparr>)"

definition memory_unwatch :: "string \<Rightarrow> ('c memory_watch, unit) py" where
  "memory_unwatch wid =
     py_modify (\<lambda>m. m\<lparr>mw_callbacks := dict_pop wid (mw_callbacks m), mw_watching := mw_watching m - {wid}\<rparr>)"

definition memory_is_watching :: "'c memory_watch \<Rightarrow> string \<Rightarrow> bool" where
  "memory_is_watching m wid = (wid \<in> mw_watching m)"

definition memory_backend_ops :: "'c \<Rightarrow> 'c memory_watch backend_ops" where
  "memory_backend_ops callback = \<lparr>bo_watch = memory_watch callback, bo_unwatch = memory_unwatch\<rparr>"

definition memory_emit :: "('c \<Rightarrow> raw_event \<Rightarrow> ('s, unit) py) \<Rightarrow> raw_event \<Rightarrow> ('c memory_watch \<times> 's, unit) py" where
  "memory_emit call event =
     py_bind (py_read (\<lambda>s. dict_get (mw_callbacks (fst s)) (re_watch_id event))) (\<lambda>found.
     case found of
       None \<Rightarrow> py_return ()
     | Some callback \<Rightarrow> py_on snd (\<lambda>t s. (fst s, t)) (call callback event))"

end
