(* ===== verification/Watcher_Runs.thy ===== *)
theory Watcher_Runs
  imports Watcher "HOL-Library.Sublist"
begin

text \<open>
  What the watcher service of \<open>Watcher\<close> does with the notifications it gets: which of them a
  notification releases, that the latest change of every file is delivered in the end, and what the
  plugin's stop leaves. The dispatcher is one that records the events; the backend is arbitrary, or
  the one in memory where it matters.
\<close>

section \<open>Draining\<close>

definition records_files :: "('k, file_event list) watcher_env \<Rightarrow> bool" where
  "records_files env = (fe_dispatch env = (\<lambda>e. py_modify (\<lambda>es. es @ [e])))"

definition pending_ok :: "'b watcher \<Rightarrow> bool" where
  "pending_ok w = (dict_wf (fw_pending w) \<and>
     (\<forall>(u, p) \<in> set (fw_pending w). re_uri (pe_event p) = u \<and> dict_has (fw_configs w) (re_watch_id (pe_event p))))"

lemma on_watcher_app [simp]: "on_watcher m s = (fst (m (snd s)), (fst s, snd (m (snd s))))"
  by (simp add: on_watcher_def)

lemma on_watch_backend_app [simp]: "on_watch_backend m s = (fst (m (fst s)), (snd (m (fst s)), snd s))"
  by (simp add: on_watch_backend_def)

lemma watcher_now_app [simp]: "watcher_now env w = (Inr (fe_clock env (fw_ticks w)), w\<lparr>fw_ticks := Suc (fw_ticks w)\<rparr>)"
  by (simp add: watcher_now_def)

text \<open>The event a buffered notification turns into.\<close>

definition event_for :: "'b watcher \<Rightarrow> pending_event \<Rightarrow> file_event" where
  "event_for w p = file_event_of (the (dict_get (fw_configs w) (re_watch_id (pe_event p)))) (pe_event p)"

lemma pending_okD:
  assumes "pending_ok w" and "dict_get (fw_pending w) u = Some p"
  shows "re_uri (pe_event p) = u \<and> (\<exists>c. dict_get (fw_configs w) (re_watch_id (pe_event p)) = Some c)"
proof -
  have "(u, p) \<in> set (fw_pending w)" using assms(2) by (rule map_of_SomeD)
  then show ?thesis using assms(1) by (force simp: pending_ok_def dict_has_def)
qed

lemma drain_one_app:
  assumes "records_files env" and "pending_ok w" and "dict_get (fw_pending w) u = Some p"
  shows "drain_one env u w = (Inr (), w\<lparr>fw_pending := dict_pop u (fw_pending w), fw_sink := fw_sink w @ [event_for w p]\<rparr>)"
proof -
  obtain c where "dict_get (fw_configs w) (re_watch_id (pe_event p)) = Some c"
    using pending_okD [OF assms(2,3)] by blast
  then show ?thesis using assms(1,3)
    by (simp add: drain_one_def dispatch_raw_def py_bind_split records_files_def event_for_def)
qed

lemma pending_ok_pop: "pending_ok w \<Longrightarrow> pending_ok (w\<lparr>fw_pending := dict_pop u (fw_pending w), fw_sink := x\<rparr>)"
  unfolding pending_ok_def using dict_wf_pop [of "fw_pending w" u] by (auto simp: AList.delete_eq)

text \<open>Draining the first entries picked by \<open>P\<close> one after the other delivers them in buffer order.\<close>

lemma filter_delete_keys:
  assumes "distinct us" and "set us \<subseteq> set (dict_keys d)"
  shows "fold dict_pop us d = filter (\<lambda>(k, _). k \<notin> set us) d"
  using assms
proof (induction us arbitrary: d)
  case Nil
  then show ?case by simp
next
  case (Cons u us)
  have "set us \<subseteq> set (dict_keys (dict_pop u d))" using Cons.prems by (auto simp: dict_keys_pop)
  then show ?case using Cons.IH [of "dict_pop u d"] Cons.prems(1)
    by (auto simp: AList.delete_eq case_prod_unfold intro!: filter_cong)
qed

lemma drain_uris:
  assumes "records_files env" and "pending_ok w" and "distinct us" and "set us \<subseteq> set (dict_keys (fw_pending w))"
  shows "py_for us (drain_one env) w =
    (Inr (), w\<lparr>fw_pending := fold dict_pop us (fw_pending w),
      fw_sink := fw_sink w @ map (\<lambda>u. event_for w (the (dict_get (fw_pending w) u))) us\<rparr>)"
  using assms(2-4)
proof (induction us arbitrary: w)
  case Nil
  then show ?case by simp
next
  case (Cons u us)
  obtain p where p: "dict_get (fw_pending w) u = Some p" using dict_key_get [of u "fw_pending w"] Cons.prems(3) by auto
  define w1 where "w1 = w\<lparr>fw_pending := dict_pop u (fw_pending w), fw_sink := fw_sink w @ [event_for w p]\<rparr>"
  have w1: "fw_pending w1 = dict_pop u (fw_pending w)" "fw_sink w1 = fw_sink w @ [event_for w p]"
    "event_for w1 = event_for w" by (simp_all add: w1_def event_for_def fun_eq_iff)
  have "pending_ok w1" unfolding w1_def using Cons.prems(1) by (rule pending_ok_pop)
  moreover have "set us \<subseteq> set (dict_keys (fw_pending w1))" using Cons.prems(2,3) by (auto simp: w1 dict_keys_pop)
  ultimately have "py_for us (drain_one env) w1 =
    (Inr (), w1\<lparr>fw_pending := fold dict_pop us (fw_pending w1),
      fw_sink := fw_sink w1 @ map (\<lambda>u. event_for w1 (the (dict_get (fw_pending w1) u))) us\<rparr>)"
    using Cons.IH Cons.prems(2) by simp
  moreover have "map (\<lambda>u. event_for w1 (the (dict_get (fw_pending w1) u))) us = map (\<lambda>u. event_for w (the (dict_get (fw_pending w) u))) us"
    using Cons.prems(2) by (auto simp: w1)
  moreover have "drain_one env u w = (Inr (), w1)"
    unfolding w1_def by (rule drain_one_app [OF assms(1) Cons.prems(1) p])
  ultimately show ?case by (simp add: w1 p) (simp add: w1_def)
qed

text \<open>What \<open>_drain\<close> does: the due entries are delivered in buffer order, the others stay.\<close>

definition is_due :: "'b watcher \<Rightarrow> real \<Rightarrow> bool \<Rightarrow> pending_event \<Rightarrow> bool" where
  "is_due w now force p = (force \<or> now - pe_timestamp p \<ge>
     (case dict_get (fw_configs w) (re_watch_id (pe_event p)) of None \<Rightarrow> 0 | Some c \<Rightarrow> wc_debounce_seconds c))"

lemma drain_app:
  assumes "records_files env" and "pending_ok w"
  shows "drain env now force w =
    (Inr (), w\<lparr>fw_pending := filter (\<lambda>(u, p). \<not> is_due w now force p) (fw_pending w),
      fw_sink := fw_sink w @ map (\<lambda>(u, p). event_for w p) (filter (\<lambda>(u, p). is_due w now force p) (fw_pending w))\<rparr>)"
proof -
  let ?d = "fw_pending w"
  have wf: "dict_wf ?d" using assms(2) by (simp add: pending_ok_def)
  have get: "dict_get ?d u = Some p" if "(u, p) \<in> set ?d" for u p using that wf by (simp add: dict_get_mem)
  have due: "filter (\<lambda>(u, p). force \<or> now - pe_timestamp p \<ge> debounce_seconds w u) ?d = filter (\<lambda>(u, p). is_due w now force p) ?d"
    by (rule filter_cong) (auto simp: is_due_def debounce_seconds_def dest: get)
  let ?us = "map fst (filter (\<lambda>(u, p). is_due w now force p) ?d)"
  have us: "distinct ?us" "set ?us \<subseteq> set (dict_keys ?d)" using wf by (auto simp: dict_wf_def distinct_map_filter)
  have "fold dict_pop ?us ?d = filter (\<lambda>(u, p). \<not> is_due w now force p) ?d"
  proof -
    have "u \<in> set ?us \<longleftrightarrow> is_due w now force p" if "(u, p) \<in> set ?d" for u p
      using get [OF that] that by (force dest: get)
    then show ?thesis unfolding filter_delete_keys [OF us] by (intro filter_cong) auto
  qed
  moreover have "map (\<lambda>u. event_for w (the (dict_get ?d u))) ?us = map (\<lambda>(u, p). event_for w p) (filter (\<lambda>(u, p). is_due w now force p) ?d)"
    by (auto dest: get)
  ultimately show ?thesis using drain_uris [OF assms us]
    by (simp add: drain_def due_uris_def due)
qed

section \<open>Notifications\<close>

definition accepted :: "'b watcher \<Rightarrow> raw_event \<Rightarrow> bool" where
  "accepted w raw = (case dict_get (fw_configs w) (re_watch_id raw) of
     None \<Rightarrow> False | Some c \<Rightarrow> wc_enabled c \<and> accepts_extension c (re_uri raw))"

text \<open>The buffer a notification is checked with: its own entry replaces an older one of the same file.\<close>

definition buffered :: "('k, 'b) watcher_env \<Rightarrow> raw_event \<Rightarrow> 'b watcher \<Rightarrow> (string, pending_event) dict" where
  "buffered env raw w = dict_set (re_uri raw) \<lparr>pe_timestamp = fe_clock env (fw_ticks w), pe_event = raw\<rparr> (fw_pending w)"

lemma pending_ok_buffered:
  assumes "pending_ok w" and "accepted w raw"
  shows "pending_ok (w\<lparr>fw_ticks := n, fw_pending := buffered env raw w\<rparr>)"
proof -
  have "dict_has (fw_configs w) (re_watch_id raw)" using assms(2) by (simp add: accepted_def dict_has_def split: option.splits)
  then show ?thesis using assms(1) set_dict_set [of "re_uri raw" _ "fw_pending w"]
    by (fastforce simp: pending_ok_def buffered_def)
qed

lemma notify_app:
  fixes env :: "('k, file_event list) watcher_env" and w
  defines "now \<equiv> fe_clock env (fw_ticks w)"
  assumes "records_files env" and "pending_ok w" and "accepted w raw"
  shows "on_backend_event env raw w =
    (Inr (), w\<lparr>fw_ticks := Suc (fw_ticks w),
      fw_pending := filter (\<lambda>(u, p). \<not> is_due w now False p) (buffered env raw w),
      fw_sink := fw_sink w @ map (\<lambda>(u, p). event_for w p) (filter (\<lambda>(u, p). is_due w now False p) (buffered env raw w))\<rparr>)"
proof -
  obtain c where c: "dict_get (fw_configs w) (re_watch_id raw) = Some c" "wc_enabled c" "accepts_extension c (re_uri raw)"
    using assms(4) by (auto simp: accepted_def split: option.splits)
  let ?w = "w\<lparr>fw_ticks := Suc (fw_ticks w), fw_pending := buffered env raw w\<rparr>"
  have "is_due ?w = is_due w" "event_for ?w = event_for w" by (simp_all add: is_due_def event_for_def fun_eq_iff)
  then show ?thesis using c drain_app [OF assms(2) pending_ok_buffered [OF assms(3,4), of env "Suc (fw_ticks w)"], of now False]
    by (simp add: on_backend_event_def py_bind_split buffered_def now_def)
qed

lemma notify_ignored: "\<not> accepted w raw \<Longrightarrow> on_backend_event env raw w = (Inr (), w)"
  by (auto simp: on_backend_event_def accepted_def py_bind_split split: option.splits)

lemma flush_app:
  assumes "records_files env" and "pending_ok w"
  shows "watcher_flush env w = (Inr (), w\<lparr>fw_ticks := Suc (fw_ticks w), fw_pending := [],
    fw_sink := fw_sink w @ map (\<lambda>(u, p). event_for w p) (fw_pending w)\<rparr>)"
proof -
  let ?w = "w\<lparr>fw_ticks := Suc (fw_ticks w)\<rparr>"
  have "pending_ok ?w" using assms(2) by (simp add: pending_ok_def)
  moreover have "is_due ?w now True = (\<lambda>_. True)" "event_for ?w = event_for w" for now
    by (simp_all add: is_due_def event_for_def fun_eq_iff)
  ultimately show ?thesis using drain_app [OF assms(1), of ?w _ True]
    by (simp add: watcher_flush_def py_bind_split case_prod_unfold)
qed

section \<open>Runs\<close>

datatype watch_call = Watch_register watch_config | Watch_start string | Watch_stop string | Watch_notify raw_event | Watch_flush

fun watch_step :: "('k, 'b) watcher_env \<Rightarrow> watch_call \<Rightarrow> 'k \<times> 'b watcher \<Rightarrow> 'k \<times> 'b watcher" where
  "watch_step env (Watch_register c) s = snd (on_watcher (watcher_register c) s)"
| "watch_step env (Watch_start i) s = snd (watcher_start env i s)"
| "watch_step env (Watch_stop i) s = snd (watcher_stop env i s)"
| "watch_step env (Watch_notify raw) s = snd (on_watcher (on_backend_event env raw) s)"
| "watch_step env Watch_flush s = snd (on_watcher (watcher_flush env) s)"

text \<open>The notifications of a run that passed the filter, in order.\<close>

fun accepted_in :: "('k, 'b) watcher_env \<Rightarrow> watch_call list \<Rightarrow> 'k \<times> 'b watcher \<Rightarrow> raw_event list" where
  "accepted_in env [] s = []"
| "accepted_in env (c # cs) s =
     (case c of Watch_notify raw \<Rightarrow> if accepted (snd s) raw then [raw] else [] | _ \<Rightarrow> []) @ accepted_in env cs (watch_step env c s)"

definition change_of :: "raw_event \<Rightarrow> string \<times> string \<times> string \<times> file_event_type \<times> int" where
  "change_of r = (re_watch_id r, re_uri r, re_name r, re_event_type r, re_size r)"

definition reported_change :: "file_event \<Rightarrow> string \<times> string \<times> string \<times> file_event_type \<times> int" where
  "reported_change f = (fv_watch_id f, fv_uri f, fv_name f, fv_event_type f, fv_size f)"

definition delivered_for :: "string \<Rightarrow> file_event list watcher \<Rightarrow> (string \<times> string \<times> string \<times> file_event_type \<times> int) list" where
  "delivered_for u w = map reported_change (filter (\<lambda>f. fv_uri f = u) (fw_sink w))"

definition waiting_for :: "string \<Rightarrow> 'b watcher \<Rightarrow> (string \<times> string \<times> string \<times> file_event_type \<times> int) list" where
  "waiting_for u w = (case dict_get (fw_pending w) u of None \<Rightarrow> [] | Some p \<Rightarrow> [change_of (pe_event p)])"

lemma reported_event_for [simp]: "reported_change (event_for w p) = change_of (pe_event p)"
  by (simp add: reported_change_def event_for_def file_event_of_def change_of_def)

lemma fv_uri_event_for [simp]: "fv_uri (event_for w p) = re_uri (pe_event p)"
  by (simp add: event_for_def file_event_of_def)

text \<open>Releasing entries of the buffer moves the change of a file from the waiting to the delivered ones.\<close>

lemma release_entries:
  assumes "dict_wf d" and "\<forall>(v, p) \<in> set d. re_uri (pe_event p) = v"
  shows "map reported_change (filter (\<lambda>f. fv_uri f = u) (map (\<lambda>(v, p). event_for w p) (filter (\<lambda>(v, p). P p) d))) @
      (case dict_get (filter (\<lambda>(v, p). \<not> P p) d) u of None \<Rightarrow> [] | Some p \<Rightarrow> [change_of (pe_event p)]) =
    (case dict_get d u of None \<Rightarrow> [] | Some p \<Rightarrow> [change_of (pe_event p)])"
  using assms
proof (induction d)
  case Nil
  then show ?case by simp
next
  case (Cons e d)
  obtain v p where e: "e = (v, p)" by (cases e)
  have wf: "dict_wf d" "v \<notin> fst ` set d" using Cons.prems(1) by (auto simp: e dict_wf_def)
  have gone: "dict_get (filter Q d) v = None" for Q using wf(2) by (auto simp: map_of_eq_None_iff)
  have none: "dict_get d v = None" using wf(2) by (auto simp: map_of_eq_None_iff)
  have nil: "filter (\<lambda>f. fv_uri f = v) (map (\<lambda>(v, p). event_for w p) (filter (\<lambda>(v, p). P p) d)) = []"
    using Cons.prems(2) wf(2) by (force simp: filter_empty_conv)
  show ?case using Cons.IH [OF wf(1)] Cons.prems(2) gone none nil by (cases "u = v") (auto simp: e)
qed

definition change_trace :: "string \<Rightarrow> file_event list watcher \<Rightarrow> (string \<times> string \<times> string \<times> file_event_type \<times> int) list" where
  "change_trace u w = delivered_for u w @ waiting_for u w"

lemma trace_released:
  assumes "pending_ok w"
  shows "change_trace u (w\<lparr>fw_ticks := n, fw_pending := filter (\<lambda>(v, p). \<not> P p) (fw_pending w),
      fw_sink := fw_sink w @ map (\<lambda>(v, p). event_for w p) (filter (\<lambda>(v, p). P p) (fw_pending w))\<rparr>) = change_trace u w"
proof -
  have "dict_wf (fw_pending w)" "\<forall>(v, p) \<in> set (fw_pending w). re_uri (pe_event p) = v"
    using assms by (auto simp: pending_ok_def)
  from release_entries [OF this, of u w P] show ?thesis
    by (simp add: change_trace_def delivered_for_def waiting_for_def)
qed

lemma pending_ok_filter: "pending_ok w \<Longrightarrow> pending_ok (w\<lparr>fw_ticks := n, fw_pending := filter Q (fw_pending w), fw_sink := x\<rparr>)"
  by (auto simp: pending_ok_def dict_wf_def distinct_map_filter)

lemma flush_trace:
  assumes "records_files env" and "pending_ok w"
  shows "pending_ok (snd (watcher_flush env w)) \<and> change_trace u (snd (watcher_flush env w)) = change_trace u w"
  using trace_released [OF assms(2), of u "\<lambda>_. True" "Suc (fw_ticks w)"]
  unfolding flush_app [OF assms] snd_conv by (simp add: pending_ok_def case_prod_unfold)

lemma notify_trace:
  assumes "records_files env" and "pending_ok w" and "accepted w raw"
  shows "pending_ok (snd (on_backend_event env raw w)) \<and>
    change_trace u (snd (on_backend_event env raw w)) =
      (if re_uri raw = u then delivered_for u w @ [change_of raw] else change_trace u w)"
proof -
  let ?w = "w\<lparr>fw_ticks := Suc (fw_ticks w), fw_pending := buffered env raw w\<rparr>"
  have ok: "pending_ok ?w" by (rule pending_ok_buffered [OF assms(2,3)])
  have same: "event_for ?w = event_for w" by (simp add: event_for_def fun_eq_iff)
  have "change_trace u ?w = (if re_uri raw = u then delivered_for u w @ [change_of raw] else change_trace u w)"
    by (simp add: change_trace_def delivered_for_def waiting_for_def buffered_def)
  moreover have "snd (on_backend_event env raw w) = ?w\<lparr>fw_ticks := Suc (fw_ticks w),
      fw_pending := filter (\<lambda>(v, p). \<not> is_due w (fe_clock env (fw_ticks w)) False p) (fw_pending ?w),
      fw_sink := fw_sink ?w @ map (\<lambda>(v, p). event_for ?w p) (filter (\<lambda>(v, p). is_due w (fe_clock env (fw_ticks w)) False p) (fw_pending ?w))\<rparr>"
    by (simp add: notify_app [OF assms] same)
  ultimately show ?thesis using trace_released [OF ok] pending_ok_filter [OF ok] by simp
qed

lemma trace_cong:
  "fw_pending w' = fw_pending w \<Longrightarrow> fw_sink w' = fw_sink w \<Longrightarrow> change_trace u w' = change_trace u w"
  by (simp add: change_trace_def delivered_for_def waiting_for_def)

lemma pending_ok_configs:
  "pending_ok w \<Longrightarrow> fw_pending w' = fw_pending w \<Longrightarrow> (\<And>i. dict_has (fw_configs w) i \<Longrightarrow> dict_has (fw_configs w') i) \<Longrightarrow> pending_ok w'"
  by (auto simp: pending_ok_def)

lemma start_fields:
  "fw_pending (snd (snd (watcher_start env i s))) = fw_pending (snd s) \<and> fw_sink (snd (snd (watcher_start env i s))) = fw_sink (snd s) \<and>
   fw_configs (snd (snd (watcher_start env i s))) = fw_configs (snd s)"
  by (simp add: watcher_start_def require_config_def py_bind_split split: option.split sum.split)

lemma step_trace:
  assumes "records_files env" and "pending_ok (snd s)"
  shows "pending_ok (snd (watch_step env c s)) \<and> change_trace u (snd (watch_step env c s)) =
    (case c of Watch_notify raw \<Rightarrow> if accepted (snd s) raw \<and> re_uri raw = u then delivered_for u (snd s) @ [change_of raw] else change_trace u (snd s)
     | _ \<Rightarrow> change_trace u (snd s))"
proof (cases c)
  case (Watch_register c)
  then show ?thesis using assms(2)
    by (auto simp: watcher_register_def dict_has_def intro!: trace_cong intro: pending_ok_configs)
next
  case (Watch_start i)
  then show ?thesis using assms(2) start_fields [of env i s]
    by (auto intro!: trace_cong intro: pending_ok_configs)
next
  case (Watch_stop i)
  let ?w = "(snd s)\<lparr>fw_watching := fw_watching (snd s) - {i}\<rparr>"
  have w: "pending_ok ?w" "change_trace u ?w = change_trace u (snd s)"
    using assms(2) by (auto intro: trace_cong pending_ok_configs)
  have "snd (watch_step env c s) = (case fst (bo_unwatch (fe_backend env) i (fst s)) of
      Inl e \<Rightarrow> snd s | Inr _ \<Rightarrow> snd (watcher_flush env ?w))"
    by (simp add: Watch_stop watcher_stop_def py_bind_split split: sum.split)
  then show ?thesis using w assms flush_trace [OF assms(1) w(1)] by (simp add: Watch_stop split: sum.split)
next
  case (Watch_notify raw)
  then show ?thesis using assms notify_trace [OF assms, of raw u] notify_ignored [of "snd s" raw env]
    by (cases "accepted (snd s) raw") auto
next
  case Watch_flush
  then show ?thesis using flush_trace [OF assms] by simp
qed

text \<open>The trace of a file is a subsequence of its accepted changes that ends with the last of them.\<close>

definition keeps_latest :: "'a list \<Rightarrow> 'a list \<Rightarrow> bool" where
  "keeps_latest xs ys = (subseq xs ys \<and> (ys \<noteq> [] \<longrightarrow> xs \<noteq> [] \<and> last xs = last ys))"

lemma keeps_latest_snoc: "keeps_latest (xs @ zs) ys \<Longrightarrow> keeps_latest (xs @ [y]) (ys @ [y])"
  unfolding keeps_latest_def by (auto intro: list_emb_append_mono subseq_order.trans [of xs "xs @ zs" ys])

definition changes_to :: "string \<Rightarrow> raw_event list \<Rightarrow> (string \<times> string \<times> string \<times> file_event_type \<times> int) list" where
  "changes_to u rs = map change_of (filter (\<lambda>r. re_uri r = u) rs)"

lemma run_trace:
  assumes "records_files env" and "pending_ok (snd s)" and "keeps_latest (change_trace u (snd s)) (changes_to u past)"
  shows "pending_ok (snd (fold (watch_step env) calls s)) \<and>
    keeps_latest (change_trace u (snd (fold (watch_step env) calls s))) (changes_to u (past @ accepted_in env calls s))"
  using assms(2,3)
proof (induction calls arbitrary: s past)
  case Nil
  then show ?case by simp
next
  case (Cons c cs)
  let ?new = "case c of Watch_notify raw \<Rightarrow> if accepted (snd s) raw then [raw] else [] | _ \<Rightarrow> []"
  have st: "pending_ok (snd (watch_step env c s))" using step_trace [OF assms(1) Cons.prems(1)] by blast
  have "keeps_latest (change_trace u (snd (watch_step env c s))) (changes_to u (past @ ?new))"
    using step_trace [OF assms(1) Cons.prems(1), of c u] Cons.prems(2)
    by (cases c) (auto simp: changes_to_def change_trace_def intro: keeps_latest_snoc)
  from Cons.IH [OF st this] show ?case by simp
qed

definition watcher_init :: "file_event list watcher" where
  "watcher_init = \<lparr>fw_configs = [], fw_pending = [], fw_watching = {}, fw_sink = [], fw_ticks = 0\<rparr>"

section \<open>The plugin over the in-memory backend\<close>

definition configs_keyed :: "(string, watch_config) dict \<Rightarrow> bool" where
  "configs_keyed d = (\<forall>i c. dict_get d i = Some c \<longrightarrow> wc_watch_id c = i)"

lemma configs_keyed_set: "configs_keyed d \<Longrightarrow> configs_keyed (dict_set (wc_watch_id c) c d)"
  unfolding configs_keyed_def by auto

definition wired :: "('c memory_watch \<times> 'b watcher) \<Rightarrow> bool" where
  "wired s = (set (dict_keys (mw_callbacks (fst s))) = fw_watching (snd s) \<and> mw_watching (fst s) = fw_watching (snd s) \<and>
     configs_keyed (fw_configs (snd s)))"

lemma on_event_fields:
  assumes "records_files env" and "pending_ok w"
  shows "fw_watching (snd (on_backend_event env raw w)) = fw_watching w \<and> fw_configs (snd (on_backend_event env raw w)) = fw_configs w"
  by (cases "accepted w raw") (simp_all add: notify_app [OF assms] notify_ignored)

lemma keys_pop_set: "fst ` set (dict_pop k d) = fst ` set d - {k}"
  using arg_cong [OF dict_keys_pop [of k d], of set] by auto

lemma stop_app:
  assumes "records_files env" and "fe_backend env = memory_backend_ops cb" and "pending_ok (snd s)"
  shows "\<exists>s'. watcher_stop env i s = (Inr (), s') \<and> pending_ok (snd s') \<and> fw_pending (snd s') = [] \<and>
    fw_watching (snd s') = fw_watching (snd s) - {i} \<and> (wired s \<longrightarrow> wired s')"
proof -
  let ?w = "(snd s)\<lparr>fw_watching := fw_watching (snd s) - {i}\<rparr>"
  have "pending_ok ?w" using assms(3) by (auto intro: pending_ok_configs)
  from flush_app [OF assms(1) this] flush_trace [OF assms(1) this]
  obtain w' where w': "watcher_flush env ?w = (Inr (), w')" "pending_ok w'" "fw_pending w' = []"
    "fw_watching w' = fw_watching (snd s) - {i}" "fw_configs w' = fw_configs (snd s)" by simp
  have run: "watcher_stop env i s = (Inr (), (\<lparr>mw_callbacks = dict_pop i (mw_callbacks (fst s)), mw_watching = mw_watching (fst s) - {i}\<rparr>, w'))"
    using w'(1) by (simp add: watcher_stop_def py_bind_split assms(2) memory_backend_ops_def memory_unwatch_def)
  show ?thesis unfolding run
    by (intro exI [of _ "(\<lparr>mw_callbacks = dict_pop i (mw_callbacks (fst s)), mw_watching = mw_watching (fst s) - {i}\<rparr>, w')"])
      (simp add: w' wired_def keys_pop_set)
qed

lemma start_wired:
  assumes "fe_backend env = memory_backend_ops cb" and "wired s"
  shows "wired (snd (watcher_start env i s))"
proof (cases "dict_get (fw_configs (snd s)) i")
  case None
  then show ?thesis using assms by (simp add: watcher_start_def require_config_def py_bind_split wired_def)
next
  case (Some c)
  then have c: "wc_watch_id c = i" using assms(2) unfolding wired_def configs_keyed_def by blast
  let ?s = "((fst s)\<lparr>mw_callbacks := dict_set i cb (mw_callbacks (fst s)), mw_watching := insert i (mw_watching (fst s))\<rparr>,
    (snd s)\<lparr>fw_watching := insert i (fw_watching (snd s))\<rparr>)"
  have "snd (watcher_start env i s) = ?s"
    using Some by (simp add: watcher_start_def require_config_def py_bind_split assms(1) memory_backend_ops_def memory_watch_def c)
  moreover have "set (dict_keys (dict_set i cb d)) = insert i (set (dict_keys d))" for d
    by (auto simp: dict_keys_set dict_has_iff)
  ultimately show ?thesis using assms(2) by (simp add: wired_def)
qed

lemma step_wired:
  assumes "records_files env" and "fe_backend env = memory_backend_ops cb" and "pending_ok (snd s)" and "wired s"
  shows "wired (watch_step env c s)"
proof (cases c)
  case (Watch_stop i)
  obtain s' where "watcher_stop env i s = (Inr (), s')" "wired s'" using stop_app [OF assms(1-3), of i] assms(4) by blast
  then show ?thesis by (simp add: Watch_stop)
next
  case (Watch_start i)
  then show ?thesis using start_wired [OF assms(2,4)] by simp
next
  case (Watch_notify raw)
  then show ?thesis using on_event_fields [OF assms(1,3), of raw] assms(4) by (simp add: wired_def)
next
  case (Watch_register c)
  then show ?thesis using assms(4) configs_keyed_set by (simp add: wired_def watcher_register_def)
next
  case Watch_flush
  then show ?thesis using flush_app [OF assms(1,3)] assms(4) by (simp add: wired_def)
qed

lemma run_wired:
  assumes "records_files env" and "fe_backend env = memory_backend_ops cb" and "pending_ok (snd s)" and "wired s"
  shows "pending_ok (snd (fold (watch_step env) calls s)) \<and> wired (fold (watch_step env) calls s)"
  using assms(3,4)
proof (induction calls arbitrary: s)
  case (Cons c cs)
  show ?case
    using Cons.IH [of "watch_step env c s"] step_trace [OF assms(1) Cons.prems(1), of c] step_wired [OF assms(1,2) Cons.prems, of c]
    by simp
qed simp

lemma stop_all_app:
  assumes "records_files env" and "fe_backend env = memory_backend_ops cb" and "pending_ok (snd s)" and "wired s"
  shows "\<exists>s'. py_for is (watcher_stop env) s = (Inr (), s') \<and> pending_ok (snd s') \<and> wired s' \<and>
    fw_watching (snd s') = fw_watching (snd s) - set is \<and> (is \<noteq> [] \<longrightarrow> fw_pending (snd s') = [])"
  using assms(3,4)
proof (induction "is" arbitrary: s)
  case Nil
  then show ?case by simp
next
  case (Cons i "is")
  obtain s1 where s1: "watcher_stop env i s = (Inr (), s1)" "pending_ok (snd s1)" "fw_pending (snd s1) = []"
      "fw_watching (snd s1) = fw_watching (snd s) - {i}" "wired s1"
    using stop_app [OF assms(1,2) Cons.prems(1), of i] Cons.prems(2) by blast
  obtain s' where s': "py_for is (watcher_stop env) s1 = (Inr (), s')" "pending_ok (snd s')" "wired s'"
      "fw_watching (snd s') = fw_watching (snd s1) - set is" "is \<noteq> [] \<longrightarrow> fw_pending (snd s') = []"
    using Cons.IH [OF s1(2,5)] by blast
  have "fw_pending (snd s') = []" using s'(1,5) s1(3) by (cases "is") auto
  then show ?case using s1(1,4) s' by (intro exI [of _ s']) auto
qed

section \<open>Properties\<close>

text \<open>C13: 
  Whatever is registered, started, stopped, notified and flushed: a flush empties the buffer, and then
  what has been delivered for a file are changes of this file that were accepted, in their order and
  none twice, the last of them being the last change that was accepted.
\<close>

theorem watcher_delivers_latest:
  assumes "records_files env" and "s = fold (watch_step env) calls (k, watcher_init)"
  shows "\<exists>w'. watcher_flush env (snd s) = (Inr (), w') \<and> fw_pending w' = [] \<and>
    (\<forall>u. keeps_latest (delivered_for u w') (changes_to u (accepted_in env calls (k, watcher_init))))"
proof -
  have init: "pending_ok (snd (k, watcher_init))" "keeps_latest (change_trace u (snd (k, watcher_init))) (changes_to u [])" for u
    by (simp_all add: watcher_init_def pending_ok_def keeps_latest_def change_trace_def delivered_for_def waiting_for_def changes_to_def)
  have run: "pending_ok (snd s)" "keeps_latest (change_trace u (snd s)) (changes_to u (accepted_in env calls (k, watcher_init)))" for u
    using run_trace [OF assms(1) init(1) init(2), of calls] unfolding assms(2) by auto
  obtain w' where w': "watcher_flush env (snd s) = (Inr (), w')" "fw_pending w' = []"
    using flush_app [OF assms(1) run(1)] by simp
  have "change_trace u w' = delivered_for u w'" for u by (simp add: change_trace_def waiting_for_def w'(2))
  then have "keeps_latest (delivered_for u w') (changes_to u (accepted_in env calls (k, watcher_init)))" for u
    using flush_trace [OF assms(1) run(1), of u] run(2) [of u] by (simp add: w'(1))
  with w' show ?thesis by blast
qed

text \<open>
  A notification that passes the filter of its watch replaces what is buffered for the same file and
  restarts its quiet period; then exactly the buffered changes whose quiet period has elapsed, of
  whatever watch, are delivered in buffer order. Any other notification changes nothing.
\<close>

theorem watcher_notify_outcome:
  assumes "records_files env" and "pending_ok w"
  shows "on_backend_event env raw w =
    (if accepted w raw then
       (Inr (), w\<lparr>fw_ticks := Suc (fw_ticks w),
          fw_pending := filter (\<lambda>(u, p). \<not> is_due w (fe_clock env (fw_ticks w)) False p) (buffered env raw w),
          fw_sink := fw_sink w @ map (\<lambda>(u, p). event_for w p)
            (filter (\<lambda>(u, p). is_due w (fe_clock env (fw_ticks w)) False p) (buffered env raw w))\<rparr>)
     else (Inr (), w))"
proof (cases "accepted w raw")
  case True
  then show ?thesis using notify_app [OF assms] by simp
next
  case False
  then show ?thesis by (simp add: notify_ignored)
qed

text \<open>
  After the plugin is stopped no watch is active, nothing is left in the buffer if one was, and no
  emission of the backend reaches the service any more.
\<close>

theorem watcher_plugin_silenced:
  assumes "records_files env" and "fe_backend env = memory_backend_ops cb"
    and "s = fold (watch_step env) calls (\<lparr>mw_callbacks = [], mw_watching = {}\<rparr>, watcher_init)"
  shows "\<exists>s'. watcher_plugin_stop env s = (Inr (), s') \<and> fw_watching (snd s') = {} \<and>
    (fw_watching (snd s) \<noteq> {} \<longrightarrow> fw_pending (snd s') = []) \<and>
    (\<forall>call raw. memory_emit call raw s' = (Inr (), s'))"
proof -
  have init: "pending_ok (snd (\<lparr>mw_callbacks = [], mw_watching = {}\<rparr>, watcher_init))"
    "wired (\<lparr>mw_callbacks = [], mw_watching = {}\<rparr>, watcher_init)"
    by (simp_all add: watcher_init_def pending_ok_def wired_def configs_keyed_def)
  note s = run_wired [OF assms(1,2) init, of calls, folded assms(3)]
  have "finite (fw_watching (snd s))" using s by (auto simp: wired_def dest: sym)
  then have ids: "set (watching_ids env (snd s)) = fw_watching (snd s)" by (simp add: watching_ids_def)
  obtain s' where s': "py_for (watching_ids env (snd s)) (watcher_stop env) s = (Inr (), s')" "wired s'"
      "fw_watching (snd s') = {}" "watching_ids env (snd s) \<noteq> [] \<longrightarrow> fw_pending (snd s') = []"
    using stop_all_app [OF assms(1,2), of s "watching_ids env (snd s)"] s ids by auto
  have "mw_callbacks (fst s') = []" using s'(2,3) by (simp add: wired_def)
  then have "memory_emit call raw s' = (Inr (), s')" for call raw by (simp add: memory_emit_def py_bind_split)
  with s' ids show ?thesis by (intro exI [of _ s']) (auto simp: watcher_plugin_stop_def py_bind_split)
qed

section \<open>Witnesses\<close>

definition sample_watch :: watch_config where
  "sample_watch = \<lparr>wc_watch_id = ''w'', wc_workspace_id = ''ws'', wc_root_uri = ''file:///in'', wc_patterns = {''.pdf''},
     wc_recursive = True, wc_debounce_seconds = 5, wc_enabled = True\<rparr>"

definition sample_raw :: "string \<Rightarrow> int \<Rightarrow> raw_event" where
  "sample_raw u n = \<lparr>re_watch_id = ''w'', re_uri = u, re_name = u, re_event_type = FILE_MODIFIED, re_size = n, re_timestamp = 0\<rparr>"

definition sample_watcher_env :: "(unit memory_watch, file_event list) watcher_env" where
  "sample_watcher_env = \<lparr>fe_backend = memory_backend_ops (), fe_dispatch = (\<lambda>e. py_modify (\<lambda>es. es @ [e])), fe_clock = real,
     fe_order = sorted_list_of_set\<rparr>"

lemma sample_watcher_records: "records_files sample_watcher_env" "fe_backend sample_watcher_env = memory_backend_ops ()"
  by (simp_all add: records_files_def sample_watcher_env_def)

lemma sample_suffix: "path_suffix ''a.PDF'' = ''.PDF''" "path_suffix ''b.txt'' = ''.txt''" "str_lower ''.PDF'' = ''.pdf''" "str_lower ''.txt'' = ''.txt''"
  by code_simp+

lemma sample_watcher_run:
  defines "calls \<equiv> [Watch_register sample_watch, Watch_start ''w'', Watch_notify (sample_raw ''a.PDF'' 1),
    Watch_notify (sample_raw ''b.txt'' 1), Watch_notify (sample_raw ''a.PDF'' 2)]"
  shows "accepted_in sample_watcher_env calls (\<lparr>mw_callbacks = [], mw_watching = {}\<rparr>, watcher_init) = [sample_raw ''a.PDF'' 1, sample_raw ''a.PDF'' 2]"
    and "fw_watching (snd (fold (watch_step sample_watcher_env) calls (\<lparr>mw_callbacks = [], mw_watching = {}\<rparr>, watcher_init))) = {''w''}"
  by (simp_all add: calls_def sample_watcher_env_def watcher_register_def watcher_start_def require_config_def py_bind_split
    sample_watch_def memory_backend_ops_def memory_watch_def watcher_init_def accepted_def sample_raw_def accepts_extension_def sample_suffix
    on_backend_event_def drain_def due_uris_def debounce_seconds_def)

lemma watcher_delivers_latest_witness:
  "\<exists>calls w'. watcher_flush sample_watcher_env (snd (fold (watch_step sample_watcher_env) calls (\<lparr>mw_callbacks = [], mw_watching = {}\<rparr>, watcher_init))) = (Inr (), w') \<and>
     fw_pending w' = [] \<and> last (delivered_for ''a.PDF'' w') = (''w'', ''a.PDF'', ''a.PDF'', FILE_MODIFIED, 2)"
proof -
  let ?calls = "[Watch_register sample_watch, Watch_start ''w'', Watch_notify (sample_raw ''a.PDF'' 1),
    Watch_notify (sample_raw ''b.txt'' 1), Watch_notify (sample_raw ''a.PDF'' 2)]"
  obtain w' where w': "watcher_flush sample_watcher_env (snd (fold (watch_step sample_watcher_env) ?calls (\<lparr>mw_callbacks = [], mw_watching = {}\<rparr>, watcher_init))) = (Inr (), w')"
    "fw_pending w' = []" "keeps_latest (delivered_for ''a.PDF'' w') (changes_to ''a.PDF'' [sample_raw ''a.PDF'' 1, sample_raw ''a.PDF'' 2])"
    using watcher_delivers_latest [OF sample_watcher_records(1) refl, of ?calls "\<lparr>mw_callbacks = [], mw_watching = {}\<rparr>"]
    unfolding sample_watcher_run(1) by blast
  have "last (delivered_for ''a.PDF'' w') = (''w'', ''a.PDF'', ''a.PDF'', FILE_MODIFIED, 2)"
    using w'(3) by (simp add: keeps_latest_def changes_to_def sample_raw_def change_of_def)
  with w'(1,2) show ?thesis by blast
qed

lemma watcher_notify_outcome_witness:
  "fw_pending (snd (on_backend_event sample_watcher_env (sample_raw ''a.PDF'' 1)
     (watcher_init\<lparr>fw_configs := [(''w'', sample_watch)]\<rparr>))) = [(''a.PDF'', \<lparr>pe_timestamp = 0, pe_event = sample_raw ''a.PDF'' 1\<rparr>)]"
proof -
  let ?w = "watcher_init\<lparr>fw_configs := [(''w'', sample_watch)]\<rparr>"
  have "pending_ok ?w" "accepted ?w (sample_raw ''a.PDF'' 1)"
    by (simp_all add: pending_ok_def watcher_init_def accepted_def sample_raw_def sample_watch_def accepts_extension_def sample_suffix)
  then show ?thesis using watcher_notify_outcome [OF sample_watcher_records(1), of ?w "sample_raw ''a.PDF'' 1"]
    by (simp add: buffered_def is_due_def sample_watcher_env_def watcher_init_def sample_raw_def sample_watch_def)
qed

lemma watcher_plugin_silenced_witness:
  "\<exists>calls s'. fw_watching (snd (fold (watch_step sample_watcher_env) calls (\<lparr>mw_callbacks = [], mw_watching = {}\<rparr>, watcher_init))) = {''w''} \<and>
     watcher_plugin_stop sample_watcher_env (fold (watch_step sample_watcher_env) calls (\<lparr>mw_callbacks = [], mw_watching = {}\<rparr>, watcher_init)) = (Inr (), s') \<and>
     fw_pending (snd s') = []"
proof -
  let ?calls = "[Watch_register sample_watch, Watch_start ''w'', Watch_notify (sample_raw ''a.PDF'' 1),
    Watch_notify (sample_raw ''b.txt'' 1), Watch_notify (sample_raw ''a.PDF'' 2)]"
  show ?thesis using watcher_plugin_silenced [OF sample_watcher_records refl, of ?calls] sample_watcher_run(2)
    by (intro exI [of _ ?calls]) blast
qed

end
