(* ===== verification/Watch_Polling.thy ===== *)
theory Watch_Polling
  imports Watcher
begin

text \<open>
  \<open>watcher/storage_watch_backend.py\<close>: the backend that polls a storage. The storage manager is not part
  of this package: \<open>storage_view\<close> is what its \<open>list\<close> and \<open>stat\<close> answer during one poll. The walk over
  the directories is a partial function, \<open>None\<close> for a walk that never ends. What a callback does is a
  parameter, on a state of its own.
\<close>

section \<open>The walk\<close>

record storage_view =
  sv_list :: "string \<Rightarrow> exn + string list"
  sv_stat :: "string \<Rightarrow> exn + bool \<times> int"

definition rstrip_slash :: "string \<Rightarrow> string" where
  "rstrip_slash s = rev (dropWhile (\<lambda>c. c = CHR ''/'') (rev s))"

definition child_uri :: "string \<Rightarrow> string \<Rightarrow> string" where
  "child_uri d name = rstrip_slash d @ CHR ''/'' # name"

fun scan_children ::
    "storage_view \<Rightarrow> bool \<Rightarrow> string \<Rightarrow> string list \<Rightarrow> string list \<Rightarrow> (string, int) dict \<Rightarrow> exn + string list \<times> (string, int) dict" where
  "scan_children sv recursive d [] stack result = Inr (stack, result)"
| "scan_children sv recursive d (name # names) stack result =
     (case sv_stat sv (child_uri d name) of
        Inl e \<Rightarrow> Inl e
      | Inr (is_directory, sz) \<Rightarrow>
          if is_directory then scan_children sv recursive d names (if recursive then stack @ [child_uri d name] else stack) result
          else scan_children sv recursive d names stack (dict_set (child_uri d name) sz result))"

partial_function (option) snapshot_loop ::
    "storage_view \<Rightarrow> bool \<Rightarrow> string list \<Rightarrow> (string, int) dict \<Rightarrow> (exn + (string, int) dict) option" where
  "snapshot_loop sv recursive stack result =
     (if stack = [] then Some (Inr result)
      else (case sv_list sv (last stack) of
          Inl _ \<Rightarrow> snapshot_loop sv recursive (butlast stack) result
        | Inr names \<Rightarrow>
            (case scan_children sv recursive (last stack) names (butlast stack) result of
               Inl e \<Rightarrow> Some (Inl e)
             | Inr (stack', result') \<Rightarrow> snapshot_loop sv recursive stack' result')))"

definition snapshot :: "storage_view \<Rightarrow> watch_config \<Rightarrow> (exn + (string, int) dict) option" where
  "snapshot sv c = snapshot_loop sv (wc_recursive c) [wc_root_uri c] []"

section \<open>The backend\<close>

record 'c polling_backend =
  pb_callbacks :: "(string, 'c) dict"
  pb_configs :: "(string, watch_config) dict"
  pb_snapshots :: "(string, (string, int) dict) dict"

definition new_polling :: "'c polling_backend" where
  "new_polling = \<lparr>pb_callbacks = [], pb_configs = [], pb_snapshots = []\<rparr>"

definition polling_watch :: "storage_view \<Rightarrow> watch_config \<Rightarrow> 'c \<Rightarrow> 'c polling_backend \<Rightarrow> ((exn + unit) \<times> 'c polling_backend) option" where
  "polling_watch sv c callback b =
     (let b' = b\<lparr>pb_configs := dict_set (wc_watch_id c) c (pb_configs b), pb_callbacks := dict_set (wc_watch_id c) callback (pb_callbacks b)\<rparr> in
      case snapshot sv c of
        None \<Rightarrow> None
      | Some (Inl e) \<Rightarrow> Some (Inl e, b')
      | Some (Inr files) \<Rightarrow> Some (Inr (), b'\<lparr>pb_snapshots := dict_set (wc_watch_id c) files (pb_snapshots b')\<rparr>))"

definition polling_unwatch :: "string \<Rightarrow> ('c polling_backend, unit) py" where
  "polling_unwatch wid = py_modify (\<lambda>b. b\<lparr>pb_configs := dict_pop wid (pb_configs b),
     pb_callbacks := dict_pop wid (pb_callbacks b), pb_snapshots := dict_pop wid (pb_snapshots b)\<rparr>)"

definition polling_is_watching :: "'c polling_backend \<Rightarrow> string \<Rightarrow> bool" where
  "polling_is_watching b wid = dict_has (pb_callbacks b) wid"

definition polled_event :: "string \<Rightarrow> real \<Rightarrow> string \<Rightarrow> file_event_type \<Rightarrow> int \<Rightarrow> raw_event" where
  "polled_event wid now uri change sz =
     \<lparr>re_watch_id = wid, re_uri = uri, re_name = path_name uri, re_event_type = change, re_size = sz, re_timestamp = now\<rparr>"

definition report_current :: "(raw_event \<Rightarrow> ('s, unit) py) \<Rightarrow> string \<Rightarrow> real \<Rightarrow> (string, int) dict \<Rightarrow> string \<times> int \<Rightarrow> ('s, unit) py" where
  "report_current callback wid now previous = (\<lambda>(uri, sz).
     case dict_get previous uri of
       None \<Rightarrow> callback (polled_event wid now uri FILE_CREATED sz)
     | Some old \<Rightarrow> if old \<noteq> sz then callback (polled_event wid now uri FILE_MODIFIED sz) else py_return ())"

definition report_deleted :: "(raw_event \<Rightarrow> ('s, unit) py) \<Rightarrow> string \<Rightarrow> real \<Rightarrow> (string, int) dict \<Rightarrow> string \<Rightarrow> ('s, unit) py" where
  "report_deleted callback wid now current uri =
     (if dict_has current uri then py_return () else callback (polled_event wid now uri FILE_DELETED 0))"

definition report_changes :: "(raw_event \<Rightarrow> ('s, unit) py) \<Rightarrow> string \<Rightarrow> real \<Rightarrow> (string, int) dict \<Rightarrow> (string, int) dict \<Rightarrow> ('s, unit) py" where
  "report_changes callback wid now previous current =
     py_bind (py_for current (report_current callback wid now previous)) (\<lambda>_.
     py_for (dict_keys previous) (report_deleted callback wid now current))"

definition poll ::
    "('c \<Rightarrow> raw_event \<Rightarrow> ('s, unit) py) \<Rightarrow> storage_view \<Rightarrow> real \<Rightarrow> string \<Rightarrow> 'c polling_backend \<times> 's \<Rightarrow>
     ((exn + unit) \<times> ('c polling_backend \<times> 's)) option" where
  "poll call sv now wid s =
     (case (dict_get (pb_configs (fst s)) wid, dict_get (pb_callbacks (fst s)) wid) of
        (Some c, Some callback) \<Rightarrow>
          (let previous = (case dict_get (pb_snapshots (fst s)) wid of None \<Rightarrow> [] | Some files \<Rightarrow> files) in
           case snapshot sv c of
             None \<Rightarrow> None
           | Some (Inl e) \<Rightarrow> Some (Inl e, s)
           | Some (Inr current) \<Rightarrow>
               Some (py_bind (py_on snd (\<lambda>t s. (fst s, t)) (report_changes (call callback) wid now previous current)) (\<lambda>_.
                 py_modify (\<lambda>s. ((fst s)\<lparr>pb_snapshots := dict_set wid current (pb_snapshots (fst s))\<rparr>, snd s))) s))
      | _ \<Rightarrow> Some (Inr (), s))"

section \<open>What the walk finds\<close>

definition child_of :: "storage_view \<Rightarrow> string \<Rightarrow> string \<Rightarrow> bool" where
  "child_of sv d u = (\<exists>names. sv_list sv d = Inr names \<and> u \<in> child_uri d ` set names)"

definition file_size :: "storage_view \<Rightarrow> string \<Rightarrow> int option" where
  "file_size sv u = (case sv_stat sv u of Inr (False, n) \<Rightarrow> Some n | _ \<Rightarrow> None)"

definition is_dir :: "storage_view \<Rightarrow> string \<Rightarrow> bool" where
  "is_dir sv u = (case sv_stat sv u of Inr (True, _) \<Rightarrow> True | _ \<Rightarrow> False)"

inductive file_under :: "storage_view \<Rightarrow> bool \<Rightarrow> string \<Rightarrow> string \<Rightarrow> bool" for sv recursive where
  here: "child_of sv d u \<Longrightarrow> file_size sv u \<noteq> None \<Longrightarrow> file_under sv recursive d u"
| deeper: "recursive \<Longrightarrow> child_of sv d e \<Longrightarrow> is_dir sv e \<Longrightarrow> file_under sv recursive e u \<Longrightarrow> file_under sv recursive d u"

lemma file_under_iff:
  "file_under sv recursive d u \<longleftrightarrow>
    child_of sv d u \<and> file_size sv u \<noteq> None \<or> recursive \<and> (\<exists>e. child_of sv d e \<and> is_dir sv e \<and> file_under sv recursive e u)"
  by (subst file_under.simps) blast

text \<open>A storage whose directories do not contain themselves and whose entries can be examined.\<close>

definition walkable :: "storage_view \<Rightarrow> (string \<Rightarrow> nat) \<Rightarrow> bool" where
  "walkable sv depth = (\<forall>d u. child_of sv d u \<longrightarrow> \<not> isl (sv_stat sv u) \<and> (is_dir sv u \<longrightarrow> depth u < depth d))"

definition files_added :: "storage_view \<Rightarrow> (string \<Rightarrow> bool) \<Rightarrow> (string, int) dict \<Rightarrow> (string, int) dict \<Rightarrow> bool" where
  "files_added sv P r r' = (\<forall>u. dict_get r' u = (if P u then file_size sv u else dict_get r u))"

lemma scan_children_spec:
  assumes "\<forall>n \<in> set names. \<not> isl (sv_stat sv (child_uri d n))" and "dict_wf result"
  shows "\<exists>result'. scan_children sv recursive d names stack result =
      Inr (stack @ (if recursive then filter (is_dir sv) (map (child_uri d) names) else []), result') \<and> dict_wf result' \<and>
    files_added sv (\<lambda>u. u \<in> child_uri d ` set names \<and> file_size sv u \<noteq> None) result result'"
  using assms
proof (induction names arbitrary: stack result)
  case Nil
  then show ?case by (simp add: files_added_def)
next
  case (Cons n names)
  obtain b sz where st: "sv_stat sv (child_uri d n) = Inr (b, sz)"
    using Cons.prems(1) by (cases "sv_stat sv (child_uri d n)") auto
  have rest: "\<forall>n \<in> set names. \<not> isl (sv_stat sv (child_uri d n))" using Cons.prems(1) by simp
  show ?case
  proof (cases b)
    case True
    then have dir: "is_dir sv (child_uri d n)" "file_size sv (child_uri d n) = None" using st by (simp_all add: is_dir_def file_size_def)
    show ?thesis
      using Cons.IH [OF rest Cons.prems(2), of "if recursive then stack @ [child_uri d n] else stack"] st True dir
      by (auto simp: files_added_def)
  next
    case False
    then have plain: "\<not> is_dir sv (child_uri d n)" "file_size sv (child_uri d n) = Some sz" using st by (simp_all add: is_dir_def file_size_def)
    show ?thesis
      using Cons.IH [OF rest, of "dict_set (child_uri d n) sz result" stack] Cons.prems(2) st False plain
      by (force simp: files_added_def)
  qed
qed

lemma snapshot_loop_dir:
  assumes "walkable sv depth" and "dict_wf result"
  shows "\<exists>result'. snapshot_loop sv recursive (stack @ [d]) result = snapshot_loop sv recursive stack result' \<and> dict_wf result' \<and>
    files_added sv (file_under sv recursive d) result result'"
  using assms(2)
proof (induction "depth d" arbitrary: d stack result rule: less_induct)
  case less
  show ?case
  proof (cases "sv_list sv d")
    case (Inl e)
    have "\<not> file_under sv recursive d u" for u by (simp add: file_under_iff [of _ _ d] child_of_def Inl)
    then show ?thesis using less.prems by (subst snapshot_loop.simps) (auto simp: Inl files_added_def)
  next
    case (Inr names)
    have stat: "\<forall>n \<in> set names. \<not> isl (sv_stat sv (child_uri d n))" using assms(1) Inr by (auto simp: walkable_def child_of_def)
    let ?dirs = "if recursive then filter (is_dir sv) (map (child_uri d) names) else []"
    obtain r1 where r1: "scan_children sv recursive d names stack result = Inr (stack @ ?dirs, r1)" "dict_wf r1"
      "files_added sv (\<lambda>u. u \<in> child_uri d ` set names \<and> file_size sv u \<noteq> None) result r1"
      using scan_children_spec [OF stat less.prems] by blast
    have dirs: "\<exists>r'. snapshot_loop sv recursive (stack @ ds) r = snapshot_loop sv recursive stack r' \<and> dict_wf r' \<and>
        files_added sv (\<lambda>u. \<exists>e \<in> set ds. file_under sv recursive e u) r r'"
      if "set ds \<subseteq> set ?dirs" "dict_wf r" for ds r
      using that
    proof (induction ds arbitrary: r rule: rev_induct)
      case Nil
      then show ?case by (auto simp: files_added_def)
    next
      case (snoc e ds)
      have "depth e < depth d" using snoc.prems(1) Inr assms(1) by (auto simp: walkable_def child_of_def split: if_splits)
      then obtain r2 where r2: "snapshot_loop sv recursive ((stack @ ds) @ [e]) r = snapshot_loop sv recursive (stack @ ds) r2" "dict_wf r2"
        "files_added sv (file_under sv recursive e) r r2"
        using less.hyps [OF _ snoc.prems(2)] by blast
      obtain r' where "snapshot_loop sv recursive (stack @ ds) r2 = snapshot_loop sv recursive stack r'" "dict_wf r'"
        "files_added sv (\<lambda>u. \<exists>e \<in> set ds. file_under sv recursive e u) r2 r'"
        using snoc.IH [OF _ r2(2)] snoc.prems(1) by auto
      with r2 show ?case by (intro exI [of _ r']) (auto simp: files_added_def)
    qed
    obtain r' where r': "snapshot_loop sv recursive (stack @ ?dirs) r1 = snapshot_loop sv recursive stack r'" "dict_wf r'"
      "files_added sv (\<lambda>u. \<exists>e \<in> set ?dirs. file_under sv recursive e u) r1 r'"
      using dirs [OF order_refl r1(2)] by blast
    have "snapshot_loop sv recursive (stack @ [d]) result = snapshot_loop sv recursive stack r'"
      by (subst snapshot_loop.simps) (simp add: Inr r1(1) r'(1))
    moreover have "file_under sv recursive d u \<longleftrightarrow>
        u \<in> child_uri d ` set names \<and> file_size sv u \<noteq> None \<or> (\<exists>e \<in> set ?dirs. file_under sv recursive e u)" for u
      by (subst file_under_iff) (auto simp: child_of_def Inr)
    then have "files_added sv (file_under sv recursive d) result r'"
      using r1(3) r'(3) by (auto simp: files_added_def)
    ultimately show ?thesis using r'(2) by blast
  qed
qed

text \<open>The snapshot of a walkable storage: the walk ends, and it has found every file there is.\<close>

lemma snapshot_spec:
  assumes "walkable sv depth"
  shows "\<exists>files. snapshot sv c = Some (Inr files) \<and> dict_wf files \<and>
    (\<forall>u. dict_get files u = (if file_under sv (wc_recursive c) (wc_root_uri c) u then file_size sv u else None))"
proof -
  obtain r where "snapshot_loop sv (wc_recursive c) ([] @ [wc_root_uri c]) [] = snapshot_loop sv (wc_recursive c) [] r" "dict_wf r"
    "files_added sv (file_under sv (wc_recursive c) (wc_root_uri c)) [] r"
    using snapshot_loop_dir [OF assms dict_wf_empty] by blast
  then show ?thesis by (intro exI [of _ r]) (simp add: snapshot_def files_added_def snapshot_loop.simps [of sv _ "[]"])
qed

section \<open>What a poll reports\<close>

definition changes_between :: "string \<Rightarrow> real \<Rightarrow> (string, int) dict \<Rightarrow> (string, int) dict \<Rightarrow> raw_event list" where
  "changes_between wid now previous current =
     map (\<lambda>(u, n). polled_event wid now u (if dict_get previous u = None then FILE_CREATED else FILE_MODIFIED) n)
       (filter (\<lambda>(u, n). dict_get previous u \<noteq> Some n) current) @
     map (\<lambda>u. polled_event wid now u FILE_DELETED 0) (filter (\<lambda>u. \<not> dict_has current u) (dict_keys previous))"

definition recorder :: "raw_event \<Rightarrow> (raw_event list, unit) py" where
  "recorder r = py_modify (\<lambda>rs. rs @ [r])"

lemma report_current_recorded:
  "py_for current (report_current recorder wid now previous) rs =
    (Inr (), rs @ map (\<lambda>(u, n). polled_event wid now u (if dict_get previous u = None then FILE_CREATED else FILE_MODIFIED) n)
       (filter (\<lambda>(u, n). dict_get previous u \<noteq> Some n) current))"
  by (induction current arbitrary: rs) (auto simp: report_current_def recorder_def py_bind_split split: option.splits)

lemma report_deleted_recorded:
  "py_for us (report_deleted recorder wid now current) rs =
    (Inr (), rs @ map (\<lambda>u. polled_event wid now u FILE_DELETED 0) (filter (\<lambda>u. \<not> dict_has current u) us))"
  by (induction us arbitrary: rs) (auto simp: report_deleted_def recorder_def py_bind_split)

lemma report_changes_recorded:
  "report_changes recorder wid now previous current rs = (Inr (), rs @ changes_between wid now previous current)"
  by (simp add: report_changes_def py_bind_split report_current_recorded report_deleted_recorded changes_between_def)

definition apply_change :: "raw_event \<Rightarrow> (string \<Rightarrow> int option) \<Rightarrow> string \<Rightarrow> int option" where
  "apply_change e m = m(re_uri e := (if re_event_type e = FILE_DELETED then None else Some (re_size e)))"

text \<open>One event for every file that differs, telling how; together they lead from the old to the new state.\<close>

definition tells :: "(string \<Rightarrow> int option) \<Rightarrow> (string \<Rightarrow> int option) \<Rightarrow> raw_event \<Rightarrow> bool" where
  "tells old new e =
     (case new (re_uri e) of
        None \<Rightarrow> old (re_uri e) \<noteq> None \<and> re_event_type e = FILE_DELETED \<and> re_size e = 0
      | Some n \<Rightarrow> re_size e = n \<and> re_event_type e = (if old (re_uri e) = None then FILE_CREATED else FILE_MODIFIED) \<and> old (re_uri e) \<noteq> Some n)"

lemma changes_between_spec:
  fixes wid now previous current
  assumes "dict_wf previous" and "dict_wf current"
  defines "es \<equiv> changes_between wid now previous current"
  shows "distinct (map re_uri es)" "\<forall>e \<in> set es. re_watch_id e = wid \<and> tells (dict_get previous) (dict_get current) e"
    "re_uri ` set es = {u. dict_get previous u \<noteq> dict_get current u}"
proof -
  have get: "dict_get current u = Some n" if "(u, n) \<in> set current" for u n using that assms(2) by (simp add: dict_get_mem)
  have key: "u \<in> set (dict_keys d) \<longleftrightarrow> dict_get d u \<noteq> None" for d :: "(string, int) dict" and u
    using dict_has_iff [of d u] by (simp add: dict_has_def)
  have uris: "map re_uri es = dict_keys (filter (\<lambda>(u, n). dict_get previous u \<noteq> Some n) current) @ filter (\<lambda>u. \<not> dict_has current u) (dict_keys previous)"
    by (simp add: es_def changes_between_def polled_event_def case_prod_unfold comp_def)
  have "distinct (dict_keys (filter P current))" for P using assms(2) by (simp add: dict_wf_def distinct_map_filter)
  moreover have "dict_has current u" if "u \<in> fst ` set (filter P current)" for u P using that by (auto simp: dict_has_def dest: get)
  ultimately show "distinct (map re_uri es)" unfolding uris using assms(1) by (auto simp: dict_wf_def)
  show "\<forall>e \<in> set es. re_watch_id e = wid \<and> tells (dict_get previous) (dict_get current) e"
  proof
    fix e assume "e \<in> set es"
    then consider u n where "(u, n) \<in> set current" "dict_get previous u \<noteq> Some n"
        "e = polled_event wid now u (if dict_get previous u = None then FILE_CREATED else FILE_MODIFIED) n"
      | u where "u \<in> set (dict_keys previous)" "\<not> dict_has current u" "e = polled_event wid now u FILE_DELETED 0"
      by (auto simp: es_def changes_between_def)
    then show "re_watch_id e = wid \<and> tells (dict_get previous) (dict_get current) e"
    proof cases
      case 1
      then show ?thesis using get by (simp add: tells_def polled_event_def)
    next
      case 2
      then show ?thesis using key [of u previous] by (simp add: tells_def polled_event_def dict_has_def)
    qed
  qed
  have "u \<in> set (map re_uri es) \<longleftrightarrow> dict_get previous u \<noteq> dict_get current u" for u
  proof (cases "dict_get current u")
    case None
    then show ?thesis using key [of u previous] get [of u] by (auto simp: uris dict_has_def)
  next
    case (Some n)
    then have mem: "(u, n) \<in> set current" by (rule map_of_SomeD)
    have "u \<in> set (dict_keys (filter (\<lambda>(u, n). dict_get previous u \<noteq> Some n) current)) \<longleftrightarrow> dict_get previous u \<noteq> Some n"
    proof
      assume "u \<in> set (dict_keys (filter (\<lambda>(u, n). dict_get previous u \<noteq> Some n) current))"
      then obtain b where "(u, b) \<in> set current" "dict_get previous u \<noteq> Some b" by auto
      then show "dict_get previous u \<noteq> Some n" using get [of u b] Some by simp
    next
      assume "dict_get previous u \<noteq> Some n"
      then show "u \<in> set (dict_keys (filter (\<lambda>(u, n). dict_get previous u \<noteq> Some n) current))" using mem by force
    qed
    then show ?thesis unfolding uris set_append Un_iff using Some by (simp add: dict_has_def)
  qed
  then show "re_uri ` set es = {u. dict_get previous u \<noteq> dict_get current u}" by auto
qed

lemma apply_changes:
  assumes "distinct (map re_uri es)" and "\<forall>e \<in> set es. tells old new e"
  shows "fold apply_change es m u = (if u \<in> re_uri ` set es then new u else m u)"
  using assms
proof (induction es arbitrary: m)
  case Nil
  then show ?case by simp
next
  case (Cons e es)
  define m1 where "m1 = apply_change e m"
  have m1: "m1 v = (if v = re_uri e then new v else m v)" for v
    using Cons.prems(2) by (auto simp: m1_def apply_change_def tells_def split: option.splits)
  have "fold apply_change es m1 u = (if u \<in> re_uri ` set es then new u else m1 u)"
    using Cons.IH Cons.prems by simp
  then show ?case by (simp add: m1_def [symmetric]) (simp add: m1)
qed

section \<open>Properties\<close>

text \<open>C18: 
  A poll of a watched location whose directories do not contain themselves ends. The new snapshot holds
  exactly the files below the root, with their sizes; exactly one event is reported for every file
  that was added, removed or changed in size, and none for the others; and the events lead from the
  old snapshot to the new one.
\<close>

theorem poll_reports_difference:
  assumes "walkable sv depth" and "dict_get (pb_configs (fst s)) wid = Some c" and "dict_get (pb_callbacks (fst s)) wid = Some cb"
    and "dict_get (pb_snapshots (fst s)) wid = Some previous" and "dict_wf previous" and "call cb = recorder"
  shows "\<exists>s' es current. poll call sv now wid s = Some (Inr (), s') \<and> snd s' = snd s @ es \<and>
    dict_get (pb_snapshots (fst s')) wid = Some current \<and> dict_wf current \<and>
    (\<forall>u. dict_get current u = (if file_under sv (wc_recursive c) (wc_root_uri c) u then file_size sv u else None)) \<and>
    distinct (map re_uri es) \<and> re_uri ` set es = {u. dict_get previous u \<noteq> dict_get current u} \<and>
    (\<forall>e \<in> set es. re_watch_id e = wid \<and> tells (dict_get previous) (dict_get current) e) \<and>
    fold apply_change es (dict_get previous) = dict_get current"
proof -
  obtain current where cur: "snapshot sv c = Some (Inr current)" "dict_wf current"
    "\<forall>u. dict_get current u = (if file_under sv (wc_recursive c) (wc_root_uri c) u then file_size sv u else None)"
    using snapshot_spec [OF assms(1)] by blast
  let ?es = "changes_between wid now previous current"
  note es = changes_between_spec [OF assms(5) cur(2), of wid now]
  have "fold apply_change ?es (dict_get previous) = dict_get current"
  proof
    fix u
    have "\<forall>e \<in> set ?es. tells (dict_get previous) (dict_get current) e" using es(2) by blast
    from apply_changes [OF es(1) this, of "dict_get previous" u] show "fold apply_change ?es (dict_get previous) u = dict_get current u"
      unfolding es(3) by auto
  qed
  moreover have "poll call sv now wid s = Some (Inr (), ((fst s)\<lparr>pb_snapshots := dict_set wid current (pb_snapshots (fst s))\<rparr>, snd s @ ?es))"
    using assms(2-4,6) cur(1) by (simp add: poll_def py_bind_split report_changes_recorded)
  ultimately show ?thesis using es cur(2,3)
    by (intro exI [of _ "((fst s)\<lparr>pb_snapshots := dict_set wid current (pb_snapshots (fst s))\<rparr>, snd s @ ?es)"] exI [of _ ?es] exI [of _ current])
      simp
qed

text \<open>
  A listing of the root that fails is taken for an empty location: every file known so far is reported
  deleted, whatever there is, and the snapshot is emptied.
\<close>

theorem poll_failed_listing_deletes:
  assumes "dict_get (pb_configs (fst s)) wid = Some c" and "dict_get (pb_callbacks (fst s)) wid = Some cb"
    and "dict_get (pb_snapshots (fst s)) wid = Some previous" and "call cb = recorder" and "sv_list sv (wc_root_uri c) = Inl e"
  shows "\<exists>s'. poll call sv now wid s = Some (Inr (), s') \<and> dict_get (pb_snapshots (fst s')) wid = Some [] \<and>
    snd s' = snd s @ map (\<lambda>u. polled_event wid now u FILE_DELETED 0) (dict_keys previous)"
proof -
  have "snapshot sv c = Some (Inr [])" using assms(5) by (simp add: snapshot_def snapshot_loop.simps [of sv])
  then show ?thesis using assms(1-4)
    by (simp add: poll_def py_bind_split report_changes_recorded changes_between_def dict_has_def)
qed

section \<open>Witnesses\<close>

text \<open>A storage of two directories, in which \<open>a\<close> grew, \<open>b\<close> is new and \<open>old\<close> is gone.\<close>

definition sample_view :: storage_view where
  "sample_view = \<lparr>sv_list = (\<lambda>d. if d = ''in'' then Inr [''sub'', ''a''] else if d = ''in/sub'' then Inr [''b''] else Inl (Exn KeyError d)),
     sv_stat = (\<lambda>u. Inr (u = ''in/sub'', 5))\<rparr>"

definition sample_polling :: "bool \<Rightarrow> unit polling_backend \<times> raw_event list" where
  "sample_polling recursive = (\<lparr>pb_callbacks = [(''w'', ())], pb_configs = [(''w'', \<lparr>wc_watch_id = ''w'', wc_workspace_id = ''ws'', wc_root_uri = ''in'',
     wc_patterns = {}, wc_recursive = recursive, wc_debounce_seconds = 0, wc_enabled = True\<rparr>)], pb_snapshots = [(''w'', [(''in/a'', 3), (''in/old'', 1)])]\<rparr>, [])"

lemma sample_walkable: "walkable sample_view (\<lambda>d. if d = ''in'' then 1 else 0)"
  by (auto simp: walkable_def sample_view_def is_dir_def child_of_def child_uri_def rstrip_slash_def split: if_splits)

lemma poll_reports_difference_witness:
  "\<exists>s' es. poll (\<lambda>_. recorder) sample_view 0 ''w'' (sample_polling True) = Some (Inr (), s') \<and> snd s' = es \<and>
     distinct (map re_uri es) \<and> ''in/a'' \<in> re_uri ` set es"
proof -
  let ?s = "sample_polling True"
  have s: "dict_get (pb_configs (fst ?s)) ''w'' = Some (the (dict_get (pb_configs (fst ?s)) ''w''))" "dict_get (pb_callbacks (fst ?s)) ''w'' = Some ()"
    "dict_get (pb_snapshots (fst ?s)) ''w'' = Some [(''in/a'', 3), (''in/old'', 1)]" "snd ?s = []" "dict_wf [(''in/a'', 3::int), (''in/old'', 1)]"
    by (simp_all add: sample_polling_def dict_wf_def)
  from poll_reports_difference [where call = "\<lambda>_. recorder", OF sample_walkable s(1,2,3,5) refl, of 0]
  obtain s' es current where r: "poll (\<lambda>_. recorder) sample_view 0 ''w'' ?s = Some (Inr (), s')" "snd s' = snd ?s @ es"
    "\<forall>u. dict_get current u = (if file_under sample_view (wc_recursive (the (dict_get (pb_configs (fst ?s)) ''w''))) (wc_root_uri (the (dict_get (pb_configs (fst ?s)) ''w''))) u
       then file_size sample_view u else None)"
    "distinct (map re_uri es)" "re_uri ` set es = {u. dict_get [(''in/a'', 3), (''in/old'', 1)] u \<noteq> dict_get current u}"
    by blast
  have "dict_get current ''in/a'' \<noteq> Some 3" using r(3) by (auto simp: file_size_def sample_view_def)
  then have "''in/a'' \<in> re_uri ` set es" unfolding r(5) by simp
  then show ?thesis using r(1,2,4) s(4) by auto
qed

lemma poll_failed_listing_deletes_witness:
  "\<exists>s'. poll (\<lambda>_. recorder) \<lparr>sv_list = (\<lambda>d. Inl (Exn KeyError d)), sv_stat = (\<lambda>u. Inr (False, 5))\<rparr> 0 ''w'' (sample_polling True) = Some (Inr (), s') \<and>
     map re_uri (snd s') = [''in/a'', ''in/old'']"
proof -
  let ?s = "sample_polling True" and ?sv = "\<lparr>sv_list = (\<lambda>d. Inl (Exn KeyError d)), sv_stat = (\<lambda>u. Inr (False, 5))\<rparr> :: storage_view"
  have s: "dict_get (pb_configs (fst ?s)) ''w'' = Some (the (dict_get (pb_configs (fst ?s)) ''w''))" "dict_get (pb_callbacks (fst ?s)) ''w'' = Some ()"
    "dict_get (pb_snapshots (fst ?s)) ''w'' = Some [(''in/a'', 3), (''in/old'', 1)]" "snd ?s = []"
    by (simp_all add: sample_polling_def)
  have "sv_list ?sv (wc_root_uri (the (dict_get (pb_configs (fst ?s)) ''w''))) = Inl (Exn KeyError (wc_root_uri (the (dict_get (pb_configs (fst ?s)) ''w''))))" by simp
  from poll_failed_listing_deletes [where call = "\<lambda>_. recorder", OF s(1,2,3) refl this, of 0] s(4) show ?thesis
    by (auto simp: polled_event_def)
qed

end
