(* ===== verification/Workspace_Aggregate.thy ===== *)
theory Workspace_Aggregate
  imports State_Machine Py_Text
begin

text \<open>
  \<open>workspace/workspace.py\<close>, \<open>workspace_state.py\<close>, \<open>workspace_manifest.py\<close>, \<open>workspace_metadata.py\<close>: the workspace
  aggregate with its states, the manifest and its validation, the metadata. The error of a refused
  transition is built from one text where a tuple of texts is expected, so its characters are joined one by one.
\<close>

section \<open>States\<close>

datatype workspace_status =
  WS_CREATED | WS_OPEN | WS_ACTIVE | WS_READ_ONLY | WS_LOCKED | WS_CLOSED | WS_ARCHIVED | WS_CORRUPTED

fun workspace_status_value :: "workspace_status \<Rightarrow> string" where
  "workspace_status_value WS_CREATED = ''created''"
| "workspace_status_value WS_OPEN = ''open''"
| "workspace_status_value WS_ACTIVE = ''active''"
| "workspace_status_value WS_READ_ONLY = ''read_only''"
| "workspace_status_value WS_LOCKED = ''locked''"
| "workspace_status_value WS_CLOSED = ''closed''"
| "workspace_status_value WS_ARCHIVED = ''archived''"
| "workspace_status_value WS_CORRUPTED = ''corrupted''"

fun workspace_transitions :: "workspace_status \<Rightarrow> workspace_status set" where
  "workspace_transitions WS_CREATED = {WS_OPEN}"
| "workspace_transitions WS_OPEN = {WS_ACTIVE, WS_READ_ONLY, WS_CLOSED}"
| "workspace_transitions WS_ACTIVE = {WS_READ_ONLY, WS_LOCKED, WS_CLOSED}"
| "workspace_transitions WS_READ_ONLY = {WS_ACTIVE, WS_CLOSED}"
| "workspace_transitions WS_LOCKED = {WS_ACTIVE}"
| "workspace_transitions WS_CLOSED = {WS_ARCHIVED, WS_OPEN}"
| "workspace_transitions WS_ARCHIVED = {WS_OPEN}"
| "workspace_transitions WS_CORRUPTED = {}"

definition can_transition_workspace :: "workspace_status \<Rightarrow> workspace_status \<Rightarrow> bool" where
  "can_transition_workspace source target = (target \<in> workspace_transitions source)"

section \<open>Manifest and metadata\<close>

record workspace_manifest =
  wm_version :: string
  wm_workspace_id :: string
  wm_name :: string
  wm_description :: string
  wm_created_at :: int
  wm_language :: string
  wm_default_plugins :: "string list"
  wm_enabled_features :: "string list"
  wm_storage_version :: string

record workspace_manifest_result =
  wm_is_valid :: bool
  wm_errors :: "string list"
  wm_warnings :: "string list"

definition SUPPORTED_WORKSPACE_VERSIONS :: "string set" where
  "SUPPORTED_WORKSPACE_VERSIONS = {''1.0.0''}"

definition workspace_manifest_validate :: "workspace_manifest \<Rightarrow> workspace_manifest_result" where
  "workspace_manifest_validate m =
     (let errors =
        (if wm_workspace_id m = [] then [''workspace_id is required''] else []) @
        (if wm_name m = [] then [''name is required''] else []) @
        (if wm_version m \<notin> SUPPORTED_WORKSPACE_VERSIONS then
           [''unsupported manifest version '' @ quoted (wm_version m) @ '' (supported: ['' @ repr_str ''1.0.0'' @ ''])''] else []);
      warnings = (if wm_language m = [] then [''language is empty; default may be assumed''] else [])
      in \<lparr>wm_is_valid = (length errors = 0), wm_errors = errors, wm_warnings = warnings\<rparr>)"

record workspace_metadata =
  wd_workspace_id :: string
  wd_name :: string
  wd_description :: string
  wd_created_at :: int
  wd_updated_at :: int
  wd_version :: string
  wd_owner_id :: string
  wd_tags :: "string list"
  wd_language :: string
  wd_jurisdiction :: string
  wd_status :: string

section \<open>The aggregate\<close>

definition WORKSPACE_DIRECTORIES :: "string list" where
  "WORKSPACE_DIRECTORIES = [''metadata'', ''original'', ''processed'', ''extracted'', ''cache'', ''indexes'', ''graph'', ''reports'',
     ''exports'', ''logs'', ''plugins'', ''temp'']"

record workspace_agg =
  wa_id :: string
  wa_name :: string
  wa_description :: string
  wa_owner_id :: string
  wa_status :: workspace_status
  wa_metadata :: "workspace_metadata option"
  wa_manifest :: "workspace_manifest option"
  wa_version :: string
  wa_tags :: "string list"
  wa_language :: string
  wa_jurisdiction :: string
  wa_document_count :: int
  wa_case_count :: int

definition agg_post_init :: "workspace_agg \<Rightarrow> exn + workspace_agg" where
  "agg_post_init w =
     (if wa_name w = [] \<or> str_strip (wa_name w) = [] then Inl (invariant_violated ''Workspace name must not be empty'')
      else if wa_id w = [] then Inr (w\<lparr>wa_id := ''placeholder''\<rparr>) else Inr w)"

text \<open>\<open>WorkspaceId(value=...)\<close>, the property \<open>workspace_id\<close>.\<close>

definition workspace_identifier :: "workspace_agg \<Rightarrow> exn + string" where
  "workspace_identifier w =
     (if wa_id w = [] \<or> str_strip (wa_id w) = [] then Inl (invariant_violated ''Identifier value must not be empty'')
      else Inr (wa_id w))"

definition transition_error :: "string \<Rightarrow> workspace_status \<Rightarrow> workspace_status \<Rightarrow> exn" where
  "transition_error wid source target =
     (let details = ''cannot transition from '' @ quoted (workspace_status_value source) @ '' to '' @ quoted (workspace_status_value target) in
      Exn WorkspaceValidationError (''Workspace '' @ quoted wid @ '' validation failed: '' @ str_join ''; '' (map (\<lambda>c. [c]) details)))"

definition agg_transition :: "workspace_status \<Rightarrow> (workspace_agg, unit) py" where
  "agg_transition target =
     (\<lambda>w. if \<not> can_transition_workspace (wa_status w) target then (Inl (transition_error (wa_id w) (wa_status w) target), w)
          else (Inr (), w\<lparr>wa_status := target\<rparr>))"

definition agg_open :: "(workspace_agg, unit) py" where
  "agg_open = agg_transition WS_OPEN"

definition agg_activate :: "(workspace_agg, unit) py" where
  "agg_activate = agg_transition WS_ACTIVE"

definition agg_set_read_only :: "(workspace_agg, unit) py" where
  "agg_set_read_only = agg_transition WS_READ_ONLY"

definition agg_lock :: "(workspace_agg, unit) py" where
  "agg_lock = agg_transition WS_LOCKED"

definition agg_unlock :: "(workspace_agg, unit) py" where
  "agg_unlock = agg_transition WS_ACTIVE"

definition agg_close :: "(workspace_agg, unit) py" where
  "agg_close = agg_transition WS_CLOSED"

definition agg_archive :: "(workspace_agg, unit) py" where
  "agg_archive = agg_transition WS_ARCHIVED"

definition agg_mark_corrupted :: "(workspace_agg, unit) py" where
  "agg_mark_corrupted = py_modify (\<lambda>w. w\<lparr>wa_status := WS_CORRUPTED\<rparr>)"

definition agg_reopen :: "(workspace_agg, unit) py" where
  "agg_reopen = py_bind (py_read wa_status) (\<lambda>s.
     if s = WS_CLOSED \<or> s = WS_ARCHIVED then py_modify (\<lambda>w. w\<lparr>wa_status := WS_OPEN\<rparr>) else agg_transition WS_OPEN)"

definition agg_validate_manifest :: "workspace_agg \<Rightarrow> workspace_manifest option \<Rightarrow> workspace_manifest_result" where
  "agg_validate_manifest w manifest =
     (case (case manifest of None \<Rightarrow> wa_manifest w | Some m \<Rightarrow> Some m) of
        None \<Rightarrow> \<lparr>wm_is_valid = False, wm_errors = [''no manifest provided''], wm_warnings = []\<rparr>
      | Some m \<Rightarrow> workspace_manifest_validate m)"

definition validate_directories :: "string set \<Rightarrow> string list" where
  "validate_directories existing = filter (\<lambda>d. d \<notin> existing) WORKSPACE_DIRECTORIES"

definition agg_build_metadata :: "int \<Rightarrow> int \<Rightarrow> workspace_agg \<Rightarrow> workspace_metadata" where
  "agg_build_metadata created updated w =
     \<lparr>wd_workspace_id = wa_id w, wd_name = wa_name w, wd_description = wa_description w, wd_created_at = created, wd_updated_at = updated,
      wd_version = wa_version w, wd_owner_id = wa_owner_id w, wd_tags = wa_tags w, wd_language = wa_language w,
      wd_jurisdiction = wa_jurisdiction w, wd_status = workspace_status_value (wa_status w)\<rparr>"

definition agg_increment_document_count :: "(workspace_agg, unit) py" where
  "agg_increment_document_count = py_modify (\<lambda>w. w\<lparr>wa_document_count := wa_document_count w + 1\<rparr>)"

definition agg_increment_case_count :: "(workspace_agg, unit) py" where
  "agg_increment_case_count = py_modify (\<lambda>w. w\<lparr>wa_case_count := wa_case_count w + 1\<rparr>)"

section \<open>Transitions\<close>

lemma agg_transition_cases:
  "can_transition_workspace (wa_status w) t \<Longrightarrow> agg_transition t w = (Inr (), w\<lparr>wa_status := t\<rparr>)"
  "\<not> can_transition_workspace (wa_status w) t \<Longrightarrow> agg_transition t w = (Inl (transition_error (wa_id w) (wa_status w) t), w)"
  by (simp_all add: agg_transition_def)

interpretation workspace_states: transition_system can_transition_workspace wa_status agg_transition
  by unfold_locales (simp_all add: agg_transition_cases)

text \<open>What a client can call on a workspace.\<close>

datatype agg_request = Agg_move workspace_status | Agg_corrupt | Agg_reopen | Agg_document | Agg_case

fun agg_step :: "agg_request \<Rightarrow> workspace_agg \<Rightarrow> workspace_agg" where
  "agg_step (Agg_move t) w = snd (agg_transition t w)"
| "agg_step Agg_corrupt w = snd (agg_mark_corrupted w)"
| "agg_step Agg_reopen w = snd (agg_reopen w)"
| "agg_step Agg_document w = snd (agg_increment_document_count w)"
| "agg_step Agg_case w = snd (agg_increment_case_count w)"

lemma reopen_is_open: "agg_reopen w = agg_transition WS_OPEN w"
  by (cases "wa_status w") (auto simp: agg_reopen_def py_bind_split agg_transition_def can_transition_workspace_def)

lemma corrupted_stays: "wa_status w = WS_CORRUPTED \<Longrightarrow> wa_status (fold agg_step rs w) = WS_CORRUPTED"
proof (induction rs arbitrary: w)
  case Nil
  then show ?case by simp
next
  case (Cons r rs)
  have "wa_status (agg_step r w) = WS_CORRUPTED"
    using Cons.prems by (cases r) (simp_all add: reopen_is_open agg_transition_def can_transition_workspace_def agg_mark_corrupted_def
      agg_increment_document_count_def agg_increment_case_count_def)
  then show ?case using Cons.IH by simp
qed

section \<open>Properties\<close>

text \<open>
  A sequence of requested transitions goes through exactly if it is a path of the table. A corrupted
  workspace stays corrupted whatever is requested of it; a locked one can only be made active
  again; \<open>reopen\<close> does exactly what \<open>open\<close> does.
\<close>

theorem workspace_transitions_path:
  "(fst (py_for ts agg_transition w) = Inr () \<longleftrightarrow> path_ok can_transition_workspace (wa_status w) ts) \<and>
   wa_status (fold agg_step rs (snd (agg_mark_corrupted w))) = WS_CORRUPTED \<and>
   {t. can_transition_workspace WS_LOCKED t} = {WS_ACTIVE} \<and>
   agg_reopen = agg_open"
proof -
  have "agg_reopen = agg_open" by (simp add: fun_eq_iff reopen_is_open agg_open_def)
  moreover have "wa_status (fold agg_step rs (snd (agg_mark_corrupted w))) = WS_CORRUPTED"
    by (rule corrupted_stays) (simp add: agg_mark_corrupted_def)
  ultimately show ?thesis using workspace_states.moves_path [of ts w] by (simp add: can_transition_workspace_def)
qed

text \<open>The manifest of a workspace is valid exactly if it names the workspace and its id and has a supported version.\<close>

theorem workspace_manifest_iff:
  "wm_is_valid (workspace_manifest_validate m) \<longleftrightarrow>
    wm_workspace_id m \<noteq> [] \<and> wm_name m \<noteq> [] \<and> wm_version m = ''1.0.0''"
  by (simp add: workspace_manifest_validate_def Let_def SUPPORTED_WORKSPACE_VERSIONS_def)

end
