(* ===== verification/Sql_Table.thy ===== *)
theory Sql_Table
  imports Prelude
begin

text \<open>
  What the SQLAlchemy repositories have in common: one table with a string key, read and written through
  sessions that commit on exit and roll back on an exception. SQLAlchemy and SQLite are not part of
  the program: \<open>table_session\<close> is the record of the session operations the repositories use, each with
  its \<open>session_scope\<close>, and the locale \<open>sql_table\<close> states their documented behaviour; without an
  \<open>ORDER BY\<close> a query may return its rows in any order, another one each time. The locale \<open>entity_table\<close>
  adds the conversion between rows and entities, and has the lemmas about the operations. At the end, a table as a
  list of rows on which the hypotheses hold.
\<close>

section \<open>Pages\<close>

text \<open>\<open>domain/repositories/pagination.py\<close>, the part the repositories use.\<close>

record page_request =
  pq_page :: int
  pq_page_size :: int

definition page_request_init :: "page_request \<Rightarrow> exn + page_request" where
  "page_request_init q =
     (if pq_page q < 1 then Inl (Exn ValueError ''Page must be >= 1'')
      else if pq_page_size q < 1 \<or> 100 < pq_page_size q then Inl (Exn ValueError ''PageSize must be between 1 and 100'')
      else Inr q)"

definition page_offset :: "page_request \<Rightarrow> int" where
  "page_offset q = (pq_page q - 1) * pq_page_size q"

definition page_limit :: "page_request \<Rightarrow> int" where
  "page_limit q = pq_page_size q"

record 'e page_result =
  pr_items :: "'e list"
  pr_total_count :: int
  pr_page :: int
  pr_page_size :: int

definition total_pages :: "'e page_result \<Rightarrow> int" where
  "total_pages r = (if pr_page_size r = 0 then 0 else (pr_total_count r + pr_page_size r - 1) div pr_page_size r)"

definition has_next :: "'e page_result \<Rightarrow> bool" where
  "has_next r = (pr_page r < total_pages r)"

definition has_previous :: "'e page_result \<Rightarrow> bool" where
  "has_previous r = (1 < pr_page r)"

definition page_is_empty :: "'e page_result \<Rightarrow> bool" where
  "page_is_empty r = (pr_items r = [])"

section \<open>Sessions and what the repositories do with them\<close>

record ('db, 'row) table_session =
  ts_get :: "string \<Rightarrow> ('db, 'row option) py"
  ts_add :: "'row \<Rightarrow> ('db, unit) py"
  ts_flush :: "'row \<Rightarrow> ('db, unit) py"
  ts_delete :: "string \<Rightarrow> ('db, unit) py"
  ts_all :: "('row \<Rightarrow> bool) \<Rightarrow> ('db, 'row list) py"
  ts_first :: "('row \<Rightarrow> bool) \<Rightarrow> ('row \<Rightarrow> int) option \<Rightarrow> ('db, 'row option) py"
  ts_page :: "('row \<Rightarrow> bool) \<Rightarrow> int \<Rightarrow> int \<Rightarrow> ('db, 'row list) py"
  ts_count :: "('row \<Rightarrow> bool) \<Rightarrow> ('db, int option) py"

definition entity_missing :: "string \<Rightarrow> string \<Rightarrow> exn" where
  "entity_missing kind i = Exn EntityNotFoundError (kind @ '' '' @ quoted i @ '' not found'')"

definition table_create :: "('db, 'row) table_session \<Rightarrow> ('e \<Rightarrow> 'row) \<Rightarrow> 'e \<Rightarrow> ('db, 'e) py" where
  "table_create S row_of e = py_bind (ts_add S (row_of e)) (\<lambda>_. py_return e)"

text \<open>Read a row and write it back changed; a missing row raises.\<close>

definition table_modify :: "('db, 'row) table_session \<Rightarrow> string \<Rightarrow> string \<Rightarrow> ('row \<Rightarrow> 'row) \<Rightarrow> ('db, unit) py" where
  "table_modify S kind i change =
     py_bind (ts_get S i) (\<lambda>found.
     case found of None \<Rightarrow> py_lift (Inl (entity_missing kind i)) | Some row \<Rightarrow> ts_flush S (change row))"

definition table_delete :: "('db, 'row) table_session \<Rightarrow> string \<Rightarrow> string \<Rightarrow> ('db, unit) py" where
  "table_delete S kind i =
     py_bind (ts_get S i) (\<lambda>found.
     case found of None \<Rightarrow> py_lift (Inl (entity_missing kind i)) | Some row \<Rightarrow> ts_delete S i)"

text \<open>A row becomes an entity, if it is one that the query keeps.\<close>

definition table_get :: "('db, 'row) table_session \<Rightarrow> ('row \<Rightarrow> exn + 'e) \<Rightarrow> ('row \<Rightarrow> bool) \<Rightarrow> string \<Rightarrow> ('db, 'e option) py" where
  "table_get S to_domain keep i =
     py_bind (ts_get S i) (\<lambda>found.
     case found of
       None \<Rightarrow> py_return None
     | Some row \<Rightarrow> if keep row then py_bind (py_lift (to_domain row)) (\<lambda>e. py_return (Some e)) else py_return None)"

fun all_to_domain :: "('row \<Rightarrow> exn + 'e) \<Rightarrow> 'row list \<Rightarrow> exn + 'e list" where
  "all_to_domain to_domain [] = Inr []"
| "all_to_domain to_domain (r # rs) =
     (case to_domain r of Inl e \<Rightarrow> Inl e
      | Inr x \<Rightarrow> (case all_to_domain to_domain rs of Inl e \<Rightarrow> Inl e | Inr xs \<Rightarrow> Inr (x # xs)))"

definition table_list :: "('db, 'row) table_session \<Rightarrow> ('row \<Rightarrow> exn + 'e) \<Rightarrow> ('row \<Rightarrow> bool) \<Rightarrow> ('db, 'e list) py" where
  "table_list S to_domain P = py_bind (ts_all S P) (\<lambda>rows. py_lift (all_to_domain to_domain rows))"

definition table_first :: "('db, 'row) table_session \<Rightarrow> ('row \<Rightarrow> exn + 'e) \<Rightarrow> ('row \<Rightarrow> bool) \<Rightarrow> ('row \<Rightarrow> int) option \<Rightarrow> ('db, 'e option) py" where
  "table_first S to_domain P order =
     py_bind (ts_first S P order) (\<lambda>found.
     case found of None \<Rightarrow> py_return None | Some row \<Rightarrow> py_bind (py_lift (to_domain row)) (\<lambda>e. py_return (Some e)))"

definition table_count :: "('db, 'row) table_session \<Rightarrow> ('row \<Rightarrow> bool) \<Rightarrow> ('db, int) py" where
  "table_count S P = py_bind (ts_count S P) (\<lambda>n. py_return (case n of None \<Rightarrow> 0 | Some k \<Rightarrow> k))"

definition table_page ::
    "('db, 'row) table_session \<Rightarrow> ('row \<Rightarrow> exn + 'e) \<Rightarrow> ('row \<Rightarrow> bool) \<Rightarrow> page_request \<Rightarrow> ('db, 'e page_result) py" where
  "table_page S to_domain P q =
     py_bind (table_count S P) (\<lambda>total.
     py_bind (ts_page S P (page_offset q) (page_limit q)) (\<lambda>rows.
     py_bind (py_lift (all_to_domain to_domain rows)) (\<lambda>items.
     py_return \<lparr>pr_items = items, pr_total_count = total, pr_page = pq_page q, pr_page_size = pq_page_size q\<rparr>)))"

definition table_exists :: "('db, 'row) table_session \<Rightarrow> ('row \<Rightarrow> bool) \<Rightarrow> string \<Rightarrow> ('db, bool) py" where
  "table_exists S keep i =
     py_bind (ts_get S i) (\<lambda>found. py_return (case found of None \<Rightarrow> False | Some row \<Rightarrow> keep row))"

section \<open>The documented behaviour of a table\<close>

definition matching :: "('row \<Rightarrow> string) \<Rightarrow> (string \<Rightarrow> 'row option) \<Rightarrow> ('row \<Rightarrow> bool) \<Rightarrow> 'row set" where
  "matching key m P = {r. m (key r) = Some r \<and> P r}"

text \<open>Writing the row would violate the uniqueness of another column.\<close>

definition clashes :: "('row \<Rightarrow> string) \<Rightarrow> ('row \<Rightarrow> 'row \<Rightarrow> bool) \<Rightarrow> (string \<Rightarrow> 'row option) \<Rightarrow> 'row \<Rightarrow> bool" where
  "clashes key clash m r = (\<exists>i r'. m i = Some r' \<and> i \<noteq> key r \<and> clash r r')"

locale sql_table =
  fixes S :: "('db, 'row) table_session"
    and key :: "'row \<Rightarrow> string"
    and clash :: "'row \<Rightarrow> 'row \<Rightarrow> bool"
    and rows :: "'db \<Rightarrow> string \<Rightarrow> 'row option"
  assumes row_key: "rows db i = Some r \<Longrightarrow> key r = i"
    and rows_finite: "finite (dom (rows db))"
    and session_get: "ts_get S i db = (Inr (rows db i), db)"
    and session_add: "rows db (key r) = None \<Longrightarrow> \<not> clashes key clash (rows db) r \<Longrightarrow>
      \<exists>db'. ts_add S r db = (Inr (), db') \<and> rows db' = (rows db)(key r := Some r)"
    and session_add_refused: "rows db (key r) \<noteq> None \<or> clashes key clash (rows db) r \<Longrightarrow>
      \<exists>msg. ts_add S r db = (Inl (Exn IntegrityError msg), db)"
    and session_flush: "rows db (key r) \<noteq> None \<Longrightarrow> \<not> clashes key clash (rows db) r \<Longrightarrow>
      \<exists>db'. ts_flush S r db = (Inr (), db') \<and> rows db' = (rows db)(key r := Some r)"
    and session_flush_refused: "rows db (key r) \<noteq> None \<Longrightarrow> clashes key clash (rows db) r \<Longrightarrow>
      \<exists>msg. ts_flush S r db = (Inl (Exn IntegrityError msg), db)"
    and session_delete: "rows db i = Some r \<Longrightarrow>
      \<exists>db'. ts_delete S i db = (Inr (), db') \<and> rows db' = (rows db)(i := None)"
    and session_all: "\<exists>rs. ts_all S P db = (Inr rs, db) \<and> distinct rs \<and> set rs = matching key (rows db) P"
    and session_first: "\<exists>r. ts_first S P order db = (Inr r, db) \<and>
      (case r of None \<Rightarrow> matching key (rows db) P = {}
       | Some r \<Rightarrow> r \<in> matching key (rows db) P \<and> (\<forall>f. order = Some f \<longrightarrow> (\<forall>x \<in> matching key (rows db) P. f x \<le> f r)))"
    and session_page: "0 \<le> off \<Longrightarrow> 0 \<le> lim \<Longrightarrow>
      \<exists>rs. ts_page S P off lim db = (Inr (take (nat lim) (drop (nat off) rs)), db) \<and> distinct rs \<and> set rs = matching key (rows db) P"
    and session_count: "ts_count S P db = (Inr (Some (int (card (matching key (rows db) P)))), db)"

locale entity_table = sql_table S key clash rows
  for S :: "('db, 'row) table_session" and key clash rows +
  fixes row_of :: "'e \<Rightarrow> 'row"
    and to_domain :: "'row \<Rightarrow> exn + 'e"
    and valid :: "'e \<Rightarrow> bool"
    and ident :: "'e \<Rightarrow> string"
  assumes reads_back: "valid e \<Longrightarrow> to_domain (row_of e) = Inr e"
    and row_ident: "key (row_of e) = ident e"
begin

definition table_ok :: "'db \<Rightarrow> bool" where
  "table_ok db = (\<forall>i r. rows db i = Some r \<longrightarrow> (\<exists>e. valid e \<and> r = row_of e))"

definition entities :: "'db \<Rightarrow> string \<Rightarrow> 'e option" where
  "entities db i = (case rows db i of None \<Rightarrow> None | Some r \<Rightarrow> (case to_domain r of Inl _ \<Rightarrow> None | Inr e \<Rightarrow> Some e))"

lemma row_of_inj:
  assumes "valid x" and "valid y" and "row_of x = row_of y"
  shows "x = y"
proof -
  have "Inr x = to_domain (row_of y)" using reads_back [OF assms(1)] unfolding assms(3) by (rule sym)
  also have "\<dots> = Inr y" by (rule reads_back [OF assms(2)])
  finally show ?thesis by (rule sum.inject(2) [THEN iffD1])
qed

lemma entity_iff:
  assumes "table_ok db"
  shows "entities db i = Some e \<longleftrightarrow> rows db i = Some (row_of e) \<and> valid e"
proof (cases "rows db i")
  case None
  then show ?thesis by (simp add: entities_def)
next
  case (Some r)
  then obtain x where "valid x" "r = row_of x" using assms unfolding table_ok_def by blast
  note x = this
  have ent: "entities db i = Some x" using Some x by (simp add: entities_def reads_back)
  have "x = e" if "row_of x = row_of e" "valid e" using x(1) that(2,1) by (rule row_of_inj)
  then show ?thesis unfolding ent Some x(2) using x(1) by auto
qed

lemma entity_none:
  assumes "table_ok db"
  shows "entities db i = None \<longleftrightarrow> rows db i = None"
proof (cases "rows db i")
  case None
  then show ?thesis by (simp add: entities_def)
next
  case (Some r)
  then obtain x where "valid x" "r = row_of x" using assms unfolding table_ok_def by blast
  with Some show ?thesis by (simp add: entities_def reads_back)
qed

lemma entity_ident: "table_ok db \<Longrightarrow> entities db i = Some e \<Longrightarrow> ident e = i \<and> valid e"
  using row_key [of db i "row_of e"] by (simp add: entity_iff row_ident)

lemma entities_finite: "finite (dom (entities db))"
  by (rule finite_subset [OF _ rows_finite [of db]]) (auto simp: entities_def split: option.splits)

lemma table_ok_upd:
  assumes "table_ok db" and "valid e" and "rows db' = (rows db)(i := Some (row_of e))"
  shows "table_ok db' \<and> entities db' = (entities db)(i := Some e)"
  using assms by (auto simp: table_ok_def entities_def reads_back fun_eq_iff)

lemma matching_image:
  assumes "table_ok db"
  shows "matching key (rows db) P = row_of ` {e. entities db (ident e) = Some e \<and> P (row_of e)}"
proof
  show "matching key (rows db) P \<subseteq> row_of ` {e. entities db (ident e) = Some e \<and> P (row_of e)}"
  proof
    fix r assume "r \<in> matching key (rows db) P"
    then have r: "rows db (key r) = Some r" "P r" by (simp_all add: matching_def)
    then obtain e where "valid e" "r = row_of e" using assms unfolding table_ok_def by blast
    then show "r \<in> row_of ` {e. entities db (ident e) = Some e \<and> P (row_of e)}"
      using r by (auto simp: entity_iff [OF assms] row_ident)
  qed
  show "row_of ` {e. entities db (ident e) = Some e \<and> P (row_of e)} \<subseteq> matching key (rows db) P"
    by (auto simp: matching_def row_ident entity_iff [OF assms])
qed

lemma inj_matching: "table_ok db \<Longrightarrow> inj_on row_of {e. entities db (ident e) = Some e \<and> P e}"
  by (auto simp: inj_on_def entity_iff intro: row_of_inj)

text \<open>Rows of the table, whatever their order, are the rows of as many entities.\<close>

lemma rows_as_entities:
  assumes "table_ok db" and "distinct rs" and "set rs = matching key (rows db) P"
  shows "\<exists>es. rs = map row_of es \<and> distinct es \<and> set es = {e. entities db (ident e) = Some e \<and> P (row_of e)}"
proof -
  let ?E = "{e. entities db (ident e) = Some e \<and> P (row_of e)}"
  have img: "set rs = row_of ` ?E" using assms(3) matching_image [OF assms(1)] by simp
  have inj: "inj_on row_of ?E" using inj_matching [OF assms(1)] .
  define es where "es = map (the_inv_into ?E row_of) rs"
  have "row_of (the_inv_into ?E row_of r) = r" if "r \<in> set rs" for r
    using that img f_the_inv_into_f [OF inj] by blast
  then have "map row_of es = rs" by (simp add: es_def map_idI)
  moreover have "set es = ?E" unfolding es_def set_map img image_image
    using the_inv_into_f_f [OF inj] by (metis (mono_tags, lifting) image_cong image_ident)
  moreover have "distinct es" using calculation(1) assms(2) by (metis distinct_map)
  ultimately show ?thesis by blast
qed

lemma all_to_domain_rows: "\<forall>e \<in> set es. valid e \<Longrightarrow> all_to_domain to_domain (map row_of es) = Inr es"
  by (induction es) (simp_all add: reads_back)

lemma get_entity:
  assumes "table_ok db"
  shows "table_get S to_domain keep i db =
    (Inr (case entities db i of None \<Rightarrow> None | Some e \<Rightarrow> if keep (row_of e) then Some e else None), db)"
proof (cases "rows db i")
  case None
  then show ?thesis by (simp add: table_get_def py_bind_split session_get entities_def)
next
  case (Some r)
  then obtain x where "valid x" "r = row_of x" using assms unfolding table_ok_def by blast
  with Some show ?thesis by (simp add: table_get_def py_bind_split session_get entities_def reads_back)
qed

lemma exists_entity:
  assumes "table_ok db"
  shows "table_exists S keep i db = (Inr (case entities db i of None \<Rightarrow> False | Some e \<Rightarrow> keep (row_of e)), db)"
proof (cases "rows db i")
  case None
  then show ?thesis by (simp add: table_exists_def py_bind_split session_get entities_def)
next
  case (Some r)
  then obtain x where "valid x" "r = row_of x" using assms unfolding table_ok_def by blast
  with Some show ?thesis by (simp add: table_exists_def py_bind_split session_get entities_def reads_back)
qed

lemma create_entity:
  assumes "table_ok db" and "valid e" and "entities db (ident e) = None" and "\<not> clashes key clash (rows db) (row_of e)"
  shows "\<exists>db'. table_create S row_of e db = (Inr e, db') \<and> table_ok db' \<and> entities db' = (entities db)(ident e := Some e)"
proof -
  have "rows db (key (row_of e)) = None" using assms(1,3) by (simp add: row_ident entity_none)
  from session_add [OF this assms(4)] obtain db' where
    "ts_add S (row_of e) db = (Inr (), db')" "rows db' = (rows db)(ident e := Some (row_of e))" by (auto simp: row_ident)
  with table_ok_upd [OF assms(1,2)] show ?thesis by (auto simp: table_create_def py_bind_split)
qed

lemma create_refused:
  assumes "table_ok db" and "entities db (ident e) \<noteq> None \<or> clashes key clash (rows db) (row_of e)"
  shows "\<exists>msg. table_create S row_of e db = (Inl (Exn IntegrityError msg), db)"
proof -
  have "rows db (key (row_of e)) \<noteq> None \<or> clashes key clash (rows db) (row_of e)" using assms by (simp add: row_ident entity_none)
  from session_add_refused [OF this] show ?thesis by (auto simp: table_create_def py_bind_split)
qed

lemma modify_entity:
  assumes "table_ok db" and "entities db i = Some e" and "change (row_of e) = row_of e'" and "valid e'" and "ident e' = i"
    and "\<not> clashes key clash (rows db) (row_of e')"
  shows "\<exists>db'. table_modify S kind i change db = (Inr (), db') \<and> table_ok db' \<and> entities db' = (entities db)(i := Some e')"
proof -
  have r: "rows db i = Some (row_of e)" using assms(1,2) by (simp add: entity_iff)
  then have "rows db (key (row_of e')) \<noteq> None" by (simp add: row_ident assms(5))
  from session_flush [OF this assms(6)] obtain db' where
    "ts_flush S (row_of e') db = (Inr (), db')" "rows db' = (rows db)(i := Some (row_of e'))" by (auto simp: row_ident assms(5))
  with table_ok_upd [OF assms(1,4)] r show ?thesis by (auto simp: table_modify_def py_bind_split session_get assms(3))
qed

lemma modify_clash:
  assumes "table_ok db" and "entities db i = Some e" and "change (row_of e) = row_of e'" and "ident e' = i"
    and "clashes key clash (rows db) (row_of e')"
  shows "\<exists>msg. table_modify S kind i change db = (Inl (Exn IntegrityError msg), db)"
proof -
  have r: "rows db i = Some (row_of e)" using assms(1,2) by (simp add: entity_iff)
  then have "rows db (key (row_of e')) \<noteq> None" by (simp add: row_ident assms(4))
  from session_flush_refused [OF this assms(5)] r show ?thesis by (auto simp: table_modify_def py_bind_split session_get assms(3))
qed

lemma missing_entity:
  assumes "table_ok db" and "entities db i = None"
  shows "table_modify S kind i change db = (Inl (entity_missing kind i), db)"
    and "table_delete S kind i db = (Inl (entity_missing kind i), db)"
  using assms by (simp_all add: table_modify_def table_delete_def py_bind_split session_get entity_none)

lemma delete_entity:
  assumes "table_ok db" and "entities db i = Some e"
  shows "\<exists>db'. table_delete S kind i db = (Inr (), db') \<and> table_ok db' \<and> entities db' = (entities db)(i := None)"
proof -
  have r: "rows db i = Some (row_of e)" using assms by (simp add: entity_iff)
  from session_delete [OF r] obtain db' where "ts_delete S i db = (Inr (), db')" "rows db' = (rows db)(i := None)" by blast
  with r assms(1) show ?thesis
    by (intro exI [of _ db']) (auto simp: table_delete_def py_bind_split session_get table_ok_def entities_def fun_eq_iff)
qed

lemma list_entities:
  assumes "table_ok db"
  shows "\<exists>es. table_list S to_domain P db = (Inr es, db) \<and> distinct es \<and> set es = {e. entities db (ident e) = Some e \<and> P (row_of e)}"
proof -
  obtain rs where rs: "ts_all S P db = (Inr rs, db)" "distinct rs" "set rs = matching key (rows db) P" using session_all by blast
  from rows_as_entities [OF assms rs(2,3)] obtain es where
    es: "rs = map row_of es" "distinct es" "set es = {e. entities db (ident e) = Some e \<and> P (row_of e)}" by blast
  have "all_to_domain to_domain rs = Inr es" unfolding es(1) using es(3) by (intro all_to_domain_rows) (auto simp: entity_iff [OF assms])
  with rs(1) es show ?thesis by (simp add: table_list_def py_bind_split)
qed

lemma first_entity:
  assumes "table_ok db"
  shows "\<exists>x. table_first S to_domain P order db = (Inr x, db) \<and>
    (case x of None \<Rightarrow> \<forall>e. entities db (ident e) = Some e \<longrightarrow> \<not> P (row_of e)
     | Some e \<Rightarrow> entities db (ident e) = Some e \<and> P (row_of e) \<and>
         (\<forall>f. order = Some f \<longrightarrow> (\<forall>e'. entities db (ident e') = Some e' \<longrightarrow> P (row_of e') \<longrightarrow> f (row_of e') \<le> f (row_of e))))"
proof -
  obtain r where r: "ts_first S P order db = (Inr r, db)"
    "case r of None \<Rightarrow> matching key (rows db) P = {}
     | Some r \<Rightarrow> r \<in> matching key (rows db) P \<and> (\<forall>f. order = Some f \<longrightarrow> (\<forall>x \<in> matching key (rows db) P. f x \<le> f r))"
    using session_first by blast
  show ?thesis
  proof (cases r)
    case None
    then show ?thesis using r matching_image [OF assms, of P] by (auto simp: table_first_def py_bind_split)
  next
    case (Some x)
    then obtain e where e: "x = row_of e" "entities db (ident e) = Some e" "P (row_of e)"
      using r(2) matching_image [OF assms, of P] by auto
    then have "to_domain x = Inr e" by (simp add: entity_iff [OF assms] reads_back)
    then have "table_first S to_domain P order db = (Inr (Some e), db)" using r(1) Some by (simp add: table_first_def py_bind_split)
    moreover have "f (row_of e') \<le> f (row_of e)" if "order = Some f" "entities db (ident e') = Some e'" "P (row_of e')" for f e'
    proof -
      have "row_of e' \<in> matching key (rows db) P" using that(2,3) matching_image [OF assms, of P] by blast
      then show ?thesis using r(2) Some that(1) e(1) by auto
    qed
    ultimately show ?thesis using e(2,3) by (intro exI [of _ "Some e"]) auto
  qed
qed

lemma count_entities:
  assumes "table_ok db"
  shows "table_count S P db = (Inr (int (card {e. entities db (ident e) = Some e \<and> P (row_of e)})), db)"
  using session_count [of P db] matching_image [OF assms, of P] card_image [OF inj_matching [OF assms, of "\<lambda>e. P (row_of e)"]]
  by (simp add: table_count_def py_bind_split)

lemma page_entities:
  assumes "table_ok db" and "page_request_init q = Inr q"
  shows "\<exists>es. table_page S to_domain P q db =
      (Inr \<lparr>pr_items = take (nat (page_limit q)) (drop (nat (page_offset q)) es), pr_total_count = int (length es),
         pr_page = pq_page q, pr_page_size = pq_page_size q\<rparr>, db) \<and>
    distinct es \<and> set es = {e. entities db (ident e) = Some e \<and> P (row_of e)}"
proof -
  have q: "0 \<le> page_offset q" "0 \<le> page_limit q"
    using assms(2) by (auto simp: page_request_init_def page_offset_def page_limit_def split: if_splits)
  obtain rs where rs: "ts_page S P (page_offset q) (page_limit q) db = (Inr (take (nat (page_limit q)) (drop (nat (page_offset q)) rs)), db)"
    "distinct rs" "set rs = matching key (rows db) P" using session_page [OF q] by blast
  from rows_as_entities [OF assms(1) rs(2,3)] obtain es where
    es: "rs = map row_of es" "distinct es" "set es = {e. entities db (ident e) = Some e \<and> P (row_of e)}" by blast
  let ?page = "take (nat (page_limit q)) (drop (nat (page_offset q)) es)"
  have "set ?page \<subseteq> set es" by (meson in_set_dropD in_set_takeD subsetI)
  then have "all_to_domain to_domain (map row_of ?page) = Inr ?page"
    using es(3) by (intro all_to_domain_rows) (auto simp: entity_iff [OF assms(1)])
  moreover have "card {e. entities db (ident e) = Some e \<and> P (row_of e)} = length es" using es(2,3) distinct_card by metis
  ultimately show ?thesis using rs(1) es
    by (intro exI [of _ es]) (simp add: table_page_def py_bind_split count_entities [OF assms(1)] take_map drop_map)
qed

end

section \<open>Repositories over tables without further unique columns\<close>

text \<open>
  The specification of a repository: its state is a finite map; \<open>create\<close> needs a fresh key, \<open>update\<close> and \<open>delete\<close> a present
  one, and an entity updated is stored as \<open>merge\<close> says.
\<close>

definition repository_spec ::
    "('db \<Rightarrow> bool) \<Rightarrow> ('db \<Rightarrow> string \<Rightarrow> 'e option) \<Rightarrow> ('e \<Rightarrow> bool) \<Rightarrow> ('e \<Rightarrow> string) \<Rightarrow> ('e \<Rightarrow> 'e \<Rightarrow> 'e) \<Rightarrow> string \<Rightarrow>
     ('e \<Rightarrow> ('db, 'e) py) \<Rightarrow> ('e \<Rightarrow> ('db, 'e) py) \<Rightarrow> (string \<Rightarrow> ('db, 'e option) py) \<Rightarrow> (string \<Rightarrow> ('db, unit) py) \<Rightarrow> bool" where
  "repository_spec ok stored valid ident merge kind create update get del =
     (\<forall>db. ok db \<longrightarrow>
       (\<forall>i. get i db = (Inr (stored db i), db)) \<and>
       (\<forall>e. valid e \<longrightarrow>
         (case stored db (ident e) of
            None \<Rightarrow>
              (\<exists>db'. create e db = (Inr e, db') \<and> ok db' \<and> stored db' = (stored db)(ident e := Some e)) \<and>
              update e db = (Inl (entity_missing kind (ident e)), db)
          | Some old \<Rightarrow>
              (\<exists>msg. create e db = (Inl (Exn IntegrityError msg), db)) \<and>
              (\<exists>db'. update e db = (Inr e, db') \<and> ok db' \<and> stored db' = (stored db)(ident e := Some (merge old e))))) \<and>
       (\<forall>i. case stored db i of
            None \<Rightarrow> del i db = (Inl (entity_missing kind i), db)
          | Some e \<Rightarrow> \<exists>db'. del i db = (Inr (), db') \<and> ok db' \<and> stored db' = (stored db)(i := None)))"

locale plain_table = entity_table S key "\<lambda>_ _. False" rows row_of to_domain valid ident
  for S :: "('db, 'row) table_session" and key rows and row_of :: "'e \<Rightarrow> 'row" and to_domain valid ident +
  fixes put :: "'e \<Rightarrow> 'row \<Rightarrow> 'row" and merge :: "'e \<Rightarrow> 'e \<Rightarrow> 'e"
  assumes put_row: "ident old = ident e \<Longrightarrow> put e (row_of old) = row_of (merge old e)"
    and merge_valid: "valid e \<Longrightarrow> valid (merge old e)"
    and merge_ident: "ident (merge old e) = ident e"
begin

lemma no_clash: "\<not> clashes key (\<lambda>_ _. False) m r"
  by (simp add: clashes_def)

lemma update_entity:
  assumes "table_ok db" and "valid e" and "entities db (ident e) = Some old"
  shows "\<exists>db'. py_bind (table_modify S kind (ident e) (put e)) (\<lambda>_. py_return e) db = (Inr e, db') \<and> table_ok db' \<and>
    entities db' = (entities db)(ident e := Some (merge old e))"
proof -
  have "ident old = ident e" using entity_ident [OF assms(1,3)] by simp
  from modify_entity [where change = "put e" and kind = kind, OF assms(1,3) put_row [OF this] merge_valid [OF assms(2), of old] merge_ident [of old e] no_clash]
  show ?thesis by (auto simp: py_bind_split)
qed

lemma plain_spec:
  "repository_spec table_ok entities valid ident merge kind
    (table_create S row_of) (\<lambda>e. py_bind (table_modify S kind (ident e) (put e)) (\<lambda>_. py_return e))
    (table_get S to_domain (\<lambda>_. True)) (table_delete S kind)"
  unfolding repository_spec_def
proof (intro allI impI conjI)
  fix db i assume ok: "table_ok db"
  show "table_get S to_domain (\<lambda>_. True) i db = (Inr (entities db i), db)"
    using get_entity [OF ok, of "\<lambda>_. True" i] by (simp split: option.splits)
  show "case entities db i of None \<Rightarrow> table_delete S kind i db = (Inl (entity_missing kind i), db)
    | Some e \<Rightarrow> \<exists>db'. table_delete S kind i db = (Inr (), db') \<and> table_ok db' \<and> entities db' = (entities db)(i := None)"
    using missing_entity(2) [OF ok, of i kind] delete_entity [OF ok, of i _ kind] by (simp split: option.split)
next
  fix db e assume ok: "table_ok db" and e: "valid e"
  show "case entities db (ident e) of
      None \<Rightarrow>
        (\<exists>db'. table_create S row_of e db = (Inr e, db') \<and> table_ok db' \<and> entities db' = (entities db)(ident e := Some e)) \<and>
        py_bind (table_modify S kind (ident e) (put e)) (\<lambda>_. py_return e) db = (Inl (entity_missing kind (ident e)), db)
    | Some old \<Rightarrow>
        (\<exists>msg. table_create S row_of e db = (Inl (Exn IntegrityError msg), db)) \<and>
        (\<exists>db'. py_bind (table_modify S kind (ident e) (put e)) (\<lambda>_. py_return e) db = (Inr e, db') \<and> table_ok db' \<and>
          entities db' = (entities db)(ident e := Some (merge old e)))"
  proof (cases "entities db (ident e)")
    case None
    then show ?thesis using create_entity [OF ok e None no_clash] missing_entity(1) [OF ok None] by (simp add: py_bind_split)
  next
    case (Some old)
    then show ?thesis using create_refused [OF ok] update_entity [OF ok e Some] by simp
  qed
qed

text \<open>Selecting among all rows in the program gives the entities that the selection keeps.\<close>

lemma filtered_entities:
  assumes "table_ok db" and "\<And>e. valid e \<Longrightarrow> keep (row_of e) = wanted e"
  shows "\<exists>es. py_bind (ts_all S (\<lambda>_. True)) (\<lambda>rs. py_lift (all_to_domain to_domain (filter keep rs))) db = (Inr es, db) \<and>
    distinct es \<and> set es = {e. entities db (ident e) = Some e \<and> wanted e}"
proof -
  obtain rs where rs: "ts_all S (\<lambda>_. True) db = (Inr rs, db)" "distinct rs" "set rs = matching key (rows db) (\<lambda>_. True)"
    using session_all by blast
  from rows_as_entities [OF assms(1) rs(2,3)] obtain es where
    es: "rs = map row_of es" "distinct es" "set es = {e. entities db (ident e) = Some e \<and> True}" by blast
  have v: "valid e" if "e \<in> set es" for e using that es(3) entity_ident [OF assms(1)] by blast
  have "filter keep rs = map row_of (filter wanted es)" using v assms(2) unfolding es(1) filter_map o_def by (simp cong: filter_cong)
  moreover have "all_to_domain to_domain (map row_of (filter wanted es)) = Inr (filter wanted es)" using v by (intro all_to_domain_rows) simp
  ultimately show ?thesis using rs(1) es(2,3) by (intro exI [of _ "filter wanted es"]) (auto simp: py_bind_split)
qed

end

section \<open>A concrete table\<close>

definition list_find :: "('row \<Rightarrow> string) \<Rightarrow> 'row list \<Rightarrow> string \<Rightarrow> 'row option" where
  "list_find key db i = find (\<lambda>r. key r = i) db"

definition list_matching :: "('row \<Rightarrow> string) \<Rightarrow> ('row \<Rightarrow> bool) \<Rightarrow> 'row list \<Rightarrow> 'row list" where
  "list_matching key P db = filter P (remdups (filter (\<lambda>r. list_find key db (key r) = Some r) db))"

definition list_clash :: "('row \<Rightarrow> string) \<Rightarrow> ('row \<Rightarrow> 'row \<Rightarrow> bool) \<Rightarrow> 'row list \<Rightarrow> 'row \<Rightarrow> bool" where
  "list_clash key clash db r = (\<exists>r' \<in> set (list_matching key (\<lambda>_. True) db). key r' \<noteq> key r \<and> clash r r')"

definition list_table :: "('row \<Rightarrow> string) \<Rightarrow> ('row \<Rightarrow> 'row \<Rightarrow> bool) \<Rightarrow> ('row list, 'row) table_session" where
  "list_table key clash =
     \<lparr>ts_get = (\<lambda>i. py_read (\<lambda>db. list_find key db i)),
      ts_add = (\<lambda>r. py_bind (py_read (\<lambda>db. list_find key db (key r) \<noteq> None \<or> list_clash key clash db r)) (\<lambda>refused.
        if refused then py_raise IntegrityError ''UNIQUE constraint failed'' else py_modify (\<lambda>db. db @ [r]))),
      ts_flush = (\<lambda>r. py_bind (py_read (\<lambda>db. list_clash key clash db r)) (\<lambda>refused.
        if refused then py_raise IntegrityError ''UNIQUE constraint failed''
        else py_modify (map (\<lambda>x. if key x = key r then r else x)))),
      ts_delete = (\<lambda>i. py_modify (filter (\<lambda>x. key x \<noteq> i))),
      ts_all = (\<lambda>P. py_read (list_matching key P)),
      ts_first = (\<lambda>P order. py_read (\<lambda>db. let rs = list_matching key P db; sorted = (case order of None \<Rightarrow> rs | Some f \<Rightarrow> sort_desc f rs)
        in case sorted of [] \<Rightarrow> None | r # _ \<Rightarrow> Some r)),
      ts_page = (\<lambda>P off lim. py_read (\<lambda>db. take (nat lim) (drop (nat off) (list_matching key P db)))),
      ts_count = (\<lambda>P. py_read (\<lambda>db. Some (int (length (list_matching key P db)))))\<rparr>"

lemma list_find_key: "list_find key db i = Some r \<Longrightarrow> key r = i \<and> r \<in> set db"
  by (auto simp: list_find_def find_Some_iff in_set_conv_nth)

lemma list_find_snoc: "list_find key (db @ [r]) i = (case list_find key db i of None \<Rightarrow> if key r = i then Some r else None | Some x \<Rightarrow> Some x)"
  by (induction db) (auto simp: list_find_def)

lemma list_find_replace:
  "list_find key (map (\<lambda>x. if key x = key r then r else x) db) i =
    (if i = key r \<and> list_find key db i \<noteq> None then Some r else list_find key db i)"
  by (induction db) (auto simp: list_find_def)

lemma list_find_filter: "list_find key (filter (\<lambda>x. key x \<noteq> i) db) k = (if k = i then None else list_find key db k)"
  by (induction db) (auto simp: list_find_def)

lemma list_matching_spec: "distinct (list_matching key P db) \<and> set (list_matching key P db) = matching key (list_find key db) P"
  by (auto simp: list_matching_def matching_def dest: list_find_key)

lemma list_clash_iff: "list_clash key clash db r = clashes key clash (list_find key db) r"
proof -
  have "set (list_matching key (\<lambda>_. True) db) = matching key (list_find key db) (\<lambda>_. True)" using list_matching_spec [of key "\<lambda>_. True" db] by blast
  then show ?thesis unfolding list_clash_def clashes_def matching_def by (auto dest: list_find_key)
qed

interpretation list_table: sql_table "list_table key clash" key clash "list_find key" for key clash
proof
  fix db :: "'a list" and i r P and order :: "('a \<Rightarrow> int) option" and off lim
  show "list_find key db i = Some r \<Longrightarrow> key r = i" by (auto dest: list_find_key)
  have "dom (list_find key db) \<subseteq> key ` set db" by (auto dest!: list_find_key)
  then show "finite (dom (list_find key db))" by (rule finite_subset) simp
  show "ts_get (list_table key clash) i db = (Inr (list_find key db i), db)" by (simp add: list_table_def)
  show "list_find key db (key r) = None \<Longrightarrow> \<not> clashes key clash (list_find key db) r \<Longrightarrow>
      \<exists>db'. ts_add (list_table key clash) r db = (Inr (), db') \<and> list_find key db' = (list_find key db)(key r := Some r)"
    by (auto simp: list_table_def py_bind_split list_clash_iff list_find_snoc fun_eq_iff split: option.split)
  show "list_find key db (key r) \<noteq> None \<or> clashes key clash (list_find key db) r \<Longrightarrow>
      \<exists>msg. ts_add (list_table key clash) r db = (Inl (Exn IntegrityError msg), db)"
    by (auto simp: list_table_def py_bind_split list_clash_iff)
  show "list_find key db (key r) \<noteq> None \<Longrightarrow> \<not> clashes key clash (list_find key db) r \<Longrightarrow>
      \<exists>db'. ts_flush (list_table key clash) r db = (Inr (), db') \<and> list_find key db' = (list_find key db)(key r := Some r)"
    by (auto simp: list_table_def py_bind_split list_clash_iff list_find_replace fun_eq_iff)
  show "list_find key db (key r) \<noteq> None \<Longrightarrow> clashes key clash (list_find key db) r \<Longrightarrow>
      \<exists>msg. ts_flush (list_table key clash) r db = (Inl (Exn IntegrityError msg), db)"
    by (simp add: list_table_def py_bind_split list_clash_iff)
  show "list_find key db i = Some r \<Longrightarrow>
      \<exists>db'. ts_delete (list_table key clash) i db = (Inr (), db') \<and> list_find key db' = (list_find key db)(i := None)"
    by (simp add: list_table_def list_find_filter fun_eq_iff)
  show "\<exists>rs. ts_all (list_table key clash) P db = (Inr rs, db) \<and> distinct rs \<and> set rs = matching key (list_find key db) P"
    using list_matching_spec [of key P db] by (simp add: list_table_def)
  show "\<exists>rs. ts_page (list_table key clash) P off lim db = (Inr (take (nat lim) (drop (nat off) rs)), db) \<and> distinct rs \<and>
      set rs = matching key (list_find key db) P"
    by (intro exI [of _ "list_matching key P db"]) (simp add: list_table_def list_matching_spec)
  show "ts_count (list_table key clash) P db = (Inr (Some (int (card (matching key (list_find key db) P)))), db)"
    using list_matching_spec [of key P db] distinct_card [of "list_matching key P db"] by (simp add: list_table_def)
  define rs where "rs = list_matching key P db"
  have rs: "set rs = matching key (list_find key db) P" using list_matching_spec [of key P db] by (simp add: rs_def)
  define ordered where "ordered = (case order of None \<Rightarrow> rs | Some f \<Rightarrow> sort_desc f rs)"
  have set: "set ordered = set rs" by (simp add: ordered_def split: option.split)
  have best: "f x \<le> f (hd ordered)" if "order = Some f" "x \<in> set rs" for f x
    using that sorted_desc_hd [of f ordered x] set by (simp add: ordered_def)
  show "\<exists>r. ts_first (list_table key clash) P order db = (Inr r, db) \<and>
      (case r of None \<Rightarrow> matching key (list_find key db) P = {}
       | Some r \<Rightarrow> r \<in> matching key (list_find key db) P \<and> (\<forall>f. order = Some f \<longrightarrow> (\<forall>x \<in> matching key (list_find key db) P. f x \<le> f r)))"
  proof -
    have "ts_first (list_table key clash) P order db = (Inr (case ordered of [] \<Rightarrow> None | r # _ \<Rightarrow> Some r), db)"
      unfolding ordered_def rs_def by (simp add: list_table_def Let_def)
    then show ?thesis using set best unfolding rs [symmetric] by (cases ordered) auto
  qed
qed

section \<open>Properties\<close>

lemma pages_take: "concat (map (\<lambda>p. take n (drop (p * n) xs)) [0..<k]) = take (k * n) xs"
proof (induction k)
  case 0
  then show ?case by simp
next
  case (Suc k)
  then show ?case by (simp add: take_add [symmetric] add.commute)
qed

text \<open>
  The pages of a list, taken with the offset and the limit of their requests, from the first to the
  last page that the result counts, give the whole list; and a page has a next one exactly if entries
  follow it.
\<close>

theorem pages_cover:
  fixes items :: "'e list" and es :: "'e list"
  assumes "page_request_init \<lparr>pq_page = p, pq_page_size = n\<rparr> = Inr q"
  defines "result \<equiv> \<lparr>pr_items = items, pr_total_count = int (length es), pr_page = p, pr_page_size = n\<rparr>"
  shows "concat (map (\<lambda>k. let q = \<lparr>pq_page = int k + 1, pq_page_size = n\<rparr> in take (nat (page_limit q)) (drop (nat (page_offset q)) es))
      [0..<nat (total_pages result)]) = es \<and>
    (has_next result \<longleftrightarrow> drop (nat (page_offset q + page_limit q)) es \<noteq> [])"
proof -
  have q: "q = \<lparr>pq_page = p, pq_page_size = n\<rparr>" "1 \<le> p" "1 \<le> n"
    using assms(1) by (auto simp: page_request_init_def split: if_splits)
  define m where "m = nat n"
  have n: "n = int m" "0 < m" using q(3) by (simp_all add: m_def)
  define t where "t = (length es + m - 1) div m"
  have t: "total_pages result = int t"
    using n by (simp add: total_pages_def result_def t_def zdiv_int of_nat_diff)
  have cover: "length es \<le> t * m"
  proof -
    have "length es + m - 1 < t * m + m" using n(2) dividend_less_div_times [of m "length es + m - 1"] by (simp add: t_def add.commute)
    then show ?thesis using n(2) by simp
  qed
  have "nat (page_offset \<lparr>pq_page = int k + 1, pq_page_size = n\<rparr>) = k * m" for k
    by (simp add: page_offset_def n nat_mult_distrib)
  then have "concat (map (\<lambda>k. let q = \<lparr>pq_page = int k + 1, pq_page_size = n\<rparr> in take (nat (page_limit q)) (drop (nat (page_offset q)) es))
      [0..<nat (total_pages result)]) = es"
    using pages_take [of m es t] cover by (simp add: t page_limit_def n Let_def)
  moreover have "has_next result \<longleftrightarrow> drop (nat (page_offset q + page_limit q)) es \<noteq> []"
  proof -
    obtain k where k: "p = int k + 1" using q(2) by (metis add.commute zero_le_imp_eq_int le_add_diff_inverse diff_ge_0_iff_ge)
    have off: "nat (page_offset q + page_limit q) = (k + 1) * m"
      by (simp add: q(1) page_offset_def page_limit_def k n nat_mult_distrib nat_add_distrib algebra_simps)
    have "has_next result \<longleftrightarrow> int k + 1 < int t" using t by (simp add: has_next_def result_def k)
    also have "\<dots> \<longleftrightarrow> k + 1 < t" by linarith
    also have "\<dots> \<longleftrightarrow> (k + 1) * m < length es"
    proof
      assume "k + 1 < t"
      then have "Suc (k + 1) * m \<le> t * m" by (intro mult_le_mono1) simp
      moreover have "t * m \<le> length es + m - 1" by (simp add: t_def)
      ultimately show "(k + 1) * m < length es" using n(2) by simp
    next
      assume "(k + 1) * m < length es"
      with cover have "(k + 1) * m < t * m" by (rule less_le_trans [rotated])
      then show "k + 1 < t" unfolding mult_less_cancel2 by blast
    qed
    finally show ?thesis by (simp add: off not_le)
  qed
  ultimately show ?thesis by blast
qed

lemma pages_cover_witness:
  "concat (map (\<lambda>k. let q = \<lparr>pq_page = int k + 1, pq_page_size = 2\<rparr> in take (nat (page_limit q)) (drop (nat (page_offset q)) [7, 8, 9]))
      [0..<nat (total_pages \<lparr>pr_items = [7::nat, 8], pr_total_count = 3, pr_page = 1, pr_page_size = 2\<rparr>)]) = [7::nat, 8, 9]"
proof -
  have "page_request_init \<lparr>pq_page = 1, pq_page_size = 2\<rparr> = Inr \<lparr>pq_page = 1, pq_page_size = 2\<rparr>" by (simp add: page_request_init_def)
  from pages_cover [OF this, of "[7::nat, 8, 9]" "[7, 8]"] show ?thesis by simp
qed

end
