(* ===== verification/Workspace_Repository.thy ===== *)
theory Workspace_Repository
  imports Sql_Table Py_Text
begin

text \<open>
  The workspace entity (\<open>domain/entities/workspace.py\<close>), its table (\<open>WorkspaceRow\<close> of \<open>metadata/models.py\<close>,
  whose column \<open>name\<close> is unique), and the two repositories over it: \<open>SqliteWorkspaceRepositoryImpl\<close> of
  \<open>repositories/workspace_repository.py\<close>, which hides inactive workspaces, and
  \<open>SqliteWorkspaceRepository\<close> of \<open>metadata/repositories.py\<close>, which does not. The locale \<open>workspace_store\<close> is the contract
  the workspace services rely on; the repository fulfils it over every table.
\<close>

section \<open>The entity\<close>

record workspace =
  ws_id :: string
  ws_name :: string
  ws_description :: string
  ws_owner_id :: string
  ws_is_active :: bool
  ws_document_count :: int
  ws_case_count :: int
  ws_created_at :: int
  ws_updated_at :: int

definition workspace_post_init :: "workspace \<Rightarrow> exn + workspace" where
  "workspace_post_init w =
     (if ws_name w = [] \<or> str_strip (ws_name w) = [] then Inl (invariant_violated ''Workspace name must not be empty'')
      else Inr w)"

definition touch :: "int \<Rightarrow> workspace \<Rightarrow> workspace" where
  "touch now w = w\<lparr>ws_updated_at := now\<rparr>"

definition deactivate :: "int \<Rightarrow> workspace \<Rightarrow> workspace" where
  "deactivate now w = touch now (w\<lparr>ws_is_active := False\<rparr>)"

definition activate :: "int \<Rightarrow> workspace \<Rightarrow> workspace" where
  "activate now w = touch now (w\<lparr>ws_is_active := True\<rparr>)"

definition increment_document_count :: "int \<Rightarrow> workspace \<Rightarrow> workspace" where
  "increment_document_count now w = touch now (w\<lparr>ws_document_count := ws_document_count w + 1\<rparr>)"

definition increment_case_count :: "int \<Rightarrow> workspace \<Rightarrow> workspace" where
  "increment_case_count now w = touch now (w\<lparr>ws_case_count := ws_case_count w + 1\<rparr>)"

section \<open>Rows\<close>

record workspace_row =
  wr_id :: string
  wr_name :: string
  wr_description :: string
  wr_owner_id :: string
  wr_is_active :: bool
  wr_document_count :: int
  wr_case_count :: int
  wr_created_at :: int
  wr_updated_at :: int

definition row_of_workspace :: "workspace \<Rightarrow> workspace_row" where
  "row_of_workspace w =
     \<lparr>wr_id = ws_id w, wr_name = ws_name w, wr_description = ws_description w, wr_owner_id = ws_owner_id w,
      wr_is_active = ws_is_active w, wr_document_count = ws_document_count w, wr_case_count = ws_case_count w,
      wr_created_at = ws_created_at w, wr_updated_at = ws_updated_at w\<rparr>"

definition workspace_of_row :: "workspace_row \<Rightarrow> exn + workspace" where
  "workspace_of_row r =
     workspace_post_init \<lparr>ws_id = wr_id r, ws_name = wr_name r, ws_description = wr_description r, ws_owner_id = wr_owner_id r,
       ws_is_active = wr_is_active r, ws_document_count = wr_document_count r, ws_case_count = wr_case_count r,
       ws_created_at = wr_created_at r, ws_updated_at = wr_updated_at r\<rparr>"

definition put_workspace :: "workspace \<Rightarrow> workspace_row \<Rightarrow> workspace_row" where
  "put_workspace w r =
     r\<lparr>wr_name := ws_name w, wr_description := ws_description w, wr_owner_id := ws_owner_id w, wr_is_active := ws_is_active w,
       wr_document_count := ws_document_count w, wr_case_count := ws_case_count w, wr_updated_at := ws_updated_at w\<rparr>"

definition same_name :: "workspace_row \<Rightarrow> workspace_row \<Rightarrow> bool" where
  "same_name r r' = (wr_name r = wr_name r')"

section \<open>\<open>SqliteWorkspaceRepositoryImpl\<close>\<close>

type_synonym 'db workspace_session = "('db, workspace_row) table_session"

definition ws_create :: "'db workspace_session \<Rightarrow> workspace \<Rightarrow> ('db, workspace) py" where
  "ws_create S w = table_create S row_of_workspace w"

definition ws_update :: "'db workspace_session \<Rightarrow> workspace \<Rightarrow> ('db, workspace) py" where
  "ws_update S w = py_bind (table_modify S ''Workspace'' (ws_id w) (put_workspace w)) (\<lambda>_. py_return w)"

definition ws_get_by_id :: "'db workspace_session \<Rightarrow> string \<Rightarrow> ('db, workspace option) py" where
  "ws_get_by_id S i = table_get S workspace_of_row wr_is_active i"

definition ws_get_by_id_any :: "'db workspace_session \<Rightarrow> string \<Rightarrow> ('db, workspace option) py" where
  "ws_get_by_id_any S i = table_get S workspace_of_row (\<lambda>_. True) i"

definition ws_get_by_uuid :: "'db workspace_session \<Rightarrow> string \<Rightarrow> ('db, workspace option) py" where
  "ws_get_by_uuid = ws_get_by_id"

definition ws_get_by_name :: "'db workspace_session \<Rightarrow> string \<Rightarrow> ('db, workspace option) py" where
  "ws_get_by_name S name = table_first S workspace_of_row (\<lambda>r. wr_name r = name \<and> wr_is_active r) None"

definition ws_list_all :: "'db workspace_session \<Rightarrow> ('db, workspace list) py" where
  "ws_list_all S = table_list S workspace_of_row wr_is_active"

definition ws_list_page :: "'db workspace_session \<Rightarrow> page_request \<Rightarrow> ('db, workspace page_result) py" where
  "ws_list_page S q = table_page S workspace_of_row wr_is_active q"

definition ws_count :: "'db workspace_session \<Rightarrow> ('db, int) py" where
  "ws_count S = table_count S wr_is_active"

definition ws_delete :: "'db workspace_session \<Rightarrow> int \<Rightarrow> string \<Rightarrow> ('db, unit) py" where
  "ws_delete S now i = table_modify S ''Workspace'' i (\<lambda>r. r\<lparr>wr_is_active := False, wr_updated_at := now\<rparr>)"

definition ws_hard_delete :: "'db workspace_session \<Rightarrow> string \<Rightarrow> ('db, unit) py" where
  "ws_hard_delete S i = table_delete S ''Workspace'' i"

definition ws_exists :: "'db workspace_session \<Rightarrow> string \<Rightarrow> ('db, bool) py" where
  "ws_exists S i = table_exists S wr_is_active i"

section \<open>\<open>SqliteWorkspaceRepository\<close>\<close>

definition meta_ws_create :: "'db workspace_session \<Rightarrow> workspace \<Rightarrow> ('db, workspace) py" where
  "meta_ws_create S w = table_create S row_of_workspace w"

definition meta_ws_update :: "'db workspace_session \<Rightarrow> workspace \<Rightarrow> ('db, workspace) py" where
  "meta_ws_update S w = py_bind (table_modify S ''Workspace'' (ws_id w) (put_workspace w)) (\<lambda>_. py_return w)"

definition meta_ws_delete :: "'db workspace_session \<Rightarrow> string \<Rightarrow> ('db, unit) py" where
  "meta_ws_delete S i = table_delete S ''Workspace'' i"

definition meta_ws_get :: "'db workspace_session \<Rightarrow> string \<Rightarrow> ('db, workspace option) py" where
  "meta_ws_get S i = table_get S workspace_of_row (\<lambda>_. True) i"

definition meta_ws_list_all :: "'db workspace_session \<Rightarrow> ('db, workspace list) py" where
  "meta_ws_list_all S = table_list S workspace_of_row (\<lambda>_. True)"

text \<open>The specifications are ignored.\<close>

definition meta_ws_find :: "'db workspace_session \<Rightarrow> 'spec \<Rightarrow> ('db, workspace list) py" where
  "meta_ws_find S spec = meta_ws_list_all S"

definition meta_ws_find_one :: "'db workspace_session \<Rightarrow> 'spec \<Rightarrow> ('db, workspace option) py" where
  "meta_ws_find_one S spec = py_return None"

definition meta_ws_list_page :: "'db workspace_session \<Rightarrow> page_request \<Rightarrow> ('db, workspace page_result) py" where
  "meta_ws_list_page S q = table_page S workspace_of_row (\<lambda>_. True) q"

definition meta_ws_count :: "'db workspace_session \<Rightarrow> ('db, int) py" where
  "meta_ws_count S = table_count S (\<lambda>_. True)"

definition meta_ws_count_matching :: "'db workspace_session \<Rightarrow> 'spec \<Rightarrow> ('db, int) py" where
  "meta_ws_count_matching S spec = meta_ws_count S"

definition meta_ws_exists :: "'db workspace_session \<Rightarrow> string \<Rightarrow> ('db, bool) py" where
  "meta_ws_exists S i = table_exists S (\<lambda>_. True) i"

definition meta_ws_find_by_name :: "'db workspace_session \<Rightarrow> string \<Rightarrow> ('db, workspace option) py" where
  "meta_ws_find_by_name S name = table_first S workspace_of_row (\<lambda>r. wr_name r = name) None"

definition meta_ws_find_by_owner :: "'db workspace_session \<Rightarrow> string \<Rightarrow> ('db, workspace list) py" where
  "meta_ws_find_by_owner S owner = table_list S workspace_of_row (\<lambda>r. wr_owner_id r = owner)"

section \<open>The contract\<close>

text \<open>The \<open>WorkspaceRepository\<close> protocol.\<close>

record 'db workspace_repo =
  wo_create :: "workspace \<Rightarrow> ('db, workspace) py"
  wo_update :: "workspace \<Rightarrow> ('db, workspace) py"
  wo_get_by_id :: "string \<Rightarrow> ('db, workspace option) py"
  wo_get_by_id_any :: "string \<Rightarrow> ('db, workspace option) py"
  wo_get_by_name :: "string \<Rightarrow> ('db, workspace option) py"
  wo_list_all :: "('db, workspace list) py"
  wo_list_page :: "page_request \<Rightarrow> ('db, workspace page_result) py"
  wo_hard_delete :: "string \<Rightarrow> ('db, unit) py"
  wo_exists :: "string \<Rightarrow> ('db, bool) py"
  wo_count :: "('db, int) py"

definition sqlite_workspace_repo :: "'db workspace_session \<Rightarrow> 'db workspace_repo" where
  "sqlite_workspace_repo S =
     \<lparr>wo_create = ws_create S, wo_update = ws_update S, wo_get_by_id = ws_get_by_id S, wo_get_by_id_any = ws_get_by_id_any S,
      wo_get_by_name = ws_get_by_name S, wo_list_all = ws_list_all S, wo_list_page = ws_list_page S,
      wo_hard_delete = ws_hard_delete S, wo_exists = ws_exists S, wo_count = ws_count S\<rparr>"

definition workspace_ok :: "workspace \<Rightarrow> bool" where
  "workspace_ok w = (str_strip (ws_name w) \<noteq> [])"

text \<open>What \<open>update\<close> stores: it does not write the creation time.\<close>

definition workspace_merge :: "workspace \<Rightarrow> workspace \<Rightarrow> workspace" where
  "workspace_merge old w = w\<lparr>ws_created_at := ws_created_at old\<rparr>"

definition name_taken :: "(string \<Rightarrow> workspace option) \<Rightarrow> string \<Rightarrow> string \<Rightarrow> bool" where
  "name_taken m i name = (\<exists>j w. m j = Some w \<and> j \<noteq> i \<and> ws_name w = name)"

locale workspace_store =
  fixes R :: "'db workspace_repo"
    and spaces :: "'db \<Rightarrow> string \<Rightarrow> workspace option"
    and ok :: "'db \<Rightarrow> bool"
  assumes store_keyed: "ok db \<Longrightarrow> spaces db i = Some w \<Longrightarrow> ws_id w = i \<and> workspace_ok w"
    and store_get_any: "ok db \<Longrightarrow> wo_get_by_id_any R i db = (Inr (spaces db i), db)"
    and store_get: "ok db \<Longrightarrow> wo_get_by_id R i db =
      (Inr (case spaces db i of None \<Rightarrow> None | Some w \<Rightarrow> if ws_is_active w then Some w else None), db)"
    and store_by_name: "ok db \<Longrightarrow> \<exists>x. wo_get_by_name R n db = (Inr x, db) \<and>
      (case x of None \<Rightarrow> \<forall>i w. spaces db i = Some w \<longrightarrow> ws_is_active w \<longrightarrow> ws_name w \<noteq> n
       | Some w \<Rightarrow> spaces db (ws_id w) = Some w \<and> ws_is_active w \<and> ws_name w = n)"
    and store_create: "ok db \<Longrightarrow> workspace_ok w \<Longrightarrow> spaces db (ws_id w) = None \<Longrightarrow> \<not> name_taken (spaces db) (ws_id w) (ws_name w) \<Longrightarrow>
      \<exists>db'. wo_create R w db = (Inr w, db') \<and> ok db' \<and> spaces db' = (spaces db)(ws_id w := Some w)"
    and store_create_refused: "ok db \<Longrightarrow> spaces db (ws_id w) \<noteq> None \<or> name_taken (spaces db) (ws_id w) (ws_name w) \<Longrightarrow>
      \<exists>msg. wo_create R w db = (Inl (Exn IntegrityError msg), db)"
    and store_update: "ok db \<Longrightarrow> workspace_ok w \<Longrightarrow> spaces db (ws_id w) = Some old \<Longrightarrow> \<not> name_taken (spaces db) (ws_id w) (ws_name w) \<Longrightarrow>
      \<exists>db'. wo_update R w db = (Inr w, db') \<and> ok db' \<and> spaces db' = (spaces db)(ws_id w := Some (workspace_merge old w))"
    and store_delete: "ok db \<Longrightarrow> spaces db i = Some w \<Longrightarrow>
      \<exists>db'. wo_hard_delete R i db = (Inr (), db') \<and> ok db' \<and> spaces db' = (spaces db)(i := None)"
    and store_exists: "ok db \<Longrightarrow> wo_exists R i db = (Inr (case spaces db i of None \<Rightarrow> False | Some w \<Rightarrow> ws_is_active w), db)"
    and store_unique: "ok db \<Longrightarrow> spaces db i = Some w \<Longrightarrow> \<not> name_taken (spaces db) i (ws_name w)"

lemma workspace_of_row [simp]: "workspace_ok w \<Longrightarrow> workspace_of_row (row_of_workspace w) = Inr w"
  by (auto simp: workspace_of_row_def row_of_workspace_def workspace_post_init_def workspace_ok_def str_strip_def)

lemma row_of_workspace_simps [simp]:
  "wr_id (row_of_workspace w) = ws_id w" "wr_name (row_of_workspace w) = ws_name w" "wr_is_active (row_of_workspace w) = ws_is_active w"
  "wr_owner_id (row_of_workspace w) = ws_owner_id w"
  by (simp_all add: row_of_workspace_def)

lemma put_workspace_row:
  "ws_id old = ws_id w \<Longrightarrow> put_workspace w (row_of_workspace old) = row_of_workspace (workspace_merge old w)"
  by (simp add: put_workspace_def row_of_workspace_def workspace_merge_def)

lemma workspace_merge_simps [simp]:
  "ws_id (workspace_merge old w) = ws_id w" "ws_name (workspace_merge old w) = ws_name w"
  "ws_is_active (workspace_merge old w) = ws_is_active w" "workspace_ok (workspace_merge old w) = workspace_ok w"
  by (simp_all add: workspace_merge_def workspace_ok_def)

locale workspace_table = sql_table S wr_id same_name rows
  for S :: "'db workspace_session" and rows

sublocale workspace_table \<subseteq> wt: entity_table S wr_id same_name rows row_of_workspace workspace_of_row workspace_ok ws_id
  by unfold_locales simp_all

section \<open>The repository keeps the contract\<close>

context workspace_table
begin

definition store_ok :: "'db \<Rightarrow> bool" where
  "store_ok db = (wt.table_ok db \<and> (\<forall>i w. wt.entities db i = Some w \<longrightarrow> \<not> name_taken (wt.entities db) i (ws_name w)))"

lemma clash_iff:
  assumes "wt.table_ok db"
  shows "clashes wr_id same_name (rows db) (row_of_workspace w) \<longleftrightarrow> name_taken (wt.entities db) (ws_id w) (ws_name w)"
proof
  assume "clashes wr_id same_name (rows db) (row_of_workspace w)"
  then obtain i r where r: "rows db i = Some r" "i \<noteq> ws_id w" "wr_name r = ws_name w" by (auto simp: clashes_def same_name_def)
  then obtain v where "workspace_ok v" "r = row_of_workspace v" using assms unfolding wt.table_ok_def by blast
  then have "wt.entities db i = Some v" "ws_name v = ws_name w" using r by (simp_all add: wt.entity_iff [OF assms])
  then show "name_taken (wt.entities db) (ws_id w) (ws_name w)" using r(2) unfolding name_taken_def by blast
next
  assume "name_taken (wt.entities db) (ws_id w) (ws_name w)"
  then obtain j v where "wt.entities db j = Some v" "j \<noteq> ws_id w" "ws_name v = ws_name w" unfolding name_taken_def by blast
  then show "clashes wr_id same_name (rows db) (row_of_workspace w)"
    unfolding clashes_def by (intro exI [of _ j] exI [of _ "row_of_workspace v"]) (simp add: wt.entity_iff [OF assms] same_name_def)
qed

lemma unique_upd:
  assumes "\<forall>i w. m i = Some w \<longrightarrow> \<not> name_taken m i (ws_name w)" and "\<not> name_taken m k (ws_name v)" and "m' = m(k := Some v)"
  shows "\<forall>i w. m' i = Some w \<longrightarrow> \<not> name_taken m' i (ws_name w)"
proof (intro allI impI notI)
  fix i w assume w: "m' i = Some w" and taken: "name_taken m' i (ws_name w)"
  then obtain j u where u: "m' j = Some u" "j \<noteq> i" "ws_name u = ws_name w" unfolding name_taken_def by blast
  consider "i = k" | "j = k" | "i \<noteq> k" "j \<noteq> k" by blast
  then show False
  proof cases
    case 1
    then have "m j = Some u" "w = v" "j \<noteq> k" using w u(1,2) assms(3) by auto
    then show False using assms(2) u(3) unfolding name_taken_def by auto
  next
    case 2
    then have "m i = Some w" "u = v" "i \<noteq> k" using w u(1,2) assms(3) by auto
    then show False using assms(2) u(3) unfolding name_taken_def by auto
  next
    case 3
    then have "m i = Some w" "m j = Some u" using w u(1) assms(3) by auto
    then show False using assms(1) u(2,3) unfolding name_taken_def by blast
  qed
qed

lemma unique_remove:
  assumes "\<forall>i w. m i = Some w \<longrightarrow> \<not> name_taken m i (ws_name w)"
  shows "\<forall>i w. (m(k := None)) i = Some w \<longrightarrow> \<not> name_taken (m(k := None)) i (ws_name w)"
  using assms unfolding name_taken_def by (auto split: if_splits)

lemma create_workspace_row:
  assumes "store_ok db" and "workspace_ok w" and "wt.entities db (ws_id w) = None" and "\<not> name_taken (wt.entities db) (ws_id w) (ws_name w)"
  shows "\<exists>db'. ws_create S w db = (Inr w, db') \<and> store_ok db' \<and> wt.entities db' = (wt.entities db)(ws_id w := Some w)"
proof -
  have ok: "wt.table_ok db" using assms(1) by (simp add: store_ok_def)
  obtain db' where db': "ws_create S w db = (Inr w, db')" "wt.table_ok db'" "wt.entities db' = (wt.entities db)(ws_id w := Some w)"
    using wt.create_entity [OF ok assms(2,3)] assms(4) clash_iff [OF ok] by (auto simp: ws_create_def)
  moreover have "store_ok db'" using unique_upd [OF _ assms(4) db'(3)] assms(1) db'(2) unfolding store_ok_def by blast
  ultimately show ?thesis by blast
qed

lemma update_workspace_row:
  assumes "store_ok db" and "workspace_ok w" and "wt.entities db (ws_id w) = Some old" and "\<not> name_taken (wt.entities db) (ws_id w) (ws_name w)"
  shows "\<exists>db'. ws_update S w db = (Inr w, db') \<and> store_ok db' \<and> wt.entities db' = (wt.entities db)(ws_id w := Some (workspace_merge old w))"
proof -
  have ok: "wt.table_ok db" using assms(1) by (simp add: store_ok_def)
  have old: "ws_id old = ws_id w" using wt.entity_ident [OF ok assms(3)] by simp
  have "\<not> clashes wr_id same_name (rows db) (row_of_workspace (workspace_merge old w))"
    using assms(4) clash_iff [OF ok, of "workspace_merge old w"] by simp
  from wt.modify_entity [where change = "put_workspace w", OF ok assms(3) put_workspace_row [OF old] _ _ this, of "''Workspace''"] assms(2)
  obtain db' where db': "ws_update S w db = (Inr w, db')" "wt.table_ok db'" "wt.entities db' = (wt.entities db)(ws_id w := Some (workspace_merge old w))"
    by (force simp: ws_update_def py_bind_split)
  moreover have "store_ok db'"
    using unique_upd [OF _ _ db'(3)] assms(1,4) db'(2) unfolding store_ok_def workspace_merge_simps by blast
  ultimately show ?thesis by blast
qed

lemma delete_workspace_row:
  assumes "store_ok db" and "wt.entities db i = Some w"
  shows "\<exists>db'. ws_hard_delete S i db = (Inr (), db') \<and> store_ok db' \<and> wt.entities db' = (wt.entities db)(i := None)"
proof -
  have ok: "wt.table_ok db" using assms(1) by (simp add: store_ok_def)
  obtain db' where db': "ws_hard_delete S i db = (Inr (), db')" "wt.table_ok db'" "wt.entities db' = (wt.entities db)(i := None)"
    using wt.delete_entity [OF ok assms(2)] by (auto simp: ws_hard_delete_def)
  moreover have "store_ok db'" using unique_remove assms(1) db'(2) unfolding store_ok_def db'(3) by blast
  ultimately show ?thesis by blast
qed

lemma name_row:
  assumes "store_ok db"
  shows "\<exists>x. ws_get_by_name S n db = (Inr x, db) \<and>
    (case x of None \<Rightarrow> \<forall>i w. wt.entities db i = Some w \<longrightarrow> ws_is_active w \<longrightarrow> ws_name w \<noteq> n
     | Some w \<Rightarrow> wt.entities db (ws_id w) = Some w \<and> ws_is_active w \<and> ws_name w = n)"
proof -
  have ok: "wt.table_ok db" using assms by (simp add: store_ok_def)
  obtain x where x: "ws_get_by_name S n db = (Inr x, db)"
    "case x of None \<Rightarrow> \<forall>w. wt.entities db (ws_id w) = Some w \<longrightarrow> \<not> (ws_name w = n \<and> ws_is_active w)
     | Some w \<Rightarrow> wt.entities db (ws_id w) = Some w \<and> ws_name w = n \<and> ws_is_active w"
    using wt.first_entity [OF ok, of "\<lambda>r. wr_name r = n \<and> wr_is_active r" None] by (force simp: ws_get_by_name_def split: option.splits)
  have "ws_id w = i" if "wt.entities db i = Some w" for i w using wt.entity_ident [OF ok that] by simp
  with x show ?thesis by (intro exI [of _ x]) (cases x, force+)
qed

lemma soft_delete_row:
  assumes "store_ok db" and "ws_get_by_id_any S i db = (Inr found, db)"
  shows "case found of
    None \<Rightarrow> ws_delete S now i db = (Inl (entity_missing ''Workspace'' i), db)
  | Some w \<Rightarrow> \<exists>db' gone. ws_delete S now i db = (Inr (), db') \<and> store_ok db' \<and> gone = deactivate now w \<and>
      fst (ws_get_by_id S i db') = Inr None \<and> fst (ws_get_by_id_any S i db') = Inr (Some gone) \<and>
      fst (meta_ws_get S i db') = Inr (Some gone) \<and> fst (ws_get_by_name S (ws_name w) db') = Inr None \<and>
      (\<forall>k. k \<noteq> i \<longrightarrow> fst (ws_get_by_id_any S k db') = fst (ws_get_by_id_any S k db))"
proof -
  have ok: "wt.table_ok db" using assms(1) by (simp add: store_ok_def)
  have any: "ws_get_by_id_any S k d = (Inr (wt.entities d k), d)" if "store_ok d" for k d
    using wt.get_entity [of d "\<lambda>_. True" k] that by (simp add: store_ok_def ws_get_by_id_any_def split: option.split)
  have found: "found = wt.entities db i" using any [OF assms(1)] assms(2) by simp
  show ?thesis
  proof (cases found)
    case None
    then show ?thesis using wt.missing_entity(1) [OF ok] found by (simp add: ws_delete_def)
  next
    case (Some w)
    let ?gone = "deactivate now w"
    have w: "wt.entities db i = Some w" "ws_id w = i" "workspace_ok w" using Some found wt.entity_ident [OF ok] by auto
    have gone: "ws_id ?gone = i" "workspace_ok ?gone" "ws_name ?gone = ws_name w" "\<not> ws_is_active ?gone"
      using w by (simp_all add: deactivate_def touch_def workspace_ok_def)
    have row: "(row_of_workspace w)\<lparr>wr_is_active := False, wr_updated_at := now\<rparr> = row_of_workspace ?gone"
      by (simp add: row_of_workspace_def deactivate_def touch_def)
    have free: "\<not> name_taken (wt.entities db) i (ws_name w)" using assms(1) w(1) unfolding store_ok_def by blast
    then have "\<not> clashes wr_id same_name (rows db) (row_of_workspace ?gone)" using clash_iff [OF ok, of ?gone] gone by simp
    from wt.modify_entity [where change = "\<lambda>r. r\<lparr>wr_is_active := False, wr_updated_at := now\<rparr>", OF ok w(1) row gone(2,1) this, of "''Workspace''"]
    obtain db' where db': "ws_delete S now i db = (Inr (), db')" "wt.table_ok db'" "wt.entities db' = (wt.entities db)(i := Some ?gone)"
      by (auto simp: ws_delete_def)
    have ok': "store_ok db'" using unique_upd [OF _ _ db'(3)] assms(1) free db'(2) unfolding store_ok_def gone by blast
    obtain x where x: "ws_get_by_name S (ws_name w) db' = (Inr x, db')"
      "case x of None \<Rightarrow> \<forall>i v. wt.entities db' i = Some v \<longrightarrow> ws_is_active v \<longrightarrow> ws_name v \<noteq> ws_name w
       | Some v \<Rightarrow> wt.entities db' (ws_id v) = Some v \<and> ws_is_active v \<and> ws_name v = ws_name w"
      using name_row [OF ok'] by blast
    have "x = None"
    proof (cases x)
      case (Some v)
      with x(2) have v: "wt.entities db' (ws_id v) = Some v" "ws_is_active v" "ws_name v = ws_name w" by simp_all
      then have "ws_id v \<noteq> i" using db'(3) gone(4) by auto
      then show ?thesis using v free db'(3) unfolding name_taken_def by auto
    qed simp
    moreover have "ws_get_by_id S i db' = (Inr None, db')"
      using wt.get_entity [OF db'(2), of wr_is_active i] db'(3) gone(4) by (simp add: ws_get_by_id_def)
    moreover have "meta_ws_get S i db' = (Inr (Some ?gone), db')"
      using wt.get_entity [OF db'(2), of "\<lambda>_. True" i] db'(3) by (simp add: meta_ws_get_def)
    ultimately show ?thesis unfolding Some option.case
      by (intro exI [of _ db'] exI [of _ ?gone]) (simp add: db' ok' x(1) any [OF ok'] any [OF assms(1)])
  qed
qed

text \<open>The refinement: over any table with the documented behaviour the repository is the finite map.\<close>

lemma workspace_refines: "workspace_store (sqlite_workspace_repo S) wt.entities store_ok"
  unfolding sqlite_workspace_repo_def
proof (unfold_locales, simp_all only: workspace_repo.simps)
  fix db i w msg n
  note ok = store_ok_def
  show "store_ok db \<Longrightarrow> wt.entities db i = Some w \<Longrightarrow> ws_id w = i \<and> workspace_ok w"
    using wt.entity_ident [of db i w] by (simp add: ok)
  show "store_ok db \<Longrightarrow> ws_get_by_id_any S i db = (Inr (wt.entities db i), db)"
    using wt.get_entity [of db "\<lambda>_. True" i] by (simp add: ok ws_get_by_id_any_def split: option.split)
  show "store_ok db \<Longrightarrow> ws_get_by_id S i db =
      (Inr (case wt.entities db i of None \<Rightarrow> None | Some w \<Rightarrow> if ws_is_active w then Some w else None), db)"
    using wt.get_entity [of db wr_is_active i] by (simp add: ok ws_get_by_id_def split: option.split)
  show "store_ok db \<Longrightarrow> ws_exists S i db = (Inr (case wt.entities db i of None \<Rightarrow> False | Some w \<Rightarrow> ws_is_active w), db)"
    using wt.exists_entity [of db wr_is_active i] by (simp add: ok ws_exists_def split: option.split)
  show "\<exists>msg. ws_create S w db = (Inl (Exn IntegrityError msg), db)"
    if "store_ok db" "wt.entities db (ws_id w) \<noteq> None \<or> name_taken (wt.entities db) (ws_id w) (ws_name w)"
    unfolding ws_create_def using that clash_iff [of db w] by (intro wt.create_refused) (auto simp: ok)
  show "store_ok db \<Longrightarrow> wt.entities db i = Some w \<Longrightarrow> \<not> name_taken (wt.entities db) i (ws_name w)"
    by (simp add: ok)
qed (assumption | rule create_workspace_row update_workspace_row delete_workspace_row name_row)+

end

sublocale workspace_table \<subseteq> store: workspace_store "sqlite_workspace_repo S" "wt.entities" "store_ok"
  by (rule workspace_refines)

text \<open>The workspace table as a list of rows.\<close>

abbreviation workspace_list_table :: "workspace_row list workspace_session" where
  "workspace_list_table \<equiv> list_table wr_id same_name"

interpretation workspace_list: workspace_table workspace_list_table "list_find wr_id"
  by unfold_locales

section \<open>Properties\<close>

text \<open>
  Soft deletion hides and keeps: after \<open>delete\<close> of a stored workspace the repository of the services finds
  it neither by id nor by name, while \<open>get_by_id_any\<close> and the repository of the metadata package still return it, inactive;
  all other workspaces are as before. For an unknown id it raises and changes nothing.
\<close>

theorem workspace_soft_delete:
  assumes "workspace_table S rows" and "workspace_table.store_ok rows db" and "ws_get_by_id_any S i db = (Inr found, db)"
  shows "case found of
    None \<Rightarrow> ws_delete S now i db = (Inl (entity_missing ''Workspace'' i), db)
  | Some w \<Rightarrow> \<exists>db' gone. ws_delete S now i db = (Inr (), db') \<and> workspace_table.store_ok rows db' \<and> gone = deactivate now w \<and>
      fst (ws_get_by_id S i db') = Inr None \<and> fst (ws_get_by_id_any S i db') = Inr (Some gone) \<and>
      fst (meta_ws_get S i db') = Inr (Some gone) \<and> fst (ws_get_by_name S (ws_name w) db') = Inr None \<and>
      (\<forall>k. k \<noteq> i \<longrightarrow> fst (ws_get_by_id_any S k db') = fst (ws_get_by_id_any S k db))"
  using workspace_table.soft_delete_row [OF assms] .

section \<open>Witnesses\<close>

definition sample_workspace :: workspace where
  "sample_workspace = \<lparr>ws_id = ''1'', ws_name = ''Cases'', ws_description = [], ws_owner_id = [], ws_is_active = True,
     ws_document_count = 0, ws_case_count = 0, ws_created_at = 0, ws_updated_at = 0\<rparr>"

lemma sample_workspace_table:
  "workspace_list.store_ok [row_of_workspace sample_workspace]"
  "ws_get_by_id_any workspace_list_table ''1'' [row_of_workspace sample_workspace] = (Inr (Some sample_workspace), [row_of_workspace sample_workspace])"
  "workspace_ok sample_workspace"
proof -
  show ok: "workspace_ok sample_workspace" by code_simp
  have tok: "workspace_list.wt.table_ok [row_of_workspace sample_workspace]"
    using ok by (auto simp: workspace_list.wt.table_ok_def list_find_def split: if_splits)
  have ent: "workspace_list.wt.entities [row_of_workspace sample_workspace] i = (if i = ''1'' then Some sample_workspace else None)" for i
    using ok by (simp add: workspace_list.wt.entities_def list_find_def) (simp add: sample_workspace_def)
  show "workspace_list.store_ok [row_of_workspace sample_workspace]"
    unfolding workspace_list.store_ok_def name_taken_def ent using tok by (auto split: if_splits)
  show "ws_get_by_id_any workspace_list_table ''1'' [row_of_workspace sample_workspace] = (Inr (Some sample_workspace), [row_of_workspace sample_workspace])"
    using workspace_list.wt.get_entity [OF tok, of "\<lambda>_. True" "''1''"] ent by (simp add: ws_get_by_id_any_def)
qed

lemma workspace_soft_delete_witness:
  "\<exists>db'. ws_delete workspace_list_table 9 ''1'' [row_of_workspace sample_workspace] = (Inr (), db') \<and>
    fst (ws_get_by_id workspace_list_table ''1'' db') = Inr None \<and> fst (ws_get_by_id_any workspace_list_table ''1'' db') = Inr (Some (deactivate 9 sample_workspace))"
  using workspace_soft_delete [OF workspace_list.workspace_table_axioms sample_workspace_table(1,2), of 9] by auto

end
