(* ===== verification/Workspace_Service.thy ===== *)
theory Workspace_Service
  imports Workspace_Repository
begin

text \<open>
  \<open>workspace/services/\<close>: the validator, the initializer, the lifecycle manager and the service that puts them
  together, over any repository that keeps the contract \<open>workspace_store\<close>. The n-th reading of the clock
  and the n-th generated UUID are parameters of the environment, and so is the event bus, if there is one.
\<close>

section \<open>State and events\<close>

datatype workspace_event =
    WorkspaceCreated string string
  | WorkspaceOpened string
  | WorkspaceClosed string
  | WorkspaceArchived string
  | WorkspaceDeleted string
  | WorkspaceValidationFailed string "string list"
  | WorkspaceMigrated string string string

record ('db, 'b) workspace_env =
  we_repo :: "'db workspace_repo"
  we_bus :: "(workspace_event \<Rightarrow> ('b, unit) py) option"
  we_now :: "nat \<Rightarrow> int"
  we_uuid :: "nat \<Rightarrow> string"

record ('db, 'b) workspace_world =
  wk_db :: 'db
  wk_sink :: 'b
  wk_ticks :: nat

type_synonym ('db, 'b, 'a) workspace_py = "(('db, 'b) workspace_world, 'a) py"

definition on_repo :: "('db, 'a) py \<Rightarrow> ('db, 'b, 'a) workspace_py" where
  "on_repo = py_on wk_db (\<lambda>db w. w\<lparr>wk_db := db\<rparr>)"

definition workspace_publish :: "('db, 'b) workspace_env \<Rightarrow> workspace_event \<Rightarrow> ('db, 'b, unit) workspace_py" where
  "workspace_publish env e =
     (case we_bus env of None \<Rightarrow> py_return () | Some publish \<Rightarrow> py_on wk_sink (\<lambda>b w. w\<lparr>wk_sink := b\<rparr>) (publish e))"

definition workspace_tick :: "('db, 'b, nat) workspace_py" where
  "workspace_tick = (\<lambda>w. (Inr (wk_ticks w), w\<lparr>wk_ticks := Suc (wk_ticks w)\<rparr>))"

section \<open>The validator\<close>

definition workspace_validation_error :: "string \<Rightarrow> string list \<Rightarrow> exn" where
  "workspace_validation_error wid details =
     Exn WorkspaceValidationError (''Workspace '' @ quoted wid @ '' validation failed'' @
       (if details = [] then [] else '': '' @ str_join ''; '' details))"

definition MAX_NAME_LENGTH :: nat where
  "MAX_NAME_LENGTH = 255"

text \<open>A character of the class \<open>[a-zA-Z0-9_\- ]\<close>.\<close>

definition name_char :: "char \<Rightarrow> bool" where
  "name_char c = (let n = of_char c :: nat in
     97 \<le> n \<and> n \<le> 122 \<or> 65 \<le> n \<and> n \<le> 90 \<or> 48 \<le> n \<and> n \<le> 57 \<or> c \<in> {CHR ''_'', CHR ''-'', CHR '' ''})"

definition name_errors :: "string \<Rightarrow> string list" where
  "name_errors name =
     (if name = [] \<or> str_strip name = [] then [''Workspace name must not be empty'']
      else if MAX_NAME_LENGTH < length name then [''Workspace name must not exceed '' @ nat_str MAX_NAME_LENGTH @ '' characters'']
      else if \<not> (str_strip name \<noteq> [] \<and> list_all name_char (str_strip name)) then
        [''Workspace name may only contain letters, digits, hyphens, underscores, and spaces'']
      else [])"

definition validate_workspace_name :: "string \<Rightarrow> exn + unit" where
  "validate_workspace_name name =
     (let errors = name_errors name in
      if errors \<noteq> [] then Inl (workspace_validation_error (str_join ''; '' errors) []) else Inr ())"

definition validate_uniqueness :: "('db, 'b) workspace_env \<Rightarrow> string \<Rightarrow> ('db, 'b, unit) workspace_py" where
  "validate_uniqueness env name =
     py_bind (on_repo (wo_get_by_name (we_repo env) name)) (\<lambda>existing.
     case existing of
       None \<Rightarrow> py_return ()
     | Some _ \<Rightarrow> py_lift (Inl (workspace_validation_error (''A workspace named '' @ quoted name @ '' already exists'') [])))"

definition validate_all :: "('db, 'b) workspace_env \<Rightarrow> string \<Rightarrow> ('db, 'b, unit) workspace_py" where
  "validate_all env name = py_bind (py_lift (validate_workspace_name name)) (\<lambda>_. validate_uniqueness env name)"

section \<open>The initializer\<close>

definition initializer_create :: "('db, 'b) workspace_env \<Rightarrow> string \<Rightarrow> string \<Rightarrow> string \<Rightarrow> ('db, 'b, workspace) workspace_py" where
  "initializer_create env name description owner_id =
     py_bind workspace_tick (\<lambda>k.
     py_bind workspace_tick (\<lambda>created.
     py_bind workspace_tick (\<lambda>updated.
     py_bind (py_lift (workspace_post_init
       \<lparr>ws_id = we_uuid env k, ws_name = name, ws_description = description, ws_owner_id = owner_id, ws_is_active = True,
        ws_document_count = 0, ws_case_count = 0, ws_created_at = we_now env created, ws_updated_at = we_now env updated\<rparr>)) (\<lambda>ws.
     on_repo (wo_create (we_repo env) ws)))))"

definition initialize_metadata :: "('db, 'b) workspace_env \<Rightarrow> string \<Rightarrow> ('db, 'b, workspace) workspace_py" where
  "initialize_metadata env i =
     py_bind (on_repo (wo_get_by_id (we_repo env) i)) (\<lambda>found.
     case found of
       None \<Rightarrow> py_lift (Inl (entity_missing ''Workspace'' i))
     | Some ws \<Rightarrow> py_bind workspace_tick (\<lambda>t. on_repo (wo_update (we_repo env) (touch (we_now env t) ws))))"

section \<open>The lifecycle manager\<close>

definition lifecycle_load :: "('db, 'b) workspace_env \<Rightarrow> string \<Rightarrow> ('db, 'b, workspace) workspace_py" where
  "lifecycle_load env i =
     py_bind (on_repo (wo_get_by_id_any (we_repo env) i)) (\<lambda>found.
     case found of None \<Rightarrow> py_lift (Inl (entity_missing ''Workspace'' i)) | Some ws \<Rightarrow> py_return ws)"

definition lifecycle_open :: "('db, 'b) workspace_env \<Rightarrow> string \<Rightarrow> ('db, 'b, workspace) workspace_py" where
  "lifecycle_open env i =
     py_bind (lifecycle_load env i) (\<lambda>ws.
     py_bind workspace_tick (\<lambda>t.
     py_bind (on_repo (wo_update (we_repo env) (activate (we_now env t) ws))) (\<lambda>ws.
     py_bind (workspace_publish env (WorkspaceOpened (ws_id ws))) (\<lambda>_. py_return ws))))"

definition lifecycle_close :: "('db, 'b) workspace_env \<Rightarrow> string \<Rightarrow> ('db, 'b, workspace) workspace_py" where
  "lifecycle_close env i =
     py_bind (lifecycle_load env i) (\<lambda>ws.
     py_bind workspace_tick (\<lambda>t.
     py_bind (on_repo (wo_update (we_repo env) (deactivate (we_now env t) ws))) (\<lambda>ws.
     py_bind (workspace_publish env (WorkspaceClosed (ws_id ws))) (\<lambda>_. py_return ws))))"

definition lifecycle_archive :: "('db, 'b) workspace_env \<Rightarrow> string \<Rightarrow> ('db, 'b, workspace) workspace_py" where
  "lifecycle_archive env i =
     py_bind (lifecycle_load env i) (\<lambda>ws.
     py_bind workspace_tick (\<lambda>t.
     py_bind (on_repo (wo_update (we_repo env) (deactivate (we_now env t) ws))) (\<lambda>ws.
     py_bind (workspace_publish env (WorkspaceArchived (ws_id ws))) (\<lambda>_. py_return ws))))"

definition lifecycle_delete :: "('db, 'b) workspace_env \<Rightarrow> string \<Rightarrow> ('db, 'b, unit) workspace_py" where
  "lifecycle_delete env i =
     py_bind (lifecycle_load env i) (\<lambda>_.
     py_bind (on_repo (wo_hard_delete (we_repo env) i)) (\<lambda>_.
     workspace_publish env (WorkspaceDeleted i)))"

definition lifecycle_get :: "('db, 'b) workspace_env \<Rightarrow> string \<Rightarrow> ('db, 'b, workspace option) workspace_py" where
  "lifecycle_get env i = on_repo (wo_get_by_id (we_repo env) i)"

definition lifecycle_exists :: "('db, 'b) workspace_env \<Rightarrow> string \<Rightarrow> ('db, 'b, bool) workspace_py" where
  "lifecycle_exists env i = on_repo (wo_exists (we_repo env) i)"

section \<open>The service\<close>

definition workspace_create :: "('db, 'b) workspace_env \<Rightarrow> string \<Rightarrow> string \<Rightarrow> string \<Rightarrow> ('db, 'b, workspace) workspace_py" where
  "workspace_create env name description owner_id =
     py_bind (validate_all env name) (\<lambda>_.
     py_bind (initializer_create env name description owner_id) (\<lambda>ws.
     py_bind (workspace_publish env (WorkspaceCreated (ws_id ws) name)) (\<lambda>_. py_return ws)))"

definition workspace_open :: "('db, 'b) workspace_env \<Rightarrow> string \<Rightarrow> ('db, 'b, workspace) workspace_py" where
  "workspace_open = lifecycle_open"

definition workspace_close :: "('db, 'b) workspace_env \<Rightarrow> string \<Rightarrow> ('db, 'b, workspace) workspace_py" where
  "workspace_close = lifecycle_close"

definition workspace_archive :: "('db, 'b) workspace_env \<Rightarrow> string \<Rightarrow> ('db, 'b, workspace) workspace_py" where
  "workspace_archive = lifecycle_archive"

definition workspace_delete :: "('db, 'b) workspace_env \<Rightarrow> string \<Rightarrow> ('db, 'b, unit) workspace_py" where
  "workspace_delete = lifecycle_delete"

definition workspace_get_by_id :: "('db, 'b) workspace_env \<Rightarrow> string \<Rightarrow> ('db, 'b, workspace option) workspace_py" where
  "workspace_get_by_id = lifecycle_get"

definition workspace_get_by_name :: "('db, 'b) workspace_env \<Rightarrow> string \<Rightarrow> ('db, 'b, workspace option) workspace_py" where
  "workspace_get_by_name env name = on_repo (wo_get_by_name (we_repo env) name)"

definition workspace_exists :: "('db, 'b) workspace_env \<Rightarrow> string \<Rightarrow> ('db, 'b, bool) workspace_py" where
  "workspace_exists = lifecycle_exists"

definition workspace_list_all :: "('db, 'b) workspace_env \<Rightarrow> ('db, 'b, workspace list) workspace_py" where
  "workspace_list_all env = on_repo (wo_list_all (we_repo env))"

definition workspace_list_page :: "('db, 'b) workspace_env \<Rightarrow> page_request \<Rightarrow> ('db, 'b, workspace page_result) workspace_py" where
  "workspace_list_page env q = on_repo (wo_list_page (we_repo env) q)"

definition workspace_count :: "('db, 'b) workspace_env \<Rightarrow> ('db, 'b, int) workspace_py" where
  "workspace_count env = on_repo (wo_count (we_repo env))"

definition workspace_initialize_metadata :: "('db, 'b) workspace_env \<Rightarrow> string \<Rightarrow> ('db, 'b, workspace) workspace_py" where
  "workspace_initialize_metadata = initialize_metadata"

definition workspace_validate_name :: "string \<Rightarrow> exn + unit" where
  "workspace_validate_name = validate_workspace_name"

section \<open>Lemmas\<close>

lemma on_repo_app [simp]: "on_repo m w = (fst (m (wk_db w)), w\<lparr>wk_db := snd (m (wk_db w))\<rparr>)"
  by (simp add: on_repo_def)

lemma workspace_tick_app [simp]: "workspace_tick w = (Inr (wk_ticks w), w\<lparr>wk_ticks := Suc (wk_ticks w)\<rparr>)"
  by (simp add: workspace_tick_def)

definition records_spaces :: "('db, workspace_event list) workspace_env \<Rightarrow> bool" where
  "records_spaces env = (we_bus env = Some (\<lambda>e. py_modify (\<lambda>es. es @ [e])))"

lemma publish_recorded: "records_spaces env \<Longrightarrow> workspace_publish env e w = (Inr (), w\<lparr>wk_sink := wk_sink w @ [e]\<rparr>)"
  by (simp add: workspace_publish_def records_spaces_def)

definition valid_workspace_name :: "string \<Rightarrow> bool" where
  "valid_workspace_name name = (str_strip name \<noteq> [] \<and> length name \<le> 255 \<and> (\<forall>c \<in> set (str_strip name). name_char c))"

lemma validate_name_iff: "validate_workspace_name name = Inr () \<longleftrightarrow> valid_workspace_name name"
  by (auto simp: validate_workspace_name_def name_errors_def valid_workspace_name_def MAX_NAME_LENGTH_def list_all_iff str_strip_def)

lemma validate_name_error: "\<not> valid_workspace_name name \<Longrightarrow> \<exists>msg. validate_workspace_name name = Inl (Exn WorkspaceValidationError msg)"
  using validate_name_iff [of name]
  by (auto simp: validate_workspace_name_def workspace_validation_error_def Let_def split: if_splits)

context workspace_store
begin

lemma uniqueness_outcome:
  assumes "we_repo env = R" and "ok (wk_db w)"
  shows "if \<exists>i v. spaces (wk_db w) i = Some v \<and> ws_is_active v \<and> ws_name v = name
    then \<exists>msg. validate_uniqueness env name w = (Inl (Exn WorkspaceValidationError msg), w)
    else validate_uniqueness env name w = (Inr (), w)"
proof -
  obtain x where x: "wo_get_by_name R name (wk_db w) = (Inr x, wk_db w)"
    "case x of None \<Rightarrow> \<forall>i v. spaces (wk_db w) i = Some v \<longrightarrow> ws_is_active v \<longrightarrow> ws_name v \<noteq> name
     | Some v \<Rightarrow> spaces (wk_db w) (ws_id v) = Some v \<and> ws_is_active v \<and> ws_name v = name"
    using store_by_name [OF assms(2)] by blast
  show ?thesis
  proof (cases x)
    case None
    with x show ?thesis by (auto simp: validate_uniqueness_def py_bind_split assms(1))
  next
    case (Some v)
    then have "\<exists>i v. spaces (wk_db w) i = Some v \<and> ws_is_active v \<and> ws_name v = name" using x(2) by auto
    then show ?thesis using x(1) Some by (simp add: validate_uniqueness_def py_bind_split assms(1) workspace_validation_error_def)
  qed
qed

text \<open>The workspace the initializer builds.\<close>

definition built :: "('db, 'b) workspace_env \<Rightarrow> nat \<Rightarrow> string \<Rightarrow> string \<Rightarrow> string \<Rightarrow> workspace" where
  "built env k name description owner_id =
     \<lparr>ws_id = we_uuid env k, ws_name = name, ws_description = description, ws_owner_id = owner_id, ws_is_active = True,
      ws_document_count = 0, ws_case_count = 0, ws_created_at = we_now env (Suc k), ws_updated_at = we_now env (Suc (Suc k))\<rparr>"

lemma built_simps [simp]:
  "ws_id (built env k name d own) = we_uuid env k" "ws_name (built env k name d own) = name" "ws_is_active (built env k name d own)"
  by (simp_all add: built_def)

lemma initializer_app:
  assumes "we_repo env = R" and "valid_workspace_name name"
  shows "initializer_create env name description owner_id w =
    (let r = wo_create R (built env (wk_ticks w) name description owner_id) (wk_db w)
     in (fst r, w\<lparr>wk_ticks := Suc (Suc (Suc (wk_ticks w))), wk_db := snd r\<rparr>))"
proof -
  have "name \<noteq> []" "str_strip name \<noteq> []" using assms(2) by (auto simp: valid_workspace_name_def str_strip_def)
  then show ?thesis by (simp add: initializer_create_def py_bind_split workspace_post_init_def built_def assms(1) Let_def)
qed

lemma create_outcome:
  assumes "we_repo env = R" and "records_spaces env" and "ok (wk_db w)" and "spaces (wk_db w) (we_uuid env (wk_ticks w)) = None"
  defines "m \<equiv> spaces (wk_db w)"
  shows "if \<not> valid_workspace_name name \<or> (\<exists>i v. m i = Some v \<and> ws_is_active v \<and> ws_name v = name)
    then \<exists>msg. workspace_create env name description owner_id w = (Inl (Exn WorkspaceValidationError msg), w)
    else if \<exists>i v. m i = Some v \<and> ws_name v = name
    then \<exists>msg w'. workspace_create env name description owner_id w = (Inl (Exn IntegrityError msg), w') \<and>
      wk_db w' = wk_db w \<and> wk_sink w' = wk_sink w
    else \<exists>v w'. workspace_create env name description owner_id w = (Inr v, w') \<and> ok (wk_db w') \<and> ws_name v = name \<and> ws_is_active v \<and>
      ws_id v = we_uuid env (wk_ticks w) \<and> spaces (wk_db w') = m(ws_id v := Some v) \<and>
      wk_sink w' = wk_sink w @ [WorkspaceCreated (ws_id v) name]"
proof (cases "valid_workspace_name name")
  case False
  then show ?thesis using validate_name_error [OF False]
    by (auto simp: workspace_create_def validate_all_def py_bind_split)
next
  case True
  note unique = uniqueness_outcome [OF assms(1,3), of name]
  have valid: "validate_workspace_name name = Inr ()" using True by (simp add: validate_name_iff)
  let ?v = "built env (wk_ticks w) name description owner_id"
  have vok: "workspace_ok ?v" using True by (simp add: workspace_ok_def valid_workspace_name_def)
  show ?thesis
  proof (cases "\<exists>i v. m i = Some v \<and> ws_is_active v \<and> ws_name v = name")
    case True
    then show ?thesis using unique valid unfolding m_def by (auto simp: workspace_create_def validate_all_def py_bind_split)
  next
    case free: False
    then have go: "validate_all env name w = (Inr (), w)"
      using unique valid unfolding m_def by (auto simp: validate_all_def py_bind_split)
    show ?thesis
    proof (cases "\<exists>i v. m i = Some v \<and> ws_name v = name")
      case held: True
      then obtain i v where "m i = Some v" "ws_name v = name" by blast
      then have "name_taken m (ws_id ?v) (ws_name ?v)" using assms(4) unfolding name_taken_def m_def by (intro exI [of _ i] exI [of _ v]) auto
      then obtain msg where "wo_create R ?v (wk_db w) = (Inl (Exn IntegrityError msg), wk_db w)"
        using store_create_refused [OF assms(3), of ?v] unfolding m_def by blast
      then have "workspace_create env name description owner_id w =
          (Inl (Exn IntegrityError msg), w\<lparr>wk_ticks := Suc (Suc (Suc (wk_ticks w))), wk_db := wk_db w\<rparr>)"
        by (simp add: workspace_create_def py_bind_split go initializer_app [OF assms(1) \<open>valid_workspace_name name\<close>] Let_def)
      then show ?thesis using free held \<open>valid_workspace_name name\<close> by auto
    next
      case False
      then have "\<not> name_taken m (ws_id ?v) (ws_name ?v)" by (auto simp: name_taken_def)
      moreover have "spaces (wk_db w) (ws_id ?v) = None" using assms(4) by simp
      ultimately obtain db' where "wo_create R ?v (wk_db w) = (Inr ?v, db')" "ok db'" "spaces db' = m(ws_id ?v := Some ?v)"
        using store_create [OF assms(3) vok] unfolding m_def by blast
      then show ?thesis using free False \<open>valid_workspace_name name\<close>
        by (simp add: workspace_create_def py_bind_split go initializer_app [OF assms(1) \<open>valid_workspace_name name\<close>] publish_recorded [OF assms(2)])
    qed
  qed
qed

text \<open>The three transitions differ in the flag they set and the event they publish.\<close>

definition lifecycle_move :: "('db, 'b) workspace_env \<Rightarrow> (int \<Rightarrow> workspace \<Rightarrow> workspace) \<Rightarrow> (string \<Rightarrow> workspace_event) \<Rightarrow> string \<Rightarrow> ('db, 'b, workspace) workspace_py" where
  "lifecycle_move env change event i =
     py_bind (lifecycle_load env i) (\<lambda>ws.
     py_bind workspace_tick (\<lambda>t.
     py_bind (on_repo (wo_update (we_repo env) (change (we_now env t) ws))) (\<lambda>ws.
     py_bind (workspace_publish env (event (ws_id ws))) (\<lambda>_. py_return ws))))"

lemma load_app:
  assumes "we_repo env = R" and "ok (wk_db w)"
  shows "lifecycle_load env i w = (case spaces (wk_db w) i of None \<Rightarrow> Inl (entity_missing ''Workspace'' i) | Some v \<Rightarrow> Inr v, w)"
  by (simp add: lifecycle_load_def py_bind_split assms(1) store_get_any [OF assms(2)] split: option.split)

lemma move_outcome:
  assumes "we_repo env = R" and "records_spaces env" and "ok (wk_db w)"
    and change: "\<And>t v. change t v = v\<lparr>ws_is_active := flag, ws_updated_at := t\<rparr>"
  shows "case spaces (wk_db w) i of
    None \<Rightarrow> lifecycle_move env change event i w = (Inl (entity_missing ''Workspace'' i), w)
  | Some v \<Rightarrow> \<exists>v' w'. lifecycle_move env change event i w = (Inr v', w') \<and> ok (wk_db w') \<and>
      v' = v\<lparr>ws_is_active := flag, ws_updated_at := we_now env (wk_ticks w)\<rparr> \<and>
      spaces (wk_db w') = (spaces (wk_db w))(i := Some v') \<and> wk_sink w' = wk_sink w @ [event i]"
proof (cases "spaces (wk_db w) i")
  case None
  then show ?thesis by (simp add: lifecycle_move_def py_bind_split load_app [OF assms(1,3)])
next
  case (Some v)
  let ?v = "v\<lparr>ws_is_active := flag, ws_updated_at := we_now env (wk_ticks w)\<rparr>"
  have v: "ws_id v = i" "workspace_ok v" using store_keyed [OF assms(3) Some] by simp_all
  have "\<not> name_taken (spaces (wk_db w)) (ws_id ?v) (ws_name ?v)" using store_unique [OF assms(3) Some] v(1) by simp
  moreover have "workspace_ok ?v" "spaces (wk_db w) (ws_id ?v) = Some v" using v Some by (simp_all add: workspace_ok_def)
  moreover have "workspace_merge v ?v = ?v" by (simp add: workspace_merge_def)
  ultimately obtain db' where "wo_update R ?v (wk_db w) = (Inr ?v, db')" "ok db'" "spaces db' = (spaces (wk_db w))(i := Some ?v)"
    using store_update [OF assms(3), of ?v v] v(1) by auto
  then show ?thesis using Some v(1)
    by (simp add: lifecycle_move_def py_bind_split load_app [OF assms(1,3)] assms(1) change publish_recorded [OF assms(2)])
qed

lemma delete_outcome:
  assumes "we_repo env = R" and "records_spaces env" and "ok (wk_db w)"
  shows "case spaces (wk_db w) i of
    None \<Rightarrow> lifecycle_delete env i w = (Inl (entity_missing ''Workspace'' i), w)
  | Some v \<Rightarrow> \<exists>w'. lifecycle_delete env i w = (Inr (), w') \<and> ok (wk_db w') \<and> spaces (wk_db w') = (spaces (wk_db w))(i := None) \<and>
      wk_sink w' = wk_sink w @ [WorkspaceDeleted i]"
proof (cases "spaces (wk_db w) i")
  case None
  then show ?thesis by (simp add: lifecycle_delete_def py_bind_split load_app [OF assms(1,3)])
next
  case (Some v)
  from store_delete [OF assms(3) Some] obtain db' where "wo_hard_delete R i (wk_db w) = (Inr (), db')" "ok db'"
    "spaces db' = (spaces (wk_db w))(i := None)" by blast
  then show ?thesis using Some
    by (simp add: lifecycle_delete_def py_bind_split load_app [OF assms(1,3)] assms(1) publish_recorded [OF assms(2)])
qed

end

section \<open>Properties\<close>

text \<open>C33: 
  Creating a workspace, over every repository that keeps the contract and with a fresh UUID: a name that is not
  valid, or that an active workspace has, is refused with a validation error; a name that only an
  inactive workspace has passes the validation and fails in the repository; both leave the repository as it was
  and publish nothing. Otherwise the new active workspace is stored, announced and returned.
\<close>

theorem workspace_create_outcome:
  assumes "workspace_store (we_repo env) spaces ok" and "records_spaces env" and "ok (wk_db w)"
    and "spaces (wk_db w) (we_uuid env (wk_ticks w)) = None" and "m = spaces (wk_db w)"
  shows "if \<not> valid_workspace_name name \<or> (\<exists>i v. m i = Some v \<and> ws_is_active v \<and> ws_name v = name)
    then \<exists>msg. workspace_create env name description owner_id w = (Inl (Exn WorkspaceValidationError msg), w)
    else if \<exists>i v. m i = Some v \<and> ws_name v = name
    then \<exists>msg w'. workspace_create env name description owner_id w = (Inl (Exn IntegrityError msg), w') \<and>
      wk_db w' = wk_db w \<and> wk_sink w' = wk_sink w
    else \<exists>v w'. workspace_create env name description owner_id w = (Inr v, w') \<and> ok (wk_db w') \<and> ws_name v = name \<and> ws_is_active v \<and>
      ws_id v = we_uuid env (wk_ticks w) \<and> spaces (wk_db w') = m(ws_id v := Some v) \<and>
      wk_sink w' = wk_sink w @ [WorkspaceCreated (ws_id v) name]"
  using workspace_store.create_outcome [OF assms(1) refl assms(2-4)] unfolding assms(5) .

text \<open>C34: 
  Opening, closing and archiving find a workspace whether it is active or not, set just its flag and its
  time of update, leave every other workspace alone and publish one event; deleting takes it out of
  the repository. None of them looks at the state the workspace is in (the module's claim to enforce valid
  transitions has no code), so each succeeds from every state. For an unknown id all four raise, change
  nothing and publish nothing.
\<close>

theorem workspace_lifecycle_outcome:
  assumes "workspace_store (we_repo env) spaces ok" and "records_spaces env" and "ok (wk_db w)"
    and "(run, flag, event) \<in> {(workspace_open, True, WorkspaceOpened), (workspace_close, False, WorkspaceClosed), (workspace_archive, False, WorkspaceArchived)}"
  shows "case spaces (wk_db w) i of
    None \<Rightarrow> run env i w = (Inl (entity_missing ''Workspace'' i), w) \<and> workspace_delete env i w = (Inl (entity_missing ''Workspace'' i), w)
  | Some v \<Rightarrow>
      (\<exists>v' w'. run env i w = (Inr v', w') \<and> ok (wk_db w') \<and> v' = v\<lparr>ws_is_active := flag, ws_updated_at := we_now env (wk_ticks w)\<rparr> \<and>
         spaces (wk_db w') = (spaces (wk_db w))(i := Some v') \<and> wk_sink w' = wk_sink w @ [event i]) \<and>
      (\<exists>w'. workspace_delete env i w = (Inr (), w') \<and> ok (wk_db w') \<and> spaces (wk_db w') = (spaces (wk_db w))(i := None) \<and>
         wk_sink w' = wk_sink w @ [WorkspaceDeleted i])"
proof -
  have activate: "activate t v = v\<lparr>ws_is_active := True, ws_updated_at := t\<rparr>" and deactivate: "deactivate t v = v\<lparr>ws_is_active := False, ws_updated_at := t\<rparr>" for t v
    by (simp_all add: activate_def deactivate_def touch_def)
  note move = workspace_store.move_outcome [OF assms(1) refl assms(2,3)] workspace_store.lifecycle_move_def [OF assms(1)]
  note del = workspace_store.delete_outcome [OF assms(1) refl assms(2,3), of i]
  consider "run = workspace_open" "flag" "event = WorkspaceOpened" | "run = workspace_close" "\<not> flag" "event = WorkspaceClosed"
    | "run = workspace_archive" "\<not> flag" "event = WorkspaceArchived" using assms(4) by auto
  then show ?thesis
  proof cases
    case 1
    then show ?thesis using move(1) [where change = activate and flag = True and event = WorkspaceOpened and i = i, OF activate] del
      unfolding move(2) workspace_open_def lifecycle_open_def workspace_delete_def by (simp split: option.splits)
  next
    case 2
    then show ?thesis using move(1) [where change = deactivate and flag = False and event = WorkspaceClosed and i = i, OF deactivate] del
      unfolding move(2) workspace_close_def lifecycle_close_def workspace_delete_def by (simp split: option.splits)
  next
    case 3
    then show ?thesis using move(1) [where change = deactivate and flag = False and event = WorkspaceArchived and i = i, OF deactivate] del
      unfolding move(2) workspace_archive_def lifecycle_archive_def workspace_delete_def by (simp split: option.splits)
  qed
qed

section \<open>Witnesses\<close>

definition sample_space_env :: "(workspace_row list, workspace_event list) workspace_env" where
  "sample_space_env = \<lparr>we_repo = sqlite_workspace_repo workspace_list_table, we_bus = Some (\<lambda>e. py_modify (\<lambda>es. es @ [e])),
     we_now = int, we_uuid = (\<lambda>k. ''u'' @ nat_str k)\<rparr>"

definition sample_space_world :: "bool \<Rightarrow> (workspace_row list, workspace_event list) workspace_world" where
  "sample_space_world active = \<lparr>wk_db = [row_of_workspace (sample_workspace\<lparr>ws_is_active := active\<rparr>)], wk_sink = [], wk_ticks = 0\<rparr>"

lemma sample_space_stored:
  "workspace_list.store_ok (wk_db (sample_space_world active))"
  "workspace_list.wt.entities (wk_db (sample_space_world active)) i = (if i = ''1'' then Some (sample_workspace\<lparr>ws_is_active := active\<rparr>) else None)"
proof -
  let ?v = "sample_workspace\<lparr>ws_is_active := active\<rparr>" and ?db = "wk_db (sample_space_world active)"
  have ok: "workspace_ok ?v" using sample_workspace_table(3) by (simp add: workspace_ok_def)
  have row: "?db = [row_of_workspace ?v]" "ws_id ?v = ''1''" by (simp_all add: sample_space_world_def sample_workspace_def)
  have tok: "workspace_list.wt.table_ok ?db"
    using ok by (auto simp: row workspace_list.wt.table_ok_def list_find_def split: if_splits)
  have ent: "workspace_list.wt.entities ?db i = (if i = ''1'' then Some ?v else None)" for i
    using ok row(2) by (simp add: row(1) workspace_list.wt.entities_def list_find_def)
  show "workspace_list.wt.entities ?db i = (if i = ''1'' then Some ?v else None)" by (rule ent)
  show "workspace_list.store_ok ?db"
    unfolding workspace_list.store_ok_def name_taken_def ent using tok by (auto split: if_splits)
qed

lemma sample_space_env_simps: "we_repo sample_space_env = sqlite_workspace_repo workspace_list_table" "records_spaces sample_space_env"
  "we_uuid sample_space_env 0 = ''u'' @ nat_str 0"
  by (simp_all add: sample_space_env_def records_spaces_def)

text \<open>The name of a closed workspace passes the validation and is refused by the table.\<close>

lemma workspace_create_outcome_witness:
  "\<exists>msg w'. workspace_create sample_space_env ''Cases'' [] [] (sample_space_world False) = (Inl (Exn IntegrityError msg), w') \<and> wk_sink w' = []"
proof -
  let ?w = "sample_space_world False"
  have name: "valid_workspace_name ''Cases''" by code_simp
  have fresh: "workspace_list.wt.entities (wk_db ?w) (we_uuid sample_space_env (wk_ticks ?w)) = None"
    unfolding sample_space_stored(2) by (simp add: sample_space_world_def sample_space_env_simps)
  have held: "\<not> (\<exists>i v. workspace_list.wt.entities (wk_db ?w) i = Some v \<and> ws_is_active v \<and> ws_name v = ''Cases'')"
    "\<exists>i v. workspace_list.wt.entities (wk_db ?w) i = Some v \<and> ws_name v = ''Cases''"
    unfolding sample_space_stored(2) by (auto simp: sample_workspace_def)
  from workspace_create_outcome [OF workspace_list.workspace_refines [folded sample_space_env_simps(1)] sample_space_env_simps(2) sample_space_stored(1) fresh refl,
      where name = "''Cases''" and description = "[]" and owner_id = "[]"]
  have "\<exists>msg w'. workspace_create sample_space_env ''Cases'' [] [] ?w = (Inl (Exn IntegrityError msg), w') \<and> wk_db w' = wk_db ?w \<and> wk_sink w' = wk_sink ?w"
    by (simp only: name held not_True_eq_False simp_thms if_True if_False)
  moreover have "wk_sink ?w = []" by (simp add: sample_space_world_def)
  ultimately show ?thesis by auto
qed

lemma workspace_lifecycle_outcome_witness:
  "\<exists>w'. workspace_close sample_space_env ''1'' (sample_space_world True) = (Inr (deactivate 0 sample_workspace), w') \<and> wk_sink w' = [WorkspaceClosed ''1'']"
proof -
  let ?w = "sample_space_world True"
  have v: "workspace_list.wt.entities (wk_db ?w) ''1'' = Some (sample_workspace\<lparr>ws_is_active := True\<rparr>)" unfolding sample_space_stored(2) by simp
  have "(workspace_close, False, WorkspaceClosed) \<in> {(workspace_open, True, WorkspaceOpened), (workspace_close, False, WorkspaceClosed), (workspace_archive, False, WorkspaceArchived)}"
    by blast
  from workspace_lifecycle_outcome [OF workspace_list.workspace_refines [folded sample_space_env_simps(1)] sample_space_env_simps(2) sample_space_stored(1) [of True] this,
      where i = "''1''", unfolded v option.case]
  obtain v' w' where "workspace_close sample_space_env ''1'' ?w = (Inr v', w')"
    "v' = (sample_workspace\<lparr>ws_is_active := True\<rparr>)\<lparr>ws_is_active := False, ws_updated_at := we_now sample_space_env (wk_ticks ?w)\<rparr>"
    "wk_sink w' = wk_sink ?w @ [WorkspaceClosed ''1'']" by blast
  then show ?thesis by (simp add: deactivate_def touch_def sample_space_env_def sample_space_world_def)
qed

end
