(* ===== verification/Workspace_Manager.thy ===== *)
theory Workspace_Manager
  imports Complex_Main Workspace_Aggregate Workspace_Service
begin

text \<open>
  \<open>workspace/workspace_lock.py\<close> and \<open>workspace/workspace_manager.py\<close>. The factory, the loader and the registry are
  protocols in the code and records of operations here; the registry hands out the registered object
  itself, and \<open>wg_mutated a\<close> is what it means for the registry that this object has become \<open>a\<close>. Acquiring a
  lock may never return, so it is a partial function, \<open>None\<close> for waiting forever: with one thread nobody
  releases the lock it waits for.
\<close>

section \<open>The lock\<close>

record lock_state =
  lk_locks :: "(string, bool) dict"
  lk_held :: "(string, string) dict"

definition new_lock :: lock_state where
  "new_lock = \<lparr>lk_locks = [], lk_held = []\<rparr>"

definition lock_acquire :: "string \<Rightarrow> string \<Rightarrow> real \<Rightarrow> lock_state \<Rightarrow> ((exn + bool) \<times> lock_state) option" where
  "lock_acquire owner i timeout s =
     (let s1 = (if dict_has (lk_locks s) i then s else s\<lparr>lk_locks := dict_set i False (lk_locks s)\<rparr>) in
      if dict_get (lk_locks s1) i = Some False then
        Some (Inr True, s1\<lparr>lk_locks := dict_set i True (lk_locks s1), lk_held := dict_set i owner (lk_held s1)\<rparr>)
      else if 0 < timeout then Some (Inr False, s1)
      else None)"

definition lock_release :: "string \<Rightarrow> (lock_state, unit) py" where
  "lock_release i =
     (\<lambda>s. case dict_get (lk_locks s) i of
        None \<Rightarrow> (Inr (), s)
      | Some locked \<Rightarrow>
          let s1 = s\<lparr>lk_held := dict_pop i (lk_held s)\<rparr> in
          if locked then (Inr (), s1\<lparr>lk_locks := dict_set i False (lk_locks s1)\<rparr>)
          else (Inl (Exn RuntimeError ''release unlocked lock''), s1))"

definition lock_is_locked :: "lock_state \<Rightarrow> string \<Rightarrow> bool" where
  "lock_is_locked s i = dict_has (lk_held s) i"

definition lock_owner :: "lock_state \<Rightarrow> string \<Rightarrow> string option" where
  "lock_owner s i = dict_get (lk_held s) i"

section \<open>The manager\<close>

record 'l lock_ops =
  lo_acquire :: "string \<Rightarrow> 'l \<Rightarrow> ((exn + bool) \<times> 'l) option"
  lo_release :: "string \<Rightarrow> ('l, unit) py"

definition single_process_lock :: "string \<Rightarrow> lock_state lock_ops" where
  "single_process_lock owner = \<lparr>lo_acquire = (\<lambda>i. lock_acquire owner i (-1)), lo_release = lock_release\<rparr>"

record 'r workspace_registry =
  wg_register :: "workspace_agg \<Rightarrow> ('r, unit) py"
  wg_unregister :: "string \<Rightarrow> ('r, unit) py"
  wg_find :: "'r \<Rightarrow> string \<Rightarrow> workspace_agg option"
  wg_list :: "'r \<Rightarrow> workspace_agg list"
  wg_mutated :: "workspace_agg \<Rightarrow> 'r \<Rightarrow> 'r"

record 'x workspace_sources =
  wx_create :: "string \<Rightarrow> string \<Rightarrow> string \<Rightarrow> string \<Rightarrow> string \<Rightarrow> ('x, workspace_agg) py"
  wx_load :: "string \<Rightarrow> ('x, workspace_agg) py"

record ('r, 'l, 'x, 'b) manager_env =
  me_registry :: "'r workspace_registry"
  me_sources :: "'x workspace_sources"
  me_lock :: "'l lock_ops option"
  me_bus :: "(workspace_event \<Rightarrow> ('b, unit) py) option"

record ('r, 'l, 'x, 'b) manager_world =
  mw_registry :: 'r
  mw_lock :: 'l
  mw_sources :: 'x
  mw_sink :: 'b

type_synonym ('r, 'l, 'x, 'b, 'a) manager_py = "(('r, 'l, 'x, 'b) manager_world, 'a) py"

definition on_registry :: "('r, 'a) py \<Rightarrow> ('r, 'l, 'x, 'b, 'a) manager_py" where
  "on_registry = py_on mw_registry (\<lambda>r w. w\<lparr>mw_registry := r\<rparr>)"

definition on_sources :: "('x, 'a) py \<Rightarrow> ('r, 'l, 'x, 'b, 'a) manager_py" where
  "on_sources = py_on mw_sources (\<lambda>x w. w\<lparr>mw_sources := x\<rparr>)"

definition manager_publish :: "('r, 'l, 'x, 'b) manager_env \<Rightarrow> workspace_event \<Rightarrow> ('r, 'l, 'x, 'b, unit) manager_py" where
  "manager_publish env e =
     (case me_bus env of None \<Rightarrow> py_return () | Some publish \<Rightarrow> py_on mw_sink (\<lambda>b w. w\<lparr>mw_sink := b\<rparr>) (publish e))"

definition manager_release :: "('r, 'l, 'x, 'b) manager_env \<Rightarrow> string \<Rightarrow> ('r, 'l, 'x, 'b, unit) manager_py" where
  "manager_release env i =
     (case me_lock env of None \<Rightarrow> py_return () | Some l \<Rightarrow> py_on mw_lock (\<lambda>s w. w\<lparr>mw_lock := s\<rparr>) (lo_release l i))"

text \<open>The registered object, or \<open>WorkspaceNotFoundError\<close>; and a method of it, which mutates it in the registry.\<close>

definition manager_find :: "('r, 'l, 'x, 'b) manager_env \<Rightarrow> string \<Rightarrow> ('r, 'l, 'x, 'b, workspace_agg) manager_py" where
  "manager_find env i =
     py_bind (py_read (\<lambda>w. wg_find (me_registry env) (mw_registry w) i)) (\<lambda>found.
     case found of
       None \<Rightarrow> py_raise WorkspaceNotFoundError (''Workspace '' @ quoted i @ '' not found'')
     | Some ws \<Rightarrow> py_return ws)"

definition call_workspace :: "('r, 'l, 'x, 'b) manager_env \<Rightarrow> (workspace_agg, unit) py \<Rightarrow> workspace_agg \<Rightarrow> ('r, 'l, 'x, 'b, workspace_agg) manager_py" where
  "call_workspace env m ws =
     py_bind (py_modify (\<lambda>w. w\<lparr>mw_registry := wg_mutated (me_registry env) (snd (m ws)) (mw_registry w)\<rparr>)) (\<lambda>_.
     py_bind (py_lift (fst (m ws))) (\<lambda>_. py_return (snd (m ws))))"

definition manager_create ::
    "('r, 'l, 'x, 'b) manager_env \<Rightarrow> string \<Rightarrow> string \<Rightarrow> string \<Rightarrow> string \<Rightarrow> string \<Rightarrow> ('r, 'l, 'x, 'b, workspace_agg) manager_py" where
  "manager_create env name description owner_id language jurisdiction =
     py_bind (on_sources (wx_create (me_sources env) name description owner_id language jurisdiction)) (\<lambda>ws.
     py_bind (on_registry (wg_register (me_registry env) ws)) (\<lambda>_.
     py_bind (manager_publish env (WorkspaceCreated (wa_id ws) (wa_name ws))) (\<lambda>_. py_return ws)))"

text \<open>What follows the acquisition in \<open>open_workspace\<close>.\<close>

definition load_and_open :: "('r, 'l, 'x, 'b) manager_env \<Rightarrow> string \<Rightarrow> ('r, 'l, 'x, 'b, workspace_agg) manager_py" where
  "load_and_open env i =
     py_bind (on_sources (wx_load (me_sources env) i)) (\<lambda>ws.
     py_bind (py_lift (fst (agg_open ws))) (\<lambda>_.
     let ws = snd (agg_open ws) in
     py_bind (on_registry (wg_register (me_registry env) ws)) (\<lambda>_.
     py_bind (manager_publish env (WorkspaceOpened (wa_id ws))) (\<lambda>_. py_return ws))))"

definition manager_open ::
    "('r, 'l, 'x, 'b) manager_env \<Rightarrow> string \<Rightarrow> ('r, 'l, 'x, 'b) manager_world \<Rightarrow> ((exn + workspace_agg) \<times> ('r, 'l, 'x, 'b) manager_world) option" where
  "manager_open env i w =
     (if wg_find (me_registry env) (mw_registry w) i \<noteq> None then
        Some (Inl (Exn WorkspaceAlreadyOpenError (''Workspace '' @ quoted i @ '' is already open'')), w)
      else case me_lock env of
        None \<Rightarrow> Some (load_and_open env i w)
      | Some l \<Rightarrow>
          (case lo_acquire l i (mw_lock w) of
             None \<Rightarrow> None
           | Some (Inl e, s) \<Rightarrow> Some (Inl e, w\<lparr>mw_lock := s\<rparr>)
           | Some (Inr acquired, s) \<Rightarrow>
               if \<not> acquired then
                 Some (Inl (Exn WorkspaceLockError (''Cannot lock workspace '' @ quoted i @ '': could not acquire lock'')), w\<lparr>mw_lock := s\<rparr>)
               else Some (load_and_open env i (w\<lparr>mw_lock := s\<rparr>))))"

definition manager_close :: "('r, 'l, 'x, 'b) manager_env \<Rightarrow> string \<Rightarrow> ('r, 'l, 'x, 'b, unit) manager_py" where
  "manager_close env i =
     py_bind (manager_find env i) (\<lambda>ws.
     py_bind (call_workspace env agg_close ws) (\<lambda>ws.
     py_bind (on_registry (wg_unregister (me_registry env) i)) (\<lambda>_.
     py_bind (manager_release env i) (\<lambda>_.
     manager_publish env (WorkspaceClosed (wa_id ws))))))"

definition manager_archive :: "('r, 'l, 'x, 'b) manager_env \<Rightarrow> string \<Rightarrow> ('r, 'l, 'x, 'b, unit) manager_py" where
  "manager_archive env i =
     py_bind (manager_find env i) (\<lambda>ws.
     py_bind (call_workspace env agg_archive ws) (\<lambda>ws.
     py_bind (on_registry (wg_unregister (me_registry env) i)) (\<lambda>_.
     py_bind (manager_release env i) (\<lambda>_.
     manager_publish env (WorkspaceArchived (wa_id ws))))))"

definition manager_delete :: "('r, 'l, 'x, 'b) manager_env \<Rightarrow> string \<Rightarrow> ('r, 'l, 'x, 'b, unit) manager_py" where
  "manager_delete env i =
     py_bind (py_read (\<lambda>w. wg_find (me_registry env) (mw_registry w) i)) (\<lambda>found.
     py_bind (case found of
         None \<Rightarrow> py_return ()
       | Some _ \<Rightarrow> py_bind (on_registry (wg_unregister (me_registry env) i)) (\<lambda>_. manager_release env i)) (\<lambda>_.
     manager_publish env (WorkspaceDeleted i)))"

definition manager_validate :: "('r, 'l, 'x, 'b) manager_env \<Rightarrow> string \<Rightarrow> ('r, 'l, 'x, 'b, string list) manager_py" where
  "manager_validate env i =
     py_bind (manager_find env i) (\<lambda>ws.
     let result = agg_validate_manifest ws None in
     py_bind (if \<not> wm_is_valid result then manager_publish env (WorkspaceValidationFailed (wa_id ws) (wm_errors result)) else py_return ()) (\<lambda>_.
     py_return (wm_errors result)))"

definition manager_migrate :: "('r, 'l, 'x, 'b) manager_env \<Rightarrow> string \<Rightarrow> string \<Rightarrow> ('r, 'l, 'x, 'b, unit) manager_py" where
  "manager_migrate env i to_version =
     py_bind (manager_find env i) (\<lambda>ws.
     let from_version = wa_version ws in
     py_bind (call_workspace env (py_modify (\<lambda>w. w\<lparr>wa_version := to_version\<rparr>)) ws) (\<lambda>ws.
     manager_publish env (WorkspaceMigrated (wa_id ws) from_version to_version)))"

definition manager_get :: "('r, 'l, 'x, 'b) manager_env \<Rightarrow> ('r, 'l, 'x, 'b) manager_world \<Rightarrow> string \<Rightarrow> workspace_agg option" where
  "manager_get env w i = wg_find (me_registry env) (mw_registry w) i"

definition manager_list_open :: "('r, 'l, 'x, 'b) manager_env \<Rightarrow> ('r, 'l, 'x, 'b) manager_world \<Rightarrow> workspace_agg list" where
  "manager_list_open env w = wg_list (me_registry env) (mw_registry w)"

section \<open>What the manager relies on\<close>

locale workspace_mutex =
  fixes L :: "'l lock_ops"
    and locked :: "'l \<Rightarrow> string set"
  assumes acquire_free: "i \<notin> locked s \<Longrightarrow> \<exists>s'. lo_acquire L i s = Some (Inr True, s') \<and> locked s' = insert i (locked s)"
    and acquire_held: "i \<in> locked s \<Longrightarrow> lo_acquire L i s = None"
    and release_held: "i \<in> locked s \<Longrightarrow> \<exists>s'. lo_release L i s = (Inr (), s') \<and> locked s' = locked s - {i}"
    and release_free: "i \<notin> locked s \<Longrightarrow> locked (snd (lo_release L i s)) = locked s"

definition locked_ids :: "lock_state \<Rightarrow> string set" where
  "locked_ids s = {i. dict_get (lk_locks s) i = Some True}"

interpretation process_lock: workspace_mutex "single_process_lock owner" locked_ids for owner
proof
  fix i s
  show "i \<notin> locked_ids s \<Longrightarrow> \<exists>s'. lo_acquire (single_process_lock owner) i s = Some (Inr True, s') \<and> locked_ids s' = insert i (locked_ids s)"
    by (auto simp: single_process_lock_def lock_acquire_def locked_ids_def dict_has_def Let_def)
  show "i \<in> locked_ids s \<Longrightarrow> lo_acquire (single_process_lock owner) i s = None"
    by (simp add: single_process_lock_def lock_acquire_def locked_ids_def dict_has_def)
  show "i \<in> locked_ids s \<Longrightarrow> \<exists>s'. lo_release (single_process_lock owner) i s = (Inr (), s') \<and> locked_ids s' = locked_ids s - {i}"
    by (auto simp: single_process_lock_def lock_release_def locked_ids_def Let_def)
  show "i \<notin> locked_ids s \<Longrightarrow> locked_ids (snd (lo_release (single_process_lock owner) i s)) = locked_ids s"
    by (auto simp: single_process_lock_def lock_release_def locked_ids_def Let_def split: option.split)
qed

locale open_registry =
  fixes R :: "'r workspace_registry"
    and rok :: "'r \<Rightarrow> bool"
  assumes register_adds: "rok r \<Longrightarrow> \<exists>r'. wg_register R ws r = (Inr (), r') \<and> rok r' \<and> wg_find R r' = (wg_find R r)(wa_id ws := Some ws)"
    and unregister_removes: "rok r \<Longrightarrow> \<exists>r'. wg_unregister R i r = (Inr (), r') \<and> rok r' \<and> wg_find R r' = (wg_find R r)(i := None)"
    and mutated_same: "rok r \<Longrightarrow> wg_find R r (wa_id a) \<noteq> None \<Longrightarrow> rok (wg_mutated R a r) \<and> wg_find R (wg_mutated R a r) = (wg_find R r)(wa_id a := Some a)"
    and find_keyed: "rok r \<Longrightarrow> wg_find R r i = Some ws \<Longrightarrow> wa_id ws = i"
    and list_found: "rok r \<Longrightarrow> set (wg_list R r) = ran (wg_find R r)"

text \<open>A registry in a dictionary.\<close>

definition dict_registry :: "(string, workspace_agg) dict workspace_registry" where
  "dict_registry =
     \<lparr>wg_register = (\<lambda>ws. py_modify (dict_set (wa_id ws) ws)), wg_unregister = (\<lambda>i. py_modify (dict_pop i)), wg_find = dict_get,
      wg_list = dict_values, wg_mutated = (\<lambda>a. dict_set (wa_id a) a)\<rparr>"

definition dict_registry_ok :: "(string, workspace_agg) dict \<Rightarrow> bool" where
  "dict_registry_ok d = (dict_wf d \<and> (\<forall>i ws. dict_get d i = Some ws \<longrightarrow> wa_id ws = i))"

interpretation dict_registry: open_registry dict_registry dict_registry_ok
proof
  fix r ws a i
  show "dict_registry_ok r \<Longrightarrow> \<exists>r'. wg_register dict_registry ws r = (Inr (), r') \<and> dict_registry_ok r' \<and>
      wg_find dict_registry r' = (wg_find dict_registry r)(wa_id ws := Some ws)"
    by (auto simp: dict_registry_def dict_registry_ok_def fun_eq_iff)
  show "dict_registry_ok r \<Longrightarrow> \<exists>r'. wg_unregister dict_registry i r = (Inr (), r') \<and> dict_registry_ok r' \<and>
      wg_find dict_registry r' = (wg_find dict_registry r)(i := None)"
    by (auto simp: dict_registry_def dict_registry_ok_def fun_eq_iff split: if_splits)
  show "dict_registry_ok r \<Longrightarrow> wg_find dict_registry r (wa_id a) \<noteq> None \<Longrightarrow> dict_registry_ok (wg_mutated dict_registry a r) \<and>
      wg_find dict_registry (wg_mutated dict_registry a r) = (wg_find dict_registry r)(wa_id a := Some a)"
    by (auto simp: dict_registry_def dict_registry_ok_def fun_eq_iff)
  show "dict_registry_ok r \<Longrightarrow> wg_find dict_registry r i = Some ws \<Longrightarrow> wa_id ws = i"
    by (simp add: dict_registry_ok_def dict_registry_def)
  show "dict_registry_ok r \<Longrightarrow> set (wg_list dict_registry r) = ran (wg_find dict_registry r)"
    by (simp add: dict_registry_def dict_registry_ok_def dict_wf_def ran_distinct)
qed

lemma on_registry_app [simp]: "on_registry m w = (fst (m (mw_registry w)), w\<lparr>mw_registry := snd (m (mw_registry w))\<rparr>)"
  by (simp add: on_registry_def)

lemma on_sources_app [simp]: "on_sources m w = (fst (m (mw_sources w)), w\<lparr>mw_sources := snd (m (mw_sources w))\<rparr>)"
  by (simp add: on_sources_def)

definition records_manager :: "('r, 'l, 'x, workspace_event list) manager_env \<Rightarrow> bool" where
  "records_manager env = (me_bus env = Some (\<lambda>e. py_modify (\<lambda>es. es @ [e])))"

lemma manager_publish_recorded: "records_manager env \<Longrightarrow> manager_publish env e w = (Inr (), w\<lparr>mw_sink := mw_sink w @ [e]\<rparr>)"
  by (simp add: manager_publish_def records_manager_def)

locale managed_workspaces = open_registry R rok + workspace_mutex L locked
  for R :: "'r workspace_registry" and rok and L :: "'l lock_ops" and locked
begin

definition wired_manager :: "('r, 'l, 'x, workspace_event list) manager_env \<Rightarrow> bool" where
  "wired_manager env = (me_registry env = R \<and> me_lock env = Some L \<and> records_manager env)"

lemma wiredD: "wired_manager env \<Longrightarrow> me_registry env = R" "wired_manager env \<Longrightarrow> me_lock env = Some L" "wired_manager env \<Longrightarrow> records_manager env"
  by (simp_all add: wired_manager_def)

lemma load_and_open_app:
  assumes "wired_manager env" and "rok (mw_registry w)"
  shows "case wx_load (me_sources env) i (mw_sources w) of
    (Inl e, x) \<Rightarrow> load_and_open env i w = (Inl e, w\<lparr>mw_sources := x\<rparr>)
  | (Inr ws, x) \<Rightarrow>
      if can_transition_workspace (wa_status ws) WS_OPEN then
        \<exists>w'. load_and_open env i w = (Inr (ws\<lparr>wa_status := WS_OPEN\<rparr>), w') \<and> rok (mw_registry w') \<and> mw_lock w' = mw_lock w \<and>
          wg_find R (mw_registry w') = (wg_find R (mw_registry w))(wa_id ws := Some (ws\<lparr>wa_status := WS_OPEN\<rparr>)) \<and>
          mw_sink w' = mw_sink w @ [WorkspaceOpened (wa_id ws)]
      else load_and_open env i w = (Inl (transition_error (wa_id ws) (wa_status ws) WS_OPEN), w\<lparr>mw_sources := x\<rparr>)"
proof -
  obtain res x where load: "wx_load (me_sources env) i (mw_sources w) = (res, x)" by fastforce
  show ?thesis
  proof (cases res)
    case (Inl e)
    then show ?thesis by (simp add: load load_and_open_def py_bind_split)
  next
    case (Inr ws)
    show ?thesis
    proof (cases "can_transition_workspace (wa_status ws) WS_OPEN")
      case True
      let ?ws = "ws\<lparr>wa_status := WS_OPEN\<rparr>"
      obtain r' where "wg_register R ?ws (mw_registry w) = (Inr (), r')" "rok r'" "wg_find R r' = (wg_find R (mw_registry w))(wa_id ws := Some ?ws)"
        using register_adds [OF assms(2), of ?ws] by auto
      then show ?thesis using True Inr
        by (simp add: load load_and_open_def py_bind_split agg_open_def agg_transition_cases wiredD(1) [OF assms(1)] Let_def
          manager_publish_recorded [OF wiredD(3) [OF assms(1)]])
    next
      case False
      then show ?thesis using Inr by (simp add: load load_and_open_def py_bind_split agg_open_def agg_transition_cases)
    qed
  qed
qed

lemma open_outcome:
  assumes "wired_manager env" and "rok (mw_registry w)"
  shows "if wg_find R (mw_registry w) i \<noteq> None then
      \<exists>msg. manager_open env i w = Some (Inl (Exn WorkspaceAlreadyOpenError msg), w)
    else if i \<in> locked (mw_lock w) then manager_open env i w = None
    else \<exists>res w'. manager_open env i w = Some (res, w') \<and> i \<in> locked (mw_lock w') \<and> rok (mw_registry w') \<and>
      (case wx_load (me_sources env) i (mw_sources w) of
         (Inl e, _) \<Rightarrow> res = Inl e \<and> mw_registry w' = mw_registry w \<and> mw_sink w' = mw_sink w
       | (Inr ws, _) \<Rightarrow>
           if can_transition_workspace (wa_status ws) WS_OPEN then
             res = Inr (ws\<lparr>wa_status := WS_OPEN\<rparr>) \<and> mw_sink w' = mw_sink w @ [WorkspaceOpened (wa_id ws)] \<and>
             wg_find R (mw_registry w') = (wg_find R (mw_registry w))(wa_id ws := Some (ws\<lparr>wa_status := WS_OPEN\<rparr>))
           else res = Inl (transition_error (wa_id ws) (wa_status ws) WS_OPEN) \<and> mw_registry w' = mw_registry w \<and> mw_sink w' = mw_sink w)"
proof (cases "wg_find R (mw_registry w) i")
  case (Some ws)
  then show ?thesis by (simp add: manager_open_def wiredD(1) [OF assms(1)])
next
  case None
  show ?thesis
  proof (cases "i \<in> locked (mw_lock w)")
    case True
    then show ?thesis using None acquire_held by (simp add: manager_open_def wiredD(1,2) [OF assms(1)])
  next
    case False
    then obtain s where s: "lo_acquire L i (mw_lock w) = Some (Inr True, s)" "locked s = insert i (locked (mw_lock w))" using acquire_free by blast
    let ?w = "w\<lparr>mw_lock := s\<rparr>"
    have run: "manager_open env i w = Some (load_and_open env i ?w)" using None s(1) by (simp add: manager_open_def wiredD(1,2) [OF assms(1)])
    have "rok (mw_registry ?w)" using assms(2) by simp
    from load_and_open_app [OF assms(1) this, of i] show ?thesis
      unfolding run using None False s(2) assms(2)
      by (cases "wx_load (me_sources env) i (mw_sources w)") (auto split: sum.splits if_splits)
  qed
qed

lemma close_outcome:
  assumes "wired_manager env" and "rok (mw_registry w)" and "wg_find R (mw_registry w) i = Some ws"
  shows "if can_transition_workspace (wa_status ws) WS_CLOSED then
      i \<in> locked (mw_lock w) \<longrightarrow>
      (\<exists>w'. manager_close env i w = (Inr (), w') \<and> rok (mw_registry w') \<and> wg_find R (mw_registry w') = (wg_find R (mw_registry w))(i := None) \<and>
        locked (mw_lock w') = locked (mw_lock w) - {i} \<and> mw_sink w' = mw_sink w @ [WorkspaceClosed i])
    else \<exists>w'. manager_close env i w = (Inl (transition_error i (wa_status ws) WS_CLOSED), w') \<and> rok (mw_registry w') \<and>
      wg_find R (mw_registry w') = wg_find R (mw_registry w) \<and> mw_lock w' = mw_lock w \<and> mw_sink w' = mw_sink w"
proof -
  have ws: "wa_id ws = i" using find_keyed assms(2,3) by blast
  show ?thesis
  proof (cases "can_transition_workspace (wa_status ws) WS_CLOSED")
    case True
    let ?ws = "ws\<lparr>wa_status := WS_CLOSED\<rparr>" and ?r = "wg_mutated R (ws\<lparr>wa_status := WS_CLOSED\<rparr>) (mw_registry w)"
    have r: "rok ?r" "wg_find R ?r = (wg_find R (mw_registry w))(i := Some ?ws)"
      using mutated_same [OF assms(2), of ?ws] assms(3) ws by auto
    obtain r' where r': "wg_unregister R i ?r = (Inr (), r')" "rok r'" "wg_find R r' = (wg_find R (mw_registry w))(i := None)"
      using unregister_removes [OF r(1), of i] r(2) by auto
    have "\<exists>w'. manager_close env i w = (Inr (), w') \<and> rok (mw_registry w') \<and> wg_find R (mw_registry w') = (wg_find R (mw_registry w))(i := None) \<and>
        locked (mw_lock w') = locked (mw_lock w) - {i} \<and> mw_sink w' = mw_sink w @ [WorkspaceClosed i]" if held: "i \<in> locked (mw_lock w)"
    proof -
      obtain s where "lo_release L i (mw_lock w) = (Inr (), s)" "locked s = locked (mw_lock w) - {i}" using release_held [OF held] by blast
      then show ?thesis using r' assms(3) True ws
        by (simp add: manager_close_def manager_find_def call_workspace_def py_bind_split wiredD(1) [OF assms(1)] agg_close_def agg_transition_cases
          manager_release_def wiredD(2) [OF assms(1)] manager_publish_recorded [OF wiredD(3) [OF assms(1)]])
    qed
    with True show ?thesis by simp
  next
    case False
    have "rok (wg_mutated R ws (mw_registry w))" "wg_find R (wg_mutated R ws (mw_registry w)) = wg_find R (mw_registry w)"
      using mutated_same [OF assms(2), of ws] assms(3) ws by auto
    then show ?thesis using False assms(3) ws
      by (simp add: manager_close_def manager_find_def call_workspace_def py_bind_split wiredD(1) [OF assms(1)] agg_close_def agg_transition_cases)
  qed
qed

lemma archive_refused:
  assumes "wired_manager env" and "rok (mw_registry w)" and "wg_find R (mw_registry w) i = Some ws" and "wa_status ws \<noteq> WS_CLOSED"
  shows "\<exists>w'. manager_archive env i w = (Inl (transition_error i (wa_status ws) WS_ARCHIVED), w') \<and> rok (mw_registry w') \<and>
    wg_find R (mw_registry w') = wg_find R (mw_registry w) \<and> mw_lock w' = mw_lock w \<and> mw_sink w' = mw_sink w"
proof -
  have ws: "wa_id ws = i" using find_keyed assms(2,3) by blast
  have "\<not> can_transition_workspace (wa_status ws) WS_ARCHIVED" using assms(4) by (cases "wa_status ws") (simp_all add: can_transition_workspace_def)
  moreover have "rok (wg_mutated R ws (mw_registry w))" "wg_find R (wg_mutated R ws (mw_registry w)) = wg_find R (mw_registry w)"
    using mutated_same [OF assms(2), of ws] assms(3) ws by auto
  ultimately show ?thesis using assms(3) ws
    by (simp add: manager_archive_def manager_find_def call_workspace_def py_bind_split wiredD(1) [OF assms(1)] agg_archive_def agg_transition_cases)
qed

end

section \<open>Runs of the manager\<close>

text \<open>A step is a call that returns, with a result or an exception.\<close>

inductive manager_step :: "('r, 'l, 'x, 'b) manager_env \<Rightarrow> ('r, 'l, 'x, 'b) manager_world \<Rightarrow> ('r, 'l, 'x, 'b) manager_world \<Rightarrow> bool" for env where
  created: "manager_create env name description owner_id language jurisdiction w = (res, w') \<Longrightarrow> manager_step env w w'"
| opened: "manager_open env i w = Some (res, w') \<Longrightarrow> manager_step env w w'"
| closed: "manager_close env i w = (done, w') \<Longrightarrow> manager_step env w w'"
| archived: "manager_archive env i w = (done, w') \<Longrightarrow> manager_step env w w'"
| deleted: "manager_delete env i w = (done, w') \<Longrightarrow> manager_step env w w'"
| validated: "manager_validate env i w = (errors, w') \<Longrightarrow> manager_step env w w'"
| migrated: "manager_migrate env i version w = (done, w') \<Longrightarrow> manager_step env w w'"

inductive_cases manager_stepE: "manager_step env w w'"

text \<open>The documented behaviour of the factory.\<close>

definition creates_in_created :: "'x workspace_sources \<Rightarrow> bool" where
  "creates_in_created X = (\<forall>name d own lang jur x ws x'. wx_create X name d own lang jur x = (Inr ws, x') \<longrightarrow> wa_status ws = WS_CREATED)"

context managed_workspaces
begin

text \<open>No workspace the manager holds is closed or archived.\<close>

definition fresh_or_open :: "('r, 'l, 'x, 'b) manager_world \<Rightarrow> bool" where
  "fresh_or_open w = (rok (mw_registry w) \<and> (\<forall>i ws. wg_find R (mw_registry w) i = Some ws \<longrightarrow> wa_status ws \<in> {WS_CREATED, WS_OPEN}))"

lemma fresh_upd:
  assumes "fresh_or_open w" and "rok (mw_registry w')" and "wg_find R (mw_registry w') = (wg_find R (mw_registry w))(i := x)"
    and "x = None \<or> (\<exists>ws. x = Some ws \<and> wa_status ws \<in> {WS_CREATED, WS_OPEN})"
  shows "fresh_or_open w'"
  using assms unfolding fresh_or_open_def by (auto split: if_splits)

lemma fresh_same: "fresh_or_open w \<Longrightarrow> rok (mw_registry w') \<Longrightarrow> wg_find R (mw_registry w') = wg_find R (mw_registry w) \<Longrightarrow> fresh_or_open w'"
  by (simp add: fresh_or_open_def)

lemma publish_registry: "wired_manager env \<Longrightarrow> mw_registry (snd (manager_publish env e w)) = mw_registry w"
  by (simp add: manager_publish_recorded [OF wiredD(3)])

lemma release_registry [simp]: "mw_registry (snd (manager_release env i w)) = mw_registry w"
  by (simp add: manager_release_def split: option.split)

lemma missing_same:
  assumes "me_registry env = R" and "wg_find R (mw_registry w) i = None"
  shows "snd (manager_close env i w) = w" "snd (manager_archive env i w) = w" "snd (manager_validate env i w) = w" "snd (manager_migrate env i v w) = w"
  using assms by (simp_all add: manager_close_def manager_archive_def manager_validate_def manager_migrate_def manager_find_def py_bind_split)

lemma close_fresh:
  assumes "wired_manager env" and "fresh_or_open w"
  shows "fresh_or_open (snd (manager_close env i w))"
proof (cases "wg_find R (mw_registry w) i")
  case None
  then show ?thesis using missing_same [OF wiredD(1) [OF assms(1)]] assms(2) by simp
next
  case (Some ws)
  have ok: "rok (mw_registry w)" using assms(2) by (simp add: fresh_or_open_def)
  have ws: "wa_id ws = i" using find_keyed [OF ok Some] .
  show ?thesis
  proof (cases "can_transition_workspace (wa_status ws) WS_CLOSED")
    case True
    let ?ws = "ws\<lparr>wa_status := WS_CLOSED\<rparr>" and ?r = "wg_mutated R (ws\<lparr>wa_status := WS_CLOSED\<rparr>) (mw_registry w)"
    have r: "rok ?r" "wg_find R ?r = (wg_find R (mw_registry w))(i := Some ?ws)" using mutated_same [OF ok, of ?ws] Some ws by auto
    obtain r' where r': "wg_unregister R i ?r = (Inr (), r')" "rok r'" "wg_find R r' = (wg_find R (mw_registry w))(i := None)"
      using unregister_removes [OF r(1), of i] r(2) by auto
    have "mw_registry (snd (manager_close env i w)) = r'"
      using Some True r'(1)
      by (simp add: manager_close_def manager_find_def call_workspace_def py_bind_split wiredD(1) [OF assms(1)] agg_close_def agg_transition_cases
          publish_registry [OF assms(1)] split: sum.split)
    then show ?thesis using r'(2,3) by (intro fresh_upd [OF assms(2), where x = None and i = i]) simp_all
  next
    case False
    then obtain w' where "manager_close env i w = (Inl (transition_error i (wa_status ws) WS_CLOSED), w')" "rok (mw_registry w')"
        "wg_find R (mw_registry w') = wg_find R (mw_registry w)" using close_outcome [OF assms(1) ok Some] by auto
    then show ?thesis using fresh_same [OF assms(2)] by simp
  qed
qed

lemma archive_same:
  assumes "wired_manager env" and "fresh_or_open w"
  shows "\<exists>e w'. manager_archive env i w = (Inl e, w') \<and> fresh_or_open w' \<and> wg_find R (mw_registry w') = wg_find R (mw_registry w) \<and>
    mw_lock w' = mw_lock w \<and> mw_sink w' = mw_sink w"
proof (cases "wg_find R (mw_registry w) i")
  case None
  then show ?thesis using assms(2) by (simp add: manager_archive_def manager_find_def py_bind_split wiredD(1) [OF assms(1)])
next
  case (Some ws)
  have "wa_status ws \<in> {WS_CREATED, WS_OPEN}" using assms(2) Some unfolding fresh_or_open_def by blast
  then have ok: "rok (mw_registry w)" "wa_status ws \<noteq> WS_CLOSED" using assms(2) by (auto simp: fresh_or_open_def)
  from archive_refused [OF assms(1) ok(1) Some ok(2)] show ?thesis using fresh_same [OF assms(2)] by blast
qed

lemma create_fresh:
  assumes "wired_manager env" and "creates_in_created (me_sources env)" and "fresh_or_open w"
  shows "fresh_or_open (snd (manager_create env name d own lang jur w))"
proof -
  have ok: "rok (mw_registry w)" using assms(3) by (simp add: fresh_or_open_def)
  obtain r x where c: "wx_create (me_sources env) name d own lang jur (mw_sources w) = (r, x)" by fastforce
  show ?thesis
  proof (cases r)
    case (Inl e)
    then have "snd (manager_create env name d own lang jur w) = w\<lparr>mw_sources := x\<rparr>" using c by (simp add: manager_create_def py_bind_split)
    then show ?thesis using assms(3) by (simp add: fresh_or_open_def)
  next
    case (Inr ws)
    then have st: "wa_status ws = WS_CREATED" using assms(2) c unfolding creates_in_created_def by blast
    obtain r' where r': "wg_register R ws (mw_registry w) = (Inr (), r')" "rok r'" "wg_find R r' = (wg_find R (mw_registry w))(wa_id ws := Some ws)"
      using register_adds [OF ok] by blast
    have "mw_registry (snd (manager_create env name d own lang jur w)) = r'" using c Inr r'(1)
      by (simp add: manager_create_def py_bind_split wiredD(1) [OF assms(1)] manager_publish_recorded [OF wiredD(3) [OF assms(1)]])
    then show ?thesis using r'(2,3) st by (intro fresh_upd [OF assms(3), where x = "Some ws" and i = "wa_id ws"]) simp_all
  qed
qed

lemma open_fresh:
  assumes "wired_manager env" and "fresh_or_open w" and "manager_open env i w = Some (res, w')"
  shows "fresh_or_open w'"
proof -
  have ok: "rok (mw_registry w)" using assms(2) by (simp add: fresh_or_open_def)
  note out = open_outcome [OF assms(1) ok, of i]
  show ?thesis
  proof (cases "wg_find R (mw_registry w) i \<noteq> None \<or> i \<in> locked (mw_lock w)")
    case True
    then show ?thesis using out assms(2,3) by (auto split: if_splits)
  next
    case False
    obtain r x where l: "wx_load (me_sources env) i (mw_sources w) = (r, x)" by fastforce
    from False out assms(3) have reg: "rok (mw_registry w')"
      "case r of Inl e \<Rightarrow> mw_registry w' = mw_registry w
       | Inr ws \<Rightarrow> if can_transition_workspace (wa_status ws) WS_OPEN then
           wg_find R (mw_registry w') = (wg_find R (mw_registry w))(wa_id ws := Some (ws\<lparr>wa_status := WS_OPEN\<rparr>))
         else mw_registry w' = mw_registry w"
      by (auto simp: l split: sum.splits if_splits)
    show ?thesis
    proof (cases "\<exists>ws. r = Inr ws \<and> can_transition_workspace (wa_status ws) WS_OPEN")
      case True
      then obtain ws where ws: "r = Inr ws" "can_transition_workspace (wa_status ws) WS_OPEN" by blast
      then show ?thesis using reg by (intro fresh_upd [OF assms(2), where x = "Some (ws\<lparr>wa_status := WS_OPEN\<rparr>)" and i = "wa_id ws"]) simp_all
    next
      case False
      then have "mw_registry w' = mw_registry w" using reg(2) by (cases r) (auto split: if_splits)
      then show ?thesis using reg(1) by (intro fresh_same [OF assms(2)]) simp_all
    qed
  qed
qed

lemma delete_fresh:
  assumes "wired_manager env" and "fresh_or_open w"
  shows "fresh_or_open (snd (manager_delete env i w))"
proof (cases "wg_find R (mw_registry w) i")
  case None
  then have "mw_registry (snd (manager_delete env i w)) = mw_registry w"
    by (simp add: manager_delete_def py_bind_split wiredD(1) [OF assms(1)] manager_publish_recorded [OF wiredD(3) [OF assms(1)]])
  then show ?thesis using assms(2) by (simp add: fresh_or_open_def)
next
  case (Some ws)
  have "rok (mw_registry w)" using assms(2) by (simp add: fresh_or_open_def)
  from unregister_removes [OF this, of i]
  obtain r' where r': "wg_unregister R i (mw_registry w) = (Inr (), r')" "rok r'" "wg_find R r' = (wg_find R (mw_registry w))(i := None)" by blast
  have "mw_registry (snd (manager_delete env i w)) = r'" using Some r'(1)
    by (simp add: manager_delete_def py_bind_split wiredD(1) [OF assms(1)] publish_registry [OF assms(1)] split: sum.split)
  then show ?thesis using r'(2,3) by (intro fresh_upd [OF assms(2), where x = None and i = i]) simp_all
qed

lemma validate_fresh:
  assumes "wired_manager env" and "fresh_or_open w"
  shows "fresh_or_open (snd (manager_validate env i w))"
proof -
  have "mw_registry (snd (manager_validate env i w)) = mw_registry w"
    by (simp add: manager_validate_def manager_find_def py_bind_split wiredD(1) [OF assms(1)] Let_def publish_registry [OF assms(1)] split: option.split sum.split)
  then show ?thesis using assms(2) by (simp add: fresh_or_open_def)
qed

lemma migrate_fresh:
  assumes "wired_manager env" and "fresh_or_open w"
  shows "fresh_or_open (snd (manager_migrate env i version w))"
proof (cases "wg_find R (mw_registry w) i")
  case None
  then show ?thesis using missing_same(4) [OF wiredD(1) [OF assms(1)], of w i version] assms(2) by simp
next
  case (Some ws)
  let ?ws = "ws\<lparr>wa_version := version\<rparr>"
  have ok: "rok (mw_registry w)" "wa_status ws \<in> {WS_CREATED, WS_OPEN}" using assms(2) Some unfolding fresh_or_open_def by blast+
  have "wa_id ws = i" using find_keyed [OF ok(1) Some] .
  then have r: "rok (wg_mutated R ?ws (mw_registry w))" "wg_find R (wg_mutated R ?ws (mw_registry w)) = (wg_find R (mw_registry w))(i := Some ?ws)"
    using mutated_same [OF ok(1), of ?ws] Some by auto
  have "mw_registry (snd (manager_migrate env i version w)) = wg_mutated R ?ws (mw_registry w)"
    using Some by (simp add: manager_migrate_def manager_find_def call_workspace_def py_bind_split wiredD(1) [OF assms(1)] Let_def publish_registry [OF assms(1)])
  then show ?thesis using r ok(2) by (intro fresh_upd [OF assms(2), where x = "Some ?ws" and i = i]) simp_all
qed

lemma step_fresh:
  assumes "wired_manager env" and "creates_in_created (me_sources env)" and "manager_step env w w'" and "fresh_or_open w"
  shows "fresh_or_open w'"
  using assms(3)
proof (rule manager_stepE)
  fix name d own lang jur res assume "manager_create env name d own lang jur w = (res, w')"
  then show ?thesis using create_fresh [OF assms(1,2,4), of name d own lang jur] by simp
next
  fix i res assume "manager_open env i w = Some (res, w')"
  then show ?thesis by (rule open_fresh [OF assms(1,4)])
next
  fix i res assume "manager_close env i w = (res, w')"
  then show ?thesis using close_fresh [OF assms(1,4), of i] by simp
next
  fix i res assume "manager_archive env i w = (res, w')"
  then show ?thesis using archive_same [OF assms(1,4), of i] by auto
next
  fix i res assume "manager_delete env i w = (res, w')"
  then show ?thesis using delete_fresh [OF assms(1,4), of i] by simp
next
  fix i res assume "manager_validate env i w = (res, w')"
  then show ?thesis using validate_fresh [OF assms(1,4), of i] by simp
next
  fix i version res assume "manager_migrate env i version w = (res, w')"
  then show ?thesis using migrate_fresh [OF assms(1,4), of i version] by simp
qed

lemma reachable_fresh:
  assumes "wired_manager env" and "creates_in_created (me_sources env)" and "(manager_step env)\<^sup>*\<^sup>* w w'" and "fresh_or_open w"
  shows "fresh_or_open w'"
  using assms(3,4) by (induction rule: rtranclp_induct) (auto intro: step_fresh [OF assms(1,2)])

end

interpretation dict_spaces: managed_workspaces dict_registry dict_registry_ok "single_process_lock owner" locked_ids for owner
  by unfold_locales

section \<open>Properties\<close>

text \<open>C19: 
  Opening a workspace that is registered raises; one whose lock is held never returns; otherwise the lock
  is held from then on, and the workspace that was loaded is opened, registered and announced if its
  state allows it. If it cannot be loaded, or not be opened, that exception is raised and nothing is
  registered or announced.
\<close>

theorem manager_open_outcome:
  assumes "managed_workspaces R rok L locked" and "me_registry env = R" and "me_lock env = Some L" and "records_manager env"
    and "rok (mw_registry w)"
  shows "if wg_find R (mw_registry w) i \<noteq> None then
      \<exists>msg. manager_open env i w = Some (Inl (Exn WorkspaceAlreadyOpenError msg), w)
    else if i \<in> locked (mw_lock w) then manager_open env i w = None
    else \<exists>res w'. manager_open env i w = Some (res, w') \<and> i \<in> locked (mw_lock w') \<and> rok (mw_registry w') \<and>
      (case wx_load (me_sources env) i (mw_sources w) of
         (Inl e, _) \<Rightarrow> res = Inl e \<and> mw_registry w' = mw_registry w \<and> mw_sink w' = mw_sink w
       | (Inr ws, _) \<Rightarrow>
           if can_transition_workspace (wa_status ws) WS_OPEN then
             res = Inr (ws\<lparr>wa_status := WS_OPEN\<rparr>) \<and> mw_sink w' = mw_sink w @ [WorkspaceOpened (wa_id ws)] \<and>
             wg_find R (mw_registry w') = (wg_find R (mw_registry w))(wa_id ws := Some (ws\<lparr>wa_status := WS_OPEN\<rparr>))
           else res = Inl (transition_error (wa_id ws) (wa_status ws) WS_OPEN) \<and> mw_registry w' = mw_registry w \<and> mw_sink w' = mw_sink w)"
proof -
  have "managed_workspaces.wired_manager R L env" using assms(2-4) by (simp add: managed_workspaces.wired_manager_def [OF assms(1)])
  from managed_workspaces.open_outcome [OF assms(1) this assms(5), of i] show ?thesis .
qed

text \<open>C14: 
  The lock of a workspace that could not be loaded, or whose state does not allow it to be opened, is not
  given back: the next attempt to open it never returns.
\<close>

theorem manager_open_leaks_lock:
  assumes "managed_workspaces R rok L locked" and "me_registry env = R" and "me_lock env = Some L" and "records_manager env"
    and "rok (mw_registry w)" and "wg_find R (mw_registry w) i = None" and "i \<notin> locked (mw_lock w)"
    and "case fst (wx_load (me_sources env) i (mw_sources w)) of Inl _ \<Rightarrow> True | Inr ws \<Rightarrow> \<not> can_transition_workspace (wa_status ws) WS_OPEN"
  shows "\<exists>e w'. manager_open env i w = Some (Inl e, w') \<and> manager_open env i w' = None"
proof -
  have wired: "managed_workspaces.wired_manager R L env" using assms(2-4) by (simp add: managed_workspaces.wired_manager_def [OF assms(1)])
  note out = managed_workspaces.open_outcome [OF assms(1) wired]
  obtain r x where l: "wx_load (me_sources env) i (mw_sources w) = (r, x)" by fastforce
  from out [OF assms(5), of i] assms(6-8) obtain e w' where
    w': "manager_open env i w = Some (Inl e, w')" "i \<in> locked (mw_lock w')" "rok (mw_registry w')" "mw_registry w' = mw_registry w"
    by (auto simp: l split: sum.splits)
  have "manager_open env i w' = None" using out [OF w'(3), of i] w'(2,4) assms(6) by simp
  with w'(1) show ?thesis by blast
qed

text \<open>
  Through the manager alone no workspace can be archived: a workspace it holds is either new or open, and
  archiving is possible only from the closed state, which a workspace reaches exactly when the manager
  gives it up. And a workspace the manager has just created can be neither opened nor closed.
\<close>

theorem manager_archive_impossible:
  assumes "managed_workspaces R rok L locked" and "me_registry env = R" and "me_lock env = Some L" and "records_manager env"
    and "creates_in_created (me_sources env)" and "rok (mw_registry w0)" and "\<forall>i. wg_find R (mw_registry w0) i = None"
    and "(manager_step env)\<^sup>*\<^sup>* w0 w"
  shows "(\<exists>e w'. manager_archive env i w = (Inl e, w') \<and> wg_find R (mw_registry w') = wg_find R (mw_registry w) \<and>
      mw_lock w' = mw_lock w \<and> mw_sink w' = mw_sink w) \<and>
    (\<forall>ws w'. manager_create env name desc own lang jur w = (Inr ws, w') \<longrightarrow>
      (\<exists>msg. manager_open env (wa_id ws) w' = Some (Inl (Exn WorkspaceAlreadyOpenError msg), w')) \<and> isl (fst (manager_close env (wa_id ws) w')))"
proof -
  have wired: "managed_workspaces.wired_manager R L env" using assms(2-4) by (simp add: managed_workspaces.wired_manager_def [OF assms(1)])
  have "managed_workspaces.fresh_or_open R rok w0" using assms(6,7) by (simp add: managed_workspaces.fresh_or_open_def [OF assms(1)])
  from managed_workspaces.reachable_fresh [OF assms(1) wired assms(5,8) this]
  have fresh: "managed_workspaces.fresh_or_open R rok w" .
  have stuck: "(\<exists>msg. manager_open env (wa_id ws) w' = Some (Inl (Exn WorkspaceAlreadyOpenError msg), w')) \<and> isl (fst (manager_close env (wa_id ws) w'))"
    if c: "manager_create env name desc own lang jur w = (Inr ws, w')" for ws w'
  proof -
    have reg: "open_registry R rok" using assms(1) by (simp add: managed_workspaces_def)
    have ok: "rok (mw_registry w)" using fresh by (simp add: managed_workspaces.fresh_or_open_def [OF assms(1)])
    from c have st: "wa_status ws = WS_CREATED"
      using assms(5) unfolding creates_in_created_def manager_create_def
      by (auto simp: py_bind_split split: sum.splits) (metis prod.collapse)
    obtain r' where r': "wg_register R ws (mw_registry w) = (Inr (), r')" "rok r'" "wg_find R r' = (wg_find R (mw_registry w))(wa_id ws := Some ws)"
      using open_registry.register_adds [OF reg ok] by blast
    have w': "mw_registry w' = r'"
      using c r'(1) by (auto simp: manager_create_def py_bind_split assms(2) manager_publish_recorded [OF assms(4)] split: sum.splits)
    have found: "wg_find R (mw_registry w') (wa_id ws) = Some ws" "rok (mw_registry w')" using w' r' by simp_all
    then show ?thesis
      using managed_workspaces.open_outcome [OF assms(1) wired found(2), of "wa_id ws"]
        managed_workspaces.close_outcome [OF assms(1) wired found(2,1)] st
      by (auto simp: can_transition_workspace_def)
  qed
  then show ?thesis using managed_workspaces.archive_same [OF assms(1) wired fresh, of i] by blast
qed

section \<open>Witnesses\<close>

definition sample_agg :: "workspace_status \<Rightarrow> workspace_agg" where
  "sample_agg s = \<lparr>wa_id = ''1'', wa_name = ''Cases'', wa_description = [], wa_owner_id = [], wa_status = s, wa_metadata = None,
     wa_manifest = None, wa_version = ''1.0.0'', wa_tags = [], wa_language = ''ro'', wa_jurisdiction = [], wa_document_count = 0, wa_case_count = 0\<rparr>"

text \<open>A loader that knows one workspace, archived while it was active.\<close>

definition sample_manager_env :: "((string, workspace_agg) dict, lock_state, unit, workspace_event list) manager_env" where
  "sample_manager_env = \<lparr>me_registry = dict_registry,
     me_sources = \<lparr>wx_create = (\<lambda>name _ _ _ _. py_return ((sample_agg WS_CREATED)\<lparr>wa_name := name\<rparr>)), wx_load = (\<lambda>i. py_return (sample_agg WS_ACTIVE))\<rparr>,
     me_lock = Some (single_process_lock ''main''), me_bus = Some (\<lambda>e. py_modify (\<lambda>es. es @ [e]))\<rparr>"

definition sample_manager_world :: "((string, workspace_agg) dict, lock_state, unit, workspace_event list) manager_world" where
  "sample_manager_world = \<lparr>mw_registry = [], mw_lock = new_lock, mw_sources = (), mw_sink = []\<rparr>"

lemma sample_manager_simps:
  "me_registry sample_manager_env = dict_registry" "me_lock sample_manager_env = Some (single_process_lock ''main'')" "records_manager sample_manager_env"
  "dict_registry_ok (mw_registry sample_manager_world)" "wg_find dict_registry (mw_registry sample_manager_world) i = None"
  "locked_ids (mw_lock sample_manager_world) = {}" "creates_in_created (me_sources sample_manager_env)"
  "wx_load (me_sources sample_manager_env) i x = (Inr (sample_agg WS_ACTIVE), x)"
  by (simp_all add: sample_manager_env_def records_manager_def sample_manager_world_def dict_registry_ok_def dict_registry_def locked_ids_def new_lock_def
    creates_in_created_def sample_agg_def)

lemma manager_open_outcome_witness:
  "\<exists>w'. manager_open sample_manager_env ''1'' sample_manager_world = Some (Inl (transition_error ''1'' WS_ACTIVE WS_OPEN), w') \<and> mw_sink w' = []"
  using manager_open_outcome [OF dict_spaces.managed_workspaces_axioms sample_manager_simps(1-4), of "''1''"] sample_manager_simps
  by (auto simp: can_transition_workspace_def sample_agg_def sample_manager_world_def)

lemma manager_open_leaks_lock_witness:
  "\<exists>e w'. manager_open sample_manager_env ''1'' sample_manager_world = Some (Inl e, w') \<and> manager_open sample_manager_env ''1'' w' = None"
proof (rule manager_open_leaks_lock [OF dict_spaces.managed_workspaces_axioms sample_manager_simps(1-5)])
  show "''1'' \<notin> locked_ids (mw_lock sample_manager_world)" by (simp add: sample_manager_simps)
  show "case fst (wx_load (me_sources sample_manager_env) ''1'' (mw_sources sample_manager_world)) of
      Inl _ \<Rightarrow> True | Inr ws \<Rightarrow> \<not> can_transition_workspace (wa_status ws) WS_OPEN"
    by (simp add: sample_manager_simps sample_agg_def can_transition_workspace_def)
qed

lemma manager_archive_impossible_witness:
  "\<exists>w. (manager_step sample_manager_env)\<^sup>*\<^sup>* sample_manager_world w \<and> wg_find dict_registry (mw_registry w) ''1'' \<noteq> None \<and>
     isl (fst (manager_archive sample_manager_env ''1'' w))"
proof -
  let ?w = "snd (manager_create sample_manager_env ''A'' [] [] [] [] sample_manager_world)"
  have step: "manager_step sample_manager_env sample_manager_world ?w"
    by (rule manager_step.created [of _ "''A''" "[]" "[]" "[]" "[]"]) (rule prod.collapse [symmetric])
  have found: "wg_find dict_registry (mw_registry ?w) ''1'' \<noteq> None"
    by (simp add: manager_create_def py_bind_split sample_manager_env_def dict_registry_def sample_manager_world_def sample_agg_def manager_publish_def)
  have "\<forall>i. wg_find dict_registry (mw_registry sample_manager_world) i = None" by (simp add: sample_manager_simps)
  from manager_archive_impossible [OF dict_spaces.managed_workspaces_axioms sample_manager_simps(1-3,7,4) this r_into_rtranclp [of "manager_step sample_manager_env", OF step], of "''1''"]
  obtain e w' where "manager_archive sample_manager_env ''1'' ?w = (Inl e, w')" by blast
  then show ?thesis using step found by (intro exI [of _ ?w]) auto
qed

end
