(* ===== verification/Domain_Values.thy ===== *)
theory Domain_Values
  imports Complex_Main "HOL-Library.Sublist" Py_Text
begin

text \<open>
  The value objects of \<open>domain/value_objects/\<close>. An object that wraps one text is modelled by the text, and its
  construction by a check that returns it or raises. Calendar dates are their proleptic ordinals (\<open>date.toordinal\<close>), floats are
  reals. The lemmas show the canonical form of a tag set, that two date ranges overlap exactly if they share a day, and
  what the components of a semantic version are.
\<close>

section \<open>Single texts and numbers\<close>

definition non_blank :: "string \<Rightarrow> string \<Rightarrow> exn + string" where
  "non_blank msg v = (if v = [] \<or> str_strip v = [] then Inl (invariant_violated msg) else Inr v)"

definition identifier_init :: "string \<Rightarrow> exn + string" where
  "identifier_init v = non_blank ''Identifier value must not be empty'' v"

definition document_title_init :: "string \<Rightarrow> exn + string" where
  "document_title_init v =
     (case non_blank ''DocumentTitle must not be empty'' v of
        Inl e \<Rightarrow> Inl e
      | Inr v \<Rightarrow> if length v > 500 then Inl (invariant_violated ''DocumentTitle must be at most 500 characters'') else Inr v)"

definition title_normalized :: "string \<Rightarrow> string" where
  "title_normalized v = str_join '' '' (str_words v)"

definition citation_init :: "string \<Rightarrow> exn + string" where
  "citation_init v =
     (case non_blank ''Citation must not be empty'' v of
        Inl e \<Rightarrow> Inl e
      | Inr v \<Rightarrow> if length v > 1000 then Inl (invariant_violated ''Citation must be at most 1000 characters'') else Inr v)"

definition citation_normalized :: "string \<Rightarrow> string" where
  "citation_normalized v = str_join '' '' (str_words v)"

text \<open>\<open>^[a-f0-9]{40}$\<close>, where the dollar also stands before a final line break.\<close>

definition hex_char_lower :: "char \<Rightarrow> bool" where
  "hex_char_lower c = (let n = of_char c :: nat in 97 \<le> n \<and> n \<le> 102 \<or> 48 \<le> n \<and> n \<le> 57)"

definition hex40 :: "string \<Rightarrow> bool" where
  "hex40 v = (let line = (if v \<noteq> [] \<and> last v = CHR 0x0A then butlast v else v)
     in length line = 40 \<and> (\<forall>c \<in> set line. hex_char_lower c))"

definition file_hash_init :: "string \<Rightarrow> exn + string" where
  "file_hash_init v =
     (if hex40 v then Inr v else Inl (invariant_violated ''FileHash must be a 40-character lowercase hex string''))"

definition file_path_init :: "string \<Rightarrow> exn + string" where
  "file_path_init v =
     (if v = [] then Inl (invariant_violated ''FilePath must not be empty'')
      else if hd v = CHR ''/'' then Inl (invariant_violated ''FilePath must be relative (no leading /)'')
      else if sublist ''..'' v then Inl (invariant_violated (''FilePath must not contain '' @ quoted ''..'')) else Inr v)"

text \<open>\<open>str.isalpha\<close> of one character.\<close>

definition is_alpha :: "char \<Rightarrow> bool" where
  "is_alpha c = (let n = of_char c :: nat in
     65 \<le> n \<and> n \<le> 90 \<or> 97 \<le> n \<and> n \<le> 122 \<or> n \<in> {170, 181, 186} \<or> 192 \<le> n \<and> n \<noteq> 215 \<and> n \<noteq> 247)"

definition language_init :: "string \<Rightarrow> exn + string" where
  "language_init v =
     (if v = [] \<or> length v \<noteq> 2 \<or> \<not> (\<forall>c \<in> set v. is_alpha c) then Inl (invariant_violated ''Language must be a 2-letter ISO 639-1 code'')
      else if v \<noteq> str_lower v then Inl (invariant_violated ''Language code must be lowercase'') else Inr v)"

definition page_number_init :: "int \<Rightarrow> exn + int" where
  "page_number_init n = (if n < 1 then Inl (invariant_violated ''PageNumber must be >= 1'') else Inr n)"

definition confidence_init :: "real \<Rightarrow> exn + real" where
  "confidence_init x = (if 0 \<le> x \<and> x \<le> 1 then Inr x else Inl (invariant_violated ''ConfidenceScore must be in [0.0, 1.0]''))"

definition confidence_percentage :: "real \<Rightarrow> real" where
  "confidence_percentage x = x * 100"

record coordinate =
  co_latitude :: real
  co_longitude :: real

definition coordinate_init :: "coordinate \<Rightarrow> exn + coordinate" where
  "coordinate_init c =
     (if \<not> (- 90 \<le> co_latitude c \<and> co_latitude c \<le> 90) then Inl (invariant_violated ''Latitude must be in [-90, 90]'')
      else if \<not> (- 180 \<le> co_longitude c \<and> co_longitude c \<le> 180) then Inl (invariant_violated ''Longitude must be in [-180, 180]'')
      else Inr c)"

record address =
  ad_street :: string
  ad_city :: string
  ad_region :: "string option"
  ad_postal_code :: "string option"
  ad_country :: "string option"

definition address_init :: "address \<Rightarrow> exn + address" where
  "address_init a =
     (case non_blank ''Address street must not be empty'' (ad_street a) of
        Inl e \<Rightarrow> Inl e
      | Inr _ \<Rightarrow> (case non_blank ''Address city must not be empty'' (ad_city a) of Inl e \<Rightarrow> Inl e | Inr _ \<Rightarrow> Inr a))"

text \<open>An optional text that is there and not empty.\<close>

fun some_text :: "string option \<Rightarrow> string list" where
  "some_text None = []"
| "some_text (Some v) = (if v = [] then [] else [v])"

definition one_line :: "address \<Rightarrow> string" where
  "one_line a = str_join '', ''
     ([ad_street a, ad_city a] @ some_text (ad_region a) @ some_text (ad_postal_code a) @ some_text (ad_country a))"

section \<open>Tag sets\<close>

text \<open>The model of a \<open>TagSet\<close> is its tuple \<open>tags\<close>.\<close>

definition tag_normal :: "string \<Rightarrow> string" where
  "tag_normal t = str_lower (str_strip t)"

definition tag_set_init :: "string list \<Rightarrow> exn + string list" where
  "tag_set_init tags =
     (let cleaned = sort (remdups (map tag_normal (filter (\<lambda>t. str_strip t \<noteq> []) tags)))
      in if length cleaned > 50 then Inl (invariant_violated ''TagSet must contain at most 50 tags'') else Inr cleaned)"

definition tag_set_contains :: "string \<Rightarrow> string list \<Rightarrow> bool" where
  "tag_set_contains item ts = (str_lower item \<in> set ts)"

definition tag_set_add :: "string \<Rightarrow> string list \<Rightarrow> exn + string list" where
  "tag_set_add t ts = tag_set_init (ts @ [t])"

definition tag_set_remove :: "string \<Rightarrow> string list \<Rightarrow> exn + string list" where
  "tag_set_remove t ts = tag_set_init (filter (\<lambda>x. x \<noteq> str_lower t) ts)"

definition tag_set_union :: "string list \<Rightarrow> string list \<Rightarrow> exn + string list" where
  "tag_set_union ts us = tag_set_init (ts @ us)"

definition tag_set_subset :: "string list \<Rightarrow> string list \<Rightarrow> bool" where
  "tag_set_subset ts us = (\<forall>t \<in> set ts. tag_set_contains t us)"

section \<open>Date ranges\<close>

record date_range =
  dg_start :: int
  dg_end :: "int option"

definition date_range_init :: "date_range \<Rightarrow> exn + date_range" where
  "date_range_init r =
     (case dg_end r of
        None \<Rightarrow> Inr r
      | Some e \<Rightarrow> if dg_start r > e then Inl (invariant_violated ''DateRange start must be before or equal to end'') else Inr r)"

definition duration_days :: "int \<Rightarrow> date_range \<Rightarrow> int" where
  "duration_days today r = (case dg_end r of None \<Rightarrow> today | Some e \<Rightarrow> e) - dg_start r"

definition range_contains :: "date_range \<Rightarrow> int \<Rightarrow> bool" where
  "range_contains r d = (case dg_end r of None \<Rightarrow> d \<ge> dg_start r | Some e \<Rightarrow> dg_start r \<le> d \<and> d \<le> e)"

definition range_overlaps :: "date_range \<Rightarrow> date_range \<Rightarrow> bool" where
  "range_overlaps r s =
     (case (dg_end r, dg_end s) of
        (None, None) \<Rightarrow> True
      | (None, Some e) \<Rightarrow> dg_start r \<le> e
      | (Some e, None) \<Rightarrow> dg_start s \<le> e
      | (Some e, Some f) \<Rightarrow> dg_start r \<le> f \<and> dg_start s \<le> e)"

section \<open>Semantic versions\<close>

text \<open>
  The regular expression, read from the outside: an optional build part after the first plus, an optional pre-release
  after the first minus, three numbers. The dollar also stands before a final line break.
\<close>

definition semver_number :: "string \<Rightarrow> bool" where
  "semver_number s = (s \<noteq> [] \<and> (\<forall>c \<in> set s. is_decimal c) \<and> (hd s = CHR ''0'' \<longrightarrow> s = ''0''))"

definition semver_char :: "char \<Rightarrow> bool" where
  "semver_char c = (let n = of_char c :: nat in 48 \<le> n \<and> n \<le> 57 \<or> 65 \<le> n \<and> n \<le> 90 \<or> 97 \<le> n \<and> n \<le> 122 \<or> c = CHR ''-'')"

definition semver_pre :: "string \<Rightarrow> bool" where
  "semver_pre s = (s \<noteq> [] \<and> (\<forall>c \<in> set s. semver_char c) \<and> ((\<forall>c \<in> set s. is_decimal c) \<longrightarrow> semver_number s))"

definition semver_build :: "string \<Rightarrow> bool" where
  "semver_build s = (s \<noteq> [] \<and> (\<forall>c \<in> set s. semver_char c))"

definition cut_at :: "char \<Rightarrow> string \<Rightarrow> string \<times> string option" where
  "cut_at sep s = (takeWhile (\<lambda>c. c \<noteq> sep) s, case dropWhile (\<lambda>c. c \<noteq> sep) s of [] \<Rightarrow> None | _ # t \<Rightarrow> Some t)"

definition semver_core :: "string \<Rightarrow> bool" where
  "semver_core s = (case str_split (CHR ''.'') s of
     [a, b, c] \<Rightarrow> semver_number a \<and> semver_number b \<and> semver_number c
   | _ \<Rightarrow> False)"

definition semver_line :: "string \<Rightarrow> bool" where
  "semver_line v =
     (let (front, build) = cut_at (CHR ''+'') v; (core, pre) = cut_at (CHR ''-'') front
      in semver_core core \<and>
        (case pre of None \<Rightarrow> True | Some p \<Rightarrow> \<forall>s \<in> set (str_split (CHR ''.'') p). semver_pre s) \<and>
        (case build of None \<Rightarrow> True | Some b \<Rightarrow> \<forall>s \<in> set (str_split (CHR ''.'') b). semver_build s))"

definition semver_match :: "string \<Rightarrow> bool" where
  "semver_match v = semver_line (if v \<noteq> [] \<and> last v = CHR 0x0A then butlast v else v)"

definition version_init :: "string \<Rightarrow> exn + string" where
  "version_init v =
     (if semver_match v then Inr v else Inl (invariant_violated ''Version must be a valid SemVer 2.0.0 string''))"

text \<open>
  \<open>int(s)\<close> for a part of a valid version. Such a part starts with a digit and has no underscore, so \<open>int\<close> accepts exactly
  digits with white space around them.
\<close>

definition part_int :: "string \<Rightarrow> exn + int" where
  "part_int s =
     (let ds = str_strip s in
      if ds \<noteq> [] \<and> (\<forall>c \<in> set ds. is_decimal c) then Inr (int (foldl (\<lambda>n c. n * 10 + digit_value c) 0 ds))
      else Inl (Exn ValueError (''invalid literal for int() with base 10: '' @ repr_str s)))"

definition version_part :: "nat \<Rightarrow> string \<Rightarrow> exn + int" where
  "version_part k v =
     (let parts = str_split (CHR ''.'') v in
      if k < length parts then part_int (parts ! k) else Inl (Exn IndexError ''list index out of range''))"

definition version_major :: "string \<Rightarrow> exn + int" where
  "version_major v = version_part 0 v"

definition version_minor :: "string \<Rightarrow> exn + int" where
  "version_minor v = version_part 1 v"

definition version_patch :: "string \<Rightarrow> exn + int" where
  "version_patch v = version_part 2 v"

definition next_major :: "string \<Rightarrow> exn + string" where
  "next_major v = (case version_major v of Inl e \<Rightarrow> Inl e | Inr a \<Rightarrow> version_init (int_str (a + 1) @ ''.0.0''))"

definition next_minor :: "string \<Rightarrow> exn + string" where
  "next_minor v =
     (case version_major v of Inl e \<Rightarrow> Inl e | Inr a \<Rightarrow>
     (case version_minor v of Inl e \<Rightarrow> Inl e | Inr b \<Rightarrow> version_init (int_str a @ ''.'' @ int_str (b + 1) @ ''.0'')))"

definition next_patch :: "string \<Rightarrow> exn + string" where
  "next_patch v =
     (case version_major v of Inl e \<Rightarrow> Inl e | Inr a \<Rightarrow>
     (case version_minor v of Inl e \<Rightarrow> Inl e | Inr b \<Rightarrow>
     (case version_patch v of Inl e \<Rightarrow> Inl e | Inr c \<Rightarrow>
        version_init (int_str a @ ''.'' @ int_str b @ ''.'' @ int_str (c + 1)))))"

section \<open>Canonical tag sets\<close>

lemma tag_normal_normal [simp]: "tag_normal (tag_normal t) = tag_normal t"
  by (simp add: tag_normal_def str_strip_lower)

lemma str_lower_nil [simp]: "str_lower s = [] \<longleftrightarrow> s = []"
  by (simp add: str_lower_def)

lemma tag_normal_nil [simp]: "tag_normal t = [] \<longleftrightarrow> str_strip t = []"
  by (simp add: tag_normal_def)

lemma tag_normal_lower [simp]: "tag_normal (str_lower t) = tag_normal t" "str_lower (tag_normal t) = tag_normal t"
  by (simp_all add: tag_normal_def str_strip_lower)

text \<open>The tuple of a tag set: sorted, without repetitions, each tag normal, at most fifty.\<close>

definition canonical_tags :: "string list \<Rightarrow> bool" where
  "canonical_tags ts = (sorted ts \<and> distinct ts \<and> length ts \<le> 50 \<and> (\<forall>t \<in> set ts. t \<noteq> [] \<and> tag_normal t = t))"

lemma tag_set_init_canonical:
  assumes "tag_set_init tags = Inr ts"
  shows "canonical_tags ts \<and> set ts = tag_normal ` {t \<in> set tags. str_strip t \<noteq> []}"
proof -
  let ?m = "map tag_normal (filter (\<lambda>t. str_strip t \<noteq> []) tags)"
  have ts: "ts = sort (remdups ?m)" "length ts \<le> 50" using assms by (auto simp: tag_set_init_def Let_def split: if_splits)
  have img: "set ts = tag_normal ` {t \<in> set tags. str_strip t \<noteq> []}" unfolding ts(1) by auto
  moreover have "t \<noteq> [] \<and> tag_normal t = t" if "t \<in> set ts" for t using that unfolding img by force
  moreover have "sorted ts" "distinct ts" unfolding ts(1) by simp_all
  ultimately show ?thesis using ts(2) unfolding canonical_tags_def by blast
qed

lemma sorted_same_set: "sorted xs \<Longrightarrow> distinct xs \<Longrightarrow> sorted ys \<Longrightarrow> distinct ys \<Longrightarrow> set xs = set ys \<Longrightarrow> xs = ys"
  by (metis sorted_distinct_set_unique)

text \<open>Building the set of a given set of normal tags.\<close>

lemma tag_set_init_eq:
  assumes "canonical_tags ts" and "set ts = tag_normal ` {t \<in> set tags. str_strip t \<noteq> []}"
  shows "tag_set_init tags = Inr ts"
proof -
  let ?c = "sort (remdups (map tag_normal (filter (\<lambda>t. str_strip t \<noteq> []) tags)))"
  have "?c = ts" using assms by (intro sorted_same_set) (auto simp: canonical_tags_def)
  then show ?thesis using assms(1) by (simp add: tag_set_init_def Let_def canonical_tags_def)
qed

lemma tag_set_init_full:
  assumes "card (tag_normal ` {t \<in> set tags. str_strip t \<noteq> []}) > 50"
  shows "tag_set_init tags = Inl (invariant_violated ''TagSet must contain at most 50 tags'')"
proof -
  let ?m = "map tag_normal (filter (\<lambda>t. str_strip t \<noteq> []) tags)"
  have "length (sort (remdups ?m)) = card (set ?m)" by (simp add: length_remdups_card_conv)
  also have "set ?m = tag_normal ` {t \<in> set tags. str_strip t \<noteq> []}" by auto
  finally show ?thesis using assms by (simp add: tag_set_init_def Let_def)
qed

lemma canonical_tagsD:
  assumes "canonical_tags ts"
  shows "tag_normal ` {t \<in> set ts. str_strip t \<noteq> []} = set ts" and "t \<in> set ts \<Longrightarrow> str_lower t = t" and "t \<in> set ts \<Longrightarrow> str_strip t \<noteq> []"
proof -
  have n: "tag_normal t = t \<and> str_strip t \<noteq> []" if "t \<in> set ts" for t
    using assms that unfolding canonical_tags_def by (metis tag_normal_nil)
  show "t \<in> set ts \<Longrightarrow> str_lower t = t" using n tag_normal_lower(2) by metis
  show "t \<in> set ts \<Longrightarrow> str_strip t \<noteq> []" using n by blast
  show "tag_normal ` {t \<in> set ts. str_strip t \<noteq> []} = set ts" using n by force
qed

lemma tag_set_add_canonical:
  assumes "canonical_tags ts"
  shows "tag_set_add t ts =
    (if str_strip t = [] \<or> tag_normal t \<in> set ts then Inr ts
     else if length ts = 50 then Inl (invariant_violated ''TagSet must contain at most 50 tags'')
     else Inr (insort (tag_normal t) ts))"
proof -
  note c = canonical_tagsD [OF assms]
  have img: "tag_normal ` {x \<in> set (ts @ [t]). str_strip x \<noteq> []} = (if str_strip t = [] then set ts else insert (tag_normal t) (set ts))"
    using c(1) by (auto simp: image_iff)
  show ?thesis
  proof (cases "str_strip t = [] \<or> tag_normal t \<in> set ts")
    case True
    then have "tag_normal ` {x \<in> set (ts @ [t]). str_strip x \<noteq> []} = set ts" unfolding img by (auto simp: insert_absorb)
    then have "tag_set_init (ts @ [t]) = Inr ts" by (intro tag_set_init_eq [OF assms]) (rule sym)
    then show ?thesis using True by (simp add: tag_set_add_def)
  next
    case new: False
    show ?thesis
    proof (cases "length ts = 50")
      case True
      have "card (insert (tag_normal t) (set ts)) = 51"
        using new True assms by (simp add: canonical_tags_def distinct_card)
      then show ?thesis unfolding tag_set_add_def using img new True by (simp add: tag_set_init_full)
    next
      case False
      have "canonical_tags (insort (tag_normal t) ts)"
        using assms new False by (auto simp: canonical_tags_def sorted_insort distinct_insort set_insort_key)
      then show ?thesis unfolding tag_set_add_def using img new False by (simp add: tag_set_init_eq set_insort_key)
    qed
  qed
qed

lemma tag_set_remove_canonical:
  assumes "canonical_tags ts"
  shows "tag_set_remove t ts = Inr (filter (\<lambda>x. x \<noteq> str_lower t) ts)"
proof -
  have "canonical_tags (filter (\<lambda>x. x \<noteq> str_lower t) ts)"
    using assms order_trans [OF length_filter_le] by (auto simp: canonical_tags_def sorted_filter [where f = id, simplified])
  then show ?thesis unfolding tag_set_remove_def using canonical_tagsD(1) by (intro tag_set_init_eq) blast+
qed

section \<open>Normal titles\<close>

lemma length_join_words: "length (str_join '' '' (split_words w s)) \<le> length (w @ s)"
proof (induction w s rule: split_words.induct)
  case (2 w c cs)
  have j: "length (str_join '' '' (w # ws)) \<le> length w + 1 + length (str_join '' '' ws)" for ws by (cases ws) simp_all
  have "length (str_join '' '' (w # split_words [] cs)) \<le> length w + 1 + length cs" if "is_space c" "w \<noteq> []"
    using order_trans [OF j add_left_mono] 2(2) [OF that] by auto
  then show ?case using 2 by auto
qed simp

lemma title_normalized_length: "length (title_normalized v) \<le> length v"
  using length_join_words [of "[]" v] by (simp add: title_normalized_def str_words_def)

lemma title_normalized_idem: "title_normalized (title_normalized v) = title_normalized v"
  using str_words_no_space [of _ v] by (simp add: title_normalized_def str_words_join)

section \<open>Components of a semantic version\<close>

lemma cut_at_append: "s = fst (cut_at sep s) @ (case snd (cut_at sep s) of None \<Rightarrow> [] | Some t \<Rightarrow> sep # t)"
proof (cases "dropWhile (\<lambda>c. c \<noteq> sep) s")
  case Nil
  have "takeWhile (\<lambda>c. c \<noteq> sep) s = s" using takeWhile_dropWhile_id [of "\<lambda>c. c \<noteq> sep" s] unfolding Nil by simp
  then show ?thesis unfolding cut_at_def fst_conv snd_conv Nil list.case option.case by (metis append_Nil2)
next
  case (Cons a t)
  then have "a = sep" by (metis (mono_tags, lifting) dropWhile_eq_Cons_conv)
  then show ?thesis using Cons takeWhile_dropWhile_id [of "\<lambda>c. c \<noteq> sep" s] by (simp add: cut_at_def)
qed

definition version_text :: "nat \<Rightarrow> nat \<Rightarrow> nat \<Rightarrow> string" where
  "version_text a b c = str_join ''.'' [nat_str a, nat_str b, nat_str c]"

lemma semver_number_nat: "semver_number (nat_str n)"
proof -
  have "nat_str 0 = ''0''" by code_simp
  then show ?thesis using nat_str_digits [of n] nat_str_hd [of n] by (cases "n = 0") (auto simp: semver_number_def)
qed

lemma semver_number_ex: "semver_number s \<Longrightarrow> \<exists>n. s = nat_str n"
  using nat_str_of_digits [of s] unfolding semver_number_def by metis

lemma nat_str_no_dot: "CHR ''.'' \<notin> set (nat_str n)"
  using nat_str_digits is_decimal_not_dot by blast

lemma split_version_text:
  "str_split (CHR ''.'') (version_text a b c @ suf) = nat_str a # nat_str b # str_split (CHR ''.'') (nat_str c @ suf)"
  by (simp add: version_text_def str_split_append nat_str_no_dot)

lemma semver_core_iff: "semver_core s \<longleftrightarrow> (\<exists>a b c. s = version_text a b c)"
proof
  assume s: "semver_core s"
  then obtain x y z where sp: "str_split (CHR ''.'') s = [x, y, z]" "semver_number x" "semver_number y" "semver_number z"
    by (auto simp: semver_core_def split: list.splits)
  then obtain a b c where "x = nat_str a" "y = nat_str b" "z = nat_str c" using semver_number_ex by meson
  then show "\<exists>a b c. s = version_text a b c"
    using str_join_split [of "CHR ''.''" s] sp(1) unfolding version_text_def by metis
next
  assume "\<exists>a b c. s = version_text a b c"
  then obtain a b c where "s = version_text a b c" by blast
  then show "semver_core s"
    using split_version_text [of a b c "[]"] by (simp add: semver_core_def str_split_none nat_str_no_dot semver_number_nat)
qed

lemma version_text_chars: "x \<in> set (version_text a b c) \<Longrightarrow> is_decimal x \<or> x = CHR ''.''"
  using nat_str_digits by (auto simp: version_text_def)

lemma version_text_match: "semver_match (version_text a b c)"
proof -
  have nt: "x \<notin> set (version_text a b c)" if "\<not> is_decimal x" "x \<noteq> CHR ''.''" for x using that version_text_chars by blast
  have cut: "cut_at x (version_text a b c) = (version_text a b c, None)" if "\<not> is_decimal x" "x \<noteq> CHR ''.''" for x
  proof -
    have "\<forall>y \<in> set (version_text a b c). y \<noteq> x" using nt [OF that] by blast
    then have e: "dropWhile (\<lambda>y. y \<noteq> x) (version_text a b c) = []" "takeWhile (\<lambda>y. y \<noteq> x) (version_text a b c) = version_text a b c"
      by (simp_all add: dropWhile_eq_Nil_conv takeWhile_eq_all_conv)
    show ?thesis unfolding cut_at_def e by simp
  qed
  have "version_text a b c \<noteq> []" using nat_str_digits [of a] by (simp add: version_text_def)
  then have "last (version_text a b c) \<noteq> CHR 0x0A" using nt [of "CHR 0x0A"] last_in_set by (fastforce simp: is_decimal_def)
  moreover have "semver_core (version_text a b c)" by (auto simp: semver_core_iff)
  ultimately show ?thesis by (simp add: semver_match_def semver_line_def cut is_decimal_def)
qed

text \<open>What follows the three numbers in a version.\<close>

definition version_suffix :: "string \<Rightarrow> bool" where
  "version_suffix suf = (suf = [] \<or> hd suf \<in> {CHR ''-'', CHR ''+''} \<or> suf = [CHR 0x0A])"

lemma semver_line_text:
  assumes "semver_line v"
  shows "\<exists>a b c suf. v = version_text a b c @ suf \<and> (suf = [] \<or> hd suf \<in> {CHR ''-'', CHR ''+''})"
proof -
  obtain front build where f: "cut_at (CHR ''+'') v = (front, build)" by fastforce
  obtain core pre where c: "cut_at (CHR ''-'') front = (core, pre)" by fastforce
  have "semver_core core" using assms by (simp add: semver_line_def f c)
  then obtain a b k where "core = version_text a b k" unfolding semver_core_iff by blast
  moreover have "v = core @ (case pre of None \<Rightarrow> [] | Some t \<Rightarrow> CHR ''-'' # t) @ (case build of None \<Rightarrow> [] | Some t \<Rightarrow> CHR ''+'' # t)"
    using cut_at_append [of v "CHR ''+''"] cut_at_append [of front "CHR ''-''"] f c by simp
  ultimately show ?thesis
    by (intro exI [of _ a] exI [of _ b] exI [of _ k]
        exI [of _ "(case pre of None \<Rightarrow> [] | Some t \<Rightarrow> CHR ''-'' # t) @ (case build of None \<Rightarrow> [] | Some t \<Rightarrow> CHR ''+'' # t)"])
       (auto split: option.splits)
qed

lemma semver_match_text:
  assumes "semver_match v"
  shows "\<exists>a b c suf. v = version_text a b c @ suf \<and> version_suffix suf"
proof (cases "v \<noteq> [] \<and> last v = CHR 0x0A")
  case True
  then have v: "v = butlast v @ [CHR 0x0A]" by (metis append_butlast_last_id)
  from True assms have "semver_line (butlast v)" by (simp add: semver_match_def)
  from semver_line_text [OF this] obtain a b c suf where
    s: "butlast v = version_text a b c @ suf" "suf = [] \<or> hd suf \<in> {CHR ''-'', CHR ''+''}" by blast
  have "version_suffix (suf @ [CHR 0x0A])" using s(2) by (cases suf) (auto simp: version_suffix_def)
  moreover have "v = version_text a b c @ (suf @ [CHR 0x0A])" using v s(1) by simp
  ultimately show ?thesis by blast
next
  case False
  then have "semver_line v" using assms by (auto simp: semver_match_def split: if_splits)
  from semver_line_text [OF this] show ?thesis unfolding version_suffix_def by blast
qed

lemma is_decimal_not_space: "is_decimal c \<Longrightarrow> \<not> is_space c"
  by (auto simp: is_decimal_def is_space_def Let_def)

lemma part_int_nat: "part_int (nat_str n) = Inr (int n)"
proof -
  have d: "nat_str n \<noteq> [] \<and> (\<forall>c \<in> set (nat_str n). is_decimal c)" using nat_str_digits by blast
  then have "str_strip (nat_str n) = nat_str n"
    using is_decimal_not_space hd_in_set last_in_set by (intro str_strip_ends) blast
  then show ?thesis using nat_str_digits [of n] by (simp add: part_int_def Let_def)
qed

lemma part_int_line: "part_int (nat_str n @ [CHR 0x0A]) = Inr (int n)"
proof -
  have d: "nat_str n \<noteq> []" "\<forall>c \<in> set (nat_str n). \<not> is_space c" using nat_str_digits is_decimal_not_space by blast+
  have "\<not> is_space (hd (nat_str n))" using d by simp
  then have l: "dropWhile is_space (nat_str n @ u) = nat_str n @ u" for u using d(1) by (cases "nat_str n") simp_all
  have "\<not> is_space (hd (rev (nat_str n)))" using d by (simp add: hd_rev)
  then have "dropWhile is_space (rev (nat_str n)) = rev (nat_str n)" using d(1) by (cases "rev (nat_str n)") simp_all
  moreover have "is_space CHR 0x0A" by (simp add: is_space_def)
  ultimately have "str_strip (nat_str n @ [CHR 0x0A]) = nat_str n" by (simp add: str_strip_def l)
  then show ?thesis using nat_str_digits [of n] by (simp add: part_int_def Let_def)
qed

lemma part_int_suffix:
  assumes "x \<in> set s" and "\<not> is_decimal x" and "\<not> is_space x"
  shows "part_int s = Inl (Exn ValueError (''invalid literal for int() with base 10: '' @ repr_str s))"
  using str_strip_mem [OF assms(1,3)] assms(2) by (auto simp: part_int_def Let_def)

lemma version_parts:
  "version_major (version_text a b c @ suf) = Inr (int a)" "version_minor (version_text a b c @ suf) = Inr (int b)"
  "version_patch (version_text a b c @ suf) = part_int (nat_str c @ takeWhile (\<lambda>x. x \<noteq> CHR ''.'') suf)"
proof -
  obtain ts where "str_split (CHR ''.'') (nat_str c @ suf) = takeWhile (\<lambda>x. x \<noteq> CHR ''.'') (nat_str c @ suf) # ts"
    using str_split_hd by blast
  moreover have "takeWhile (\<lambda>x. x \<noteq> CHR ''.'') (nat_str c @ suf) = nat_str c @ takeWhile (\<lambda>x. x \<noteq> CHR ''.'') suf"
    using nat_str_no_dot [of c] by (intro takeWhile_append2) auto
  ultimately show "version_major (version_text a b c @ suf) = Inr (int a)" "version_minor (version_text a b c @ suf) = Inr (int b)"
    "version_patch (version_text a b c @ suf) = part_int (nat_str c @ takeWhile (\<lambda>x. x \<noteq> CHR ''.'') suf)"
    by (simp_all add: version_major_def version_minor_def version_patch_def version_part_def split_version_text part_int_nat)
qed

lemma version_patch_outcome:
  assumes "version_suffix suf"
  shows "version_patch (version_text a b c @ suf) =
    (if suf \<in> {[], [CHR 0x0A]} then Inr (int c)
     else Inl (Exn ValueError (''invalid literal for int() with base 10: '' @ repr_str (nat_str c @ takeWhile (\<lambda>x. x \<noteq> CHR ''.'') suf))))"
proof (cases "suf \<in> {[], [CHR 0x0A]}")
  case True
  then show ?thesis by (auto simp: version_parts part_int_nat part_int_line)
next
  case False
  then obtain x t where x: "suf = x # t" "x \<in> {CHR ''-'', CHR ''+''}" using assms by (cases suf) (auto simp: version_suffix_def)
  then have "x \<in> set (nat_str c @ takeWhile (\<lambda>x. x \<noteq> CHR ''.'') suf)" "\<not> is_decimal x" "\<not> is_space x"
    by (auto simp: is_decimal_def is_space_def)
  from part_int_suffix [OF this] False show ?thesis by (simp add: version_parts)
qed

lemma int_str_nat [simp]: "int_str (int n) = nat_str n" "int_str (int n + 1) = nat_str (Suc n)" "int_str (1 + int n) = nat_str (Suc n)"
  by (simp_all add: int_str_def nat_add_distrib add.commute)

lemma version_init_text [simp]: "version_init (version_text a b c) = Inr (version_text a b c)"
  by (simp add: version_init_def version_text_match)

lemma next_texts:
  "next_major (version_text a b c @ suf) = Inr (version_text (Suc a) 0 0)"
  "next_minor (version_text a b c @ suf) = Inr (version_text a (Suc b) 0)"
  "version_patch (version_text a b c @ suf) = Inr (int p) \<Longrightarrow> next_patch (version_text a b c @ suf) = Inr (version_text a b (Suc p))"
proof -
  have z: "nat_str 0 = ''0''" by code_simp
  show "next_major (version_text a b c @ suf) = Inr (version_text (Suc a) 0 0)"
    using version_init_text [of "Suc a" 0 0, unfolded version_text_def] 
    by (simp add: next_major_def version_parts(1)) (simp add: version_text_def z)
  show "next_minor (version_text a b c @ suf) = Inr (version_text a (Suc b) 0)"
    using version_init_text [of a "Suc b" 0, unfolded version_text_def] 
    by (simp add: next_minor_def version_parts(1,2)) (simp add: version_text_def z)
  show "next_patch (version_text a b c @ suf) = Inr (version_text a b (Suc p))" if "version_patch (version_text a b c @ suf) = Inr (int p)"
    using version_init_text [of a b "Suc p", unfolded version_text_def] that
    by (simp add: next_patch_def version_parts(1,2)) (simp add: version_text_def)
qed

section \<open>Properties\<close>

text \<open>C38: 
  A tag set is canonical however its tags are given: sorted, without repetitions, trimmed, in lower case and at most fifty.
  Adding a tag inserts its trimmed lower-case form in place and is refused exactly if that would be the fifty-first; removing
  leaves the others; building a set from its own tags changes nothing.
\<close>

theorem tag_set_canonical:
  assumes "tag_set_init tags = Inr ts"
  shows "sorted ts \<and> distinct ts \<and> length ts \<le> 50 \<and> set ts = {str_lower (str_strip t) |t. t \<in> set tags \<and> str_strip t \<noteq> []} \<and>
    tag_set_init ts = Inr ts \<and>
    tag_set_add t ts =
      (if str_strip t = [] \<or> str_lower (str_strip t) \<in> set ts then Inr ts
       else if length ts = 50 then Inl (invariant_violated ''TagSet must contain at most 50 tags'')
       else Inr (insort (str_lower (str_strip t)) ts)) \<and>
    tag_set_remove t ts = Inr (filter (\<lambda>x. x \<noteq> str_lower t) ts)"
proof -
  from tag_set_init_canonical [OF assms] have c: "canonical_tags ts" and s: "set ts = tag_normal ` {t \<in> set tags. str_strip t \<noteq> []}" by blast+
  have "tag_set_init ts = Inr ts" using canonical_tagsD(1) [OF c] by (intro tag_set_init_eq [OF c]) (rule sym)
  moreover have "set ts = {str_lower (str_strip t) |t. t \<in> set tags \<and> str_strip t \<noteq> []}" unfolding s by (auto simp: tag_normal_def)
  ultimately show ?thesis
    using c [unfolded canonical_tags_def] tag_set_add_canonical [OF c, of t, unfolded tag_normal_def] tag_set_remove_canonical [OF c, of t]
    by (intro conjI) blast+
qed

text \<open>Two date ranges overlap exactly if some day is in both; a range without an end goes on for ever.\<close>

theorem range_overlaps_iff:
  assumes "date_range_init r = Inr r" and "date_range_init s = Inr s"
  shows "range_overlaps r s \<longleftrightarrow> (\<exists>d. range_contains r d \<and> range_contains s d)"
proof
  assume "range_overlaps r s"
  then have "range_contains r (max (dg_start r) (dg_start s)) \<and> range_contains s (max (dg_start r) (dg_start s))"
    using assms by (auto simp: range_overlaps_def range_contains_def date_range_init_def split: option.splits if_splits)
  then show "\<exists>d. range_contains r d \<and> range_contains s d" by blast
qed (auto simp: range_overlaps_def range_contains_def split: option.splits)

text \<open>
  A valid version starts with three numbers without leading zeros, which \<open>major\<close> and \<open>minor\<close> return and the three successors count
  on from, dropping the rest. \<open>patch\<close>, and with it \<open>next_patch\<close>, raises \<open>ValueError\<close> for every version
  with a pre-release or a build part.
\<close>

theorem version_components:
  assumes "version_init v = Inr v"
  shows "\<exists>a b c suf. v = version_text a b c @ suf \<and> version_suffix suf \<and>
    version_major v = Inr (int a) \<and> version_minor v = Inr (int b) \<and>
    next_major v = Inr (version_text (a + 1) 0 0) \<and> next_minor v = Inr (version_text a (b + 1) 0) \<and>
    (if suf \<in> {[], [CHR 0x0A]} then version_patch v = Inr (int c) \<and> next_patch v = Inr (version_text a b (c + 1))
     else \<exists>msg. version_patch v = Inl (Exn ValueError msg) \<and> next_patch v = Inl (Exn ValueError msg))"
proof -
  have "semver_match v" using assms by (auto simp: version_init_def split: if_splits)
  from semver_match_text [OF this] obtain a b c suf where v: "v = version_text a b c @ suf" "version_suffix suf" by blast
  have p: "if suf \<in> {[], [CHR 0x0A]} then version_patch v = Inr (int c) \<and> next_patch v = Inr (version_text a b (c + 1))
     else \<exists>msg. version_patch v = Inl (Exn ValueError msg) \<and> next_patch v = Inl (Exn ValueError msg)"
  proof (cases "suf \<in> {[], [CHR 0x0A]}")
    case True
    then have "version_patch v = Inr (int c)" using version_patch_outcome [OF v(2)] v(1) by simp
    then show ?thesis using True next_texts(3) [of a b c suf c] v(1) by simp
  next
    case False
    then show ?thesis using version_patch_outcome [OF v(2), of a b c] v(1) by (auto simp: next_patch_def version_parts(1,2))
  qed
  show ?thesis
    using v p next_texts(1,2) [of a b c suf] version_parts(1,2) [of a b c suf]
    by (intro exI [of _ a] exI [of _ b] exI [of _ c] exI [of _ suf]) (simp only: Suc_eq_plus1 [symmetric] simp_thms)
qed

section \<open>Witnesses\<close>

lemma tag_set_canonical_witness: "tag_set_add '' New '' [''law''] = Inr [''law'', ''new'']"
proof -
  have "tag_set_init ['' Law'', ''LAW'', '' ''] = Inr [''law'']" by code_simp
  from tag_set_canonical [OF this, of "'' New ''"] have
    "tag_set_add '' New '' [''law''] = (if str_strip '' New '' = [] \<or> str_lower (str_strip '' New '') \<in> set [''law''] then Inr [''law'']
       else if length [''law''] = 50 then Inl (invariant_violated ''TagSet must contain at most 50 tags'')
       else Inr (insort (str_lower (str_strip '' New '')) [''law'']))" by blast
  also have "\<dots> = Inr [''law'', ''new'']" by code_simp
  finally show ?thesis .
qed

lemma range_overlaps_iff_witness:
  "\<exists>d. range_contains \<lparr>dg_start = 1, dg_end = Some 4\<rparr> d \<and> range_contains \<lparr>dg_start = 4, dg_end = None\<rparr> d"
  using range_overlaps_iff [of "\<lparr>dg_start = 1, dg_end = Some 4\<rparr>" "\<lparr>dg_start = 4, dg_end = None\<rparr>"]
  by (simp add: date_range_init_def range_overlaps_def)

lemma version_components_witness: "\<exists>a b. version_major ''1.2.3-rc.1'' = Inr (int a) \<and> next_minor ''1.2.3-rc.1'' = Inr (version_text a (b + 1) 0)"
proof -
  have "version_init ''1.2.3-rc.1'' = Inr ''1.2.3-rc.1''" by code_simp
  from version_components [OF this] show ?thesis by blast
qed

end
