(* ===== verification/Domain_Entities.thy ===== *)
theory Domain_Entities
  imports Domain_Values
begin

text \<open>
  From \<open>domain/enums\<close> and \<open>domain/entities\<close>: the enumerations and the entities that the repositories and the aggregates
  work on, each with its checks and methods. A method that calls \<open>touch\<close> takes the time it is called at. An enumeration whose
  members are stored is read from its value by \<open>enum_of\<close>. File paths, file hashes and languages are the texts of their value objects.
\<close>

section \<open>Enumerations\<close>

datatype case_status =
  CASE_OPEN | CASE_ACTIVE | CASE_PENDING_REVIEW | CASE_SETTLED | CASE_CLOSED | CASE_ARCHIVED | CASE_REOPENED

fun case_status_value :: "case_status \<Rightarrow> string" where
  "case_status_value CASE_OPEN = ''open''"
| "case_status_value CASE_ACTIVE = ''active''"
| "case_status_value CASE_PENDING_REVIEW = ''pending_review''"
| "case_status_value CASE_SETTLED = ''settled''"
| "case_status_value CASE_CLOSED = ''closed''"
| "case_status_value CASE_ARCHIVED = ''archived''"
| "case_status_value CASE_REOPENED = ''reopened''"

definition case_status_of :: "string \<Rightarrow> exn + case_status" where
  "case_status_of = enum_of ''CaseStatus'' case_status_value
     [CASE_OPEN, CASE_ACTIVE, CASE_PENDING_REVIEW, CASE_SETTLED, CASE_CLOSED, CASE_ARCHIVED, CASE_REOPENED]"

lemma case_status_of_value [simp]: "case_status_of (case_status_value s) = Inr s"
  by (cases s) (simp_all add: case_status_of_def enum_of_def)

datatype document_status =
  DOC_DRAFT | DOC_PENDING_IMPORT | DOC_IMPORTING | DOC_IMPORTED | DOC_PROCESSING | DOC_PROCESSED | DOC_FAILED | DOC_ARCHIVED | DOC_DELETED

fun document_status_value :: "document_status \<Rightarrow> string" where
  "document_status_value DOC_DRAFT = ''draft''"
| "document_status_value DOC_PENDING_IMPORT = ''pending_import''"
| "document_status_value DOC_IMPORTING = ''importing''"
| "document_status_value DOC_IMPORTED = ''imported''"
| "document_status_value DOC_PROCESSING = ''processing''"
| "document_status_value DOC_PROCESSED = ''processed''"
| "document_status_value DOC_FAILED = ''failed''"
| "document_status_value DOC_ARCHIVED = ''archived''"
| "document_status_value DOC_DELETED = ''deleted''"

definition document_status_of :: "string \<Rightarrow> exn + document_status" where
  "document_status_of = enum_of ''DocumentStatus'' document_status_value
     [DOC_DRAFT, DOC_PENDING_IMPORT, DOC_IMPORTING, DOC_IMPORTED, DOC_PROCESSING, DOC_PROCESSED, DOC_FAILED, DOC_ARCHIVED, DOC_DELETED]"

lemma document_status_of_value [simp]: "document_status_of (document_status_value s) = Inr s"
  by (cases s) (simp_all add: document_status_of_def enum_of_def)

datatype document_type =
  DT_CONTRACT | DT_CORRESPONDENCE | DT_COURT_FILING | DT_EVIDENCE | DT_LEGAL_BRIEF | DT_JUDGMENT | DT_STATUTE | DT_REGULATION
  | DT_MEMO | DT_REPORT | DT_PHOTOGRAPH | DT_AUDIO | DT_VIDEO | DT_OTHER

fun document_type_value :: "document_type \<Rightarrow> string" where
  "document_type_value DT_CONTRACT = ''contract''"
| "document_type_value DT_CORRESPONDENCE = ''correspondence''"
| "document_type_value DT_COURT_FILING = ''court_filing''"
| "document_type_value DT_EVIDENCE = ''evidence''"
| "document_type_value DT_LEGAL_BRIEF = ''legal_brief''"
| "document_type_value DT_JUDGMENT = ''judgment''"
| "document_type_value DT_STATUTE = ''statute''"
| "document_type_value DT_REGULATION = ''regulation''"
| "document_type_value DT_MEMO = ''memo''"
| "document_type_value DT_REPORT = ''report''"
| "document_type_value DT_PHOTOGRAPH = ''photograph''"
| "document_type_value DT_AUDIO = ''audio''"
| "document_type_value DT_VIDEO = ''video''"
| "document_type_value DT_OTHER = ''other''"

definition document_type_of :: "string \<Rightarrow> exn + document_type" where
  "document_type_of = enum_of ''DocumentTypeEnum'' document_type_value
     [DT_CONTRACT, DT_CORRESPONDENCE, DT_COURT_FILING, DT_EVIDENCE, DT_LEGAL_BRIEF, DT_JUDGMENT, DT_STATUTE, DT_REGULATION,
      DT_MEMO, DT_REPORT, DT_PHOTOGRAPH, DT_AUDIO, DT_VIDEO, DT_OTHER]"

lemma document_type_of_value [simp]: "document_type_of (document_type_value s) = Inr s"
  by (cases s) (simp_all add: document_type_of_def enum_of_def)

datatype processing_status =
    PS_PENDING | PS_VALIDATING | PS_EXTRACTING_METADATA | PS_OCR | PS_LANGUAGE_DETECTION
  | PS_CLASSIFYING | PS_PARSING | PS_ENTITY_EXTRACTION | PS_CHUNKING | PS_EMBEDDING
  | PS_INDEXING | PS_KNOWLEDGE_GRAPH | PS_TIMELINE | PS_CONTRADICTION_CHECK | PS_SEARCH_REGISTRATION
  | PS_COMPLETED | PS_FAILED

fun processing_status_value :: "processing_status \<Rightarrow> string" where
  "processing_status_value PS_PENDING = ''pending''"
| "processing_status_value PS_VALIDATING = ''validating''"
| "processing_status_value PS_EXTRACTING_METADATA = ''extracting_metadata''"
| "processing_status_value PS_OCR = ''ocr''"
| "processing_status_value PS_LANGUAGE_DETECTION = ''language_detection''"
| "processing_status_value PS_CLASSIFYING = ''classifying''"
| "processing_status_value PS_PARSING = ''parsing''"
| "processing_status_value PS_ENTITY_EXTRACTION = ''entity_extraction''"
| "processing_status_value PS_CHUNKING = ''chunking''"
| "processing_status_value PS_EMBEDDING = ''embedding''"
| "processing_status_value PS_INDEXING = ''indexing''"
| "processing_status_value PS_KNOWLEDGE_GRAPH = ''knowledge_graph''"
| "processing_status_value PS_TIMELINE = ''timeline''"
| "processing_status_value PS_CONTRADICTION_CHECK = ''contradiction_check''"
| "processing_status_value PS_SEARCH_REGISTRATION = ''search_registration''"
| "processing_status_value PS_COMPLETED = ''completed''"
| "processing_status_value PS_FAILED = ''failed''"

definition processing_status_of :: "string \<Rightarrow> exn + processing_status" where
  "processing_status_of = enum_of ''ProcessingStatus'' processing_status_value
     [PS_PENDING, PS_VALIDATING, PS_EXTRACTING_METADATA, PS_OCR, PS_LANGUAGE_DETECTION,
      PS_CLASSIFYING, PS_PARSING, PS_ENTITY_EXTRACTION, PS_CHUNKING, PS_EMBEDDING,
      PS_INDEXING, PS_KNOWLEDGE_GRAPH, PS_TIMELINE, PS_CONTRADICTION_CHECK, PS_SEARCH_REGISTRATION,
      PS_COMPLETED, PS_FAILED]"

lemma processing_status_of_value [simp]: "processing_status_of (processing_status_value s) = Inr s"
  by (cases s) (simp_all add: processing_status_of_def enum_of_def)

datatype evidence_type = DOCUMENTARY | TESTIMONIAL | REAL_EVIDENCE | DEMONSTRATIVE | DIGITAL | FORENSIC | EXPERT | CIRCUMSTANTIAL

datatype relationship_type =
    EMPLOYMENT | OWNERSHIP | FAMILY | CONTRACTUAL | AGENCY | PARTNERSHIP | SUBSIDIARY | CITATION | REFERENCE
  | CONTRADICTION | SUPPORT | TEMPORAL | CAUSAL

datatype statement_type =
    TESTIMONY | DEPOSITION | AFFIDAVIT | DECLARATION | CONFESSION | DENIAL | EXPERT_OPINION | HEARSAY | ADMISSIBLE | INADMISSIBLE

datatype confidence_level = VERY_LOW | LOW | MEDIUM | HIGH | VERY_HIGH

text \<open>The values of \<open>RelationshipType\<close>, \<open>EvidenceType\<close>, \<open>StatementType\<close> and \<open>ConfidenceLevel\<close> are not read by the modelled code.\<close>

section \<open>\<open>Case\<close>\<close>

record legal_case =
  cs_id :: string
  cs_workspace_id :: string
  cs_title :: string
  cs_description :: string
  cs_status :: case_status
  cs_document_ids :: "string list"
  cs_evidence_ids :: "string list"
  cs_person_ids :: "string list"
  cs_created_at :: int
  cs_updated_at :: int

definition case_post_init :: "legal_case \<Rightarrow> exn + legal_case" where
  "case_post_init c =
     (if cs_title c = [] \<or> str_strip (cs_title c) = [] then Inl (invariant_violated ''Case title must not be empty'')
      else if cs_workspace_id c = [] then Inl (invariant_violated ''Case must belong to a workspace'')
      else Inr c)"

definition touch_case :: "int \<Rightarrow> legal_case \<Rightarrow> legal_case" where
  "touch_case now c = c\<lparr>cs_updated_at := now\<rparr>"

definition case_add_document :: "int \<Rightarrow> string \<Rightarrow> legal_case \<Rightarrow> legal_case" where
  "case_add_document now i c =
     (if i \<notin> set (cs_document_ids c) then touch_case now (c\<lparr>cs_document_ids := cs_document_ids c @ [i]\<rparr>) else c)"

definition case_remove_document :: "int \<Rightarrow> string \<Rightarrow> legal_case \<Rightarrow> legal_case" where
  "case_remove_document now i c = touch_case now (c\<lparr>cs_document_ids := filter (\<lambda>d. d \<noteq> i) (cs_document_ids c)\<rparr>)"

definition case_add_evidence :: "int \<Rightarrow> string \<Rightarrow> legal_case \<Rightarrow> legal_case" where
  "case_add_evidence now i c =
     (if i \<notin> set (cs_evidence_ids c) then touch_case now (c\<lparr>cs_evidence_ids := cs_evidence_ids c @ [i]\<rparr>) else c)"

definition case_add_person :: "int \<Rightarrow> string \<Rightarrow> legal_case \<Rightarrow> legal_case" where
  "case_add_person now i c =
     (if i \<notin> set (cs_person_ids c) then touch_case now (c\<lparr>cs_person_ids := cs_person_ids c @ [i]\<rparr>) else c)"

definition case_close :: "int \<Rightarrow> legal_case \<Rightarrow> legal_case" where
  "case_close now c = touch_case now (c\<lparr>cs_status := CASE_CLOSED\<rparr>)"

definition case_reopen :: "int \<Rightarrow> legal_case \<Rightarrow> legal_case" where
  "case_reopen now c = (if cs_status c = CASE_CLOSED then touch_case now (c\<lparr>cs_status := CASE_REOPENED\<rparr>) else c)"

definition case_is_active :: "legal_case \<Rightarrow> bool" where
  "case_is_active c = (cs_status c \<in> {CASE_OPEN, CASE_ACTIVE, CASE_REOPENED})"

section \<open>\<open>Document\<close>\<close>

record document =
  dc_id :: string
  dc_workspace_id :: string
  dc_title :: string
  dc_file_path :: "string option"
  dc_file_hash :: "string option"
  dc_mime_type :: string
  dc_type :: document_type
  dc_status :: document_status
  dc_processing_status :: processing_status
  dc_language :: "string option"
  dc_case_ids :: "string list"
  dc_tag_names :: "string list"
  dc_version_count :: int
  dc_is_duplicate :: bool
  dc_has_ocr :: bool
  dc_has_embeddings :: bool
  dc_created_at :: int
  dc_updated_at :: int

definition document_post_init :: "document \<Rightarrow> exn + document" where
  "document_post_init d =
     (if dc_workspace_id d = [] then Inl (invariant_violated ''Document must belong to a workspace'') else Inr d)"

definition touch_document :: "int \<Rightarrow> document \<Rightarrow> document" where
  "touch_document now d = d\<lparr>dc_updated_at := now\<rparr>"

definition link_to_case :: "int \<Rightarrow> string \<Rightarrow> document \<Rightarrow> document" where
  "link_to_case now i d = (if i \<notin> set (dc_case_ids d) then touch_document now (d\<lparr>dc_case_ids := dc_case_ids d @ [i]\<rparr>) else d)"

definition unlink_from_case :: "int \<Rightarrow> string \<Rightarrow> document \<Rightarrow> document" where
  "unlink_from_case now i d = touch_document now (d\<lparr>dc_case_ids := filter (\<lambda>c. c \<noteq> i) (dc_case_ids d)\<rparr>)"

definition mark_imported :: "int \<Rightarrow> document \<Rightarrow> document" where
  "mark_imported now d = touch_document now (d\<lparr>dc_status := DOC_IMPORTED\<rparr>)"

definition mark_processing :: "int \<Rightarrow> document \<Rightarrow> document" where
  "mark_processing now d = touch_document now (d\<lparr>dc_status := DOC_PROCESSING\<rparr>)"

definition mark_processed :: "int \<Rightarrow> document \<Rightarrow> document" where
  "mark_processed now d = touch_document now (d\<lparr>dc_status := DOC_PROCESSED, dc_processing_status := PS_COMPLETED\<rparr>)"

definition mark_failed :: "int \<Rightarrow> document \<Rightarrow> document" where
  "mark_failed now d = touch_document now (d\<lparr>dc_status := DOC_FAILED\<rparr>)"

text \<open>Returns the new count, which is the count of the document it returns.\<close>

definition increment_version :: "int \<Rightarrow> document \<Rightarrow> document" where
  "increment_version now d = touch_document now (d\<lparr>dc_version_count := dc_version_count d + 1\<rparr>)"

definition document_add_tag :: "int \<Rightarrow> string \<Rightarrow> document \<Rightarrow> document" where
  "document_add_tag now tag d =
     (let normalized = str_lower (str_strip tag) in
      if normalized \<noteq> [] \<and> normalized \<notin> set (dc_tag_names d)
      then touch_document now (d\<lparr>dc_tag_names := dc_tag_names d @ [normalized]\<rparr>) else d)"

definition document_remove_tag :: "int \<Rightarrow> string \<Rightarrow> document \<Rightarrow> document" where
  "document_remove_tag now tag d =
     touch_document now (d\<lparr>dc_tag_names := filter (\<lambda>t. t \<noteq> str_lower (str_strip tag)) (dc_tag_names d)\<rparr>)"

section \<open>The other entities of the aggregates\<close>

record document_version =
  dv_id :: string
  dv_document_id :: string
  dv_version_number :: int
  dv_file_path :: "string option"
  dv_file_hash :: "string option"
  dv_comment :: string
  dv_created_by :: string
  dv_created_at :: int
  dv_updated_at :: int

definition document_version_post_init :: "document_version \<Rightarrow> exn + document_version" where
  "document_version_post_init v =
     (if dv_document_id v = [] then Inl (invariant_violated ''DocumentVersion must reference a document'')
      else if dv_version_number v < 1 then Inl (invariant_violated ''DocumentVersion number must be >= 1'')
      else Inr v)"

record evidence =
  ev_id :: string
  ev_case_ids :: "string list"
  ev_document_ids :: "string list"
  ev_type :: evidence_type
  ev_description :: string
  ev_source :: string
  ev_is_authentic :: "bool option"
  ev_created_at :: int
  ev_updated_at :: int

definition evidence_post_init :: "evidence \<Rightarrow> exn + evidence" where
  "evidence_post_init e =
     (if ev_document_ids e = [] then Inl (invariant_violated ''Evidence must reference at least one document'') else Inr e)"

definition evidence_link_to_case :: "int \<Rightarrow> string \<Rightarrow> evidence \<Rightarrow> evidence" where
  "evidence_link_to_case now i e =
     (if i \<notin> set (ev_case_ids e) then e\<lparr>ev_case_ids := ev_case_ids e @ [i], ev_updated_at := now\<rparr> else e)"

definition evidence_add_document :: "int \<Rightarrow> string \<Rightarrow> evidence \<Rightarrow> evidence" where
  "evidence_add_document now i e =
     (if i \<notin> set (ev_document_ids e) then e\<lparr>ev_document_ids := ev_document_ids e @ [i], ev_updated_at := now\<rparr> else e)"

definition mark_authentic :: "int \<Rightarrow> evidence \<Rightarrow> evidence" where
  "mark_authentic now e = e\<lparr>ev_is_authentic := Some True, ev_updated_at := now\<rparr>"

definition mark_inauthentic :: "int \<Rightarrow> evidence \<Rightarrow> evidence" where
  "mark_inauthentic now e = e\<lparr>ev_is_authentic := Some False, ev_updated_at := now\<rparr>"

record finding =
  fi_id :: string
  fi_investigation_id :: string
  fi_title :: string
  fi_description :: string
  fi_confidence :: confidence_level
  fi_document_ids :: "string list"
  fi_evidence_ids :: "string list"
  fi_created_at :: int
  fi_updated_at :: int

definition finding_post_init :: "finding \<Rightarrow> exn + finding" where
  "finding_post_init f =
     (if fi_investigation_id f = [] then Inl (invariant_violated ''Finding must belong to an investigation'') else Inr f)"

record investigation =
  iv_id :: string
  iv_case_id :: string
  iv_title :: string
  iv_description :: string
  iv_lead_id :: "string option"
  iv_document_ids :: "string list"
  iv_evidence_ids :: "string list"
  iv_finding_ids :: "string list"
  iv_is_completed :: bool
  iv_created_at :: int
  iv_updated_at :: int

definition investigation_post_init :: "investigation \<Rightarrow> exn + investigation" where
  "investigation_post_init v =
     (if iv_case_id v = [] then Inl (invariant_violated ''Investigation must belong to a case'') else Inr v)"

definition investigation_add_document :: "int \<Rightarrow> string \<Rightarrow> investigation \<Rightarrow> investigation" where
  "investigation_add_document now i v =
     (if i \<notin> set (iv_document_ids v) then v\<lparr>iv_document_ids := iv_document_ids v @ [i], iv_updated_at := now\<rparr> else v)"

definition investigation_add_finding :: "int \<Rightarrow> string \<Rightarrow> investigation \<Rightarrow> investigation" where
  "investigation_add_finding now i v =
     (if i \<notin> set (iv_finding_ids v) then v\<lparr>iv_finding_ids := iv_finding_ids v @ [i], iv_updated_at := now\<rparr> else v)"

definition investigation_complete :: "int \<Rightarrow> investigation \<Rightarrow> investigation" where
  "investigation_complete now v = v\<lparr>iv_is_completed := True, iv_updated_at := now\<rparr>"

record relationship =
  rl_id :: string
  rl_source_id :: string
  rl_target_id :: string
  rl_type :: relationship_type
  rl_description :: string
  rl_weight :: real
  rl_created_at :: int
  rl_updated_at :: int

definition relationship_post_init :: "relationship \<Rightarrow> exn + relationship" where
  "relationship_post_init r =
     (if rl_source_id r = [] then Inl (invariant_violated ''Relationship must have a source entity'')
      else if rl_target_id r = [] then Inl (invariant_violated ''Relationship must have a target entity'')
      else if rl_source_id r = rl_target_id r then Inl (invariant_violated ''Relationship source and target must be different'')
      else Inr r)"

record timeline_event =
  te_id :: string
  te_case_id :: string
  te_title :: string
  te_description :: string
  te_date :: "string option"
  te_range_start :: "string option"
  te_range_end :: "string option"
  te_order :: int
  te_document_ids :: "string list"
  te_statement_ids :: "string list"
  te_entity_ids :: "string list"
  te_created_at :: int
  te_updated_at :: int

text \<open>An optional text is false if it is missing or empty.\<close>

definition falsy :: "string option \<Rightarrow> bool" where
  "falsy t = (t = None \<or> t = Some [])"

definition timeline_event_post_init :: "timeline_event \<Rightarrow> exn + timeline_event" where
  "timeline_event_post_init e =
     (if falsy (te_date e) \<and> falsy (te_range_start e) then Inl (invariant_violated ''TimelineEvent requires a date or date range'')
      else Inr e)"

definition event_add_source_document :: "int \<Rightarrow> string \<Rightarrow> timeline_event \<Rightarrow> timeline_event" where
  "event_add_source_document now i e =
     (if i \<notin> set (te_document_ids e) then e\<lparr>te_document_ids := te_document_ids e @ [i], te_updated_at := now\<rparr> else e)"

definition event_add_source_statement :: "int \<Rightarrow> string \<Rightarrow> timeline_event \<Rightarrow> timeline_event" where
  "event_add_source_statement now i e =
     (if i \<notin> set (te_statement_ids e) then e\<lparr>te_statement_ids := te_statement_ids e @ [i], te_updated_at := now\<rparr> else e)"

record statement =
  sm_id :: string
  sm_person_id :: "string option"
  sm_document_id :: "string option"
  sm_case_id :: string
  sm_type :: statement_type
  sm_content :: string
  sm_date_made :: "string option"
  sm_context :: string
  sm_created_at :: int
  sm_updated_at :: int

definition statement_post_init :: "statement \<Rightarrow> exn + statement" where
  "statement_post_init s =
     (if falsy (sm_person_id s) \<and> falsy (sm_document_id s)
      then Inl (invariant_violated ''Statement must have a source (person or document)'') else Inr s)"

definition has_person_source :: "statement \<Rightarrow> bool" where
  "has_person_source s = (sm_person_id s \<noteq> None)"

definition has_document_source :: "statement \<Rightarrow> bool" where
  "has_document_source s = (sm_document_id s \<noteq> None)"

end
