(* ===== verification/Document_Repositories.thy ===== *)
theory Document_Repositories
  imports Sql_Table Domain_Entities
begin

text \<open>
  The repositories of cases and documents: \<open>SqliteCaseRepository\<close> and \<open>SqliteDocumentRepository\<close> of
  \<open>metadata/repositories.py\<close> (\<open>meta_case_\<dots>\<close>, \<open>meta_doc_\<dots>\<close>) and \<open>SqliteDocumentRepositoryImpl\<close> of
  \<open>repositories/document_repository.py\<close> (\<open>doc_\<dots>\<close>), over the tables of \<open>metadata/models.py\<close>, where no column but the
  key is unique. Tuples of identifiers are stored as one text with commas. The locale \<open>plain_table\<close> of \<open>Sql_Table\<close> has what every
  such repository guarantees; it holds for the three of them.
\<close>

section \<open>Tuples as text\<close>

definition parse_ids :: "string \<Rightarrow> string list" where
  "parse_ids raw =
     (if raw = [] \<or> str_strip raw = [] then []
      else map str_strip (filter (\<lambda>s. str_strip s \<noteq> []) (str_split (CHR '','') raw)))"

definition join_ids :: "string list \<Rightarrow> string" where
  "join_ids ids = str_join '','' ids"

text \<open>\<open>document_repository.py\<close> does not trim what it reads.\<close>

definition parse_raw_ids :: "string \<Rightarrow> string list" where
  "parse_raw_ids raw = (if raw = [] then [] else filter (\<lambda>s. s \<noteq> []) (str_split (CHR '','') raw))"

section \<open>Rows\<close>

record case_row =
  cr_id :: string
  cr_workspace_id :: string
  cr_title :: string
  cr_description :: string
  cr_status :: string
  cr_document_ids :: string
  cr_evidence_ids :: string
  cr_person_ids :: string
  cr_created_at :: int
  cr_updated_at :: int

definition row_of_case :: "legal_case \<Rightarrow> case_row" where
  "row_of_case c =
     \<lparr>cr_id = cs_id c, cr_workspace_id = cs_workspace_id c, cr_title = cs_title c, cr_description = cs_description c,
      cr_status = case_status_value (cs_status c), cr_document_ids = join_ids (cs_document_ids c),
      cr_evidence_ids = join_ids (cs_evidence_ids c), cr_person_ids = join_ids (cs_person_ids c),
      cr_created_at = cs_created_at c, cr_updated_at = cs_updated_at c\<rparr>"

definition put_case :: "legal_case \<Rightarrow> case_row \<Rightarrow> case_row" where
  "put_case c r =
     r\<lparr>cr_workspace_id := cs_workspace_id c, cr_title := cs_title c, cr_description := cs_description c,
       cr_status := case_status_value (cs_status c), cr_document_ids := join_ids (cs_document_ids c),
       cr_evidence_ids := join_ids (cs_evidence_ids c), cr_person_ids := join_ids (cs_person_ids c),
       cr_updated_at := cs_updated_at c\<rparr>"

definition case_of_row :: "case_row \<Rightarrow> exn + legal_case" where
  "case_of_row r =
     (case case_status_of (cr_status r) of
        Inl e \<Rightarrow> Inl e
      | Inr s \<Rightarrow> case_post_init
          \<lparr>cs_id = cr_id r, cs_workspace_id = cr_workspace_id r, cs_title = cr_title r, cs_description = cr_description r,
           cs_status = s, cs_document_ids = parse_ids (cr_document_ids r), cs_evidence_ids = parse_ids (cr_evidence_ids r),
           cs_person_ids = parse_ids (cr_person_ids r), cs_created_at = cr_created_at r, cs_updated_at = cr_updated_at r\<rparr>)"

record document_row =
  dr_id :: string
  dr_workspace_id :: string
  dr_title :: string
  dr_file_path :: "string option"
  dr_file_hash :: "string option"
  dr_mime_type :: string
  dr_document_type :: string
  dr_status :: string
  dr_processing_status :: string
  dr_language :: "string option"
  dr_case_ids :: string
  dr_tag_names :: string
  dr_version_count :: int
  dr_is_duplicate :: bool
  dr_has_ocr :: bool
  dr_has_embeddings :: bool
  dr_created_at :: int
  dr_updated_at :: int

definition row_of_document :: "document \<Rightarrow> document_row" where
  "row_of_document d =
     \<lparr>dr_id = dc_id d, dr_workspace_id = dc_workspace_id d, dr_title = dc_title d, dr_file_path = dc_file_path d,
      dr_file_hash = dc_file_hash d, dr_mime_type = dc_mime_type d, dr_document_type = document_type_value (dc_type d),
      dr_status = document_status_value (dc_status d), dr_processing_status = processing_status_value (dc_processing_status d),
      dr_language = dc_language d, dr_case_ids = join_ids (dc_case_ids d), dr_tag_names = join_ids (dc_tag_names d),
      dr_version_count = dc_version_count d, dr_is_duplicate = dc_is_duplicate d, dr_has_ocr = dc_has_ocr d,
      dr_has_embeddings = dc_has_embeddings d, dr_created_at = dc_created_at d, dr_updated_at = dc_updated_at d\<rparr>"

definition put_document :: "document \<Rightarrow> document_row \<Rightarrow> document_row" where
  "put_document d r =
     r\<lparr>dr_workspace_id := dc_workspace_id d, dr_title := dc_title d, dr_file_path := dc_file_path d,
       dr_file_hash := dc_file_hash d, dr_mime_type := dc_mime_type d, dr_document_type := document_type_value (dc_type d),
       dr_status := document_status_value (dc_status d), dr_processing_status := processing_status_value (dc_processing_status d),
       dr_language := dc_language d, dr_case_ids := join_ids (dc_case_ids d), dr_tag_names := join_ids (dc_tag_names d),
       dr_version_count := dc_version_count d, dr_is_duplicate := dc_is_duplicate d, dr_has_ocr := dc_has_ocr d,
       dr_has_embeddings := dc_has_embeddings d, dr_updated_at := dc_updated_at d\<rparr>"

text \<open>A value object of a column, if the column has a text that is not empty.\<close>

definition optional_value :: "(string \<Rightarrow> exn + string) \<Rightarrow> string option \<Rightarrow> exn + string option" where
  "optional_value init v =
     (case v of None \<Rightarrow> Inr None
      | Some t \<Rightarrow> if t = [] then Inr None else (case init t of Inl e \<Rightarrow> Inl e | Inr t \<Rightarrow> Inr (Some t)))"

text \<open>
  Both readers of a document row, for a way to read the tuples. The metadata repository builds the parts in the order of the
  columns, \<open>document_repository.py\<close> the three value objects first.
\<close>

definition document_with ::
    "(string \<Rightarrow> string list) \<Rightarrow> document_row \<Rightarrow> string option \<Rightarrow> string option \<Rightarrow> string option \<Rightarrow> document_type \<Rightarrow> document_status \<Rightarrow> processing_status \<Rightarrow> exn + document" where
  "document_with ids r path hash lang ty st ps =
     document_post_init
       \<lparr>dc_id = dr_id r, dc_workspace_id = dr_workspace_id r, dc_title = dr_title r, dc_file_path = path, dc_file_hash = hash,
        dc_mime_type = dr_mime_type r, dc_type = ty, dc_status = st, dc_processing_status = ps, dc_language = lang,
        dc_case_ids = ids (dr_case_ids r), dc_tag_names = ids (dr_tag_names r), dc_version_count = dr_version_count r,
        dc_is_duplicate = dr_is_duplicate r, dc_has_ocr = dr_has_ocr r, dc_has_embeddings = dr_has_embeddings r,
        dc_created_at = dr_created_at r, dc_updated_at = dr_updated_at r\<rparr>"

definition meta_document_of_row :: "document_row \<Rightarrow> exn + document" where
  "meta_document_of_row r =
     and_then (optional_value file_path_init (dr_file_path r)) (\<lambda>path.
     and_then (optional_value file_hash_init (dr_file_hash r)) (\<lambda>hash.
     and_then (document_type_of (dr_document_type r)) (\<lambda>ty.
     and_then (document_status_of (dr_status r)) (\<lambda>st.
     and_then (processing_status_of (dr_processing_status r)) (\<lambda>ps.
     and_then (optional_value language_init (dr_language r)) (\<lambda>lang.
     document_with parse_ids r path hash lang ty st ps))))))"

definition document_of_row :: "document_row \<Rightarrow> exn + document" where
  "document_of_row r =
     and_then (optional_value file_path_init (dr_file_path r)) (\<lambda>path.
     and_then (optional_value file_hash_init (dr_file_hash r)) (\<lambda>hash.
     and_then (optional_value language_init (dr_language r)) (\<lambda>lang.
     and_then (document_type_of (dr_document_type r)) (\<lambda>ty.
     and_then (document_status_of (dr_status r)) (\<lambda>st.
     and_then (processing_status_of (dr_processing_status r)) (\<lambda>ps.
     document_with parse_raw_ids r path hash lang ty st ps))))))"

section \<open>\<open>SqliteCaseRepository\<close>\<close>

type_synonym 'db case_session = "('db, case_row) table_session"
type_synonym 'db document_session = "('db, document_row) table_session"

definition meta_case_create :: "'db case_session \<Rightarrow> legal_case \<Rightarrow> ('db, legal_case) py" where
  "meta_case_create S c = table_create S row_of_case c"

definition meta_case_update :: "'db case_session \<Rightarrow> legal_case \<Rightarrow> ('db, legal_case) py" where
  "meta_case_update S c = py_bind (table_modify S ''Case'' (cs_id c) (put_case c)) (\<lambda>_. py_return c)"

definition meta_case_delete :: "'db case_session \<Rightarrow> string \<Rightarrow> ('db, unit) py" where
  "meta_case_delete S i = table_delete S ''Case'' i"

definition meta_case_get :: "'db case_session \<Rightarrow> string \<Rightarrow> ('db, legal_case option) py" where
  "meta_case_get S i = table_get S case_of_row (\<lambda>_. True) i"

definition meta_case_list_all :: "'db case_session \<Rightarrow> ('db, legal_case list) py" where
  "meta_case_list_all S = table_list S case_of_row (\<lambda>_. True)"

text \<open>The specifications are ignored.\<close>

definition meta_case_find :: "'db case_session \<Rightarrow> 'spec \<Rightarrow> ('db, legal_case list) py" where
  "meta_case_find S spec = meta_case_list_all S"

definition meta_case_find_one :: "'db case_session \<Rightarrow> 'spec \<Rightarrow> ('db, legal_case option) py" where
  "meta_case_find_one S spec = py_return None"

definition meta_case_list_page :: "'db case_session \<Rightarrow> page_request \<Rightarrow> ('db, legal_case page_result) py" where
  "meta_case_list_page S q = table_page S case_of_row (\<lambda>_. True) q"

definition meta_case_count :: "'db case_session \<Rightarrow> ('db, int) py" where
  "meta_case_count S = table_count S (\<lambda>_. True)"

definition meta_case_count_matching :: "'db case_session \<Rightarrow> 'spec \<Rightarrow> ('db, int) py" where
  "meta_case_count_matching S spec = meta_case_count S"

definition meta_case_exists :: "'db case_session \<Rightarrow> string \<Rightarrow> ('db, bool) py" where
  "meta_case_exists S i = table_exists S (\<lambda>_. True) i"

definition meta_case_find_by_workspace :: "'db case_session \<Rightarrow> string \<Rightarrow> ('db, legal_case list) py" where
  "meta_case_find_by_workspace S w = table_list S case_of_row (\<lambda>r. cr_workspace_id r = w)"

definition meta_case_find_by_status :: "'db case_session \<Rightarrow> case_status \<Rightarrow> ('db, legal_case list) py" where
  "meta_case_find_by_status S st = table_list S case_of_row (\<lambda>r. cr_status r = case_status_value st)"

definition meta_case_find_by_title :: "'db case_session \<Rightarrow> string \<Rightarrow> string \<Rightarrow> ('db, legal_case option) py" where
  "meta_case_find_by_title S w title = table_first S case_of_row (\<lambda>r. cr_workspace_id r = w \<and> cr_title r = title) None"

section \<open>\<open>SqliteDocumentRepository\<close>\<close>

definition meta_doc_create :: "'db document_session \<Rightarrow> document \<Rightarrow> ('db, document) py" where
  "meta_doc_create S d = table_create S row_of_document d"

definition meta_doc_update :: "'db document_session \<Rightarrow> document \<Rightarrow> ('db, document) py" where
  "meta_doc_update S d = py_bind (table_modify S ''Document'' (dc_id d) (put_document d)) (\<lambda>_. py_return d)"

definition meta_doc_delete :: "'db document_session \<Rightarrow> string \<Rightarrow> ('db, unit) py" where
  "meta_doc_delete S i = table_delete S ''Document'' i"

definition meta_doc_get :: "'db document_session \<Rightarrow> string \<Rightarrow> ('db, document option) py" where
  "meta_doc_get S i = table_get S meta_document_of_row (\<lambda>_. True) i"

definition meta_doc_list_all :: "'db document_session \<Rightarrow> ('db, document list) py" where
  "meta_doc_list_all S = table_list S meta_document_of_row (\<lambda>_. True)"

definition meta_doc_find :: "'db document_session \<Rightarrow> 'spec \<Rightarrow> ('db, document list) py" where
  "meta_doc_find S spec = meta_doc_list_all S"

definition meta_doc_find_one :: "'db document_session \<Rightarrow> 'spec \<Rightarrow> ('db, document option) py" where
  "meta_doc_find_one S spec = py_return None"

definition meta_doc_list_page :: "'db document_session \<Rightarrow> page_request \<Rightarrow> ('db, document page_result) py" where
  "meta_doc_list_page S q = table_page S meta_document_of_row (\<lambda>_. True) q"

definition meta_doc_count :: "'db document_session \<Rightarrow> ('db, int) py" where
  "meta_doc_count S = table_count S (\<lambda>_. True)"

definition meta_doc_count_matching :: "'db document_session \<Rightarrow> 'spec \<Rightarrow> ('db, int) py" where
  "meta_doc_count_matching S spec = meta_doc_count S"

definition meta_doc_exists :: "'db document_session \<Rightarrow> string \<Rightarrow> ('db, bool) py" where
  "meta_doc_exists S i = table_exists S (\<lambda>_. True) i"

definition meta_doc_find_by_workspace :: "'db document_session \<Rightarrow> string \<Rightarrow> ('db, document list) py" where
  "meta_doc_find_by_workspace S w = table_list S meta_document_of_row (\<lambda>r. dr_workspace_id r = w)"

text \<open>All rows are fetched, and those converted whose list of cases has the case.\<close>

definition meta_doc_find_by_case :: "'db document_session \<Rightarrow> string \<Rightarrow> ('db, document list) py" where
  "meta_doc_find_by_case S i =
     py_bind (ts_all S (\<lambda>_. True)) (\<lambda>all_rows.
     py_lift (all_to_domain meta_document_of_row (filter (\<lambda>r. i \<in> set (parse_ids (dr_case_ids r))) all_rows)))"

definition meta_doc_find_by_hash :: "'db document_session \<Rightarrow> string \<Rightarrow> ('db, document option) py" where
  "meta_doc_find_by_hash S h = table_first S meta_document_of_row (\<lambda>r. dr_file_hash r = Some h) None"

definition meta_doc_find_by_status :: "'db document_session \<Rightarrow> string \<Rightarrow> document_status \<Rightarrow> ('db, document list) py" where
  "meta_doc_find_by_status S w st =
     table_list S meta_document_of_row (\<lambda>r. dr_workspace_id r = w \<and> dr_status r = document_status_value st)"

definition meta_doc_find_duplicates :: "'db document_session \<Rightarrow> string \<Rightarrow> ('db, document list) py" where
  "meta_doc_find_duplicates S w = table_list S meta_document_of_row (\<lambda>r. dr_workspace_id r = w \<and> dr_is_duplicate r)"

section \<open>\<open>SqliteDocumentRepositoryImpl\<close>\<close>

definition doc_create :: "'db document_session \<Rightarrow> document \<Rightarrow> ('db, document) py" where
  "doc_create S d = table_create S row_of_document d"

definition doc_update :: "'db document_session \<Rightarrow> document \<Rightarrow> ('db, document) py" where
  "doc_update S d = py_bind (table_modify S ''Document'' (dc_id d) (put_document d)) (\<lambda>_. py_return d)"

definition doc_get_by_id :: "'db document_session \<Rightarrow> string \<Rightarrow> ('db, document option) py" where
  "doc_get_by_id S i = table_get S document_of_row (\<lambda>_. True) i"

definition doc_find_by_hash :: "'db document_session \<Rightarrow> string \<Rightarrow> ('db, document option) py" where
  "doc_find_by_hash S h = table_first S document_of_row (\<lambda>r. dr_file_hash r = Some h) None"

definition doc_find_by_workspace :: "'db document_session \<Rightarrow> string \<Rightarrow> ('db, document list) py" where
  "doc_find_by_workspace S w = table_list S document_of_row (\<lambda>r. dr_workspace_id r = w)"

definition doc_find_by_status :: "'db document_session \<Rightarrow> string \<Rightarrow> document_status \<Rightarrow> ('db, document list) py" where
  "doc_find_by_status S w st =
     table_list S document_of_row (\<lambda>r. dr_workspace_id r = w \<and> dr_status r = document_status_value st)"

definition doc_delete :: "'db document_session \<Rightarrow> string \<Rightarrow> ('db, unit) py" where
  "doc_delete S i = table_delete S ''Document'' i"

definition doc_exists :: "'db document_session \<Rightarrow> string \<Rightarrow> ('db, bool) py" where
  "doc_exists S i = table_exists S (\<lambda>_. True) i"

definition doc_count :: "'db document_session \<Rightarrow> string \<Rightarrow> ('db, int) py" where
  "doc_count S w = table_count S (\<lambda>r. dr_workspace_id r = w)"

section \<open>What is read back\<close>

lemma set_str_split: "t \<in> set (str_split sep s) \<Longrightarrow> set t \<subseteq> set s"
proof (induction s arbitrary: t)
  case (Cons c cs)
  obtain u us where u: "str_split sep cs = u # us" using str_split_hd by blast
  show ?case
  proof (cases "c = sep")
    case True
    then show ?thesis using Cons by auto
  next
    case False
    then have "t = c # u \<or> t \<in> set us" using Cons.prems u by auto
    then show ?thesis using Cons.IH u by fastforce
  qed
qed simp

lemma parse_ids_alt: "parse_ids raw = map str_strip (filter (\<lambda>s. str_strip s \<noteq> []) (str_split (CHR '','') raw))"
proof (cases "str_strip raw = []")
  case True
  then have "str_strip t = []" if "t \<in> set (str_split (CHR '','') raw)" for t
    using set_str_split [OF that] by (auto simp: str_strip_blank)
  then have "filter (\<lambda>s. str_strip s \<noteq> []) (str_split (CHR '','') raw) = []" by (simp add: filter_empty_conv)
  then show ?thesis using True by (simp add: parse_ids_def)
next
  case False
  then show ?thesis by (auto simp: parse_ids_def str_strip_def)
qed

definition storable_id :: "string \<Rightarrow> bool" where
  "storable_id i = (i \<noteq> [] \<and> CHR '','' \<notin> set i \<and> str_strip i = i)"

definition storable_raw_id :: "string \<Rightarrow> bool" where
  "storable_raw_id i = (i \<noteq> [] \<and> CHR '','' \<notin> set i)"

lemma set_str_strip: "set (str_strip s) \<subseteq> set s"
  by (auto simp: str_strip_def dest!: set_dropWhileD)

lemma parse_ids_storable: "i \<in> set (parse_ids raw) \<Longrightarrow> storable_id i"
  using str_split_pieces set_str_strip by (fastforce simp: parse_ids_alt storable_id_def)

lemma parse_raw_ids_storable: "i \<in> set (parse_raw_ids raw) \<Longrightarrow> storable_raw_id i"
  using str_split_pieces by (auto simp: parse_raw_ids_def storable_raw_id_def split: if_splits)

lemma split_join_ids: "ids \<noteq> [] \<Longrightarrow> \<forall>i \<in> set ids. CHR '','' \<notin> set i \<Longrightarrow> str_split (CHR '','') (join_ids ids) = ids"
  unfolding join_ids_def by (rule str_split_join)

lemma parse_join_ids:
  assumes "\<forall>i \<in> set ids. storable_id i"
  shows "parse_ids (join_ids ids) = ids"
proof (cases "ids = []")
  case True
  then show ?thesis by (simp add: join_ids_def parse_ids_def)
next
  case False
  then have "str_split (CHR '','') (join_ids ids) = ids" using assms by (intro split_join_ids) (auto simp: storable_id_def)
  moreover have "filter (\<lambda>s. str_strip s \<noteq> []) ids = ids" "map str_strip ids = ids"
    using assms by (auto simp: storable_id_def filter_id_conv intro: map_idI)
  ultimately show ?thesis by (simp add: parse_ids_alt)
qed

lemma parse_raw_join_ids:
  assumes "\<forall>i \<in> set ids. storable_raw_id i"
  shows "parse_raw_ids (join_ids ids) = ids"
proof (cases "ids = []")
  case True
  then show ?thesis by (simp add: join_ids_def parse_raw_ids_def)
next
  case False
  then have sp: "str_split (CHR '','') (join_ids ids) = ids" using assms by (intro split_join_ids) (auto simp: storable_raw_id_def)
  have fl: "filter (\<lambda>s. s \<noteq> []) ids = ids" using assms by (auto simp: storable_raw_id_def filter_id_conv)
  have "join_ids ids \<noteq> []"
  proof
    assume "join_ids ids = []"
    then have "[] \<in> set ids" using sp by (metis list.set_intros(1) str_split.simps(1))
    then show False using assms by (auto simp: storable_raw_id_def)
  qed
  then show ?thesis unfolding parse_raw_ids_def sp fl by simp
qed

definition optional_ok :: "(string \<Rightarrow> exn + string) \<Rightarrow> string option \<Rightarrow> bool" where
  "optional_ok init v = (case v of None \<Rightarrow> True | Some t \<Rightarrow> t \<noteq> [] \<and> init t = Inr t)"

lemma optional_value_ok [simp]: "optional_ok init v \<Longrightarrow> optional_value init v = Inr v"
  by (cases v) (auto simp: optional_ok_def optional_value_def)

text \<open>The cases and documents that can be constructed and whose tuples a repository reads back.\<close>

definition case_storable :: "legal_case \<Rightarrow> bool" where
  "case_storable c =
     (case_post_init c = Inr c \<and> (\<forall>i \<in> set (cs_document_ids c @ cs_evidence_ids c @ cs_person_ids c). storable_id i))"

definition document_storable :: "(string \<Rightarrow> bool) \<Rightarrow> document \<Rightarrow> bool" where
  "document_storable storable d =
     (document_post_init d = Inr d \<and> optional_ok file_path_init (dc_file_path d) \<and> optional_ok file_hash_init (dc_file_hash d) \<and>
      optional_ok language_init (dc_language d) \<and> (\<forall>i \<in> set (dc_case_ids d @ dc_tag_names d). storable i))"

lemma case_of_row_row: "case_storable c \<Longrightarrow> case_of_row (row_of_case c) = Inr c"
  by (cases c) (simp add: case_storable_def case_of_row_def row_of_case_def parse_join_ids ball_Un)

lemma meta_document_of_row_row: "document_storable storable_id d \<Longrightarrow> meta_document_of_row (row_of_document d) = Inr d"
  by (cases d) (simp add: document_storable_def meta_document_of_row_def row_of_document_def document_with_def and_then_def parse_join_ids ball_Un)

lemma document_of_row_row: "document_storable storable_raw_id d \<Longrightarrow> document_of_row (row_of_document d) = Inr d"
  by (cases d) (simp add: document_storable_def document_of_row_def row_of_document_def document_with_def and_then_def parse_raw_join_ids ball_Un)

section \<open>The repositories over their tables\<close>

text \<open>\<open>update\<close> does not write the creation time.\<close>

definition case_merge :: "legal_case \<Rightarrow> legal_case \<Rightarrow> legal_case" where
  "case_merge old c = c\<lparr>cs_created_at := cs_created_at old\<rparr>"

definition document_merge :: "document \<Rightarrow> document \<Rightarrow> document" where
  "document_merge old d = d\<lparr>dc_created_at := dc_created_at old\<rparr>"

lemma case_table:
  assumes "sql_table S cr_id (\<lambda>_ _. False) rows"
  shows "plain_table S cr_id rows row_of_case case_of_row case_storable cs_id put_case case_merge"
  by (intro plain_table.intro entity_table.intro assms entity_table_axioms.intro plain_table_axioms.intro)
     (erule case_of_row_row | simp add: row_of_case_def put_case_def case_merge_def | auto simp: case_storable_def case_post_init_def split: if_splits)+

lemma meta_document_table:
  assumes "sql_table S dr_id (\<lambda>_ _. False) rows"
  shows "plain_table S dr_id rows row_of_document meta_document_of_row (document_storable storable_id) dc_id put_document document_merge"
  by (intro plain_table.intro entity_table.intro assms entity_table_axioms.intro plain_table_axioms.intro)
     (erule meta_document_of_row_row | simp add: row_of_document_def put_document_def document_merge_def | auto simp: document_storable_def document_post_init_def split: if_splits)+

lemma document_table:
  assumes "sql_table S dr_id (\<lambda>_ _. False) rows"
  shows "plain_table S dr_id rows row_of_document document_of_row (document_storable storable_raw_id) dc_id put_document document_merge"
  by (intro plain_table.intro entity_table.intro assms entity_table_axioms.intro plain_table_axioms.intro)
     (erule document_of_row_row | simp add: row_of_document_def put_document_def document_merge_def | auto simp: document_storable_def document_post_init_def split: if_splits)+

lemma document_repositories_refine_spec:
  assumes "sql_table S dr_id (\<lambda>_ _. False) rows"
  shows "repository_spec (entity_table.table_ok rows row_of_document (document_storable storable_id)) (entity_table.entities rows meta_document_of_row)
      (document_storable storable_id) dc_id document_merge ''Document'' (meta_doc_create S) (meta_doc_update S) (meta_doc_get S) (meta_doc_delete S)"
  using plain_table.plain_spec [OF meta_document_table [OF assms], of "''Document''"]
  unfolding repository_spec_def meta_doc_create_def meta_doc_update_def meta_doc_get_def meta_doc_delete_def .

section \<open>Properties\<close>

text \<open>C39: 
  A tuple of identifiers is read back as it was stored exactly if no identifier is empty, has a comma, or (for the repositories
  that trim) has white space at its ends. What is read always has that form.
\<close>

theorem id_text_roundtrip:
  "(parse_ids (join_ids ids) = ids \<longleftrightarrow> list_all storable_id ids) \<and>
   (parse_raw_ids (join_ids ids) = ids \<longleftrightarrow> list_all storable_raw_id ids) \<and>
   parse_ids (join_ids (parse_ids raw)) = parse_ids raw \<and> parse_raw_ids (join_ids (parse_raw_ids raw)) = parse_raw_ids raw"
  using parse_join_ids [of ids] parse_raw_join_ids [of ids] parse_ids_storable [of _ "join_ids ids"]
    parse_raw_ids_storable [of _ "join_ids ids"] parse_join_ids [of "parse_ids raw"] parse_raw_join_ids [of "parse_raw_ids raw"]
    parse_ids_storable [of _ raw] parse_raw_ids_storable [of _ raw]
  unfolding list_all_iff by metis

text \<open>C15: 
  Over a table with the documented behaviour the three repositories refine a finite map from keys to entities: a fresh key is
  needed to create, a present one to update and delete, reading returns what was stored, and an update keeps
  the stored creation time. The entities are the ones that can be constructed and whose tuples are read back.
\<close>

theorem document_repositories_refine:
  assumes "sql_table S dr_id (\<lambda>_ _. False) rows" and "sql_table T cr_id (\<lambda>_ _. False) case_rows"
  shows "repository_spec (entity_table.table_ok rows row_of_document (document_storable storable_id)) (entity_table.entities rows meta_document_of_row)
      (document_storable storable_id) dc_id document_merge ''Document'' (meta_doc_create S) (meta_doc_update S) (meta_doc_get S) (meta_doc_delete S) \<and>
    repository_spec (entity_table.table_ok rows row_of_document (document_storable storable_raw_id)) (entity_table.entities rows document_of_row)
      (document_storable storable_raw_id) dc_id document_merge ''Document'' (doc_create S) (doc_update S) (doc_get_by_id S) (doc_delete S) \<and>
    repository_spec (entity_table.table_ok case_rows row_of_case case_storable) (entity_table.entities case_rows case_of_row)
      case_storable cs_id case_merge ''Case'' (meta_case_create T) (meta_case_update T) (meta_case_get T) (meta_case_delete T)"
proof (intro conjI)
  note ops = doc_create_def doc_update_def doc_get_by_id_def doc_delete_def meta_case_create_def meta_case_update_def meta_case_get_def meta_case_delete_def
  show "repository_spec (entity_table.table_ok rows row_of_document (document_storable storable_id)) (entity_table.entities rows meta_document_of_row)
      (document_storable storable_id) dc_id document_merge ''Document'' (meta_doc_create S) (meta_doc_update S) (meta_doc_get S) (meta_doc_delete S)"
    by (rule document_repositories_refine_spec [OF assms(1)])
  show "repository_spec (entity_table.table_ok rows row_of_document (document_storable storable_raw_id)) (entity_table.entities rows document_of_row)
      (document_storable storable_raw_id) dc_id document_merge ''Document'' (doc_create S) (doc_update S) (doc_get_by_id S) (doc_delete S)"
    using plain_table.plain_spec [OF document_table [OF assms(1)], of "''Document''"] unfolding repository_spec_def ops .
  show "repository_spec (entity_table.table_ok case_rows row_of_case case_storable) (entity_table.entities case_rows case_of_row)
      case_storable cs_id case_merge ''Case'' (meta_case_create T) (meta_case_update T) (meta_case_get T) (meta_case_delete T)"
    using plain_table.plain_spec [OF case_table [OF assms(2)], of "''Case''"] unfolding repository_spec_def ops .
qed

text \<open>
  \<open>find_by_case\<close> returns, once each, the stored documents that list the case among their cases, and changes nothing.
\<close>

theorem find_by_case_exact:
  assumes "sql_table S dr_id (\<lambda>_ _. False) rows" and "entity_table.table_ok rows row_of_document (document_storable storable_id) db"
  shows "\<exists>ds. meta_doc_find_by_case S i db = (Inr ds, db) \<and> distinct ds \<and>
    set ds = {d. fst (meta_doc_get S (dc_id d) db) = Inr (Some d) \<and> i \<in> set (dc_case_ids d)}"
proof -
  have keep: "i \<in> set (parse_ids (dr_case_ids (row_of_document d))) \<longleftrightarrow> i \<in> set (dc_case_ids d)" if "document_storable storable_id d" for d
    using that by (simp add: document_storable_def row_of_document_def parse_join_ids)
  have get: "meta_doc_get S k db = (Inr (entity_table.entities rows meta_document_of_row db k), db)" for k
    using document_repositories_refine_spec [OF assms(1)] assms(2) unfolding repository_spec_def by blast
  show ?thesis
    using plain_table.filtered_entities [OF meta_document_table [OF assms(1)] assms(2), where keep = "\<lambda>r. i \<in> set (parse_ids (dr_case_ids r))", OF keep]
    unfolding meta_doc_find_by_case_def get by simp
qed

section \<open>Witnesses\<close>

interpretation document_list: plain_table "list_table dr_id (\<lambda>_ _. False)" dr_id "list_find dr_id" row_of_document meta_document_of_row
    "document_storable storable_id" dc_id put_document document_merge
  by (rule meta_document_table) (rule list_table.sql_table_axioms)

definition sample_document :: document where
  "sample_document = \<lparr>dc_id = ''d'', dc_workspace_id = ''w'', dc_title = [], dc_file_path = Some ''a.pdf'', dc_file_hash = None,
     dc_mime_type = [], dc_type = DT_OTHER, dc_status = DOC_DRAFT, dc_processing_status = PS_PENDING, dc_language = Some ''ro'',
     dc_case_ids = [''c'', ''e''], dc_tag_names = [], dc_version_count = 0, dc_is_duplicate = False, dc_has_ocr = False,
     dc_has_embeddings = False, dc_created_at = 1, dc_updated_at = 1\<rparr>"

lemma document_repositories_refine_witness:
  "\<exists>db'. meta_doc_create (list_table dr_id (\<lambda>_ _. False)) sample_document [] = (Inr sample_document, db') \<and>
    fst (meta_doc_get (list_table dr_id (\<lambda>_ _. False)) ''d'' db') = Inr (Some sample_document)"
proof -
  note crud = document_repositories_refine [OF list_table.sql_table_axioms list_table.sql_table_axioms, THEN conjunct1, unfolded repository_spec_def]
  have ok: "entity_table.table_ok (list_find dr_id) row_of_document (document_storable storable_id) []"
    unfolding document_list.table_ok_def by (simp add: list_find_def)
  have none: "entity_table.entities (list_find dr_id) meta_document_of_row [] k = None" for k
    by (simp add: document_list.entities_def list_find_def)
  have v: "document_storable storable_id sample_document" by code_simp
  have "dc_id sample_document = ''d''" by (simp add: sample_document_def)
  then obtain db' where "meta_doc_create (list_table dr_id (\<lambda>_ _. False)) sample_document [] = (Inr sample_document, db')"
    "entity_table.table_ok (list_find dr_id) row_of_document (document_storable storable_id) db'"
    "entity_table.entities (list_find dr_id) meta_document_of_row db' ''d'' = Some sample_document"
    using crud [THEN spec, THEN mp, OF ok] v none by force
  moreover then have "fst (meta_doc_get (list_table dr_id (\<lambda>_ _. False)) ''d'' db') = Inr (Some sample_document)"
    using crud [THEN spec, THEN mp, OF calculation(2)] by simp
  ultimately show ?thesis by blast
qed

lemma find_by_case_exact_witness:
  "\<exists>ds. meta_doc_find_by_case (list_table dr_id (\<lambda>_ _. False)) ''e'' [row_of_document sample_document] = (Inr ds, [row_of_document sample_document]) \<and>
    sample_document \<in> set ds"
proof -
  have v: "document_storable storable_id sample_document" by code_simp
  have ok: "entity_table.table_ok (list_find dr_id) row_of_document (document_storable storable_id) [row_of_document sample_document]"
    unfolding document_list.table_ok_def using v by (auto simp: list_find_def split: if_splits)
  have "fst (meta_doc_get (list_table dr_id (\<lambda>_ _. False)) (dc_id sample_document) [row_of_document sample_document]) = Inr (Some sample_document)"
    by code_simp
  moreover have "''e'' \<in> set (dc_case_ids sample_document)" by (simp add: sample_document_def)
  ultimately show ?thesis using find_by_case_exact [OF list_table.sql_table_axioms ok, of "''e''"] by blast
qed

end
