(* ===== verification/Domain_Aggregates.thy ===== *)
theory Domain_Aggregates
  imports Domain_Entities Workspace_Repository "HOL-Library.Multiset"
begin

text \<open>
  The aggregate roots of \<open>domain/aggregates/\<close>. An operation that can raise is a computation on the aggregate; the others are functions.
  An aggregate owns its entities: an entity that is added is from then on the one in the aggregate. The times \<open>touch\<close> reads are
  arguments. The properties speak of every sequence of requests to a new aggregate, accepted and refused ones.
\<close>

section \<open>\<open>CaseAggregate\<close>\<close>

record case_aggregate =
  ca_case :: legal_case
  ca_statement_ids :: "string list"
  ca_event_ids :: "string list"

definition on_case :: "(legal_case \<Rightarrow> legal_case) \<Rightarrow> case_aggregate \<Rightarrow> case_aggregate" where
  "on_case f a = a\<lparr>ca_case := f (ca_case a)\<rparr>"

definition ca_document_count :: "case_aggregate \<Rightarrow> int" where
  "ca_document_count a = int (length (cs_document_ids (ca_case a)))"

definition ca_evidence_count :: "case_aggregate \<Rightarrow> int" where
  "ca_evidence_count a = int (length (cs_evidence_ids (ca_case a)))"

definition ca_add_document :: "int \<Rightarrow> string \<Rightarrow> case_aggregate \<Rightarrow> case_aggregate" where
  "ca_add_document now i = on_case (case_add_document now i)"

definition ca_remove_document :: "int \<Rightarrow> string \<Rightarrow> case_aggregate \<Rightarrow> case_aggregate" where
  "ca_remove_document now i = on_case (case_remove_document now i)"

definition ca_add_evidence :: "int \<Rightarrow> string \<Rightarrow> case_aggregate \<Rightarrow> case_aggregate" where
  "ca_add_evidence now i = on_case (case_add_evidence now i)"

definition ca_add_person :: "int \<Rightarrow> string \<Rightarrow> case_aggregate \<Rightarrow> case_aggregate" where
  "ca_add_person now i = on_case (case_add_person now i)"

definition ca_add_statement :: "int \<Rightarrow> string \<Rightarrow> case_aggregate \<Rightarrow> case_aggregate" where
  "ca_add_statement now i a =
     (if i \<notin> set (ca_statement_ids a) then on_case (touch_case now) (a\<lparr>ca_statement_ids := ca_statement_ids a @ [i]\<rparr>) else a)"

definition ca_add_timeline_event :: "int \<Rightarrow> string \<Rightarrow> case_aggregate \<Rightarrow> case_aggregate" where
  "ca_add_timeline_event now i a =
     (if i \<notin> set (ca_event_ids a) then on_case (touch_case now) (a\<lparr>ca_event_ids := ca_event_ids a @ [i]\<rparr>) else a)"

definition ca_close :: "int \<Rightarrow> (case_aggregate, unit) py" where
  "ca_close now =
     py_bind (py_read (\<lambda>a. cs_document_ids (ca_case a))) (\<lambda>ids.
     if ids = [] then py_lift (Inl (invariant_violated ''Cannot close a case with no documents''))
     else py_modify (on_case (case_close now)))"

definition ca_reopen :: "int \<Rightarrow> case_aggregate \<Rightarrow> case_aggregate" where
  "ca_reopen now = on_case (case_reopen now)"

section \<open>\<open>DocumentAggregate\<close>\<close>

record document_aggregate =
  da_document :: document
  da_versions :: "document_version list"

definition on_document :: "(document \<Rightarrow> document) \<Rightarrow> document_aggregate \<Rightarrow> document_aggregate" where
  "on_document f a = a\<lparr>da_document := f (da_document a)\<rparr>"

definition da_version_count :: "document_aggregate \<Rightarrow> int" where
  "da_version_count a = int (length (da_versions a))"

definition da_latest_version :: "document_aggregate \<Rightarrow> document_version option" where
  "da_latest_version a = (if da_versions a = [] then None else Some (last (da_versions a)))"

text \<open>\<open>vid\<close> is the identifier the new version gets, \<open>now\<close> the time it is made at.\<close>

definition append_version :: "int \<Rightarrow> string \<Rightarrow> string \<Rightarrow> string \<Rightarrow> string \<Rightarrow> string \<Rightarrow> (document_aggregate, document_version) py" where
  "append_version now vid path hash comment created_by =
     py_bind (py_modify (on_document (increment_version now))) (\<lambda>_.
     py_bind (py_read da_document) (\<lambda>d.
     py_bind (py_lift (document_version_post_init
       \<lparr>dv_id = vid, dv_document_id = dc_id d, dv_version_number = dc_version_count d, dv_file_path = Some path,
        dv_file_hash = Some hash, dv_comment = comment, dv_created_by = created_by, dv_created_at = now, dv_updated_at = now\<rparr>)) (\<lambda>v.
     py_bind (py_modify (\<lambda>a. a\<lparr>da_versions := da_versions a @ [v]\<rparr>)) (\<lambda>_. py_return v))))"

definition import_document :: "int \<Rightarrow> string \<Rightarrow> string \<Rightarrow> string \<Rightarrow> string \<Rightarrow> string option \<Rightarrow> (document_aggregate, unit) py" where
  "import_document now vid path hash mime language =
     py_bind (py_read (\<lambda>a. dc_status (da_document a))) (\<lambda>status.
     if status \<notin> {DOC_DRAFT, DOC_PENDING_IMPORT}
     then py_lift (Inl (invariant_violated (''Cannot import document in status '' @ quoted (document_status_value status))))
     else
       py_bind (py_modify (on_document (\<lambda>d.
         mark_imported now (d\<lparr>dc_file_path := Some path, dc_file_hash := Some hash, dc_mime_type := mime, dc_language := language\<rparr>)))) (\<lambda>_.
       py_bind (append_version now vid path hash ''Initial import'' []) (\<lambda>_. py_return ())))"

definition add_version :: "int \<Rightarrow> string \<Rightarrow> string \<Rightarrow> string \<Rightarrow> string \<Rightarrow> string \<Rightarrow> (document_aggregate, document_version) py" where
  "add_version now vid path hash comment created_by =
     py_bind (py_read (\<lambda>a. dc_status (da_document a))) (\<lambda>status.
     if status = DOC_DRAFT then py_lift (Inl (invariant_violated ''Cannot version a draft document''))
     else append_version now vid path hash comment created_by)"

definition da_mark_processing :: "int \<Rightarrow> document_aggregate \<Rightarrow> document_aggregate" where
  "da_mark_processing now = on_document (mark_processing now)"

definition da_mark_processed :: "int \<Rightarrow> document_aggregate \<Rightarrow> document_aggregate" where
  "da_mark_processed now = on_document (mark_processed now)"

definition da_mark_failed :: "int \<Rightarrow> document_aggregate \<Rightarrow> document_aggregate" where
  "da_mark_failed now = on_document (mark_failed now)"

definition mark_duplicate :: "int \<Rightarrow> document_aggregate \<Rightarrow> document_aggregate" where
  "mark_duplicate now = on_document (\<lambda>d. touch_document now (d\<lparr>dc_is_duplicate := True\<rparr>))"

definition mark_ocr_complete :: "int \<Rightarrow> document_aggregate \<Rightarrow> document_aggregate" where
  "mark_ocr_complete now = on_document (\<lambda>d. touch_document now (d\<lparr>dc_has_ocr := True\<rparr>))"

definition mark_embeddings_ready :: "int \<Rightarrow> document_aggregate \<Rightarrow> document_aggregate" where
  "mark_embeddings_ready now = on_document (\<lambda>d. touch_document now (d\<lparr>dc_has_embeddings := True\<rparr>))"

section \<open>\<open>EvidenceCollection\<close>\<close>

record evidence_collection =
  ec_case_id :: string
  ec_evidence :: "evidence list"

definition ec_add :: "int \<Rightarrow> evidence \<Rightarrow> (evidence_collection, unit) py" where
  "ec_add now e =
     py_bind (py_read (\<lambda>a. ev_id e \<in> set (map ev_id (ec_evidence a)))) (\<lambda>present.
     if present then py_lift (Inl (invariant_violated (''Evidence '' @ quoted (ev_id e) @ '' already in collection'')))
     else py_modify (\<lambda>a. a\<lparr>ec_evidence := ec_evidence a @ [evidence_link_to_case now (ec_case_id a) e]\<rparr>))"

definition ec_remove :: "string \<Rightarrow> evidence_collection \<Rightarrow> evidence_collection" where
  "ec_remove i a = a\<lparr>ec_evidence := filter (\<lambda>e. ev_id e \<noteq> i) (ec_evidence a)\<rparr>"

definition ec_get :: "string \<Rightarrow> evidence_collection \<Rightarrow> evidence option" where
  "ec_get i a = find (\<lambda>e. ev_id e = i) (ec_evidence a)"

definition ec_by_type :: "evidence_type \<Rightarrow> evidence_collection \<Rightarrow> evidence list" where
  "ec_by_type t a = filter (\<lambda>e. ev_type e = t) (ec_evidence a)"

definition ec_count :: "evidence_collection \<Rightarrow> int" where
  "ec_count a = int (length (ec_evidence a))"

definition ec_evidence_ids :: "evidence_collection \<Rightarrow> string list" where
  "ec_evidence_ids a = map ev_id (ec_evidence a)"

section \<open>\<open>InvestigationAggregate\<close>\<close>

record investigation_aggregate =
  ia_investigation :: investigation
  ia_findings :: "finding list"

definition ia_finding_count :: "investigation_aggregate \<Rightarrow> int" where
  "ia_finding_count a = int (length (ia_findings a))"

definition ia_add_finding :: "int \<Rightarrow> finding \<Rightarrow> (investigation_aggregate, unit) py" where
  "ia_add_finding now f =
     py_bind (py_read (\<lambda>a. fi_id f \<in> set (map fi_id (ia_findings a)))) (\<lambda>present.
     if present then py_lift (Inl (invariant_violated (''Finding '' @ quoted (fi_id f) @ '' already in investigation'')))
     else py_modify (\<lambda>a. a\<lparr>ia_findings := ia_findings a @ [f],
       ia_investigation := investigation_add_finding now (fi_id f) (ia_investigation a)\<rparr>))"

definition ia_add_document :: "int \<Rightarrow> string \<Rightarrow> investigation_aggregate \<Rightarrow> investigation_aggregate" where
  "ia_add_document now i a = a\<lparr>ia_investigation := investigation_add_document now i (ia_investigation a)\<rparr>"

definition ia_complete :: "int \<Rightarrow> (investigation_aggregate, unit) py" where
  "ia_complete now =
     py_bind (py_read ia_findings) (\<lambda>findings.
     if findings = [] then py_lift (Inl (invariant_violated ''Cannot complete an investigation with no findings''))
     else py_modify (\<lambda>a. a\<lparr>ia_investigation := investigation_complete now (ia_investigation a)\<rparr>))"

section \<open>\<open>KnowledgeGraph\<close>\<close>

record knowledge_graph =
  kg_case_id :: string
  kg_relationships :: "relationship list"

definition same_edge :: "relationship \<Rightarrow> relationship \<Rightarrow> bool" where
  "same_edge r s = (rl_source_id r = rl_source_id s \<and> rl_target_id r = rl_target_id s \<and> rl_type r = rl_type s)"

definition add_relationship :: "relationship \<Rightarrow> (knowledge_graph, unit) py" where
  "add_relationship r =
     py_bind (py_read (\<lambda>g. \<exists>s \<in> set (kg_relationships g). same_edge s r)) (\<lambda>present.
     if present then py_lift (Inl (invariant_violated ''Duplicate relationship in knowledge graph''))
     else py_modify (\<lambda>g. g\<lparr>kg_relationships := kg_relationships g @ [r]\<rparr>))"

definition remove_relationship :: "string \<Rightarrow> knowledge_graph \<Rightarrow> knowledge_graph" where
  "remove_relationship i g = g\<lparr>kg_relationships := filter (\<lambda>r. rl_id r \<noteq> i) (kg_relationships g)\<rparr>"

definition relationship_count :: "knowledge_graph \<Rightarrow> int" where
  "relationship_count g = int (length (kg_relationships g))"

definition relationships_from :: "string \<Rightarrow> knowledge_graph \<Rightarrow> relationship list" where
  "relationships_from i g = filter (\<lambda>r. rl_source_id r = i) (kg_relationships g)"

definition relationships_to :: "string \<Rightarrow> knowledge_graph \<Rightarrow> relationship list" where
  "relationships_to i g = filter (\<lambda>r. rl_target_id r = i) (kg_relationships g)"

text \<open>\<open>tuple(sorted(s))\<close> of a set collected from a list.\<close>

definition node_ids :: "knowledge_graph \<Rightarrow> string list" where
  "node_ids g = sort (remdups (concat (map (\<lambda>r. [rl_source_id r, rl_target_id r]) (kg_relationships g))))"

definition connected_entities :: "string \<Rightarrow> knowledge_graph \<Rightarrow> string list" where
  "connected_entities i g = sort (remdups (map rl_target_id (relationships_from i g) @ map rl_source_id (relationships_to i g)))"

section \<open>\<open>Timeline\<close>\<close>

record timeline =
  tl_case_id :: string
  tl_events :: "timeline_event list"

definition date_key :: "timeline_event \<Rightarrow> string" where
  "date_key e = (case te_date e of None \<Rightarrow> [] | Some d \<Rightarrow> d)"

text \<open>
  \<open>_reorder\<close> numbers the events of the sorted tuple; the tuple of the timeline keeps its order. The events of a timeline have
  distinct identifiers, by which the numbers are found here.
\<close>

definition numbered :: "timeline_event list \<Rightarrow> (string \<times> int) list" where
  "numbered es = zip (map te_id (sort_key date_key es)) [1..int (length es)]"

definition reorder :: "timeline_event list \<Rightarrow> timeline_event list" where
  "reorder es = map (\<lambda>e. case map_of (numbered es) (te_id e) of None \<Rightarrow> e | Some n \<Rightarrow> e\<lparr>te_order := n\<rparr>) es"

definition add_event :: "timeline_event \<Rightarrow> (timeline, unit) py" where
  "add_event e =
     py_bind (py_read (\<lambda>t. te_id e \<in> set (map te_id (tl_events t)))) (\<lambda>present.
     if present then py_lift (Inl (invariant_violated (''Event '' @ quoted (te_id e) @ '' already on timeline'')))
     else py_modify (\<lambda>t. t\<lparr>tl_events := reorder (tl_events t @ [e])\<rparr>))"

definition remove_event :: "string \<Rightarrow> timeline \<Rightarrow> timeline" where
  "remove_event i t = t\<lparr>tl_events := reorder (filter (\<lambda>e. te_id e \<noteq> i) (tl_events t))\<rparr>"

definition event_count :: "timeline \<Rightarrow> int" where
  "event_count t = int (length (tl_events t))"

definition event_ids :: "timeline \<Rightarrow> string list" where
  "event_ids t = map te_id (tl_events t)"

definition ordered_events :: "timeline \<Rightarrow> timeline_event list" where
  "ordered_events t = sort_key te_order (tl_events t)"

section \<open>\<open>WorkspaceAggregate\<close>\<close>

record workspace_aggregate =
  wx_workspace :: workspace
  wx_document_ids :: "string list"
  wx_case_ids :: "string list"
  wx_collaborator_ids :: "string list"

definition on_workspace :: "(workspace \<Rightarrow> workspace) \<Rightarrow> workspace_aggregate \<Rightarrow> workspace_aggregate" where
  "on_workspace f a = a\<lparr>wx_workspace := f (wx_workspace a)\<rparr>"

definition wx_document_count :: "workspace_aggregate \<Rightarrow> int" where
  "wx_document_count a = int (length (wx_document_ids a))"

definition wx_case_count :: "workspace_aggregate \<Rightarrow> int" where
  "wx_case_count a = int (length (wx_case_ids a))"

definition wx_add_document :: "int \<Rightarrow> string \<Rightarrow> (workspace_aggregate, unit) py" where
  "wx_add_document now i =
     py_bind (py_read id) (\<lambda>a.
     if i \<in> set (wx_document_ids a)
     then py_lift (Inl (invariant_violated (''Document '' @ quoted i @ '' already in workspace '' @ quoted (ws_id (wx_workspace a)))))
     else py_modify (\<lambda>a. on_workspace (increment_document_count now) (a\<lparr>wx_document_ids := wx_document_ids a @ [i]\<rparr>)))"

definition wx_remove_document :: "int \<Rightarrow> string \<Rightarrow> workspace_aggregate \<Rightarrow> workspace_aggregate" where
  "wx_remove_document now i a = on_workspace (touch now) (a\<lparr>wx_document_ids := filter (\<lambda>d. d \<noteq> i) (wx_document_ids a)\<rparr>)"

definition wx_add_case :: "int \<Rightarrow> string \<Rightarrow> (workspace_aggregate, unit) py" where
  "wx_add_case now i =
     py_bind (py_read id) (\<lambda>a.
     if i \<in> set (wx_case_ids a)
     then py_lift (Inl (invariant_violated (''Case '' @ quoted i @ '' already in workspace '' @ quoted (ws_id (wx_workspace a)))))
     else py_modify (\<lambda>a. on_workspace (increment_case_count now) (a\<lparr>wx_case_ids := wx_case_ids a @ [i]\<rparr>)))"

definition wx_remove_case :: "int \<Rightarrow> string \<Rightarrow> workspace_aggregate \<Rightarrow> workspace_aggregate" where
  "wx_remove_case now i a = on_workspace (touch now) (a\<lparr>wx_case_ids := filter (\<lambda>c. c \<noteq> i) (wx_case_ids a)\<rparr>)"

definition wx_add_collaborator :: "int \<Rightarrow> string \<Rightarrow> workspace_aggregate \<Rightarrow> workspace_aggregate" where
  "wx_add_collaborator now u a =
     (if u \<notin> set (wx_collaborator_ids a) then on_workspace (touch now) (a\<lparr>wx_collaborator_ids := wx_collaborator_ids a @ [u]\<rparr>) else a)"

definition wx_remove_collaborator :: "int \<Rightarrow> string \<Rightarrow> workspace_aggregate \<Rightarrow> workspace_aggregate" where
  "wx_remove_collaborator now u a =
     on_workspace (touch now) (a\<lparr>wx_collaborator_ids := filter (\<lambda>x. x \<noteq> u) (wx_collaborator_ids a)\<rparr>)"

definition wx_deactivate :: "int \<Rightarrow> workspace_aggregate \<Rightarrow> workspace_aggregate" where
  "wx_deactivate now = on_workspace (deactivate now)"

definition wx_activate :: "int \<Rightarrow> workspace_aggregate \<Rightarrow> workspace_aggregate" where
  "wx_activate now = on_workspace (activate now)"

section \<open>Requests to an aggregate\<close>

text \<open>An invariant of a step is one of every sequence of steps.\<close>

lemma fold_invariant_step: "(\<And>r a. I a \<Longrightarrow> I (step r a)) \<Longrightarrow> I a \<Longrightarrow> I (fold step rs a)"
  by (induction rs arbitrary: a) simp_all

datatype case_request =
    Case_document int string | Case_drop_document int string | Case_evidence int string | Case_person int string
  | Case_statement int string | Case_event int string | Case_close int | Case_reopen int

fun case_step :: "case_request \<Rightarrow> case_aggregate \<Rightarrow> case_aggregate" where
  "case_step (Case_document now i) a = ca_add_document now i a"
| "case_step (Case_drop_document now i) a = ca_remove_document now i a"
| "case_step (Case_evidence now i) a = ca_add_evidence now i a"
| "case_step (Case_person now i) a = ca_add_person now i a"
| "case_step (Case_statement now i) a = ca_add_statement now i a"
| "case_step (Case_event now i) a = ca_add_timeline_event now i a"
| "case_step (Case_close now) a = snd (ca_close now a)"
| "case_step (Case_reopen now) a = ca_reopen now a"

datatype document_request =
    Document_import int string string string string "string option"
  | Document_version int string string string string string
  | Document_processing int | Document_processed int | Document_failed int
  | Document_duplicate int | Document_ocr int | Document_embeddings int

fun document_step :: "document_request \<Rightarrow> document_aggregate \<Rightarrow> document_aggregate" where
  "document_step (Document_import now vid path hash mime lang) a = snd (import_document now vid path hash mime lang a)"
| "document_step (Document_version now vid path hash comment by_user) a = snd (add_version now vid path hash comment by_user a)"
| "document_step (Document_processing now) a = da_mark_processing now a"
| "document_step (Document_processed now) a = da_mark_processed now a"
| "document_step (Document_failed now) a = da_mark_failed now a"
| "document_step (Document_duplicate now) a = mark_duplicate now a"
| "document_step (Document_ocr now) a = mark_ocr_complete now a"
| "document_step (Document_embeddings now) a = mark_embeddings_ready now a"

datatype timeline_request = Timeline_add timeline_event | Timeline_remove string

fun timeline_step :: "timeline_request \<Rightarrow> timeline \<Rightarrow> timeline" where
  "timeline_step (Timeline_add e) t = snd (add_event e t)"
| "timeline_step (Timeline_remove i) t = remove_event i t"

datatype graph_request = Graph_add relationship | Graph_remove string

text \<open>A relationship that cannot be constructed does not reach the graph.\<close>

fun graph_step :: "graph_request \<Rightarrow> knowledge_graph \<Rightarrow> knowledge_graph" where
  "graph_step (Graph_add r) g = (case relationship_post_init r of Inl _ \<Rightarrow> g | Inr r \<Rightarrow> snd (add_relationship r g))"
| "graph_step (Graph_remove i) g = remove_relationship i g"

datatype evidence_request = Evidence_add int evidence | Evidence_remove string

fun evidence_step :: "evidence_request \<Rightarrow> evidence_collection \<Rightarrow> evidence_collection" where
  "evidence_step (Evidence_add now e) a = snd (ec_add now e a)"
| "evidence_step (Evidence_remove i) a = ec_remove i a"

datatype investigation_request = Investigation_finding int finding | Investigation_document int string | Investigation_complete int

fun investigation_step :: "investigation_request \<Rightarrow> investigation_aggregate \<Rightarrow> investigation_aggregate" where
  "investigation_step (Investigation_finding now f) a = snd (ia_add_finding now f a)"
| "investigation_step (Investigation_document now i) a = ia_add_document now i a"
| "investigation_step (Investigation_complete now) a = snd (ia_complete now a)"

datatype workspace_request =
    Workspace_document int string | Workspace_drop_document int string | Workspace_case int string | Workspace_drop_case int string
  | Workspace_collaborator int string | Workspace_drop_collaborator int string | Workspace_deactivate int | Workspace_activate int

fun workspace_step :: "workspace_request \<Rightarrow> workspace_aggregate \<Rightarrow> workspace_aggregate" where
  "workspace_step (Workspace_document now i) a = snd (wx_add_document now i a)"
| "workspace_step (Workspace_drop_document now i) a = wx_remove_document now i a"
| "workspace_step (Workspace_case now i) a = snd (wx_add_case now i a)"
| "workspace_step (Workspace_drop_case now i) a = wx_remove_case now i a"
| "workspace_step (Workspace_collaborator now u) a = wx_add_collaborator now u a"
| "workspace_step (Workspace_drop_collaborator now u) a = wx_remove_collaborator now u a"
| "workspace_step (Workspace_deactivate now) a = wx_deactivate now a"
| "workspace_step (Workspace_activate now) a = wx_activate now a"

section \<open>The order of a timeline\<close>

lemma sort_key_map: "(\<And>x. k (f x) = h x) \<Longrightarrow> sort_key k (map f xs) = map f (sort_key h xs)"
proof (induction xs)
  case (Cons x xs)
  have "insort_key k (f x) (map f ys) = map f (insort_key h x ys)" for ys by (induction ys) (simp_all add: Cons.prems)
  with Cons show ?case by simp
qed simp

lemma reorder_ids [simp]: "map te_id (reorder es) = map te_id es"
  by (simp add: reorder_def o_def split: option.split cong: map_cong)

lemma map_of_zip_map:
  assumes "distinct (map k xs)" and "length ys = length xs"
  shows "map (\<lambda>x. map_of (zip (map k xs) ys) (k x)) xs = map Some ys"
proof (rule nth_equalityI)
  fix i assume "i < length (map (\<lambda>x. map_of (zip (map k xs) ys) (k x)) xs)"
  then show "map (\<lambda>x. map_of (zip (map k xs) ys) (k x)) xs ! i = map Some ys ! i"
    using map_of_zip_nth [of "map k xs" ys i] assms by simp
qed (simp add: assms(2))

lemma distinct_mset_map: "mset xs = mset ys \<Longrightarrow> distinct (map f xs) = distinct (map f ys)"
  by (metis mset_eq_imp_distinct_iff mset_map)

lemma reorder_sorted:
  assumes "distinct (map te_id es)"
  shows "map te_order (sort_key date_key (reorder es)) = [1..int (length es)]"
    and "sort_key te_order (reorder es) = sort_key date_key (reorder es)"
proof -
  let ?f = "\<lambda>e. case map_of (numbered es) (te_id e) of None \<Rightarrow> e | Some n \<Rightarrow> e\<lparr>te_order := n\<rparr>"
  let ?s = "sort_key date_key es"
  have s: "sort_key date_key (reorder es) = map ?f ?s"
    unfolding reorder_def by (rule sort_key_map) (simp add: date_key_def split: option.split)
  have d: "distinct (map te_id ?s)" using assms distinct_mset_map [of ?s es te_id] by simp
  have "map (\<lambda>e. map_of (numbered es) (te_id e)) ?s = map Some [1..int (length es)]"
    using map_of_zip_map [OF d, of "[1..int (length es)]"] by (simp add: numbered_def)
  moreover have "map te_order (map ?f xs) = ns" if "map (\<lambda>e. map_of (numbered es) (te_id e)) xs = map Some ns" for xs ns
    using that by (induction xs arbitrary: ns) (auto simp: Cons_eq_map_conv)
  ultimately show orders: "map te_order (sort_key date_key (reorder es)) = [1..int (length es)]" unfolding s by blast
  have m: "mset (reorder es) = mset (sort_key date_key (reorder es))" by simp
  have "distinct (map te_order (reorder es))" using orders distinct_mset_map [OF m, of te_order] by simp
  then show "sort_key te_order (reorder es) = sort_key date_key (reorder es)"
    using orders by (intro sort_key_inj_key_eq [OF m]) (simp_all add: distinct_map)
qed

definition timeline_inv :: "timeline \<Rightarrow> bool" where
  "timeline_inv t = (\<exists>es. tl_events t = reorder es \<and> distinct (map te_id es))"

lemma timeline_inv_step: "timeline_inv t \<Longrightarrow> timeline_inv (timeline_step r t)"
proof -
  assume "timeline_inv t"
  then have d: "distinct (map te_id (tl_events t))" by (auto simp: timeline_inv_def)
  show ?thesis
  proof (cases r)
    case (Timeline_add e)
    have "distinct (map te_id (tl_events t @ [e]))" if "te_id e \<notin> set (map te_id (tl_events t))" using d that by simp
    then have "\<exists>es. reorder (tl_events t @ [e]) = reorder es \<and> distinct (map te_id es)"
      if "te_id e \<notin> set (map te_id (tl_events t))" using that by blast
    then show ?thesis using Timeline_add \<open>timeline_inv t\<close> by (simp add: add_event_def py_bind_split timeline_inv_def)
  next
    case (Timeline_remove i)
    then show ?thesis using d by (auto simp: remove_event_def timeline_inv_def intro!: distinct_map_filter)
  qed
qed

text \<open>
  The reference: the requests alone say which of them put an event on the timeline that is still there. The \<open>k\<close>-th request stands if
  it adds an event, its identifier is not removed later, and it was not taken already: whatever added it before was followed by a removal.
\<close>

fun adds_id :: "string \<Rightarrow> timeline_request \<Rightarrow> bool" where
  "adds_id i (Timeline_add e) = (te_id e = i)"
| "adds_id i (Timeline_remove j) = False"

definition stands :: "timeline_request list \<Rightarrow> nat \<Rightarrow> string \<Rightarrow> bool" where
  "stands reqs k i =
     (adds_id i (reqs ! k) \<and> (\<forall>l < length reqs. k < l \<longrightarrow> reqs ! l \<noteq> Timeline_remove i) \<and>
      (\<forall>j < k. adds_id i (reqs ! j) \<longrightarrow> (\<exists>l < k. j < l \<and> reqs ! l = Timeline_remove i)))"

definition standing :: "timeline_request list \<Rightarrow> timeline_event list" where
  "standing reqs =
     concat (map (\<lambda>k. case reqs ! k of Timeline_add e \<Rightarrow> if stands reqs k (te_id e) then [e] else [] | Timeline_remove _ \<Rightarrow> []) [0..<length reqs])"

lemma adds_id_iff: "adds_id i r \<longleftrightarrow> (\<exists>e. r = Timeline_add e \<and> te_id e = i)"
  by (cases r) auto

lemma stands_snoc:
  assumes "k < length reqs"
  shows "stands (reqs @ [r]) k i = (stands reqs k i \<and> r \<noteq> Timeline_remove i)"
proof -
  have old: "(reqs @ [r]) ! l = reqs ! l" if "l \<le> k" for l using that assms by (simp add: nth_append)
  have later: "(\<forall>l < length (reqs @ [r]). k < l \<longrightarrow> (reqs @ [r]) ! l \<noteq> Timeline_remove i) \<longleftrightarrow>
      (\<forall>l < length reqs. k < l \<longrightarrow> reqs ! l \<noteq> Timeline_remove i) \<and> r \<noteq> Timeline_remove i"
    using assms by (auto simp: nth_append less_Suc_eq)
  have earlier: "(\<forall>j < k. adds_id i ((reqs @ [r]) ! j) \<longrightarrow> (\<exists>l < k. j < l \<and> (reqs @ [r]) ! l = Timeline_remove i)) \<longleftrightarrow>
      (\<forall>j < k. adds_id i (reqs ! j) \<longrightarrow> (\<exists>l < k. j < l \<and> reqs ! l = Timeline_remove i))"
    using old less_imp_le by metis
  show ?thesis unfolding stands_def later earlier old [OF order_refl] by blast
qed

lemma standing_member: "e \<in> set (standing reqs) \<longleftrightarrow> (\<exists>k < length reqs. reqs ! k = Timeline_add e \<and> stands reqs k (te_id e))"
  by (auto simp: standing_def split: timeline_request.splits if_splits intro!: bexI)

text \<open>An identifier stands if something adds it and nothing removes it after that: the first such addition stands.\<close>

lemma standing_ids:
  "i \<in> te_id ` set (standing reqs) \<longleftrightarrow>
    (\<exists>j < length reqs. adds_id i (reqs ! j) \<and> (\<forall>l < length reqs. j < l \<longrightarrow> reqs ! l \<noteq> Timeline_remove i))" (is "?L \<longleftrightarrow> (\<exists>j. ?P j)")
proof
  assume ?L
  then show "\<exists>j. ?P j" by (auto simp: standing_member stands_def)
next
  assume ex: "\<exists>j. ?P j"
  define k where "k = (LEAST j. ?P j)"
  have k: "?P k" unfolding k_def using ex by (rule LeastI_ex)
  have "\<exists>l < k. j < l \<and> reqs ! l = Timeline_remove i" if j: "j < k" "adds_id i (reqs ! j)" for j
  proof -
    have "\<not> ?P j" using not_less_Least [of j ?P] j(1) unfolding k_def by blast
    then obtain l where l: "l < length reqs" "j < l" "reqs ! l = Timeline_remove i" using j k by auto
    then have "l < k" using k by (metis adds_id.simps(2) linorder_neqE_nat)
    with l show ?thesis by blast
  qed
  then have "stands reqs k i" using k by (simp add: stands_def)
  moreover obtain e where "reqs ! k = Timeline_add e" "te_id e = i" using k adds_id_iff by blast
  ultimately show ?L using k by (force simp: standing_member)
qed

lemma standing_snoc_add:
  "standing (reqs @ [Timeline_add e]) = standing reqs @ (if te_id e \<in> te_id ` set (standing reqs) then [] else [e])"
proof -
  have "stands (reqs @ [Timeline_add e]) (length reqs) (te_id e) \<longleftrightarrow> te_id e \<notin> te_id ` set (standing reqs)"
    unfolding standing_ids by (auto simp: stands_def nth_append)
  note fresh = this
  have same: "map (\<lambda>k. case (reqs @ [Timeline_add e]) ! k of Timeline_add f \<Rightarrow> if stands (reqs @ [Timeline_add e]) k (te_id f) then [f] else [] | Timeline_remove _ \<Rightarrow> [])
      [0..<length reqs] =
    map (\<lambda>k. case reqs ! k of Timeline_add f \<Rightarrow> if stands reqs k (te_id f) then [f] else [] | Timeline_remove _ \<Rightarrow> []) [0..<length reqs]"
    by (rule map_cong) (auto simp: nth_append stands_snoc split: timeline_request.split)
  have upto: "[0..<length (reqs @ [Timeline_add e])] = [0..<length reqs] @ [length reqs]" by simp
  show ?thesis unfolding standing_def [of "reqs @ [Timeline_add e]"] upto map_append same
    using fresh by (simp add: standing_def [of reqs, symmetric])
qed

lemma standing_snoc_remove: "standing (reqs @ [Timeline_remove i]) = filter (\<lambda>e. te_id e \<noteq> i) (standing reqs)"
proof -
  have "map (\<lambda>k. case (reqs @ [Timeline_remove i]) ! k of Timeline_add f \<Rightarrow> if stands (reqs @ [Timeline_remove i]) k (te_id f) then [f] else [] | Timeline_remove _ \<Rightarrow> [])
      [0..<length reqs] =
    map (\<lambda>k. filter (\<lambda>e. te_id e \<noteq> i) (case reqs ! k of Timeline_add f \<Rightarrow> if stands reqs k (te_id f) then [f] else [] | Timeline_remove _ \<Rightarrow> [])) [0..<length reqs]"
    by (rule map_cong) (auto simp: nth_append stands_snoc split: timeline_request.split)
  note same = this
  have upto: "[0..<length (reqs @ [Timeline_remove i])] = [0..<length reqs] @ [length reqs]" by simp
  show ?thesis unfolding standing_def upto map_append same by (simp add: filter_concat o_def)
qed

text \<open>An event without the number that the timeline gives it.\<close>

definition plain :: "timeline_event \<Rightarrow> timeline_event" where
  "plain e = e\<lparr>te_order := 0\<rparr>"

lemma plain_simps [simp]: "te_id (plain e) = te_id e" "date_key (plain e) = date_key e" "plain (e\<lparr>te_order := n\<rparr>) = plain e"
  by (simp_all add: plain_def date_key_def)

lemma reorder_plain [simp]: "map plain (reorder es) = map plain es"
  by (simp add: reorder_def o_def split: option.split cong: map_cong)

lemma plain_ids: "map plain es = map plain fs \<Longrightarrow> map te_id es = map te_id fs"
  by (metis (no_types, lifting) comp_apply list.map_comp map_eq_conv plain_simps(1))

lemma timeline_standing: "map plain (tl_events (fold timeline_step reqs \<lparr>tl_case_id = c, tl_events = []\<rparr>)) = map plain (standing reqs)"
proof (induction reqs rule: rev_induct)
  case Nil
  then show ?case by (simp add: standing_def)
next
  case (snoc r reqs)
  let ?t = "fold timeline_step reqs \<lparr>tl_case_id = c, tl_events = []\<rparr>"
  have ids: "te_id ` set (tl_events ?t) = te_id ` set (standing reqs)" using plain_ids [OF snoc] by (metis list.set_map)
  show ?case
  proof (cases r)
    case (Timeline_add e)
    then show ?thesis using snoc ids by (auto simp: add_event_def py_bind_split standing_snoc_add)
  next
    case (Timeline_remove i)
    have "map plain (filter (\<lambda>e. te_id e \<noteq> i) es) = filter (\<lambda>e. te_id e \<noteq> i) (map plain es)" for es by (simp add: filter_map o_def)
    then show ?thesis using snoc Timeline_remove by (simp add: remove_event_def standing_snoc_remove)
  qed
qed

section \<open>The versions of a document\<close>

definition document_inv :: "document_aggregate \<Rightarrow> bool" where
  "document_inv a =
     (dc_id (da_document a) \<noteq> [] \<and> dc_version_count (da_document a) = int (length (da_versions a)) \<and>
      map dv_version_number (da_versions a) = [1..int (length (da_versions a))] \<and>
      (\<forall>v \<in> set (da_versions a). dv_document_id v = dc_id (da_document a)))"

lemma append_version_step:
  assumes "document_inv a"
  shows "document_inv (snd (append_version now vid path hash comment by_user a)) \<and>
    (\<exists>v. fst (append_version now vid path hash comment by_user a) = Inr v \<and>
      da_versions (snd (append_version now vid path hash comment by_user a)) = da_versions a @ [v] \<and>
      dv_version_number v = int (length (da_versions a)) + 1 \<and> dv_file_hash v = Some hash)"
proof -
  have upt: "[1..1 + int n] = [1..int n] @ [1 + int n]" for n by (simp add: upto_rec2)
  show ?thesis
    using assms by (auto simp: append_version_def py_bind_split document_version_post_init_def on_document_def increment_version_def
        touch_document_def document_inv_def upt add.commute [of _ 1])
qed

lemma on_document_inv:
  assumes "document_inv a" and "dc_id (f (da_document a)) = dc_id (da_document a)"
    and "dc_version_count (f (da_document a)) = dc_version_count (da_document a)"
  shows "document_inv (on_document f a)"
  using assms by (simp add: document_inv_def on_document_def)

lemma document_step_inv:
  assumes "document_inv a"
  shows "document_inv (document_step r a) \<and> prefix (da_versions a) (da_versions (document_step r a))"
proof (cases r)
  case (Document_import now vid path hash mime lang)
  let ?a = "on_document (\<lambda>d. mark_imported now (d\<lparr>dc_file_path := Some path, dc_file_hash := Some hash, dc_mime_type := mime, dc_language := lang\<rparr>)) a"
  have "document_inv ?a" using assms by (rule on_document_inv) (simp_all add: mark_imported_def touch_document_def)
  from append_version_step [OF this, of now vid path hash "''Initial import''" "[]"] assms show ?thesis unfolding Document_import
    by (auto simp: import_document_def py_bind_split on_document_def split: sum.split)
next
  case (Document_version now vid path hash comment by_user)
  then show ?thesis using append_version_step [OF assms, of now vid path hash comment by_user] assms
    by (auto simp: add_version_def py_bind_split)
qed (use assms in \<open>auto simp: da_mark_processing_def mark_processing_def da_mark_processed_def mark_processed_def da_mark_failed_def
   mark_failed_def mark_duplicate_def mark_ocr_complete_def mark_embeddings_ready_def touch_document_def on_document_def document_inv_def\<close>)

lemma document_run_inv:
  assumes "document_inv a"
  shows "document_inv (fold document_step rs a) \<and> prefix (da_versions a) (da_versions (fold document_step rs a))"
  using assms
proof (induction rs arbitrary: a)
  case (Cons r rs)
  from document_step_inv [OF Cons.prems, of r] Cons.IH [of "document_step r a"] show ?case
    by (auto intro: prefix_order.trans)
qed simp

section \<open>The other invariants\<close>

definition graph_inv :: "knowledge_graph \<Rightarrow> bool" where
  "graph_inv g =
     (distinct (map (\<lambda>r. (rl_source_id r, rl_target_id r, rl_type r)) (kg_relationships g)) \<and>
      (\<forall>r \<in> set (kg_relationships g). rl_source_id r \<noteq> rl_target_id r))"

lemma graph_step_inv: "graph_inv g \<Longrightarrow> graph_inv (graph_step r g)"
proof -
  assume g: "graph_inv g"
  show ?thesis
  proof (cases r)
    case (Graph_add e)
    show ?thesis
    proof (cases "relationship_post_init e")
      case (Inl err)
      then show ?thesis using g Graph_add by simp
    next
      case (Inr e')
      then have "e' = e" "rl_source_id e \<noteq> rl_target_id e" by (auto simp: relationship_post_init_def split: if_splits)
      then show ?thesis using g Graph_add Inr by (auto simp: graph_inv_def add_relationship_def py_bind_split same_edge_def)
    qed
  next
    case (Graph_remove i)
    then show ?thesis using g by (auto simp: graph_inv_def remove_relationship_def intro!: distinct_map_filter)
  qed
qed

lemma connected_set:
  "set (connected_entities x g) = {y. \<exists>r \<in> set (kg_relationships g). rl_source_id r = x \<and> rl_target_id r = y \<or> rl_target_id r = x \<and> rl_source_id r = y}"
  by (auto simp: connected_entities_def relationships_from_def relationships_to_def)

lemma connected_nonempty: "connected_entities x g \<noteq> [] \<longleftrightarrow> (\<exists>y. y \<in> set (connected_entities x g))"
  by (cases "connected_entities x g") auto

lemma node_set: "set (node_ids g) = {x. \<exists>r \<in> set (kg_relationships g). x = rl_source_id r \<or> x = rl_target_id r}"
  by (auto simp: node_ids_def)

definition evidence_inv :: "evidence_collection \<Rightarrow> bool" where
  "evidence_inv a = (distinct (map ev_id (ec_evidence a)) \<and> (\<forall>e \<in> set (ec_evidence a). ec_case_id a \<in> set (ev_case_ids e)))"

lemma evidence_link_simps [simp]:
  "ev_id (evidence_link_to_case now i e) = ev_id e" "set (ev_case_ids (evidence_link_to_case now i e)) = insert i (set (ev_case_ids e))"
  by (auto simp: evidence_link_to_case_def)

lemma evidence_step_inv: "evidence_inv a \<Longrightarrow> evidence_inv (evidence_step r a)"
  by (cases r) (auto simp: evidence_inv_def ec_add_def ec_remove_def py_bind_split intro!: distinct_map_filter)

lemma evidence_step_case [simp]: "ec_case_id (evidence_step r a) = ec_case_id a"
  by (cases r) (simp_all add: ec_add_def ec_remove_def py_bind_split)

definition investigation_inv :: "investigation_aggregate \<Rightarrow> bool" where
  "investigation_inv a =
     (distinct (map fi_id (ia_findings a)) \<and> fi_id ` set (ia_findings a) \<subseteq> set (iv_finding_ids (ia_investigation a)) \<and>
      (iv_is_completed (ia_investigation a) \<longrightarrow> ia_findings a \<noteq> []))"

lemma investigation_step_inv: "investigation_inv a \<Longrightarrow> investigation_inv (investigation_step r a)"
  by (cases r) (auto simp: investigation_inv_def ia_add_finding_def ia_add_document_def ia_complete_def py_bind_split
      investigation_add_finding_def investigation_add_document_def investigation_complete_def)

definition workspace_inv :: "int \<Rightarrow> int \<Rightarrow> workspace_aggregate \<Rightarrow> bool" where
  "workspace_inv d c a =
     (distinct (wx_document_ids a) \<and> distinct (wx_case_ids a) \<and> distinct (wx_collaborator_ids a) \<and>
      ws_document_count (wx_workspace a) \<ge> d + wx_document_count a \<and> ws_case_count (wx_workspace a) \<ge> c + wx_case_count a)"

lemma length_filter_int: "int (length (filter P xs)) \<le> int (length xs)"
  by simp

lemma workspace_step_inv:
  assumes "workspace_inv d c a"
  shows "workspace_inv d c (workspace_step r a)"
proof -
  note ops = wx_document_count_def wx_case_count_def on_workspace_def touch_def increment_document_count_def increment_case_count_def
  show ?thesis
  proof (cases r)
    case (Workspace_drop_document now i)
    then show ?thesis using assms by (simp add: workspace_inv_def wx_remove_document_def ops)
        (use length_filter_le [of "\<lambda>d. d \<noteq> i" "wx_document_ids a"] in linarith)
  next
    case (Workspace_drop_case now i)
    then show ?thesis using assms by (simp add: workspace_inv_def wx_remove_case_def ops)
        (use length_filter_le [of "\<lambda>d. d \<noteq> i" "wx_case_ids a"] in linarith)
  qed (use assms in \<open>auto simp: workspace_inv_def wx_add_document_def wx_add_case_def wx_add_collaborator_def wx_remove_collaborator_def
     wx_deactivate_def wx_activate_def deactivate_def activate_def py_bind_split ops\<close>)
qed

definition case_inv :: "case_aggregate \<Rightarrow> bool" where
  "case_inv a =
     (distinct (cs_document_ids (ca_case a)) \<and> distinct (cs_evidence_ids (ca_case a)) \<and> distinct (cs_person_ids (ca_case a)) \<and>
      distinct (ca_statement_ids a) \<and> distinct (ca_event_ids a))"

lemma case_step_inv: "case_inv a \<Longrightarrow> case_inv (case_step r a)"
  by (cases r) (auto simp: case_inv_def ca_add_document_def ca_remove_document_def ca_add_evidence_def ca_add_person_def ca_add_statement_def
      ca_add_timeline_event_def ca_close_def ca_reopen_def on_case_def touch_case_def case_add_document_def case_remove_document_def
      case_add_evidence_def case_add_person_def case_close_def case_reopen_def py_bind_split)

text \<open>What closes a case, and what reopens it.\<close>

lemma case_close_outcome:
  "ca_close now a =
    (if cs_document_ids (ca_case a) = [] then (Inl (invariant_violated ''Cannot close a case with no documents''), a)
     else (Inr (), on_case (case_close now) a))"
  by (simp add: ca_close_def py_bind_split)

section \<open>Properties\<close>

text \<open>C37: 
  Whatever is added to and removed from a timeline, it holds, in the order of the requests, exactly the events that stand: those added
  while their identifier was free and not removed since. They have distinct identifiers and are numbered from one on, and
  \<open>ordered_events\<close> lists them by date, events of the same date in the order in which they were added. The date of an event that has
  only a range counts as empty, so such events come first. (The numbers aside, the events are those of the requests.)
\<close>

theorem timeline_chronological:
  "let t = fold timeline_step reqs \<lparr>tl_case_id = c, tl_events = []\<rparr> in
    map plain (tl_events t) = map plain (standing reqs) \<and> map plain (ordered_events t) = map plain (sort_key date_key (standing reqs)) \<and>
    distinct (event_ids t) \<and> map te_order (ordered_events t) = [1..event_count t] \<and> sorted (map date_key (ordered_events t))"
proof -
  define t where "t = fold timeline_step reqs \<lparr>tl_case_id = c, tl_events = []\<rparr>"
  have "timeline_inv \<lparr>tl_case_id = c, tl_events = []\<rparr>" by (auto simp: timeline_inv_def reorder_def intro: exI [of _ "[]"])
  then have "timeline_inv t" unfolding t_def
    by (intro fold_invariant_step [where I = timeline_inv] timeline_inv_step)
  then obtain es where es: "tl_events t = reorder es" "distinct (map te_id es)" by (auto simp: timeline_inv_def)
  have "length (reorder es) = length es" by (simp add: reorder_def)
  then have order: "distinct (event_ids t)" "map te_order (ordered_events t) = [1..event_count t]"
    "ordered_events t = sort_key date_key (tl_events t)"
    using reorder_sorted [OF es(2)] es by (simp_all add: event_ids_def ordered_events_def event_count_def)
  have plain: "map plain (tl_events t) = map plain (standing reqs)" unfolding t_def by (rule timeline_standing)
  have "map plain (sort_key date_key xs) = sort_key date_key (map plain xs)" for xs
    by (rule sort_key_map [symmetric]) simp
  then have "map plain (ordered_events t) = map plain (sort_key date_key (standing reqs))" using plain order(3) by metis
  with plain order show ?thesis unfolding Let_def t_def [symmetric] by simp
qed

text \<open>C40: 
  The versions of a document are append-only and numbered from one on without gaps, whatever is requested of a new document; the
  count in the document is their number, and the latest version is the one that counts.
\<close>

theorem document_versions_append_only:
  assumes "dc_id d \<noteq> []" and "dc_version_count d = 0"
  shows "let a = fold document_step reqs \<lparr>da_document = d, da_versions = []\<rparr>; b = fold document_step later a in
    map dv_version_number (da_versions a) = [1..da_version_count a] \<and> dc_version_count (da_document a) = da_version_count a \<and>
    (case da_latest_version a of None \<Rightarrow> da_version_count a = 0 | Some v \<Rightarrow> dv_version_number v = da_version_count a) \<and>
    prefix (da_versions a) (da_versions b)"
proof -
  let ?a = "fold document_step reqs \<lparr>da_document = d, da_versions = []\<rparr>"
  have "document_inv \<lparr>da_document = d, da_versions = []\<rparr>" using assms by (simp add: document_inv_def)
  then have a: "document_inv ?a" using document_run_inv by blast
  then have "case da_latest_version ?a of None \<Rightarrow> da_version_count ?a = 0 | Some v \<Rightarrow> dv_version_number v = da_version_count ?a"
  proof (cases "da_versions ?a" rule: rev_cases)
    case (snoc vs v)
    have "last (map dv_version_number (da_versions ?a)) = last [1..int (length (da_versions ?a))]" using a by (simp add: document_inv_def)
    then have "dv_version_number v = int (length (da_versions ?a))" using snoc by (simp add: upto_rec2)
    then show ?thesis using snoc by (simp add: da_latest_version_def da_version_count_def)
  qed (simp add: da_latest_version_def da_version_count_def)
  then show ?thesis using a document_run_inv [OF a, of later] by (simp add: Let_def document_inv_def da_version_count_def)
qed

text \<open>
  A knowledge graph never has a loop nor two relationships of one type between the same source and target, and it is read
  symmetrically: an entity is connected to another exactly if that one is connected to it, and never to itself.
\<close>

theorem knowledge_graph_simple:
  "let g = fold graph_step reqs \<lparr>kg_case_id = c, kg_relationships = []\<rparr> in
    distinct (map (\<lambda>r. (rl_source_id r, rl_target_id r, rl_type r)) (kg_relationships g)) \<and>
    (x \<in> set (connected_entities y g) \<longleftrightarrow> y \<in> set (connected_entities x g)) \<and> x \<notin> set (connected_entities x g) \<and>
    set (node_ids g) = {x. connected_entities x g \<noteq> []}"
proof -
  have "graph_inv (fold graph_step reqs \<lparr>kg_case_id = c, kg_relationships = []\<rparr>)"
    by (rule fold_invariant_step [where I = "graph_inv", OF graph_step_inv]) (simp_all add: graph_inv_def)
  then show ?thesis
    unfolding Let_def connected_nonempty node_set connected_set graph_inv_def mem_Collect_eq by (intro conjI) auto
qed

text \<open>
  In an evidence collection every item is listed once and linked to the case of the collection; an investigation that was
  completed through its aggregate has findings, and the investigation lists them all.
\<close>

theorem collected_evidence_and_findings:
  "let a = fold evidence_step reqs \<lparr>ec_case_id = c, ec_evidence = []\<rparr>;
       b = fold investigation_step steps \<lparr>ia_investigation = v\<lparr>iv_is_completed := False\<rparr>, ia_findings = []\<rparr> in
    distinct (ec_evidence_ids a) \<and> {e \<in> set (ec_evidence a). c \<notin> set (ev_case_ids e)} = {} \<and>
    distinct (map fi_id (ia_findings b)) \<and> fi_id ` set (ia_findings b) \<subseteq> set (iv_finding_ids (ia_investigation b)) \<and>
    \<not> (iv_is_completed (ia_investigation b) \<and> ia_finding_count b = 0)"
proof -
  let ?a = "fold evidence_step reqs \<lparr>ec_case_id = c, ec_evidence = []\<rparr>"
  let ?b = "fold investigation_step steps \<lparr>ia_investigation = v\<lparr>iv_is_completed := False\<rparr>, ia_findings = []\<rparr>"
  have "evidence_inv ?a" by (rule fold_invariant_step [where I = "evidence_inv", OF evidence_step_inv]) (simp_all add: evidence_inv_def)
  moreover have "ec_case_id ?a = c"
    by (rule fold_invariant_step [where I = "\<lambda>a. ec_case_id a = c"]) simp_all
  moreover have "investigation_inv ?b"
    by (rule fold_invariant_step [where I = "investigation_inv", OF investigation_step_inv]) (simp_all add: investigation_inv_def)
  ultimately show ?thesis by (auto simp: Let_def evidence_inv_def investigation_inv_def ec_evidence_ids_def ia_finding_count_def)
qed

text \<open>
  The counters of a workspace never fall: \<open>remove_document\<close> and \<open>remove_case\<close> take the identifier out of the aggregate but do not
  count down. The counters therefore are at least, and after \<open>n\<close> times adding and removing one document exactly \<open>n\<close> above,
  the numbers of documents and cases that are there.
\<close>

theorem workspace_counters_drift:
  "let start = \<lparr>wx_workspace = w, wx_document_ids = [], wx_case_ids = [], wx_collaborator_ids = []\<rparr>;
       a = fold workspace_step reqs start; b = ((\<lambda>x. wx_remove_document now i (snd (wx_add_document now i x))) ^^ n) start in
    distinct (wx_document_ids a) \<and> ws_document_count (wx_workspace a) \<ge> ws_document_count w + wx_document_count a \<and>
    distinct (wx_case_ids a) \<and> ws_case_count (wx_workspace a) \<ge> ws_case_count w + wx_case_count a \<and>
    wx_document_count b = 0 \<and> ws_document_count (wx_workspace b) = ws_document_count w + int n"
proof -
  let ?start = "\<lparr>wx_workspace = w, wx_document_ids = [], wx_case_ids = [], wx_collaborator_ids = []\<rparr>"
  let ?b = "((\<lambda>x. wx_remove_document now i (snd (wx_add_document now i x))) ^^ n) ?start"
  have "workspace_inv (ws_document_count w) (ws_case_count w) (fold workspace_step reqs ?start)"
    by (rule fold_invariant_step [where I = "workspace_inv (ws_document_count w) (ws_case_count w)", OF workspace_step_inv])
       (simp_all add: workspace_inv_def wx_document_count_def wx_case_count_def)
  moreover have "wx_document_ids ?b = [] \<and> ws_document_count (wx_workspace ?b) = ws_document_count w + int n"
    by (induction n) (simp_all add: wx_remove_document_def wx_add_document_def py_bind_split on_workspace_def touch_def increment_document_count_def)
  ultimately show ?thesis by (simp add: Let_def workspace_inv_def wx_document_count_def)
qed

section \<open>Witnesses\<close>

lemma document_versions_append_only_witness:
  "\<exists>d. let a = fold document_step [Document_import 1 ''v'' ''p'' ''h'' [] None, Document_version 2 ''u'' ''p'' ''k'' [] []] \<lparr>da_document = d, da_versions = []\<rparr>
    in map dv_version_number (da_versions a) = [1, 2] \<and> dc_version_count (da_document a) = 2"
proof -
  let ?d = "\<lparr>dc_id = ''d'', dc_workspace_id = ''w'', dc_title = [], dc_file_path = None, dc_file_hash = None,
     dc_mime_type = [], dc_type = DT_OTHER, dc_status = DOC_DRAFT, dc_processing_status = PS_PENDING, dc_language = None,
     dc_case_ids = [], dc_tag_names = [], dc_version_count = 0, dc_is_duplicate = False, dc_has_ocr = False,
     dc_has_embeddings = False, dc_created_at = 1, dc_updated_at = 1\<rparr>"
  let ?r = "[Document_import 1 ''v'' ''p'' ''h'' [] None, Document_version 2 ''u'' ''p'' ''k'' [] []]"
  have "da_version_count (fold document_step ?r \<lparr>da_document = ?d, da_versions = []\<rparr>) = 2" by code_simp
  moreover have "[1..2 :: int] = [1, 2]" by code_simp
  moreover have "dc_id ?d \<noteq> []" "dc_version_count ?d = 0" by simp_all
  ultimately show ?thesis
    using document_versions_append_only [of ?d ?r "[]"] unfolding Let_def by (intro exI [of _ ?d]) metis
qed

end
