(* ===== verification/Domain_Policies.thy ===== *)
theory Domain_Policies
  imports Domain_Aggregates
begin

text \<open>
  The business rules of \<open>domain/policies/\<close>, the composable specifications of \<open>domain/specifications/\<close> and
  \<open>domain/repositories/query_specifications.py\<close>, and the factories of \<open>domain/factories/\<close>. A factory takes the identifier
  and the time the new entity gets. The policies are applied to the aggregates: which evidence of a collection is admissible, and what
  the counters of a workspace make of its limits.
\<close>

section \<open>Policies\<close>

definition is_duplicate :: "document \<Rightarrow> string set \<Rightarrow> bool" where
  "is_duplicate d existing_hashes =
     (dc_is_duplicate d \<or> (case dc_file_hash d of None \<Rightarrow> False | Some h \<Rightarrow> h \<in> existing_hashes))"

record evidence_policy =
  ep_min_documents :: int
  ep_min_cases :: int

definition evidence_valid :: "evidence_policy \<Rightarrow> evidence \<Rightarrow> bool" where
  "evidence_valid p e = (int (length (ev_document_ids e)) \<ge> ep_min_documents p \<and> int (length (ev_case_ids e)) \<ge> ep_min_cases p)"

definition timeline_event_valid :: "timeline_event \<Rightarrow> bool" where
  "timeline_event_valid e =
     ((te_date e \<noteq> None \<or> te_range_start e \<noteq> None) \<and> (te_document_ids e \<noteq> [] \<or> te_statement_ids e \<noteq> []))"

definition citation_valid :: "string \<Rightarrow> string \<Rightarrow> bool" where
  "citation_valid citation_text document_id = (str_strip citation_text \<noteq> [] \<and> document_id \<noteq> [])"

definition PROTECTED_STATUSES :: "document_status set" where
  "PROTECTED_STATUSES = {DOC_PROCESSING, DOC_IMPORTING}"

definition can_delete :: "document_status set \<Rightarrow> document \<Rightarrow> bool" where
  "can_delete protected d = (dc_status d \<notin> protected)"

record workspace_policy =
  wp_max_documents :: int
  wp_max_cases :: int

definition can_add_document :: "workspace_policy \<Rightarrow> workspace \<Rightarrow> bool" where
  "can_add_document p w = (if wp_max_documents p = 0 then True else ws_document_count w < wp_max_documents p)"

definition can_add_case :: "workspace_policy \<Rightarrow> workspace \<Rightarrow> bool" where
  "can_add_case p w = (if wp_max_cases p = 0 then True else ws_case_count w < wp_max_cases p)"

section \<open>Specifications\<close>

text \<open>The entities a specification may be asked about; \<open>Other_entity\<close> stands for all that no specification knows.\<close>

datatype candidate =
    A_document document | A_case legal_case | An_evidence evidence | A_statement statement | A_finding finding
  | A_timeline_event timeline_event | Other_entity

datatype spec =
    Is_duplicate | Has_OCR | Is_processed | Has_embeddings | Has_timeline | Has_graph
  | Belongs_to_workspace string | Belongs_to_case string
  | Documents_with_OCR | Documents_without_embeddings | Evidence_by_person string | Evidence_by_type evidence_type
  | Timeline_between string string | Findings_by_risk | Documents_by_language string
  | And_spec spec spec | Or_spec spec spec | Not_spec spec

fun satisfied :: "spec \<Rightarrow> candidate \<Rightarrow> bool" where
  "satisfied Is_duplicate c = (case c of A_document d \<Rightarrow> dc_is_duplicate d | _ \<Rightarrow> False)"
| "satisfied Has_OCR c = (case c of A_document d \<Rightarrow> dc_has_ocr d | _ \<Rightarrow> False)"
| "satisfied Is_processed c = (case c of A_document d \<Rightarrow> dc_status d = DOC_PROCESSED | _ \<Rightarrow> False)"
| "satisfied Has_embeddings c = (case c of A_document d \<Rightarrow> dc_has_embeddings d | _ \<Rightarrow> False)"
| "satisfied Has_timeline c = (case c of A_case _ \<Rightarrow> True | _ \<Rightarrow> False)"
| "satisfied Has_graph c = (case c of A_case _ \<Rightarrow> True | _ \<Rightarrow> False)"
| "satisfied (Belongs_to_workspace w) c =
     (case c of A_document d \<Rightarrow> dc_workspace_id d = w | A_case k \<Rightarrow> cs_workspace_id k = w | _ \<Rightarrow> False)"
| "satisfied (Belongs_to_case i) c =
     (case c of An_evidence e \<Rightarrow> i \<in> set (ev_case_ids e) | A_statement s \<Rightarrow> sm_case_id s = i | _ \<Rightarrow> False)"
| "satisfied Documents_with_OCR c = (case c of A_document d \<Rightarrow> dc_has_ocr d | _ \<Rightarrow> False)"
| "satisfied Documents_without_embeddings c = (case c of A_document d \<Rightarrow> \<not> dc_has_embeddings d | _ \<Rightarrow> False)"
| "satisfied (Evidence_by_person p) c = (case c of An_evidence e \<Rightarrow> ev_document_ids e \<noteq> [] | _ \<Rightarrow> False)"
| "satisfied (Evidence_by_type t) c = (case c of An_evidence e \<Rightarrow> ev_type e = t | _ \<Rightarrow> False)"
| "satisfied (Timeline_between first_date last_date) c =
     (case c of A_timeline_event e \<Rightarrow> (case te_date e of None \<Rightarrow> False | Some d \<Rightarrow> first_date \<le> d \<and> d \<le> last_date) | _ \<Rightarrow> False)"
| "satisfied Findings_by_risk c = (case c of A_finding _ \<Rightarrow> True | _ \<Rightarrow> False)"
| "satisfied (Documents_by_language l) c = (case c of A_document d \<Rightarrow> dc_language d = Some l | _ \<Rightarrow> False)"
| "satisfied (And_spec a b) c = (satisfied a c \<and> satisfied b c)"
| "satisfied (Or_spec a b) c = (satisfied a c \<or> satisfied b c)"
| "satisfied (Not_spec a) c = (\<not> satisfied a c)"

section \<open>Factories\<close>

definition create_workspace :: "string \<Rightarrow> int \<Rightarrow> string \<Rightarrow> string \<Rightarrow> string \<Rightarrow> exn + workspace" where
  "create_workspace i now name owner_id description =
     workspace_post_init \<lparr>ws_id = i, ws_name = name, ws_description = description, ws_owner_id = owner_id, ws_is_active = True,
       ws_document_count = 0, ws_case_count = 0, ws_created_at = now, ws_updated_at = now\<rparr>"

definition create_case :: "string \<Rightarrow> int \<Rightarrow> string \<Rightarrow> string \<Rightarrow> string \<Rightarrow> exn + legal_case" where
  "create_case i now workspace_id title description =
     case_post_init \<lparr>cs_id = i, cs_workspace_id = workspace_id, cs_title = title, cs_description = description, cs_status = CASE_OPEN,
       cs_document_ids = [], cs_evidence_ids = [], cs_person_ids = [], cs_created_at = now, cs_updated_at = now\<rparr>"

definition create_document :: "string \<Rightarrow> int \<Rightarrow> string \<Rightarrow> string \<Rightarrow> exn + document" where
  "create_document i now workspace_id title =
     document_post_init \<lparr>dc_id = i, dc_workspace_id = workspace_id, dc_title = title, dc_file_path = None, dc_file_hash = None,
       dc_mime_type = [], dc_type = DT_OTHER, dc_status = DOC_DRAFT, dc_processing_status = PS_PENDING, dc_language = None,
       dc_case_ids = [], dc_tag_names = [], dc_version_count = 0, dc_is_duplicate = False, dc_has_ocr = False,
       dc_has_embeddings = False, dc_created_at = now, dc_updated_at = now\<rparr>"

definition create_document_aggregate :: "string \<Rightarrow> int \<Rightarrow> string \<Rightarrow> string \<Rightarrow> exn + document_aggregate" where
  "create_document_aggregate i now workspace_id title =
     (case create_document i now workspace_id title of Inl e \<Rightarrow> Inl e | Inr d \<Rightarrow> Inr \<lparr>da_document = d, da_versions = []\<rparr>)"

definition create_evidence :: "string \<Rightarrow> int \<Rightarrow> string list \<Rightarrow> evidence_type \<Rightarrow> string \<Rightarrow> exn + evidence" where
  "create_evidence i now document_ids ty description =
     evidence_post_init \<lparr>ev_id = i, ev_case_ids = [], ev_document_ids = document_ids, ev_type = ty, ev_description = description,
       ev_source = [], ev_is_authentic = None, ev_created_at = now, ev_updated_at = now\<rparr>"

definition create_statement :: "string \<Rightarrow> int \<Rightarrow> string \<Rightarrow> string \<Rightarrow> string option \<Rightarrow> string option \<Rightarrow> statement_type \<Rightarrow> exn + statement" where
  "create_statement i now case_id content source_person_id source_document_id ty =
     statement_post_init \<lparr>sm_id = i, sm_person_id = source_person_id, sm_document_id = source_document_id, sm_case_id = case_id,
       sm_type = ty, sm_content = content, sm_date_made = None, sm_context = [], sm_created_at = now, sm_updated_at = now\<rparr>"

definition create_investigation :: "string \<Rightarrow> int \<Rightarrow> string \<Rightarrow> string \<Rightarrow> exn + investigation" where
  "create_investigation i now case_id title =
     investigation_post_init \<lparr>iv_id = i, iv_case_id = case_id, iv_title = title, iv_description = [], iv_lead_id = None,
       iv_document_ids = [], iv_evidence_ids = [], iv_finding_ids = [], iv_is_completed = False, iv_created_at = now, iv_updated_at = now\<rparr>"

definition create_finding :: "string \<Rightarrow> int \<Rightarrow> string \<Rightarrow> string \<Rightarrow> string \<Rightarrow> exn + finding" where
  "create_finding i now investigation_id title description =
     finding_post_init \<lparr>fi_id = i, fi_investigation_id = investigation_id, fi_title = title, fi_description = description,
       fi_confidence = MEDIUM, fi_document_ids = [], fi_evidence_ids = [], fi_created_at = now, fi_updated_at = now\<rparr>"

section \<open>Lemmas\<close>

lemma wx_add_remove_cycle:
  "wx_document_ids a = [] \<Longrightarrow>
    wx_document_ids (((\<lambda>x. wx_remove_document now i (snd (wx_add_document now i x))) ^^ n) a) = [] \<and>
    ws_document_count (wx_workspace (((\<lambda>x. wx_remove_document now i (snd (wx_add_document now i x))) ^^ n) a)) =
      ws_document_count (wx_workspace a) + int n"
  by (induction n) (simp_all add: wx_remove_document_def wx_add_document_def py_bind_split on_workspace_def touch_def increment_document_count_def)

lemma find_appended: "\<forall>x \<in> set xs. \<not> P x \<Longrightarrow> P y \<Longrightarrow> find P (xs @ [y]) = Some y"
  by (induction xs) auto

section \<open>Properties\<close>

text \<open>
  A new document aggregate is imported exactly once: the first import succeeds and makes version one, and after it every import is
  refused without changing anything, whatever was requested in between.
\<close>

theorem document_imported_once:
  assumes "create_document_aggregate i now w title = Inr a" and "i \<noteq> []"
  shows "\<exists>b. import_document t vid path hash mime lang a = (Inr (), b) \<and> dc_status (da_document b) = DOC_IMPORTED \<and> da_version_count b = 1 \<and>
    (let c = fold document_step reqs b in
     import_document t' vid' path' hash' mime' lang' c =
       (Inl (invariant_violated (''Cannot import document in status '' @ quoted (document_status_value (dc_status (da_document c))))), c))"
proof -
  have a: "da_versions a = []" "dc_id (da_document a) = i" "dc_status (da_document a) = DOC_DRAFT" "dc_version_count (da_document a) = 0"
    using assms(1) by (auto simp: create_document_aggregate_def create_document_def document_post_init_def split: if_splits)
  define b where "b = snd (import_document t vid path hash mime lang a)"
  have b: "import_document t vid path hash mime lang a = (Inr (), b)" "dc_status (da_document b) = DOC_IMPORTED" "da_version_count b = 1"
    using a assms(2) unfolding b_def
    by (simp_all add: import_document_def append_version_def py_bind_split on_document_def mark_imported_def increment_version_def
        touch_document_def document_version_post_init_def da_version_count_def)
  have keep: "dc_status (da_document (document_step r x)) \<notin> {DOC_DRAFT, DOC_PENDING_IMPORT}"
    if "dc_status (da_document x) \<notin> {DOC_DRAFT, DOC_PENDING_IMPORT}" for r x
    using that by (cases r) (auto simp: import_document_def add_version_def append_version_def py_bind_split on_document_def
        increment_version_def touch_document_def da_mark_processing_def mark_processing_def da_mark_processed_def mark_processed_def
        da_mark_failed_def mark_failed_def mark_duplicate_def mark_ocr_complete_def mark_embeddings_ready_def split: sum.split)
  have "dc_status (da_document (fold document_step reqs b)) \<notin> {DOC_DRAFT, DOC_PENDING_IMPORT}"
    by (rule fold_invariant_step [where I = "\<lambda>x. dc_status (da_document x) \<notin> {DOC_DRAFT, DOC_PENDING_IMPORT}"]) (erule keep, simp add: b(2))
  then show ?thesis using b by (intro exI [of _ b]) (simp add: Let_def import_document_def py_bind_split)
qed

text \<open>
  A workspace with a limit of \<open>n\<close> documents takes no more once a document has been added and removed \<open>n\<close> times, although
  it then holds none; without a limit it always does.
\<close>

theorem document_limit_counts_removed:
  assumes "create_workspace k now name owner descr = Inr w" and "0 < n" and "wp_max_documents p \<in> {0, int n}"
  shows "let b = ((\<lambda>x. wx_remove_document t i (snd (wx_add_document t i x))) ^^ n)
        \<lparr>wx_workspace = w, wx_document_ids = [], wx_case_ids = [], wx_collaborator_ids = []\<rparr>
    in can_add_document p w \<and> wx_document_count b = 0 \<and> (can_add_document p (wx_workspace b) \<longleftrightarrow> wp_max_documents p = 0)"
proof -
  have "ws_document_count w = 0" using assms(1) by (auto simp: create_workspace_def workspace_post_init_def split: if_splits)
  then show ?thesis
    using wx_add_remove_cycle [where a = "\<lparr>wx_workspace = w, wx_document_ids = [], wx_case_ids = [], wx_collaborator_ids = []\<rparr>" and i = i and n = n] assms(2,3)
    by (auto simp: Let_def can_add_document_def wx_document_count_def)
qed

text \<open>
  Evidence made by the factory for some documents is admissible, under the default policy, from the moment it is in a collection.
\<close>

theorem collected_evidence_valid:
  assumes "create_evidence i now docs ty descr = Inr e" and "ec_add t e a = (Inr (), b)"
  shows "\<exists>e'. ec_get i b = Some e' \<and> evidence_valid \<lparr>ep_min_documents = 1, ep_min_cases = 1\<rparr> e' \<and> ev_document_ids e' = docs \<and>
    \<not> evidence_valid \<lparr>ep_min_documents = 1, ep_min_cases = 1\<rparr> e"
proof -
  have e: "docs \<noteq> []" "ev_document_ids e = docs" "ev_id e = i" "ev_case_ids e = []"
    using assms(1) by (auto simp: create_evidence_def evidence_post_init_def split: if_splits)
  have "\<forall>x \<in> set (ec_evidence a). \<not> ev_id x = i" "ec_evidence b = ec_evidence a @ [evidence_link_to_case t (ec_case_id a) e]"
    using assms(2) e(3) by (auto simp: ec_add_def py_bind_split image_iff split: if_splits)
  then have "ec_get i b = Some (evidence_link_to_case t (ec_case_id a) e)" using e(3) by (simp add: ec_get_def find_appended)
  moreover have "0 < length docs" using e(1) by simp
  ultimately show ?thesis using e by (simp add: evidence_link_to_case_def evidence_valid_def Suc_le_eq)
qed

section \<open>Witnesses\<close>

lemma document_imported_once_witness:
  "\<exists>a b. create_document_aggregate ''d'' 1 ''w'' [] = Inr a \<and> import_document 2 ''v'' ''p'' ''h'' [] None a = (Inr (), b) \<and>
    fst (import_document 3 ''u'' ''p'' ''h'' [] None b) = Inl (invariant_violated (''Cannot import document in status '' @ quoted ''imported''))"
proof -
  obtain a where a: "create_document_aggregate ''d'' 1 ''w'' [] = Inr a"
    by (simp add: create_document_aggregate_def create_document_def document_post_init_def)
  from document_imported_once [OF this, where t = 2 and vid = "''v''" and path = "''p''" and hash = "''h''" and mime = "[]" and lang = None
      and reqs = "[]" and t' = 3 and vid' = "''u''" and path' = "''p''" and hash' = "''h''" and mime' = "[]" and lang' = None]
  show ?thesis using a by (auto simp: Let_def)
qed

lemma document_limit_counts_removed_witness:
  "\<exists>w. create_workspace ''1'' 0 ''Cases'' [] [] = Inr w \<and>
    \<not> can_add_document \<lparr>wp_max_documents = 2, wp_max_cases = 0\<rparr>
      (wx_workspace (((\<lambda>x. wx_remove_document 0 ''d'' (snd (wx_add_document 0 ''d'' x))) ^^ 2)
        \<lparr>wx_workspace = w, wx_document_ids = [], wx_case_ids = [], wx_collaborator_ids = []\<rparr>))"
proof -
  have "str_strip ''Cases'' \<noteq> []" by code_simp
  then obtain w where w: "create_workspace ''1'' 0 ''Cases'' [] [] = Inr w" by (simp add: create_workspace_def workspace_post_init_def)
  from document_limit_counts_removed [OF this, where n = 2 and p = "\<lparr>wp_max_documents = 2, wp_max_cases = 0\<rparr>" and t = 0 and i = "''d''"] w show ?thesis
    by (simp add: Let_def)
qed

lemma collected_evidence_valid_witness:
  "\<exists>e b e'. create_evidence ''e'' 1 [''d''] DIGITAL [] = Inr e \<and> ec_add 2 e \<lparr>ec_case_id = ''c'', ec_evidence = []\<rparr> = (Inr (), b) \<and>
    ec_get ''e'' b = Some e' \<and> evidence_valid \<lparr>ep_min_documents = 1, ep_min_cases = 1\<rparr> e'"
proof -
  obtain e where e: "create_evidence ''e'' 1 [''d''] DIGITAL [] = Inr e" by (simp add: create_evidence_def evidence_post_init_def)
  obtain b where b: "ec_add 2 e \<lparr>ec_case_id = ''c'', ec_evidence = []\<rparr> = (Inr (), b)" by (simp add: ec_add_def py_bind_split)
  from collected_evidence_valid [OF e b] e b show ?thesis by blast
qed

end
