(* ===== verification/Json_Values.thy ===== *)
theory Json_Values
  imports Json_Strings Py_Text
begin

text \<open>
  Nested JSON: values made of strings, integers, lists and objects, their text as \<open>json.dumps\<close> writes it with its default
  arguments, and \<open>json.loads\<close>. \<open>json_load\<close> is \<open>None\<close> where Python raises, and also for texts with other kinds of values (floats, \<open>true\<close>,
  \<open>false\<close>, \<open>null\<close>) or larger code points. The parser has fuel, of which the length of the text is enough.
\<close>

datatype json = J_string string | J_int int | J_list "json list" | J_object "(string \<times> json) list"

fun json_text :: "json \<Rightarrow> string" where
  "json_text (J_string s) = json_string s"
| "json_text (J_int n) = int_str n"
| "json_text (J_list js) = CHR ''['' # str_join '', '' (map json_text js) @ '']''"
| "json_text (J_object kvs) =
     CHR ''{'' # str_join '', '' (map (\<lambda>kv. json_string (fst kv) @ '': '' @ json_text (snd kv)) kvs) @ ''}''"

section \<open>Reading\<close>

text \<open>\<open>-?(0|[1-9]\d*)\<close>; what goes on as a float is not read.\<close>

definition scan_digits :: "string \<Rightarrow> (nat \<times> string) option" where
  "scan_digits cs =
     (let num = takeWhile is_decimal cs; num = (if num \<noteq> [] \<and> hd num = CHR ''0'' then ''0'' else num); rest = drop (length num) cs
      in if num = [] \<or> rest \<noteq> [] \<and> hd rest \<in> {CHR ''.'', CHR ''e'', CHR ''E''} then None
         else Some (foldl (\<lambda>n c. n * 10 + digit_value c) 0 num, rest))"

definition scan_int :: "string \<Rightarrow> (json \<times> string) option" where
  "scan_int cs =
     (if cs \<noteq> [] \<and> hd cs = CHR ''-'' then map_option (\<lambda>(n, rest). (J_int (- int n), rest)) (scan_digits (tl cs))
      else map_option (\<lambda>(n, rest). (J_int (int n), rest)) (scan_digits cs))"

fun parse_value :: "nat \<Rightarrow> string \<Rightarrow> (json \<times> string) option"
  and parse_items :: "nat \<Rightarrow> string \<Rightarrow> (json list \<times> string) option"
  and parse_fields :: "nat \<Rightarrow> (string, json) dict \<Rightarrow> string \<Rightarrow> ((string, json) dict \<times> string) option" where
  "parse_value 0 cs = None"
| "parse_value (Suc n) cs =
     (case skip_ws cs of
        [] \<Rightarrow> None
      | c # ds \<Rightarrow>
          if c = quote then map_option (\<lambda>(s, rest). (J_string s, rest)) (scan_string ds)
          else if c = CHR ''['' then
            (case expect (CHR '']'') ds of
               Some rest \<Rightarrow> Some (J_list [], rest)
             | None \<Rightarrow> map_option (\<lambda>(js, rest). (J_list js, rest)) (parse_items n ds))
          else if c = CHR ''{'' then
            (case expect (CHR ''}'') ds of
               Some rest \<Rightarrow> Some (J_object [], rest)
             | None \<Rightarrow> map_option (\<lambda>(d, rest). (J_object d, rest)) (parse_fields n [] ds))
          else scan_int (c # ds))"
| "parse_items 0 cs = None"
| "parse_items (Suc n) cs =
     (case parse_value n cs of
        None \<Rightarrow> None
      | Some (j, rest) \<Rightarrow>
          (case expect (CHR '','') rest of
             Some rest' \<Rightarrow> map_option (\<lambda>(js, r). (j # js, r)) (parse_items n rest')
           | None \<Rightarrow> map_option (\<lambda>r. ([j], r)) (expect (CHR '']'') rest)))"
| "parse_fields 0 d cs = None"
| "parse_fields (Suc n) d cs =
     (case Option.bind (expect quote cs) scan_string of
        None \<Rightarrow> None
      | Some (k, cs1) \<Rightarrow>
          (case Option.bind (expect (CHR '':'') cs1) (parse_value n) of
             None \<Rightarrow> None
           | Some (j, rest) \<Rightarrow>
               (case expect (CHR '','') rest of
                  Some rest' \<Rightarrow> parse_fields n (dict_set k j d) rest'
                | None \<Rightarrow> map_option (Pair (dict_set k j d)) (expect (CHR ''}'') rest))))"

definition json_load :: "string \<Rightarrow> json option" where
  "json_load cs =
     (case parse_value (Suc (length cs)) cs of
        None \<Rightarrow> None
      | Some (j, rest) \<Rightarrow> if skip_ws rest = [] then Some j else None)"

section \<open>Reading back what was written\<close>

text \<open>The keys of every object are distinct.\<close>

fun json_wf :: "json \<Rightarrow> bool" where
  "json_wf (J_string s) = True"
| "json_wf (J_int n) = True"
| "json_wf (J_list js) = (\<forall>j \<in> set js. json_wf j)"
| "json_wf (J_object kvs) = (dict_wf kvs \<and> (\<forall>kv \<in> set kvs. json_wf (snd kv)))"

text \<open>What may follow a value: nothing that goes on as a number.\<close>

definition stops :: "string \<Rightarrow> bool" where
  "stops cs = (case cs of [] \<Rightarrow> True | c # _ \<Rightarrow> c \<in> {CHR '','', CHR '']'', CHR ''}''})"

lemma stops_simps [simp]: "stops []" "stops (CHR '','' # cs)" "stops (CHR '']'' # cs)" "stops (CHR ''}'' # cs)"
  by (simp_all add: stops_def)

lemma is_decimal_simps [simp]: "\<not> is_decimal (CHR '','')" "\<not> is_decimal (CHR '']'')" "\<not> is_decimal (CHR ''}'')" "\<not> is_decimal (CHR ''-'')"
  by (simp_all add: is_decimal_def)

lemma scan_digits_nat:
  assumes "stops rest"
  shows "scan_digits (nat_str n @ rest) = Some (n, rest)"
proof -
  have "takeWhile is_decimal (nat_str n @ rest) = nat_str n @ takeWhile is_decimal rest"
    using nat_str_digits by (intro takeWhile_append2) blast
  moreover have "takeWhile is_decimal rest = []" using assms by (auto simp: stops_def split: list.splits)
  moreover have "hd (nat_str n) = CHR ''0'' \<longrightarrow> nat_str n = ''0''"
  proof -
    have "nat_str 0 = ''0''" by code_simp
    then show ?thesis using nat_str_hd [of n] by (cases "n = 0") auto
  qed
  moreover have "rest \<noteq> [] \<longrightarrow> hd rest \<notin> {CHR ''.'', CHR ''e'', CHR ''E''}" using assms by (auto simp: stops_def split: list.splits)
  ultimately show ?thesis using nat_str_digits [of n] by (auto simp: scan_digits_def Let_def)
qed

lemma nat_str_first: "hd (nat_str n @ rest) \<noteq> CHR ''-''" "nat_str n \<noteq> []"
  using nat_str_digits [of n] by (cases "nat_str n"; auto)+

lemma scan_int_text: "stops rest \<Longrightarrow> scan_int (int_str n @ rest) = Some (J_int n, rest)"
  using nat_str_first(1) [where n = "nat n" and rest = rest] by (auto simp: scan_int_def int_str_def scan_digits_nat nat_str_first(2))

lemma int_str_first: "\<exists>c cs. int_str n = c # cs \<and> (is_decimal c \<or> c = CHR ''-'')"
  using nat_str_digits [of "nat n"] by (cases "nat_str (nat n)") (auto simp: int_str_def)

lemma skip_ws_first: "\<not> is_json_space c \<Longrightarrow> skip_ws (c # cs) = c # cs"
  by simp

lemma parse_value_space: "parse_value n (CHR '' '' # cs) = parse_value n cs"
  by (cases n) (simp_all add: is_json_space_def)

lemma parse_fields_space: "parse_fields n d (CHR '' '' # cs) = parse_fields n d cs"
  by (cases n) (simp_all add: expect_space)

lemma parse_items_space: "parse_items n (CHR '' '' # cs) = parse_items n cs"
  by (cases n) (simp_all add: parse_value_space)

lemma json_brackets [simp]: "\<not> is_json_space (CHR ''['')" "\<not> is_json_space (CHR '']'')"
  by (simp_all add: is_json_space_def)

definition reads_back :: "json \<Rightarrow> bool" where
  "reads_back j = (\<forall>n rest. length (json_text j) \<le> n \<longrightarrow> stops rest \<longrightarrow> parse_value n (json_text j @ rest) = Some (j, rest))"

lemma json_text_first: "\<exists>c cs. json_text j = c # cs \<and> \<not> is_json_space c \<and> c \<noteq> CHR '']''"
proof (cases j)
  case (J_int n)
  obtain c cs where "int_str n = c # cs" "is_decimal c \<or> c = CHR ''-''" using int_str_first by blast
  then show ?thesis using J_int by (auto simp: is_decimal_def is_json_space_def)
qed (simp_all add: json_string_def)

lemma join_tail: "str_join sep (x # xs) = x @ (if xs = [] then [] else sep @ str_join sep xs)"
  by (cases xs) simp_all

lemma parse_items_text:
  assumes "\<forall>j \<in> set js. reads_back j" and "js \<noteq> []" and "length (str_join '', '' (map json_text js)) < n"
  shows "parse_items n (str_join '', '' (map json_text js) @ CHR '']'' # rest) = Some (js, rest)"
  using assms
proof (induction js arbitrary: n)
  case (Cons j js)
  obtain m where n: "n = Suc m" using Cons.prems(3) by (cases n) simp_all
  have "\<forall>m rest. length (json_text j) \<le> m \<longrightarrow> stops rest \<longrightarrow> parse_value m (json_text j @ rest) = Some (j, rest)"
    using Cons.prems(1) by (simp add: reads_back_def)
  then have rb: "length (json_text j) \<le> m \<Longrightarrow> stops rest \<Longrightarrow> parse_value m (json_text j @ rest) = Some (j, rest)" for rest by blast
  show ?case
  proof (cases "js = []")
    case True
    then show ?thesis using rb [of "CHR '']'' # rest"] Cons.prems(3) n by (simp add: expect_other expect_here)
  next
    case False
    let ?more = "str_join '', '' (map json_text js) @ CHR '']'' # rest"
    have "parse_value m (json_text j @ CHR '','' # CHR '' '' # ?more) = Some (j, CHR '','' # CHR '' '' # ?more)"
      using Cons.prems(3) n False by (intro rb) (simp_all add: join_tail)
    moreover have "parse_items m ?more = Some (js, rest)" using Cons False n by (simp add: join_tail)
    ultimately show ?thesis using False n by (simp add: join_tail expect_here parse_items_space)
  qed
qed simp

abbreviation field_text :: "string \<times> json \<Rightarrow> string" where
  "field_text kv \<equiv> json_string (fst kv) @ '': '' @ json_text (snd kv)"

lemma parse_fields_text:
  assumes "\<forall>kv \<in> set kvs. reads_back (snd kv)" and "kvs \<noteq> []" and "length (str_join '', '' (map field_text kvs)) < n"
  shows "parse_fields n d (str_join '', '' (map field_text kvs) @ CHR ''}'' # rest) = Some (dict_update d kvs, rest)"
  using assms
proof (induction kvs arbitrary: n d)
  case (Cons kv kvs)
  obtain k j where kv: "kv = (k, j)" by fastforce
  obtain m where n: "n = Suc m" using Cons.prems(3) by (cases n) simp_all
  have "\<forall>m rest. length (json_text j) \<le> m \<longrightarrow> stops rest \<longrightarrow> parse_value m (json_text j @ rest) = Some (j, rest)"
    using Cons.prems(1) kv by (simp add: reads_back_def)
  then have rb: "length (json_text j) \<le> m \<Longrightarrow> stops rest \<Longrightarrow> parse_value m (json_text j @ rest) = Some (j, rest)" for rest by blast
  have key: "Option.bind (expect quote (json_string k @ r)) scan_string = Some (k, r)" for r
    by (simp add: json_string_def expect_here scan_json_string)
  show ?case
  proof (cases "kvs = []")
    case True
    then show ?thesis using rb [of "CHR ''}'' # rest"] Cons.prems(3) n kv
      by (simp add: key expect_here expect_other parse_value_space)
  next
    case False
    let ?more = "str_join '', '' (map field_text kvs) @ CHR ''}'' # rest"
    have "parse_value m (json_text j @ CHR '','' # CHR '' '' # ?more) = Some (j, CHR '','' # CHR '' '' # ?more)"
      using Cons.prems(3) n False kv by (intro rb) (simp_all add: join_tail)
    moreover have "parse_fields m (dict_set k j d) ?more = Some (dict_update (dict_set k j d) kvs, rest)"
      using Cons False n kv by (simp add: join_tail)
    ultimately show ?thesis using False n kv by (simp add: join_tail key expect_here parse_value_space parse_fields_space)
  qed
qed simp

lemma json_reads: "json_wf j \<Longrightarrow> reads_back j"
proof (induction j)
  case (J_string s)
  show ?case unfolding reads_back_def
  proof (intro allI impI)
    fix n rest assume "length (json_text (J_string s)) \<le> n" "stops rest"
    then obtain m where "n = Suc m" by (cases n) (simp_all add: json_string_def)
    then show "parse_value n (json_text (J_string s) @ rest) = Some (J_string s, rest)"
      by (simp add: json_string_def scan_json_string)
  qed
next
  case (J_int i)
  show ?case unfolding reads_back_def
  proof (intro allI impI)
    fix n rest assume l: "length (json_text (J_int i)) \<le> n" and rest: "stops rest"
    obtain c cs where c: "int_str i = c # cs" "is_decimal c \<or> c = CHR ''-''" using int_str_first by blast
    with l obtain m where n: "n = Suc m" by (cases n) simp_all
    have "\<not> is_json_space c" "c \<noteq> quote" "c \<noteq> CHR ''[''" "c \<noteq> CHR ''{''" using c(2) by (auto simp: is_decimal_def is_json_space_def)
    then show "parse_value n (json_text (J_int i) @ rest) = Some (J_int i, rest)"
      using scan_int_text [OF rest, of i] c(1) n by simp
  qed
next
  case (J_list js)
  show ?case unfolding reads_back_def
  proof (intro allI impI)
    fix n rest assume l: "length (json_text (J_list js)) \<le> n"
    then obtain m where n: "n = Suc m" by (cases n) simp_all
    show "parse_value n (json_text (J_list js) @ rest) = Some (J_list js, rest)"
    proof (cases "js = []")
      case True
      then show ?thesis using n by (simp add: expect_here)
    next
      case False
      then obtain j js' where js: "js = j # js'" by (cases js) simp_all
      obtain c cs where "json_text j = c # cs" "\<not> is_json_space c" "c \<noteq> CHR '']''" using json_text_first by blast
      then have "expect (CHR '']'') (str_join '', '' (map json_text js) @ CHR '']'' # rest) = None" by (simp add: js join_tail expect_other)
      moreover have "parse_items m (str_join '', '' (map json_text js) @ CHR '']'' # rest) = Some (js, rest)"
        using J_list l n False by (intro parse_items_text) auto
      ultimately show ?thesis using n by simp
    qed
  qed
next
  case (J_object kvs)
  show ?case unfolding reads_back_def
  proof (intro allI impI)
    fix n rest assume l: "length (json_text (J_object kvs)) \<le> n"
    then obtain m where n: "n = Suc m" by (cases n) simp_all
    show "parse_value n (json_text (J_object kvs) @ rest) = Some (J_object kvs, rest)"
    proof (cases "kvs = []")
      case True
      then show ?thesis using n by (simp add: expect_here)
    next
      case False
      then obtain kv kvs' where kvs: "kvs = kv # kvs'" by (cases kvs) simp_all
      have "expect (CHR ''}'') (str_join '', '' (map field_text kvs) @ CHR ''}'' # rest) = None"
        by (simp add: kvs join_tail json_string_def expect_other)
      moreover have "parse_fields m [] (str_join '', '' (map field_text kvs) @ CHR ''}'' # rest) = Some (dict_update [] kvs, rest)"
        using J_object l n False by (intro parse_fields_text) (auto simp: Basic_BNFs.snds.intros)
      moreover have "dict_update [] kvs = kvs" using J_object.prems dict_update_append [of "[]" kvs] by (simp add: dict_wf_def)
      ultimately show ?thesis using n by simp
    qed
  qed
qed

text \<open>Loading the text of a value gives the value back, whatever its strings contain and however it is nested.\<close>

lemma json_load_text: "json_wf j \<Longrightarrow> json_load (json_text j) = Some j"
proof -
  assume "json_wf j"
  then have "parse_value (Suc (length (json_text j))) (json_text j @ []) = Some (j, [])"
    using json_reads [of j] stops_simps(1) unfolding reads_back_def by (metis le_SucI order_refl)
  then show ?thesis by (simp add: json_load_def)
qed

end
