(* ===== verification/Artifact_Store.thy ===== *)
theory Artifact_Store
  imports Artifact Sql_Table Json_Values
begin

text \<open>
  \<open>repositories/artifact_repository.py\<close> over the table \<open>ArtifactRow\<close> of \<open>metadata/models.py\<close>. An artifact object may carry an attribute
  \<open>document_id\<close>, which the class does not declare: an object is a pair of the artifact and that attribute. Tags, extra data and
  versions are stored as JSON text (\<open>Json_Values\<close>). \<open>datetime.isoformat\<close> and \<open>fromisoformat\<close> are a parameter; that the one
  reads what the other writes is the hypothesis \<open>time_reads_back\<close> of the locale \<open>artifact_store\<close>. A column whose text does not have the form
  written here is read as an error.
\<close>

section \<open>Rows\<close>

type_synonym artifact_object = "artifact \<times> string option"

record time_format =
  tf_iso :: "int \<Rightarrow> string"
  tf_parse :: "string \<Rightarrow> exn + int"

record artifact_row =
  ar_id :: string
  ar_workspace_id :: string
  ar_document_id :: "string option"
  ar_artifact_type :: string
  ar_subtype :: string
  ar_status :: string
  ar_current_version :: int
  ar_producer_module :: string
  ar_producer_version :: string
  ar_checksum :: string
  ar_media_type :: string
  ar_storage_uri :: string
  ar_tags :: string
  ar_extra :: string
  ar_versions :: string
  ar_created_at :: int
  ar_updated_at :: int

definition version_json :: "time_format \<Rightarrow> artifact_version \<Rightarrow> json" where
  "version_json tf v = J_object
     [(''artifact_id'', J_string (av_artifact_id v)), (''version_number'', J_int (av_version_number v)),
      (''checksum'', J_string (av_checksum v)), (''created_at'', J_string (tf_iso tf (av_created_at v))),
      (''producer_module'', J_string (av_producer_module v)), (''producer_version'', J_string (av_producer_version v)),
      (''storage_uri'', J_string (av_storage_uri v)), (''media_type'', J_string (av_media_type v)), (''notes'', J_string (av_notes v))]"

definition serialize_versions :: "time_format \<Rightarrow> artifact_version list \<Rightarrow> json" where
  "serialize_versions tf vs = J_list (map (version_json tf) vs)"

definition row_of_artifact :: "time_format \<Rightarrow> artifact_object \<Rightarrow> artifact_row" where
  "row_of_artifact tf obj = (case obj of (a, doc) \<Rightarrow>
     \<lparr>ar_id = art_id a, ar_workspace_id = art_workspace_id a, ar_document_id = doc,
      ar_artifact_type = artifact_type_value (art_type a), ar_subtype = art_subtype a, ar_status = artifact_status_value (art_status a),
      ar_current_version = art_current_version a, ar_producer_module = art_producer_module a,
      ar_producer_version = art_producer_version a, ar_checksum = art_checksum a, ar_media_type = art_media_type a,
      ar_storage_uri = art_storage_uri a, ar_tags = json_text (J_list (map J_string (art_tags a))),
      ar_extra = json_text (J_object (map (\<lambda>kv. (fst kv, J_string (snd kv))) (art_extra a))),
      ar_versions = json_text (serialize_versions tf (art_versions a)),
      ar_created_at = art_created_at a, ar_updated_at = art_updated_at a\<rparr>)"

definition put_artifact :: "time_format \<Rightarrow> artifact_object \<Rightarrow> artifact_row \<Rightarrow> artifact_row" where
  "put_artifact tf obj r = (case obj of (a, doc) \<Rightarrow>
     r\<lparr>ar_workspace_id := art_workspace_id a, ar_document_id := doc, ar_artifact_type := artifact_type_value (art_type a),
       ar_subtype := art_subtype a, ar_status := artifact_status_value (art_status a), ar_current_version := art_current_version a,
       ar_producer_module := art_producer_module a, ar_producer_version := art_producer_version a, ar_checksum := art_checksum a,
       ar_media_type := art_media_type a, ar_storage_uri := art_storage_uri a,
       ar_tags := json_text (J_list (map J_string (art_tags a))),
       ar_extra := json_text (J_object (map (\<lambda>kv. (fst kv, J_string (snd kv))) (art_extra a))),
       ar_versions := json_text (serialize_versions tf (art_versions a)), ar_updated_at := art_updated_at a\<rparr>)"

section \<open>Reading rows\<close>

definition unreadable :: "string \<Rightarrow> exn" where
  "unreadable raw = Exn (OtherException ''JSONDecodeError'') raw"

fun json_str :: "json \<Rightarrow> exn + string" where
  "json_str (J_string s) = Inr s"
| "json_str j = Inl (unreadable (json_text j))"

fun json_int :: "json \<Rightarrow> exn + int" where
  "json_int (J_int n) = Inr n"
| "json_int j = Inl (unreadable (json_text j))"

fun json_list :: "json \<Rightarrow> exn + json list" where
  "json_list (J_list js) = Inr js"
| "json_list j = Inl (unreadable (json_text j))"

fun json_object :: "json \<Rightarrow> exn + (string, json) dict" where
  "json_object (J_object d) = Inr d"
| "json_object j = Inl (unreadable (json_text j))"

definition loads :: "string \<Rightarrow> exn + json" where
  "loads raw = (case json_load raw of None \<Rightarrow> Inl (unreadable raw) | Some j \<Rightarrow> Inr j)"

text \<open>\<open>item[key]\<close> and \<open>item.get(key, '')\<close> for a text.\<close>

definition required :: "(string, json) dict \<Rightarrow> string \<Rightarrow> exn + json" where
  "required d k = (case dict_get d k of None \<Rightarrow> Inl (Exn KeyError (repr_str k)) | Some j \<Rightarrow> Inr j)"

definition optional_str :: "(string, json) dict \<Rightarrow> string \<Rightarrow> exn + string" where
  "optional_str d k = (case dict_get d k of None \<Rightarrow> Inr [] | Some j \<Rightarrow> json_str j)"

definition version_of_json :: "time_format \<Rightarrow> json \<Rightarrow> exn + artifact_version" where
  "version_of_json tf j =
     and_then (json_object j) (\<lambda>d.
     and_then (and_then (required d ''created_at'') json_str) (\<lambda>created.
     and_then (tf_parse tf created) (\<lambda>created_at.
     and_then (and_then (required d ''artifact_id'') json_str) (\<lambda>artifact_id.
     and_then (and_then (required d ''version_number'') json_int) (\<lambda>version_number.
     and_then (and_then (required d ''checksum'') json_str) (\<lambda>checksum.
     and_then (optional_str d ''producer_module'') (\<lambda>producer_module.
     and_then (optional_str d ''producer_version'') (\<lambda>producer_version.
     and_then (optional_str d ''storage_uri'') (\<lambda>storage_uri.
     and_then (optional_str d ''media_type'') (\<lambda>media_type.
     and_then (optional_str d ''notes'') (\<lambda>notes.
     Inr \<lparr>av_artifact_id = artifact_id, av_version_number = version_number, av_checksum = checksum, av_created_at = created_at,
       av_producer_module = producer_module, av_producer_version = producer_version, av_storage_uri = storage_uri,
       av_media_type = media_type, av_notes = notes\<rparr>)))))))))))"

definition deserialize_versions :: "time_format \<Rightarrow> string \<Rightarrow> exn + artifact_version list" where
  "deserialize_versions tf raw = and_then (and_then (loads raw) json_list) (all_to_domain (version_of_json tf))"

definition artifact_type_of :: "string \<Rightarrow> exn + artifact_type" where
  "artifact_type_of = enum_of ''ArtifactType'' artifact_type_value
     [ORIGINAL_DOCUMENT, OCR_TEXT, OCR_LAYOUT, PARSED_DOCUMENT, ENTITIES, RELATIONSHIPS, CHUNKS, EMBEDDINGS, VECTOR_INDEX,
      KNOWLEDGE_GRAPH, TIMELINE, SUMMARY, REPORT, EXPORT, CACHE, THUMBNAIL, PREVIEW, LOG, METRICS]"

definition artifact_status_of :: "string \<Rightarrow> exn + artifact_status" where
  "artifact_status_of = enum_of ''ArtifactStatus'' artifact_status_value
     [ART_REGISTERED, ART_AVAILABLE, ART_INVALID, ART_SUPERSEDED, ART_ARCHIVED, ART_DELETED]"

definition tags_of_text :: "string \<Rightarrow> exn + string list" where
  "tags_of_text raw = (if raw = [] then Inr [] else and_then (and_then (loads raw) json_list) (all_to_domain json_str))"

definition extra_of_text :: "string \<Rightarrow> exn + (string, string) dict" where
  "extra_of_text raw =
     (if raw = [] then Inr []
      else and_then (and_then (loads raw) json_object) (all_to_domain (\<lambda>kv. and_then (json_str (snd kv)) (\<lambda>v. Inr (fst kv, v)))))"

definition artifact_of_row :: "time_format \<Rightarrow> artifact_row \<Rightarrow> exn + artifact" where
  "artifact_of_row tf r =
     and_then (artifact_type_of (ar_artifact_type r)) (\<lambda>ty.
     and_then (artifact_status_of (ar_status r)) (\<lambda>st.
     and_then (tags_of_text (ar_tags r)) (\<lambda>tags.
     and_then (extra_of_text (ar_extra r)) (\<lambda>extra.
     and_then (if ar_versions r = [] then Inr [] else deserialize_versions tf (ar_versions r)) (\<lambda>versions.
     artifact_post_init
       \<lparr>art_id = ar_id r, art_workspace_id = ar_workspace_id r, art_investigation_id = [], art_type = ty, art_subtype = ar_subtype r,
        art_status = st, art_current_version = ar_current_version r, art_producer_module = ar_producer_module r,
        art_producer_version = ar_producer_version r, art_checksum = ar_checksum r, art_media_type = ar_media_type r,
        art_storage_uri = ar_storage_uri r, art_tags = tags, art_extra = extra, art_versions = versions,
        art_created_at = ar_created_at r, art_updated_at = ar_updated_at r\<rparr>)))))"

section \<open>The repository\<close>

type_synonym 'db artifact_session = "('db, artifact_row) table_session"

definition not_deleted :: "artifact_row \<Rightarrow> bool" where
  "not_deleted r = (ar_status r \<noteq> artifact_status_value ART_DELETED)"

definition art_create :: "time_format \<Rightarrow> 'db artifact_session \<Rightarrow> artifact_object \<Rightarrow> ('db, artifact_object) py" where
  "art_create tf S obj = table_create S (row_of_artifact tf) obj"

definition art_update :: "time_format \<Rightarrow> 'db artifact_session \<Rightarrow> artifact_object \<Rightarrow> ('db, artifact_object) py" where
  "art_update tf S obj = py_bind (table_modify S ''Artifact'' (art_id (fst obj)) (put_artifact tf obj)) (\<lambda>_. py_return obj)"

definition art_get_by_id :: "time_format \<Rightarrow> 'db artifact_session \<Rightarrow> string \<Rightarrow> ('db, artifact option) py" where
  "art_get_by_id tf S i = table_get S (artifact_of_row tf) not_deleted i"

definition art_get_by_uri :: "time_format \<Rightarrow> 'db artifact_session \<Rightarrow> string \<Rightarrow> ('db, artifact option) py" where
  "art_get_by_uri tf S uri = table_first S (artifact_of_row tf) (\<lambda>r. ar_storage_uri r = uri \<and> not_deleted r) None"

definition art_list_by_document :: "time_format \<Rightarrow> 'db artifact_session \<Rightarrow> string \<Rightarrow> ('db, artifact list) py" where
  "art_list_by_document tf S d = table_list S (artifact_of_row tf) (\<lambda>r. ar_document_id r = Some d \<and> not_deleted r)"

definition art_list_by_type :: "time_format \<Rightarrow> 'db artifact_session \<Rightarrow> artifact_type \<Rightarrow> string option \<Rightarrow> ('db, artifact list) py" where
  "art_list_by_type tf S ty w = table_list S (artifact_of_row tf)
     (\<lambda>r. ar_artifact_type r = artifact_type_value ty \<and> not_deleted r \<and> (case w of None \<Rightarrow> True | Some i \<Rightarrow> ar_workspace_id r = i))"

definition art_latest_version :: "time_format \<Rightarrow> 'db artifact_session \<Rightarrow> string \<Rightarrow> artifact_type \<Rightarrow> ('db, artifact option) py" where
  "art_latest_version tf S w ty = table_first S (artifact_of_row tf)
     (\<lambda>r. ar_workspace_id r = w \<and> ar_artifact_type r = artifact_type_value ty \<and> not_deleted r) (Some ar_current_version)"

definition art_delete :: "'db artifact_session \<Rightarrow> string \<Rightarrow> ('db, unit) py" where
  "art_delete S i = table_delete S ''Artifact'' i"

section \<open>What is read back\<close>

lemma artifact_type_of_value [simp]: "artifact_type_of (artifact_type_value ty) = Inr ty"
  by (cases ty) (simp_all add: artifact_type_of_def enum_of_def)

lemma artifact_status_of_value [simp]: "artifact_status_of (artifact_status_value st) = Inr st"
  by (cases st) (simp_all add: artifact_status_of_def enum_of_def)

lemma artifact_status_value_inj: "artifact_status_value x = artifact_status_value y \<Longrightarrow> x = y"
  by (metis artifact_status_of_value sum.inject(2))

lemma artifact_type_value_inj: "artifact_type_value x = artifact_type_value y \<Longrightarrow> x = y"
  by (metis artifact_type_of_value sum.inject(2))

lemma loads_text: "json_wf j \<Longrightarrow> loads (json_text j) = Inr j"
  by (simp add: loads_def json_load_text)

lemma json_text_nonempty: "json_text j \<noteq> []"
  using json_text_first [of j] by auto

lemma all_to_domain_map: "(\<And>x. x \<in> set xs \<Longrightarrow> f (g x) = Inr x) \<Longrightarrow> all_to_domain f (map g xs) = Inr xs"
  by (induction xs) simp_all

lemma tags_of_text_text: "tags_of_text (json_text (J_list (map J_string tags))) = Inr tags"
  by (simp add: tags_of_text_def loads_text json_text_nonempty all_to_domain_map del: json_text.simps)

lemma extra_of_text_text:
  assumes "dict_wf d"
  shows "extra_of_text (json_text (J_object (map (\<lambda>kv. (fst kv, J_string (snd kv))) d))) = Inr d"
proof -
  have "json_wf (J_object (map (\<lambda>kv. (fst kv, J_string (snd kv))) d))" using assms by (simp add: dict_wf_def o_def)
  then show ?thesis 
    by (simp add: extra_of_text_def loads_text json_text_nonempty all_to_domain_map del: json_text.simps)
qed

definition time_reads_back :: "time_format \<Rightarrow> bool" where
  "time_reads_back tf = (\<forall>t. tf_parse tf (tf_iso tf t) = Inr t)"

lemma version_of_json_json: "time_reads_back tf \<Longrightarrow> version_of_json tf (version_json tf v) = Inr v"
  by (cases v) (simp add: version_json_def version_of_json_def required_def optional_str_def time_reads_back_def)

lemma deserialize_serialize:
  assumes "time_reads_back tf"
  shows "deserialize_versions tf (json_text (serialize_versions tf vs)) = Inr vs"
proof -
  have "json_wf (serialize_versions tf vs)" by (simp add: serialize_versions_def version_json_def dict_wf_def)
  then have "loads (json_text (serialize_versions tf vs)) = Inr (serialize_versions tf vs)" by (rule loads_text)
  then show ?thesis
    by (simp add: deserialize_versions_def) (simp add: serialize_versions_def all_to_domain_map version_of_json_json [OF assms])
qed

lemma artifact_of_row_row:
  assumes "time_reads_back tf" and "artifact_post_init a = Inr a" and "dict_wf (art_extra a)"
  shows "artifact_of_row tf (row_of_artifact tf (a, doc)) = Inr (a\<lparr>art_investigation_id := []\<rparr>)"
proof -
  have "artifact_post_init (a\<lparr>art_investigation_id := []\<rparr>) = Inr (a\<lparr>art_investigation_id := []\<rparr>)"
    using assms(2) by (auto simp: artifact_post_init_def split: if_splits)
  then show ?thesis using assms(1,3)
    by (cases a) (simp add: artifact_of_row_def row_of_artifact_def tags_of_text_text extra_of_text_text deserialize_serialize json_text_nonempty
        del: json_text.simps)
qed

text \<open>An object with its attribute, as the table knows it; the repository returns the artifact alone.\<close>

definition object_of_row :: "time_format \<Rightarrow> artifact_row \<Rightarrow> exn + artifact_object" where
  "object_of_row tf r = and_then (artifact_of_row tf r) (\<lambda>a. Inr (a, ar_document_id r))"

definition object_readable :: "artifact_object \<Rightarrow> bool" where
  "object_readable obj = (artifact_post_init (fst obj) = Inr (fst obj) \<and> art_investigation_id (fst obj) = [] \<and> dict_wf (art_extra (fst obj)))"

definition artifact_merge :: "artifact_object \<Rightarrow> artifact_object \<Rightarrow> artifact_object" where
  "artifact_merge old obj = ((fst obj)\<lparr>art_created_at := art_created_at (fst old)\<rparr>, snd obj)"

lemma object_of_row_row:
  assumes "time_reads_back tf" and "object_readable obj"
  shows "object_of_row tf (row_of_artifact tf obj) = Inr obj"
proof -
  obtain a doc where obj: "obj = (a, doc)" by fastforce
  have "a\<lparr>art_investigation_id := []\<rparr> = a" using assms(2) by (cases a) (simp add: obj object_readable_def)
  moreover have "ar_document_id (row_of_artifact tf (a, doc)) = doc" by (simp add: row_of_artifact_def)
  ultimately show ?thesis
    using artifact_of_row_row [OF assms(1), of a doc] assms(2) by (simp add: obj object_of_row_def object_readable_def)
qed

locale artifact_store = sql_table S ar_id "\<lambda>_ _. False" rows
  for S :: "'db artifact_session" and rows +
  fixes tf :: time_format
  assumes time_format_ok: "time_reads_back tf"

sublocale artifact_store \<subseteq> at: plain_table S ar_id rows "row_of_artifact tf" "object_of_row tf" object_readable "\<lambda>obj. art_id (fst obj)"
    "put_artifact tf" artifact_merge
proof unfold_locales
  fix e old :: artifact_object
  show "object_readable e \<Longrightarrow> object_of_row tf (row_of_artifact tf e) = Inr e" by (rule object_of_row_row [OF time_format_ok])
  show "ar_id (row_of_artifact tf e) = art_id (fst e)" by (cases e) (simp add: row_of_artifact_def)
  show "art_id (fst old) = art_id (fst e) \<Longrightarrow> put_artifact tf e (row_of_artifact tf old) = row_of_artifact tf (artifact_merge old e)"
    by (cases e; cases old) (simp add: row_of_artifact_def put_artifact_def artifact_merge_def)
  show "object_readable e \<Longrightarrow> object_readable (artifact_merge old e)"
    by (cases e) (auto simp: object_readable_def artifact_merge_def artifact_post_init_def split: if_splits)
  show "art_id (fst (artifact_merge old e)) = art_id (fst e)" by (simp add: artifact_merge_def)
qed

lemma row_of_artifact_simps [simp]:
  "ar_document_id (row_of_artifact tf obj) = snd obj" "ar_storage_uri (row_of_artifact tf obj) = art_storage_uri (fst obj)"
  "ar_current_version (row_of_artifact tf obj) = art_current_version (fst obj)"
  "ar_workspace_id (row_of_artifact tf obj) = art_workspace_id (fst obj)"
  "ar_artifact_type (row_of_artifact tf obj) = artifact_type_value (art_type (fst obj))"
  by (cases obj; simp add: row_of_artifact_def)+

lemma not_deleted_row [simp]: "not_deleted (row_of_artifact tf obj) \<longleftrightarrow> art_status (fst obj) \<noteq> ART_DELETED"
  by (cases obj) (auto simp: not_deleted_def row_of_artifact_def dest: artifact_status_value_inj [of _ ART_DELETED, simplified])

text \<open>Queries that return artifacts are those that return objects, without the attribute.\<close>

lemma all_to_domain_artifacts:
  "all_to_domain (artifact_of_row tf) rs = (case all_to_domain (object_of_row tf) rs of Inl e \<Rightarrow> Inl e | Inr xs \<Rightarrow> Inr (map fst xs))"
  by (induction rs) (auto simp: object_of_row_def and_then_def split: sum.split)

lemma table_artifacts:
  "table_list S (artifact_of_row tf) P db = (case table_list S (object_of_row tf) P db of (Inl e, s) \<Rightarrow> (Inl e, s) | (Inr xs, s) \<Rightarrow> (Inr (map fst xs), s))"
  "table_first S (artifact_of_row tf) P ord db =
    (case table_first S (object_of_row tf) P ord db of (Inl e, s) \<Rightarrow> (Inl e, s) | (Inr x, s) \<Rightarrow> (Inr (map_option fst x), s))"
  "table_get S (artifact_of_row tf) keep i db =
    (case table_get S (object_of_row tf) keep i db of (Inl e, s) \<Rightarrow> (Inl e, s) | (Inr x, s) \<Rightarrow> (Inr (map_option fst x), s))"
  by (auto simp: table_list_def table_first_def table_get_def py_bind_split all_to_domain_artifacts object_of_row_def and_then_def
      split: sum.split option.split prod.split)

context artifact_store
begin

lemma get_by_id_object:
  assumes "at.table_ok db"
  shows "art_get_by_id tf S i db =
    (Inr (case at.entities db i of None \<Rightarrow> None | Some (a, doc) \<Rightarrow> if art_status a = ART_DELETED then None else Some a), db)"
  unfolding art_get_by_id_def table_artifacts using at.get_entity [OF assms, of not_deleted i] by (auto split: option.split)

lemma get_by_uri_object:
  assumes "at.table_ok db"
  shows "\<exists>x. art_get_by_uri tf S uri db = (Inr (map_option fst x), db) \<and>
    (case x of None \<Rightarrow> \<forall>a doc. at.entities db (art_id a) = Some (a, doc) \<longrightarrow> art_storage_uri a = uri \<longrightarrow> art_status a = ART_DELETED
     | Some (a, doc) \<Rightarrow> at.entities db (art_id a) = Some (a, doc) \<and> art_storage_uri a = uri \<and> art_status a \<noteq> ART_DELETED)"
  unfolding art_get_by_uri_def table_artifacts
  using at.first_entity [OF assms, of "\<lambda>r. ar_storage_uri r = uri \<and> not_deleted r" None] by (force split: option.splits)

lemma list_by_document_objects:
  assumes "at.table_ok db"
  shows "\<exists>as. art_list_by_document tf S d db = (Inr as, db) \<and>
    set as = {a. at.entities db (art_id a) = Some (a, Some d) \<and> art_status a \<noteq> ART_DELETED}"
proof -
  obtain es where es: "table_list S (object_of_row tf) (\<lambda>r. ar_document_id r = Some d \<and> not_deleted r) db = (Inr es, db)"
    "set es = {e. at.entities db (art_id (fst e)) = Some e \<and> snd e = Some d \<and> art_status (fst e) \<noteq> ART_DELETED}"
    using at.list_entities [OF assms, of "\<lambda>r. ar_document_id r = Some d \<and> not_deleted r"] by auto
  then have "set (map fst es) = {a. at.entities db (art_id a) = Some (a, Some d) \<and> art_status a \<noteq> ART_DELETED}"
    by (force simp: image_iff)
  then show ?thesis unfolding art_list_by_document_def table_artifacts es(1) by simp
qed

lemma latest_version_object:
  assumes "at.table_ok db"
  shows "\<exists>x. art_latest_version tf S w ty db = (Inr (map_option fst x), db) \<and>
    (case x of
       None \<Rightarrow> \<forall>a doc. at.entities db (art_id a) = Some (a, doc) \<longrightarrow> art_workspace_id a = w \<longrightarrow> art_type a = ty \<longrightarrow> art_status a = ART_DELETED
     | Some (a, doc) \<Rightarrow> at.entities db (art_id a) = Some (a, doc) \<and> art_workspace_id a = w \<and> art_type a = ty \<and> art_status a \<noteq> ART_DELETED \<and>
         (\<forall>b doc. at.entities db (art_id b) = Some (b, doc) \<longrightarrow> art_workspace_id b = w \<longrightarrow> art_type b = ty \<longrightarrow> art_status b \<noteq> ART_DELETED \<longrightarrow>
            art_current_version b \<le> art_current_version a))"
proof -
  let ?P = "\<lambda>r. ar_workspace_id r = w \<and> ar_artifact_type r = artifact_type_value ty \<and> not_deleted r"
  obtain x where x: "table_first S (object_of_row tf) ?P (Some ar_current_version) db = (Inr x, db)"
    "case x of None \<Rightarrow> \<forall>e. at.entities db (art_id (fst e)) = Some e \<longrightarrow> \<not> ?P (row_of_artifact tf e)
     | Some e \<Rightarrow> at.entities db (art_id (fst e)) = Some e \<and> ?P (row_of_artifact tf e) \<and>
         (\<forall>f. Some ar_current_version = Some f \<longrightarrow> (\<forall>e'. at.entities db (art_id (fst e')) = Some e' \<longrightarrow> ?P (row_of_artifact tf e') \<longrightarrow>
            f (row_of_artifact tf e') \<le> f (row_of_artifact tf e)))"
    using at.first_entity [OF assms, of ?P "Some ar_current_version"] by blast
  have P: "?P (row_of_artifact tf e) \<longleftrightarrow> art_workspace_id (fst e) = w \<and> art_type (fst e) = ty \<and> art_status (fst e) \<noteq> ART_DELETED" for e
    using artifact_type_value_inj by auto
  show ?thesis unfolding art_latest_version_def table_artifacts x(1)
    using x(2) unfolding P by (intro exI [of _ x]) (auto split: option.splits)
qed

lemma create_find_delete:
  assumes "at.table_ok db" and "object_readable (a, Some d)" and "at.entities db (art_id a) = None"
  shows "\<exists>db'. art_create tf S (a, Some d) db = (Inr (a, Some d), db') \<and> (\<exists>msg. art_create tf S (a, Some d) db' = (Inl (Exn IntegrityError msg), db')) \<and>
    fst (art_get_by_id tf S (art_id a) db') = Inr (if art_status a = ART_DELETED then None else Some a) \<and>
    (\<exists>as. fst (art_list_by_document tf S d db') = Inr as \<and> (a \<in> set as \<longleftrightarrow> art_status a \<noteq> ART_DELETED)) \<and>
    (art_status a \<noteq> ART_DELETED \<longrightarrow>
      (\<exists>b. fst (art_latest_version tf S (art_workspace_id a) (art_type a) db') = Inr (Some b) \<and> art_current_version a \<le> art_current_version b)) \<and>
    (\<exists>db''. art_delete S (art_id a) db' = (Inr (), db'') \<and> fst (art_get_by_id tf S (art_id a) db'') = Inr None)"
proof -
  have fresh: "at.entities db (art_id (fst (a, Some d))) = None" using assms(3) by simp
  from at.create_entity [OF assms(1,2) fresh at.no_clash] obtain db' where
    c: "table_create S (row_of_artifact tf) (a, Some d) db = (Inr (a, Some d), db')" "at.table_ok db'"
    "at.entities db' = (at.entities db)(art_id a := Some (a, Some d))" by auto
  have again: "\<exists>msg. art_create tf S (a, Some d) db' = (Inl (Exn IntegrityError msg), db')"
    using at.create_refused [OF c(2), of "(a, Some d)"] c(3) by (simp add: art_create_def)
  have latest: "\<exists>b. fst (art_latest_version tf S (art_workspace_id a) (art_type a) db') = Inr (Some b) \<and> art_current_version a \<le> art_current_version b"
    if "art_status a \<noteq> ART_DELETED"
  proof -
    obtain x where x: "art_latest_version tf S (art_workspace_id a) (art_type a) db' = (Inr (map_option fst x), db')"
      "case x of
         None \<Rightarrow> \<forall>b doc. at.entities db' (art_id b) = Some (b, doc) \<longrightarrow> art_workspace_id b = art_workspace_id a \<longrightarrow>
           art_type b = art_type a \<longrightarrow> art_status b = ART_DELETED
       | Some (b, doc) \<Rightarrow> at.entities db' (art_id b) = Some (b, doc) \<and> art_workspace_id b = art_workspace_id a \<and>
           art_type b = art_type a \<and> art_status b \<noteq> ART_DELETED \<and>
           (\<forall>c doc. at.entities db' (art_id c) = Some (c, doc) \<longrightarrow> art_workspace_id c = art_workspace_id a \<longrightarrow>
             art_type c = art_type a \<longrightarrow> art_status c \<noteq> ART_DELETED \<longrightarrow> art_current_version c \<le> art_current_version b)"
      using latest_version_object [OF c(2), of "art_workspace_id a" "art_type a"] by blast
    have here: "at.entities db' (art_id a) = Some (a, Some d)" by (simp add: c(3))
    show ?thesis
    proof (cases x)
      case None
      then show ?thesis using x(2) here that by auto
    next
      case (Some y)
      obtain b doc where "y = (b, doc)" by fastforce
      then have "art_current_version a \<le> art_current_version b" using x(2) Some here that by auto
      then show ?thesis using x(1) Some by (intro exI [of _ b]) (simp add: \<open>y = (b, doc)\<close>)
    qed
  qed
  have listed: "\<exists>as. fst (art_list_by_document tf S d db') = Inr as \<and> (a \<in> set as \<longleftrightarrow> art_status a \<noteq> ART_DELETED)"
    using list_by_document_objects [OF c(2), of d] c(3) by auto
  have there: "at.entities db' (art_id a) = Some (a, Some d)" by (simp add: c(3))
  from at.delete_entity [OF c(2) there, where kind = "''Artifact''"] obtain db'' where
    "table_delete S ''Artifact'' (art_id a) db' = (Inr (), db'')" "at.table_ok db''" "at.entities db'' (art_id a) = None"
    by auto
  then have "\<exists>db''. art_delete S (art_id a) db' = (Inr (), db'') \<and> fst (art_get_by_id tf S (art_id a) db'') = Inr None"
    using get_by_id_object [of db'' "art_id a"] by (auto simp: art_delete_def)
  then show ?thesis
    using c again latest listed get_by_id_object [OF c(2), of "art_id a"] by (auto simp: art_create_def)
qed

end

section \<open>Properties\<close>

text \<open>C25: 
  A row keeps of an artifact everything but its investigation, which is read back empty; and the document of the object, which only
  the queries of the table see.
\<close>

theorem artifact_row_roundtrip:
  assumes "time_reads_back tf" and "artifact_post_init a = Inr a" and "dict_wf (art_extra a)"
  shows "artifact_of_row tf (row_of_artifact tf (a, doc)) = Inr (a\<lparr>art_investigation_id := []\<rparr>) \<and>
    (artifact_of_row tf (row_of_artifact tf (a, doc)) = Inr a \<longleftrightarrow> art_investigation_id a = []) \<and>
    artifact_of_row tf (row_of_artifact tf (a, doc)) = artifact_of_row tf (row_of_artifact tf (a, None))"
proof -
  have "a\<lparr>art_investigation_id := []\<rparr> = a \<longleftrightarrow> art_investigation_id a = []" by (cases a) auto
  then show ?thesis by (simp add: artifact_of_row_row [OF assms])
qed

text \<open>
  The repository of artifacts keeps a finite map from ids to objects. A fresh id is needed to create; an artifact that is marked
  deleted is not found any more, neither by its id nor for its document, but its id stays taken until \<open>delete\<close>; and the latest
  version is one that no other of its type and workspace exceeds.
\<close>

theorem artifact_repository_outcome:
  assumes "artifact_store S rows tf" and "entity_table.table_ok rows (row_of_artifact tf) object_readable db" and "object_readable (a, Some d)"
    and "entity_table.entities rows (object_of_row tf) db (art_id a) = None"
  shows "\<exists>db'. art_create tf S (a, Some d) db = (Inr (a, Some d), db') \<and> (\<exists>msg. art_create tf S (a, Some d) db' = (Inl (Exn IntegrityError msg), db')) \<and>
    fst (art_get_by_id tf S (art_id a) db') = Inr (if art_status a = ART_DELETED then None else Some a) \<and>
    (\<exists>as. fst (art_list_by_document tf S d db') = Inr as \<and> (a \<in> set as \<longleftrightarrow> art_status a \<noteq> ART_DELETED)) \<and>
    (art_status a \<noteq> ART_DELETED \<longrightarrow>
      (\<exists>b. fst (art_latest_version tf S (art_workspace_id a) (art_type a) db') = Inr (Some b) \<and> art_current_version a \<le> art_current_version b)) \<and>
    (\<exists>db''. art_delete S (art_id a) db' = (Inr (), db'') \<and> fst (art_get_by_id tf S (art_id a) db'') = Inr None)"
  by (rule artifact_store.create_find_delete [OF assms])

text \<open>A table and a clock text for the hypotheses: times are written as decimal numbers.\<close>

definition decimal_times :: time_format where
  "decimal_times = \<lparr>tf_iso = int_str, tf_parse = (\<lambda>s. case scan_int s of Some (J_int n, []) \<Rightarrow> Inr n | _ \<Rightarrow> Inl (Exn ValueError s))\<rparr>"

lemma decimal_times_read_back: "time_reads_back decimal_times"
proof -
  have "scan_int (int_str t) = Some (J_int t, [])" for t using scan_int_text [of "[]" t] by simp
  then show ?thesis by (simp add: time_reads_back_def decimal_times_def)
qed

abbreviation "artifact_table_list \<equiv> list_table ar_id (\<lambda>_ _. False)"

interpretation artifact_list: artifact_store artifact_table_list "list_find ar_id" decimal_times
  by (intro artifact_store.intro artifact_store_axioms.intro list_table.sql_table_axioms decimal_times_read_back)

definition sample_artifact :: artifact where
  "sample_artifact = \<lparr>art_id = ''a'', art_workspace_id = ''w'', art_investigation_id = [], art_type = OCR_TEXT, art_subtype = [],
     art_status = ART_AVAILABLE, art_current_version = 1, art_producer_module = ''ocr'', art_producer_version = ''1'',
     art_checksum = ''c'', art_media_type = ''text/plain'', art_storage_uri = ''u'', art_tags = [''t''], art_extra = [(''k'', ''v'')],
     art_versions = [], art_created_at = 3, art_updated_at = 4\<rparr>"

lemma artifact_row_roundtrip_witness:
  "artifact_of_row decimal_times (row_of_artifact decimal_times (sample_artifact, Some ''d'')) = Inr sample_artifact"
  using artifact_row_roundtrip [OF decimal_times_read_back, of sample_artifact "Some ''d''"]
  by (simp add: sample_artifact_def artifact_post_init_def dict_wf_def)

lemma artifact_repository_outcome_witness:
  "\<exists>db'. art_create decimal_times artifact_table_list (sample_artifact, Some ''d'') [] = (Inr (sample_artifact, Some ''d''), db') \<and>
    fst (art_get_by_id decimal_times artifact_table_list ''a'' db') = Inr (Some sample_artifact)"
proof -
  have "entity_table.table_ok (list_find ar_id) (row_of_artifact decimal_times) object_readable []"
    unfolding artifact_list.at.table_ok_def by (simp add: list_find_def)
  moreover have "object_readable (sample_artifact, Some ''d'')"
    by (simp add: object_readable_def sample_artifact_def artifact_post_init_def dict_wf_def)
  moreover have "entity_table.entities (list_find ar_id) (object_of_row decimal_times) [] (art_id sample_artifact) = None"
    by (simp add: artifact_list.at.entities_def list_find_def)
  ultimately obtain db' where
    "art_create decimal_times artifact_table_list (sample_artifact, Some ''d'') [] = (Inr (sample_artifact, Some ''d''), db')"
    "fst (art_get_by_id decimal_times artifact_table_list (art_id sample_artifact) db') =
      Inr (if art_status sample_artifact = ART_DELETED then None else Some sample_artifact)"
    using artifact_repository_outcome [OF artifact_list.artifact_store_axioms] by blast
  then show ?thesis by (intro exI [of _ db']) (simp add: sample_artifact_def)
qed

end
