(* ===== verification/Ocr_Artifacts.thy ===== *)
theory Ocr_Artifacts
  imports Artifact_Store Named_Registry
begin

text \<open>
  \<open>ocr/artifacts/\<close>. First the adapter and the generator, which store the texts of an OCR run and register them in the artifact
  repository (\<open>Artifact_Store\<close>); the storage and the payloads of the serializer, which are JSON texts with floating-point numbers, are
  parameters. Then the second set of classes of the package, the OCR artifacts of single pages with their own in-memory
  repository, registry and service.
\<close>

section \<open>Registering artifacts\<close>

record register_request =
  rr_workspace_id :: string
  rr_document_id :: string
  rr_storage_uri :: string
  rr_checksum :: string
  rr_media_type :: string
  rr_artifact_type :: artifact_type
  rr_subtype :: string
  rr_producer_module :: string
  rr_producer_version :: string
  rr_extra :: "(string, string) dict"

text \<open>The clock is read several times within one call; \<open>ck k\<close> is its \<open>k\<close>-th reading.\<close>

definition create_new :: "time_format \<Rightarrow> 'db artifact_session \<Rightarrow> string \<Rightarrow> (nat \<Rightarrow> int) \<Rightarrow> register_request \<Rightarrow> ('db, artifact) py" where
  "create_new tf S new_id ck q =
     py_bind (py_lift (artifact_post_init
       \<lparr>art_id = new_id, art_workspace_id = rr_workspace_id q, art_investigation_id = [], art_type = rr_artifact_type q,
        art_subtype = rr_subtype q, art_status = ART_REGISTERED, art_current_version = 1, art_producer_module = rr_producer_module q,
        art_producer_version = rr_producer_version q, art_checksum = rr_checksum q, art_media_type = rr_media_type q,
        art_storage_uri = rr_storage_uri q, art_tags = [], art_extra = rr_extra q, art_versions = [],
        art_created_at = ck 0, art_updated_at = ck 1\<rparr>)) (\<lambda>a.
     let first = \<lparr>av_artifact_id = art_id a, av_version_number = 1, av_checksum = rr_checksum q, av_created_at = ck 2,
           av_producer_module = rr_producer_module q, av_producer_version = rr_producer_version q,
           av_storage_uri = rr_storage_uri q, av_media_type = rr_media_type q, av_notes = []\<rparr>;
         a = a\<lparr>art_versions := [first]\<rparr>
     in case mark_available (ck 3) a of
          (Inl e, _) \<Rightarrow> py_lift (Inl e)
        | (Inr _, a) \<Rightarrow> py_bind (art_create tf S (a, Some (rr_document_id q))) (\<lambda>obj. py_return (fst obj)))"

definition version_existing ::
    "time_format \<Rightarrow> 'db artifact_session \<Rightarrow> (nat \<Rightarrow> int) \<Rightarrow> register_request \<Rightarrow> artifact_object \<Rightarrow> ('db, artifact) py" where
  "version_existing tf S ck q obj =
     (case create_new_version (ck 0) (ck 1)
         \<lparr>vr_checksum = rr_checksum q, vr_producer_module = rr_producer_module q, vr_producer_version = rr_producer_version q,
          vr_storage_uri = art_storage_uri (fst obj), vr_media_type = rr_media_type q, vr_notes = []\<rparr> (fst obj) of
        (Inl e, _) \<Rightarrow> py_lift (Inl e)
      | (Inr _, a) \<Rightarrow>
          py_bind (art_update tf S (a\<lparr>art_extra := dict_update (art_extra a) (rr_extra q)\<rparr>, snd obj)) (\<lambda>obj. py_return (fst obj)))"

text \<open>What the repository returns is a newly built artifact, without the attribute \<open>document_id\<close>.\<close>

definition register_artifact ::
    "time_format \<Rightarrow> 'db artifact_session \<Rightarrow> string \<Rightarrow> (nat \<Rightarrow> int) \<Rightarrow> register_request \<Rightarrow> ('db, artifact) py" where
  "register_artifact tf S new_id ck q =
     py_bind (art_get_by_uri tf S (rr_storage_uri q)) (\<lambda>existing.
     case existing of
       Some a \<Rightarrow> version_existing tf S ck q (a, None)
     | None \<Rightarrow> create_new tf S new_id ck q)"

section \<open>Generating the artifacts of a run\<close>

record ('r, 'st) generator =
  ge_save_text :: "string \<Rightarrow> string \<Rightarrow> ('st, unit) py"
  ge_text :: "'r \<Rightarrow> string"
  ge_result :: "'r \<Rightarrow> string"
  ge_metadata :: "'r \<Rightarrow> string \<Rightarrow> int \<Rightarrow> string"
  ge_digest :: "string \<Rightarrow> string"

record artifact_set =
  as_artifact_id :: string
  as_version :: int
  as_text_uri :: string
  as_result_uri :: string
  as_metadata_uri :: string
  as_text_checksum :: string
  as_result_checksum :: string
  as_metadata_checksum :: string

definition build_uri :: "string \<Rightarrow> string \<Rightarrow> string \<Rightarrow> string" where
  "build_uri w d filename = ''storage://'' @ w @ ''/artifacts/ocr/'' @ d @ ''/'' @ filename"

definition sidecar_request ::
    "string \<Rightarrow> string \<Rightarrow> string \<times> string \<Rightarrow> string \<times> string \<Rightarrow> string \<times> string \<Rightarrow> string \<Rightarrow> string \<Rightarrow> register_request" where
  "sidecar_request w d txt res meta producer_module producer_version =
     \<lparr>rr_workspace_id = w, rr_document_id = d, rr_storage_uri = fst txt, rr_checksum = snd txt, rr_media_type = ''text/plain'',
      rr_artifact_type = OCR_TEXT, rr_subtype = [], rr_producer_module = producer_module, rr_producer_version = producer_version,
      rr_extra = [(''result_uri'', fst res), (''result_checksum'', snd res), (''metadata_uri'', fst meta), (''metadata_checksum'', snd meta)]\<rparr>"

definition save_payload :: "('r, 'st) generator \<Rightarrow> string \<Rightarrow> string \<Rightarrow> ('st \<times> 'db, unit) py" where
  "save_payload g uri payload = py_on fst (\<lambda>st w. (st, snd w)) (ge_save_text g uri payload)"

definition generate_artifacts ::
    "('r, 'st) generator \<Rightarrow> time_format \<Rightarrow> 'db artifact_session \<Rightarrow> string \<Rightarrow> int \<Rightarrow> (nat \<Rightarrow> int) \<Rightarrow>
     string \<Rightarrow> string \<Rightarrow> 'r \<Rightarrow> string \<Rightarrow> string \<Rightarrow> ('st \<times> 'db, artifact_set) py" where
  "generate_artifacts g tf S new_id now ck w d r producer_module producer_version =
     (let text_uri = build_uri w d ''ocr_text.txt'';
          result_uri = build_uri w d ''ocr_result.json'';
          metadata_uri = build_uri w d ''ocr_metadata.json'';
          text_payload = ge_text g r;
          result_payload = ge_result g r;
          metadata_payload = ge_metadata g r d now;
          text_checksum = ge_digest g text_payload;
          result_checksum = ge_digest g result_payload;
          metadata_checksum = ge_digest g metadata_payload
      in py_bind (save_payload g text_uri text_payload) (\<lambda>_.
         py_bind (save_payload g result_uri result_payload) (\<lambda>_.
         py_bind (save_payload g metadata_uri metadata_payload) (\<lambda>_.
         py_bind (py_on snd (\<lambda>db w. (fst w, db)) (register_artifact tf S new_id ck
           (sidecar_request w d (text_uri, text_checksum) (result_uri, result_checksum) (metadata_uri, metadata_checksum)
              producer_module producer_version))) (\<lambda>a.
         py_return \<lparr>as_artifact_id = art_id a, as_version = art_current_version a, as_text_uri = text_uri, as_result_uri = result_uri,
           as_metadata_uri = metadata_uri, as_text_checksum = text_checksum, as_result_checksum = result_checksum,
           as_metadata_checksum = metadata_checksum\<rparr>)))))"

section \<open>OCR artifacts of pages\<close>

record ocr_artifact =
  oa_artifact_id :: string
  oa_document_id :: string
  oa_page_number :: int
  oa_image_ref :: "string option"
  oa_recognised :: string
  oa_regions :: "string list"
  oa_tables :: "string list"
  oa_created_at :: int

definition ocr_artifact_init :: "ocr_artifact \<Rightarrow> exn + ocr_artifact" where
  "ocr_artifact_init a =
     (if oa_artifact_id a = [] then Inl (Exn ValueError ''artifact_id must not be empty'')
      else if oa_document_id a = [] then Inl (Exn ValueError ''document_id must not be empty'')
      else if oa_page_number a < 1 then Inl (Exn ValueError ''page_number must be >= 1'')
      else Inr a)"

record ocr_artifact_query =
  oq_document_id :: string
  oq_page_number :: "int option"

definition query_matches :: "ocr_artifact_query \<Rightarrow> ocr_artifact \<Rightarrow> bool" where
  "query_matches q a =
     (if oa_document_id a \<noteq> oq_document_id q then False
      else oq_page_number q = None \<or> Some (oa_page_number a) = oq_page_number q)"

record ocr_artifact_options =
  oo_overwrite :: bool

definition allows_overwrite :: "ocr_artifact_options \<Rightarrow> bool" where
  "allows_overwrite opts = oo_overwrite opts"

type_synonym page_artifacts = "(string, ocr_artifact) dict"

definition pages_save :: "ocr_artifact \<Rightarrow> bool \<Rightarrow> (page_artifacts, unit) py" where
  "pages_save a overwrite =
     py_bind (py_read (\<lambda>d. dict_get d (oa_artifact_id a))) (\<lambda>existing.
     if existing \<noteq> None \<and> \<not> overwrite
     then py_raise DuplicateArtifactError (''Artifact '' @ quoted (oa_artifact_id a) @ '' already exists'')
     else py_modify (dict_set (oa_artifact_id a) a))"

definition pages_get :: "page_artifacts \<Rightarrow> string \<Rightarrow> ocr_artifact option" where
  "pages_get d i = dict_get d i"

definition pages_find :: "page_artifacts \<Rightarrow> ocr_artifact_query \<Rightarrow> ocr_artifact list" where
  "pages_find d q = filter (query_matches q) (dict_values d)"

definition pages_delete :: "string \<Rightarrow> (page_artifacts, bool) py" where
  "pages_delete i =
     py_bind (py_read (\<lambda>d. dict_get d i)) (\<lambda>removed. py_bind (py_modify (dict_pop i)) (\<lambda>_. py_return (removed \<noteq> None)))"

definition pages_list_all :: "page_artifacts \<Rightarrow> ocr_artifact list" where
  "pages_list_all d = dict_values d"

definition repositories_register :: "string \<Rightarrow> 'v \<Rightarrow> ('v named, unit) py" where
  "repositories_register n r = named_register ''repository name must not be empty'' n r"

definition repositories_get :: "'v named \<Rightarrow> string \<Rightarrow> exn + 'v" where
  "repositories_get = named_get ArtifactRepositoryNotFoundError (\<lambda>n. ''No artifact repository registered under '' @ quoted n)"

definition repositories_has :: "'v named \<Rightarrow> string \<Rightarrow> bool" where
  "repositories_has = dict_has"

definition repositories_names :: "'v named \<Rightarrow> string list" where
  "repositories_names = named_names"

interpretation repositories: named_registry repositories_register "\<lambda>_ _. True" repositories_get repositories_has repositories_names dict_wf
  unfolding repositories_get_def repositories_has_def repositories_names_def
  by (rule named_registry_intro) (simp add: repositories_register_def)

section \<open>The service\<close>

datatype ocr_artifact_event =
    OcrArtifactStored string string int
  | OcrArtifactDeleted string
  | OcrArtifactFailed string string

text \<open>The state of the service is its repository and the bus.\<close>

definition ocr_emit :: "(ocr_artifact_event \<Rightarrow> ('b, unit) py) option \<Rightarrow> ocr_artifact_event \<Rightarrow> (page_artifacts \<times> 'b, unit) py" where
  "ocr_emit bus e = (case bus of None \<Rightarrow> py_return () | Some publish \<Rightarrow> py_on snd (\<lambda>b w. (fst w, b)) (publish e))"

definition ocr_store ::
    "(ocr_artifact_event \<Rightarrow> ('b, unit) py) option \<Rightarrow> ocr_artifact \<Rightarrow> ocr_artifact_options option \<Rightarrow> (page_artifacts \<times> 'b, unit) py" where
  "ocr_store bus a options =
     (let opts = (case options of None \<Rightarrow> \<lparr>oo_overwrite = False\<rparr> | Some o' \<Rightarrow> o')
      in py_except DuplicateArtifactError
           (py_bind (py_on fst (\<lambda>d w. (d, snd w)) (pages_save a (allows_overwrite opts))) (\<lambda>_.
            ocr_emit bus (OcrArtifactStored (oa_artifact_id a) (oa_document_id a) (oa_page_number a))))
           (\<lambda>exc.
            py_bind (ocr_emit bus (OcrArtifactFailed (oa_artifact_id a) (''Duplicate artifact '' @ quoted (oa_artifact_id a)))) (\<lambda>_.
            py_lift (Inl exc))))"

definition ocr_delete :: "(ocr_artifact_event \<Rightarrow> ('b, unit) py) option \<Rightarrow> string \<Rightarrow> (page_artifacts \<times> 'b, bool) py" where
  "ocr_delete bus i =
     py_bind (py_on fst (\<lambda>d w. (d, snd w)) (pages_delete i)) (\<lambda>removed.
     py_bind (py_when removed (ocr_emit bus (OcrArtifactDeleted i))) (\<lambda>_.
     py_return removed))"

section \<open>Registering again\<close>

context artifact_store
begin

lemma register_first:
  assumes ok: "at.table_ok db" and fresh: "at.entities db new_id = None"
    and unused: "\<forall>b doc. at.entities db (art_id b) = Some (b, doc) \<longrightarrow> art_storage_uri b = rr_storage_uri q \<longrightarrow> art_status b = ART_DELETED"
    and q: "new_id \<noteq> []" "rr_workspace_id q \<noteq> []" "dict_wf (rr_extra q)"
  shows "\<exists>a db'. register_artifact tf S new_id ck q db = (Inr a, db') \<and> at.table_ok db' \<and>
    at.entities db' = (at.entities db)(new_id := Some (a, Some (rr_document_id q))) \<and> art_id a = new_id \<and>
    art_current_version a = 1 \<and> art_status a = ART_AVAILABLE \<and> art_storage_uri a = rr_storage_uri q \<and> art_checksum a = rr_checksum q"
proof -
  have look: "art_get_by_uri tf S (rr_storage_uri q) db = (Inr None, db)"
    using get_by_uri_object [OF ok, of "rr_storage_uri q"] unused by (fastforce split: option.splits)
  define a where "a = \<lparr>art_id = new_id, art_workspace_id = rr_workspace_id q, art_investigation_id = [], art_type = rr_artifact_type q,
        art_subtype = rr_subtype q, art_status = ART_AVAILABLE, art_current_version = 1, art_producer_module = rr_producer_module q,
        art_producer_version = rr_producer_version q, art_checksum = rr_checksum q, art_media_type = rr_media_type q,
        art_storage_uri = rr_storage_uri q, art_tags = [], art_extra = rr_extra q,
        art_versions = [\<lparr>av_artifact_id = new_id, av_version_number = 1, av_checksum = rr_checksum q, av_created_at = ck 2,
           av_producer_module = rr_producer_module q, av_producer_version = rr_producer_version q,
           av_storage_uri = rr_storage_uri q, av_media_type = rr_media_type q, av_notes = []\<rparr>],
        art_created_at = ck 0, art_updated_at = ck 3\<rparr>"
  have run: "register_artifact tf S new_id ck q db = py_bind (art_create tf S (a, Some (rr_document_id q))) (\<lambda>obj. py_return (fst obj)) db"
    using look q(1,2) by (simp add: register_artifact_def create_new_def artifact_post_init_def mark_available_def artifact_transition_cases
        can_transition_artifact_def a_def)
  have "object_readable (a, Some (rr_document_id q))" using q by (simp add: object_readable_def artifact_post_init_def a_def)
  moreover have "at.entities db (art_id (fst (a, Some (rr_document_id q)))) = None" using fresh by (simp add: a_def)
  ultimately obtain db' where "table_create S (row_of_artifact tf) (a, Some (rr_document_id q)) db = (Inr (a, Some (rr_document_id q)), db')"
    "at.table_ok db'" "at.entities db' = (at.entities db)(new_id := Some (a, Some (rr_document_id q)))"
    using at.create_entity [OF ok _ _ at.no_clash, of "(a, Some (rr_document_id q))"] by (auto simp: a_def)
  then have "register_artifact tf S new_id ck q db = (Inr a, db')" "at.table_ok db'"
    "at.entities db' = (at.entities db)(new_id := Some (a, Some (rr_document_id q)))"
    unfolding run by (simp_all add: art_create_def py_bind_split)
  then show ?thesis by (intro exI [of _ a] exI [of _ db']) (simp add: a_def)
qed

lemma register_again:
  assumes ok: "at.table_ok db" and there: "at.entities db (art_id a) = Some (a, doc)" "art_storage_uri a = rr_storage_uri q"
    and status: "art_status a \<notin> {ART_DELETED, ART_ARCHIVED}"
    and only: "\<forall>b doc. at.entities db (art_id b) = Some (b, doc) \<longrightarrow> art_storage_uri b = rr_storage_uri q \<longrightarrow> art_status b \<noteq> ART_DELETED \<longrightarrow>
      art_id b = art_id a"
    and q: "dict_wf (rr_extra q)"
  shows "\<exists>a' db'. register_artifact tf S new_id ck q db = (Inr a', db') \<and> at.table_ok db' \<and>
    at.entities db' = (at.entities db)(art_id a := Some (a', None)) \<and> art_id a' = art_id a \<and>
    art_current_version a' = art_current_version a + 1 \<and> art_status a' = art_status a \<and> art_storage_uri a' = rr_storage_uri q \<and>
    art_checksum a' = rr_checksum q"
proof -
  obtain x where x: "art_get_by_uri tf S (rr_storage_uri q) db = (Inr (map_option fst x), db)"
    "case x of None \<Rightarrow> \<forall>a doc. at.entities db (art_id a) = Some (a, doc) \<longrightarrow> art_storage_uri a = rr_storage_uri q \<longrightarrow> art_status a = ART_DELETED
     | Some (a, doc) \<Rightarrow> at.entities db (art_id a) = Some (a, doc) \<and> art_storage_uri a = rr_storage_uri q \<and> art_status a \<noteq> ART_DELETED"
    using get_by_uri_object [OF ok, of "rr_storage_uri q"] by blast
  have "map_option fst x = Some a"
  proof (cases x)
    case None
    then show ?thesis using x(2) there status by auto
  next
    case (Some y)
    obtain b d where y: "y = (b, d)" by fastforce
    then have b: "at.entities db (art_id b) = Some (b, d)" "art_storage_uri b = rr_storage_uri q" "art_status b \<noteq> ART_DELETED"
      using x(2) Some by auto
    then have id: "art_id b = art_id a" using only by blast
    have "Some (b, d) = Some (a, doc)" using b(1) unfolding id there(1) by (rule sym)
    then show ?thesis unfolding Some y by simp
  qed
  then have look: "art_get_by_uri tf S (rr_storage_uri q) db = (Inr (Some a), db)" using x(1) by simp
  define a' where "a' = snd (create_new_version (ck 0) (ck 1)
         \<lparr>vr_checksum = rr_checksum q, vr_producer_module = rr_producer_module q, vr_producer_version = rr_producer_version q,
          vr_storage_uri = art_storage_uri a, vr_media_type = rr_media_type q, vr_notes = []\<rparr> a)"
  define a2 where "a2 = a'\<lparr>art_extra := dict_update (art_extra a') (rr_extra q)\<rparr>"
  have run: "register_artifact tf S new_id ck q db = py_bind (art_update tf S (a2, None)) (\<lambda>obj. py_return (fst obj)) db"
    using look status by (simp add: register_artifact_def version_existing_def create_new_version_cases Let_def a2_def a'_def)
  have read: "object_readable (a, doc)" using at.entity_ident [OF ok there(1)] by blast
  have a2: "art_id a2 = art_id a" "art_current_version a2 = art_current_version a + 1" "art_status a2 = art_status a"
    "art_storage_uri a2 = rr_storage_uri q" "art_checksum a2 = rr_checksum q" "art_created_at a2 = art_created_at a"
    "art_workspace_id a2 = art_workspace_id a" "art_investigation_id a2 = art_investigation_id a"
    "art_extra a2 = dict_update (art_extra a) (rr_extra q)"
    using status there(2) by (simp_all add: a2_def a'_def create_new_version_cases Let_def)
  have "object_readable (a2, None)"
    using read by (auto simp: object_readable_def artifact_post_init_def a2 split: if_splits)
  moreover have "at.entities db (art_id (fst (a2, None))) = Some (a, doc)" using there(1) by (simp add: a2)
  ultimately obtain db' where "art_update tf S (a2, None) db = (Inr (a2, None), db')" "at.table_ok db'"
    "at.entities db' = (at.entities db)(art_id a := Some (artifact_merge (a, doc) (a2, None)))"
    using at.update_entity [OF ok, where e = "(a2, None)" and old = "(a, doc)" and kind = "''Artifact''"] by (auto simp: art_update_def a2)
  moreover have "artifact_merge (a, doc) (a2, None) = (a2, None)" using a2(6) by (cases a2) (simp add: artifact_merge_def)
  ultimately show ?thesis unfolding run using a2 by (intro exI [of _ a2] exI [of _ db']) (simp add: py_bind_split)
qed

text \<open>A second request for the same location: a version is added, and the document of the artifact is forgotten.\<close>

lemma register_twice:
  assumes ok: "at.table_ok db" and fresh: "at.entities db new_id = None"
    and unused: "\<forall>b doc. at.entities db (art_id b) = Some (b, doc) \<longrightarrow> art_storage_uri b = rr_storage_uri q \<longrightarrow> art_status b = ART_DELETED"
    and q: "new_id \<noteq> []" "rr_workspace_id q \<noteq> []" "dict_wf (rr_extra q)"
    and q2: "rr_storage_uri q2 = rr_storage_uri q" "dict_wf (rr_extra q2)"
  shows "\<exists>a db' a2 db2. register_artifact tf S new_id ck q db = (Inr a, db') \<and> art_id a = new_id \<and> art_current_version a = 1 \<and>
    (\<exists>as. fst (art_list_by_document tf S (rr_document_id q) db') = Inr as \<and> a \<in> set as) \<and>
    register_artifact tf S other_id ck' q2 db' = (Inr a2, db2) \<and> art_id a2 = art_id a \<and> art_current_version a2 = 2 \<and>
    art_checksum a2 = rr_checksum q2 \<and> fst (art_get_by_id tf S (art_id a) db2) = Inr (Some a2) \<and>
    (\<forall>d. \<exists>as. fst (art_list_by_document tf S d db2) = Inr as \<and> art_id a \<notin> art_id ` set as)"
proof -
  from register_first [OF ok fresh unused q] obtain a db' where a: "register_artifact tf S new_id ck q db = (Inr a, db')" "at.table_ok db'"
    "at.entities db' = (at.entities db)(new_id := Some (a, Some (rr_document_id q)))" "art_id a = new_id" "art_current_version a = 1"
    "art_status a = ART_AVAILABLE" "art_storage_uri a = rr_storage_uri q" by blast
  have listed: "\<exists>as. fst (art_list_by_document tf S (rr_document_id q) db') = Inr as \<and> a \<in> set as"
    using list_by_document_objects [OF a(2), of "rr_document_id q"] a(3,4,6) by auto
  have there: "at.entities db' (art_id a) = Some (a, Some (rr_document_id q))" by (simp add: a(3,4))
  have live: "art_status a \<notin> {ART_DELETED, ART_ARCHIVED}" by (simp add: a(6))
  have only: "\<forall>b doc. at.entities db' (art_id b) = Some (b, doc) \<longrightarrow> art_storage_uri b = rr_storage_uri q \<longrightarrow> art_status b \<noteq> ART_DELETED \<longrightarrow>
      art_id b = art_id a"
    using unused by (auto simp: a(3,4))
  have same: "art_storage_uri a = rr_storage_uri q2" by (simp add: a(7) q2(1))
  from register_again [OF a(2) there same live only [folded q2(1)] q2(2), where new_id = other_id and ck = ck'] obtain a2 db2 where
    b: "register_artifact tf S other_id ck' q2 db' = (Inr a2, db2)" "at.table_ok db2"
    "at.entities db2 = (at.entities db')(art_id a := Some (a2, None))" "art_id a2 = art_id a" "art_current_version a2 = 2"
    "art_status a2 = ART_AVAILABLE" "art_checksum a2 = rr_checksum q2" unfolding a(5,6) by auto
  have got: "fst (art_get_by_id tf S (art_id a) db2) = Inr (Some a2)" using get_by_id_object [OF b(2), of "art_id a"] by (simp add: b(3,6))
  have gone: "\<exists>as. fst (art_list_by_document tf S d db2) = Inr as \<and> art_id a \<notin> art_id ` set as" for d
    using list_by_document_objects [OF b(2), of d] by (auto simp: b(3))
  show ?thesis using a(1,4,5) listed b(1,4,5,7) got gone by blast
qed

end

section \<open>The generator\<close>

definition run_payloads :: "('r, 'st) generator \<Rightarrow> int \<Rightarrow> string \<Rightarrow> string \<Rightarrow> 'r \<Rightarrow> (string \<times> string) list" where
  "run_payloads g now w d r =
     [(build_uri w d ''ocr_text.txt'', ge_text g r), (build_uri w d ''ocr_result.json'', ge_result g r),
      (build_uri w d ''ocr_metadata.json'', ge_metadata g r d now)]"

definition run_request :: "('r, 'st) generator \<Rightarrow> int \<Rightarrow> string \<Rightarrow> string \<Rightarrow> 'r \<Rightarrow> string \<Rightarrow> string \<Rightarrow> register_request" where
  "run_request g now w d r pm pv =
     sidecar_request w d (build_uri w d ''ocr_text.txt'', ge_digest g (ge_text g r))
       (build_uri w d ''ocr_result.json'', ge_digest g (ge_result g r))
       (build_uri w d ''ocr_metadata.json'', ge_digest g (ge_metadata g r d now)) pm pv"

text \<open>The payloads are written in order, and only when all are written is the artifact registered.\<close>

lemma generate_cases:
  "generate_artifacts g tf S new_id now ck w d r pm pv (st, db) =
    (case py_for (run_payloads g now w d r) (\<lambda>(uri, payload). ge_save_text g uri payload) st of
       (Inl e, st') \<Rightarrow> (Inl e, (st', db))
     | (Inr _, st') \<Rightarrow>
         (case register_artifact tf S new_id ck (run_request g now w d r pm pv) db of
            (Inl e, db') \<Rightarrow> (Inl e, (st', db'))
          | (Inr a, db') \<Rightarrow>
              (Inr \<lparr>as_artifact_id = art_id a, as_version = art_current_version a, as_text_uri = build_uri w d ''ocr_text.txt'',
                 as_result_uri = build_uri w d ''ocr_result.json'', as_metadata_uri = build_uri w d ''ocr_metadata.json'',
                 as_text_checksum = ge_digest g (ge_text g r), as_result_checksum = ge_digest g (ge_result g r),
                 as_metadata_checksum = ge_digest g (ge_metadata g r d now)\<rparr>, (st', db'))))"
  unfolding generate_artifacts_def Let_def save_payload_def run_payloads_def run_request_def
  by (simp add: py_bind_split split: sum.split prod.split)

lemma run_request_simps [simp]:
  "rr_storage_uri (run_request g now w d r pm pv) = build_uri w d ''ocr_text.txt''"
  "rr_checksum (run_request g now w d r pm pv) = ge_digest g (ge_text g r)"
  "rr_workspace_id (run_request g now w d r pm pv) = w" "rr_document_id (run_request g now w d r pm pv) = d"
  "dict_wf (rr_extra (run_request g now w d r pm pv))"
  by (simp_all add: run_request_def sidecar_request_def dict_wf_def)

lemma all_saved:
  assumes "\<forall>uri payload st. fst (ge_save_text g uri payload st) = Inr ()"
  shows "fst (py_for ps (\<lambda>(uri, payload). ge_save_text g uri payload) st) = Inr ()"
  using assms by (induction ps arbitrary: st) (auto simp: py_bind_split)

section \<open>Properties\<close>

text \<open>C17: 
  OCR output generated for a document is registered as version 1 of an artifact, found under its document. Output generated for the
  same document again becomes version 2 of the same artifact, with the checksum of the new text; but the association with the document is
  lost, so that the artifact is listed under no document any more.
\<close>

theorem generating_again_forgets_document:
  assumes "artifact_store S rows tf" and "entity_table.table_ok rows (row_of_artifact tf) object_readable db"
    and "entity_table.entities rows (object_of_row tf) db new_id = None"
    and "\<forall>b doc. entity_table.entities rows (object_of_row tf) db (art_id b) = Some (b, doc) \<longrightarrow>
      art_storage_uri b = build_uri w d ''ocr_text.txt'' \<longrightarrow> art_status b = ART_DELETED"
    and "new_id \<noteq> []" and "w \<noteq> []" and "\<forall>uri payload st. fst (ge_save_text g uri payload st) = Inr ()"
  shows "\<exists>out st' db' out2 st2 db2.
    generate_artifacts g tf S new_id now ck w d r pm pv (st, db) = (Inr out, (st', db')) \<and> as_artifact_id out = new_id \<and> as_version out = 1 \<and>
    (\<exists>as. fst (art_list_by_document tf S d db') = Inr as \<and> new_id \<in> art_id ` set as) \<and>
    generate_artifacts g tf S other_id now' ck' w d r' pm' pv' (st', db') = (Inr out2, (st2, db2)) \<and>
    as_artifact_id out2 = new_id \<and> as_version out2 = 2 \<and>
    (\<exists>a. fst (art_get_by_id tf S new_id db2) = Inr (Some a) \<and> art_checksum a = ge_digest g (ge_text g r')) \<and>
    (\<forall>d'. \<exists>as. fst (art_list_by_document tf S d' db2) = Inr as \<and> new_id \<notin> art_id ` set as)"
proof -
  let ?q = "run_request g now w d r pm pv" and ?q2 = "run_request g now' w d r' pm' pv'"
  note twice = artifact_store.register_twice [OF assms(1-3), where q = ?q and ?q2.0 = ?q2 and ck = ck and ck' = ck' and other_id = other_id]
  obtain a db' a2 db2 where
    a: "register_artifact tf S new_id ck ?q db = (Inr a, db')" "art_id a = new_id" "art_current_version a = 1"
    "\<exists>as. fst (art_list_by_document tf S d db') = Inr as \<and> a \<in> set as"
    and a2: "register_artifact tf S other_id ck' ?q2 db' = (Inr a2, db2)" "art_id a2 = art_id a" "art_current_version a2 = 2"
    "art_checksum a2 = ge_digest g (ge_text g r')" "fst (art_get_by_id tf S (art_id a) db2) = Inr (Some a2)"
    "\<forall>d. \<exists>as. fst (art_list_by_document tf S d db2) = Inr as \<and> art_id a \<notin> art_id ` set as"
    using twice [unfolded run_request_simps(1-4), OF assms(4-6) run_request_simps(5) refl run_request_simps(5)] by blast
  define st' where "st' = snd (py_for (run_payloads g now w d r) (\<lambda>(uri, payload). ge_save_text g uri payload) st)"
  have s1: "py_for (run_payloads g now w d r) (\<lambda>(uri, payload). ge_save_text g uri payload) st = (Inr (), st')"
    using all_saved [OF assms(7)] by (simp add: st'_def prod_eq_iff)
  obtain st2 where s2: "py_for (run_payloads g now' w d r') (\<lambda>(uri, payload). ge_save_text g uri payload) st' = (Inr (), st2)"
    using all_saved [OF assms(7)] by (metis prod.collapse)
  obtain out where g1: "generate_artifacts g tf S new_id now ck w d r pm pv (st, db) = (Inr out, (st', db'))"
    "as_artifact_id out = new_id" "as_version out = 1"
    unfolding generate_cases s1 prod.case sum.case a(1) using a(2,3) by fastforce
  obtain out2 where g2: "generate_artifacts g tf S other_id now' ck' w d r' pm' pv' (st', db') = (Inr out2, (st2, db2))"
    "as_artifact_id out2 = new_id" "as_version out2 = 2"
    unfolding generate_cases s2 prod.case sum.case a2(1) using a(2) a2(2,3) by fastforce
  have "\<exists>as. fst (art_list_by_document tf S d db') = Inr as \<and> new_id \<in> art_id ` set as" using a(2,4) by blast
  moreover have "\<exists>a. fst (art_get_by_id tf S new_id db2) = Inr (Some a) \<and> art_checksum a = ge_digest g (ge_text g r')"
    using a(2) a2(4,5) by blast
  ultimately show ?thesis using g1 g2 a2(6) [unfolded a(2)] by blast
qed

text \<open>
  The service keeps the OCR artifacts of pages by their id. One with the id of a stored artifact is refused, with an event, and the
  store stays as it was, unless overwriting is allowed; what a query finds are the stored artifacts that match it; and a deleted one is
  gone.
\<close>

theorem page_artifacts_outcome:
  assumes "dict_wf d" and "overwrite = (case options of None \<Rightarrow> False | Some opts \<Rightarrow> oo_overwrite opts)"
    and "publish = (\<lambda>e. py_modify (\<lambda>es. es @ [e]))"
  shows "\<exists>r d' es. ocr_store (Some publish) a options (d, []) = (r, d', es) \<and> dict_wf d' \<and>
    (if pages_get d (oa_artifact_id a) \<noteq> None \<and> \<not> overwrite
     then r = Inl (Exn DuplicateArtifactError (''Artifact '' @ quoted (oa_artifact_id a) @ '' already exists'')) \<and> d' = d \<and>
       es = [OcrArtifactFailed (oa_artifact_id a) (''Duplicate artifact '' @ quoted (oa_artifact_id a))]
     else r = Inr () \<and> pages_get d' = (pages_get d)(oa_artifact_id a := Some a) \<and>
       es = [OcrArtifactStored (oa_artifact_id a) (oa_document_id a) (oa_page_number a)]) \<and>
    (\<forall>q. set (pages_find d' q) = {b. query_matches q b \<and> (\<exists>i. pages_get d' i = Some b)}) \<and>
    (\<exists>d2. ocr_delete (Some publish) (oa_artifact_id a) (d', es) = (Inr True, d2, es @ [OcrArtifactDeleted (oa_artifact_id a)]) \<and>
       pages_get d2 = (pages_get d')(oa_artifact_id a := None))"
proof -
  have found: "set (pages_find e q) = {b. query_matches q b \<and> (\<exists>i. pages_get e i = Some b)}" if "dict_wf e" for e q
    using dict_get_mem [OF that] unfolding pages_find_def pages_get_def by (auto simp: image_iff) (metis snd_conv)+
  have delete: "\<exists>d2. ocr_delete (Some publish) (oa_artifact_id a) (e, es) = (Inr True, d2, es @ [OcrArtifactDeleted (oa_artifact_id a)]) \<and>
      pages_get d2 = (pages_get e)(oa_artifact_id a := None)" if "pages_get e (oa_artifact_id a) \<noteq> None" for e es
    using that by (auto simp: ocr_delete_def pages_delete_def ocr_emit_def assms(3) pages_get_def fun_eq_iff)
  show ?thesis
  proof (cases "pages_get d (oa_artifact_id a) \<noteq> None \<and> \<not> overwrite")
    case True
    then have "ocr_store (Some publish) a options (d, []) =
        (Inl (Exn DuplicateArtifactError (''Artifact '' @ quoted (oa_artifact_id a) @ '' already exists'')), d,
         [OcrArtifactFailed (oa_artifact_id a) (''Duplicate artifact '' @ quoted (oa_artifact_id a))])"
      unfolding assms(2,3)
      by (auto simp: ocr_store_def pages_save_def pages_get_def allows_overwrite_def py_except_def py_try_split py_bind_split ocr_emit_def
          split: option.splits)
    note store = this
    have there: "pages_get d (oa_artifact_id a) \<noteq> None" using True by simp
    show ?thesis unfolding if_P [OF True]
      by (rule exI, rule exI, rule exI, rule conjI, rule store) (intro conjI assms(1) refl allI found delete there)
  next
    case False
    then have "ocr_store (Some publish) a options (d, []) =
        (Inr (), dict_set (oa_artifact_id a) a d, [OcrArtifactStored (oa_artifact_id a) (oa_document_id a) (oa_page_number a)])"
      unfolding assms(2,3)
      by (auto simp: ocr_store_def pages_save_def pages_get_def allows_overwrite_def py_except_def py_try_split py_bind_split ocr_emit_def
          split: option.splits)
    note store = this
    have there: "pages_get (dict_set (oa_artifact_id a) a d) = (pages_get d)(oa_artifact_id a := Some a)" by (simp add: pages_get_def fun_eq_iff)
    then have "pages_get (dict_set (oa_artifact_id a) a d) (oa_artifact_id a) \<noteq> None" by simp
    note del = delete [OF this]
    show ?thesis unfolding if_not_P [OF False]
      by (rule exI, rule exI, rule exI, rule conjI, rule store) (intro conjI dict_wf_set assms(1) refl allI found there del)
  qed
qed

text \<open>A storage that accepts every text, and an OCR run that is its text.\<close>

definition sample_generator :: "(string, string list) generator" where
  "sample_generator = \<lparr>ge_save_text = (\<lambda>uri payload. py_modify (\<lambda>us. us @ [uri])), ge_text = (\<lambda>r. r), ge_result = (\<lambda>r. r),
     ge_metadata = (\<lambda>r d now. d), ge_digest = (\<lambda>p. take 1 p)\<rparr>"

lemma generating_again_forgets_document_witness:
  "\<exists>out st' db' out2 w2.
    generate_artifacts sample_generator decimal_times artifact_table_list ''a'' 0 (\<lambda>_. 0) ''w'' ''d'' ''old'' ''ocr'' ''1'' ([], []) = (Inr out, (st', db')) \<and>
    generate_artifacts sample_generator decimal_times artifact_table_list ''b'' 1 (\<lambda>_. 1) ''w'' ''d'' ''new'' ''ocr'' ''1'' (st', db') = (Inr out2, w2) \<and>
    as_version out2 = 2"
proof -
  have empty: "entity_table.entities (list_find ar_id) (object_of_row decimal_times) [] i = None" for i
    by (simp add: artifact_list.at.entities_def list_find_def)
  have ok: "entity_table.table_ok (list_find ar_id) (row_of_artifact decimal_times) object_readable []"
    unfolding artifact_list.at.table_ok_def by (simp add: list_find_def)
  have saves: "\<forall>uri payload st. fst (ge_save_text sample_generator uri payload st) = Inr ()" by (simp add: sample_generator_def)
  from generating_again_forgets_document [OF artifact_list.artifact_store_axioms ok, where new_id = "''a''" and w = "''w''" and d = "''d''"
      and g = sample_generator and now = 0 and ck = "\<lambda>_. 0" and r = "''old''" and pm = "''ocr''" and pv = "''1''" and st = "[]"
      and other_id = "''b''" and now' = 1 and ck' = "\<lambda>_. 1" and r' = "''new''" and pm' = "''ocr''" and pv' = "''1''"]
  show ?thesis unfolding empty using saves by blast
qed

definition sample_page :: ocr_artifact where
  "sample_page = \<lparr>oa_artifact_id = ''p'', oa_document_id = ''d'', oa_page_number = 1, oa_image_ref = None, oa_recognised = ''hi'',
     oa_regions = [], oa_tables = [], oa_created_at = 0\<rparr>"

lemma page_artifacts_outcome_witness:
  "\<exists>r d'. ocr_store (Some (\<lambda>e. py_modify (\<lambda>es. es @ [e]))) sample_page None ([(''p'', sample_page)], []) = (r, d', [OcrArtifactFailed ''p'' (''Duplicate artifact '' @ quoted ''p'')])"
  using page_artifacts_outcome [OF _ refl refl, of "[(''p'', sample_page)]" sample_page None]
  by (simp add: dict_wf_def pages_get_def sample_page_def)

end
