(* ===== verification/Storage_Uri.thy ===== *)
theory Storage_Uri
  imports Py_Text "HOL-Library.Sublist"
begin

text \<open>
  \<open>storage/uri.py\<close>: the addresses \<open>storage://workspace/path\<close>. First what the program uses of \<open>PurePosixPath\<close> (Python 3.13): a path is its
  root and its parts, empty parts and single dots are dropped, two dots are kept.
\<close>

section \<open>Pure paths\<close>

record posix_path =
  pp_root :: string
  pp_parts :: "string list"

definition path_root :: "string \<Rightarrow> string" where
  "path_root s =
     (if prefix ''///'' s then ''/'' else if prefix ''//'' s then ''//'' else if prefix ''/'' s then ''/'' else [])"

definition path_of :: "string \<Rightarrow> posix_path" where
  "path_of s = \<lparr>pp_root = path_root s, pp_parts = filter (\<lambda>x. x \<noteq> [] \<and> x \<noteq> ''.'') (str_split CHR ''/'' s)\<rparr>"

definition path_str :: "posix_path \<Rightarrow> string" where
  "path_str p = (if pp_root p = [] \<and> pp_parts p = [] then ''.'' else pp_root p @ str_join ''/'' (pp_parts p))"

text \<open>\<open>p / s\<close>: an absolute second operand replaces the first.\<close>

definition path_join :: "posix_path \<Rightarrow> string \<Rightarrow> posix_path" where
  "path_join p s =
     (if pp_root (path_of s) \<noteq> [] then path_of s else p\<lparr>pp_parts := pp_parts p @ pp_parts (path_of s)\<rparr>)"

definition path_parent :: "posix_path \<Rightarrow> posix_path" where
  "path_parent p = p\<lparr>pp_parts := butlast (pp_parts p)\<rparr>"

definition path_name :: "posix_path \<Rightarrow> string" where
  "path_name p = (if pp_parts p = [] then [] else last (pp_parts p))"

text \<open>The part of the name before its last dot and the part behind it; a dot that comes first or last does not count.\<close>

definition name_split :: "string \<Rightarrow> (string \<times> string) option" where
  "name_split n =
     (let after = takeWhile (\<lambda>c. c \<noteq> CHR ''.'') (rev n); before = drop 1 (dropWhile (\<lambda>c. c \<noteq> CHR ''.'') (rev n))
      in if CHR ''.'' \<in> set n \<and> after \<noteq> [] \<and> before \<noteq> [] then Some (rev before, rev after) else None)"

definition path_suffix :: "posix_path \<Rightarrow> string" where
  "path_suffix p = (case name_split (path_name p) of None \<Rightarrow> [] | Some (before, after) \<Rightarrow> CHR ''.'' # after)"

definition path_stem :: "posix_path \<Rightarrow> string" where
  "path_stem p = (case name_split (path_name p) of None \<Rightarrow> path_name p | Some (before, after) \<Rightarrow> before)"

section \<open>Addresses\<close>

record storage_uri =
  su_workspace :: string
  su_path :: string
  su_raw :: string

definition invalid_uri :: "string \<Rightarrow> string \<Rightarrow> exn" where
  "invalid_uri uri reason = Exn InvalidStorageURIError
     (''Invalid storage URI: '' @ uri @ (if reason = [] then [] else '' ('' @ reason @ '')''))"

definition parse_uri :: "string \<Rightarrow> exn + storage_uri" where
  "parse_uri uri =
     (if uri = [] then Inl (invalid_uri uri ''empty URI'')
      else if \<not> prefix ''storage://'' uri then Inl (invalid_uri uri (''scheme must be '' @ quoted ''storage://''))
      else
        let remainder = drop (length ''storage://'') uri in
        if remainder = [] then Inl (invalid_uri uri ''missing workspace'')
        else
          let workspace = takeWhile (\<lambda>c. c \<noteq> CHR ''/'') remainder; path = drop 1 (dropWhile (\<lambda>c. c \<noteq> CHR ''/'') remainder) in
          if workspace = [] then Inl (invalid_uri uri ''empty workspace'')
          else Inr \<lparr>su_workspace = workspace, su_path = path, su_raw = uri\<rparr>)"

definition storage_uri_str :: "storage_uri \<Rightarrow> string" where
  "storage_uri_str u = ''storage://'' @ su_workspace u @ ''/'' @ su_path u"

definition storage_uri_parent :: "storage_uri \<Rightarrow> storage_uri" where
  "storage_uri_parent u =
     (let parent_path = path_str (path_parent (path_of (su_path u)))
      in u\<lparr>su_path := (if parent_path = ''.'' then [] else parent_path)\<rparr>)"

definition storage_uri_name :: "storage_uri \<Rightarrow> string" where
  "storage_uri_name u = path_name (path_of (su_path u))"

definition storage_uri_suffix :: "storage_uri \<Rightarrow> string" where
  "storage_uri_suffix u = path_suffix (path_of (su_path u))"

definition storage_uri_child :: "storage_uri \<Rightarrow> string \<Rightarrow> storage_uri" where
  "storage_uri_child u name =
     (let child_path = path_str (path_join (path_of (su_path u)) name)
      in \<lparr>su_workspace = su_workspace u, su_path = child_path, su_raw = ''storage://'' @ su_workspace u @ ''/'' @ child_path\<rparr>)"

definition build_storage_uri :: "string \<Rightarrow> string \<Rightarrow> string" where
  "build_storage_uri w path = ''storage://'' @ w @ ''/'' @ (if path = [] then [] else path_str (path_of path))"

definition join_uri :: "string \<Rightarrow> string list \<Rightarrow> exn + string" where
  "join_uri base segments =
     and_then (parse_uri base) (\<lambda>parsed.
     Inr (build_storage_uri (su_workspace parsed) (path_str (foldl path_join (path_of (su_path parsed)) segments))))"

section \<open>Descriptions of stored objects\<close>

datatype storage_backend = SB_FILESYSTEM | SB_S3 | SB_AZURE_BLOB | SB_GCS | SB_NFS

datatype content_type =
  CT_UNKNOWN | CT_PDF | CT_PLAIN_TEXT | CT_MARKDOWN | CT_JSON | CT_XML | CT_HTML | CT_PNG | CT_JPEG | CT_TIFF | CT_CSV

record storage_object =
  so_uri :: string
  so_size :: int
  so_created :: int
  so_modified :: int
  so_checksum :: string
  so_backend :: storage_backend
  so_content_type :: content_type
  so_metadata :: "(string, string) dict"

definition object_name :: "storage_object \<Rightarrow> string" where
  "object_name ob = path_name (path_of (so_uri ob))"

text \<open>\<open>split("/", 1)\<close> cuts at the first slash.\<close>

definition object_parent :: "storage_object \<Rightarrow> string" where
  "object_parent ob =
     (if prefix ''storage://'' (so_uri ob) then
        let remainder = drop (length ''storage://'') (so_uri ob);
            workspace = takeWhile (\<lambda>c. c \<noteq> CHR ''/'') remainder;
            rel = drop 1 (dropWhile (\<lambda>c. c \<noteq> CHR ''/'') remainder);
            parent_rel = path_str (path_parent (path_of rel))
        in ''storage://'' @ workspace @ ''/'' @ (if parent_rel = ''.'' then [] else parent_rel)
      else path_str (path_parent (path_of (so_uri ob))))"

definition object_extension :: "storage_object \<Rightarrow> string" where
  "object_extension ob = path_suffix (path_of (so_uri ob))"

definition object_is_root :: "storage_object \<Rightarrow> bool" where
  "object_is_root ob = (so_uri ob = ''/'' \<or> so_uri ob = [])"

section \<open>Reading what is written\<close>

definition pure_path_ok :: "posix_path \<Rightarrow> bool" where
  "pure_path_ok p = (pp_root p \<in> {[], ''/'', ''//''} \<and> (\<forall>x \<in> set (pp_parts p). x \<noteq> [] \<and> x \<noteq> ''.'' \<and> CHR ''/'' \<notin> set x))"

lemma path_root_cases: "path_root s \<in> {[], ''/'', ''//''}"
  by (simp add: path_root_def)

lemma path_of_ok [simp, intro]: "pure_path_ok (path_of s)"
  using path_root_cases [of s] by (auto simp: pure_path_ok_def path_of_def dest: str_split_pieces)

lemma path_join_ok [intro]: "pure_path_ok p \<Longrightarrow> pure_path_ok (path_join p s)"
  using path_of_ok [of s] by (auto simp: path_join_def pure_path_ok_def)

lemma path_parent_ok [intro]: "pure_path_ok p \<Longrightarrow> pure_path_ok (path_parent p)"
  by (auto simp: path_parent_def pure_path_ok_def dest: in_set_butlastD)

lemma str_split_slash: "str_split CHR ''/'' (CHR ''/'' # s) = [] # str_split CHR ''/'' s"
  using str_split_append [of "CHR ''/''" "[]" s] by simp

lemma path_root_relative: "hd cs \<noteq> CHR ''/'' \<Longrightarrow> cs \<noteq> [] \<Longrightarrow> path_root cs = [] \<and> path_root (CHR ''/'' # cs) = ''/'' \<and> path_root (CHR ''/'' # CHR ''/'' # cs) = ''//''"
  by (cases cs) (auto simp: path_root_def)

text \<open>What \<open>str\<close> makes of a path is read as that path.\<close>

lemma path_of_str:
  assumes "pure_path_ok p"
  shows "path_of (path_str p) = p"
proof (cases "pp_parts p")
  case Nil
  then show ?thesis using assms
    by (cases p) (auto simp: pure_path_ok_def path_str_def path_of_def str_split_slash path_root_def)
next
  case (Cons x xs)
  define t where "t = str_join ''/'' (pp_parts p)"
  have parts: "\<forall>x \<in> set (pp_parts p). x \<noteq> [] \<and> x \<noteq> ''.'' \<and> CHR ''/'' \<notin> set x" using assms by (simp add: pure_path_ok_def)
  have "str_split CHR ''/'' t = pp_parts p" unfolding t_def using parts Cons by (intro str_split_join) auto
  moreover have "filter (\<lambda>x. x \<noteq> [] \<and> x \<noteq> ''.'') (pp_parts p) = pp_parts p" using parts by (simp add: filter_id_conv)
  ultimately have read: "filter (\<lambda>x. x \<noteq> [] \<and> x \<noteq> ''.'') (str_split CHR ''/'' t) = pp_parts p" by simp
  have x: "x \<noteq> []" "CHR ''/'' \<notin> set x" using parts Cons by auto
  then have "x \<noteq> []" "hd x \<noteq> CHR ''/''" using hd_in_set [OF x(1)] by metis+
  then have t: "t \<noteq> []" "hd t \<noteq> CHR ''/''" unfolding t_def Cons by (cases xs; simp)+
  have str: "path_str p = pp_root p @ t" using Cons by (simp add: path_str_def t_def)
  consider "pp_root p = []" | "pp_root p = ''/''" | "pp_root p = ''//''" using assms by (auto simp: pure_path_ok_def)
  then have "path_root (pp_root p @ t) = pp_root p \<and> filter (\<lambda>x. x \<noteq> [] \<and> x \<noteq> ''.'') (str_split CHR ''/'' (pp_root p @ t)) = pp_parts p"
    using path_root_relative [OF t(2,1)] read by cases (simp_all add: str_split_slash)
  then show ?thesis unfolding str path_of_def by simp
qed

lemma first_slash:
  "s = takeWhile (\<lambda>c. c \<noteq> CHR ''/'') s @ (if CHR ''/'' \<in> set s then CHR ''/'' # drop 1 (dropWhile (\<lambda>c. c \<noteq> CHR ''/'') s) else [])"
  by (induction s) auto

lemma no_slash: "CHR ''/'' \<notin> set s \<Longrightarrow> takeWhile (\<lambda>c. c \<noteq> CHR ''/'') s = s \<and> dropWhile (\<lambda>c. c \<noteq> CHR ''/'') s = []"
  by (induction s) auto

lemma parse_uri_build:
  assumes "w \<noteq> []" and "CHR ''/'' \<notin> set w"
  shows "parse_uri (''storage://'' @ w @ ''/'' @ path) = Inr \<lparr>su_workspace = w, su_path = path, su_raw = ''storage://'' @ w @ ''/'' @ path\<rparr>"
proof -
  have "takeWhile (\<lambda>c. c \<noteq> CHR ''/'') (w @ ''/'' @ path) = w" "dropWhile (\<lambda>c. c \<noteq> CHR ''/'') (w @ ''/'' @ path) = ''/'' @ path"
    using assms(2) by (induction w) auto
  then show ?thesis using assms(1) by (simp add: parse_uri_def Let_def)
qed

lemma parse_uri_shape:
  "parse_uri uri = Inr u \<longleftrightarrow>
    su_raw u = uri \<and> su_workspace u \<noteq> [] \<and> CHR ''/'' \<notin> set (su_workspace u) \<and>
    (uri = storage_uri_str u \<or> uri @ ''/'' = storage_uri_str u \<and> su_path u = [])"
proof
  assume u: "parse_uri uri = Inr u"
  then obtain r where r: "uri = ''storage://'' @ r" by (auto simp: parse_uri_def prefix_def Let_def split: if_splits)
  then have "u = \<lparr>su_workspace = takeWhile (\<lambda>c. c \<noteq> CHR ''/'') r, su_path = drop 1 (dropWhile (\<lambda>c. c \<noteq> CHR ''/'') r), su_raw = uri\<rparr>"
    "takeWhile (\<lambda>c. c \<noteq> CHR ''/'') r \<noteq> []"
    using u by (auto simp: parse_uri_def Let_def split: if_splits)
  then show "su_raw u = uri \<and> su_workspace u \<noteq> [] \<and> CHR ''/'' \<notin> set (su_workspace u) \<and>
    (uri = storage_uri_str u \<or> uri @ ''/'' = storage_uri_str u \<and> su_path u = [])"
    using first_slash [of r] no_slash [of r] r by (cases "CHR ''/'' \<in> set r") (auto simp: storage_uri_str_def dest: set_takeWhileD)
next
  assume u: "su_raw u = uri \<and> su_workspace u \<noteq> [] \<and> CHR ''/'' \<notin> set (su_workspace u) \<and>
    (uri = storage_uri_str u \<or> uri @ ''/'' = storage_uri_str u \<and> su_path u = [])"
  then consider "uri = storage_uri_str u" | "uri = ''storage://'' @ su_workspace u" "su_path u = []"
    by (auto simp: storage_uri_str_def)
  then show "parse_uri uri = Inr u"
  proof cases
    case 1
    then show ?thesis using parse_uri_build [of "su_workspace u" "su_path u"] u by (cases u) (simp add: storage_uri_str_def)
  next
    case 2
    have "CHR ''/'' \<notin> set (su_workspace u)" using u by simp
    note t = no_slash [OF this, THEN conjunct1] no_slash [OF this, THEN conjunct2]
    have "parse_uri uri = Inr \<lparr>su_workspace = su_workspace u, su_path = [], su_raw = uri\<rparr>"
      unfolding parse_uri_def 2(1) using u by (simp add: Let_def t del: takeWhile_eq_all_conv dropWhile_eq_Nil_conv)
    then show ?thesis using 2(2) u by (cases u) simp
  qed
qed

section \<open>Properties\<close>

lemma path_of_dot [simp]: "path_of ''.'' = \<lparr>pp_root = [], pp_parts = []\<rparr>" "path_of [] = \<lparr>pp_root = [], pp_parts = []\<rparr>"
  by (simp_all add: path_of_def path_root_def)

lemma path_of_name: "name \<noteq> [] \<Longrightarrow> name \<noteq> ''.'' \<Longrightarrow> CHR ''/'' \<notin> set name \<Longrightarrow> path_of name = \<lparr>pp_root = [], pp_parts = [name]\<rparr>"
  by (cases name) (auto simp: path_of_def path_root_def str_split_none)

lemma path_of_str_or_empty: "pure_path_ok p \<Longrightarrow> path_of (if path_str p = ''.'' then [] else path_str p) = p"
  using path_of_str [of p] by (auto split: if_splits)

text \<open>
  An address that was parsed is printed as an address that is parsed the same; one built from a workspace and any path belongs to that
  workspace and denotes that path; and a child of an address has the name it was given and the address as its parent.
\<close>

theorem storage_uri_roundtrip:
  assumes "parse_uri uri = Inr u" and "name \<noteq> []" and "name \<noteq> ''.''" and "CHR ''/'' \<notin> set name"
  shows "parse_uri (storage_uri_str u) = Inr (u\<lparr>su_raw := storage_uri_str u\<rparr>) \<and>
    (\<exists>p. parse_uri (build_storage_uri (su_workspace u) path) =
        Inr \<lparr>su_workspace = su_workspace u, su_path = p, su_raw = build_storage_uri (su_workspace u) path\<rparr> \<and> path_of p = path_of path) \<and>
    storage_uri_name (storage_uri_child u name) = name \<and>
    path_of (su_path (storage_uri_parent (storage_uri_child u name))) = path_of (su_path u) \<and>
    parse_uri (su_raw (storage_uri_child u name)) = Inr (storage_uri_child u name)"
proof -
  have w: "su_workspace u \<noteq> []" "CHR ''/'' \<notin> set (su_workspace u)" using assms(1) unfolding parse_uri_shape by simp_all
  have join: "path_join (path_of (su_path u)) name = (path_of (su_path u))\<lparr>pp_parts := pp_parts (path_of (su_path u)) @ [name]\<rparr>"
    using path_of_name [OF assms(2-4)] by (simp add: path_join_def)
  have ok: "pure_path_ok (path_join (path_of (su_path u)) name)" by (rule path_join_ok [OF path_of_ok])
  have "storage_uri_name (storage_uri_child u name) = name"
    using path_of_str [OF ok] unfolding join by (simp add: storage_uri_name_def storage_uri_child_def Let_def join path_name_def)
  moreover have "path_of (su_path (storage_uri_parent (storage_uri_child u name))) = path_of (su_path u)"
  proof -
    have "path_parent (path_join (path_of (su_path u)) name) = path_of (su_path u)" by (simp add: path_parent_def join)
    then show ?thesis
      using path_of_str_or_empty [OF path_of_ok [of "su_path u"]]
      by (simp only: storage_uri_parent_def storage_uri_child_def Let_def storage_uri.simps path_of_str [OF ok])
  qed
  moreover have "\<exists>p. parse_uri (build_storage_uri (su_workspace u) path) =
        Inr \<lparr>su_workspace = su_workspace u, su_path = p, su_raw = build_storage_uri (su_workspace u) path\<rparr> \<and> path_of p = path_of path"
    using parse_uri_build [OF w] path_of_str [OF path_of_ok [of path]] by (auto simp: build_storage_uri_def)
  moreover have "parse_uri (storage_uri_str u) = Inr (u\<lparr>su_raw := storage_uri_str u\<rparr>)"
    using parse_uri_build [OF w, of "su_path u"] by (cases u) (simp add: storage_uri_str_def)
  moreover have "parse_uri (su_raw (storage_uri_child u name)) = Inr (storage_uri_child u name)"
    using parse_uri_build [OF w] by (simp add: storage_uri_child_def Let_def)
  ultimately show ?thesis by blast
qed

lemma storage_uri_roundtrip_witness:
  "storage_uri_name (storage_uri_child \<lparr>su_workspace = ''w'', su_path = ''a/b'', su_raw = ''storage://w/a/b''\<rparr> ''c.txt'') = ''c.txt''"
  using storage_uri_roundtrip [of "''storage://w/a/b''" "\<lparr>su_workspace = ''w'', su_path = ''a/b'', su_raw = ''storage://w/a/b''\<rparr>" "''c.txt''"]
  by (simp add: parse_uri_shape storage_uri_str_def)

text \<open>\<open>join_uri\<close> stays in the workspace, but an absolute segment replaces the path.\<close>

lemma join_uri_workspace:
  assumes "parse_uri base = Inr u"
  shows "\<exists>uri v. join_uri base segments = Inr uri \<and> parse_uri uri = Inr v \<and> su_workspace v = su_workspace u \<and>
    path_of (su_path v) = foldl path_join (path_of (su_path u)) segments"
proof -
  have w: "su_workspace u \<noteq> []" "CHR ''/'' \<notin> set (su_workspace u)" using assms unfolding parse_uri_shape by simp_all
  have "pure_path_ok (foldl path_join p segments)" if "pure_path_ok p" for p using that by (induction segments arbitrary: p) auto
  then have ok: "pure_path_ok (foldl path_join (path_of (su_path u)) segments)" by simp
  let ?s = "path_str (foldl path_join (path_of (su_path u)) segments)"
  have "path_of (if ?s = [] then [] else path_str (path_of ?s)) = foldl path_join (path_of (su_path u)) segments"
    using path_of_str [OF ok] path_of_dot(2) by (cases "?s = []") (simp_all add: path_of_str)
  then show ?thesis using assms parse_uri_build [OF w] by (simp add: join_uri_def build_storage_uri_def)
qed

end
