(* ===== verification/Storage_Files.thy ===== *)
theory Storage_Files
  imports Storage_Uri "HOL-Library.Word"
begin

text \<open>
  \<open>storage/filesystem.py\<close>, the storage in a directory of the local file system. First the file system itself, as far as \<open>pathlib\<close> and
  \<open>shutil\<close> use it here: a finite map from locations (lists of names below \<open>/\<close>) to files and directories, without symbolic links,
  permissions and limits of length. Then the provider. Text codecs and hash functions are parameters; times are left out.
\<close>

section \<open>The file system\<close>

type_synonym bytes = "8 word list"
type_synonym location = "string list"

datatype fnode = FileNode bytes | DirNode

type_synonym fs = "(location, fnode) dict"

definition is_dir :: "fs \<Rightarrow> location \<Rightarrow> bool" where
  "is_dir fs p = (dict_get fs p = Some DirNode)"

definition is_file :: "fs \<Rightarrow> location \<Rightarrow> bool" where
  "is_file fs p = (case dict_get fs p of Some (FileNode _) \<Rightarrow> True | _ \<Rightarrow> False)"

definition children :: "fs \<Rightarrow> location \<Rightarrow> string list" where
  "children fs p = sort (map last (filter (\<lambda>q. q \<noteq> [] \<and> butlast q = p) (dict_keys fs)))"

definition os_raise :: "exn_class \<Rightarrow> location \<Rightarrow> (fs, 'a) py" where
  "os_raise c p = py_raise c (path_str \<lparr>pp_root = ''/'', pp_parts = p\<rparr>)"

definition add_dir :: "location \<Rightarrow> fs \<Rightarrow> fs" where
  "add_dir p fs = (if dict_has fs p then fs else dict_set p DirNode fs)"

text \<open>\<open>Path.mkdir(exist_ok=True)\<close>, with its ancestors.\<close>

definition make_dirs :: "location \<Rightarrow> (fs, unit) py" where
  "make_dirs p =
     py_bind (py_read id) (\<lambda>fs.
     if \<exists>q \<in> set (prefixes (butlast p)). is_file fs q then os_raise NotADirectoryError p
     else if is_file fs p then os_raise FileExistsError p
     else py_modify (fold add_dir (prefixes p)))"

definition make_dir :: "location \<Rightarrow> (fs, unit) py" where
  "make_dir p =
     py_bind (py_read id) (\<lambda>fs.
     if is_file fs (butlast p) then os_raise NotADirectoryError p
     else if \<not> is_dir fs (butlast p) then os_raise (OtherException ''FileNotFoundError'') p
     else make_dirs p)"

definition write_file :: "location \<Rightarrow> bytes \<Rightarrow> (fs, unit) py" where
  "write_file p data =
     py_bind (py_read id) (\<lambda>fs.
     if is_dir fs p then os_raise IsADirectoryError p else py_modify (dict_set p (FileNode data)))"

text \<open>\<open>shutil.rmtree\<close>: the root directory itself cannot be removed.\<close>

definition remove_tree :: "location \<Rightarrow> (fs, unit) py" where
  "remove_tree p =
     py_bind (py_modify (filter (\<lambda>(q, _). \<not> prefix p q \<or> q = []))) (\<lambda>_.
     if p = [] then os_raise (OtherException ''OSError'') p else py_return ())"

definition copied_entries :: "location \<Rightarrow> location \<Rightarrow> fs \<Rightarrow> fs" where
  "copied_entries src dst fs = map (\<lambda>(q, n). (dst @ drop (length src) q, n)) (filter (\<lambda>(q, _). strict_prefix src q) fs)"

text \<open>
  \<open>shutil.copytree\<close>. Below an entry of the source itself the copy would fill the directory until an error ends it: of this only the
  error is modelled.
\<close>

definition copy_tree :: "location \<Rightarrow> location \<Rightarrow> (fs, unit) py" where
  "copy_tree src dst =
     py_bind (py_read id) (\<lambda>fs.
     if dict_has fs dst then os_raise FileExistsError dst
     else if strict_prefix src dst \<and> is_dir fs (take (Suc (length src)) dst) then os_raise (OtherException ''Error'') dst
     else py_bind (make_dirs dst) (\<lambda>_. py_modify (\<lambda>now. dict_update now (copied_entries src dst fs))))"

text \<open>\<open>shutil.copy2\<close> of a file: into a directory if that is what the destination is.\<close>

definition inside :: "fs \<Rightarrow> location \<Rightarrow> location \<Rightarrow> location" where
  "inside fs src dst = (if is_dir fs dst then (if src = [] then dst else dst @ [last src]) else dst)"

definition copy_file :: "location \<Rightarrow> location \<Rightarrow> (fs, unit) py" where
  "copy_file src dst =
     py_bind (py_read id) (\<lambda>fs.
     let target = inside fs src dst in
     if target = src then os_raise (OtherException ''SameFileError'') dst
     else case dict_get fs src of
            Some (FileNode data) \<Rightarrow> write_file target data
          | _ \<Rightarrow> os_raise IsADirectoryError src)"

definition moved :: "location \<Rightarrow> location \<Rightarrow> location \<Rightarrow> location" where
  "moved src dst q = (if prefix src q then dst @ drop (length src) q else q)"

text \<open>\<open>os.rename\<close> of what is at \<open>src\<close> to a place that is free or a file.\<close>

definition rename :: "location \<Rightarrow> location \<Rightarrow> fs \<Rightarrow> fs" where
  "rename src dst fs =
     (if src = dst then fs else map (\<lambda>(q, n). (moved src dst q, n)) (filter (\<lambda>(q, _). q \<noteq> dst) fs))"

text \<open>\<open>shutil.move\<close>.\<close>

definition move_entry :: "location \<Rightarrow> location \<Rightarrow> (fs, unit) py" where
  "move_entry src dst =
     py_bind (py_read id) (\<lambda>fs.
     if is_dir fs dst \<and> src = dst then py_return ()
     else
       let target = inside fs src dst in
       if is_dir fs dst \<and> dict_has fs target then os_raise (OtherException ''Error'') target
       else if is_dir fs src \<and> prefix src dst then os_raise (OtherException ''Error'') dst
       else if is_dir fs src \<and> is_file fs target then os_raise FileExistsError target
       else py_modify (rename src target))"

section \<open>The provider\<close>

record storage_provider =
  fp_root :: location
  fp_encode :: "string \<Rightarrow> string \<Rightarrow> exn + bytes"
  fp_decode :: "string \<Rightarrow> bytes \<Rightarrow> exn + string"
  fp_digest :: "string \<Rightarrow> (bytes \<Rightarrow> string) option"

text \<open>The constructor, for a root without two dots in it.\<close>

definition provider_init :: "posix_path \<Rightarrow> (fs, location) py" where
  "provider_init root =
     (if pp_root root = [] then py_raise ValueError (''Root must be an absolute path, got: '' @ path_str root)
      else py_bind (make_dirs (pp_parts root)) (\<lambda>_. py_return (pp_parts root)))"

definition location_str :: "location \<Rightarrow> string" where
  "location_str p = path_str \<lparr>pp_root = ''/'', pp_parts = p\<rparr>"

text \<open>\<open>Path.resolve\<close> of an absolute path: two dots lead to the parent, at the top they stay there.\<close>

fun resolve_dots :: "location \<Rightarrow> string list \<Rightarrow> location" where
  "resolve_dots acc [] = acc"
| "resolve_dots acc (x # xs) = (if x = ''..'' then resolve_dots (butlast acc) xs else resolve_dots (acc @ [x]) xs)"

definition permission_denied :: "string \<Rightarrow> string \<Rightarrow> exn" where
  "permission_denied uri operation =
     Exn StoragePermissionDeniedError (''Permission denied for '' @ quoted operation @ '' on: '' @ uri)"

definition provider_resolve :: "storage_provider \<Rightarrow> string \<Rightarrow> exn + location" where
  "provider_resolve P rel =
     (let resolved = resolve_dots [] (pp_parts (path_join \<lparr>pp_root = ''/'', pp_parts = fp_root P\<rparr> rel))
      in if \<not> prefix (location_str (fp_root P)) (location_str resolved)
         then Inl (permission_denied (''Path traversal not allowed: '' @ rel) ''resolve'') else Inr resolved)"

definition storage_not_found :: "string \<Rightarrow> exn" where
  "storage_not_found uri = Exn StorageNotFoundError (''Storage object not found: '' @ uri)"

definition require_exists :: "storage_provider \<Rightarrow> string \<Rightarrow> (fs, location) py" where
  "require_exists P path =
     py_bind (py_lift (provider_resolve P path)) (\<lambda>resolved.
     py_bind (py_read (\<lambda>fs. dict_has fs resolved)) (\<lambda>there.
     if there then py_return resolved else py_lift (Inl (storage_not_found path))))"

definition provider_exists :: "storage_provider \<Rightarrow> string \<Rightarrow> (fs, bool) py" where
  "provider_exists P path =
     py_bind (py_lift (provider_resolve P path)) (\<lambda>resolved. py_read (\<lambda>fs. dict_has fs resolved))"

definition read_bytes :: "storage_provider \<Rightarrow> string \<Rightarrow> (fs, bytes) py" where
  "read_bytes P path =
     py_bind (require_exists P path) (\<lambda>resolved.
     py_bind (py_read (\<lambda>fs. dict_get fs resolved)) (\<lambda>node.
     case node of Some (FileNode data) \<Rightarrow> py_return data | _ \<Rightarrow> py_lift (Inl (storage_not_found path))))"

definition write_bytes :: "storage_provider \<Rightarrow> string \<Rightarrow> bytes \<Rightarrow> (fs, unit) py" where
  "write_bytes P path data =
     py_bind (py_lift (provider_resolve P path)) (\<lambda>resolved.
     py_bind (make_dirs (butlast resolved)) (\<lambda>_.
     write_file resolved data))"

text \<open>Reading text translates the ends of lines; writing does not.\<close>

fun universal_newlines :: "string \<Rightarrow> string" where
  "universal_newlines [] = []"
| "universal_newlines [c] = [if c = CHR 0x0D then CHR 0x0A else c]"
| "universal_newlines (c # d # cs) =
     (if c = CHR 0x0D then CHR 0x0A # universal_newlines (if d = CHR 0x0A then cs else d # cs) else c # universal_newlines (d # cs))"

definition read_text :: "storage_provider \<Rightarrow> string \<Rightarrow> string \<Rightarrow> (fs, string) py" where
  "read_text P path encoding =
     py_bind (read_bytes P path) (\<lambda>data.
     py_bind (py_lift (fp_decode P encoding data)) (\<lambda>s. py_return (universal_newlines s)))"

text \<open>The file is opened, and so is emptied, before the text is encoded.\<close>

definition write_text :: "storage_provider \<Rightarrow> string \<Rightarrow> string \<Rightarrow> string \<Rightarrow> (fs, unit) py" where
  "write_text P path s encoding =
     py_bind (py_lift (provider_resolve P path)) (\<lambda>resolved.
     py_bind (make_dirs (butlast resolved)) (\<lambda>_.
     py_bind (write_file resolved []) (\<lambda>_.
     py_bind (py_lift (fp_encode P encoding s)) (\<lambda>data.
     write_file resolved data))))"

definition provider_delete :: "storage_provider \<Rightarrow> string \<Rightarrow> (fs, unit) py" where
  "provider_delete P path =
     py_bind (require_exists P path) (\<lambda>resolved.
     py_bind (py_read (\<lambda>fs. is_dir fs resolved)) (\<lambda>dir.
     if dir then remove_tree resolved else py_modify (dict_pop resolved)))"

definition provider_copy :: "storage_provider \<Rightarrow> string \<Rightarrow> string \<Rightarrow> (fs, unit) py" where
  "provider_copy P src dst =
     py_bind (require_exists P src) (\<lambda>src_path.
     py_bind (py_lift (provider_resolve P dst)) (\<lambda>dst_path.
     py_bind (py_read (\<lambda>fs. is_dir fs src_path)) (\<lambda>dir.
     if dir then copy_tree src_path dst_path
     else py_bind (make_dirs (butlast dst_path)) (\<lambda>_. copy_file src_path dst_path))))"

definition provider_move :: "storage_provider \<Rightarrow> string \<Rightarrow> string \<Rightarrow> (fs, unit) py" where
  "provider_move P src dst =
     py_bind (require_exists P src) (\<lambda>src_path.
     py_bind (py_lift (provider_resolve P dst)) (\<lambda>dst_path.
     py_bind (make_dirs (butlast dst_path)) (\<lambda>_.
     move_entry src_path dst_path)))"

definition provider_mkdir :: "storage_provider \<Rightarrow> string \<Rightarrow> bool \<Rightarrow> (fs, unit) py" where
  "provider_mkdir P path parents =
     py_bind (py_lift (provider_resolve P path)) (\<lambda>resolved. if parents then make_dirs resolved else make_dir resolved)"

definition provider_list :: "storage_provider \<Rightarrow> string \<Rightarrow> (fs, string list) py" where
  "provider_list P path =
     py_bind (py_lift (provider_resolve P path)) (\<lambda>resolved.
     py_bind (py_read (\<lambda>fs. is_dir fs resolved)) (\<lambda>dir.
     if \<not> dir then py_lift (Inl (storage_not_found path)) else py_read (\<lambda>fs. children fs resolved)))"

text \<open>\<open>Path.walk\<close> from the top, with the directories in order; a file has nothing to walk through.\<close>

function walk_from :: "fs \<Rightarrow> location \<Rightarrow> (location \<times> string list \<times> string list) list" where
  "walk_from fs p =
     (let dirs = filter (\<lambda>n. is_dir fs (p @ [n])) (children fs p); files = filter (\<lambda>n. \<not> is_dir fs (p @ [n])) (children fs p)
      in (p, dirs, files) # concat (map (\<lambda>d. walk_from fs (p @ [d])) dirs))"
  by pat_completeness auto

termination
proof (relation "measure (\<lambda>(fs, p). Suc (Max (length ` set (dict_keys fs))) - length p)")
  show "wf (measure (\<lambda>(fs :: fs, p). Suc (Max (length ` set (dict_keys fs))) - length p))" by simp
  fix fs :: fs and p :: location and dirs files d
  assume "dirs = filter (\<lambda>n. is_dir fs (p @ [n])) (children fs p)" and "d \<in> set dirs"
  then have "p @ [d] \<in> set (dict_keys fs)" by (auto simp: is_dir_def dest: dict_get_key)
  then have "length (p @ [d]) \<le> Max (length ` set (dict_keys fs))" by (intro Max_ge finite_imageI imageI finite_set)
  then show "((fs, p @ [d]), (fs, p)) \<in> measure (\<lambda>(fs, p). Suc (Max (length ` set (dict_keys fs))) - length p)" by simp
qed

text \<open>The locations are given relative to the root; one that is not below it raises.\<close>

definition relative_to_root :: "storage_provider \<Rightarrow> location \<Rightarrow> exn + string" where
  "relative_to_root P p =
     (if \<not> prefix (fp_root P) p then Inl (Exn ValueError (repr_str (location_str p) @ '' is not in the subpath of '' @ repr_str (location_str (fp_root P))))
      else
        let rel = path_str \<lparr>pp_root = [], pp_parts = drop (length (fp_root P)) p\<rparr>
        in Inr (if rel = ''.'' then [] else rel))"

fun all_results :: "(exn + 'a) list \<Rightarrow> exn + 'a list" where
  "all_results [] = Inr []"
| "all_results (x # xs) = and_then x (\<lambda>y. and_then (all_results xs) (\<lambda>ys. Inr (y # ys)))"

definition provider_walk :: "storage_provider \<Rightarrow> string \<Rightarrow> (fs, (string \<times> string list \<times> string list) list) py" where
  "provider_walk P path =
     py_bind (require_exists P path) (\<lambda>resolved.
     py_bind (py_read id) (\<lambda>fs.
     py_lift (all_results (map (\<lambda>(p, dirs, files). and_then (relative_to_root P p) (\<lambda>rel. Inr (rel, dirs, files)))
       (if is_dir fs resolved then walk_from fs resolved else [])))))"

record storage_stat =
  st_exists :: bool
  st_is_directory :: bool
  st_size :: int
  st_modified :: "int option"

text \<open>What is given as the time of the last change is the time of the call.\<close>

definition provider_stat :: "storage_provider \<Rightarrow> int \<Rightarrow> string \<Rightarrow> (fs, storage_stat) py" where
  "provider_stat P now path =
     py_bind (py_lift (provider_resolve P path)) (\<lambda>resolved.
     py_read (\<lambda>fs. case dict_get fs resolved of
         None \<Rightarrow> \<lparr>st_exists = False, st_is_directory = False, st_size = 0, st_modified = None\<rparr>
       | Some DirNode \<Rightarrow> \<lparr>st_exists = True, st_is_directory = True, st_size = 0, st_modified = Some now\<rparr>
       | Some (FileNode data) \<Rightarrow> \<lparr>st_exists = True, st_is_directory = False, st_size = int (length data), st_modified = Some now\<rparr>))"

definition compute_checksum :: "(string \<Rightarrow> (bytes \<Rightarrow> string) option) \<Rightarrow> bytes \<Rightarrow> string \<Rightarrow> exn + string" where
  "compute_checksum digest data algorithm =
     (case digest algorithm of
        None \<Rightarrow> Inl (Exn ValueError (''Unsupported hash algorithm: '' @ algorithm))
      | Some hexdigest \<Rightarrow> Inr (hexdigest data))"

definition provider_checksum :: "storage_provider \<Rightarrow> string \<Rightarrow> string \<Rightarrow> (fs, string) py" where
  "provider_checksum P path algorithm =
     py_bind (read_bytes P path) (\<lambda>data. py_lift (compute_checksum (fp_digest P) data algorithm))"

section \<open>Which locations are allowed\<close>

definition allowed :: "location \<Rightarrow> location \<Rightarrow> bool" where
  "allowed root p = prefix (location_str root) (location_str p)"

definition names_ok :: "location \<Rightarrow> bool" where
  "names_ok p = (\<forall>x \<in> set p. x \<noteq> [] \<and> CHR ''/'' \<notin> set x)"

lemma prefix_name:
  "CHR ''/'' \<notin> set r \<Longrightarrow> CHR ''/'' \<notin> set c \<Longrightarrow>
    (prefix (r @ CHR ''/'' # s) (c @ CHR ''/'' # t) \<longleftrightarrow> r = c \<and> prefix s t) \<and> \<not> prefix (r @ CHR ''/'' # s) c \<and>
    (prefix r (c @ CHR ''/'' # t) \<longleftrightarrow> prefix r c)"
proof (induction r arbitrary: c)
  case Nil
  then show ?case by (cases c) auto
next
  case (Cons a r)
  then show ?case by (cases c) auto
qed

lemma join_cons: "str_join ''/'' (x # xs) = (if xs = [] then x else x @ CHR ''/'' # str_join ''/'' xs)"
  by (cases xs) auto

lemma prefix_join:
  assumes "names_ok root" and "names_ok p" and "root \<noteq> []"
  shows "prefix (str_join ''/'' root) (str_join ''/'' p) \<longleftrightarrow> (\<exists>x ys. p = butlast root @ (last root @ x) # ys)"
  using assms
proof (induction root arbitrary: p)
  case Nil
  then show ?case by simp
next
  case (Cons r rs)
  have r: "r \<noteq> []" "CHR ''/'' \<notin> set r" "names_ok rs" using Cons.prems by (simp_all add: names_ok_def)
  show ?case
  proof (cases p)
    case Nil
    then show ?thesis using r(1) by (auto simp: join_cons)
  next
    case (Cons c cs)
    have c: "CHR ''/'' \<notin> set c" "names_ok cs" using Cons.prems(2) Cons by (simp_all add: names_ok_def)
    note pn = prefix_name [OF r(2) c(1)]
    show ?thesis
    proof (cases "rs = []")
      case True
      then show ?thesis using pn unfolding Cons join_cons by (auto simp: prefix_def)
    next
      case False
      then show ?thesis using Cons.IH [OF r(3) c(2) False] pn r unfolding Cons join_cons by auto
    qed
  qed
qed

lemma allowed_shape:
  "names_ok root \<Longrightarrow> names_ok p \<Longrightarrow> root \<noteq> [] \<Longrightarrow> allowed root p \<longleftrightarrow> (\<exists>x ys. p = butlast root @ (last root @ x) # ys)"
  using prefix_join [of root p] by (simp add: allowed_def location_str_def path_str_def)

text \<open>
  What \<open>_resolve\<close> accepts are the locations in the root directory and, as it compares texts, those in or below a sibling whose name
  begins with the name of the root directory.
\<close>

lemma allowed_iff:
  assumes "names_ok root" and "names_ok p"
  shows "allowed root p \<longleftrightarrow> prefix root p \<or> root \<noteq> [] \<and> (\<exists>x ys. p = butlast root @ (last root @ x) # ys)"
proof (cases "root = []")
  case True
  then show ?thesis by (simp add: allowed_def location_str_def path_str_def)
next
  case False
  note allowed_shape [OF assms False]
  moreover have "\<exists>x ys. p = butlast root @ (last root @ x) # ys" if "prefix root p"
  proof -
    from that obtain ys where "p = root @ ys" by (auto simp: prefix_def)
    then have "p = butlast root @ (last root @ []) # ys" using False by simp
    then show ?thesis by blast
  qed
  ultimately show ?thesis using False by blast
qed

lemma names_ok_prefix: "names_ok p \<Longrightarrow> prefix q p \<Longrightarrow> names_ok q"
  by (auto simp: names_ok_def prefix_def)

lemma names_ok_butlast: "names_ok p \<Longrightarrow> names_ok (butlast p)"
  by (auto simp: names_ok_def dest: in_set_butlastD)

lemma names_ok_last: "names_ok p \<Longrightarrow> p \<noteq> [] \<Longrightarrow> names_ok [last p]"
  by (simp add: names_ok_def)

text \<open>Allowed locations: all below an allowed one, and of the ancestors of an allowed one only those of the root are not.\<close>

lemma allowed_append: "allowed root p \<Longrightarrow> allowed root (p @ q)"
proof -
  have "prefix (location_str p) (location_str (p @ q))"
  proof (cases "p = []")
    case True
    then show ?thesis by (simp add: location_str_def path_str_def)
  next
    case False
    have "prefix (str_join ''/'' p) (str_join ''/'' (p @ q))"
      by (induction p) (auto simp: join_cons)
    then show ?thesis by (simp add: location_str_def path_str_def)
  qed
  then show "allowed root p \<Longrightarrow> allowed root (p @ q)" unfolding allowed_def by (rule prefix_order.order_trans [rotated])
qed

lemma allowed_below: "allowed root p \<Longrightarrow> prefix p q \<Longrightarrow> allowed root q"
  by (auto simp: prefix_def allowed_append)

lemma ancestor_not_allowed:
  assumes "names_ok root" and "names_ok p" and "allowed root p" and "prefix q p" and "\<not> allowed root q"
  shows "prefix q (butlast root)"
proof (cases "root = []")
  case True
  then show ?thesis using assms(5) by (simp add: allowed_def location_str_def path_str_def)
next
  case False
  have q: "names_ok q" using assms(2,4) by (rule names_ok_prefix)
  obtain x ys where p: "p = butlast root @ (last root @ x) # ys"
    using assms(3) unfolding allowed_shape [OF assms(1,2) False] by blast
  obtain zs where zs: "p = q @ zs" using assms(4) by (auto simp: prefix_def)
  show ?thesis
  proof (rule ccontr)
    assume "\<not> prefix q (butlast root)"
    moreover have "prefix q p" "prefix (butlast root) p" using assms(4) p by (auto simp: prefix_def)
    ultimately have "strict_prefix (butlast root) q" by (metis prefix_same_cases prefix_order.less_le)
    then obtain y us where "q = butlast root @ y # us" by (auto elim: strict_prefixE')
    moreover then have "y = last root @ x" using zs p by simp
    ultimately have "allowed root q" using False unfolding allowed_iff [OF assms(1) q] by blast
    then show False using assms(5) by contradiction
  qed
qed

lemma resolve_dots_set: "set (resolve_dots acc xs) \<subseteq> set acc \<union> {x \<in> set xs. x \<noteq> ''..''}"
proof (induction acc xs rule: resolve_dots.induct)
  case (2 acc x xs)
  then show ?case using in_set_butlastD [of _ acc] by (cases "x = ''..''") (auto split: if_splits)
qed simp

lemma parts_of_join: "names_ok root \<Longrightarrow> names_ok (pp_parts (path_join \<lparr>pp_root = ''/'', pp_parts = root\<rparr> rel))"
  using path_of_ok [of rel] by (auto simp: names_ok_def path_join_def pure_path_ok_def)

lemma resolve_allowed:
  assumes "names_ok (fp_root P)" and "provider_resolve P rel = Inr p"
  shows "allowed (fp_root P) p \<and> names_ok p"
proof -
  let ?ps = "pp_parts (path_join \<lparr>pp_root = ''/'', pp_parts = fp_root P\<rparr> rel)"
  have p: "p = resolve_dots [] ?ps" "allowed (fp_root P) p"
    using assms(2) by (auto simp: provider_resolve_def Let_def allowed_def split: if_splits)
  have "set p \<subseteq> set ?ps" using resolve_dots_set [of "[]" ?ps] p(1) by auto
  then show ?thesis using parts_of_join [OF assms(1), of rel] p(2) by (auto simp: names_ok_def)
qed

section \<open>Well-formed file systems\<close>

definition fs_ok :: "fs \<Rightarrow> bool" where
  "fs_ok fs = (dict_wf fs \<and> is_dir fs [] \<and> (\<forall>q x. dict_get fs (q @ [x]) \<noteq> None \<longrightarrow> is_dir fs q))"

lemma fs_ok_parent: "fs_ok fs \<Longrightarrow> dict_get fs (q @ [x]) \<noteq> None \<Longrightarrow> is_dir fs q"
  unfolding fs_ok_def by blast

lemma fs_okI: "dict_wf fs \<Longrightarrow> is_dir fs [] \<Longrightarrow> (\<And>q x. dict_get fs (q @ [x]) \<noteq> None \<Longrightarrow> is_dir fs q) \<Longrightarrow> fs_ok fs"
  unfolding fs_ok_def by blast

lemma fs_ok_wf: "fs_ok fs \<Longrightarrow> dict_wf fs" and fs_ok_root: "fs_ok fs \<Longrightarrow> is_dir fs []"
  by (simp_all add: fs_ok_def)

lemma fs_ok_prefix:
  assumes "fs_ok fs"
  shows "dict_get fs (q @ r) \<noteq> None \<Longrightarrow> r \<noteq> [] \<Longrightarrow> is_dir fs q"
proof (induction r rule: rev_induct)
  case (snoc x r)
  have dir: "is_dir fs (q @ r)" using assms snoc.prems(1) unfolding fs_ok_def append_assoc [symmetric] by blast
  show ?case
  proof (cases "r = []")
    case False
    moreover have "dict_get fs (q @ r) \<noteq> None" using dir by (simp add: is_dir_def)
    ultimately show ?thesis using snoc.IH by blast
  qed (use dir in simp)
qed simp

lemma add_dir_get: "dict_get (add_dir p fs) q = (if q = p \<and> dict_get fs p = None then Some DirNode else dict_get fs q)"
  by (simp add: add_dir_def dict_has_def)

lemma fold_add_dir:
  "dict_get (fold add_dir ps fs) q = (if q \<in> set ps \<and> dict_get fs q = None then Some DirNode else dict_get fs q)"
  by (induction ps arbitrary: fs) (auto simp: add_dir_get)

lemma fold_add_dir_wf: "dict_wf fs \<Longrightarrow> dict_wf (fold add_dir ps fs)"
  by (induction ps arbitrary: fs) (auto simp: add_dir_def)

lemma make_dirs_cases:
  "make_dirs p fs =
    (if \<exists>q. prefix q (butlast p) \<and> is_file fs q then (Inl (Exn NotADirectoryError (path_str \<lparr>pp_root = ''/'', pp_parts = p\<rparr>)), fs)
     else if is_file fs p then (Inl (Exn FileExistsError (path_str \<lparr>pp_root = ''/'', pp_parts = p\<rparr>)), fs)
     else (Inr (), fold add_dir (prefixes p) fs))"
  by (auto simp: make_dirs_def os_raise_def py_bind_split set_prefixes_eq)

lemma not_file_dir: "\<not> is_file fs q \<Longrightarrow> dict_get fs q \<noteq> None \<Longrightarrow> is_dir fs q"
  by (auto simp: is_file_def is_dir_def split: option.splits fnode.splits)

lemma prefix_butlast: "prefix q p \<longleftrightarrow> q = p \<or> prefix q (butlast p)"
  by (cases p rule: rev_cases) auto

lemma make_dirs_spec:
  assumes "fs_ok fs" and "make_dirs p fs = (Inr u, fs')"
  shows "fs_ok fs' \<and> (\<forall>q. prefix q p \<longrightarrow> is_dir fs' q) \<and> (\<forall>q. \<not> prefix q p \<longrightarrow> dict_get fs' q = dict_get fs q) \<and>
    (\<forall>q. dict_get fs q \<noteq> None \<longrightarrow> dict_get fs' q = dict_get fs q)"
proof -
  have fs': "fs' = fold add_dir (prefixes p) fs" and "\<not> is_file fs p" "\<nexists>q. prefix q (butlast p) \<and> is_file fs q"
    using assms(2) by (auto simp: make_dirs_cases split: if_splits)
  then have nofile: "\<not> is_file fs q" if "prefix q p" for q using that prefix_butlast [of q p] by blast
  have get: "dict_get fs' q = (if prefix q p \<and> dict_get fs q = None then Some DirNode else dict_get fs q)" for q
    by (simp add: fs' fold_add_dir)
  then have dirs: "is_dir fs' q" if "prefix q p" for q using that nofile [OF that] not_file_dir [of fs q] by (auto simp: is_dir_def)
  have "is_dir fs' q" if "dict_get fs' (q @ [x]) \<noteq> None" for q x
  proof (cases "prefix (q @ [x]) p")
    case True
    then have "prefix q p" by (auto simp: prefix_def)
    then show ?thesis by (rule dirs)
  next
    case False
    then have "is_dir fs q" using that fs_ok_parent [OF assms(1), of q x] by (simp add: get)
    then show ?thesis by (simp add: is_dir_def get)
  qed
  moreover have "dict_wf fs'" using assms(1) by (simp add: fs' fs_ok_def fold_add_dir_wf)
  ultimately have "fs_ok fs'" using dirs [of "[]"] by (intro fs_okI) auto
  then show ?thesis using dirs get by auto
qed

lemma make_dirs_raises: "make_dirs p fs = (Inl e, fs') \<Longrightarrow> fs' = fs"
  by (auto simp: make_dirs_cases split: if_splits)

section \<open>Operations that stay in the allowed part\<close>

definition state_ok :: "location \<Rightarrow> fs \<Rightarrow> bool" where
  "state_ok root fs = (fs_ok fs \<and> is_dir fs (butlast root))"

definition unchanged_outside :: "location \<Rightarrow> fs \<Rightarrow> fs \<Rightarrow> bool" where
  "unchanged_outside root fs fs' = (\<forall>q. \<not> allowed root q \<longrightarrow> dict_get fs' q = dict_get fs q)"

definition safe :: "location \<Rightarrow> (fs, 'a) py \<Rightarrow> fs \<Rightarrow> bool" where
  "safe root m fs = (state_ok root fs \<longrightarrow> state_ok root (snd (m fs)) \<and> unchanged_outside root fs (snd (m fs)))"

lemma unchanged_refl [simp]: "unchanged_outside root fs fs"
  by (simp add: unchanged_outside_def)

lemma butlast_not_allowed: "names_ok root \<Longrightarrow> root \<noteq> [] \<Longrightarrow> \<not> allowed root (butlast root)"
  using allowed_shape [of root "butlast root"] names_ok_butlast [of root] by (auto dest: arg_cong [where f = length])

lemma safeI:
  assumes "names_ok root" and "state_ok root fs \<Longrightarrow> fs_ok (snd (m fs)) \<and> unchanged_outside root fs (snd (m fs))"
  shows "safe root m fs"
proof -
  have "is_dir (snd (m fs)) (butlast root)" if "state_ok root fs"
  proof (cases "root = []")
    case True
    then show ?thesis using assms(2) [OF that] by (simp add: fs_ok_def)
  next
    case False
    then have "dict_get (snd (m fs)) (butlast root) = dict_get fs (butlast root)"
      using assms(2) [OF that] butlast_not_allowed [OF assms(1)] by (simp add: unchanged_outside_def)
    then show ?thesis using that by (simp add: state_ok_def is_dir_def)
  qed
  then show ?thesis using assms(2) by (simp add: safe_def state_ok_def)
qed

lemma safe_same: "snd (m fs) = fs \<Longrightarrow> safe root m fs"
  by (simp add: safe_def)

lemma safe_bind:
  assumes "safe root m fs" and "\<And>a fs'. m fs = (Inr a, fs') \<Longrightarrow> state_ok root fs \<Longrightarrow> state_ok root fs' \<Longrightarrow> safe root (f a) fs'"
  shows "safe root (py_bind m f) fs"
proof (cases "m fs")
  case (Pair r fs')
  show ?thesis
  proof (cases r)
    case (Inl e)
    then show ?thesis using assms(1) Pair by (simp add: safe_def py_bind_split)
  next
    case (Inr a)
    then have "safe root (f a) fs'" if "state_ok root fs" using assms that Pair by (simp add: safe_def)
    then show ?thesis using assms(1) Inr Pair by (auto simp: safe_def py_bind_split unchanged_outside_def)
  qed
qed

lemma safe_lift: "safe root (py_lift r) fs" and safe_read: "safe root (py_read f) fs" and safe_return: "safe root (py_return a) fs"
  by (simp_all add: safe_def)

lemma safe_make_dirs:
  assumes "names_ok root" and "allowed root p" and "names_ok p" and "prefix q p"
  shows "safe root (make_dirs q) fs"
proof (rule safeI [OF assms(1)])
  assume ok: "state_ok root fs"
  show "fs_ok (snd (make_dirs q fs)) \<and> unchanged_outside root fs (snd (make_dirs q fs))"
  proof (cases "make_dirs q fs")
    case (Pair r fs')
    show ?thesis
    proof (cases r)
      case (Inl e)
      then show ?thesis using make_dirs_raises [of q fs e fs'] Pair ok by (simp add: state_ok_def)
    next
      case (Inr u)
      note spec = make_dirs_spec [of fs q u fs', OF _ Pair [unfolded Inr]]
      have "dict_get fs' x = dict_get fs x" if "\<not> allowed root x" for x
      proof (cases "prefix x q")
        case True
        then have "prefix x p" using assms(4) by (rule prefix_order.order_trans)
        then have "prefix x (butlast root)" using ancestor_not_allowed [OF assms(1,3,2)] that by blast
        then obtain r where "butlast root = x @ r" by (auto simp: prefix_def)
        then have "is_dir fs x" using ok fs_ok_prefix [of fs x r] by (cases "r = []") (auto simp: state_ok_def is_dir_def)
        then show ?thesis using spec ok by (simp add: state_ok_def is_dir_def)
      next
        case False
        then show ?thesis using spec ok by (simp add: state_ok_def)
      qed
      then show ?thesis using Pair spec ok by (simp add: state_ok_def unchanged_outside_def)
    qed
  qed
qed

text \<open>Putting a file at an allowed location, once the directories above are there.\<close>

lemma safe_write_file:
  assumes "names_ok root" and "allowed root p" and "is_dir fs (butlast p)"
  shows "safe root (write_file p data) fs"
proof (rule safeI [OF assms(1)])
  assume "state_ok root fs"
  then have ok: "fs_ok fs" by (simp add: state_ok_def)
  show "fs_ok (snd (write_file p data fs)) \<and> unchanged_outside root fs (snd (write_file p data fs))"
  proof (cases "is_dir fs p")
    case True
    then show ?thesis using ok by (simp add: write_file_def os_raise_def py_bind_split)
  next
    case False
    then have p: "p \<noteq> []" using ok by (auto simp: fs_ok_def)
    have "is_dir (dict_set p (FileNode data) fs) q" if "dict_get (dict_set p (FileNode data) fs) (q @ [x]) \<noteq> None" for q x
    proof -
      have "is_dir fs q" using that assms(3) fs_ok_parent [OF ok, of q x] by (cases "q @ [x] = p") auto
      then show ?thesis using False by (auto simp: is_dir_def)
    qed
    then have "fs_ok (dict_set p (FileNode data) fs)" using fs_ok_wf [OF ok] fs_ok_root [OF ok] p by (intro fs_okI) (auto simp: is_dir_def)
    moreover have "unchanged_outside root fs (dict_set p (FileNode data) fs)" using assms(2) by (auto simp: unchanged_outside_def)
    ultimately show ?thesis using False by (simp add: write_file_def py_bind_split)
  qed
qed

lemma made_dir: "state_ok root fs \<Longrightarrow> make_dirs q fs = (Inr a, fs') \<Longrightarrow> is_dir fs' q"
  using make_dirs_spec [of fs q a fs'] by (simp add: state_ok_def)

lemma write_file_keeps_dir: "write_file p data fs = (r, fs') \<Longrightarrow> is_dir fs q \<Longrightarrow> is_dir fs' q"
  by (auto simp: write_file_def os_raise_def py_bind_split is_dir_def split: if_splits)

lemma filter_get: "dict_wf fs \<Longrightarrow> dict_get (filter (\<lambda>(q, _). P q) fs) q = (if P q then dict_get fs q else None)"
  by (induction fs) (auto simp: dict_wf_def map_of_eq_None_iff)

lemma filter_wf: "dict_wf fs \<Longrightarrow> dict_wf (filter P fs)"
  by (simp add: dict_wf_def distinct_map_filter)

lemma snd_remove_tree: "snd (remove_tree p fs) = filter (\<lambda>(q, _). \<not> prefix p q \<or> q = []) fs"
  by (cases "p = []") (simp_all add: remove_tree_def os_raise_def py_bind_split)

lemma safe_remove_tree:
  assumes "names_ok root" and "allowed root p"
  shows "safe root (remove_tree p) fs"
proof (rule safeI [OF assms(1)])
  assume "state_ok root fs"
  then have ok: "fs_ok fs" by (simp add: state_ok_def)
  define fs2 where "fs2 = filter (\<lambda>(q, _). \<not> prefix p q \<or> q = []) fs"
  have get: "dict_get fs2 q = (if \<not> prefix p q \<or> q = [] then dict_get fs q else None)" for q
    unfolding fs2_def by (rule filter_get [OF fs_ok_wf [OF ok]])
  have wf: "dict_wf fs2" unfolding fs2_def by (rule filter_wf [OF fs_ok_wf [OF ok]])
  have "is_dir fs2 q" if "dict_get fs2 (q @ [x]) \<noteq> None" for q x
  proof -
    have some: "dict_get fs (q @ [x]) \<noteq> None" "\<not> prefix p (q @ [x])" using that unfolding get by (auto split: if_splits)
    then have "is_dir fs q" "\<not> prefix p q" using fs_ok_parent [OF ok] by auto
    then show ?thesis by (simp add: is_dir_def get)
  qed
  then have "fs_ok fs2" using wf fs_ok_root [OF ok] by (intro fs_okI) (auto simp: is_dir_def get)
  moreover have "unchanged_outside root fs fs2" using assms(2) allowed_below by (auto simp: unchanged_outside_def get)
  ultimately show "fs_ok (snd (remove_tree p fs)) \<and> unchanged_outside root fs (snd (remove_tree p fs))"
    unfolding snd_remove_tree fs2_def by blast
qed

lemma safe_remove_file:
  assumes "names_ok root" and "allowed root p" and "\<not> is_dir fs p"
  shows "safe root (py_modify (dict_pop p)) fs"
proof (rule safeI [OF assms(1)])
  assume "state_ok root fs"
  then have ok: "fs_ok fs" by (simp add: state_ok_def)
  then have p: "p \<noteq> []" using assms(3) by (auto simp: fs_ok_def)
  have "is_dir (dict_pop p fs) q" if "dict_get (dict_pop p fs) (q @ [x]) \<noteq> None" for q x
  proof -
    have "is_dir fs q" using that fs_ok_parent [OF ok, of q x] by (auto split: if_splits)
    then show ?thesis using assms(3) by (auto simp: is_dir_def)
  qed
  then have "fs_ok (dict_pop p fs)" using fs_ok_wf [OF ok] fs_ok_root [OF ok] p by (intro fs_okI) (auto simp: is_dir_def)
  then show "fs_ok (snd (py_modify (dict_pop p) fs)) \<and> unchanged_outside root fs (snd (py_modify (dict_pop p) fs))"
    using assms(2) by (auto simp: unchanged_outside_def)
qed

text \<open>Copying and moving.\<close>

lemma map_get_append:
  "dict_get (map (\<lambda>(q, n). (dst @ drop (length src) q, n)) (filter (\<lambda>(q, _). strict_prefix src q) fs)) q =
    (if prefix dst q \<and> strict_prefix src (src @ drop (length dst) q) then dict_get fs (src @ drop (length dst) q) else None)"
proof (induction fs)
  case Nil
  then show ?case by simp
next
  case (Cons e fs)
  obtain p n where e: "e = (p, n)" by fastforce
  show ?case
  proof (cases "strict_prefix src p")
    case True
    then obtain r where r: "p = src @ r" "r \<noteq> []" by (auto simp: strict_prefix_def prefix_def)
    show ?thesis
    proof (cases "prefix dst q")
      case True
      then obtain s where "q = dst @ s" by (auto simp: prefix_def)
      then show ?thesis using Cons.IH r by (auto simp: e)
    next
      case False
      then show ?thesis using Cons.IH r by (auto simp: e prefix_def)
    qed
  next
    case False
    then show ?thesis using Cons.IH by (auto simp: e)
  qed
qed

lemma copied_get:
  "dict_get (copied_entries src dst fs) (dst @ r) = (if r = [] then None else dict_get fs (src @ r))"
  "\<not> prefix dst q \<Longrightarrow> dict_get (copied_entries src dst fs) q = None"
  unfolding copied_entries_def map_get_append by (auto simp: strict_prefix_def)

lemma map_moved_wf:
  assumes "dict_wf fs" and "inj_on f (set (dict_keys fs))"
  shows "dict_wf (map (\<lambda>(q, n). (f q, n)) fs)"
proof -
  have "dict_keys (map (\<lambda>(q, n). (f q, n)) fs) = map f (dict_keys fs)" by (induction fs) auto
  then show ?thesis using assms unfolding dict_wf_def by (simp only: distinct_map)
qed

lemma rev_get:
  assumes "dict_wf d"
  shows "dict_get (rev d) k = dict_get d k"
proof -
  have "dict_wf (rev d)" using assms by (simp add: dict_wf_def rev_map [symmetric])
  then show ?thesis using dict_get_mem [OF assms] dict_get_mem [of "rev d"] by (metis option.exhaust set_rev)
qed

lemma copied_wf:
  assumes "dict_wf fs"
  shows "dict_wf (copied_entries src dst fs)"
  unfolding copied_entries_def
proof (rule map_moved_wf [OF filter_wf [OF assms]])
  have "q = q'" if "strict_prefix src q" "strict_prefix src q'" "dst @ drop (length src) q = dst @ drop (length src) q'" for q q'
    using that by (auto simp: strict_prefix_def prefix_def)
  then show "inj_on (\<lambda>q. dst @ drop (length src) q) (set (dict_keys (filter (\<lambda>(q, _). strict_prefix src q) fs)))"
    by (intro inj_onI) auto
qed

lemma safe_copy_tree:
  assumes "names_ok root" and "allowed root dst" and "names_ok dst" and "is_dir fs src"
  shows "safe root (copy_tree src dst) fs"
proof (rule safeI [OF assms(1)])
  assume st: "state_ok root fs"
  then have ok: "fs_ok fs" by (simp add: state_ok_def)
  show "fs_ok (snd (copy_tree src dst fs)) \<and> unchanged_outside root fs (snd (copy_tree src dst fs))"
  proof (cases "dict_has fs dst \<or> strict_prefix src dst \<and> is_dir fs (take (Suc (length src)) dst) \<or> isl (fst (make_dirs dst fs))")
    case True
    then have "snd (copy_tree src dst fs) = fs"
      by (cases "make_dirs dst fs") (auto simp: copy_tree_def os_raise_def py_bind_split isl_def dest: make_dirs_raises)
    then show ?thesis using ok by simp
  next
    case False
    then obtain u now where now: "make_dirs dst fs = (Inr u, now)" and free: "dict_get fs dst = None"
      by (cases "make_dirs dst fs"; cases "fst (make_dirs dst fs)") (auto simp: dict_has_def)
    define fs2 where "fs2 = dict_update now (copied_entries src dst fs)"
    have res: "snd (copy_tree src dst fs) = fs2" using False now by (auto simp: copy_tree_def py_bind_split fs2_def)
    note spec = make_dirs_spec [OF ok now]
    then have okn: "fs_ok now" by blast
    have below: "dict_get now (dst @ r) = None" if "r \<noteq> []" for r
    proof -
      have "dict_get fs (dst @ r) = None" using fs_ok_prefix [OF ok _ that, of dst] free by (cases "dict_get fs (dst @ r)") (auto simp: is_dir_def)
      moreover have "\<not> prefix (dst @ r) dst" using that by (auto simp: prefix_def)
      ultimately show ?thesis using spec by simp
    qed
    have get: "dict_get fs2 q = (case dict_get (copied_entries src dst fs) q of Some n \<Rightarrow> Some n | None \<Rightarrow> dict_get now q)" for q
      by (simp add: fs2_def dict_get_update rev_get [OF copied_wf [OF fs_ok_wf [OF ok]]])
    have under: "dict_get fs2 (dst @ r) = (if r = [] then dict_get now dst else dict_get fs (src @ r))" for r
      using below [of r] by (simp add: get copied_get(1) split: option.split)
    have other: "dict_get fs2 q = dict_get now q" if "\<not> prefix dst q" for q
      by (simp add: get copied_get(2) [OF that])
    have "is_dir fs2 q" if some: "dict_get fs2 (q @ [x]) \<noteq> None" for q x
    proof (cases "prefix dst q")
      case True
      then obtain r where r: "q = dst @ r" by (auto simp: prefix_def)
      then have "dict_get fs (src @ (r @ [x])) \<noteq> None" using some under [of "r @ [x]"] by simp
      then have "is_dir fs (src @ r)" using fs_ok_parent [OF ok, of "src @ r" x] by simp
      then show ?thesis using under [of r] spec by (auto simp: r is_dir_def)
    next
      case False
      have "is_dir now q"
      proof (cases "prefix dst (q @ [x])")
        case True
        then have "q @ [x] = dst" using False by (auto simp: prefix_def) (metis append_butlast_last_id butlast_append butlast_snoc)
        then show ?thesis using spec by (metis prefixI)
      next
        case False
        then show ?thesis using other [OF False] some fs_ok_parent [OF okn, of q x] by simp
      qed
      then show ?thesis using other [OF False] by (simp add: is_dir_def)
    qed
    moreover have "dict_wf fs2" using fs_ok_wf [OF okn] by (simp add: fs2_def)
    moreover have "is_dir fs2 []"
      using under [of "[]"] other [of "[]"] spec fs_ok_root [OF okn] by (cases "dst = []") (auto simp: is_dir_def)
    ultimately have "fs_ok fs2" by (intro fs_okI)
    moreover have "dict_get fs2 q = dict_get fs q" if "\<not> allowed root q" for q
    proof -
      have "\<not> prefix dst q" using that assms(2) allowed_below by blast
      moreover have "dict_get now q = dict_get fs q"
        using safe_make_dirs [OF assms(1-3), of dst fs] st that now by (simp add: safe_def unchanged_outside_def)
      ultimately show ?thesis using other by simp
    qed
    ultimately show ?thesis unfolding res by (simp add: unchanged_outside_def)
  qed
qed

lemma moved_get:
  assumes "dict_wf fs" and "src \<noteq> dst" and "\<not> prefix src dst" and "\<And>r. r \<noteq> [] \<Longrightarrow> dict_get fs (dst @ r) = None"
  shows "dict_wf (rename src dst fs) \<and>
    dict_get (rename src dst fs) q =
      (if prefix dst q then dict_get fs (src @ drop (length dst) q) else if prefix src q then None else dict_get fs q)"
proof -
  define es where "es = filter (\<lambda>(q, _). q \<noteq> dst) fs"
  have keys: "p \<noteq> dst \<and> \<not> prefix dst p" if "p \<in> set (dict_keys es)" for p
  proof -
    from that obtain n where n: "(p, n) \<in> set fs" "p \<noteq> dst" by (auto simp: es_def)
    then have "dict_get fs p \<noteq> None" using dict_get_mem [OF assms(1), of p n] by simp
    then show ?thesis using n(2) assms(4) by (metis append_Nil2 prefix_def)
  qed
  have inj: "moved src dst p = moved src dst p' \<Longrightarrow> p = p'" if "p \<in> set (dict_keys es)" "p' \<in> set (dict_keys es)" for p p'
    using keys [OF that(1)] keys [OF that(2)] by (auto simp: moved_def prefix_def split: if_splits)
  have wf: "dict_wf es" unfolding es_def by (rule filter_wf [OF assms(1)])
  have ren: "rename src dst fs = map (\<lambda>(q, n). (moved src dst q, n)) es" using assms(2) by (simp add: rename_def es_def)
  have wf2: "dict_wf (rename src dst fs)" unfolding ren by (rule map_moved_wf [OF wf], rule inj_onI, rule inj)
  have mem: "(p, n) \<in> set es \<longleftrightarrow> p \<noteq> dst \<and> dict_get fs p = Some n" for p n
    using dict_get_mem [OF assms(1), of p n] by (auto simp: es_def)
  have iff: "dict_get (rename src dst fs) q = Some n \<longleftrightarrow> (\<exists>p. moved src dst p = q \<and> p \<noteq> dst \<and> dict_get fs p = Some n)" for n
  proof -
    have "(q, n) \<in> set (rename src dst fs) \<longleftrightarrow> (\<exists>p. moved src dst p = q \<and> (p, n) \<in> set es)" unfolding ren by auto
    then show ?thesis unfolding mem dict_get_mem [OF wf2] .
  qed
  have "dict_get (rename src dst fs) q = Some n \<longleftrightarrow>
      (if prefix dst q then dict_get fs (src @ drop (length dst) q) else if prefix src q then None else dict_get fs q) = Some n" for n
  proof (cases "prefix dst q")
    case True
    then obtain r where r: "q = dst @ r" by (auto simp: prefix_def)
    have "moved src dst p = dst @ r \<and> p \<noteq> dst \<and> dict_get fs p = Some n \<longleftrightarrow> p = src @ r \<and> dict_get fs p = Some n" for p
    proof
      assume p: "moved src dst p = dst @ r \<and> p \<noteq> dst \<and> dict_get fs p = Some n"
      show "p = src @ r \<and> dict_get fs p = Some n"
      proof (cases "prefix src p")
        case True
        then show ?thesis using p by (auto simp: moved_def prefix_def)
      next
        case False
        then have "p = dst @ r" using p by (simp add: moved_def)
        then show ?thesis using p assms(4) [of r] by (cases "r = []") auto
      qed
    next
      assume p: "p = src @ r \<and> dict_get fs p = Some n"
      then have "p \<noteq> dst" using assms(3) by (auto simp: prefix_def)
      then show "moved src dst p = dst @ r \<and> p \<noteq> dst \<and> dict_get fs p = Some n" using p by (auto simp: moved_def)
    qed
    then show ?thesis using iff [of n] unfolding r by simp
  next
    case False
    have "moved src dst p = q \<longleftrightarrow> \<not> prefix src p \<and> p = q" for p using False by (auto simp: moved_def)
    then show ?thesis unfolding iff using False by (auto split: if_splits)
  qed
  then show ?thesis using wf2 by (metis option.exhaust)
qed

lemma safe_rename:
  assumes "names_ok root" and "allowed root src" and "allowed root dst" and "\<not> prefix src dst" and "\<not> is_dir fs dst"
    and "is_dir fs (butlast dst)"
  shows "safe root (py_modify (rename src dst)) fs"
proof (rule safeI [OF assms(1)])
  assume "state_ok root fs"
  then have ok: "fs_ok fs" by (simp add: state_ok_def)
  have free: "dict_get fs (dst @ r) = None" if "r \<noteq> []" for r
    using fs_ok_prefix [OF ok _ that, of dst] assms(5) by (cases "dict_get fs (dst @ r)") auto
  have "src \<noteq> dst" using assms(4) by auto
  note mv = moved_get [OF fs_ok_wf [OF ok] this assms(4) free]
  let ?fs = "rename src dst fs"
  have dst: "dst \<noteq> []" using assms(5) fs_ok_root [OF ok] by auto
  have "is_dir ?fs q" if some: "dict_get ?fs (q @ [x]) \<noteq> None" for q x
  proof (cases "prefix dst (q @ [x])")
    case True
    show ?thesis
    proof (cases "prefix dst q")
      case True
      then obtain r where r: "q = dst @ r" by (auto simp: prefix_def)
      then have "dict_get fs ((src @ r) @ [x]) \<noteq> None" using some by (simp add: mv)
      then show ?thesis using fs_ok_parent [OF ok] r by (simp add: is_dir_def mv)
    next
      case False
      then have q: "q @ [x] = dst" using True by (auto simp: prefix_snoc)
      moreover have "\<not> prefix src q" using q assms(4) by (metis prefixI prefix_order.order_trans)
      ultimately show ?thesis using assms(6) False by (auto simp: is_dir_def mv)
    qed
  next
    case False
    then have "\<not> prefix dst q" "\<not> prefix src (q @ [x])" "dict_get fs (q @ [x]) \<noteq> None"
      using some by (auto simp: mv split: if_splits)
    then show ?thesis using fs_ok_parent [OF ok, of q x] by (auto simp: is_dir_def mv)
  qed
  moreover have "is_dir ?fs []"
  proof -
    have "src \<noteq> []" using assms(4) by auto
    then show ?thesis using fs_ok_root [OF ok] dst by (simp add: is_dir_def mv)
  qed
  ultimately have "fs_ok ?fs" using mv by (intro fs_okI) auto
  moreover have "unchanged_outside root fs ?fs"
    using allowed_below [OF assms(2)] allowed_below [OF assms(3)] by (auto simp: unchanged_outside_def mv)
  ultimately show "fs_ok (snd (py_modify (rename src dst) fs)) \<and> unchanged_outside root fs (snd (py_modify (rename src dst) fs))" by simp
qed

lemma move_entry_cases:
  "snd (move_entry src dst fs) = fs \<or>
   move_entry src dst fs = (Inr (), rename src (inside fs src dst) fs) \<and> \<not> (is_dir fs dst \<and> dict_has fs (inside fs src dst)) \<and>
   \<not> (is_dir fs src \<and> prefix src dst) \<and> \<not> (is_dir fs src \<and> is_file fs (inside fs src dst))"
  by (simp add: move_entry_def os_raise_def py_bind_split Let_def)

lemma safe_move_entry:
  assumes "names_ok root" and "allowed root src" and "allowed root dst" and "dict_get fs src \<noteq> None" and "is_dir fs (butlast dst)"
  shows "safe root (move_entry src dst) fs"
proof (cases "state_ok root fs")
  case False
  then show ?thesis by (simp add: safe_def)
next
  case True
  then have ok: "fs_ok fs" by (simp add: state_ok_def)
  define target where "target = inside fs src dst"
  consider "snd (move_entry src dst fs) = fs"
    | "move_entry src dst fs = (Inr (), rename src target fs)" "\<not> (is_dir fs dst \<and> dict_has fs target)" "\<not> (is_dir fs src \<and> prefix src dst)"
      "\<not> (is_dir fs src \<and> is_file fs target)"
    using move_entry_cases [of src dst fs] unfolding target_def [symmetric] by blast
  then show ?thesis
  proof cases
    case 1
    then show ?thesis by (rule safe_same)
  next
    case 2
    show ?thesis
    proof (cases "src = target")
      case True
      then have "snd (move_entry src dst fs) = fs" unfolding 2(1) by (simp add: rename_def)
      then show ?thesis by (rule safe_same)
    next
      case False
      have nodir: "\<not> is_dir fs target" using 2(2) by (auto simp: target_def inside_def dict_has_def is_dir_def split: if_splits)
      have dir: "is_dir fs (butlast target)" using assms(5) nodir by (auto simp: target_def inside_def split: if_splits)
      have "\<not> prefix src target"
      proof
        assume pre: "prefix src target"
        show False
        proof (cases "is_dir fs src")
          case True
          then have "\<not> prefix src dst" using 2(3) by blast
          then show False using pre \<open>src \<noteq> target\<close> by (auto simp: target_def inside_def prefix_snoc split: if_splits)
        next
          case False
          have "prefix src (butlast target)" using pre prefix_butlast [of src target] \<open>src \<noteq> target\<close> by blast
          then obtain r where "butlast target = src @ r" by (auto simp: prefix_def)
          then have "is_dir fs src" using dir fs_ok_prefix [OF ok, of src r] by (cases "r = []") (auto simp: is_dir_def)
          then show False using False by contradiction
        qed
      qed
      moreover have "allowed root target" using assms(3) allowed_append by (auto simp: target_def inside_def)
      ultimately have "safe root (py_modify (rename src target)) fs" using safe_rename [OF assms(1,2)] nodir dir by blast
      then show ?thesis unfolding safe_def 2(1) by simp
    qed
  qed
qed

end
