(* ===== verification/Storage_Manager.thy ===== *)
theory Storage_Manager
  imports Storage_Files
begin

text \<open>
  \<open>storage/manager.py\<close>: the facade all other parts use. Its operations take addresses \<open>storage://workspace/path\<close>, of which only the
  path is handed to the provider, here that of \<open>Storage_Files\<close>. The file handles of \<open>open\<close> and log output are not modelled.
\<close>

definition extract_path :: "string \<Rightarrow> exn + string" where
  "extract_path uri = and_then (parse_uri uri) (\<lambda>u. Inr (su_path u))"

definition on_path :: "string \<Rightarrow> (string \<Rightarrow> (fs, 'a) py) \<Rightarrow> (fs, 'a) py" where
  "on_path uri f = py_bind (py_lift (extract_path uri)) f"

definition storage_save :: "storage_provider \<Rightarrow> string \<Rightarrow> bytes \<Rightarrow> (fs, unit) py" where
  "storage_save P uri data = on_path uri (\<lambda>path. write_bytes P path data)"

definition storage_load :: "storage_provider \<Rightarrow> string \<Rightarrow> (fs, bytes) py" where
  "storage_load P uri = on_path uri (read_bytes P)"

definition storage_load_text :: "storage_provider \<Rightarrow> string \<Rightarrow> string \<Rightarrow> (fs, string) py" where
  "storage_load_text P uri encoding = on_path uri (\<lambda>path. read_text P path encoding)"

definition storage_save_text :: "storage_provider \<Rightarrow> string \<Rightarrow> string \<Rightarrow> string \<Rightarrow> (fs, unit) py" where
  "storage_save_text P uri s encoding = on_path uri (\<lambda>path. write_text P path s encoding)"

definition storage_delete :: "storage_provider \<Rightarrow> string \<Rightarrow> (fs, unit) py" where
  "storage_delete P uri = on_path uri (provider_delete P)"

definition storage_copy :: "storage_provider \<Rightarrow> string \<Rightarrow> string \<Rightarrow> (fs, unit) py" where
  "storage_copy P src dst = on_path src (\<lambda>src_path. on_path dst (provider_copy P src_path))"

definition storage_move :: "storage_provider \<Rightarrow> string \<Rightarrow> string \<Rightarrow> (fs, unit) py" where
  "storage_move P src dst = on_path src (\<lambda>src_path. on_path dst (provider_move P src_path))"

definition storage_checksum :: "storage_provider \<Rightarrow> string \<Rightarrow> string \<Rightarrow> (fs, string) py" where
  "storage_checksum P uri algorithm = on_path uri (\<lambda>path. provider_checksum P path algorithm)"

definition storage_exists :: "storage_provider \<Rightarrow> string \<Rightarrow> (fs, bool) py" where
  "storage_exists P uri = on_path uri (provider_exists P)"

definition storage_stat_of :: "storage_provider \<Rightarrow> int \<Rightarrow> string \<Rightarrow> (fs, storage_stat) py" where
  "storage_stat_of P now uri = on_path uri (provider_stat P now)"

definition storage_list :: "storage_provider \<Rightarrow> string \<Rightarrow> (fs, string list) py" where
  "storage_list P uri = (if uri = [] then provider_list P [] else on_path uri (provider_list P))"

definition storage_mkdir :: "storage_provider \<Rightarrow> string \<Rightarrow> (fs, unit) py" where
  "storage_mkdir P uri = on_path uri (\<lambda>path. provider_mkdir P path True)"

definition storage_walk :: "storage_provider \<Rightarrow> string \<Rightarrow> (fs, (string \<times> string list \<times> string list) list) py" where
  "storage_walk P uri = (if uri = [] then provider_walk P [] else on_path uri (provider_walk P))"

section \<open>Calls that write\<close>

datatype storage_call =
    Save string bytes | Save_Text string string string | Delete string | Copy string string | Move string string | Mkdir string

fun storage_run :: "storage_provider \<Rightarrow> storage_call \<Rightarrow> (fs, unit) py" where
  "storage_run P (Save uri data) = storage_save P uri data"
| "storage_run P (Save_Text uri s encoding) = storage_save_text P uri s encoding"
| "storage_run P (Delete uri) = storage_delete P uri"
| "storage_run P (Copy src dst) = storage_copy P src dst"
| "storage_run P (Move src dst) = storage_move P src dst"
| "storage_run P (Mkdir uri) = storage_mkdir P uri"

definition storage_step :: "storage_provider \<Rightarrow> storage_call \<Rightarrow> fs \<Rightarrow> fs" where
  "storage_step P c fs = snd (storage_run P c fs)"

lemma require_exists_found:
  "require_exists P path fs = (Inr p, fs') \<longleftrightarrow> provider_resolve P path = Inr p \<and> dict_get fs p \<noteq> None \<and> fs' = fs"
proof (cases "provider_resolve P path")
  case (Inl e)
  then show ?thesis by (simp add: require_exists_def py_bind_split)
next
  case (Inr q)
  then show ?thesis by (auto simp: require_exists_def py_bind_split dict_has_def)
qed

lemma require_exists_pure: "snd (require_exists P path fs) = fs"
proof (cases "provider_resolve P path")
  case (Inl e)
  then show ?thesis by (simp add: require_exists_def py_bind_split)
next
  case (Inr q)
  then show ?thesis by (simp add: require_exists_def py_bind_split)
qed

lemma safe_raise: "safe root (os_raise c p) fs"
  by (simp add: safe_def os_raise_def)

lemma safe_require: "safe root (require_exists P path) fs"
  by (rule safe_same) (rule require_exists_pure)

lemma safe_on_path: "(\<And>path. safe root (f path) fs) \<Longrightarrow> safe root (on_path uri f) fs"
  unfolding on_path_def by (rule safe_bind) (auto intro: safe_lift)

lemma safe_parent_dirs:
  assumes "names_ok (fp_root P)" and "provider_resolve P path = Inr p"
  shows "safe (fp_root P) (make_dirs (butlast p)) fs"
  using resolve_allowed [OF assms] safe_make_dirs [OF assms(1), of p "butlast p"] prefix_butlast [of "butlast p" p] by blast

lemma safe_write_bytes:
  assumes "names_ok (fp_root P)"
  shows "safe (fp_root P) (write_bytes P path data) fs"
  unfolding write_bytes_def
proof (rule safe_bind [OF safe_lift])
  fix p fs1 assume "py_lift (provider_resolve P path) fs = (Inr p, fs1)"
  then have p: "provider_resolve P path = Inr p" by simp
  show "safe (fp_root P) (py_bind (make_dirs (butlast p)) (\<lambda>_. write_file p data)) fs1"
    by (rule safe_bind [OF safe_parent_dirs [OF assms p]], rule safe_write_file [OF assms])
      (use resolve_allowed [OF assms p] made_dir in blast)+
qed

lemma safe_write_text:
  assumes "names_ok (fp_root P)"
  shows "safe (fp_root P) (write_text P path s encoding) fs"
  unfolding write_text_def
proof (rule safe_bind [OF safe_lift])
  fix p fs1 assume "py_lift (provider_resolve P path) fs = (Inr p, fs1)"
  then have p: "provider_resolve P path = Inr p" by simp
  note al = resolve_allowed [OF assms p, THEN conjunct1]
  show "safe (fp_root P) (py_bind (make_dirs (butlast p)) (\<lambda>_. py_bind (write_file p []) (\<lambda>_.
      py_bind (py_lift (fp_encode P encoding s)) (\<lambda>data. write_file p data)))) fs1"
  proof (rule safe_bind [OF safe_parent_dirs [OF assms p]])
    fix a fs2 assume "make_dirs (butlast p) fs1 = (Inr a, fs2)" "state_ok (fp_root P) fs1"
    then have dir: "is_dir fs2 (butlast p)" using made_dir by blast
    show "safe (fp_root P) (py_bind (write_file p []) (\<lambda>_. py_bind (py_lift (fp_encode P encoding s)) (\<lambda>data. write_file p data))) fs2"
    proof (rule safe_bind [OF safe_write_file [OF assms al dir]])
      fix b fs3 assume "write_file p [] fs2 = (Inr b, fs3)"
      then have "is_dir fs3 (butlast p)" using write_file_keeps_dir dir by blast
      then show "safe (fp_root P) (py_bind (py_lift (fp_encode P encoding s)) (\<lambda>data. write_file p data)) fs3"
        by (intro safe_bind [OF safe_lift] safe_write_file [OF assms al]) simp
    qed
  qed
qed

lemma safe_delete:
  assumes "names_ok (fp_root P)"
  shows "safe (fp_root P) (provider_delete P path) fs"
  unfolding provider_delete_def
proof (rule safe_bind [OF safe_require])
  fix p fs1 assume "require_exists P path fs = (Inr p, fs1)"
  then have "allowed (fp_root P) p" using resolve_allowed [OF assms] by (auto simp: require_exists_found)
  then show "safe (fp_root P) (py_bind (py_read (\<lambda>fs. is_dir fs p)) (\<lambda>dir. if dir then remove_tree p else py_modify (dict_pop p))) fs1"
    by (intro safe_bind [OF safe_read]) (auto intro: safe_remove_tree [OF assms] safe_remove_file [OF assms])
qed

lemma safe_mkdir:
  assumes "names_ok (fp_root P)"
  shows "safe (fp_root P) (provider_mkdir P path True) fs"
  unfolding provider_mkdir_def
proof (rule safe_bind [OF safe_lift])
  fix p fs1 assume "py_lift (provider_resolve P path) fs = (Inr p, fs1)"
  then show "safe (fp_root P) (if True then make_dirs p else make_dir p) fs1"
    using resolve_allowed [OF assms, of path p] safe_make_dirs [OF assms, of p p] by auto
qed

lemma safe_copy_file:
  assumes "names_ok root" and "allowed root dst" and "is_dir fs (butlast dst)"
  shows "safe root (copy_file src dst) fs"
proof -
  have target: "allowed root (inside fs src dst)" "is_dir fs (butlast (inside fs src dst))"
    using assms(2,3) allowed_append by (auto simp: inside_def)
  then show ?thesis
    by (auto simp: copy_file_def Let_def intro!: safe_bind [OF safe_read] safe_write_file [OF assms(1)] safe_raise
        split: option.split fnode.split)
qed

lemma safe_copy:
  assumes "names_ok (fp_root P)"
  shows "safe (fp_root P) (provider_copy P src dst) fs"
  unfolding provider_copy_def
proof (rule safe_bind [OF safe_require])
  fix p fs1
  show "safe (fp_root P) (py_bind (py_lift (provider_resolve P dst)) (\<lambda>q. py_bind (py_read (\<lambda>fs. is_dir fs p)) (\<lambda>dir.
      if dir then copy_tree p q else py_bind (make_dirs (butlast q)) (\<lambda>_. copy_file p q)))) fs1"
  proof (rule safe_bind [OF safe_lift])
    fix q fs2 assume "py_lift (provider_resolve P dst) fs1 = (Inr q, fs2)"
    then have q: "provider_resolve P dst = Inr q" by simp
    have "safe (fp_root P) (copy_tree p q) fs2" if "is_dir fs2 p" using safe_copy_tree [OF assms] resolve_allowed [OF assms q] that by blast
    moreover have "safe (fp_root P) (py_bind (make_dirs (butlast q)) (\<lambda>_. copy_file p q)) fs2"
      by (rule safe_bind [OF safe_parent_dirs [OF assms q]], rule safe_copy_file [OF assms])
        (use resolve_allowed [OF assms q] made_dir in blast)+
    ultimately show "safe (fp_root P) (py_bind (py_read (\<lambda>fs. is_dir fs p)) (\<lambda>dir.
      if dir then copy_tree p q else py_bind (make_dirs (butlast q)) (\<lambda>_. copy_file p q))) fs2"
      by (intro safe_bind [OF safe_read]) auto
  qed
qed

lemma safe_move:
  assumes "names_ok (fp_root P)"
  shows "safe (fp_root P) (provider_move P src dst) fs"
  unfolding provider_move_def
proof (rule safe_bind [OF safe_require])
  fix p fs1 assume "require_exists P src fs = (Inr p, fs1)"
  then have p: "allowed (fp_root P) p" "dict_get fs1 p \<noteq> None" using resolve_allowed [OF assms] by (auto simp: require_exists_found)
  show "safe (fp_root P) (py_bind (py_lift (provider_resolve P dst)) (\<lambda>q. py_bind (make_dirs (butlast q)) (\<lambda>_. move_entry p q))) fs1"
  proof (rule safe_bind [OF safe_lift])
    fix q fs2 assume q: "py_lift (provider_resolve P dst) fs1 = (Inr q, fs2)"
    then have qq: "provider_resolve P dst = Inr q" by simp
    have there: "dict_get fs2 p \<noteq> None" using q p(2) by simp
    show "safe (fp_root P) (py_bind (make_dirs (butlast q)) (\<lambda>_. move_entry p q)) fs2"
    proof (rule safe_bind [OF safe_parent_dirs [OF assms qq]])
      fix a fs3 assume m: "make_dirs (butlast q) fs2 = (Inr a, fs3)" "state_ok (fp_root P) fs2"
      then have "is_dir fs3 (butlast q)" "dict_get fs3 p \<noteq> None"
        using make_dirs_spec [of fs2 "butlast q" a fs3] there by (auto simp: state_ok_def)
      then show "safe (fp_root P) (move_entry p q) fs3" using safe_move_entry [OF assms p(1)] resolve_allowed [OF assms qq] by blast
    qed
  qed
qed

lemma safe_run: "names_ok (fp_root P) \<Longrightarrow> safe (fp_root P) (storage_run P c) fs"
  by (cases c) (auto simp: storage_save_def storage_save_text_def storage_delete_def storage_copy_def storage_move_def storage_mkdir_def
      intro!: safe_on_path safe_write_bytes safe_write_text safe_delete safe_copy safe_move safe_mkdir)

section \<open>What a save does\<close>

lemma write_file_made:
  assumes "names_ok (fp_root P)" and "state_ok (fp_root P) fs" and "write_bytes P path d fs = (Inr u, fs')" and "provider_resolve P path = Inr p"
  shows "dict_get fs' p = Some (FileNode d) \<and> (\<forall>q. q \<noteq> p \<longrightarrow> dict_get fs' q = dict_get fs q \<or> dict_get fs q = None \<and> is_dir fs' q)"
proof -
  obtain a fs1 where m: "make_dirs (butlast p) fs = (Inr a, fs1)" and w: "write_file p d fs1 = (Inr u, fs')"
    using assms(3) by (auto simp: write_bytes_def py_bind_eq_Inr assms(4))
  have fs': "fs' = dict_set p (FileNode d) fs1" using w by (auto simp: write_file_def os_raise_def py_bind_split split: if_splits)
  have spec: "(\<forall>q. prefix q (butlast p) \<longrightarrow> is_dir fs1 q) \<and> (\<forall>q. \<not> prefix q (butlast p) \<longrightarrow> dict_get fs1 q = dict_get fs q) \<and>
    (\<forall>q. dict_get fs q \<noteq> None \<longrightarrow> dict_get fs1 q = dict_get fs q)"
    using make_dirs_spec [OF _ m] assms(2) by (simp add: state_ok_def)
  have "dict_get fs1 q = dict_get fs q \<or> dict_get fs q = None \<and> is_dir fs1 q" for q using spec by blast
  then show ?thesis by (auto simp: fs' is_dir_def)
qed

lemma read_bytes_at:
  assumes "provider_resolve P path = Inr p"
  shows "read_bytes P path fs = (case dict_get fs p of Some (FileNode d) \<Rightarrow> (Inr d, fs) | _ \<Rightarrow> (Inl (storage_not_found path), fs))"
  by (simp add: read_bytes_def require_exists_def py_bind_split assms dict_has_def split: option.split fnode.split)

lemma on_path_parsed: "parse_uri uri = Inr u \<Longrightarrow> on_path uri f = f (su_path u)"
  by (rule ext) (simp add: on_path_def extract_path_def py_bind_split)

lemma storage_save_lemma:
  assumes "names_ok (fp_root P)" and "fs_ok fs" and "is_dir fs (butlast (fp_root P))" and "storage_save P uri d fs = (Inr r, fs')"
    and "parse_uri uri = Inr u" and "parse_uri uri2 = Inr u2"
  shows "storage_load P uri2 fs' =
    (if provider_resolve P (su_path u2) = provider_resolve P (su_path u) then (Inr d, fs') else (fst (storage_load P uri2 fs), fs'))"
proof -
  have w: "write_bytes P (su_path u) d fs = (Inr r, fs')" using assms(4) by (simp add: storage_save_def on_path_parsed [OF assms(5)])
  then obtain p where p: "provider_resolve P (su_path u) = Inr p" by (auto simp: write_bytes_def py_bind_eq_Inr)
  have "state_ok (fp_root P) fs" using assms(2,3) by (simp add: state_ok_def)
  note spec = write_file_made [OF assms(1) this w p]
  show ?thesis
  proof (cases "provider_resolve P (su_path u2)")
    case (Inl e)
    then show ?thesis using p by (simp add: storage_load_def on_path_parsed [OF assms(6)] read_bytes_def require_exists_def py_bind_split)
  next
    case (Inr q)
    note rd = read_bytes_at [OF Inr]
    show ?thesis
    proof (cases "q = p")
      case True
      then show ?thesis using spec p Inr by (simp add: storage_load_def on_path_parsed [OF assms(6)] rd)
    next
      case False
      then have "dict_get fs' q = dict_get fs q \<or> dict_get fs q = None \<and> is_dir fs' q" using spec by blast
      then show ?thesis using False p Inr
        by (auto simp: storage_load_def on_path_parsed [OF assms(6)] rd is_dir_def split: option.split fnode.split)
    qed
  qed
qed

section \<open>Properties\<close>

text \<open>C20: 
  Whatever calls are made on the storage, the file system stays well-formed, and the only locations that change are those in the root
  directory and those in or below siblings of it whose names begin with the name of the root directory.
\<close>

theorem storage_confined:
  assumes "names_ok (fp_root P)" and "fs_ok fs" and "is_dir fs (butlast (fp_root P))"
    and "names_ok q" and "dict_get (fold (storage_step P) calls fs) q \<noteq> dict_get fs q"
  shows "fs_ok (fold (storage_step P) calls fs) \<and>
    (prefix (fp_root P) q \<or> fp_root P \<noteq> [] \<and> (\<exists>x ys. q = butlast (fp_root P) @ (last (fp_root P) @ x) # ys))"
proof -
  have run: "state_ok (fp_root P) s \<Longrightarrow> state_ok (fp_root P) (fold (storage_step P) calls s) \<and>
      unchanged_outside (fp_root P) s (fold (storage_step P) calls s)" for s
  proof (induction calls arbitrary: s)
    case Nil
    then show ?case by simp
  next
    case (Cons c calls)
    have "state_ok (fp_root P) (storage_step P c s) \<and> unchanged_outside (fp_root P) s (storage_step P c s)"
      using safe_run [OF assms(1), of c s] Cons.prems by (simp add: safe_def storage_step_def)
    then show ?case using Cons.IH [of "storage_step P c s"] by (auto simp: unchanged_outside_def)
  qed
  have "state_ok (fp_root P) fs" using assms(2,3) by (simp add: state_ok_def)
  note r = run [OF this]
  have "allowed (fp_root P) q" using r assms(5) unfolding unchanged_outside_def by blast
  then show ?thesis using r unfolding allowed_iff [OF assms(1,4)] by (simp add: state_ok_def)
qed

text \<open>C24: 
  What is saved is loaded again, and loading from any other location gives what it gave before; but the workspace of an address plays no
  part in it: the same path in another workspace is the same file.
\<close>

theorem storage_save_load:
  assumes "names_ok (fp_root P)" and "fs_ok fs" and "is_dir fs (butlast (fp_root P))" and "storage_save P uri d fs = (Inr r, fs')"
    and "parse_uri uri = Inr u" and "parse_uri uri2 = Inr u2"
  shows "storage_load P uri2 fs' =
    (if provider_resolve P (su_path u2) = provider_resolve P (su_path u) then (Inr d, fs') else (fst (storage_load P uri2 fs), fs'))"
  using assms by (rule storage_save_lemma)

text \<open>
  Deleting the address of a workspace without a path deletes the root directory of the storage, with the files of all workspaces.
\<close>

theorem delete_workspace_deletes_all:
  assumes "fs_ok fs" and "is_dir fs (fp_root P)" and "fp_root P \<noteq> []" and "''..'' \<notin> set (fp_root P)" and "w \<noteq> []" and "CHR ''/'' \<notin> set w"
  shows "\<exists>fs'. storage_delete P (''storage://'' @ w) fs = (Inr (), fs') \<and> (\<forall>q. prefix (fp_root P) q \<longrightarrow> dict_get fs' q = None)"
proof -
  have "parse_uri (''storage://'' @ w) = Inr \<lparr>su_workspace = w, su_path = [], su_raw = ''storage://'' @ w\<rparr>"
    unfolding parse_uri_shape using assms(5,6) by (simp add: storage_uri_str_def)
  note on = on_path_parsed [OF this]
  have dots: "resolve_dots acc xs = acc @ xs" if "''..'' \<notin> set xs" for acc xs using that by (induction xs arbitrary: acc) auto
  have res: "provider_resolve P [] = Inr (fp_root P)"
    by (simp add: provider_resolve_def Let_def path_join_def dots [OF assms(4)])
  have "dict_has fs (fp_root P)" using assms(2) by (simp add: is_dir_def dict_has_def)
  then have "storage_delete P (''storage://'' @ w) fs = remove_tree (fp_root P) fs"
    unfolding storage_delete_def on using assms(2) by (simp add: provider_delete_def require_exists_def py_bind_split res)
  moreover have "remove_tree (fp_root P) fs = (Inr (), filter (\<lambda>(q, _). \<not> prefix (fp_root P) q \<or> q = []) fs)"
    using assms(3) by (simp add: remove_tree_def py_bind_split)
  moreover have "dict_get (filter (\<lambda>(q, _). \<not> prefix (fp_root P) q \<or> q = []) fs) q = None" if "prefix (fp_root P) q" for q
    using that assms(3) unfolding filter_get [OF fs_ok_wf [OF assms(1)]] by auto
  ultimately show ?thesis by auto
qed

section \<open>A storage in \<open>/data\<close>\<close>

definition sample_provider :: storage_provider where
  "sample_provider = \<lparr>fp_root = [''data''], fp_encode = (\<lambda>_ s. Inr (map (of_nat \<circ> of_char) s)), fp_decode = (\<lambda>_ d. Inr (map (char_of \<circ> unat) d)),
     fp_digest = (\<lambda>_. None)\<rparr>"

definition sample_fs :: fs where
  "sample_fs = [([], DirNode), ([''data''], DirNode)]"

lemma sample_fs_ok: "fs_ok sample_fs" "names_ok [''data'']"
  by (auto simp: fs_ok_def sample_fs_def dict_wf_def is_dir_def names_ok_def split: if_splits)

lemma storage_confined_witness:
  "dict_get (storage_step sample_provider (Save ''storage://w/../data2/x'' [1]) sample_fs) [''data2'', ''x''] = Some (FileNode [1]) \<and>
   fs_ok (storage_step sample_provider (Save ''storage://w/../data2/x'' [1]) sample_fs)"
proof -
  have run: "dict_get (storage_step sample_provider (Save ''storage://w/../data2/x'' [1]) sample_fs) [''data2'', ''x''] = Some (FileNode [1])"
    by code_simp
  moreover have "names_ok [''data2'', ''x'']" "dict_get sample_fs [''data2'', ''x''] = None" "is_dir sample_fs (butlast (fp_root sample_provider))"
    "fp_root sample_provider = [''data'']"
    by (auto simp: names_ok_def sample_fs_def is_dir_def sample_provider_def)
  ultimately show ?thesis
    using storage_confined [of sample_provider sample_fs "[''data2'', ''x'']" "[Save ''storage://w/../data2/x'' [1]]"] sample_fs_ok by simp
qed

lemma storage_save_load_witness:
  "\<exists>fs'. storage_save sample_provider ''storage://w/a/x'' [1] sample_fs = (Inr (), fs') \<and>
    storage_load sample_provider ''storage://v/a/x'' fs' = (Inr [1], fs')"
proof -
  have "fst (storage_save sample_provider ''storage://w/a/x'' [1] sample_fs) = Inr ()" by code_simp
  then obtain fs' where s: "storage_save sample_provider ''storage://w/a/x'' [1] sample_fs = (Inr (), fs')" by (metis prod.collapse)
  have "parse_uri ''storage://w/a/x'' = Inr \<lparr>su_workspace = ''w'', su_path = ''a/x'', su_raw = ''storage://w/a/x''\<rparr>"
    "parse_uri ''storage://v/a/x'' = Inr \<lparr>su_workspace = ''v'', su_path = ''a/x'', su_raw = ''storage://v/a/x''\<rparr>"
    by (simp_all add: parse_uri_shape storage_uri_str_def)
  from storage_save_load [OF _ _ _ s this] show ?thesis
    using s sample_fs_ok by (auto simp: sample_provider_def sample_fs_def is_dir_def)
qed

lemma delete_workspace_deletes_all_witness:
  "\<exists>fs'. storage_delete sample_provider (''storage://'' @ ''w'') sample_fs = (Inr (), fs') \<and> dict_get fs' [''data''] = None"
  using delete_workspace_deletes_all [of sample_fs sample_provider "''w''"] sample_fs_ok
  by (auto simp: sample_provider_def sample_fs_def is_dir_def)

end
