(* ===== verification/Import_Service.thy ===== *)
theory Import_Service
  imports Storage_Manager Document_Repositories
begin

text \<open>
  \<open>ingestion/import_service.py\<close>: a file is stored through the \<open>StorageManager\<close> and described by a \<open>Document\<close> in the repository of
  \<open>repositories/document_repository.py\<close>. The state is the sink of the published events, the database and the file system. The hash of
  \<open>hashlib\<close>, the identifiers and the times are parameters.
\<close>

section \<open>The service\<close>

text \<open>The table of the formats, with the table of the MIME types, which has the same keys.\<close>

definition FORMAT_MAP :: "(string, document_type) dict" where
  "FORMAT_MAP =
     [(''.pdf'', DT_OTHER), (''.docx'', DT_OTHER), (''.odt'', DT_OTHER), (''.txt'', DT_OTHER), (''.jpg'', DT_PHOTOGRAPH),
      (''.jpeg'', DT_PHOTOGRAPH), (''.png'', DT_PHOTOGRAPH), (''.tif'', DT_PHOTOGRAPH), (''.tiff'', DT_PHOTOGRAPH)]"

definition MIME_MAP :: "(string, string) dict" where
  "MIME_MAP =
     [(''.pdf'', ''application/pdf''), (''.docx'', ''application/vnd.openxmlformats-officedocument.wordprocessingml.document''),
      (''.odt'', ''application/vnd.oasis.opendocument.text''), (''.txt'', ''text/plain''), (''.jpg'', ''image/jpeg''),
      (''.jpeg'', ''image/jpeg''), (''.png'', ''image/png''), (''.tif'', ''image/tiff''), (''.tiff'', ''image/tiff'')]"

text \<open>The events, with the fields that the service fills in; the first and the last are those of \<open>ingestion/import_events.py\<close>.\<close>

record import_started =
  ims_aggregate_id :: string
  ims_workspace_id :: string
  ims_file_path :: string
  ims_file_name :: string

record import_completed =
  imc_aggregate_id :: string
  imc_workspace_id :: string
  imc_document_id :: string
  imc_file_path :: string
  imc_file_hash :: string
  imc_mime_type :: string
  imc_is_duplicate :: bool

datatype import_event =
    Started import_started
  | Document_Imported string string string string
  | Completed import_completed

record ('b, 'db) import_service =
  im_workspace_id :: string
  im_storage :: storage_provider
  im_repo :: "'db document_session"
  im_publish :: "import_event \<Rightarrow> ('b, unit) py"
  im_sha1 :: "bytes \<Rightarrow> string"

record ('b, 'db) import_world =
  im_sink :: 'b
  im_db :: 'db
  im_fs :: fs

definition import_publish :: "('b, 'db) import_service \<Rightarrow> import_event \<Rightarrow> (('b, 'db) import_world, unit) py" where
  "import_publish I e = py_on im_sink (\<lambda>b w. w\<lparr>im_sink := b\<rparr>) (im_publish I e)"

definition in_db :: "('db, 'a) py \<Rightarrow> (('b, 'db) import_world, 'a) py" where
  "in_db m = py_on im_db (\<lambda>db w. w\<lparr>im_db := db\<rparr>) m"

definition in_fs :: "(fs, 'a) py \<Rightarrow> (('b, 'db) import_world, 'a) py" where
  "in_fs m = py_on im_fs (\<lambda>fs w. w\<lparr>im_fs := fs\<rparr>) m"

definition original_uri :: "('b, 'db) import_service \<Rightarrow> string \<Rightarrow> string \<Rightarrow> string" where
  "original_uri I doc_id filename = ''storage://'' @ im_workspace_id I @ ''/originals/'' @ doc_id @ ''/'' @ filename"

text \<open>What a new document gets from its identifier and its two times.\<close>

record stamp =
  st_id :: string
  st_created :: int
  st_updated :: int

definition imported_document ::
    "('b, 'db) import_service \<Rightarrow> stamp \<Rightarrow> string \<Rightarrow> string \<Rightarrow> string \<Rightarrow> bool \<Rightarrow> exn + document" where
  "imported_document I new path file_hash title duplicate =
     (let ext = str_lower (path_suffix (path_of path)) in
      and_then (file_path_init (path_name (path_of path))) (\<lambda>file_path.
      and_then (file_hash_init file_hash) (\<lambda>hash_value.
      document_post_init
        \<lparr>dc_id = st_id new, dc_workspace_id = im_workspace_id I, dc_title = (if title = [] then path_stem (path_of path) else title),
         dc_file_path = Some file_path, dc_file_hash = Some hash_value,
         dc_mime_type = (case dict_get MIME_MAP ext of None \<Rightarrow> ''application/octet-stream'' | Some m \<Rightarrow> m),
         dc_type = (case dict_get FORMAT_MAP ext of None \<Rightarrow> DT_OTHER | Some t \<Rightarrow> t),
         dc_status = DOC_IMPORTED, dc_processing_status = PS_PENDING, dc_language = None, dc_case_ids = [], dc_tag_names = [],
         dc_version_count = 0, dc_is_duplicate = duplicate, dc_has_ocr = False, dc_has_embeddings = False,
         dc_created_at = st_created new, dc_updated_at = st_updated new\<rparr>)))"

definition import_file ::
    "('b, 'db) import_service \<Rightarrow> stamp \<Rightarrow> string \<Rightarrow> bytes \<Rightarrow> string \<Rightarrow> (('b, 'db) import_world, document) py" where
  "import_file I new path data title =
     py_bind (import_publish I (Started \<lparr>ims_aggregate_id = im_workspace_id I, ims_workspace_id = im_workspace_id I, ims_file_path = path,
       ims_file_name = path_name (path_of path)\<rparr>)) (\<lambda>_.
     let ext = str_lower (path_suffix (path_of path)) in
     if \<not> dict_has FORMAT_MAP ext then py_raise ValueError (''Unsupported file format: '' @ ext)
     else
       let file_hash = im_sha1 I data in
       py_bind (in_db (doc_find_by_hash (im_repo I) file_hash)) (\<lambda>existing.
       let duplicate = (existing \<noteq> None) in
       py_bind (py_lift (imported_document I new path file_hash title duplicate)) (\<lambda>d.
       py_bind (in_fs (storage_save (im_storage I) (original_uri I (dc_id d) (path_name (path_of path))) data)) (\<lambda>_.
       py_bind (in_db (doc_create (im_repo I) d)) (\<lambda>_.
       py_bind (import_publish I (Document_Imported (dc_id d) (im_workspace_id I) path file_hash)) (\<lambda>_.
       py_bind (import_publish I (Completed \<lparr>imc_aggregate_id = dc_id d, imc_workspace_id = im_workspace_id I, imc_document_id = dc_id d,
         imc_file_path = path, imc_file_hash = file_hash, imc_mime_type = dc_mime_type d, imc_is_duplicate = duplicate\<rparr>)) (\<lambda>_.
       py_return d)))))))"

text \<open>The files of a folder, with the stamps their documents get.\<close>

fun import_folder ::
    "('b, 'db) import_service \<Rightarrow> (nat \<Rightarrow> stamp) \<Rightarrow> string \<Rightarrow> (string, bytes) dict \<Rightarrow> (('b, 'db) import_world, document list) py" where
  "import_folder I new folder [] = py_return []"
| "import_folder I new folder ((rel, data) # files) =
     py_bind (import_file I (new 0) (folder @ ''/'' @ rel) data []) (\<lambda>d.
     py_bind (import_folder I (new \<circ> Suc) folder files) (\<lambda>ds.
     py_return (d # ds)))"

section \<open>What an import leaves behind\<close>

definition records_imports :: "(import_event list, 'db) import_service \<Rightarrow> bool" where
  "records_imports I = (\<forall>e b. im_publish I e b = (Inr (), b @ [e]))"

lemma import_publish_records: "records_imports I \<Longrightarrow> import_publish I e w = (Inr (), w\<lparr>im_sink := im_sink w @ [e]\<rparr>)"
  by (simp add: import_publish_def records_imports_def)

lemma in_db_app: "in_db m w = (fst (m (im_db w)), w\<lparr>im_db := snd (m (im_db w))\<rparr>)"
  by (simp add: in_db_def)

lemma in_fs_app: "in_fs m w = (fst (m (im_fs w)), w\<lparr>im_fs := snd (m (im_fs w))\<rparr>)"
  by (simp add: in_fs_def)

lemma imported_document_storable:
  assumes "imported_document I new path h title dup = Inr d"
  shows "document_storable storable_raw_id d \<and> dc_id d = st_id new \<and> dc_is_duplicate d = dup \<and> dc_file_hash d = Some h \<and>
    dc_workspace_id d = im_workspace_id I \<and> dc_status d = DOC_IMPORTED"
  using assms
  by (auto simp: imported_document_def Let_def document_post_init_def document_storable_def optional_ok_def and_then_def file_path_init_def
      file_hash_init_def hex40_def split: if_splits sum.splits)

lemma import_file_document:
  assumes "file_path_init (path_name (path_of path)) = Inr p" and "file_hash_init h = Inr h'" and "im_workspace_id I \<noteq> []"
  shows "\<exists>d. imported_document I new path h title dup = Inr d"
  using assms by (simp add: imported_document_def Let_def document_post_init_def)

text \<open>The documents of the database, as \<open>get_by_id\<close> shows them.\<close>

lemma documents_of:
  assumes "sql_table S dr_id (\<lambda>_ _. False) rows" and "entity_table.table_ok rows row_of_document (document_storable storable_raw_id) db"
  shows "doc_get_by_id S i db = (Inr (entity_table.entities rows document_of_row db i), db)"
    and "\<exists>x. doc_find_by_hash S h db = (Inr x, db) \<and>
      (x \<noteq> None \<longleftrightarrow> (\<exists>k old. entity_table.entities rows document_of_row db k = Some old \<and> dc_file_hash old = Some h))"
    and "document_storable storable_raw_id d \<Longrightarrow> entity_table.entities rows document_of_row db (dc_id d) = None \<Longrightarrow>
      \<exists>db'. doc_create S d db = (Inr d, db') \<and> entity_table.table_ok rows row_of_document (document_storable storable_raw_id) db' \<and>
        entity_table.entities rows document_of_row db' = (entity_table.entities rows document_of_row db)(dc_id d := Some d)"
    and "document_storable storable_raw_id d \<Longrightarrow> entity_table.entities rows document_of_row db (dc_id d) \<noteq> None \<Longrightarrow>
      \<exists>msg. doc_create S d db = (Inl (Exn IntegrityError msg), db)"
proof -
  note table = document_table [OF assms(1)]
  then have e: "entity_table S dr_id (\<lambda>_ _. False) rows row_of_document document_of_row (document_storable storable_raw_id) dc_id"
    by (rule plain_table.axioms(1))
  have crud: "repository_spec (entity_table.table_ok rows row_of_document (document_storable storable_raw_id)) (entity_table.entities rows document_of_row)
      (document_storable storable_raw_id) dc_id document_merge ''Document'' (doc_create S) (doc_update S) (doc_get_by_id S) (doc_delete S)"
    using plain_table.plain_spec [OF table, of "''Document''"]
    unfolding repository_spec_def doc_create_def doc_update_def doc_get_by_id_def doc_delete_def .
  note at = crud [unfolded repository_spec_def, THEN spec, THEN mp, OF assms(2)]
  show "doc_get_by_id S i db = (Inr (entity_table.entities rows document_of_row db i), db)" using at by blast
  show "document_storable storable_raw_id d \<Longrightarrow> entity_table.entities rows document_of_row db (dc_id d) = None \<Longrightarrow>
      \<exists>db'. doc_create S d db = (Inr d, db') \<and> entity_table.table_ok rows row_of_document (document_storable storable_raw_id) db' \<and>
        entity_table.entities rows document_of_row db' = (entity_table.entities rows document_of_row db)(dc_id d := Some d)"
    using at by (auto dest!: spec [of _ d])
  show "document_storable storable_raw_id d \<Longrightarrow> entity_table.entities rows document_of_row db (dc_id d) \<noteq> None \<Longrightarrow>
      \<exists>msg. doc_create S d db = (Inl (Exn IntegrityError msg), db)"
    using at by (auto dest!: spec [of _ d])
  from entity_table.first_entity [OF e assms(2), of "\<lambda>r. dr_file_hash r = Some h" None] obtain x where
    x: "doc_find_by_hash S h db = (Inr x, db)"
      "case x of None \<Rightarrow> \<forall>d. entity_table.entities rows document_of_row db (dc_id d) = Some d \<longrightarrow> dc_file_hash d \<noteq> Some h
       | Some d \<Rightarrow> entity_table.entities rows document_of_row db (dc_id d) = Some d \<and> dc_file_hash d = Some h"
    by (auto simp: doc_find_by_hash_def row_of_document_def split: option.splits)
  have key: "dc_id d = k" if "entity_table.entities rows document_of_row db k = Some d" for d k
    using entity_table.entity_ident [OF e assms(2) that] by blast
  show "\<exists>x. doc_find_by_hash S h db = (Inr x, db) \<and>
      (x \<noteq> None \<longleftrightarrow> (\<exists>k old. entity_table.entities rows document_of_row db k = Some old \<and> dc_file_hash old = Some h))"
    using x key by (intro exI [of _ x]) (cases x; auto)
qed

lemma import_file_supported:
  assumes "records_imports I" and "dict_has FORMAT_MAP (str_lower (path_suffix (path_of path)))"
    and "doc_find_by_hash (im_repo I) (im_sha1 I data) (im_db w) = (Inr x, im_db w)"
  shows "import_file I new path data title w =
    (let w1 = w\<lparr>im_sink := im_sink w @ [Started \<lparr>ims_aggregate_id = im_workspace_id I, ims_workspace_id = im_workspace_id I,
       ims_file_path = path, ims_file_name = path_name (path_of path)\<rparr>]\<rparr>
     in case imported_document I new path (im_sha1 I data) title (x \<noteq> None) of
          Inl e \<Rightarrow> (Inl e, w1)
        | Inr d \<Rightarrow>
            (case storage_save (im_storage I) (original_uri I (dc_id d) (path_name (path_of path))) data (im_fs w) of
               (Inl e, fs) \<Rightarrow> (Inl e, w1\<lparr>im_fs := fs\<rparr>)
             | (Inr _, fs) \<Rightarrow>
                 (case doc_create (im_repo I) d (im_db w) of
                    (Inl e, db) \<Rightarrow> (Inl e, w1\<lparr>im_fs := fs, im_db := db\<rparr>)
                  | (Inr _, db) \<Rightarrow> (Inr d, w1\<lparr>im_fs := fs, im_db := db,
                      im_sink := im_sink w1 @ [Document_Imported (dc_id d) (im_workspace_id I) path (im_sha1 I data),
                        Completed \<lparr>imc_aggregate_id = dc_id d, imc_workspace_id = im_workspace_id I, imc_document_id = dc_id d,
                          imc_file_path = path, imc_file_hash = im_sha1 I data, imc_mime_type = dc_mime_type d,
                          imc_is_duplicate = (x \<noteq> None)\<rparr>]\<rparr>))))"
  by (simp add: import_file_def py_bind_split import_publish_records [OF assms(1)] in_db_app in_fs_app assms(2,3) Let_def
      split: sum.split prod.split)

section \<open>Properties\<close>

text \<open>C21: 
  C0: importing a file of a supported format whose name and hash are allowed, when the storage takes the file and the identifier is new, stores
  the file and a document: the file is loaded again from the address of the document, the document is read back, it is marked a duplicate
  exactly if a document of the database, of whatever workspace, has the same hash, and the three events are published in order.
\<close>

theorem import_file_stores:
  fixes I :: "(import_event list, 'db) import_service"
  assumes "records_imports I" and "sql_table (im_repo I) dr_id (\<lambda>_ _. False) rows"
    and "entity_table.table_ok rows row_of_document (document_storable storable_raw_id) (im_db w)"
    and "names_ok (fp_root (im_storage I))" and "fs_ok (im_fs w)" and "is_dir (im_fs w) (butlast (fp_root (im_storage I)))"
    and "dict_has FORMAT_MAP (str_lower (path_suffix (path_of path)))" and "file_path_init (path_name (path_of path)) = Inr p"
    and "file_hash_init (im_sha1 I data) = Inr h" and "im_workspace_id I \<noteq> []"
    and "storage_save (im_storage I) (original_uri I (st_id new) (path_name (path_of path))) data (im_fs w) = (Inr (), fs')"
    and "fst (doc_get_by_id (im_repo I) (st_id new) (im_db w)) = Inr None"
  shows "\<exists>d w'. import_file I new path data title w = (Inr d, w') \<and> dc_id d = st_id new \<and>
    fst (storage_load (im_storage I) (original_uri I (dc_id d) (path_name (path_of path))) (im_fs w')) = Inr data \<and>
    fst (doc_get_by_id (im_repo I) (dc_id d) (im_db w')) = Inr (Some d) \<and>
    (dc_is_duplicate d \<longleftrightarrow>
      (\<exists>i old. fst (doc_get_by_id (im_repo I) i (im_db w)) = Inr (Some old) \<and> dc_file_hash old = Some (im_sha1 I data))) \<and>
    map (\<lambda>e. case e of Started _ \<Rightarrow> 0 | Document_Imported i _ _ _ \<Rightarrow> if i = dc_id d then 1 else 3 | Completed c \<Rightarrow> if imc_document_id c = dc_id d then 2 else (3::nat))
      (drop (length (im_sink w)) (im_sink w')) = [0, 1, 2]"
proof -
  let ?S = "im_repo I" and ?h = "im_sha1 I data" and ?ent = "entity_table.entities rows document_of_row"
  note docs = documents_of [OF assms(2,3)]
  obtain x where x: "doc_find_by_hash ?S ?h (im_db w) = (Inr x, im_db w)"
    "x \<noteq> None \<longleftrightarrow> (\<exists>k old. ?ent (im_db w) k = Some old \<and> dc_file_hash old = Some ?h)"
    using docs(2) by blast
  obtain d where d: "imported_document I new path ?h title (x \<noteq> None) = Inr d"
    using import_file_document [OF assms(8,9,10)] by blast
  note doc = imported_document_storable [OF d]
  have fresh: "?ent (im_db w) (dc_id d) = None" using assms(12) doc docs(1) by simp
  from docs(3) [OF _ fresh] doc obtain db' where db': "doc_create ?S d (im_db w) = (Inr d, db')"
    "entity_table.table_ok rows row_of_document (document_storable storable_raw_id) db'" "?ent db' = (?ent (im_db w))(dc_id d := Some d)"
    by blast
  obtain u where u: "parse_uri (original_uri I (st_id new) (path_name (path_of path))) = Inr u"
    using assms(11) by (auto simp: storage_save_def on_path_def extract_path_def py_bind_split and_then_def split: sum.splits)
  have load: "fst (storage_load (im_storage I) (original_uri I (dc_id d) (path_name (path_of path))) fs') = Inr data"
    using storage_save_lemma [OF assms(4-6,11) u u] doc by simp
  show ?thesis
    using assms(11) doc x(2) d db' load docs(1) documents_of(1) [OF assms(2) db'(2)]
    by (simp add: import_file_supported [OF assms(1,7) x(1)] Let_def)
qed

text \<open>
  C0: an import that raises leaves the database as it was and has published that it started and nothing else; a file of an unsupported format
  leaves the file system as it was too.
\<close>

theorem import_failure_keeps_database:
  fixes I :: "(import_event list, 'db) import_service"
  assumes "records_imports I" and "sql_table (im_repo I) dr_id (\<lambda>_ _. False) rows"
    and "entity_table.table_ok rows row_of_document (document_storable storable_raw_id) (im_db w)"
    and "import_file I new path data title w = (Inl e, w')"
  shows "im_db w' = im_db w \<and> (\<exists>s. im_sink w' = im_sink w @ [Started s] \<and> ims_file_path s = path) \<and>
    (dict_has FORMAT_MAP (str_lower (path_suffix (path_of path))) \<or>
      e = Exn ValueError (''Unsupported file format: '' @ str_lower (path_suffix (path_of path))) \<and> im_fs w' = im_fs w)"
proof (cases "dict_has FORMAT_MAP (str_lower (path_suffix (path_of path)))")
  case False
  then show ?thesis using assms(4)
    by (auto simp: import_file_def py_bind_split import_publish_records [OF assms(1)])
next
  case True
  note docs = documents_of [OF assms(2,3)]
  obtain x where x: "doc_find_by_hash (im_repo I) (im_sha1 I data) (im_db w) = (Inr x, im_db w)" using docs(2) by blast
  note run = assms(4) [unfolded import_file_supported [OF assms(1) True x] Let_def]
  show ?thesis
  proof (cases "imported_document I new path (im_sha1 I data) title (x \<noteq> None)")
    case (Inl e')
    then show ?thesis using run True by auto
  next
    case (Inr d)
    have "im_db w' = im_db w \<or> im_db w' = snd (doc_create (im_repo I) d (im_db w)) \<and> fst (doc_create (im_repo I) d (im_db w)) = Inl e"
      and "\<exists>s. im_sink w' = im_sink w @ [Started s] \<and> ims_file_path s = path"
      using run unfolding Inr by (auto split: prod.splits sum.splits)
    then show ?thesis using True docs(3,4) [of d] imported_document_storable [OF Inr] by force
  qed
qed

section \<open>A service over the storage in \<open>/data\<close>\<close>

definition sample_import_service :: "(import_event list, document_row list) import_service" where
  "sample_import_service =
     \<lparr>im_workspace_id = ''w'', im_storage = sample_provider, im_repo = list_table dr_id (\<lambda>_ _. False),
      im_publish = (\<lambda>e b. (Inr (), b @ [e])), im_sha1 = (\<lambda>_. replicate 40 CHR ''a'')\<rparr>"

definition sample_import_world :: "(import_event list, document_row list) import_world" where
  "sample_import_world = \<lparr>im_sink = [], im_db = [], im_fs = sample_fs\<rparr>"

lemma sample_import_facts:
  "records_imports sample_import_service"
  "sql_table (im_repo sample_import_service) dr_id (\<lambda>_ _. False) (list_find dr_id)"
  "entity_table.table_ok (list_find dr_id) row_of_document (document_storable storable_raw_id) (im_db sample_import_world)"
  "names_ok (fp_root (im_storage sample_import_service))" "fs_ok (im_fs sample_import_world)"
  "is_dir (im_fs sample_import_world) (butlast (fp_root (im_storage sample_import_service)))"
proof -
  show "records_imports sample_import_service" by (simp add: records_imports_def sample_import_service_def)
  show "sql_table (im_repo sample_import_service) dr_id (\<lambda>_ _. False) (list_find dr_id)"
    by (simp add: sample_import_service_def list_table.sql_table_axioms)
  have "entity_table (list_table dr_id (\<lambda>_ _. False)) dr_id (\<lambda>_ _. False) (list_find dr_id) row_of_document document_of_row
      (document_storable storable_raw_id) dc_id"
    by (rule plain_table.axioms(1) [OF document_table]) (rule list_table.sql_table_axioms)
  then show "entity_table.table_ok (list_find dr_id) row_of_document (document_storable storable_raw_id) (im_db sample_import_world)"
    by (simp add: entity_table.table_ok_def list_find_def sample_import_world_def)
  show "names_ok (fp_root (im_storage sample_import_service))" "fs_ok (im_fs sample_import_world)"
    using sample_fs_ok by (simp_all add: sample_import_service_def sample_import_world_def sample_provider_def)
  show "is_dir (im_fs sample_import_world) (butlast (fp_root (im_storage sample_import_service)))"
    by (simp add: sample_import_service_def sample_import_world_def sample_provider_def sample_fs_def is_dir_def)
qed

lemma import_file_stores_witness:
  "\<exists>d w'. import_file sample_import_service \<lparr>st_id = ''d1'', st_created = 1, st_updated = 1\<rparr> ''in/a.pdf'' [1, 2] [] sample_import_world = (Inr d, w') \<and>
    fst (storage_load sample_provider ''storage://w/originals/d1/a.pdf'' (im_fs w')) = Inr [1, 2] \<and> \<not> dc_is_duplicate d"
proof -
  let ?new = "\<lparr>st_id = ''d1'', st_created = 1, st_updated = 1\<rparr>" and ?I = sample_import_service
  have supported: "dict_has FORMAT_MAP (str_lower (path_suffix (path_of ''in/a.pdf'')))"
    "file_path_init (path_name (path_of ''in/a.pdf'')) = Inr ''a.pdf''"
    "file_hash_init (im_sha1 ?I [1, 2]) = Inr (replicate 40 CHR ''a'')"
    by code_simp+
  have ws: "im_workspace_id ?I \<noteq> []" by (simp add: sample_import_service_def)
  have name: "path_name (path_of ''in/a.pdf'') = ''a.pdf''" by code_simp
  have "fst (storage_save (im_storage ?I) (original_uri ?I (st_id ?new) (path_name (path_of ''in/a.pdf''))) [1, 2] (im_fs sample_import_world)) = Inr ()"
    by code_simp
  then obtain fs' where save: "storage_save (im_storage ?I) (original_uri ?I (st_id ?new) (path_name (path_of ''in/a.pdf''))) [1, 2]
      (im_fs sample_import_world) = (Inr (), fs')" by (metis prod.collapse)
  have none: "fst (doc_get_by_id (im_repo ?I) i (im_db sample_import_world)) = Inr None" for i
    by (simp add: doc_get_by_id_def table_get_def py_bind_split sample_import_service_def sample_import_world_def list_table_def list_find_def)
  from import_file_stores [OF sample_import_facts supported ws save none, of "[]"] none
  show ?thesis unfolding name by (auto simp: original_uri_def) (auto simp: sample_import_service_def)
qed

lemma import_failure_keeps_database_witness:
  "\<exists>w'. import_file sample_import_service \<lparr>st_id = ''d1'', st_created = 1, st_updated = 1\<rparr> ''a.exe'' [1, 2] [] sample_import_world =
    (Inl (Exn ValueError ''Unsupported file format: .exe''), w') \<and> im_db w' = im_db sample_import_world"
proof -
  let ?r = "import_file sample_import_service \<lparr>st_id = ''d1'', st_created = 1, st_updated = 1\<rparr> ''a.exe'' [1, 2] [] sample_import_world"
  have "fst ?r = Inl (Exn ValueError ''Unsupported file format: .exe'')" by code_simp
  then obtain w' where run: "?r = (Inl (Exn ValueError ''Unsupported file format: .exe''), w')" by (metis prod.collapse)
  from import_failure_keeps_database [OF sample_import_facts(1-3) run] show ?thesis using run by blast
qed

end
