(* ===== verification/Ingestion.thy ===== *)
theory Ingestion
  imports Complex_Main State_Machine Storage_Files
begin

text \<open>
  \<open>ingestion/\<close> without the import service: jobs, sources, and the pipeline that takes the files of a source through validation, type
  check and duplicate check, with its manager. What is published may reach the job, which handlers can cancel: publishing is a parameter that
  acts on the sink and on the job. Resolving and reading files are parameters; the source of the file system is over \<open>Storage_Files\<close>.
\<close>

section \<open>Jobs\<close>

datatype ingestion_state =
  IJ_CREATED | IJ_DISCOVERING | IJ_VALIDATING | IJ_IMPORTING | IJ_PAUSED | IJ_CANCELLED | IJ_COMPLETED | IJ_FAILED

fun ingestion_state_value :: "ingestion_state \<Rightarrow> string" where
  "ingestion_state_value IJ_CREATED = ''created''"
| "ingestion_state_value IJ_DISCOVERING = ''discovering''"
| "ingestion_state_value IJ_VALIDATING = ''validating''"
| "ingestion_state_value IJ_IMPORTING = ''importing''"
| "ingestion_state_value IJ_PAUSED = ''paused''"
| "ingestion_state_value IJ_CANCELLED = ''cancelled''"
| "ingestion_state_value IJ_COMPLETED = ''completed''"
| "ingestion_state_value IJ_FAILED = ''failed''"

fun ingestion_transitions :: "ingestion_state \<Rightarrow> ingestion_state set" where
  "ingestion_transitions IJ_CREATED = {IJ_DISCOVERING, IJ_CANCELLED, IJ_FAILED}"
| "ingestion_transitions IJ_DISCOVERING = {IJ_VALIDATING, IJ_PAUSED, IJ_CANCELLED, IJ_FAILED}"
| "ingestion_transitions IJ_VALIDATING = {IJ_IMPORTING, IJ_PAUSED, IJ_CANCELLED, IJ_FAILED}"
| "ingestion_transitions IJ_IMPORTING = {IJ_COMPLETED, IJ_PAUSED, IJ_CANCELLED, IJ_FAILED}"
| "ingestion_transitions IJ_PAUSED = {IJ_DISCOVERING, IJ_VALIDATING, IJ_IMPORTING, IJ_CANCELLED}"
| "ingestion_transitions IJ_CANCELLED = {}"
| "ingestion_transitions IJ_COMPLETED = {}"
| "ingestion_transitions IJ_FAILED = {}"

definition can_transition_ingestion :: "ingestion_state \<Rightarrow> ingestion_state \<Rightarrow> bool" where
  "can_transition_ingestion current target = (target \<in> ingestion_transitions current)"

record ingestion_job =
  ij_workspace_id :: string
  ij_source :: string
  ij_id :: string
  ij_state :: ingestion_state
  ij_start_time :: "int option"
  ij_end_time :: "int option"
  ij_progress :: real
  ij_files_processed :: int
  ij_files_failed :: int
  ij_warnings :: "string list"

definition new_ingestion_job :: "string \<Rightarrow> string \<Rightarrow> string \<Rightarrow> ingestion_job" where
  "new_ingestion_job w src i =
     \<lparr>ij_workspace_id = w, ij_source = src, ij_id = i, ij_state = IJ_CREATED, ij_start_time = None, ij_end_time = None,
      ij_progress = 0, ij_files_processed = 0, ij_files_failed = 0, ij_warnings = []\<rparr>"

definition ingestion_transition :: "int \<Rightarrow> ingestion_state \<Rightarrow> (ingestion_job, unit) py" where
  "ingestion_transition now target =
     py_bind (py_read id) (\<lambda>j.
     if \<not> can_transition_ingestion (ij_state j) target
     then py_raise InvalidJobStateError (''Cannot transition job '' @ quoted (ij_id j) @ '' from '' @
       ingestion_state_value (ij_state j) @ '' to '' @ ingestion_state_value target @ ''.'')
     else
       py_bind (py_when (target = IJ_DISCOVERING \<and> ij_start_time j = None) (py_modify (\<lambda>j. j\<lparr>ij_start_time := Some now\<rparr>))) (\<lambda>_.
       py_bind (py_when (target \<in> {IJ_COMPLETED, IJ_CANCELLED, IJ_FAILED}) (py_modify (\<lambda>j. j\<lparr>ij_end_time := Some now\<rparr>))) (\<lambda>_.
       py_modify (\<lambda>j. j\<lparr>ij_state := target\<rparr>))))"

definition ingestion_terminal :: "ingestion_job \<Rightarrow> bool" where
  "ingestion_terminal j = (ij_state j \<in> {IJ_COMPLETED, IJ_CANCELLED, IJ_FAILED})"

definition add_warning :: "string \<Rightarrow> ingestion_job \<Rightarrow> ingestion_job" where
  "add_warning msg j = j\<lparr>ij_warnings := ij_warnings j @ [msg]\<rparr>"

record ingestion_session =
  is_workspace_id :: string
  is_session_id :: string
  is_jobs :: "ingestion_job list"

definition session_add_job :: "ingestion_job \<Rightarrow> ingestion_session \<Rightarrow> ingestion_session" where
  "session_add_job j s = s\<lparr>is_jobs := is_jobs s @ [j]\<rparr>"

definition session_complete :: "ingestion_session \<Rightarrow> bool" where
  "session_complete s = (is_jobs s \<noteq> [] \<and> list_all ingestion_terminal (is_jobs s))"

definition session_pending :: "ingestion_session \<Rightarrow> ingestion_job list" where
  "session_pending s = filter (\<lambda>j. \<not> ingestion_terminal j) (is_jobs s)"

section \<open>Types of files\<close>

datatype file_category = FC_DOCUMENT | FC_IMAGE | FC_EMAIL | FC_AUDIO | FC_VIDEO | FC_ARCHIVE | FC_UNKNOWN

definition EXTENSION_MAP :: "(string, string \<times> file_category \<times> bool) dict" where
  "EXTENSION_MAP =
     [(''.pdf'', (''application/pdf'', FC_DOCUMENT, True)),
      (''.docx'', (''application/vnd.openxmlformats-officedocument.wordprocessingml.document'', FC_DOCUMENT, True)),
      (''.odt'', (''application/vnd.oasis.opendocument.text'', FC_DOCUMENT, True)),
      (''.txt'', (''text/plain'', FC_DOCUMENT, True)),
      (''.rtf'', (''application/rtf'', FC_DOCUMENT, True)),
      (''.html'', (''text/html'', FC_DOCUMENT, True)),
      (''.htm'', (''text/html'', FC_DOCUMENT, True)),
      (''.eml'', (''message/rfc822'', FC_EMAIL, True)),
      (''.msg'', (''application/vnd.ms-outlook'', FC_EMAIL, True)),
      (''.png'', (''image/png'', FC_IMAGE, True)),
      (''.jpg'', (''image/jpeg'', FC_IMAGE, True)),
      (''.jpeg'', (''image/jpeg'', FC_IMAGE, True)),
      (''.tif'', (''image/tiff'', FC_IMAGE, True)),
      (''.tiff'', (''image/tiff'', FC_IMAGE, True)),
      (''.bmp'', (''image/bmp'', FC_IMAGE, True)),
      (''.webp'', (''image/webp'', FC_IMAGE, True)),
      (''.mp3'', (''audio/mpeg'', FC_AUDIO, False)),
      (''.wav'', (''audio/wav'', FC_AUDIO, False)),
      (''.mp4'', (''video/mp4'', FC_VIDEO, False)),
      (''.mkv'', (''video/x-matroska'', FC_VIDEO, False)),
      (''.zip'', (''application/zip'', FC_ARCHIVE, False))]"

definition extension_entry :: "string \<Rightarrow> (string \<times> file_category \<times> bool) option" where
  "extension_entry path = dict_get EXTENSION_MAP (str_lower (path_suffix (path_of path)))"

definition mime_detect :: "string \<Rightarrow> string \<times> file_category" where
  "mime_detect path = (case extension_entry path of None \<Rightarrow> (''application/octet-stream'', FC_UNKNOWN) | Some (mime, category, _) \<Rightarrow> (mime, category))"

definition mime_supported :: "string \<Rightarrow> bool" where
  "mime_supported path = (case extension_entry path of None \<Rightarrow> False | Some (_, _, supported) \<Rightarrow> supported)"

definition mime_known :: "string \<Rightarrow> bool" where
  "mime_known path = dict_has EXTENSION_MAP (str_lower (path_suffix (path_of path)))"

section \<open>Sources, results, statistics\<close>

record discovered_file =
  df_path :: string
  df_size_bytes :: int
  df_mime_type :: string
  df_category :: file_category

datatype file_outcome = FO_IMPORTED | FO_DUPLICATE | FO_UNSUPPORTED | FO_REJECTED | FO_ERROR

record file_result =
  fr_path :: string
  fr_outcome :: file_outcome
  fr_checksum :: "string option"
  fr_mime_type :: "string option"
  fr_message :: "string option"

record ingestion_result =
  ir_job_id :: string
  ir_files :: "file_result list"

definition result_add :: "file_result \<Rightarrow> ingestion_result \<Rightarrow> ingestion_result" where
  "result_add f r = r\<lparr>ir_files := ir_files r @ [f]\<rparr>"

definition result_count :: "ingestion_result \<Rightarrow> file_outcome \<Rightarrow> nat" where
  "result_count r out = length (filter (\<lambda>f. fr_outcome f = out) (ir_files r))"

record ingestion_statistics =
  is_total_files :: int
  is_imported :: int
  is_skipped :: int
  is_duplicates :: int
  is_unsupported :: int
  is_errors :: int
  is_duration_seconds :: real

definition average_file_time :: "ingestion_statistics \<Rightarrow> real" where
  "average_file_time s = (if is_imported s \<le> 0 then 0 else is_duration_seconds s / real_of_int (is_imported s))"

definition record_imported :: "ingestion_statistics \<Rightarrow> ingestion_statistics" where
  "record_imported s = s\<lparr>is_imported := is_imported s + 1\<rparr>"

definition record_skipped :: "ingestion_statistics \<Rightarrow> ingestion_statistics" where
  "record_skipped s = s\<lparr>is_skipped := is_skipped s + 1\<rparr>"

definition record_duplicate :: "ingestion_statistics \<Rightarrow> ingestion_statistics" where
  "record_duplicate s = s\<lparr>is_duplicates := is_duplicates s + 1\<rparr>"

definition record_unsupported :: "ingestion_statistics \<Rightarrow> ingestion_statistics" where
  "record_unsupported s = s\<lparr>is_unsupported := is_unsupported s + 1\<rparr>"

definition record_error :: "ingestion_statistics \<Rightarrow> ingestion_statistics" where
  "record_error s = s\<lparr>is_errors := is_errors s + 1\<rparr>"

text \<open>What a source yields before it ends, or raises.\<close>

record ingestion_source =
  sr_name :: string
  sr_discover :: "string \<Rightarrow> bool \<Rightarrow> discovered_file list \<times> exn option"

definition describe :: "fs \<Rightarrow> location \<Rightarrow> discovered_file" where
  "describe fs p =
     (let (mime, category) = mime_detect (location_str p)
      in \<lparr>df_path = location_str p, df_size_bytes = (case dict_get fs p of Some (FileNode data) \<Rightarrow> int (length data) | _ \<Rightarrow> 0),
          df_mime_type = mime, df_category = category\<rparr>)"

text \<open>The source of the file system, for absolute locations without two dots in them.\<close>

definition discover_files :: "fs \<Rightarrow> string \<Rightarrow> bool \<Rightarrow> discovered_file list \<times> exn option" where
  "discover_files fs loc recursive =
     (let base = pp_parts (path_of loc) in
      if \<not> dict_has fs base then ([], Some (Exn (OtherException ''DiscoveryError'') (''Location does not exist: '' @ quoted (path_str (path_of loc)) @ ''.'')))
      else if is_file fs base then ([describe fs base], None)
      else
        (map (describe fs) (filter (is_file fs) (sort (filter (\<lambda>q. strict_prefix base q \<and> (recursive \<or> length q = Suc (length base))) (dict_keys fs)))), None))"

definition filesystem_source :: "fs \<Rightarrow> ingestion_source" where
  "filesystem_source fs = \<lparr>sr_name = ''filesystem'', sr_discover = discover_files fs\<rparr>"

section \<open>Validation and duplicates\<close>

record path_validator =
  pv_allowed_root :: "location option"
  pv_resolve :: "string \<Rightarrow> exn + location"
  pv_exists :: "location \<Rightarrow> bool"

definition within_root :: "path_validator \<Rightarrow> location \<Rightarrow> bool" where
  "within_root v resolved =
     (case pv_allowed_root v of None \<Rightarrow> True | Some base \<Rightarrow> base = resolved \<or> (\<exists>k < length resolved. take k resolved = base))"

text \<open>\<open>except OSError\<close> catches its subclasses too.\<close>

definition is_os_error :: "exn \<Rightarrow> bool" where
  "is_os_error exc =
     (exn_class exc \<in> {FileExistsError, NotADirectoryError, IsADirectoryError} \<union> OtherException ` {''OSError'', ''FileNotFoundError'',
        ''PermissionError'', ''BlockingIOError'', ''ChildProcessError'', ''ConnectionError'', ''BrokenPipeError'',
        ''ConnectionAbortedError'', ''ConnectionRefusedError'', ''ConnectionResetError'', ''InterruptedError'',
        ''ProcessLookupError'', ''TimeoutError''})"

definition validate_path :: "path_validator \<Rightarrow> string \<Rightarrow> exn + location" where
  "validate_path v path =
     (case pv_resolve v path of
        Inl exc \<Rightarrow>
          if is_os_error exc
          then Inl (Exn InvalidPathError (''Cannot resolve path '' @ quoted path @ '': '' @ exn_str exc)) else Inl exc
      | Inr resolved \<Rightarrow>
          if \<not> pv_exists v resolved then Inl (Exn InvalidPathError (''Path does not exist: '' @ quoted (location_str resolved) @ ''.''))
          else if pv_allowed_root v \<noteq> None \<and> \<not> within_root v resolved
          then Inl (Exn InvalidPathError (''Path '' @ quoted (location_str resolved) @ '' is outside the allowed root '' @
            quoted (case pv_allowed_root v of None \<Rightarrow> ''None'' | Some base \<Rightarrow> location_str base) @ ''.''))
          else Inr resolved)"

definition is_seen :: "string \<Rightarrow> string set \<Rightarrow> bool" where
  "is_seen c seen = (c \<in> seen)"

definition register_checksum :: "string \<Rightarrow> string set \<Rightarrow> string set" where
  "register_checksum c seen = insert c seen"

definition check_and_register :: "string \<Rightarrow> (string set, bool) py" where
  "check_and_register c =
     py_bind (py_read (\<lambda>seen. c \<in> seen)) (\<lambda>dup.
     if dup then py_return True else py_bind (py_modify (insert c)) (\<lambda>_. py_return False))"

definition reset_seen :: "string set \<Rightarrow> string set" where
  "reset_seen seen = {}"

definition seen_count :: "string set \<Rightarrow> nat" where
  "seen_count seen = card seen"

section \<open>The pipeline\<close>

datatype ingestion_event =
    Import_Started string string
  | Import_Progress string real
  | File_Discovered string string
  | File_Validated string
  | File_Rejected string string
  | Duplicate_Detected string string
  | Import_Completed string
  | Import_Failed string string

record 'b ingestion_env =
  ie_emit :: "ingestion_event \<Rightarrow> ('b \<times> ingestion_job, unit) py"
  ie_source :: ingestion_source
  ie_location :: string
  ie_recursive :: bool
  ie_validator :: path_validator
  ie_checksum :: "string \<Rightarrow> exn + string"
  ie_time :: "ingestion_state \<Rightarrow> int"

record 'b ingestion_world =
  iw_sink :: 'b
  iw_job :: ingestion_job
  iw_statistics :: ingestion_statistics
  iw_result :: ingestion_result
  iw_seen :: "string set"

definition ingestion_emit :: "'b ingestion_env \<Rightarrow> ingestion_event \<Rightarrow> ('b ingestion_world, unit) py" where
  "ingestion_emit env e = py_on (\<lambda>w. (iw_sink w, iw_job w)) (\<lambda>(b, j) w. w\<lparr>iw_sink := b, iw_job := j\<rparr>) (ie_emit env e)"

definition job_move :: "'b ingestion_env \<Rightarrow> ingestion_state \<Rightarrow> ('b ingestion_world, unit) py" where
  "job_move env target = py_on iw_job (\<lambda>j w. w\<lparr>iw_job := j\<rparr>) (ingestion_transition (ie_time env target) target)"

definition count_statistics :: "(ingestion_statistics \<Rightarrow> ingestion_statistics) \<Rightarrow> ('b ingestion_world, unit) py" where
  "count_statistics f = py_modify (\<lambda>w. w\<lparr>iw_statistics := f (iw_statistics w)\<rparr>)"

definition add_file_result :: "file_result \<Rightarrow> ('b ingestion_world, unit) py" where
  "add_file_result r = py_modify (\<lambda>w. w\<lparr>iw_result := result_add r (iw_result w)\<rparr>)"

definition discover :: "'b ingestion_env \<Rightarrow> ('b ingestion_world, discovered_file list) py" where
  "discover env =
     (let (files, raised) = sr_discover (ie_source env) (ie_location env) (ie_recursive env)
      in py_bind (py_for files (\<lambda>f. py_bind (py_read (\<lambda>w. ij_id (iw_job w))) (\<lambda>i. ingestion_emit env (File_Discovered i (df_path f))))) (\<lambda>_.
         case raised of None \<Rightarrow> py_return files | Some e \<Rightarrow> py_lift (Inl e)))"

definition process_file :: "'b ingestion_env \<Rightarrow> discovered_file \<Rightarrow> ('b ingestion_world, unit) py" where
  "process_file env f =
     (case validate_path (ie_validator env) (df_path f) of
        Inl exc \<Rightarrow>
          if exn_class exc = InvalidPathError then
            py_bind (count_statistics record_error) (\<lambda>_.
            py_bind (py_modify (\<lambda>w. w\<lparr>iw_job := (iw_job w)\<lparr>ij_files_failed := ij_files_failed (iw_job w) + 1\<rparr>\<rparr>)) (\<lambda>_.
            py_bind (add_file_result \<lparr>fr_path = df_path f, fr_outcome = FO_REJECTED, fr_checksum = None, fr_mime_type = None,
              fr_message = Some (exn_str exc)\<rparr>) (\<lambda>_.
            ingestion_emit env (File_Rejected (df_path f) (exn_str exc)))))
          else py_lift (Inl exc)
      | Inr _ \<Rightarrow>
          py_bind (ingestion_emit env (File_Validated (df_path f))) (\<lambda>_.
          if \<not> mime_supported (df_path f) then
            py_bind (count_statistics record_unsupported) (\<lambda>_.
            add_file_result \<lparr>fr_path = df_path f, fr_outcome = FO_UNSUPPORTED, fr_checksum = None, fr_mime_type = Some (df_mime_type f),
              fr_message = Some ''Unsupported file type.''\<rparr>)
          else
            py_bind (py_lift (ie_checksum env (df_path f))) (\<lambda>c.
            py_bind (py_on iw_seen (\<lambda>seen w. w\<lparr>iw_seen := seen\<rparr>) (check_and_register c)) (\<lambda>duplicate.
            if duplicate then
              py_bind (count_statistics record_duplicate) (\<lambda>_.
              py_bind (add_file_result \<lparr>fr_path = df_path f, fr_outcome = FO_DUPLICATE, fr_checksum = Some c, fr_mime_type = Some (df_mime_type f),
                fr_message = None\<rparr>) (\<lambda>_.
              ingestion_emit env (Duplicate_Detected (df_path f) c)))
            else
              py_bind (count_statistics record_imported) (\<lambda>_.
              add_file_result \<lparr>fr_path = df_path f, fr_outcome = FO_IMPORTED, fr_checksum = Some c, fr_mime_type = Some (df_mime_type f),
                fr_message = None\<rparr>)))))"

fun process_files :: "'b ingestion_env \<Rightarrow> nat \<Rightarrow> nat \<Rightarrow> discovered_file list \<Rightarrow> ('b ingestion_world, unit) py" where
  "process_files env n k [] = py_return ()"
| "process_files env n k (f # fs) =
     py_bind (py_read (\<lambda>w. ij_state (iw_job w))) (\<lambda>st.
     if st = IJ_CANCELLED then py_return ()
     else
       py_bind (process_file env f) (\<lambda>_.
       py_bind (py_modify (\<lambda>w. w\<lparr>iw_job := (iw_job w)\<lparr>ij_files_processed := ij_files_processed (iw_job w) + 1,
         ij_progress := real k / real n\<rparr>\<rparr>)) (\<lambda>_.
       py_bind (py_read iw_job) (\<lambda>j.
       py_bind (ingestion_emit env (Import_Progress (ij_id j) (ij_progress j))) (\<lambda>_.
       process_files env n (Suc k) fs)))))"

definition process_ingestion :: "'b ingestion_env \<Rightarrow> ('b ingestion_world, ingestion_result) py" where
  "process_ingestion env =
     py_bind (py_read (\<lambda>w. ij_id (iw_job w))) (\<lambda>i.
     py_bind (ingestion_emit env (Import_Started i (sr_name (ie_source env)))) (\<lambda>_.
     py_bind (job_move env IJ_DISCOVERING) (\<lambda>_.
     py_bind (discover env) (\<lambda>files.
     py_bind (count_statistics (\<lambda>s. s\<lparr>is_total_files := int (length files)\<rparr>)) (\<lambda>_.
     py_bind (job_move env IJ_VALIDATING) (\<lambda>_.
     py_bind (job_move env IJ_IMPORTING) (\<lambda>_.
     py_bind (process_files env (length files) 1 files) (\<lambda>_.
     py_bind (py_read (\<lambda>w. ingestion_terminal (iw_job w))) (\<lambda>final.
     py_bind (py_when (\<not> final) (job_move env IJ_COMPLETED)) (\<lambda>_.
     py_bind (ingestion_emit env (Import_Completed i)) (\<lambda>_.
     py_read iw_result)))))))))))"

section \<open>The manager\<close>

record ingestion_registry =
  rg_sources :: "(string, ingestion_source) dict"
  rg_jobs :: "(string, ingestion_job) dict"

definition register_source :: "ingestion_source \<Rightarrow> ingestion_registry \<Rightarrow> ingestion_registry" where
  "register_source s r = r\<lparr>rg_sources := dict_set (sr_name s) s (rg_sources r)\<rparr>"

definition get_source :: "ingestion_registry \<Rightarrow> string \<Rightarrow> ingestion_source option" where
  "get_source r name = dict_get (rg_sources r) name"

definition source_names :: "ingestion_registry \<Rightarrow> string list" where
  "source_names r = dict_keys (rg_sources r)"

definition add_ingestion_job :: "ingestion_job \<Rightarrow> ingestion_registry \<Rightarrow> ingestion_registry" where
  "add_ingestion_job j r = r\<lparr>rg_jobs := dict_set (ij_id j) j (rg_jobs r)\<rparr>"

definition get_ingestion_job :: "ingestion_registry \<Rightarrow> string \<Rightarrow> exn + ingestion_job" where
  "get_ingestion_job r i =
     (case dict_get (rg_jobs r) i of
        None \<Rightarrow> Inl (Exn JobNotFoundError (''No ingestion job with id '' @ quoted i @ ''.''))
      | Some j \<Rightarrow> Inr j)"

definition ingestion_jobs :: "ingestion_registry \<Rightarrow> ingestion_job list" where
  "ingestion_jobs r = dict_values (rg_jobs r)"

definition new_manager :: "fs \<Rightarrow> ingestion_registry \<Rightarrow> ingestion_registry" where
  "new_manager fs r = (if get_source r ''filesystem'' = None then register_source (filesystem_source fs) r else r)"

definition no_source :: "string \<Rightarrow> exn" where
  "no_source name = Exn IngestionError (''No ingestion source registered as '' @ quoted name @ ''.'')"

definition create_ingestion_job :: "string \<Rightarrow> string \<Rightarrow> string \<Rightarrow> string \<Rightarrow> (ingestion_registry, ingestion_job) py" where
  "create_ingestion_job new_id w source loc =
     py_bind (py_read (\<lambda>r. get_source r source)) (\<lambda>found.
     if found = None then py_lift (Inl (no_source source))
     else let j = new_ingestion_job w loc new_id in py_bind (py_modify (add_ingestion_job j)) (\<lambda>_. py_return j))"

definition cancel_ingestion_job :: "int \<Rightarrow> string \<Rightarrow> (ingestion_registry, unit) py" where
  "cancel_ingestion_job now i =
     py_bind (py_read (\<lambda>r. get_ingestion_job r i)) (\<lambda>found.
     py_bind (py_lift found) (\<lambda>j.
     if ingestion_terminal j then py_return ()
     else case ingestion_transition now IJ_CANCELLED j of
            (Inl e, _) \<Rightarrow> py_lift (Inl e)
          | (Inr _, j') \<Rightarrow> py_modify (\<lambda>r. r\<lparr>rg_jobs := dict_set i j' (rg_jobs r)\<rparr>)))"

text \<open>
  \<open>run\<close>: the statistics, with the duration measured at the end, belong to the context of the run and are dropped with it. The state is the
  sink and the job that is run.
\<close>

definition fresh_world :: "'b \<Rightarrow> ingestion_job \<Rightarrow> 'b ingestion_world" where
  "fresh_world b j =
     \<lparr>iw_sink = b, iw_job = j,
      iw_statistics = \<lparr>is_total_files = 0, is_imported = 0, is_skipped = 0, is_duplicates = 0, is_unsupported = 0, is_errors = 0,
        is_duration_seconds = 0\<rparr>,
      iw_result = \<lparr>ir_job_id = ij_id j, ir_files = []\<rparr>, iw_seen = {}\<rparr>"

definition ingestion_failed :: "'b ingestion_env \<Rightarrow> exn \<Rightarrow> ('b ingestion_world, 'a) py" where
  "ingestion_failed env exc =
     py_bind (py_modify (\<lambda>w. w\<lparr>iw_job := add_warning (exn_str exc) (iw_job w)\<rparr>)) (\<lambda>_.
     py_bind (py_read (\<lambda>w. ingestion_terminal (iw_job w))) (\<lambda>final.
     py_bind (py_when (\<not> final) (job_move env IJ_FAILED)) (\<lambda>_.
     py_bind (py_read (\<lambda>w. ij_id (iw_job w))) (\<lambda>i.
     py_bind (ingestion_emit env (Import_Failed i (exn_str exc))) (\<lambda>_.
     py_raise IngestionError (exn_str exc))))))"

definition run_ingestion :: "ingestion_registry \<Rightarrow> 'b ingestion_env \<Rightarrow> string \<Rightarrow> ('b \<times> ingestion_job, ingestion_result) py" where
  "run_ingestion reg env source = (\<lambda>(b, j).
     case get_source reg source of
       None \<Rightarrow> (Inl (no_source source), (b, j))
     | Some src \<Rightarrow>
         let env' = env\<lparr>ie_source := src\<rparr>
         in case py_try (process_ingestion env') (ingestion_failed env') (fresh_world b j) of
              (r, w) \<Rightarrow> (r, (iw_sink w, iw_job w)))"

section \<open>What a run does\<close>

lemma ingestion_transition_cases:
  "ingestion_transition now target j =
    (if can_transition_ingestion (ij_state j) target
     then (Inr (), j\<lparr>ij_start_time := (if target = IJ_DISCOVERING \<and> ij_start_time j = None then Some now else ij_start_time j),
       ij_end_time := (if target \<in> {IJ_COMPLETED, IJ_CANCELLED, IJ_FAILED} then Some now else ij_end_time j), ij_state := target\<rparr>)
     else (Inl (Exn InvalidJobStateError (''Cannot transition job '' @ quoted (ij_id j) @ '' from '' @
       ingestion_state_value (ij_state j) @ '' to '' @ ingestion_state_value target @ ''.'')), j))"
  by (simp add: ingestion_transition_def py_when_def py_bind_split)

interpretation ingestion_job_table: transition_system can_transition_ingestion ij_state "ingestion_transition now"
  by unfold_locales (simp_all add: ingestion_transition_cases)

text \<open>
  The reference: the result of a file depends on the checksums imported before it. A scan ends early where an exception other than the
  refusal of a path ends it.
\<close>

definition file_verdict :: "'b ingestion_env \<Rightarrow> string set \<Rightarrow> discovered_file \<Rightarrow> exn + file_result" where
  "file_verdict env seen f =
     (case validate_path (ie_validator env) (df_path f) of
        Inl exc \<Rightarrow>
          if exn_class exc = InvalidPathError
          then Inr \<lparr>fr_path = df_path f, fr_outcome = FO_REJECTED, fr_checksum = None, fr_mime_type = None, fr_message = Some (exn_str exc)\<rparr>
          else Inl exc
      | Inr _ \<Rightarrow>
          if \<not> mime_supported (df_path f)
          then Inr \<lparr>fr_path = df_path f, fr_outcome = FO_UNSUPPORTED, fr_checksum = None, fr_mime_type = Some (df_mime_type f),
            fr_message = Some ''Unsupported file type.''\<rparr>
          else and_then (ie_checksum env (df_path f)) (\<lambda>c.
            Inr \<lparr>fr_path = df_path f, fr_outcome = (if c \<in> seen then FO_DUPLICATE else FO_IMPORTED), fr_checksum = Some c,
              fr_mime_type = Some (df_mime_type f), fr_message = None\<rparr>))"

definition seen_after :: "file_result \<Rightarrow> string set \<Rightarrow> string set" where
  "seen_after r seen = (case fr_checksum r of None \<Rightarrow> seen | Some c \<Rightarrow> insert c seen)"

fun scan :: "'b ingestion_env \<Rightarrow> string set \<Rightarrow> discovered_file list \<Rightarrow> file_result list \<times> exn option" where
  "scan env seen [] = ([], None)"
| "scan env seen (f # fs) =
     (case file_verdict env seen f of
        Inl e \<Rightarrow> ([], Some e)
      | Inr r \<Rightarrow> (let (rs, e) = scan env (seen_after r seen) fs in (r # rs, e)))"

text \<open>Publishing that only records.\<close>

definition records_ingestion :: "ingestion_event list ingestion_env \<Rightarrow> bool" where
  "records_ingestion env = (\<forall>e b j. ie_emit env e (b, j) = (Inr (), (b @ [e], j)))"

definition counted :: "file_outcome \<Rightarrow> ingestion_statistics \<Rightarrow> ingestion_statistics" where
  "counted out s = (case out of FO_IMPORTED \<Rightarrow> record_imported s | FO_DUPLICATE \<Rightarrow> record_duplicate s | FO_UNSUPPORTED \<Rightarrow> record_unsupported s
     | FO_REJECTED \<Rightarrow> record_error s | FO_ERROR \<Rightarrow> s)"

lemma ingestion_emit_records:
  "records_ingestion env \<Longrightarrow> ingestion_emit env e w = (Inr (), w\<lparr>iw_sink := iw_sink w @ [e]\<rparr>)"
  by (simp add: ingestion_emit_def records_ingestion_def)

lemma process_file_verdict:
  assumes "records_ingestion env"
  shows "\<exists>w'. process_file env f w = (case file_verdict env (iw_seen w) f of Inl e \<Rightarrow> Inl e | Inr r \<Rightarrow> Inr (), w') \<and>
    (case file_verdict env (iw_seen w) f of
       Inl e \<Rightarrow> iw_job w' = iw_job w \<and> iw_result w' = iw_result w \<and> iw_statistics w' = iw_statistics w
     | Inr r \<Rightarrow> iw_result w' = result_add r (iw_result w) \<and> iw_statistics w' = counted (fr_outcome r) (iw_statistics w) \<and>
         iw_seen w' = seen_after r (iw_seen w) \<and>
         iw_job w' = (iw_job w)\<lparr>ij_files_failed := ij_files_failed (iw_job w) + (if fr_outcome r = FO_REJECTED then 1 else 0)\<rparr>)"
proof (cases "validate_path (ie_validator env) (df_path f)")
  case (Inl exc)
  then show ?thesis
    by (simp add: process_file_def file_verdict_def count_statistics_def add_file_result_def ingestion_emit_records [OF assms] py_bind_split
        counted_def seen_after_def)
next
  case (Inr p)
  note valid = this
  show ?thesis
  proof (cases "mime_supported (df_path f)")
    case False
    with valid show ?thesis
      by (simp add: process_file_def file_verdict_def count_statistics_def add_file_result_def ingestion_emit_records [OF assms] py_bind_split
          counted_def seen_after_def)
  next
    case True
    show ?thesis
    proof (cases "ie_checksum env (df_path f)")
      case (Inl e)
      with valid True show ?thesis
        by (simp add: process_file_def file_verdict_def ingestion_emit_records [OF assms] py_bind_split)
    next
      case (Inr c)
      with valid True show ?thesis
        by (simp add: process_file_def file_verdict_def count_statistics_def add_file_result_def check_and_register_def
            ingestion_emit_records [OF assms] py_bind_split counted_def seen_after_def insert_absorb)
    qed
  qed
qed

definition counted_all :: "file_result list \<Rightarrow> ingestion_statistics \<Rightarrow> ingestion_statistics" where
  "counted_all rs s = fold (\<lambda>r. counted (fr_outcome r)) rs s"

definition rejected_in :: "file_result list \<Rightarrow> int" where
  "rejected_in rs = int (length (filter (\<lambda>r. fr_outcome r = FO_REJECTED) rs))"

lemma process_files_scan:
  assumes "records_ingestion env"
  shows "ij_state (iw_job w) \<noteq> IJ_CANCELLED \<Longrightarrow> scan env (iw_seen w) files = (rs, raised) \<Longrightarrow>
    \<exists>w'. process_files env n k files w = (case raised of None \<Rightarrow> Inr () | Some e \<Rightarrow> Inl e, w') \<and>
      ir_files (iw_result w') = ir_files (iw_result w) @ rs \<and> ir_job_id (iw_result w') = ir_job_id (iw_result w) \<and>
      iw_statistics w' = counted_all rs (iw_statistics w) \<and>
      ij_state (iw_job w') = ij_state (iw_job w) \<and> ij_id (iw_job w') = ij_id (iw_job w) \<and> ij_warnings (iw_job w') = ij_warnings (iw_job w) \<and>
      ij_files_processed (iw_job w') = ij_files_processed (iw_job w) + int (length rs) \<and>
      ij_files_failed (iw_job w') = ij_files_failed (iw_job w) + rejected_in rs \<and>
      ij_progress (iw_job w') = (if rs = [] then ij_progress (iw_job w) else real (k + length rs - 1) / real n)"
proof (induction files arbitrary: w k rs)
  case Nil
  then show ?case by (simp add: counted_all_def rejected_in_def)
next
  case (Cons f fs)
  obtain w1 where w1: "process_file env f w = (case file_verdict env (iw_seen w) f of Inl e \<Rightarrow> Inl e | Inr r \<Rightarrow> Inr (), w1)"
    "case file_verdict env (iw_seen w) f of
       Inl e \<Rightarrow> iw_job w1 = iw_job w \<and> iw_result w1 = iw_result w \<and> iw_statistics w1 = iw_statistics w
     | Inr r \<Rightarrow> iw_result w1 = result_add r (iw_result w) \<and> iw_statistics w1 = counted (fr_outcome r) (iw_statistics w) \<and>
         iw_seen w1 = seen_after r (iw_seen w) \<and>
         iw_job w1 = (iw_job w)\<lparr>ij_files_failed := ij_files_failed (iw_job w) + (if fr_outcome r = FO_REJECTED then 1 else 0)\<rparr>"
    using process_file_verdict [OF assms, of f w] by blast
  show ?case
  proof (cases "file_verdict env (iw_seen w) f")
    case (Inl e)
    have "process_files env n k (f # fs) w = (Inl e, w1)" using w1(1) Inl Cons.prems(1) by (simp add: py_bind_split)
    moreover have "rs = []" "raised = Some e" using Cons.prems(2) Inl by simp_all
    ultimately show ?thesis using w1(2) Inl by (simp add: counted_all_def rejected_in_def)
  next
    case (Inr r)
    obtain rs' where rs: "scan env (seen_after r (iw_seen w)) fs = (rs', raised)" "rs = r # rs'"
      using Cons.prems(2) Inr by (cases "scan env (seen_after r (iw_seen w)) fs") simp
    define w2 where "w2 = w1\<lparr>iw_job := (iw_job w1)\<lparr>ij_files_processed := ij_files_processed (iw_job w1) + 1, ij_progress := real k / real n\<rparr>,
      iw_sink := iw_sink w1 @ [Import_Progress (ij_id (iw_job w1)) (real k / real n)]\<rparr>"
    have step: "process_files env n k (f # fs) w = process_files env n (Suc k) fs w2"
      using w1(1) Inr Cons.prems(1) by (simp add: py_bind_split ingestion_emit_records [OF assms] w2_def)
    have w2: "iw_result w2 = result_add r (iw_result w)" "iw_statistics w2 = counted (fr_outcome r) (iw_statistics w)"
      "iw_seen w2 = seen_after r (iw_seen w)"
      "iw_job w2 = (iw_job w)\<lparr>ij_files_failed := ij_files_failed (iw_job w) + (if fr_outcome r = FO_REJECTED then 1 else 0),
        ij_files_processed := ij_files_processed (iw_job w) + 1, ij_progress := real k / real n\<rparr>"
      using w1(2) Inr by (simp_all add: w2_def)
    have "ij_state (iw_job w2) \<noteq> IJ_CANCELLED" using Cons.prems(1) by (simp add: w2)
    from Cons.IH [OF this, of rs' "Suc k"] rs(1)
    show ?thesis unfolding step w2 rs(2) by (auto simp: result_add_def counted_all_def rejected_in_def)
  qed
qed


lemma records_source [simp]: "records_ingestion (env\<lparr>ie_source := src\<rparr>) = records_ingestion env"
  by (simp add: records_ingestion_def)

lemma file_verdict_source [simp]: "file_verdict (env\<lparr>ie_source := src\<rparr>) seen f = file_verdict env seen f"
  by (simp add: file_verdict_def split: sum.split)

lemma scan_source [simp]: "scan (env\<lparr>ie_source := src\<rparr>) seen files = scan env seen files"
  by (induction files arbitrary: seen) (auto split: sum.split)

definition found_events :: "ingestion_job \<Rightarrow> discovered_file list \<Rightarrow> ingestion_event list" where
  "found_events j files = map (\<lambda>f. File_Discovered (ij_id j) (df_path f)) files"

lemma discover_records:
  assumes "records_ingestion env" "sr_discover (ie_source env) (ie_location env) (ie_recursive env) = (files, raised)"
  shows "discover env w = (case raised of None \<Rightarrow> Inr files | Some e \<Rightarrow> Inl e, w\<lparr>iw_sink := iw_sink w @ found_events (iw_job w) files\<rparr>)"
proof -
  have loop: "py_for fs (\<lambda>f. py_bind (py_read (\<lambda>w. ij_id (iw_job w))) (\<lambda>i. ingestion_emit env (File_Discovered i (df_path f)))) w =
      (Inr (), w\<lparr>iw_sink := iw_sink w @ found_events (iw_job w) fs\<rparr>)" for fs w
    by (induction fs arbitrary: w) (simp_all add: py_bind_split ingestion_emit_records [OF assms(1)] found_events_def)
  show ?thesis by (simp add: discover_def assms(2) py_bind_split loop split: option.split)
qed


text \<open>The world in which the files of a source are taken, after its discovery.\<close>

definition importing_world :: "ingestion_event list ingestion_env \<Rightarrow> discovered_file list \<Rightarrow> ingestion_event list \<Rightarrow> ingestion_job \<Rightarrow>
    ingestion_event list ingestion_world" where
  "importing_world env files b j =
     (let w = fresh_world b j
      in w\<lparr>iw_sink := b @ Import_Started (ij_id j) (sr_name (ie_source env)) # found_events j files,
           iw_job := j\<lparr>ij_state := IJ_IMPORTING,
             ij_start_time := (if ij_start_time j = None then Some (ie_time env IJ_DISCOVERING) else ij_start_time j)\<rparr>,
           iw_statistics := (iw_statistics w)\<lparr>is_total_files := int (length files)\<rparr>\<rparr>)"

lemma process_ingestion_importing:
  assumes env: "records_ingestion env" "sr_discover (ie_source env) (ie_location env) (ie_recursive env) = (files, None)"
    and created: "ij_state j = IJ_CREATED"
  shows "process_ingestion env (fresh_world b j) =
    py_bind (process_files env (length files) 1 files) (\<lambda>_.
    py_bind (py_read (\<lambda>w. ingestion_terminal (iw_job w))) (\<lambda>final.
    py_bind (py_when (\<not> final) (job_move env IJ_COMPLETED)) (\<lambda>_.
    py_bind (ingestion_emit env (Import_Completed (ij_id j))) (\<lambda>_.
    py_read iw_result)))) (importing_world env files b j)"
proof -
  have move: "job_move env st w = (fst (ingestion_transition (ie_time env st) st (iw_job w)),
      w\<lparr>iw_job := snd (ingestion_transition (ie_time env st) st (iw_job w))\<rparr>)" for st w
    by (simp add: job_move_def)
  show ?thesis using created
    by (cases j) (simp add: process_ingestion_def py_bind_split ingestion_emit_records [OF env(1)] discover_records [OF env] move
        ingestion_transition_cases can_transition_ingestion_def fresh_world_def importing_world_def count_statistics_def
        found_events_def)
qed

lemma process_ingestion_no_discovery:
  assumes env: "records_ingestion env" "sr_discover (ie_source env) (ie_location env) (ie_recursive env) = (files, Some e)"
    and created: "ij_state j = IJ_CREATED"
  shows "\<exists>w. process_ingestion env (fresh_world b j) = (Inl e, w) \<and> ij_state (iw_job w) = IJ_DISCOVERING \<and>
    ij_warnings (iw_job w) = ij_warnings j \<and> ij_id (iw_job w) = ij_id j \<and> ij_files_processed (iw_job w) = ij_files_processed j"
  by (simp add: process_ingestion_def py_bind_split ingestion_emit_records [OF env(1)] discover_records [OF env] job_move_def
      ingestion_transition_cases can_transition_ingestion_def created fresh_world_def)

lemma process_ingestion_scan:
  assumes env: "records_ingestion env" "sr_discover (ie_source env) (ie_location env) (ie_recursive env) = (files, None)"
    and created: "ij_state j = IJ_CREATED" and scan: "scan env {} files = (rs, raised)"
  shows "\<exists>w. process_ingestion env (fresh_world b j) =
      (case raised of None \<Rightarrow> Inr \<lparr>ir_job_id = ij_id j, ir_files = rs\<rparr> | Some e \<Rightarrow> Inl e, w) \<and>
    ij_state (iw_job w) = (if raised = None then IJ_COMPLETED else IJ_IMPORTING) \<and> ij_id (iw_job w) = ij_id j \<and>
    ij_warnings (iw_job w) = ij_warnings j \<and> ij_files_processed (iw_job w) = ij_files_processed j + int (length rs) \<and>
    ij_files_failed (iw_job w) = ij_files_failed j + rejected_in rs"
proof -
  have start: "ij_state (iw_job (importing_world env files b j)) \<noteq> IJ_CANCELLED"
    "scan env (iw_seen (importing_world env files b j)) files = (rs, raised)"
    using scan by (simp_all add: importing_world_def fresh_world_def)
  from process_files_scan [OF env(1) start, of "length files" 1] obtain w
    where w: "process_files env (length files) 1 files (importing_world env files b j) = (case raised of None \<Rightarrow> Inr () | Some e \<Rightarrow> Inl e, w)"
      "ir_files (iw_result w) = rs" "ir_job_id (iw_result w) = ij_id j" "ij_state (iw_job w) = IJ_IMPORTING" "ij_id (iw_job w) = ij_id j"
      "ij_warnings (iw_job w) = ij_warnings j" "ij_files_processed (iw_job w) = ij_files_processed j + int (length rs)"
      "ij_files_failed (iw_job w) = ij_files_failed j + rejected_in rs"
    by (auto simp: importing_world_def fresh_world_def)
  have "iw_result w = \<lparr>ir_job_id = ij_id j, ir_files = rs\<rparr>" using w(2,3) by simp
  then show ?thesis using w unfolding process_ingestion_importing [OF env created]
    by (cases raised) (simp_all add: py_bind_split ingestion_terminal_def py_when_def job_move_def ingestion_transition_cases
        can_transition_ingestion_def ingestion_emit_records [OF env(1)])
qed

lemma ingestion_failed_records:
  assumes "records_ingestion env" "ij_state (iw_job w) \<in> {IJ_DISCOVERING, IJ_VALIDATING, IJ_IMPORTING}"
  shows "\<exists>w'. ingestion_failed env e w = (Inl (Exn IngestionError (exn_str e)), w') \<and> ij_state (iw_job w') = IJ_FAILED \<and>
    ij_warnings (iw_job w') = ij_warnings (iw_job w) @ [exn_str e] \<and> ij_files_processed (iw_job w') = ij_files_processed (iw_job w) \<and>
    ij_files_failed (iw_job w') = ij_files_failed (iw_job w) \<and>
    iw_sink w' = iw_sink w @ [Import_Failed (ij_id (iw_job w)) (exn_str e)]"
  using assms(2)
  by (auto simp: ingestion_failed_def py_bind_split add_warning_def ingestion_terminal_def py_when_def job_move_def
      ingestion_transition_cases can_transition_ingestion_def ingestion_emit_records [OF assms(1)])


text \<open>A folder with a text file, its copy, a program and a path that the validator refuses.\<close>

definition sample_ingestion_env :: "ingestion_event list ingestion_env" where
  "sample_ingestion_env =
     \<lparr>ie_emit = (\<lambda>e (b, j). (Inr (), (b @ [e], j))), ie_source = \<lparr>sr_name = ''box'', sr_discover = (\<lambda>_ _. ([], None))\<rparr>,
      ie_location = ''/in'', ie_recursive = True,
      ie_validator = \<lparr>pv_allowed_root = None, pv_resolve = (\<lambda>p. Inr [p]), pv_exists = (\<lambda>p. p \<noteq> [''gone.txt''])\<rparr>,
      ie_checksum = (\<lambda>p. if p = ''bad.txt'' then Inl (Exn (OtherException ''OSError'') ''unreadable'') else Inr ''c1''),
      ie_time = (\<lambda>_. 7)\<rparr>"

definition sample_found :: "string \<Rightarrow> discovered_file" where
  "sample_found p = \<lparr>df_path = p, df_size_bytes = 3, df_mime_type = ''text/plain'', df_category = FC_DOCUMENT\<rparr>"

definition sample_registry :: "discovered_file list \<Rightarrow> ingestion_registry" where
  "sample_registry files =
     register_source \<lparr>sr_name = ''box'', sr_discover = (\<lambda>_ _. (files, None))\<rparr> \<lparr>rg_sources = [], rg_jobs = []\<rparr>"

lemma sample_ingestion_records: "records_ingestion sample_ingestion_env"
  by (simp add: records_ingestion_def sample_ingestion_env_def)

lemma sample_registry_source:
  "get_source (sample_registry files) ''box'' = Some \<lparr>sr_name = ''box'', sr_discover = (\<lambda>_ _. (files, None))\<rparr>"
  by (simp add: get_source_def sample_registry_def register_source_def)


text \<open>C23: 
  C0: a run whose source raises, or whose file raises anything but the refusal of a path, raises an \<open>IngestionError\<close> with the text of that
  exception; the job is failed, with that text as its last warning, and counts only the files taken before, and the failure is published last.
\<close>
theorem ingestion_failure_fails_job:
  assumes "records_ingestion env" "get_source reg name = Some src" "sr_discover src (ie_location env) (ie_recursive env) = (files, raised)"
    and "ij_state j = IJ_CREATED"
    and "raised = Some e \<and> rs = [] \<or> raised = None \<and> scan env {} files = (rs, Some e)"
  shows "\<exists>b' j'. run_ingestion reg env name (b, j) = (Inl (Exn IngestionError (exn_str e)), (b', j')) \<and> ij_state j' = IJ_FAILED \<and>
    ij_warnings j' = ij_warnings j @ [exn_str e] \<and> ij_files_processed j' = ij_files_processed j + int (length rs) \<and>
    last b' = Import_Failed (ij_id j) (exn_str e)"
proof -
  let ?env = "env\<lparr>ie_source := src\<rparr>"
  have env: "records_ingestion ?env" "sr_discover (ie_source ?env) (ie_location ?env) (ie_recursive ?env) = (files, raised)"
    using assms by simp_all
  have "\<exists>w. process_ingestion ?env (fresh_world b j) = (Inl e, w) \<and> ij_state (iw_job w) \<in> {IJ_DISCOVERING, IJ_VALIDATING, IJ_IMPORTING} \<and>
      ij_warnings (iw_job w) = ij_warnings j \<and> ij_id (iw_job w) = ij_id j \<and> ij_files_processed (iw_job w) = ij_files_processed j + int (length rs)"
    using assms(5) process_ingestion_no_discovery [of ?env files e j b] process_ingestion_scan [of ?env files j rs "Some e" b] env assms(4)
    by auto
  then obtain w where w: "process_ingestion ?env (fresh_world b j) = (Inl e, w)"
    "ij_state (iw_job w) \<in> {IJ_DISCOVERING, IJ_VALIDATING, IJ_IMPORTING}" "ij_warnings (iw_job w) = ij_warnings j" "ij_id (iw_job w) = ij_id j"
    "ij_files_processed (iw_job w) = ij_files_processed j + int (length rs)" by blast
  from ingestion_failed_records [where 'a = ingestion_result, OF env(1) w(2), of e] w show ?thesis
    by (auto simp: run_ingestion_def py_try_def assms(2))
qed

lemma ingestion_failure_fails_job_witness:
  "\<exists>b' j'. run_ingestion (sample_registry (map sample_found [''a.txt'', ''bad.txt'', ''c.txt''])) sample_ingestion_env ''box''
      ([], new_ingestion_job ''w'' ''/in'' ''j1'') = (Inl (Exn IngestionError ''unreadable''), (b', j')) \<and> ij_state j' = IJ_FAILED \<and>
      ij_files_processed j' = 1"
proof -
  let ?files = "map sample_found [''a.txt'', ''bad.txt'', ''c.txt'']"
  let ?e = "Exn (OtherException ''OSError'') ''unreadable''"
  have scan: "scan sample_ingestion_env {} ?files = (fst (scan sample_ingestion_env {} ?files), Some ?e)"
    "length (fst (scan sample_ingestion_env {} ?files)) = 1"
    by code_simp+
  have created: "ij_state (new_ingestion_job ''w'' ''/in'' ''j1'') = IJ_CREATED" by (simp add: new_ingestion_job_def)
  have src: "sr_discover \<lparr>sr_name = ''box'', sr_discover = (\<lambda>_ _. (?files, None))\<rparr> (ie_location sample_ingestion_env)
      (ie_recursive sample_ingestion_env) = (?files, None)" by simp
  have raised: "None = Some ?e \<and> fst (scan sample_ingestion_env {} ?files) = [] \<or>
      (None :: exn option) = None \<and> scan sample_ingestion_env {} ?files = (fst (scan sample_ingestion_env {} ?files), Some ?e)"
    using scan(1) by simp
  from ingestion_failure_fails_job [OF sample_ingestion_records sample_registry_source src created raised, of "[]"] scan(2)
  show ?thesis by (auto simp: new_ingestion_job_def simp del: list.map)
qed

end
