(* ===== verification/Spec2Isabelle.thy ===== *)
theory Spec2Isabelle
  imports Event_Bus Pipeline_Checkpoints Pipeline_Samples Workers Task_Executor Artifact_Manager
    Plugin_Manager Import_Memory Ocr_Cache_Memory Ocr_Quality Ocr_Pipeline Ocr_Preprocessing
    Ocr_Benchmark Watcher_Runs Watch_Polling Workspace_Manager Document_Repositories Domain_Policies
    Ocr_Artifacts Import_Service Ingestion
begin

text \<open>
  LexMind (\<open>backend/lexmind\<close>) is a local document-processing system. This development models its own
  core logic: the event bus, the document pipeline with retries and checkpoints, the persistent job
  queue with its workers, the task executor, the import queue, artifacts with their dependency graph,
  lineage and repository, the kernel with its modules, the plugin manager, the OCR services around the
  engines, the file watcher, workspaces with their manager and lock, and the domain model with its
  repositories.

  \<^bold>\<open>How the parts interact.\<close> The watcher (\<open>watcher/\<close>) reports files that appear; requests enter through
  the import queue (\<open>import_queue/\<close>), are carried out
  as jobs (\<open>scheduler/\<close>) that workers (\<open>workers/\<close>) take from the queue, or as tasks (\<open>task_executor/\<close>);
  a job of type pipeline runs the stages of \<open>pipeline/\<close>, whose results are artifacts (\<open>artifacts/\<close>),
  among them the output of OCR (\<open>ocr/\<close>), kept by the artifact repository (\<open>repositories/\<close>).
  Workspaces (\<open>workspace/\<close>) hold the documents and cases of the domain model (\<open>domain/\<close>), which the
  repositories (\<open>metadata/\<close>, \<open>repositories/\<close>) store in SQL tables. The kernel (\<open>core/\<close>) and the plugin manager (\<open>plugins/\<close>) start and stop the components, and all of
  them report through the bus (\<open>events/\<close>).

  \<^bold>\<open>Shared theories.\<close> \<open>Prelude\<close> has the Python exceptions and the state-and-exception computation
  \<open>('s, 'a) py\<close> all operations are written in, dictionaries in insertion order, stable descending
  sort, \<open>repr\<close>, \<open>str\<close> and \<open>str.join\<close>. \<open>Dep_Graph\<close> is the depth-first topological sort of \<open>pipeline/\<close> with
  its correctness; \<open>Registry\<close> (locale \<open>registry\<close>) is the contract of the in-memory registries of
  stages, plugins and modules; \<open>Named_Registry\<close> (locale \<open>named_registry\<close>) that of the registries by name of
  the OCR packages; \<open>State_Machine\<close> (locale \<open>transition_system\<close>) that of the objects whose
  status changes along a transition table (jobs, tasks, import requests, artifacts); \<open>Json_Strings\<close> the
  JSON text of string dictionaries, with its round trip; \<open>Json_Values\<close> that of nested values, whose reader
  takes the length of the text as its fuel, which the round trip shows to be enough. \<open>Py_Text\<close> has the
  string methods \<open>strip\<close>, \<open>split\<close>, \<open>lower\<close> and decimal digits. \<open>Sql_Table\<close> is the contract of a table: the locale
  \<open>sql_table\<close> states the documented behaviour of the SQLAlchemy session operations, \<open>entity_table\<close> and
  \<open>plain_table\<close> add the conversion between rows and entities, and the repositories are interpretations on
  a table as a list of rows.

  \<^bold>\<open>Events.\<close> \<open>Event_Bus\<close>: \<open>EventBus\<close>, \<open>SubscriptionRegistry\<close>, \<open>EventDispatcher\<close>, \<open>EventRegistry\<close>. The
  lemmas show the order of the handlers in every reachable state, the isolation of failing handlers
  and the counters.

  \<^bold>\<open>Pipeline.\<close> \<open>Pipeline_Stage\<close> has the data (\<open>StageId\<close>, \<open>RetryPolicy\<close>, results, statistics, checkpoints
  and their in-memory store), \<open>Pipeline_Registry\<close> the registry and its validation,
  \<open>Pipeline_Executor\<close> the executor and the manager. \<open>Pipeline_Run\<close> proves what a run does: attempts,
  delays and events of a stage, the shape of the results, what every way out leaves behind;
  \<open>Pipeline_Checkpoints\<close> that an interrupted run is resumed where it stopped; \<open>Pipeline_Samples\<close> holds
  concrete pipelines and the witnesses. A stage may be attempted at most \<open>max_attempts\<close> times, which is
  the measure of the recursion \<open>run_attempts\<close>.

  \<^bold>\<open>Scheduler and workers.\<close> \<open>Job\<close> is the entity; \<open>Job_Repository\<close> the SQLAlchemy repository, over a session
  with the documented behaviour of a table keyed by id (locale and interpretation on the model's
  repository functions); \<open>Job_Scheduler\<close> the queue, the executor, the scheduler and the pipeline
  dispatcher, and \<open>Job_Scheduling\<close> their properties; \<open>Workers\<close> the worker, its registry and the pool. The
  loops \<open>process_all\<close> and \<open>run_all\<close> may not end, so they take fuel: \<open>process_all_correct\<close> shows that as
  much fuel as there are pending jobs is enough, \<open>worker_run_all_correct\<close> that one more is.
  \<open>Task_Executor\<close> is the task executor; its attempts are bounded by the retries of the task.

  \<^bold>\<open>Import queue.\<close> \<open>Import_Queue\<close> has the requests, the service and, in the locale
  \<open>request_repository\<close>, what the service relies on in its repository, a protocol in the code; the
  lemmas about the service are proved in the locale. \<open>Import_Memory\<close> interprets it on the dictionary
  repository of \<open>tests/unit/test_import_queue.py\<close> and states the properties over it.

  \<^bold>\<open>Artifacts.\<close> \<open>Artifact_Graph\<close> is \<open>DependencyGraph\<close> with the test for cycles and Kahn's algorithm,
  \<open>Artifact_Order\<close> the correctness of the order, \<open>Artifact_Lineage\<close> the queries over the transitive
  relation (locale \<open>dependency_store\<close>); \<open>Artifact\<close> the entity with versions, manifest and metadata;
  \<open>Artifact_Manager\<close> the manager over the artifact registry, a protocol in the code and a parameter
  here. The iteration order of a Python set is a parameter too, so the results hold for every order.

  \<^bold>\<open>Kernel and plugins.\<close> \<open>Core_Kernel\<close> is the kernel with its modules, services and health;
  \<open>Plugin_Version\<close> the comparison of versions; \<open>Plugin_Manager\<close> plugins, their registry and the manager
  with its three-colour search for cycles, which is proved to agree with \<open>Dep_Graph\<close>.

  \<^bold>\<open>OCR.\<close> \<open>Ocr_Cache\<close> is the cache of recognised texts with expiry and eviction; the service uses its
  backend through the locale \<open>cache_backend\<close>, interpreted in \<open>Ocr_Cache_Memory\<close> on the backend in memory, where
  the properties are: what is found is what was stored last, and the bound on the entries.
  \<open>Ocr_Quality\<close> has the quality calculators and the weighted score, \<open>Ocr_Pipeline\<close> the ordered run of
  steps over a page, \<open>Ocr_Preprocessing\<close> the image operations over an engine that is a parameter,
  \<open>Ocr_Benchmark\<close> the benchmark runner with its measure of accuracy. \<open>Ocr_Artifacts\<close> stores the output of
  a run over the artifact repository of \<open>Artifact_Store\<close>, and has the page artifacts with their service.

  \<^bold>\<open>Watcher.\<close> \<open>Watcher\<close> is the debouncing file watcher over a backend, \<open>Watcher_Runs\<close> what it delivers in
  any run of calls; \<open>Watch_Polling\<close> the backend that polls a storage. The walk through the directories is a
  \<open>partial_function\<close> with \<open>None\<close> for a walk that does not end; \<open>poll_reports_difference\<close> shows that it ends
  where no directory contains itself.

  \<^bold>\<open>Workspaces.\<close> \<open>Workspace_Repository\<close> is the repository with soft deletion, \<open>Workspace_Service\<close> the
  service with validator, initializer and life cycle (locale \<open>workspace_store\<close>), \<open>Workspace_Aggregate\<close> the
  workspace of the package \<open>workspace/\<close> with its states and manifest, \<open>Workspace_Manager\<close> the manager with the
  lock (locale \<open>managed_workspaces\<close>); waiting for a lock that is never given back is the value \<open>None\<close>.

  \<^bold>\<open>Domain.\<close> \<open>Domain_Values\<close> has the value objects, \<open>Domain_Entities\<close> the entities, \<open>Domain_Aggregates\<close> the
  aggregates with their invariants, \<open>Domain_Policies\<close> policies, specifications and factories;
  \<open>Document_Repositories\<close> the repositories of documents and cases, which refine a finite map, with the exact
  condition under which the identifiers in a column survive the round trip; \<open>Artifact_Store\<close> the artifact
  repository.

  \<^bold>\<open>Storage and ingestion.\<close> \<open>Storage_Uri\<close> has the addresses \<open>storage://workspace/path\<close> over pure paths,
  \<open>Storage_Files\<close> the provider over a file system (\<open>storage/filesystem.py\<close>), \<open>Storage_Manager\<close> the manager: calls on
  it change nothing outside the root and its siblings of the same prefix, and what is saved is loaded
  again. The file system is a dictionary of locations; its operations stand for those of \<open>pathlib\<close> and \<open>shutil\<close>. A walk
  through a directory ends by the measure of the longest location. \<open>Ingestion\<close> has the jobs, the detectors, the
  pipeline and its manager, with a reference that gives the result of each file (\<open>file_verdict\<close>, \<open>scan\<close>) and the proof that a run
  follows it (locale \<open>transition_system\<close> for the states of a job). \<open>Import_Service\<close> combines the storage manager with the
  document repository: \<open>import_file_stores\<close> uses the laws of both.

  \<^bold>\<open>Conventions.\<close> An operation that may raise or mutate is a \<open>py\<close> computation: what was mutated before
  a raise stays mutated. Stage methods, job handlers and task handlers are functions of the object
  they are given; they do not reach the bus or the repository. Times from the wall clock are integers,
  durations and delays reals, Python's integers are unbounded. Strings are over code points below 256.
  A time is read back from a table as it was stored; that SQLite drops its zone is not visible. The quality
  calculators divide with \<open>true_div\<close>, which raises for zero; elsewhere a quotient is only formed under the
  guard the code has.
  Clocks, identifiers, event sinks and databases are parameters; where the code relies on their
  behaviour, a named hypothesis says so, and a witness fulfils it. Log output is not modelled.

  \<^bold>\<open>Not modelled.\<close> The packages \<open>api\<close>, \<open>application\<close>, \<open>infrastructure\<close>, \<open>interfaces\<close>, \<open>services\<close>,
  \<open>shared\<close> and \<open>utils\<close> hold no code. The OCR providers, the document detectors (\<open>layout\<close>,
  \<open>table_detection\<close>, \<open>barcode_qr\<close>, \<open>language_detection\<close>), the plugin loader and its discovery are for the larger part calls of third-party
  libraries and of the file system; \<open>config\<close> and the set-up of the database (\<open>metadata/session\<close>, \<open>schema\<close>, \<open>migrations\<close>) likewise.
  The plugins that wrap the OCR services only pass calls on. Of the storage, open file handles and symbolic
  links are missing, and copying a directory below itself is only its error; the discovery of files is over
  locations without two dots; codecs and hash functions are parameters.
\<close>

end
